(* ===== verification/Prelude.thy ===== *)
theory Prelude
  imports Main "HOL-Library.Word" "HOL-Library.Multiset"
begin

text \<open>
  Shared vocabulary of the Watch development.

  \<^item> Strings. A Rust \<open>String\<close> is its UTF-8 bytes; it is modelled as a HOL \<open>string\<close> (a list of
    8-bit characters), so \<open>len()\<close> is \<open>length\<close>, byte comparisons are comparisons of characters
    and the derived order of strings is the lexicographic order of bytes.
  \<^item> Results. A Rust \<open>Result<T,E>\<close> is the sum \<open>'e + 't\<close>: \<open>Inl\<close> is the error, \<open>Inr\<close> the value;
    \<open>sbind\<close> is the question mark operator and \<open>mapR\<close> is \<open>iter().map(f).collect::<Result<_,_>>()\<close>.
  \<^item> Integers. \<open>u64\<close> values are \<open>nat\<close>s; the operations that can leave the range are written with
    their wrap-around (release profile) or saturation: \<open>wadd64\<close>, \<open>sat_add64\<close>, \<open>wsum64\<close>.

  The collections \<open>watch_simps\<close> (rewrites that evaluate the shared combinators) and
  \<open>watch_defs\<close> are used throughout.
\<close>

named_theorems watch_simps \<open>evaluation of the shared combinators\<close>
named_theorems watch_defs \<open>unfolding of small model definitions\<close>

section \<open>Results\<close>

definition sbind :: "'e + 'a \<Rightarrow> ('a \<Rightarrow> 'e + 'b) \<Rightarrow> 'e + 'b" where
  "sbind r f = (case r of Inl e \<Rightarrow> Inl e | Inr x \<Rightarrow> f x)"

lemma sbind_simps [simp, watch_simps]:
  "sbind (Inl e) f = Inl e"
  "sbind (Inr x) f = f x"
  by (simp_all add: sbind_def)

lemma sbind_eq_Inr: "sbind r f = Inr y \<longleftrightarrow> (\<exists>x. r = Inr x \<and> f x = Inr y)"
  by (cases r) simp_all

lemma sbind_eq_Inl: "sbind r f = Inl e \<longleftrightarrow> r = Inl e \<or> (\<exists>x. r = Inr x \<and> f x = Inl e)"
  by (cases r) auto

lemma sbindE [elim!]:
  assumes "sbind r f = Inr y"
  obtains x where "r = Inr x" "f x = Inr y"
  using assms by (auto simp: sbind_eq_Inr)

lemma sbind_cong [fundef_cong]:
  "r = r' \<Longrightarrow> (\<And>x. r' = Inr x \<Longrightarrow> f x = f' x) \<Longrightarrow> sbind r f = sbind r' f'"
  by (cases r') auto

lemma if_Inl_Inr [simp]: "(if b then Inl e else r) = Inr y \<longleftrightarrow> \<not> b \<and> r = Inr y"
  by auto

definition ensure :: "bool \<Rightarrow> 'e \<Rightarrow> 'e + unit" where
  "ensure b e = (if b then Inr () else Inl e)"

lemma ensure_eq_Inr [simp]: "ensure b e = Inr x \<longleftrightarrow> b"
  by (simp add: ensure_def)

lemma ensure_True [simp, watch_simps]: "b \<Longrightarrow> ensure b e = Inr ()"
  by (simp add: ensure_def)

definition ok_or :: "'a option \<Rightarrow> 'e \<Rightarrow> 'e + 'a" where
  "ok_or x e = (case x of None \<Rightarrow> Inl e | Some y \<Rightarrow> Inr y)"

lemma ok_or_simps [simp, watch_simps]:
  "ok_or None e = Inl e" "ok_or (Some y) e = Inr y"
  by (simp_all add: ok_or_def)

lemma ok_or_eq_Inr [simp]: "ok_or x e = Inr y \<longleftrightarrow> x = Some y"
  by (cases x) auto

definition map_err :: "('e \<Rightarrow> 'f) \<Rightarrow> 'e + 'a \<Rightarrow> 'f + 'a" where
  "map_err g r = (case r of Inl e \<Rightarrow> Inl (g e) | Inr x \<Rightarrow> Inr x)"

lemma map_err_simps [simp, watch_simps]:
  "map_err g (Inl e) = Inl (g e)" "map_err g (Inr x) = Inr x"
  by (simp_all add: map_err_def)

lemma map_err_eq_Inr [simp]: "map_err g r = Inr x \<longleftrightarrow> r = Inr x"
  by (cases r) auto

fun mapR :: "('a \<Rightarrow> 'e + 'b) \<Rightarrow> 'a list \<Rightarrow> 'e + 'b list" where
  "mapR f [] = Inr []"
| "mapR f (x # xs) = sbind (f x) (\<lambda>y. sbind (mapR f xs) (\<lambda>ys. Inr (y # ys)))"

lemma mapR_eq_Inr: "mapR f xs = Inr ys \<longleftrightarrow> list_all2 (\<lambda>x y. f x = Inr y) xs ys"
  by (induction xs arbitrary: ys) (auto simp: sbind_eq_Inr list_all2_Cons1)

lemma mapR_map_inverse:
  assumes "\<And>x. x \<in> set xs \<Longrightarrow> f (g x) = Inr x"
  shows "mapR f (map g xs) = Inr xs"
  using assms by (induction xs) simp_all

lemma mapR_length: "mapR f xs = Inr ys \<Longrightarrow> length ys = length xs"
  by (auto simp: mapR_eq_Inr dest: list_all2_lengthD)

lemma mapR_set:
  assumes "mapR f xs = Inr ys" and "y \<in> set ys"
  obtains x where "x \<in> set xs" "f x = Inr y"
proof -
  from assms obtain i where i: "i < length ys" "y = ys ! i"
    by (auto simp: in_set_conv_nth)
  with assms(1) have "f (xs ! i) = Inr y" "i < length xs"
    by (auto simp: mapR_eq_Inr list_all2_conv_all_nth)
  then show thesis by (intro that [of "xs ! i"]) simp_all
qed

text \<open>A loop that stops at the first error.\<close>

fun forR :: "('a \<Rightarrow> 'e + 'b) \<Rightarrow> 'a list \<Rightarrow> 'e + unit" where
  "forR f [] = Inr ()"
| "forR f (x # xs) = sbind (f x) (\<lambda>_. forR f xs)"

lemma forR_eq_Inr: "forR f xs = Inr u \<longleftrightarrow> (\<forall>x \<in> set xs. \<exists>y. f x = Inr y)"
  by (induction xs) (auto simp: sbind_eq_Inr)

section \<open>Machine arithmetic\<close>

definition u64_max :: nat where "u64_max = 2 ^ 64 - 1"

definition wadd64 :: "nat \<Rightarrow> nat \<Rightarrow> nat" where
  "wadd64 a b = (a + b) mod 2 ^ 64"

definition wmul64 :: "nat \<Rightarrow> nat \<Rightarrow> nat" where
  "wmul64 a b = (a * b) mod 2 ^ 64"

definition sat_add64 :: "nat \<Rightarrow> nat \<Rightarrow> nat" where
  "sat_add64 a b = min (a + b) u64_max"

text \<open>\<open>iter().sum::<u64>()\<close> of the release profile.\<close>

definition wsum64 :: "nat list \<Rightarrow> nat" where
  "wsum64 xs = foldl wadd64 0 xs"

lemma wadd64_exact [simp]: "a + b < 2 ^ 64 \<Longrightarrow> wadd64 a b = a + b"
  by (simp add: wadd64_def)

lemma wadd64_less [simp]: "wadd64 a b < 2 ^ 64"
  by (simp add: wadd64_def)

lemma sat_add64_exact: "a + b \<le> u64_max \<Longrightarrow> sat_add64 a b = a + b"
  by (simp add: sat_add64_def)

lemma sat_add64_le_sum: "sat_add64 a b \<le> a + b"
  by (simp add: sat_add64_def)

lemma sat_add64_mono: "a \<le> a' \<Longrightarrow> b \<le> b' \<Longrightarrow> sat_add64 a b \<le> sat_add64 a' b'"
  by (simp add: sat_add64_def)

lemma foldl_wadd64: "foldl wadd64 a xs = (if xs = [] then a else (a + sum_list xs) mod 2 ^ 64)"
  by (induction xs arbitrary: a) (auto simp: wadd64_def mod_simps algebra_simps)

lemma wsum64_eq: "wsum64 xs = sum_list xs mod 2 ^ 64"
  by (simp add: wsum64_def foldl_wadd64)

lemma wsum64_exact: "sum_list xs < 2 ^ 64 \<Longrightarrow> wsum64 xs = sum_list xs"
  by (simp add: wsum64_eq)

section \<open>Lexicographic orders\<close>

text \<open>
  \<open>String\<close> compares bytes lexicographically, and RFC 8785 compares UTF-16 code units
  lexicographically. Both are \<open>lex_less\<close> on lists of numbers, seen through a key function.
\<close>

fun lex_less :: "nat list \<Rightarrow> nat list \<Rightarrow> bool" where
  "lex_less [] [] = False"
| "lex_less [] (y # ys) = True"
| "lex_less (x # xs) [] = False"
| "lex_less (x # xs) (y # ys) = (x < y \<or> x = y \<and> lex_less xs ys)"

lemma lex_less_irrefl [simp]: "\<not> lex_less a a"
  by (induction a) simp_all

lemma lex_less_trans: "lex_less a b \<Longrightarrow> lex_less b c \<Longrightarrow> lex_less a c"
proof (induction a b arbitrary: c rule: lex_less.induct)
  case (2 y ys)
  then show ?case by (cases c) auto
next
  case (4 x xs y ys)
  then show ?case by (cases c) auto
qed auto

lemma lex_less_linear: "lex_less a b \<or> a = b \<or> lex_less b a"
  by (induction a b rule: lex_less.induct) auto

lemma lex_less_asym: "lex_less a b \<Longrightarrow> \<not> lex_less b a"
  using lex_less_trans lex_less_irrefl by blast

lemma lex_less_append: "lex_less xs ys \<Longrightarrow> \<not> (\<exists>zs. ys = xs @ zs) \<Longrightarrow> lex_less (xs @ us) (ys @ vs)"
  by (induction xs ys rule: lex_less.induct) auto

definition bytes :: "string \<Rightarrow> nat list" where
  "bytes s = map of_char s"

lemma bytes_simps [simp]: "bytes [] = []" "bytes (c # s) = of_char c # bytes s"
  by (simp_all add: bytes_def)

lemma bytes_eq_iff [simp]: "bytes a = bytes b \<longleftrightarrow> a = b"
proof (induction a arbitrary: b)
  case Nil
  then show ?case by (cases b) auto
next
  case (Cons c a)
  then show ?case by (cases b) auto
qed

definition str_less :: "string \<Rightarrow> string \<Rightarrow> bool" where
  "str_less a b \<longleftrightarrow> lex_less (bytes a) (bytes b)"

definition str_le :: "string \<Rightarrow> string \<Rightarrow> bool" where
  "str_le a b \<longleftrightarrow> \<not> str_less b a"

lemma str_less_irrefl [simp]: "\<not> str_less a a"
  by (simp add: str_less_def)

lemma str_less_trans: "str_less a b \<Longrightarrow> str_less b c \<Longrightarrow> str_less a c"
  unfolding str_less_def by (rule lex_less_trans)

lemma str_less_linear: "str_less a b \<or> a = b \<or> str_less b a"
  unfolding str_less_def using lex_less_linear [of "bytes a" "bytes b"] by simp

lemma str_less_asym: "str_less a b \<Longrightarrow> \<not> str_less b a"
  using str_less_trans str_less_irrefl by blast

lemma str_le_refl [simp]: "str_le a a"
  by (simp add: str_le_def)

lemma str_le_trans: "str_le a b \<Longrightarrow> str_le b c \<Longrightarrow> str_le a c"
  unfolding str_le_def using str_less_linear str_less_trans by blast

lemma str_le_antisym: "str_le a b \<Longrightarrow> str_le b a \<Longrightarrow> a = b"
  unfolding str_le_def using str_less_linear by blast

lemma str_le_linear: "str_le a b \<or> str_le b a"
  unfolding str_le_def using str_less_asym by blast

lemma str_le_iff: "str_le a b \<longleftrightarrow> str_less a b \<or> a = b"
  unfolding str_le_def using str_less_linear str_less_asym str_less_irrefl by blast

section \<open>Stable sorting with an explicit order\<close>

text \<open>
  \<open>slice::sort_by\<close> is a stable sort. \<open>ins_by\<close> inserts before the first strictly greater
  element, folding from the right, which keeps equal elements in their order.
\<close>

fun ins_by :: "('a \<Rightarrow> 'a \<Rightarrow> bool) \<Rightarrow> 'a \<Rightarrow> 'a list \<Rightarrow> 'a list" where
  "ins_by le x [] = [x]"
| "ins_by le x (y # ys) = (if le x y then x # y # ys else y # ins_by le x ys)"

definition sort_by :: "('a \<Rightarrow> 'a \<Rightarrow> bool) \<Rightarrow> 'a list \<Rightarrow> 'a list" where
  "sort_by le xs = foldr (ins_by le) xs []"

lemma set_ins_by [simp]: "set (ins_by le x ys) = insert x (set ys)"
  by (induction ys) auto

lemma set_sort_by [simp]: "set (sort_by le xs) = set xs"
  by (induction xs) (auto simp: sort_by_def)

lemma length_ins_by [simp]: "length (ins_by le x ys) = Suc (length ys)"
  by (induction ys) auto

lemma length_sort_by [simp]: "length (sort_by le xs) = length xs"
  by (induction xs) (auto simp: sort_by_def)

lemma mset_ins_by [simp]: "mset (ins_by le x ys) = add_mset x (mset ys)"
  by (induction ys) auto

lemma mset_sort_by [simp]: "mset (sort_by le xs) = mset xs"
  by (induction xs) (auto simp: sort_by_def)

lemma distinct_sort_by [simp]: "distinct (sort_by le xs) = distinct xs"
  by (metis mset_sort_by mset_eq_imp_distinct_iff)

locale total_preorder =
  fixes le :: "'a \<Rightarrow> 'a \<Rightarrow> bool"
  assumes refl: "le a a"
    and trans: "le a b \<Longrightarrow> le b c \<Longrightarrow> le a c"
    and total: "le a b \<or> le b a"
begin

lemma sorted_ins_by: "sorted_wrt le ys \<Longrightarrow> sorted_wrt le (ins_by le x ys)"
  by (induction ys) (auto intro: trans dest: total [THEN disjE] simp: refl, (meson total trans)+)

lemma sorted_sort_by: "sorted_wrt le (sort_by le xs)"
  by (induction xs) (auto simp: sort_by_def sorted_ins_by)

lemma ins_by_Cons_sorted: "sorted_wrt le (x # xs) \<Longrightarrow> ins_by le x xs = x # xs"
  by (cases xs) auto

lemma sort_by_sorted: "sorted_wrt le xs \<Longrightarrow> sort_by le xs = xs"
proof (induction xs)
  case (Cons x xs)
  then have "sort_by le xs = xs" by simp
  moreover have "sort_by le (x # xs) = ins_by le x (sort_by le xs)"
    by (simp add: sort_by_def)
  ultimately show ?case
    using Cons.prems ins_by_Cons_sorted [of x xs] by simp
qed (simp add: sort_by_def)

lemma sort_by_hd_least:
  assumes "xs \<noteq> []" and "y \<in> set xs"
  shows "le (hd (sort_by le xs)) y"
proof -
  have "sort_by le xs \<noteq> []"
    using assms(1) length_sort_by [of le xs] by (metis length_0_conv)
  then obtain z zs where z: "sort_by le xs = z # zs"
    by (cases "sort_by le xs") auto
  then have "\<forall>w \<in> set zs. le z w" using sorted_sort_by [of xs] by simp
  moreover have "y \<in> set (z # zs)" using assms(2) z by (metis set_sort_by)
  ultimately show ?thesis using z refl by auto
qed

lemma sorted_unique_keys:
  assumes "sorted_wrt le xs" and "sorted_wrt le ys" and "mset xs = mset ys"
    and "\<And>a b. a \<in> set xs \<Longrightarrow> b \<in> set xs \<Longrightarrow> le a b \<Longrightarrow> le b a \<Longrightarrow> a = b"
  shows "xs = ys"
  using assms
proof (induction xs arbitrary: ys)
  case (Cons x xs)
  from Cons.prems(3) obtain y ys' where ys: "ys = y # ys'"
    by (cases ys) auto
  have "set ys = set (x # xs)" using Cons.prems(3) by (metis set_mset_mset)
  then have "x \<in> set ys" "y \<in> set (x # xs)" using ys by auto
  with Cons.prems(1,2) ys have "le x y" "le y x" by (auto simp: refl)
  then have "x = y" using Cons.prems(4) \<open>y \<in> set (x # xs)\<close> by simp
  moreover have "xs = ys'"
    using Cons.IH [of ys'] Cons.prems ys \<open>x = y\<close> by simp
  ultimately show ?case using ys by simp
qed simp

end

interpretation str_order: total_preorder str_le
  by unfold_locales (auto intro: str_le_trans simp: str_le_linear)

section \<open>Association lists\<close>

lemma map_of_Some_in: "map_of m k = Some v \<Longrightarrow> (k, v) \<in> set m"
  by (rule map_of_SomeD)

text \<open>Insert or replace: the row keeps its place, a new row goes last.\<close>

fun put_assoc :: "'k \<Rightarrow> 'v \<Rightarrow> ('k \<times> 'v) list \<Rightarrow> ('k \<times> 'v) list" where
  "put_assoc k v [] = [(k, v)]"
| "put_assoc k v ((a, b) # m) = (if a = k then (a, v) # m else (a, b) # put_assoc k v m)"

lemma map_of_put_assoc [simp]: "map_of (put_assoc k v m) = (map_of m)(k \<mapsto> v)"
  by (induction m) (auto simp: fun_eq_iff)

lemma fst_put_assoc [simp]: "fst ` set (put_assoc k v m) = insert k (fst ` set m)"
  by (simp flip: dom_map_of_conv_image_fst)

lemma distinct_put_assoc [simp]: "distinct (map fst m) \<Longrightarrow> distinct (map fst (put_assoc k v m))"
proof (induction m)
  case (Cons p m)
  then show ?case
    using fst_put_assoc [of k v m] by (cases p) (auto simp del: fst_put_assoc)
qed simp

lemma put_assoc_set:
  assumes "(a, b) \<in> set (put_assoc k v m)" and "distinct (map fst m)"
  shows "(a = k \<and> b = v) \<or> (a \<noteq> k \<and> (a, b) \<in> set m)"
  using assms by (induction m) (force split: if_splits)+

text \<open>\<open>str::split\<close> on one character.\<close>

fun split_on :: "char \<Rightarrow> string \<Rightarrow> string list" where
  "split_on d [] = [[]]"
| "split_on d (c # cs) = (if c = d then [] # split_on d cs
     else case split_on d cs of [] \<Rightarrow> [[c]] | w # ws \<Rightarrow> (c # w) # ws)"

end
