(* ===== verification/Faults.thy ===== *)
theory Faults
  imports Prelude
begin

text \<open>
  The wire faults (\<open>fault.rs\<close>): the closed enumeration \<open>Code\<close>, its wire names, which faults are
  retryable, and the exit code tables of the command line (\<open>fault.rs\<close> and \<open>doctor.rs\<close>). A fault
  is the error side of every result of the model.
\<close>

section \<open>Codes\<close>

datatype Code =
    BadFrame | BadJson | SchemaInvalid | UnsupportedVersion | MethodUnknown
    | Unauthenticated | Forbidden | NotFound | StateConflict | RevisionConflict
    | IdempotencyConflict | RateLimited | Capacity | Gated | AdapterUnavailable
    | PolicyInvalid | PolicyStale | SignatureInvalid | SourceGap | SourceFork
    | SourceStale | SourceBinding | CounterRollback | TargetStale | ReviewStale
    | LeaseExpired | EffectConflict | AuditUnavailable | CounterExhausted | BundleLimit
    | ArtifactUnavailable | ClockFault | MigrationRequired

fun code_as_str :: "Code \<Rightarrow> string" where
  "code_as_str BadFrame = ''BAD_FRAME''"
| "code_as_str BadJson = ''BAD_JSON''"
| "code_as_str SchemaInvalid = ''SCHEMA_INVALID''"
| "code_as_str UnsupportedVersion = ''UNSUPPORTED_VERSION''"
| "code_as_str MethodUnknown = ''METHOD_UNKNOWN''"
| "code_as_str Unauthenticated = ''UNAUTHENTICATED''"
| "code_as_str Forbidden = ''FORBIDDEN''"
| "code_as_str NotFound = ''NOT_FOUND''"
| "code_as_str StateConflict = ''STATE_CONFLICT''"
| "code_as_str RevisionConflict = ''REVISION_CONFLICT''"
| "code_as_str IdempotencyConflict = ''IDEMPOTENCY_CONFLICT''"
| "code_as_str RateLimited = ''RATE_LIMITED''"
| "code_as_str Capacity = ''CAPACITY''"
| "code_as_str Gated = ''GATED''"
| "code_as_str AdapterUnavailable = ''ADAPTER_UNAVAILABLE''"
| "code_as_str PolicyInvalid = ''POLICY_INVALID''"
| "code_as_str PolicyStale = ''POLICY_STALE''"
| "code_as_str SignatureInvalid = ''SIGNATURE_INVALID''"
| "code_as_str SourceGap = ''SOURCE_GAP''"
| "code_as_str SourceFork = ''SOURCE_FORK''"
| "code_as_str SourceStale = ''SOURCE_STALE''"
| "code_as_str SourceBinding = ''SOURCE_BINDING''"
| "code_as_str CounterRollback = ''COUNTER_ROLLBACK''"
| "code_as_str TargetStale = ''TARGET_STALE''"
| "code_as_str ReviewStale = ''REVIEW_STALE''"
| "code_as_str LeaseExpired = ''LEASE_EXPIRED''"
| "code_as_str EffectConflict = ''EFFECT_CONFLICT''"
| "code_as_str AuditUnavailable = ''AUDIT_UNAVAILABLE''"
| "code_as_str CounterExhausted = ''COUNTER_EXHAUSTED''"
| "code_as_str BundleLimit = ''BUNDLE_LIMIT''"
| "code_as_str ArtifactUnavailable = ''ARTIFACT_UNAVAILABLE''"
| "code_as_str ClockFault = ''CLOCK_FAULT''"
| "code_as_str MigrationRequired = ''MIGRATION_REQUIRED''"

fun code_retryable :: "Code \<Rightarrow> bool" where
  "code_retryable RateLimited = True"
| "code_retryable Capacity = True"
| "code_retryable AuditUnavailable = True"
| "code_retryable SourceStale = True"
| "code_retryable _ = False"

fun code_exit_code :: "Code \<Rightarrow> int" where
  "code_exit_code BadFrame = 2"
| "code_exit_code BadJson = 2"
| "code_exit_code SchemaInvalid = 2"
| "code_exit_code UnsupportedVersion = 2"
| "code_exit_code MethodUnknown = 2"
| "code_exit_code Unauthenticated = 4"
| "code_exit_code Forbidden = 4"
| "code_exit_code NotFound = 4"
| "code_exit_code StateConflict = 4"
| "code_exit_code RevisionConflict = 4"
| "code_exit_code IdempotencyConflict = 4"
| "code_exit_code RateLimited = 5"
| "code_exit_code Capacity = 5"
| "code_exit_code Gated = 5"
| "code_exit_code AdapterUnavailable = 5"
| "code_exit_code PolicyInvalid = 2"
| "code_exit_code PolicyStale = 4"
| "code_exit_code SignatureInvalid = 6"
| "code_exit_code SourceGap = 4"
| "code_exit_code SourceFork = 4"
| "code_exit_code SourceStale = 5"
| "code_exit_code SourceBinding = 4"
| "code_exit_code CounterRollback = 4"
| "code_exit_code TargetStale = 4"
| "code_exit_code ReviewStale = 4"
| "code_exit_code LeaseExpired = 4"
| "code_exit_code EffectConflict = 4"
| "code_exit_code AuditUnavailable = 5"
| "code_exit_code CounterExhausted = 5"
| "code_exit_code BundleLimit = 5"
| "code_exit_code ArtifactUnavailable = 5"
| "code_exit_code ClockFault = 5"
| "code_exit_code MigrationRequired = 7"

record Fault =
  fault_code :: Code
  fault_message :: string

definition new_fault :: "Code \<Rightarrow> string \<Rightarrow> Fault" where
  "new_fault c m = \<lparr>fault_code = c, fault_message = m\<rparr>"

lemma new_fault_sel [simp]:
  "fault_code (new_fault c m) = c" "fault_message (new_fault c m) = m"
  by (simp_all add: new_fault_def)

type_synonym 'a R = "Fault + 'a"

definition schem :: "string \<Rightarrow> Fault" where
  "schem m = new_fault SchemaInvalid m"

lemma schem_code [simp]: "fault_code (schem m) = SchemaInvalid"
  by (simp add: schem_def)

section \<open>Exit codes\<close>

definition exit_for_check_state :: "string \<Rightarrow> int" where
  "exit_for_check_state st =
     (if st = ''CLEAR'' then 0
      else if st \<in> set [''DENY'', ''HELD''] then 3
      else if st \<in> set [''CANCELLED'', ''STALE''] then 4
      else if st = ''EXPIRED'' then 5
      else 0)"

definition exit_for_verify_status :: "string \<Rightarrow> int" where
  "exit_for_verify_status st =
     (if st = ''FULL_REPLAY'' then 0
      else if st \<in> set [''INCOMPLETE'', ''INTEGRITY_ONLY''] then 4
      else if st = ''INVALID'' then 6
      else 4)"

definition exit_for_code :: "string \<Rightarrow> int" where
  "exit_for_code c =
     (if c \<in> set [''BAD_FRAME'', ''BAD_JSON'', ''SCHEMA_INVALID'', ''UNSUPPORTED_VERSION'',
      ''METHOD_UNKNOWN'', ''POLICY_INVALID'']
        then 2
      else if c \<in> set [''NOT_FOUND'', ''STATE_CONFLICT'', ''REVISION_CONFLICT'',
      ''IDEMPOTENCY_CONFLICT'', ''POLICY_STALE'', ''TARGET_STALE'',
      ''REVIEW_STALE'', ''LEASE_EXPIRED'', ''EFFECT_CONFLICT'', ''SOURCE_GAP'',
      ''SOURCE_FORK'', ''SOURCE_BINDING'', ''COUNTER_ROLLBACK'',
      ''UNAUTHENTICATED'', ''FORBIDDEN'']
        then 4
      else if c \<in> set [''RATE_LIMITED'', ''CAPACITY'', ''GATED'', ''ADAPTER_UNAVAILABLE'',
      ''AUDIT_UNAVAILABLE'', ''SOURCE_STALE'', ''CLOCK_FAULT'',
      ''COUNTER_EXHAUSTED'', ''BUNDLE_LIMIT'', ''ARTIFACT_UNAVAILABLE'']
        then 5
      else if c \<in> set [''SIGNATURE_INVALID'']
        then 6
      else if c \<in> set [''MIGRATION_REQUIRED'']
        then 7
      else 2)"

definition code_to_exit :: "string option \<Rightarrow> int" where
  "code_to_exit oc = (case oc of None \<Rightarrow> 0 | Some c \<Rightarrow>
     (if c \<in> set [''GATED'', ''ADAPTER_UNAVAILABLE'', ''ARTIFACT_UNAVAILABLE'']
        then 5
      else if c \<in> set [''SIGNATURE_INVALID'']
        then 6
      else if c \<in> set [''MIGRATION_REQUIRED'']
        then 7
      else if c \<in> set [''NOT_FOUND'', ''STATE_CONFLICT'', ''REVISION_CONFLICT'',
      ''IDEMPOTENCY_CONFLICT'', ''POLICY_STALE'', ''TARGET_STALE'',
      ''REVIEW_STALE'', ''LEASE_EXPIRED'', ''EFFECT_CONFLICT'', ''SOURCE_GAP'',
      ''SOURCE_FORK'', ''SOURCE_BINDING'', ''COUNTER_ROLLBACK'',
      ''UNAUTHENTICATED'', ''FORBIDDEN'']
        then 4
      else if c \<in> set [''RATE_LIMITED'', ''CAPACITY'', ''AUDIT_UNAVAILABLE'', ''SOURCE_STALE'',
      ''CLOCK_FAULT'', ''COUNTER_EXHAUSTED'', ''BUNDLE_LIMIT'']
        then 5
      else 2))"

definition exit_for_terminal :: "string \<Rightarrow> string \<Rightarrow> int" where
  "exit_for_terminal kind st =
     (if kind = ''check'' \<and> st = ''CLEAR'' then 0
      else if kind = ''check'' \<and> st \<in> set [''DENY'', ''HELD''] then 3
      else if kind = ''check'' \<and> st \<in> set [''CANCELLED'', ''STALE''] then 4
      else if kind = ''check'' \<and> st = ''EXPIRED'' then 5
      else if kind = ''review'' \<and> st = ''REJECTED'' then 3
      else if kind = ''verify'' \<and> st = ''INVALID'' then 6
      else if kind = ''verify'' \<and> st \<in> set [''INCOMPLETE'', ''INTEGRITY_ONLY''] then 4
      else if kind = ''verify'' \<and> st = ''FULL_REPLAY'' then 0
      else 0)"

lemma code_as_str_inject: "code_as_str a = code_as_str b \<longleftrightarrow> a = b"
  by (cases a; cases b) simp_all

lemma exit_for_code_as_str: "exit_for_code (code_as_str c) = code_exit_code c"
  by (cases c) (simp_all add: exit_for_code_def)

lemma code_to_exit_as_str: "code_to_exit (Some (code_as_str c)) = code_exit_code c"
  by (cases c) (simp_all add: code_to_exit_def)

lemma code_exit_code_range: "code_exit_code c \<in> {2, 4, 5, 6, 7}"
  by (cases c) simp_all

text \<open>
  Remark. The three exit code tables (the method \<open>Code::exit_code\<close>, \<open>doctor::exit_for_code\<close> on the
  wire name and \<open>doctor::code_to_exit\<close> on an optional wire name) agree on every fault code, the
  wire names are pairwise different, and every code is a failure (exit status 2, 4, 5, 6 or 7).
\<close>

theorem exit_tables_agree:
  "exit_for_code (code_as_str c) = code_exit_code c \<and>
   code_to_exit (Some (code_as_str c)) = code_exit_code c \<and>
   code_exit_code c \<in> {2, 4, 5, 6, 7} \<and>
   (code_as_str c = code_as_str c' \<longleftrightarrow> c = c')"
  using code_exit_code_range [of c]
  by (simp add: exit_for_code_as_str code_to_exit_as_str code_as_str_inject)

end
