(* ===== verification/Json.thy ===== *)
theory Json
  imports Faults
begin

text \<open>
  Strict JSON values and their canonical form (\<open>json.rs\<close>): the \<open>Value\<close> type, the member and
  scalar accessors, the protocol number profile, and the RFC 8785 serializer \<open>jcs\<close>. A number
  keeps its lexeme, as in the source. The parser is in \<open>JsonParse\<close>.
\<close>

section \<open>Values\<close>

datatype Value =
    Null
  | Bool bool
  | Num string
  | Str string
  | Arr "Value list"
  | Obj "(string \<times> Value) list"

definition u_max :: nat where "u_max = 9223372036854775807"
definition safe_int_max :: nat where "safe_int_max = 9007199254740991"

lemma u_max_less [simp]: "n \<le> u_max \<Longrightarrow> n < 2 ^ 64"
  by (simp add: u_max_def)

lemma safe_int_max_less [simp]: "n \<le> safe_int_max \<Longrightarrow> n < 2 ^ 64"
  by (simp add: safe_int_max_def)

section \<open>Decimal lexemes\<close>

definition digit_char :: "nat \<Rightarrow> char" where
  "digit_char d = char_of (48 + d)"

text \<open>\<open>u64::to_string\<close>.\<close>

fun dec :: "nat \<Rightarrow> string" where
  "dec n = (if n < 10 then [digit_char n] else dec (n div 10) @ [digit_char (n mod 10)])"

declare dec.simps [simp del]

definition is_digit :: "char \<Rightarrow> bool" where
  "is_digit c \<longleftrightarrow> 48 \<le> (of_char c :: nat) \<and> (of_char c :: nat) \<le> 57"

definition digits_val :: "string \<Rightarrow> nat" where
  "digits_val s = foldl (\<lambda>a c. a * 10 + (of_char c - 48)) 0 s"

text \<open>\<open>str::parse::<u64>\<close> on a string of ASCII digits (every caller has checked that).\<close>

definition parse_u64 :: "string \<Rightarrow> nat option" where
  "parse_u64 s = (if s \<noteq> [] \<and> list_all is_digit s \<and> digits_val s < 2 ^ 64
                  then Some (digits_val s) else None)"

definition int_profile_bounded :: "string \<Rightarrow> nat \<Rightarrow> nat option" where
  "int_profile_bounded raw safe_max =
     (case raw of
        [] \<Rightarrow> None
      | c # cs \<Rightarrow>
          if c = CHR ''0'' then (if cs \<noteq> [] then None else Some 0)
          else if \<not> is_digit c then None
          else if \<not> list_all is_digit raw then None
          else (case parse_u64 raw of
                  None \<Rightarrow> None
                | Some v \<Rightarrow> if v > safe_max then None else Some v))"

definition int_profile :: "string \<Rightarrow> nat option" where
  "int_profile raw = int_profile_bounded raw safe_int_max"

definition u_profile :: "string \<Rightarrow> nat option" where
  "u_profile raw = (if raw = ''0'' then Some 0 else int_profile_bounded raw u_max)"

definition u_str :: "string \<Rightarrow> nat option" where
  "u_str s = int_profile_bounded s u_max"

definition u_to_string :: "nat \<Rightarrow> string" where
  "u_to_string v = dec v"

lemma digit_char_0 [simp]: "digit_char 0 = CHR ''0''"
  unfolding digit_char_def by code_simp

lemma of_char_digit [simp]: "d < 10 \<Longrightarrow> (of_char (digit_char d) :: nat) = 48 + d"
  by (simp add: digit_char_def)

lemma is_digit_digit_char [simp]: "d < 10 \<Longrightarrow> is_digit (digit_char d)"
  by (simp add: is_digit_def)

lemma digit_char_inverse: "is_digit c \<Longrightarrow> digit_char (of_char c - 48) = c"
  by (simp add: is_digit_def digit_char_def)

lemma digits_val_snoc: "digits_val (s @ [c]) = digits_val s * 10 + (of_char c - 48)"
  by (simp add: digits_val_def)

lemma dec_nonempty [simp]: "dec n \<noteq> []"
  by (subst dec.simps) simp

lemma dec_digits: "list_all is_digit (dec n)"
proof (induction n rule: dec.induct)
  case (1 n)
  then show ?case by (subst dec.simps) (simp add: list_all_append)
qed

lemma digits_val_dec [simp]: "digits_val (dec n) = n"
proof (induction n rule: dec.induct)
  case (1 n)
  then show ?case
    by (subst dec.simps) (simp add: digits_val_snoc, simp add: digits_val_def)
qed

lemma dec_hd_zero: "hd (dec n) = CHR ''0'' \<longleftrightarrow> n = 0"
proof (induction n rule: dec.induct)
  case (1 n)
  have zero: "digit_char d = CHR ''0'' \<longleftrightarrow> d = 0" if "d < 10" for d
  proof
    assume "digit_char d = CHR ''0''"
    then have "(of_char (digit_char d) :: nat) = of_char (CHR ''0'')" by simp
    with that show "d = 0" by simp
  qed simp
  show ?case
  proof (cases "n < 10")
    case True
    then show ?thesis using zero by (subst dec.simps) simp
  next
    case False
    then have "hd (dec n) = hd (dec (n div 10))"
      by (subst dec.simps) simp
    with False "1.IH" show ?thesis by simp
  qed
qed

lemma dec_0 [simp]: "dec 0 = ''0''"
  by (simp add: dec.simps)

lemma parse_u64_dec [simp]: "n < 2 ^ 64 \<Longrightarrow> parse_u64 (dec n) = Some n"
  by (simp add: parse_u64_def dec_digits)

lemma int_profile_bounded_dec:
  assumes "n < 2 ^ 64"
  shows "int_profile_bounded (dec n) m = (if n \<le> m then Some n else None)"
proof (cases "n = 0")
  case True
  then show ?thesis by (simp add: int_profile_bounded_def)
next
  case False
  obtain c cs where c: "dec n = c # cs" by (cases "dec n") auto
  then have "c \<noteq> CHR ''0''" using dec_hd_zero [of n] False by simp
  moreover have "list_all is_digit (c # cs)" using dec_digits [of n] c by simp
  moreover have "parse_u64 (c # cs) = Some n" using parse_u64_dec [OF assms] c by simp
  ultimately show ?thesis unfolding c int_profile_bounded_def by auto
qed

text \<open>A digit string with no leading zero is the decimal rendering of its value.\<close>

lemma dec_digits_val:
  assumes "list_all is_digit (c # cs)" and "c \<noteq> CHR ''0'' \<or> cs = []"
  shows "dec (digits_val (c # cs)) = c # cs"
  using assms
proof (induction cs rule: rev_induct)
  case Nil
  then have "of_char c - 48 < (10::nat)" by (auto simp: is_digit_def)
  then show ?case using Nil
    by (subst dec.simps) (simp add: digits_val_def digit_char_inverse)
next
  case (snoc d ds)
  have d: "is_digit d" "(of_char d :: nat) - 48 < 10"
    using snoc.prems(1) by (auto simp: is_digit_def)
  have c0: "c \<noteq> CHR ''0''" using snoc.prems by auto
  then have IH: "dec (digits_val (c # ds)) = c # ds"
    using snoc by simp
  have pos: "digits_val (c # ds) \<noteq> 0"
  proof
    assume "digits_val (c # ds) = 0"
    then have "c # ds = ''0''" using IH by simp
    with c0 show False by simp
  qed
  have val: "digits_val (c # ds @ [d]) = digits_val (c # ds) * 10 + (of_char d - 48)"
    using digits_val_snoc [of "c # ds" d] by simp
  have "\<not> digits_val (c # ds @ [d]) < 10" using val pos by simp
  then have "dec (digits_val (c # ds @ [d])) =
      dec (digits_val (c # ds @ [d]) div 10) @ [digit_char (digits_val (c # ds @ [d]) mod 10)]"
    by (subst dec.simps) simp
  also have "\<dots> = (c # ds) @ [d]"
    using val d IH by (simp add: digit_char_inverse)
  finally show ?case by simp
qed

lemma int_profile_bounded_Some:
  assumes "int_profile_bounded s m = Some n"
  shows "s = dec n \<and> n \<le> m \<and> n < 2 ^ 64 \<or> (s = ''0'' \<and> n = 0)"
  using assms
proof (cases s)
  case (Cons c cs)
  show ?thesis
  proof (cases "c = CHR ''0''")
    case True
    then show ?thesis using assms Cons by (auto simp: int_profile_bounded_def split: if_splits)
  next
    case False
    then have "list_all is_digit (c # cs)" "parse_u64 (c # cs) = Some n" "n \<le> m"
      using assms Cons by (auto simp: int_profile_bounded_def split: if_splits option.splits)
    then show ?thesis using dec_digits_val [of c cs] False Cons
      by (auto simp: parse_u64_def split: if_splits)
  qed
qed (simp add: int_profile_bounded_def)

lemma int_profile_bounded_iff:
  "m < 2 ^ 64 \<Longrightarrow> int_profile_bounded s m = Some n \<longleftrightarrow> s = dec n \<and> n \<le> m"
  using int_profile_bounded_Some [of s m n] int_profile_bounded_dec [of n m]
  by (metis dec_0 bot_nat_0.extremum order_le_less_trans)

lemma u_str_iff: "u_str s = Some n \<longleftrightarrow> s = dec n \<and> n \<le> u_max"
  unfolding u_str_def by (rule int_profile_bounded_iff) (simp add: u_max_def)

lemma int_profile_iff: "int_profile s = Some n \<longleftrightarrow> s = dec n \<and> n \<le> safe_int_max"
  unfolding int_profile_def by (rule int_profile_bounded_iff) (simp add: safe_int_max_def)

section \<open>Constructors and accessors\<close>

definition num :: "nat \<Rightarrow> Value" where
  "num n = Num (dec n)"

text \<open>\<open>Value::ustr(&n.to_string())\<close>: a counter travels as a decimal string.\<close>

definition ustr :: "nat \<Rightarrow> Value" where
  "ustr n = Str (dec n)"

definition as_int :: "Value \<Rightarrow> nat option" where
  "as_int v = (case v of Num raw \<Rightarrow> int_profile raw | _ \<Rightarrow> None)"

definition as_u :: "Value \<Rightarrow> nat option" where
  "as_u v = (case as_int v of None \<Rightarrow> None | Some n \<Rightarrow> if n \<le> u_max then Some n else None)"

definition as_str :: "Value \<Rightarrow> string option" where
  "as_str v = (case v of Str s \<Rightarrow> Some s | _ \<Rightarrow> None)"

definition as_bool :: "Value \<Rightarrow> bool option" where
  "as_bool v = (case v of Bool b \<Rightarrow> Some b | _ \<Rightarrow> None)"

definition as_arr :: "Value \<Rightarrow> Value list option" where
  "as_arr v = (case v of Arr a \<Rightarrow> Some a | _ \<Rightarrow> None)"

definition as_obj :: "Value \<Rightarrow> (string \<times> Value) list option" where
  "as_obj v = (case v of Obj m \<Rightarrow> Some m | _ \<Rightarrow> None)"

text \<open>\<open>iter().find(|(k,_)| k == key)\<close> returns the first member of that name.\<close>

definition mget :: "(string \<times> Value) list \<Rightarrow> string \<Rightarrow> Value option" where
  "mget m k = map_of m k"

definition value_get :: "Value \<Rightarrow> string \<Rightarrow> Value option" where
  "value_get v k = (case v of Obj m \<Rightarrow> mget m k | _ \<Rightarrow> None)"

lemmas accessor_defs = as_int_def as_u_def as_str_def as_bool_def as_arr_def as_obj_def

lemma accessor_simps [simp]:
  "as_str (Str t) = Some t"
  "as_str (ustr n) = Some (dec n)"
  "as_bool (Bool b) = Some b"
  "as_arr (Arr a) = Some a"
  "as_obj (Obj m) = Some m"
  "n \<le> safe_int_max \<Longrightarrow> as_int (num n) = Some n"
  by (simp_all add: accessor_defs ustr_def num_def int_profile_iff)

lemma accessor_Some:
  "as_str v = Some t \<longleftrightarrow> v = Str t"
  "as_bool v = Some b \<longleftrightarrow> v = Bool b"
  "as_arr v = Some a \<longleftrightarrow> v = Arr a"
  "as_obj v = Some m \<longleftrightarrow> v = Obj m"
  "as_int v = Some n \<longleftrightarrow> v = num n \<and> n \<le> safe_int_max"
  by (auto simp: accessor_defs num_def int_profile_iff split: Value.splits)

lemma num_neq_Null [simp]: "num n \<noteq> Null" "Null \<noteq> num n"
  "ustr n \<noteq> Null" "Null \<noteq> ustr n"
  by (simp_all add: num_def ustr_def)

lemma dec_inject [simp]: "dec a = dec b \<longleftrightarrow> a = b"
  by (metis digits_val_dec)

lemma num_inject [simp]: "num a = num b \<longleftrightarrow> a = b" "ustr a = ustr b \<longleftrightarrow> a = b"
  by (auto simp: num_def ustr_def)

section \<open>RFC 8785 serialization\<close>

definition hex_digit :: "nat \<Rightarrow> char" where
  "hex_digit d = (if d < 10 then char_of (48 + d) else char_of (87 + d))"

text \<open>
  \<open>escape_into\<close> walks characters; every byte of a multi-byte UTF-8 character is at least 128
  and is copied, so walking bytes gives the same output.
\<close>

definition escape_char :: "char \<Rightarrow> string" where
  "escape_char c =
     (let n = (of_char c :: nat) in
      if n = 34 then [CHR 0x5C, CHR 0x22]
      else if n = 92 then [CHR 0x5C, CHR 0x5C]
      else if n = 8 then CHR 0x5C # ''b''
      else if n = 9 then CHR 0x5C # ''t''
      else if n = 10 then CHR 0x5C # ''n''
      else if n = 12 then CHR 0x5C # ''f''
      else if n = 13 then CHR 0x5C # ''r''
      else if n < 32 then CHR 0x5C # ''u00'' @ [hex_digit (n div 16), hex_digit (n mod 16)]
      else [c])"

definition escape_into :: "string \<Rightarrow> string" where
  "escape_into s = concat (map escape_char s)"

text \<open>UTF-8 to scalar values, and the UTF-16 code units of \<open>encode_utf16\<close>.\<close>

fun utf8_scalars :: "nat list \<Rightarrow> nat list" where
  "utf8_scalars [] = []"
| "utf8_scalars (a # b # c # d # r) =
     (if a < 0x80 then a # utf8_scalars (b # c # d # r)
      else if a < 0xE0 then ((a mod 32) * 64 + b mod 64) # utf8_scalars (c # d # r)
      else if a < 0xF0 then ((a mod 16) * 4096 + (b mod 64) * 64 + c mod 64) # utf8_scalars (d # r)
      else ((a mod 8) * 262144 + (b mod 64) * 4096 + (c mod 64) * 64 + d mod 64) # utf8_scalars r)"
| "utf8_scalars (a # b # c # r) =
     (if a < 0x80 then a # utf8_scalars (b # c # r)
      else if a < 0xE0 then ((a mod 32) * 64 + b mod 64) # utf8_scalars (c # r)
      else ((a mod 16) * 4096 + (b mod 64) * 64 + c mod 64) # utf8_scalars r)"
| "utf8_scalars (a # b # r) =
     (if a < 0x80 then a # utf8_scalars (b # r)
      else ((a mod 32) * 64 + b mod 64) # utf8_scalars r)"
| "utf8_scalars (a # r) = a # utf8_scalars r"

definition utf16_unit :: "nat \<Rightarrow> nat list" where
  "utf16_unit c = (if c < 0x10000 then [c]
                   else [0xD800 + (c - 0x10000) div 0x400, 0xDC00 + (c - 0x10000) mod 0x400])"

definition encode_utf16 :: "string \<Rightarrow> nat list" where
  "encode_utf16 s = concat (map utf16_unit (utf8_scalars (bytes s)))"

definition utf16_le :: "string \<Rightarrow> string \<Rightarrow> bool" where
  "utf16_le a b \<longleftrightarrow> \<not> lex_less (encode_utf16 b) (encode_utf16 a)"

definition member_le :: "string \<times> 'v \<Rightarrow> string \<times> 'v \<Rightarrow> bool" where
  "member_le a b \<longleftrightarrow> utf16_le (fst a) (fst b)"

interpretation member_order: total_preorder "member_le :: string \<times> 'v \<Rightarrow> string \<times> 'v \<Rightarrow> bool"
proof
  fix a b c :: "string \<times> 'v"
  show "member_le a a" by (simp add: member_le_def utf16_le_def)
  show "member_le a b \<Longrightarrow> member_le b c \<Longrightarrow> member_le a c"
    unfolding member_le_def utf16_le_def using lex_less_linear lex_less_trans by metis
  show "member_le a b \<or> member_le b a"
    unfolding member_le_def utf16_le_def using lex_less_asym by blast
qed

fun intercalate :: "string \<Rightarrow> string list \<Rightarrow> string" where
  "intercalate sep [] = []"
| "intercalate sep [x] = x"
| "intercalate sep (x # y # ys) = x @ sep @ intercalate sep (y # ys)"

definition quote :: "string \<Rightarrow> string" where
  "quote s = CHR 0x22 # escape_into s @ [CHR 0x22]"

function (sequential) jcs :: "Value \<Rightarrow> string" where
  "jcs Null = ''null''"
| "jcs (Bool True) = ''true''"
| "jcs (Bool False) = ''false''"
| "jcs (Num raw) = raw"
| "jcs (Str s) = quote s"
| "jcs (Arr items) = ''['' @ intercalate '','' (map jcs items) @ '']''"
| "jcs (Obj members) =
     ''{'' @ intercalate '','' (map (\<lambda>(k, v). quote k @ '':'' @ jcs v) (sort_by member_le members)) @ ''}''"
  by pat_completeness auto

lemma size_member_less: "(k, v) \<in> set m \<Longrightarrow> size v < Suc (size_list (size_prod (\<lambda>_. 0) size) m)"
  by (induction m) auto

termination jcs
  by (relation "measure size") (auto simp: size_list_estimation size_member_less less_Suc_eq_le
        intro: size_list_estimation')

lemma jcs_num [simp]: "jcs (num n) = dec n"
  by (simp add: num_def)

text \<open>The canonical form does not depend on the order of the members.\<close>

lemma jcs_Obj_perm:
  assumes "mset m = mset m'" and "inj_on encode_utf16 (fst ` set m)" and "distinct (map fst m)"
  shows "jcs (Obj m) = jcs (Obj m')"
proof -
  have "sort_by member_le m = sort_by member_le m'"
  proof (rule member_order.sorted_unique_keys)
    show "sorted_wrt member_le (sort_by member_le m)" "sorted_wrt member_le (sort_by member_le m')"
      by (rule member_order.sorted_sort_by)+
    show "mset (sort_by member_le m) = mset (sort_by member_le m')" using assms(1) by simp
    fix a b assume ab: "a \<in> set (sort_by member_le m)" "b \<in> set (sort_by member_le m)"
      "member_le a b" "member_le b a"
    then have "encode_utf16 (fst a) = encode_utf16 (fst b)"
      unfolding member_le_def utf16_le_def using lex_less_linear by blast
    with ab assms(2) have "fst a = fst b" by (auto simp: inj_on_def)
    with ab assms(3) show "a = b"
      by (metis set_sort_by eq_key_imp_eq_value prod.collapse)
  qed
  then show ?thesis by simp
qed

end
