(* ===== verification/Ids.thy ===== *)
theory Ids
  imports Json
begin

text \<open>
  Identifier grammar (\<open>ids.rs\<close>): \<open>Id\<close>, \<open>Text\<close>, \<open>Hash\<close>, \<open>Boot\<close>, entity prefixes and sorted
  identifier sets. All checks are on the bytes of the string.
\<close>

definition text_max :: nat where "text_max = 512"
definition set_max :: nat where "set_max = 64"
definition array_max :: nat where "array_max = 4096"

definition id_char :: "char \<Rightarrow> bool" where
  "id_char c \<longleftrightarrow> (let b = (of_char c :: nat) in
     (97 \<le> b \<and> b \<le> 122) \<or> (48 \<le> b \<and> b \<le> 57) \<or> c = CHR ''_'' \<or> c = CHR ''-'')"

definition valid_id :: "string \<Rightarrow> bool" where
  "valid_id s = (case s of
      [] \<Rightarrow> False
    | c # _ \<Rightarrow> if length s > 64 then False
              else if \<not> (97 \<le> (of_char c :: nat) \<and> (of_char c :: nat) \<le> 122) then False
              else list_all id_char s)"

definition valid_text :: "string \<Rightarrow> bool" where
  "valid_text s \<longleftrightarrow> CHR 0x00 \<notin> set s \<and> length s \<le> text_max"

definition lower_hex :: "char \<Rightarrow> bool" where
  "lower_hex c \<longleftrightarrow> (let b = (of_char c :: nat) in (48 \<le> b \<and> b \<le> 57) \<or> (97 \<le> b \<and> b \<le> 102))"

definition valid_hash :: "string \<Rightarrow> bool" where
  "valid_hash s \<longleftrightarrow> length s = 64 \<and> list_all lower_hex s"

text \<open>The dashes of a boot UUID are at the byte offsets 8, 13, 18 and 23.\<close>

fun boot_chars :: "nat \<Rightarrow> string \<Rightarrow> bool" where
  "boot_chars i [] = True"
| "boot_chars i (c # cs) =
     ((if i = 8 \<or> i = 13 \<or> i = 18 \<or> i = 23 then c = CHR ''-'' else lower_hex c) \<and>
      boot_chars (Suc i) cs)"

definition valid_boot :: "string \<Rightarrow> bool" where
  "valid_boot s \<longleftrightarrow> length s = 36 \<and> boot_chars 0 s"

datatype EntityPrefix = PRun | PCheck | PReview | PAlert | PPolicy | PEvaluation

definition starts_with :: "string \<Rightarrow> string \<Rightarrow> bool" where
  "starts_with s p \<longleftrightarrow> take (length p) s = p"

definition entity_prefix :: "string \<Rightarrow> EntityPrefix option" where
  "entity_prefix i =
     (if starts_with i ''wtr_'' then Some PRun
      else if starts_with i ''wtc_'' then Some PCheck
      else if starts_with i ''wth_'' then Some PReview
      else if starts_with i ''wta_'' then Some PAlert
      else if starts_with i ''wtp_'' then Some PPolicy
      else if starts_with i ''wte_'' then Some PEvaluation
      else None)"

fun ascending :: "string list \<Rightarrow> bool" where
  "ascending (x # y # ys) = (if \<not> str_less x y then False else ascending (y # ys))"
| "ascending _ = True"

definition valid_id_set :: "string list \<Rightarrow> bool" where
  "valid_id_set ids =
     (if length ids > set_max then False
      else if \<not> ascending ids then False
      else list_all valid_id ids)"

definition zero_hash :: string where
  "zero_hash = replicate 64 CHR ''0''"

definition watchd_principal :: string where
  "watchd_principal = ''watchd''"

lemma ascending_iff: "ascending xs \<longleftrightarrow> sorted_wrt str_less xs"
proof (induction xs rule: ascending.induct)
  case (1 x y ys)
  then show ?case by (auto intro: str_less_trans)
qed auto

lemma sorted_wrt_less_distinct: "sorted_wrt str_less xs \<Longrightarrow> distinct xs"
  by (induction xs) auto

lemma valid_id_set_iff:
  "valid_id_set ids \<longleftrightarrow> length ids \<le> set_max \<and> sorted_wrt str_less ids \<and> list_all valid_id ids"
  by (auto simp: valid_id_set_def ascending_iff)

lemma valid_id_nonempty: "valid_id s \<Longrightarrow> s \<noteq> []"
  by (auto simp: valid_id_def)

lemma valid_id_length: "valid_id s \<Longrightarrow> length s \<le> 64"
  by (auto simp: valid_id_def split: list.splits if_splits)

text \<open>No identifier contains a quote, a backslash, a NUL or a byte outside ASCII.\<close>

lemma valid_id_chars: "valid_id s \<Longrightarrow> list_all id_char s"
  by (auto simp: valid_id_def split: list.splits if_splits)

lemma id_char_range: "id_char c \<Longrightarrow> 45 \<le> (of_char c :: nat) \<and> (of_char c :: nat) \<le> 122 \<and> of_char c \<noteq> (92::nat)"
  by (auto simp: id_char_def Let_def)

lemma valid_id_text: "valid_id s \<Longrightarrow> valid_text s"
proof -
  assume v: "valid_id s"
  have "CHR 0x00 \<notin> set s"
  proof
    assume "CHR 0x00 \<in> set s"
    then have "id_char (CHR 0x00)" using valid_id_chars [OF v] by (auto simp: list_all_iff)
    then show False by (simp add: id_char_def)
  qed
  then show "valid_text s"
    using valid_id_length [OF v] by (simp add: valid_text_def text_max_def)
qed

lemma zero_hash_valid [simp]: "valid_hash zero_hash"
  by (simp add: valid_hash_def zero_hash_def list_all_iff lower_hex_def)

text \<open>
  Remark. An admitted identifier set is canonical: it has at most 64 members,
  each a valid \<open>Id\<close>, no duplicates, and two admitted lists with the same members are the same
  list, so the digest of a scope set does not depend on who wrote it.
\<close>

theorem valid_id_set_unique:
  assumes "valid_id_set xs" and "valid_id_set ys" and "set xs = set ys"
  shows "xs = ys \<and> distinct xs \<and> length xs \<le> 64 \<and> (\<forall>x \<in> set xs. valid_id x)"
proof -
  have s: "sorted_wrt str_less xs" "sorted_wrt str_less ys"
    using assms by (simp_all add: valid_id_set_iff)
  then have d: "distinct xs" "distinct ys" by (simp_all add: sorted_wrt_less_distinct)
  then have "mset xs = mset ys" using assms(3) by (simp add: set_eq_iff_mset_eq_distinct)
  moreover have "sorted_wrt str_le xs" "sorted_wrt str_le ys"
    using s by (auto intro: sorted_wrt_mono_rel [of _ str_less] simp: str_le_iff)
  ultimately have "xs = ys"
    by (intro str_order.sorted_unique_keys) (auto intro: str_le_antisym)
  then show ?thesis using d assms(1) by (auto simp: valid_id_set_iff set_max_def list_all_iff)
qed

theorem valid_id_set_unique_witness:
  "valid_id_set [''read'', ''write''] \<and> [''read'', ''write''] = [''read'', ''write'']"
proof -
  have v: "valid_id_set [''read'', ''write'']" by code_simp
  from valid_id_set_unique [OF v v refl] v show ?thesis by simp
qed

end
