(* ===== verification/Crypto.thy ===== *)
theory Crypto
  imports Ids
begin

text \<open>
  Hashing domains and signed envelopes (\<open>crypto.rs\<close>). The primitives come from other crates
  and are the parameter \<open>Crypto\<close> of every definition that uses them: SHA-256 (\<open>sha2\<close>),
  Ed25519 signing and verification (\<open>ed25519-dalek\<close>, where a key or signature that cannot be
  decoded verifies as false) and the unpadded base64url codec (\<open>base64\<close>). What the code builds
  around them, the domain tags, the messages and the hexadecimal rendering, is modelled.
\<close>

record Crypto =
  sha256 :: "string \<Rightarrow> string"
  ed_sign :: "string \<Rightarrow> string \<Rightarrow> string"
  ed_verify :: "string \<Rightarrow> string \<Rightarrow> string \<Rightarrow> bool"
  b64_encode :: "string \<Rightarrow> string"
  b64_decode :: "string \<Rightarrow> string option"

section \<open>Hexadecimal\<close>

fun hex_lower :: "string \<Rightarrow> string" where
  "hex_lower [] = []"
| "hex_lower (b # bs) =
     hex_digit (of_char b div 16) # hex_digit (of_char b mod 16) # hex_lower bs"

definition hex_nibble :: "char \<Rightarrow> nat option" where
  "hex_nibble c = (let n = (of_char c :: nat) in
     if 48 \<le> n \<and> n \<le> 57 then Some (n - 48)
     else if 97 \<le> n \<and> n \<le> 102 then Some (n - 97 + 10)
     else None)"

fun hex_decode :: "string \<Rightarrow> string option" where
  "hex_decode [] = Some []"
| "hex_decode [c] = None"
| "hex_decode (a # b # r) =
     (if odd (length r) then None else
      case hex_nibble a of
        None \<Rightarrow> None
      | Some hi \<Rightarrow> (case hex_nibble b of
          None \<Rightarrow> None
        | Some lo \<Rightarrow> (case hex_decode r of
            None \<Rightarrow> None
          | Some out \<Rightarrow> Some (char_of (hi * 16 + lo) # out))))"

lemma hex_digit_code [simp]:
  "d < 16 \<Longrightarrow> (of_char (hex_digit d) :: nat) = (if d < 10 then 48 + d else 87 + d)"
  by (simp add: hex_digit_def)

lemma hex_nibble_digit [simp]: "d < 16 \<Longrightarrow> hex_nibble (hex_digit d) = Some d"
  by (simp add: hex_nibble_def Let_def)

lemma lower_hex_digit [simp]: "d < 16 \<Longrightarrow> lower_hex (hex_digit d)"
  by (simp add: lower_hex_def Let_def)

lemma of_char_less [simp]: "(of_char c :: nat) < 256"
  using nat_of_char_less_256 [of c] by simp

lemma of_char_div_16 [simp]: "(of_char c :: nat) div 16 < 16"
  using of_char_less [of c] by (simp add: less_mult_imp_div_less)

lemma length_hex_lower [simp]: "length (hex_lower bs) = 2 * length bs"
  by (induction bs) simp_all

lemma hex_lower_chars: "list_all lower_hex (hex_lower bs)"
  by (induction bs) simp_all

lemma hex_decode_lower: "hex_decode (hex_lower bs) = Some bs"
  by (induction bs) simp_all

lemma hex_lower_inject [simp]: "hex_lower a = hex_lower b \<longleftrightarrow> a = b"
  by (metis hex_decode_lower option.inject)

section \<open>Digests\<close>

definition sha256_hex :: "Crypto \<Rightarrow> string \<Rightarrow> string" where
  "sha256_hex cr b = hex_lower (sha256 cr b)"

text \<open>\<open>D(tag,x)\<close>: the domain separator, a NUL byte and the canonical bytes.\<close>

definition d_input :: "string \<Rightarrow> Value \<Rightarrow> string" where
  "d_input tag x = ''LAGI-WATCH/1/'' @ tag @ [CHR 0x00] @ jcs x"

definition d :: "Crypto \<Rightarrow> string \<Rightarrow> Value \<Rightarrow> string" where
  "d cr tag x = hex_lower (sha256 cr (d_input tag x))"

section \<open>Base64url fields\<close>

definition b64u_decode :: "Crypto \<Rightarrow> string \<Rightarrow> string option" where
  "b64u_decode cr s = (if CHR ''='' \<in> set s then None else b64_decode cr s)"

definition is_b64_len :: "Crypto \<Rightarrow> nat \<Rightarrow> string \<Rightarrow> bool" where
  "is_b64_len cr n s = (case b64u_decode cr s of None \<Rightarrow> False | Some b \<Rightarrow> length b = n)"

definition is_sig :: "Crypto \<Rightarrow> string \<Rightarrow> bool" where
  "is_sig cr s = is_b64_len cr 64 s"

definition is_pub :: "Crypto \<Rightarrow> string \<Rightarrow> bool" where
  "is_pub cr s = is_b64_len cr 32 s"

definition is_nonce :: "Crypto \<Rightarrow> string \<Rightarrow> bool" where
  "is_nonce cr s = is_b64_len cr 24 s"

section \<open>Signed envelopes\<close>

definition sign_message :: "string \<Rightarrow> string \<Rightarrow> string \<Rightarrow> string \<Rightarrow> string" where
  "sign_message tag digest key_id key_epoch =
     ''LAGI-WATCH/1/sign/'' @ tag @ [CHR 0x00] @
     jcs (Obj [(''digest'', Str digest), (''key_id'', Str key_id), (''key_epoch'', Str key_epoch)])"

definition sign_envelope :: "Crypto \<Rightarrow> string \<Rightarrow> Value \<Rightarrow> string \<Rightarrow> string \<Rightarrow> string \<Rightarrow> Value" where
  "sign_envelope cr tag body key_id key_epoch sk =
     (let digest = d cr tag body;
          msg = sign_message tag digest key_id key_epoch;
          sig = ed_sign cr sk msg
      in Obj [(''body'', body), (''digest'', Str digest), (''key_id'', Str key_id),
              (''key_epoch'', Str key_epoch), (''signature'', Str (b64_encode cr sig))])"

definition verify_envelope ::
  "Crypto \<Rightarrow> string \<Rightarrow> Value \<Rightarrow> string \<Rightarrow> string \<Rightarrow> string \<Rightarrow> string \<Rightarrow> string \<Rightarrow> bool" where
  "verify_envelope cr tag body digest key_id key_epoch signature public_key =
     (if d cr tag body \<noteq> digest then False
      else case b64u_decode cr signature of
             None \<Rightarrow> False
           | Some b \<Rightarrow> if length b \<noteq> 64 then False
                      else ed_verify cr public_key (sign_message tag digest key_id key_epoch) b)"

text \<open>
  The documented behaviour of the primitives: digests are 32 bytes, encoded text decodes to
  what was encoded and has no padding, signatures are 64 bytes and verify under the key that
  belongs to the signing key.
\<close>

definition crypto_ok :: "Crypto \<Rightarrow> string \<Rightarrow> string \<Rightarrow> bool" where
  "crypto_ok cr sk pk \<longleftrightarrow>
     (\<forall>x. length (sha256 cr x) = 32) \<and>
     (\<forall>x. b64_decode cr (b64_encode cr x) = Some x \<and> CHR ''='' \<notin> set (b64_encode cr x)) \<and>
     (\<forall>m. length (ed_sign cr sk m) = 64 \<and> ed_verify cr pk m (ed_sign cr sk m))"

lemma d_valid_hash: "length (sha256 cr (d_input tag x)) = 32 \<Longrightarrow> valid_hash (d cr tag x)"
  by (simp add: d_def valid_hash_def hex_lower_chars)

lemma verify_envelope_digest:
  "verify_envelope cr tag body digest k e s pk \<Longrightarrow> digest = d cr tag body"
  by (auto simp: verify_envelope_def split: if_splits)

lemma append_NUL_inject:
  assumes "a @ CHR 0x00 # x = b @ CHR 0x00 # y" and "CHR 0x00 \<notin> set a" and "CHR 0x00 \<notin> set b"
  shows "a = b \<and> x = y"
  using assms
proof (induction a arbitrary: b)
  case Nil
  then show ?case by (cases b) auto
next
  case (Cons c a)
  then show ?case by (cases b) auto
qed

text \<open>
  Remark. Digests are domain separated: where SHA-256 does not collide, two
  equal digests were computed under the same tag and over values with the same canonical bytes.
  Tags contain no NUL byte, as every tag of the source.
\<close>

theorem digest_domain_separation:
  assumes "d cr tag x = d cr tag' y"
    and "CHR 0x00 \<notin> set tag" and "CHR 0x00 \<notin> set tag'"
    and "sha256 cr (d_input tag x) = sha256 cr (d_input tag' y) \<Longrightarrow>
         d_input tag x = d_input tag' y"
  shows "tag = tag' \<and> jcs x = jcs y"
proof -
  from assms(1) have "sha256 cr (d_input tag x) = sha256 cr (d_input tag' y)"
    by (simp add: d_def)
  with assms(4) have "d_input tag x = d_input tag' y" by blast
  then have "tag @ CHR 0x00 # jcs x = tag' @ CHR 0x00 # jcs y" by (simp add: d_input_def)
  from append_NUL_inject [OF this assms(2,3)] show ?thesis .
qed

text \<open>A concrete instance of the primitives, for the witnesses.\<close>

definition toy_crypto :: Crypto where
  "toy_crypto = \<lparr>sha256 = (\<lambda>x. take 32 (x @ replicate 32 CHR ''0'')),
     ed_sign = (\<lambda>sk m. replicate 64 CHR ''s''),
     ed_verify = (\<lambda>pk m s. s = replicate 64 CHR ''s''),
     b64_encode = hex_lower,
     b64_decode = hex_decode\<rparr>"

lemma hex_lower_no_eq: "CHR ''='' \<notin> set (hex_lower x)"
proof
  assume "CHR ''='' \<in> set (hex_lower x)"
  then have "lower_hex (CHR ''='')" using hex_lower_chars [of x] by (auto simp: list_all_iff)
  then show False by (simp add: lower_hex_def)
qed

lemma toy_crypto_ok: "crypto_ok toy_crypto sk pk"
  by (auto simp: crypto_ok_def toy_crypto_def hex_decode_lower hex_lower_no_eq min_def)

theorem digest_domain_separation_witness:
  "d (toy_crypto\<lparr>sha256 := id\<rparr>) ''policy'' Null = d (toy_crypto\<lparr>sha256 := id\<rparr>) ''policy'' Null \<and>
   ''policy'' = ''policy'' \<and> jcs Null = jcs Null"
proof -
  have a: "CHR 0x00 \<notin> set ''policy''" by simp
  have "''policy'' = ''policy'' \<and> jcs Null = jcs Null"
    by (rule digest_domain_separation [of "toy_crypto\<lparr>sha256 := id\<rparr>" _ Null _ Null, OF refl a a]) simp
  then show ?thesis by simp
qed

text \<open>
  Remark. An envelope that the code signs verifies under the signer's public
  key, for the same tag, digest, key id and key epoch; the digest it carries is \<open>D(tag,body)\<close>
  and verification fails for any other digest.
\<close>

theorem sign_verify_roundtrip:
  assumes "crypto_ok cr sk pk"
  shows "\<exists>sig. sign_envelope cr tag body kid kep sk =
           Obj [(''body'', body), (''digest'', Str (d cr tag body)), (''key_id'', Str kid),
                (''key_epoch'', Str kep), (''signature'', Str sig)] \<and>
         is_sig cr sig \<and> valid_hash (d cr tag body) \<and>
         (verify_envelope cr tag body digest kid kep sig pk \<longleftrightarrow> digest = d cr tag body)"
proof (intro exI conjI)
  let ?sig = "b64_encode cr (ed_sign cr sk (sign_message tag (d cr tag body) kid kep))"
  show "sign_envelope cr tag body kid kep sk =
           Obj [(''body'', body), (''digest'', Str (d cr tag body)), (''key_id'', Str kid),
                (''key_epoch'', Str kep), (''signature'', Str ?sig)]"
    by (simp add: sign_envelope_def Let_def)
  show "is_sig cr ?sig"
    using assms by (simp add: is_sig_def is_b64_len_def b64u_decode_def crypto_ok_def)
  show "valid_hash (d cr tag body)"
    using assms by (intro d_valid_hash) (simp add: crypto_ok_def)
  show "verify_envelope cr tag body digest kid kep ?sig pk \<longleftrightarrow> digest = d cr tag body"
    using assms by (auto simp: verify_envelope_def b64u_decode_def crypto_ok_def)
qed

theorem sign_verify_roundtrip_witness:
  "crypto_ok toy_crypto [] [] \<and>
   (\<exists>sig. sign_envelope toy_crypto ''clearance'' Null ''k'' ''1'' [] =
           Obj [(''body'', Null), (''digest'', Str (d toy_crypto ''clearance'' Null)),
                (''key_id'', Str ''k''), (''key_epoch'', Str ''1''), (''signature'', Str sig)])"
  using sign_verify_roundtrip [OF toy_crypto_ok [of "[]" "[]"], of "''clearance''" Null "''k''" "''1''"]
    toy_crypto_ok by blast

end
