(* ===== verification/SchemaPrim.thy ===== *)
theory SchemaPrim
  imports Crypto
begin

text \<open>
  The scalar validators of \<open>schema.rs\<close> and the interface between a type and its wire form.

  Every wire type has a parser \<open>x_of\<close> (the function \<open>x\<close> of the source) and, where the source
  has one, a serializer \<open>x_value\<close>. The locale \<open>codec\<close> states their contract: serializing a
  valid value and parsing it gives the value back, and every parsed value is valid. Each type's
  theory interprets it.
\<close>

named_theorems codec_enc \<open>parsing what a serializer wrote\<close>
named_theorems codec_valid \<open>what a parser accepted is valid\<close>

section \<open>Objects\<close>

definition field :: "(string \<times> Value) list \<Rightarrow> string \<Rightarrow> Value R" where
  "field m name = ok_or (map_of m name) (schem ''required member missing'')"

definition closed :: "(string \<times> Value) list \<Rightarrow> string list \<Rightarrow> unit R" where
  "closed m allowed = ensure (\<forall>p \<in> set m. fst p \<in> set allowed) (schem ''unknown member'')"

definition obj_of :: "Value \<Rightarrow> (string \<times> Value) list R" where
  "obj_of v = ok_or (as_obj v) (schem ''expected object'')"

definition arr_of :: "Value \<Rightarrow> Value list R" where
  "arr_of v = ok_or (as_arr v) (schem ''expected array'')"

definition s_of :: "Value \<Rightarrow> string R" where
  "s_of v = ok_or (as_str v) (schem ''expected string'')"

definition boolean_of :: "Value \<Rightarrow> bool R" where
  "boolean_of v = ok_or (as_bool v) (schem ''expected boolean'')"

definition n_of :: "Value \<Rightarrow> nat R" where
  "n_of v = ok_or (as_int v) (schem ''expected integer number token'')"

definition u_of :: "Value \<Rightarrow> nat R" where
  "u_of v = sbind (s_of v) (\<lambda>st. ok_or (u_str st) (schem ''invalid U counter''))"

text \<open>\<open>p(field(m, k)?)?\<close>\<close>

definition fld :: "(string \<times> Value) list \<Rightarrow> string \<Rightarrow> (Value \<Rightarrow> 'a R) \<Rightarrow> 'a R" where
  "fld m k p = sbind (field m k) p"

definition opt_of :: "(Value \<Rightarrow> 'a R) \<Rightarrow> Value \<Rightarrow> 'a option R" where
  "opt_of p v = (if v = Null then Inr None else sbind (p v) (\<lambda>x. Inr (Some x)))"

section \<open>Scalars\<close>

definition check_str :: "(string \<Rightarrow> bool) \<Rightarrow> string \<Rightarrow> Value \<Rightarrow> string R" where
  "check_str ok msg v = sbind (s_of v) (\<lambda>st. if ok st then Inr st else Inl (schem msg))"

definition id_of :: "Value \<Rightarrow> string R" where
  "id_of = check_str valid_id ''invalid Id''"

definition hash_of :: "Value \<Rightarrow> string R" where
  "hash_of = check_str valid_hash ''invalid Hash''"

definition text_of :: "Value \<Rightarrow> string R" where
  "text_of = check_str valid_text ''invalid Text''"

definition boot_of :: "Value \<Rightarrow> string R" where
  "boot_of = check_str valid_boot ''invalid Boot''"

definition sig_of :: "Crypto \<Rightarrow> Value \<Rightarrow> string R" where
  "sig_of cr = check_str (is_sig cr) ''invalid Sig''"

definition pubkey_of :: "Crypto \<Rightarrow> Value \<Rightarrow> string R" where
  "pubkey_of cr = check_str (is_pub cr) ''invalid Pub''"

definition opt_u :: "Value \<Rightarrow> nat option R" where "opt_u = opt_of u_of"
definition opt_n :: "Value \<Rightarrow> nat option R" where "opt_n = opt_of n_of"
definition opt_id :: "Value \<Rightarrow> string option R" where "opt_id = opt_of id_of"
definition opt_hash :: "Value \<Rightarrow> string option R" where "opt_hash = opt_of hash_of"
definition opt_text :: "Value \<Rightarrow> string option R" where "opt_text = opt_of text_of"

definition id_list :: "Value \<Rightarrow> string list R" where
  "id_list v = sbind (arr_of v) (\<lambda>a. sbind (mapR id_of a) (\<lambda>items.
     if \<not> valid_id_set items then Inl (schem ''id set not sorted/unique'') else Inr items))"

definition hash_list :: "Value \<Rightarrow> string list R" where
  "hash_list v = sbind (arr_of v) (\<lambda>a. sbind (mapR hash_of a) (\<lambda>items.
     if length items > set_max then Inl (schem ''hash set too large'') else Inr items))"

definition hash_array :: "Value \<Rightarrow> string list R" where
  "hash_array v = sbind (arr_of v) (\<lambda>a. sbind (mapR hash_of a) (\<lambda>items.
     if length items > array_max then Inl (schem ''hash array too large'') else Inr items))"

definition lit_str :: "string \<Rightarrow> Value \<Rightarrow> unit R" where
  "lit_str want v = sbind (s_of v) (\<lambda>st. ensure (st = want) (schem ''unexpected literal''))"

definition lit_num :: "nat \<Rightarrow> Value \<Rightarrow> unit R" where
  "lit_num want v = sbind (n_of v) (\<lambda>k. ensure (k = want) (schem ''unexpected literal number''))"

text \<open>A member that must be one of a closed list of strings.\<close>

definition one_of :: "string list \<Rightarrow> string \<Rightarrow> Value \<Rightarrow> string R" where
  "one_of allowed msg v = sbind (s_of v) (\<lambda>st. if st \<in> set allowed then Inr st else Inl (schem msg))"

text \<open>An enumeration parsed by its \<open>parse\<close> function.\<close>

definition enum_of :: "(string \<Rightarrow> 'a option) \<Rightarrow> string \<Rightarrow> Value \<Rightarrow> 'a R" where
  "enum_of parse msg v = sbind (s_of v) (\<lambda>st. ok_or (parse st) (schem msg))"

definition opt_value :: "('a \<Rightarrow> Value) \<Rightarrow> 'a option \<Rightarrow> Value" where
  "opt_value f x = (case x of None \<Rightarrow> Null | Some y \<Rightarrow> f y)"

definition list_value :: "('a \<Rightarrow> Value) \<Rightarrow> 'a list \<Rightarrow> Value" where
  "list_value f xs = Arr (map f xs)"

section \<open>Bins\<close>

text \<open>\<open>[u64; 4]\<close>\<close>

type_synonym Bins = "nat \<times> nat \<times> nat \<times> nat"

definition bins_list :: "Bins \<Rightarrow> nat list" where
  "bins_list b = (case b of (c0, c1, c2, c3) \<Rightarrow> [c0, c1, c2, c3])"

definition bins_of :: "Value \<Rightarrow> Bins R" where
  "bins_of v = sbind (arr_of v) (\<lambda>a.
     if length a \<noteq> 4 then Inl (schem ''Bins needs 4 entries'') else
     sbind (u_of (a ! 0)) (\<lambda>c0. sbind (u_of (a ! 1)) (\<lambda>c1.
     sbind (u_of (a ! 2)) (\<lambda>c2. sbind (u_of (a ! 3)) (\<lambda>c3. Inr (c0, c1, c2, c3))))))"

definition bins_to_value :: "Bins \<Rightarrow> Value" where
  "bins_to_value b = Arr (map ustr (bins_list b))"

definition valid_bins :: "Bins \<Rightarrow> bool" where
  "valid_bins b \<longleftrightarrow> list_all (\<lambda>c. c \<le> u_max) (bins_list b)"

section \<open>What the scalar validators accept\<close>

lemma s_of_iff [simp]: "s_of v = Inr st \<longleftrightarrow> v = Str st"
  by (simp add: s_of_def accessor_Some)

lemma obj_of_iff [simp]: "obj_of v = Inr m \<longleftrightarrow> v = Obj m"
  by (simp add: obj_of_def accessor_Some)

lemma arr_of_iff [simp]: "arr_of v = Inr a \<longleftrightarrow> v = Arr a"
  by (simp add: arr_of_def accessor_Some)

lemma boolean_of_iff [simp]: "boolean_of v = Inr b \<longleftrightarrow> v = Bool b"
  by (simp add: boolean_of_def accessor_Some)

lemma n_of_iff [simp]: "n_of v = Inr k \<longleftrightarrow> v = num k \<and> k \<le> safe_int_max"
  by (simp add: n_of_def accessor_Some)

lemma u_of_iff [simp]: "u_of v = Inr k \<longleftrightarrow> v = ustr k \<and> k \<le> u_max"
  by (auto simp: u_of_def sbind_eq_Inr u_str_iff ustr_def)

lemma check_str_iff: "check_str ok msg v = Inr st \<longleftrightarrow> v = Str st \<and> ok st"
  by (auto simp: check_str_def sbind_eq_Inr)

lemma scalar_iffs [simp]:
  "id_of v = Inr st \<longleftrightarrow> v = Str st \<and> valid_id st"
  "hash_of v = Inr st \<longleftrightarrow> v = Str st \<and> valid_hash st"
  "text_of v = Inr st \<longleftrightarrow> v = Str st \<and> valid_text st"
  "boot_of v = Inr st \<longleftrightarrow> v = Str st \<and> valid_boot st"
  "sig_of cr v = Inr st \<longleftrightarrow> v = Str st \<and> is_sig cr st"
  "pubkey_of cr v = Inr st \<longleftrightarrow> v = Str st \<and> is_pub cr st"
  by (simp_all add: id_of_def hash_of_def text_of_def boot_of_def sig_of_def pubkey_of_def
        check_str_iff)

lemma opt_of_iff: "opt_of p v = Inr x \<longleftrightarrow>
    (v = Null \<and> x = None \<or> v \<noteq> Null \<and> (\<exists>y. x = Some y \<and> p v = Inr y))"
  by (auto simp: opt_of_def sbind_eq_Inr)

lemma opt_of_Null [simp]: "opt_of p Null = Inr None"
  by (simp add: opt_of_def)

lemma opt_value_simps [simp]: "opt_value f None = Null" "opt_value f (Some y) = f y"
  by (simp_all add: opt_value_def)

lemma opt_of_opt_value:
  assumes "\<And>y. x = Some y \<Longrightarrow> p (f y) = Inr y \<and> f y \<noteq> Null"
  shows "opt_of p (opt_value f x) = Inr x"
  using assms by (cases x) (auto simp: opt_of_def)

lemma mapR_list_value:
  assumes "\<And>x. x \<in> set xs \<Longrightarrow> p (f x) = Inr x"
  shows "mapR p (map f xs) = Inr xs"
  using assms by (rule mapR_map_inverse)

lemma mapR_id_of: "mapR id_of a = Inr xs \<longleftrightarrow> a = map Str xs \<and> list_all valid_id xs"
  by (auto simp: mapR_eq_Inr list_all2_conv_all_nth list_all_length intro!: nth_equalityI)

lemma mapR_hash_of: "mapR hash_of a = Inr xs \<longleftrightarrow> a = map Str xs \<and> list_all valid_hash xs"
  by (auto simp: mapR_eq_Inr list_all2_conv_all_nth list_all_length intro!: nth_equalityI)

lemma mapR_text_of: "mapR text_of a = Inr xs \<longleftrightarrow> a = map Str xs \<and> list_all valid_text xs"
  by (auto simp: mapR_eq_Inr list_all2_conv_all_nth list_all_length intro!: nth_equalityI)

lemma id_list_iff [simp]: "id_list v = Inr xs \<longleftrightarrow> v = Arr (map Str xs) \<and> valid_id_set xs"
  by (auto simp: id_list_def sbind_eq_Inr mapR_id_of valid_id_set_iff)

lemma hash_list_iff [simp]:
  "hash_list v = Inr xs \<longleftrightarrow> v = Arr (map Str xs) \<and> list_all valid_hash xs \<and> length xs \<le> set_max"
  by (auto simp: hash_list_def sbind_eq_Inr mapR_hash_of)

lemma hash_array_iff [simp]:
  "hash_array v = Inr xs \<longleftrightarrow> v = Arr (map Str xs) \<and> list_all valid_hash xs \<and> length xs \<le> array_max"
  by (auto simp: hash_array_def sbind_eq_Inr mapR_hash_of)

lemma lit_str_iff [simp]: "lit_str want v = Inr x \<longleftrightarrow> v = Str want"
  by (auto simp: lit_str_def sbind_eq_Inr)

lemma lit_num_iff [simp]: "lit_num want v = Inr x \<longleftrightarrow> v = num want \<and> want \<le> safe_int_max"
  by (auto simp: lit_num_def sbind_eq_Inr)

lemma one_of_iff [simp]: "one_of allowed msg v = Inr st \<longleftrightarrow> v = Str st \<and> st \<in> set allowed"
  by (auto simp: one_of_def sbind_eq_Inr)

lemma enum_of_iff [simp]: "enum_of parse msg v = Inr x \<longleftrightarrow> (\<exists>st. v = Str st \<and> parse st = Some x)"
  by (auto simp: enum_of_def sbind_eq_Inr)

lemma bins_of_iff [simp]: "bins_of v = Inr b \<longleftrightarrow> v = bins_to_value b \<and> valid_bins b"
proof -
  obtain c0 c1 c2 c3 where b: "b = (c0, c1, c2, c3)" by (cases b) auto
  have four: "length a = 4 \<longleftrightarrow> (\<exists>w x y z. a = [w, x, y, z])" for a :: "Value list"
    by (auto simp: numeral_eq_Suc length_Suc_conv)
  have "bins_of (Arr a) = Inr b \<longleftrightarrow> length a = 4 \<and>
      a ! 0 = ustr c0 \<and> c0 \<le> u_max \<and> a ! 1 = ustr c1 \<and> c1 \<le> u_max \<and>
      a ! 2 = ustr c2 \<and> c2 \<le> u_max \<and> a ! 3 = ustr c3 \<and> c3 \<le> u_max" for a
  proof (cases "length a = 4")
    case True
    then show ?thesis by (simp add: bins_of_def arr_of_def sbind_eq_Inr b)
  qed (simp add: bins_of_def arr_of_def)
  then have "bins_of (Arr a) = Inr b \<longleftrightarrow> a = map ustr (bins_list b) \<and> valid_bins b" for a
    by (auto simp: four bins_list_def valid_bins_def b)
  then show ?thesis
    by (cases v) (auto simp: bins_to_value_def bins_of_def arr_of_def accessor_defs)
qed

lemma closed_iff: "closed m allowed = Inr x \<longleftrightarrow> (\<forall>p \<in> set m. fst p \<in> set allowed)"
  by (simp add: closed_def)

lemma field_iff [simp]: "field m k = Inr v \<longleftrightarrow> map_of m k = Some v"
  by (simp add: field_def)

lemma fld_iff: "fld m k p = Inr x \<longleftrightarrow> (\<exists>v. map_of m k = Some v \<and> p v = Inr x)"
  by (simp add: fld_def sbind_eq_Inr)

lemma fld_some: "map_of m k = Some v \<Longrightarrow> fld m k p = p v"
  by (simp add: fld_def field_def)

lemma field_some [codec_enc]: "map_of m k = Some v \<Longrightarrow> field m k = Inr v"
  by simp

lemma mapR_ref_id: "mapR id_of (map Str xs) = Inr xs \<longleftrightarrow> list_all valid_id xs"
  by (simp add: mapR_id_of)

section \<open>The interface of a wire type\<close>

locale codec =
  fixes enc :: "'a \<Rightarrow> Value"
    and dec_of :: "Value \<Rightarrow> 'a R"
    and valid :: "'a \<Rightarrow> bool"
  assumes dec_enc: "valid x \<Longrightarrow> dec_of (enc x) = Inr x"
    and dec_valid: "dec_of v = Inr x \<Longrightarrow> valid x"
begin

lemma enc_inject: "valid x \<Longrightarrow> valid y \<Longrightarrow> enc x = enc y \<Longrightarrow> x = y"
  using dec_enc by (metis Inr_inject)

lemma reparse: "dec_of v = Inr x \<Longrightarrow> dec_of (enc x) = Inr x"
  by (rule dec_enc) (rule dec_valid)

lemma valid_iff: "valid x \<longleftrightarrow> (\<exists>v. dec_of v = Inr x)"
  using dec_enc dec_valid by blast

lemma dec_enc_iff: "dec_of (enc x) = Inr x \<longleftrightarrow> valid x"
  using dec_enc dec_valid by blast

lemma list_dec_enc: "list_all valid xs \<Longrightarrow> mapR dec_of (map enc xs) = Inr xs"
  by (rule mapR_map_inverse) (auto simp: list_all_iff dec_enc)

lemma list_valid: "mapR dec_of vs = Inr xs \<Longrightarrow> list_all valid xs"
  by (auto simp: list_all_iff dest: dec_valid elim: mapR_set)

lemma opt_dec_enc:
  assumes "pred_option valid x" and "\<And>y. enc y \<noteq> Null"
  shows "opt_of dec_of (opt_value enc x) = Inr x"
  using assms by (intro opt_of_opt_value) (auto simp: dec_enc)

lemma opt_valid: "opt_of dec_of v = Inr x \<Longrightarrow> pred_option valid x"
  by (auto simp: opt_of_iff dest: dec_valid)

end

interpretation u_codec: codec ustr u_of "\<lambda>k. k \<le> u_max"
  by unfold_locales auto

interpretation n_codec: codec num n_of "\<lambda>k. k \<le> safe_int_max"
  by unfold_locales auto

interpretation id_codec: codec Str id_of valid_id
  by unfold_locales auto

interpretation hash_codec: codec Str hash_of valid_hash
  by unfold_locales auto

interpretation text_codec: codec Str text_of valid_text
  by unfold_locales auto

interpretation bins_codec: codec bins_to_value bins_of valid_bins
  by unfold_locales auto

lemma opt_scalar_enc [simp]:
  "opt_u (opt_value ustr x) = Inr x \<longleftrightarrow> pred_option (\<lambda>k. k \<le> u_max) x"
  "opt_n (opt_value num y) = Inr y \<longleftrightarrow> pred_option (\<lambda>k. k \<le> safe_int_max) y"
  "opt_id (opt_value Str z) = Inr z \<longleftrightarrow> pred_option valid_id z"
  "opt_hash (opt_value Str z) = Inr z \<longleftrightarrow> pred_option valid_hash z"
  "opt_text (opt_value Str z) = Inr z \<longleftrightarrow> pred_option valid_text z"
  by (cases x; cases y; cases z; simp add: opt_u_def opt_n_def opt_id_def opt_hash_def opt_text_def
        opt_of_def sbind_eq_Inr)+

lemma opt_scalar_valid:
  "opt_u v = Inr x \<Longrightarrow> pred_option (\<lambda>k. k \<le> u_max) x"
  "opt_n v = Inr y \<Longrightarrow> pred_option (\<lambda>k. k \<le> safe_int_max) y"
  "opt_id v = Inr z \<Longrightarrow> pred_option valid_id z"
  "opt_hash v = Inr z \<Longrightarrow> pred_option valid_hash z"
  "opt_text v = Inr z \<Longrightarrow> pred_option valid_text z"
  unfolding opt_u_def opt_n_def opt_id_def opt_hash_def opt_text_def
  by (rule u_codec.opt_valid n_codec.opt_valid id_codec.opt_valid hash_codec.opt_valid
        text_codec.opt_valid; assumption)+

lemma closed_eval [codec_enc]: "list_all (\<lambda>p. fst p \<in> set ks) m \<Longrightarrow> closed m ks = Inr ()"
  by (simp add: closed_def list_all_iff)

lemma id_list_enc: "valid_id_set xs \<Longrightarrow> id_list (Arr (map Str xs)) = Inr xs"
  by simp

lemma hash_list_enc: "list_all valid_hash xs \<Longrightarrow> length xs \<le> set_max \<Longrightarrow>
    hash_list (Arr (map Str xs)) = Inr xs"
  by simp

lemma hash_array_enc: "list_all valid_hash xs \<Longrightarrow> length xs \<le> array_max \<Longrightarrow>
    hash_array (Arr (map Str xs)) = Inr xs"
  by simp

lemma check_str_eval: "check_str ok msg (Str st) = (if ok st then Inr st else Inl (schem msg))"
  by (simp add: check_str_def s_of_def as_str_def)

lemma sig_pub_enc:
  "is_sig cr st \<Longrightarrow> sig_of cr (Str st) = Inr st"
  "is_pub cr st \<Longrightarrow> pubkey_of cr (Str st) = Inr st"
  "valid_boot st \<Longrightarrow> boot_of (Str st) = Inr st"
  by simp_all

lemma literal_enc:
  "lit_str w (Str w) = Inr ()"
  "k \<le> safe_int_max \<Longrightarrow> lit_num k (num k) = Inr ()"
  "arr_of (Arr a) = Inr a"
  "obj_of (Obj m) = Inr m"
  "boolean_of (Bool b) = Inr b"
  "st \<in> set allowed \<Longrightarrow> one_of allowed msg (Str st) = Inr st"
  "enum_of parse msg (Str st) = ok_or (parse st) (schem msg)"
  by (simp_all add: one_of_def enum_of_def s_of_def as_str_def)

lemmas scalar_enc [codec_enc] =
  u_codec.dec_enc n_codec.dec_enc id_codec.dec_enc hash_codec.dec_enc text_codec.dec_enc
  bins_codec.dec_enc sig_pub_enc literal_enc id_list_enc hash_list_enc hash_array_enc
  opt_scalar_enc [THEN iffD2] id_codec.list_dec_enc hash_codec.list_dec_enc text_codec.list_dec_enc

lemmas scalar_valid [codec_valid] =
  opt_scalar_valid id_codec.list_valid hash_codec.list_valid text_codec.list_valid

lemma safe_small [simp]: "1 \<le> safe_int_max" "0 \<le> safe_int_max" "Suc 0 \<le> safe_int_max"
  "10000 \<le> safe_int_max"
  by (simp_all add: safe_int_max_def)

end
