(* ===== verification/SchemaObs.thy ===== *)
theory SchemaObs
  imports SchemaPrim
begin

text \<open>
  Heads, references, windows, snapshots, signed envelopes, observations and intents (\<open>schema.rs\<close>).
  Each group is the record of the source's struct, its parser \<open>x_of\<close>, its serializer and the
  validity the parser establishes, with the \<open>codec\<close> interpretation.
\<close>

section \<open>Heads, references, windows\<close>

record Head =
  hd_seq :: "nat"
  hd_hash :: "string"

definition head_of :: "Value \<Rightarrow> Head R" where
  "head_of v = sbind (obj_of v) (\<lambda>m.
     sbind (closed m [''seq'', ''hash'']) (\<lambda>_.
     sbind (fld m ''seq'' u_of) (\<lambda>seq.
     sbind (fld m ''hash'' hash_of) (\<lambda>hash.
     Inr \<lparr>hd_seq = seq, hd_hash = hash\<rparr>))))"

definition head_value :: "Head \<Rightarrow> Value" where
  "head_value x = Obj [
     (''seq'', ustr (hd_seq x)),
     (''hash'', Str (hd_hash x))]"

definition valid_head :: "Head \<Rightarrow> bool" where
  "valid_head x \<longleftrightarrow>
     hd_seq x \<le> u_max \<and>
     valid_hash (hd_hash x)"

lemma head_dec_enc [codec_enc]: "valid_head x \<Longrightarrow> head_of (head_value x) = Inr x"
  by (cases x) (simp add: head_of_def head_value_def valid_head_def fld_some closed_eval codec_enc)

lemma head_not_Null [simp]: "head_value x \<noteq> Null"
  by (simp add: head_value_def)

lemma head_dec_valid [codec_valid]: "head_of v = Inr x \<Longrightarrow> valid_head x"
  by (auto simp: head_of_def valid_head_def fld_iff dest!: codec_valid)

interpretation head_codec: codec head_value head_of valid_head
  by unfold_locales (auto simp: head_dec_enc dest: head_dec_valid)

lemmas head_lists [codec_enc] = head_codec.list_dec_enc head_codec.opt_dec_enc [OF _ head_not_Null]

lemmas head_lists_valid [codec_valid] = head_codec.list_valid head_codec.opt_valid

definition empty_head :: Head where
  "empty_head = \<lparr>hd_seq = 0, hd_hash = zero_hash\<rparr>"

record Ref =
  rf_source :: "string"
  rf_epoch :: "nat"
  rf_seq :: "nat"
  rf_hash :: "string"

definition ref_of :: "Value \<Rightarrow> Ref R" where
  "ref_of v = sbind (obj_of v) (\<lambda>m.
     sbind (closed m [''source'', ''epoch'', ''seq'', ''hash'']) (\<lambda>_.
     sbind (fld m ''source'' id_of) (\<lambda>source.
     sbind (fld m ''epoch'' u_of) (\<lambda>epoch.
     sbind (fld m ''seq'' u_of) (\<lambda>seq.
     sbind (fld m ''hash'' hash_of) (\<lambda>hash.
     Inr \<lparr>rf_source = source, rf_epoch = epoch, rf_seq = seq, rf_hash = hash\<rparr>))))))"

definition ref_value :: "Ref \<Rightarrow> Value" where
  "ref_value x = Obj [
     (''source'', Str (rf_source x)),
     (''epoch'', ustr (rf_epoch x)),
     (''seq'', ustr (rf_seq x)),
     (''hash'', Str (rf_hash x))]"

definition valid_ref :: "Ref \<Rightarrow> bool" where
  "valid_ref x \<longleftrightarrow>
     valid_id (rf_source x) \<and>
     rf_epoch x \<le> u_max \<and>
     rf_seq x \<le> u_max \<and>
     valid_hash (rf_hash x)"

lemma ref_dec_enc [codec_enc]: "valid_ref x \<Longrightarrow> ref_of (ref_value x) = Inr x"
  by (cases x) (simp add: ref_of_def ref_value_def valid_ref_def fld_some closed_eval codec_enc)

lemma ref_not_Null [simp]: "ref_value x \<noteq> Null"
  by (simp add: ref_value_def)

lemma ref_dec_valid [codec_valid]: "ref_of v = Inr x \<Longrightarrow> valid_ref x"
  by (auto simp: ref_of_def valid_ref_def fld_iff dest!: codec_valid)

interpretation ref_codec: codec ref_value ref_of valid_ref
  by unfold_locales (auto simp: ref_dec_enc dest: ref_dec_valid)

lemmas ref_lists [codec_enc] = ref_codec.list_dec_enc ref_codec.opt_dec_enc [OF _ ref_not_Null]

lemmas ref_lists_valid [codec_valid] = ref_codec.list_valid ref_codec.opt_valid

record ForeignRef =
  fr_namespace :: "string"
  fr_subject :: "string"
  fr_digest :: "string"

definition foreign_ref_of :: "Value \<Rightarrow> ForeignRef R" where
  "foreign_ref_of v = sbind (obj_of v) (\<lambda>m.
     sbind (closed m [''namespace'', ''subject'', ''digest'']) (\<lambda>_.
     sbind (fld m ''namespace'' text_of) (\<lambda>namespace.
     sbind (fld m ''subject'' text_of) (\<lambda>subject.
     sbind (fld m ''digest'' hash_of) (\<lambda>digest.
     Inr \<lparr>fr_namespace = namespace, fr_subject = subject, fr_digest = digest\<rparr>)))))"

definition foreign_ref_value :: "ForeignRef \<Rightarrow> Value" where
  "foreign_ref_value x = Obj [
     (''namespace'', Str (fr_namespace x)),
     (''subject'', Str (fr_subject x)),
     (''digest'', Str (fr_digest x))]"

definition valid_foreign_ref :: "ForeignRef \<Rightarrow> bool" where
  "valid_foreign_ref x \<longleftrightarrow>
     valid_text (fr_namespace x) \<and>
     valid_text (fr_subject x) \<and>
     valid_hash (fr_digest x)"

lemma foreign_ref_dec_enc [codec_enc]: "valid_foreign_ref x \<Longrightarrow> foreign_ref_of (foreign_ref_value x) = Inr x"
  by (cases x) (simp add: foreign_ref_of_def foreign_ref_value_def valid_foreign_ref_def fld_some closed_eval codec_enc)

lemma foreign_ref_not_Null [simp]: "foreign_ref_value x \<noteq> Null"
  by (simp add: foreign_ref_value_def)

lemma foreign_ref_dec_valid [codec_valid]: "foreign_ref_of v = Inr x \<Longrightarrow> valid_foreign_ref x"
  by (auto simp: foreign_ref_of_def valid_foreign_ref_def fld_iff dest!: codec_valid)

interpretation foreign_ref_codec: codec foreign_ref_value foreign_ref_of valid_foreign_ref
  by unfold_locales (auto simp: foreign_ref_dec_enc dest: foreign_ref_dec_valid)

lemmas foreign_ref_lists [codec_enc] = foreign_ref_codec.list_dec_enc foreign_ref_codec.opt_dec_enc [OF _ foreign_ref_not_Null]

lemmas foreign_ref_lists_valid [codec_valid] = foreign_ref_codec.list_valid foreign_ref_codec.opt_valid

definition window_ms :: nat where "window_ms = 10000"

lemma window_ms_safe [simp]: "window_ms \<le> safe_int_max"
  by (simp add: window_ms_def safe_int_max_def)

record Window =
  wn_start_ms :: "nat"
  wn_counts :: "Bins"

definition window_of :: "Value \<Rightarrow> Window R" where
  "window_of v = sbind (obj_of v) (\<lambda>m.
     sbind (closed m [''start_ms'', ''width_ms'', ''counts'']) (\<lambda>_.
     sbind (fld m ''start_ms'' u_of) (\<lambda>start_ms.
     sbind (fld m ''counts'' bins_of) (\<lambda>counts.
     sbind (fld m ''width_ms'' (lit_num window_ms)) (\<lambda>_.
     if \<not> window_ms dvd start_ms then Inl (schem ''window start not a multiple of width'') else
     Inr \<lparr>wn_start_ms = start_ms, wn_counts = counts\<rparr>)))))"

definition window_value :: "Window \<Rightarrow> Value" where
  "window_value x = Obj [
     (''start_ms'', ustr (wn_start_ms x)),
     (''width_ms'', num window_ms),
     (''counts'', bins_to_value (wn_counts x))]"

definition valid_window :: "Window \<Rightarrow> bool" where
  "valid_window x \<longleftrightarrow>
     wn_start_ms x \<le> u_max \<and>
     valid_bins (wn_counts x) \<and>
     \<not> (\<not> window_ms dvd (wn_start_ms x))"

lemma window_dec_enc [codec_enc]: "valid_window x \<Longrightarrow> window_of (window_value x) = Inr x"
  by (cases x) (simp add: window_of_def window_value_def valid_window_def fld_some closed_eval codec_enc)

lemma window_not_Null [simp]: "window_value x \<noteq> Null"
  by (simp add: window_value_def)

lemma window_dec_valid [codec_valid]: "window_of v = Inr x \<Longrightarrow> valid_window x"
  by (auto simp: window_of_def valid_window_def fld_iff dest!: codec_valid)

interpretation window_codec: codec window_value window_of valid_window
  by unfold_locales (auto simp: window_dec_enc dest: window_dec_valid)

lemmas window_lists [codec_enc] = window_codec.list_dec_enc window_codec.opt_dec_enc [OF _ window_not_Null]

lemmas window_lists_valid [codec_valid] = window_codec.list_valid window_codec.opt_valid

record Snapshot =
  sn_committed_minor :: "nat"
  sn_reserved_minor :: "nat"
  sn_scopes :: "string list"
  sn_replicas :: "nat option"
  sn_target_revision :: "nat"
  sn_window :: "Window option"

definition snapshot_of :: "Value \<Rightarrow> Snapshot R" where
  "snapshot_of v = sbind (obj_of v) (\<lambda>m.
     sbind (closed m [''committed_minor'', ''reserved_minor'', ''currency'', ''scopes'', ''replicas'',
       ''target_revision'', ''window'']) (\<lambda>_.
     sbind (fld m ''currency'' (lit_str ''USD'')) (\<lambda>_.
     sbind (fld m ''replicas'' opt_n) (\<lambda>replicas.
     sbind (fld m ''window'' (opt_of window_of)) (\<lambda>window.
     sbind (fld m ''committed_minor'' u_of) (\<lambda>committed_minor.
     sbind (fld m ''reserved_minor'' u_of) (\<lambda>reserved_minor.
     sbind (fld m ''scopes'' id_list) (\<lambda>scopes.
     sbind (fld m ''target_revision'' u_of) (\<lambda>target_revision.
     Inr \<lparr>sn_committed_minor = committed_minor, sn_reserved_minor = reserved_minor,
       sn_scopes = scopes, sn_replicas = replicas, sn_target_revision = target_revision,
       sn_window = window\<rparr>)))))))))"

definition snapshot_value :: "Snapshot \<Rightarrow> Value" where
  "snapshot_value x = Obj [
     (''committed_minor'', ustr (sn_committed_minor x)),
     (''reserved_minor'', ustr (sn_reserved_minor x)),
     (''currency'', Str ''USD''),
     (''scopes'', Arr (map Str (sn_scopes x))),
     (''replicas'', opt_value num (sn_replicas x)),
     (''target_revision'', ustr (sn_target_revision x)),
     (''window'', opt_value window_value (sn_window x))]"

definition valid_snapshot :: "Snapshot \<Rightarrow> bool" where
  "valid_snapshot x \<longleftrightarrow>
     sn_committed_minor x \<le> u_max \<and>
     sn_reserved_minor x \<le> u_max \<and>
     valid_id_set (sn_scopes x) \<and>
     pred_option (\<lambda>k. k \<le> safe_int_max) (sn_replicas x) \<and>
     sn_target_revision x \<le> u_max \<and>
     pred_option (valid_window) (sn_window x)"

lemma snapshot_dec_enc [codec_enc]: "valid_snapshot x \<Longrightarrow> snapshot_of (snapshot_value x) = Inr x"
  by (cases x) (simp add: snapshot_of_def snapshot_value_def valid_snapshot_def fld_some closed_eval codec_enc)

lemma snapshot_not_Null [simp]: "snapshot_value x \<noteq> Null"
  by (simp add: snapshot_value_def)

lemma snapshot_dec_valid [codec_valid]: "snapshot_of v = Inr x \<Longrightarrow> valid_snapshot x"
  by (auto simp: snapshot_of_def valid_snapshot_def fld_iff dest!: codec_valid)

interpretation snapshot_codec: codec snapshot_value snapshot_of valid_snapshot
  by unfold_locales (auto simp: snapshot_dec_enc dest: snapshot_dec_valid)

lemmas snapshot_lists [codec_enc] = snapshot_codec.list_dec_enc snapshot_codec.opt_dec_enc [OF _ snapshot_not_Null]

lemmas snapshot_lists_valid [codec_valid] = snapshot_codec.list_valid snapshot_codec.opt_valid

record Signal =
  sg_score_bp :: "nat"
  sg_model :: "string"
  sg_prompt :: "string"
  sg_content_commitment :: "string"

definition signal_of :: "Value \<Rightarrow> Signal R" where
  "signal_of v = sbind (obj_of v) (\<lambda>m.
     sbind (closed m [''kind'', ''score_bp'', ''model'', ''prompt'', ''content_commitment'']) (\<lambda>_.
     sbind (fld m ''kind'' (lit_str ''rationale-score'')) (\<lambda>_.
     sbind (fld m ''score_bp'' n_of) (\<lambda>score_bp.
     if score_bp > 10000 then Inl (schem ''score_bp out of range'') else
     sbind (fld m ''model'' hash_of) (\<lambda>model.
     sbind (fld m ''prompt'' hash_of) (\<lambda>prompt.
     sbind (fld m ''content_commitment'' hash_of) (\<lambda>content_commitment.
     Inr \<lparr>sg_score_bp = score_bp, sg_model = model, sg_prompt = prompt,
       sg_content_commitment = content_commitment\<rparr>)))))))"

definition signal_value :: "Signal \<Rightarrow> Value" where
  "signal_value x = Obj [
     (''kind'', Str ''rationale-score''),
     (''score_bp'', num (sg_score_bp x)),
     (''model'', Str (sg_model x)),
     (''prompt'', Str (sg_prompt x)),
     (''content_commitment'', Str (sg_content_commitment x))]"

definition valid_signal :: "Signal \<Rightarrow> bool" where
  "valid_signal x \<longleftrightarrow>
     sg_score_bp x \<le> safe_int_max \<and>
     valid_hash (sg_model x) \<and>
     valid_hash (sg_prompt x) \<and>
     valid_hash (sg_content_commitment x) \<and>
     \<not> ((sg_score_bp x) > 10000)"

lemma signal_dec_enc [codec_enc]: "valid_signal x \<Longrightarrow> signal_of (signal_value x) = Inr x"
  by (cases x) (simp add: signal_of_def signal_value_def valid_signal_def fld_some closed_eval codec_enc)

lemma signal_not_Null [simp]: "signal_value x \<noteq> Null"
  by (simp add: signal_value_def)

lemma signal_dec_valid [codec_valid]: "signal_of v = Inr x \<Longrightarrow> valid_signal x"
  by (auto simp: signal_of_def valid_signal_def fld_iff dest!: codec_valid)

interpretation signal_codec: codec signal_value signal_of valid_signal
  by unfold_locales (auto simp: signal_dec_enc dest: signal_dec_valid)

lemmas signal_lists [codec_enc] = signal_codec.list_dec_enc signal_codec.opt_dec_enc [OF _ signal_not_Null]

lemmas signal_lists_valid [codec_valid] = signal_codec.list_valid signal_codec.opt_valid

section \<open>Signed envelopes, observations, intents\<close>

record Signed =
  sd_body :: "Value"
  sd_digest :: "string"
  sd_key_id :: "string"
  sd_key_epoch :: "nat"
  sd_signature :: "string"

definition signed_of :: "Crypto \<Rightarrow> Value \<Rightarrow> Signed R" where
  "signed_of cr v = sbind (obj_of v) (\<lambda>m.
     sbind (closed m [''body'', ''digest'', ''key_id'', ''key_epoch'', ''signature'']) (\<lambda>_.
     sbind (fld m ''body'' Inr) (\<lambda>body.
     sbind (fld m ''digest'' hash_of) (\<lambda>digest.
     sbind (fld m ''key_id'' id_of) (\<lambda>key_id.
     sbind (fld m ''key_epoch'' u_of) (\<lambda>key_epoch.
     sbind (fld m ''signature'' (sig_of cr)) (\<lambda>signature.
     Inr \<lparr>sd_body = body, sd_digest = digest, sd_key_id = key_id, sd_key_epoch = key_epoch,
       sd_signature = signature\<rparr>)))))))"

definition signed_value :: "Signed \<Rightarrow> Value" where
  "signed_value x = Obj [
     (''body'', sd_body x),
     (''digest'', Str (sd_digest x)),
     (''key_id'', Str (sd_key_id x)),
     (''key_epoch'', ustr (sd_key_epoch x)),
     (''signature'', Str (sd_signature x))]"

definition valid_signed :: "Crypto \<Rightarrow> Signed \<Rightarrow> bool" where
  "valid_signed cr x \<longleftrightarrow>
     valid_hash (sd_digest x) \<and>
     valid_id (sd_key_id x) \<and>
     sd_key_epoch x \<le> u_max \<and>
     is_sig cr (sd_signature x)"

lemma signed_dec_enc [codec_enc]: "valid_signed cr x \<Longrightarrow> signed_of cr (signed_value x) = Inr x"
  by (cases x) (simp add: signed_of_def signed_value_def valid_signed_def fld_some closed_eval codec_enc)

lemma signed_not_Null [simp]: "signed_value x \<noteq> Null"
  by (simp add: signed_value_def)

lemma signed_dec_valid [codec_valid]: "signed_of cr v = Inr x \<Longrightarrow> valid_signed cr x"
  by (auto simp: signed_of_def valid_signed_def fld_iff dest!: codec_valid)

interpretation signed_codec: codec signed_value "signed_of cr" "valid_signed cr" for cr
  by unfold_locales (auto simp: signed_dec_enc dest: signed_dec_valid)

lemmas signed_lists [codec_enc] = signed_codec.list_dec_enc signed_codec.opt_dec_enc [OF _ signed_not_Null]

lemmas signed_lists_valid [codec_valid] = signed_codec.list_valid signed_codec.opt_valid

record ObservationBody =
  ob_tenant :: "string"
  ob_source :: "string"
  ob_epoch :: "nat"
  ob_boot :: "string"
  ob_seq :: "nat"
  ob_prev :: "string"
  ob_run :: "string"
  ob_cut_ms :: "nat"
  ob_snapshot :: "Snapshot"
  ob_signal :: "Signal option"
  ob_lineage :: "ForeignRef list"

definition observation_body_of :: "Value \<Rightarrow> ObservationBody R" where
  "observation_body_of v = sbind (obj_of v) (\<lambda>m.
     sbind (closed m [''v'', ''tenant'', ''source'', ''epoch'', ''boot'', ''seq'', ''prev'', ''run'',
       ''cut_ms'', ''snapshot'', ''signal'', ''lineage'']) (\<lambda>_.
     sbind (fld m ''v'' (lit_num 1)) (\<lambda>_.
     sbind (fld m ''signal'' (opt_of signal_of)) (\<lambda>signal.
     sbind (fld m ''lineage'' arr_of) (\<lambda>lineage_a.
     sbind (fld m ''tenant'' id_of) (\<lambda>tenant.
     sbind (fld m ''source'' id_of) (\<lambda>source.
     sbind (fld m ''epoch'' u_of) (\<lambda>epoch.
     sbind (fld m ''boot'' boot_of) (\<lambda>boot.
     sbind (fld m ''seq'' u_of) (\<lambda>seq.
     sbind (fld m ''prev'' hash_of) (\<lambda>prev.
     sbind (fld m ''run'' id_of) (\<lambda>run.
     sbind (fld m ''cut_ms'' u_of) (\<lambda>cut_ms.
     sbind (fld m ''snapshot'' snapshot_of) (\<lambda>snapshot.
     sbind (mapR foreign_ref_of lineage_a) (\<lambda>lineage.
     Inr \<lparr>ob_tenant = tenant, ob_source = source, ob_epoch = epoch, ob_boot = boot, ob_seq = seq,
       ob_prev = prev, ob_run = run, ob_cut_ms = cut_ms, ob_snapshot = snapshot,
       ob_signal = signal, ob_lineage = lineage\<rparr>)))))))))))))))"

definition observation_body_value :: "ObservationBody \<Rightarrow> Value" where
  "observation_body_value x = Obj [
     (''v'', num 1),
     (''tenant'', Str (ob_tenant x)),
     (''source'', Str (ob_source x)),
     (''epoch'', ustr (ob_epoch x)),
     (''boot'', Str (ob_boot x)),
     (''seq'', ustr (ob_seq x)),
     (''prev'', Str (ob_prev x)),
     (''run'', Str (ob_run x)),
     (''cut_ms'', ustr (ob_cut_ms x)),
     (''snapshot'', snapshot_value (ob_snapshot x)),
     (''signal'', opt_value signal_value (ob_signal x)),
     (''lineage'', Arr (map foreign_ref_value (ob_lineage x)))]"

definition valid_observation_body :: "ObservationBody \<Rightarrow> bool" where
  "valid_observation_body x \<longleftrightarrow>
     valid_id (ob_tenant x) \<and>
     valid_id (ob_source x) \<and>
     ob_epoch x \<le> u_max \<and>
     valid_boot (ob_boot x) \<and>
     ob_seq x \<le> u_max \<and>
     valid_hash (ob_prev x) \<and>
     valid_id (ob_run x) \<and>
     ob_cut_ms x \<le> u_max \<and>
     valid_snapshot (ob_snapshot x) \<and>
     pred_option (valid_signal) (ob_signal x) \<and>
     list_all valid_foreign_ref (ob_lineage x)"

lemma observation_body_dec_enc [codec_enc]: "valid_observation_body x \<Longrightarrow> observation_body_of (observation_body_value x) = Inr x"
  by (cases x) (simp add: observation_body_of_def observation_body_value_def valid_observation_body_def fld_some closed_eval codec_enc)

lemma observation_body_not_Null [simp]: "observation_body_value x \<noteq> Null"
  by (simp add: observation_body_value_def)

lemma observation_body_dec_valid [codec_valid]: "observation_body_of v = Inr x \<Longrightarrow> valid_observation_body x"
  by (auto simp: observation_body_of_def valid_observation_body_def fld_iff dest!: codec_valid)

interpretation observation_body_codec: codec observation_body_value observation_body_of valid_observation_body
  by unfold_locales (auto simp: observation_body_dec_enc dest: observation_body_dec_valid)

lemmas observation_body_lists [codec_enc] = observation_body_codec.list_dec_enc observation_body_codec.opt_dec_enc [OF _ observation_body_not_Null]

lemmas observation_body_lists_valid [codec_valid] = observation_body_codec.list_valid observation_body_codec.opt_valid

text \<open>The two inert fixture tools. The request is returned as it is.\<close>

definition tool_request :: "Value \<Rightarrow> Value R" where
  "tool_request v = sbind (obj_of v) (\<lambda>m. sbind (field m ''op'') (\<lambda>opv. sbind (s_of opv) (\<lambda>op_s.
     if op_s = ''read'' then
       sbind (closed m [''op'', ''record'']) (\<lambda>_. sbind (fld m ''record'' id_of) (\<lambda>_. Inr v))
     else if op_s = ''write'' then
       sbind (closed m [''op'', ''record'', ''value'', ''cost_minor'']) (\<lambda>_.
       sbind (fld m ''record'' id_of) (\<lambda>_. sbind (fld m ''value'' text_of) (\<lambda>_.
       sbind (fld m ''cost_minor'' u_of) (\<lambda>_. Inr v))))
     else Inl (schem ''unknown tool op''))))"

lemma tool_request_id: "tool_request v = Inr w \<Longrightarrow> w = v"
  by (auto simp: tool_request_def sbind_eq_Inr split: if_splits)

record Intent =
  it_action :: "string"
  it_request_hash :: "string"
  it_tool :: "string"
  it_target_revision :: "nat"
  it_authority_hash :: "string"
  it_scopes :: "string list"
  it_cost_minor :: "nat"

definition intent_of :: "Value \<Rightarrow> Intent R" where
  "intent_of v = sbind (obj_of v) (\<lambda>m.
     sbind (closed m [''action'', ''request_hash'', ''tool'', ''target_revision'', ''authority_hash'',
       ''scopes'', ''cost_minor'', ''currency'']) (\<lambda>_.
     sbind (fld m ''currency'' (lit_str ''USD'')) (\<lambda>_.
     sbind (fld m ''tool'' (one_of [''record.read'', ''record.write''] ''unknown tool'')) (\<lambda>tool.
     sbind (fld m ''action'' id_of) (\<lambda>action.
     sbind (fld m ''request_hash'' hash_of) (\<lambda>request_hash.
     sbind (fld m ''target_revision'' u_of) (\<lambda>target_revision.
     sbind (fld m ''authority_hash'' hash_of) (\<lambda>authority_hash.
     sbind (fld m ''scopes'' id_list) (\<lambda>scopes.
     sbind (fld m ''cost_minor'' u_of) (\<lambda>cost_minor.
     Inr \<lparr>it_action = action, it_request_hash = request_hash, it_tool = tool,
       it_target_revision = target_revision, it_authority_hash = authority_hash,
       it_scopes = scopes, it_cost_minor = cost_minor\<rparr>))))))))))"

definition intent_value :: "Intent \<Rightarrow> Value" where
  "intent_value x = Obj [
     (''action'', Str (it_action x)),
     (''request_hash'', Str (it_request_hash x)),
     (''tool'', Str (it_tool x)),
     (''target_revision'', ustr (it_target_revision x)),
     (''authority_hash'', Str (it_authority_hash x)),
     (''scopes'', Arr (map Str (it_scopes x))),
     (''cost_minor'', ustr (it_cost_minor x)),
     (''currency'', Str ''USD'')]"

definition valid_intent :: "Intent \<Rightarrow> bool" where
  "valid_intent x \<longleftrightarrow>
     valid_id (it_action x) \<and>
     valid_hash (it_request_hash x) \<and>
     it_tool x \<in> {''record.read'', ''record.write''} \<and>
     it_target_revision x \<le> u_max \<and>
     valid_hash (it_authority_hash x) \<and>
     valid_id_set (it_scopes x) \<and>
     it_cost_minor x \<le> u_max"

lemma intent_dec_enc [codec_enc]: "valid_intent x \<Longrightarrow> intent_of (intent_value x) = Inr x"
  by (cases x) (simp add: intent_of_def intent_value_def valid_intent_def fld_some closed_eval codec_enc)

lemma intent_not_Null [simp]: "intent_value x \<noteq> Null"
  by (simp add: intent_value_def)

lemma intent_dec_valid [codec_valid]: "intent_of v = Inr x \<Longrightarrow> valid_intent x"
  by (auto simp: intent_of_def valid_intent_def fld_iff dest!: codec_valid)

interpretation intent_codec: codec intent_value intent_of valid_intent
  by unfold_locales (auto simp: intent_dec_enc dest: intent_dec_valid)

lemmas intent_lists [codec_enc] = intent_codec.list_dec_enc intent_codec.opt_dec_enc [OF _ intent_not_Null]

lemmas intent_lists_valid [codec_valid] = intent_codec.list_valid intent_codec.opt_valid

end
