(* ===== verification/SchemaPolicy.thy ===== *)
theory SchemaPolicy
  imports SchemaObs
begin

text \<open>
  Monitors, baselines and policies (\<open>schema.rs\<close>), and the policy constraints of
  \<open>policy_constraints\<close> with what they guarantee.
\<close>

datatype Detector = Scope | Spend | Replicas | Rate | Distribution

fun detector_as_str :: "Detector \<Rightarrow> string" where
  "detector_as_str Scope = ''scope''"
| "detector_as_str Spend = ''spend''"
| "detector_as_str Replicas = ''replicas''"
| "detector_as_str Rate = ''rate''"
| "detector_as_str Distribution = ''distribution''"

definition detector_parse :: "string \<Rightarrow> Detector option" where
  "detector_parse s =
     (if s = ''scope'' then Some Scope
      else if s = ''spend'' then Some Spend
      else if s = ''replicas'' then Some Replicas
      else if s = ''rate'' then Some Rate
      else if s = ''distribution'' then Some Distribution else None)"

lemma detector_parse_iff [simp]: "detector_parse s = Some x \<longleftrightarrow> s = detector_as_str x"
  by (cases x) (auto simp: detector_parse_def split: if_splits)

lemma detector_parse_as_str [simp]: "detector_parse (detector_as_str x) = Some x"
  by simp

record Monitor =
  mo_id :: "string"
  mo_detector :: "Detector"
  mo_mode :: "string"
  mo_required :: "bool"
  mo_artifact :: "string"
  mo_deadline_ms :: "nat"

definition monitor_of :: "Value \<Rightarrow> Monitor R" where
  "monitor_of v = sbind (obj_of v) (\<lambda>m.
     sbind (closed m [''id'', ''detector'', ''mode'', ''required'', ''artifact'', ''deadline_ms'']) (\<lambda>_.
     sbind (fld m ''detector'' (enum_of detector_parse ''unknown detector'')) (\<lambda>detector.
     sbind (fld m ''mode'' (one_of [''blocking'', ''trailing''] ''bad monitor mode'')) (\<lambda>mode.
     sbind (fld m ''id'' id_of) (\<lambda>id.
     sbind (fld m ''required'' boolean_of) (\<lambda>required.
     sbind (fld m ''artifact'' hash_of) (\<lambda>artifact.
     sbind (fld m ''deadline_ms'' n_of) (\<lambda>deadline_ms.
     Inr \<lparr>mo_id = id, mo_detector = detector, mo_mode = mode, mo_required = required,
       mo_artifact = artifact, mo_deadline_ms = deadline_ms\<rparr>))))))))"

definition monitor_value :: "Monitor \<Rightarrow> Value" where
  "monitor_value x = Obj [
     (''id'', Str (mo_id x)),
     (''detector'', Str (detector_as_str (mo_detector x))),
     (''mode'', Str (mo_mode x)),
     (''required'', Bool (mo_required x)),
     (''artifact'', Str (mo_artifact x)),
     (''deadline_ms'', num (mo_deadline_ms x))]"

definition valid_monitor :: "Monitor \<Rightarrow> bool" where
  "valid_monitor x \<longleftrightarrow>
     valid_id (mo_id x) \<and>
     mo_mode x \<in> {''blocking'', ''trailing''} \<and>
     valid_hash (mo_artifact x) \<and>
     mo_deadline_ms x \<le> safe_int_max"

lemma monitor_dec_enc [codec_enc]: "valid_monitor x \<Longrightarrow> monitor_of (monitor_value x) = Inr x"
  by (cases x) (simp add: monitor_of_def monitor_value_def valid_monitor_def fld_some closed_eval codec_enc)

lemma monitor_not_Null [simp]: "monitor_value x \<noteq> Null"
  by (simp add: monitor_value_def)

lemma monitor_dec_valid [codec_valid]: "monitor_of v = Inr x \<Longrightarrow> valid_monitor x"
  by (auto simp: monitor_of_def valid_monitor_def fld_iff dest!: codec_valid)

interpretation monitor_codec: codec monitor_value monitor_of valid_monitor
  by unfold_locales (auto simp: monitor_dec_enc dest: monitor_dec_valid)

lemmas monitor_lists [codec_enc] = monitor_codec.list_dec_enc monitor_codec.opt_dec_enc [OF _ monitor_not_Null]

lemmas monitor_lists_valid [codec_valid] = monitor_codec.list_valid monitor_codec.opt_valid

record Baseline =
  bl_id :: "string"
  bl_counts :: "Bins"
  bl_evidence :: "string"
  bl_approved_by :: "string"
  bl_approved_at_utc :: "string"

definition baseline_of :: "Value \<Rightarrow> Baseline R" where
  "baseline_of v = sbind (obj_of v) (\<lambda>m.
     sbind (closed m [''id'', ''counts'', ''evidence'', ''approved_by'', ''approved_at_utc'']) (\<lambda>_.
     sbind (fld m ''id'' id_of) (\<lambda>id.
     sbind (fld m ''counts'' bins_of) (\<lambda>counts.
     sbind (fld m ''evidence'' hash_of) (\<lambda>evidence.
     sbind (fld m ''approved_by'' id_of) (\<lambda>approved_by.
     sbind (fld m ''approved_at_utc'' text_of) (\<lambda>approved_at_utc.
     Inr \<lparr>bl_id = id, bl_counts = counts, bl_evidence = evidence, bl_approved_by = approved_by,
       bl_approved_at_utc = approved_at_utc\<rparr>)))))))"

definition baseline_value :: "Baseline \<Rightarrow> Value" where
  "baseline_value x = Obj [
     (''id'', Str (bl_id x)),
     (''counts'', bins_to_value (bl_counts x)),
     (''evidence'', Str (bl_evidence x)),
     (''approved_by'', Str (bl_approved_by x)),
     (''approved_at_utc'', Str (bl_approved_at_utc x))]"

definition valid_baseline :: "Baseline \<Rightarrow> bool" where
  "valid_baseline x \<longleftrightarrow>
     valid_id (bl_id x) \<and>
     valid_bins (bl_counts x) \<and>
     valid_hash (bl_evidence x) \<and>
     valid_id (bl_approved_by x) \<and>
     valid_text (bl_approved_at_utc x)"

lemma baseline_dec_enc [codec_enc]: "valid_baseline x \<Longrightarrow> baseline_of (baseline_value x) = Inr x"
  by (cases x) (simp add: baseline_of_def baseline_value_def valid_baseline_def fld_some closed_eval codec_enc)

lemma baseline_not_Null [simp]: "baseline_value x \<noteq> Null"
  by (simp add: baseline_value_def)

lemma baseline_dec_valid [codec_valid]: "baseline_of v = Inr x \<Longrightarrow> valid_baseline x"
  by (auto simp: baseline_of_def valid_baseline_def fld_iff dest!: codec_valid)

interpretation baseline_codec: codec baseline_value baseline_of valid_baseline
  by unfold_locales (auto simp: baseline_dec_enc dest: baseline_dec_valid)

lemmas baseline_lists [codec_enc] = baseline_codec.list_dec_enc baseline_codec.opt_dec_enc [OF _ baseline_not_Null]

lemmas baseline_lists_valid [codec_valid] = baseline_codec.list_valid baseline_codec.opt_valid

record Policy =
  pl_id :: "string"
  pl_generation :: "nat"
  pl_predecessor :: "string option"
  pl_tenant :: "string"
  pl_allowed_scopes :: "string list"
  pl_cap_minor :: "nat"
  pl_review_at_minor :: "nat"
  pl_max_replicas :: "nat"
  pl_rate_per_window :: "nat"
  pl_baseline :: "Baseline"
  pl_drift_high_bp :: "nat"
  pl_drift_low_bp :: "nat"
  pl_min_window_samples :: "nat"
  pl_high_windows :: "nat"
  pl_low_windows :: "nat"
  pl_freshness_ms :: "nat"
  pl_evaluation_ms :: "nat"
  pl_clearance_ms :: "nat"
  pl_review_ttl_ms :: "nat"
  pl_review_accept_ms :: "nat"
  pl_claim_lease_ms :: "nat"
  pl_queue_capacity :: "nat"
  pl_per_run_open_reviews :: "nat"
  pl_monitors :: "Monitor list"

definition policy_of :: "Value \<Rightarrow> Policy R" where
  "policy_of v = sbind (obj_of v) (\<lambda>m.
     sbind (closed m [''v'', ''id'', ''generation'', ''predecessor'', ''tenant'', ''allowed_scopes'',
       ''cap_minor'', ''review_at_minor'', ''max_replicas'', ''rate_per_window'',
       ''baseline'', ''drift_high_bp'', ''drift_low_bp'', ''min_window_samples'',
       ''high_windows'', ''low_windows'', ''freshness_ms'', ''evaluation_ms'',
       ''clearance_ms'', ''review_ttl_ms'', ''review_accept_ms'', ''claim_lease_ms'',
       ''queue_capacity'', ''per_run_open_reviews'', ''monitors'']) (\<lambda>_.
     sbind (fld m ''v'' (lit_num 1)) (\<lambda>_.
     sbind (fld m ''monitors'' arr_of) (\<lambda>monitors_a.
     sbind (fld m ''id'' id_of) (\<lambda>id.
     sbind (fld m ''generation'' u_of) (\<lambda>generation.
     sbind (fld m ''predecessor'' opt_hash) (\<lambda>predecessor.
     sbind (fld m ''tenant'' id_of) (\<lambda>tenant.
     sbind (fld m ''allowed_scopes'' id_list) (\<lambda>allowed_scopes.
     sbind (fld m ''cap_minor'' u_of) (\<lambda>cap_minor.
     sbind (fld m ''review_at_minor'' u_of) (\<lambda>review_at_minor.
     sbind (fld m ''max_replicas'' n_of) (\<lambda>max_replicas.
     sbind (fld m ''rate_per_window'' u_of) (\<lambda>rate_per_window.
     sbind (fld m ''baseline'' baseline_of) (\<lambda>baseline.
     sbind (fld m ''drift_high_bp'' n_of) (\<lambda>drift_high_bp.
     sbind (fld m ''drift_low_bp'' n_of) (\<lambda>drift_low_bp.
     sbind (fld m ''min_window_samples'' n_of) (\<lambda>min_window_samples.
     sbind (fld m ''high_windows'' n_of) (\<lambda>high_windows.
     sbind (fld m ''low_windows'' n_of) (\<lambda>low_windows.
     sbind (fld m ''freshness_ms'' n_of) (\<lambda>freshness_ms.
     sbind (fld m ''evaluation_ms'' n_of) (\<lambda>evaluation_ms.
     sbind (fld m ''clearance_ms'' n_of) (\<lambda>clearance_ms.
     sbind (fld m ''review_ttl_ms'' n_of) (\<lambda>review_ttl_ms.
     sbind (fld m ''review_accept_ms'' n_of) (\<lambda>review_accept_ms.
     sbind (fld m ''claim_lease_ms'' n_of) (\<lambda>claim_lease_ms.
     sbind (fld m ''queue_capacity'' n_of) (\<lambda>queue_capacity.
     sbind (fld m ''per_run_open_reviews'' n_of) (\<lambda>per_run_open_reviews.
     sbind (mapR monitor_of monitors_a) (\<lambda>monitors.
     Inr \<lparr>pl_id = id, pl_generation = generation, pl_predecessor = predecessor, pl_tenant = tenant,
       pl_allowed_scopes = allowed_scopes, pl_cap_minor = cap_minor,
       pl_review_at_minor = review_at_minor, pl_max_replicas = max_replicas,
       pl_rate_per_window = rate_per_window, pl_baseline = baseline,
       pl_drift_high_bp = drift_high_bp, pl_drift_low_bp = drift_low_bp,
       pl_min_window_samples = min_window_samples, pl_high_windows = high_windows,
       pl_low_windows = low_windows, pl_freshness_ms = freshness_ms,
       pl_evaluation_ms = evaluation_ms, pl_clearance_ms = clearance_ms,
       pl_review_ttl_ms = review_ttl_ms, pl_review_accept_ms = review_accept_ms,
       pl_claim_lease_ms = claim_lease_ms, pl_queue_capacity = queue_capacity,
       pl_per_run_open_reviews = per_run_open_reviews, pl_monitors = monitors\<rparr>))))))))))))))))))))))))))))"

definition policy_value :: "Policy \<Rightarrow> Value" where
  "policy_value x = Obj [
     (''v'', num 1),
     (''id'', Str (pl_id x)),
     (''generation'', ustr (pl_generation x)),
     (''predecessor'', opt_value Str (pl_predecessor x)),
     (''tenant'', Str (pl_tenant x)),
     (''allowed_scopes'', Arr (map Str (pl_allowed_scopes x))),
     (''cap_minor'', ustr (pl_cap_minor x)),
     (''review_at_minor'', ustr (pl_review_at_minor x)),
     (''max_replicas'', num (pl_max_replicas x)),
     (''rate_per_window'', ustr (pl_rate_per_window x)),
     (''baseline'', baseline_value (pl_baseline x)),
     (''drift_high_bp'', num (pl_drift_high_bp x)),
     (''drift_low_bp'', num (pl_drift_low_bp x)),
     (''min_window_samples'', num (pl_min_window_samples x)),
     (''high_windows'', num (pl_high_windows x)),
     (''low_windows'', num (pl_low_windows x)),
     (''freshness_ms'', num (pl_freshness_ms x)),
     (''evaluation_ms'', num (pl_evaluation_ms x)),
     (''clearance_ms'', num (pl_clearance_ms x)),
     (''review_ttl_ms'', num (pl_review_ttl_ms x)),
     (''review_accept_ms'', num (pl_review_accept_ms x)),
     (''claim_lease_ms'', num (pl_claim_lease_ms x)),
     (''queue_capacity'', num (pl_queue_capacity x)),
     (''per_run_open_reviews'', num (pl_per_run_open_reviews x)),
     (''monitors'', Arr (map monitor_value (pl_monitors x)))]"

definition valid_policy :: "Policy \<Rightarrow> bool" where
  "valid_policy x \<longleftrightarrow>
     valid_id (pl_id x) \<and>
     pl_generation x \<le> u_max \<and>
     pred_option valid_hash (pl_predecessor x) \<and>
     valid_id (pl_tenant x) \<and>
     valid_id_set (pl_allowed_scopes x) \<and>
     pl_cap_minor x \<le> u_max \<and>
     pl_review_at_minor x \<le> u_max \<and>
     pl_max_replicas x \<le> safe_int_max \<and>
     pl_rate_per_window x \<le> u_max \<and>
     valid_baseline (pl_baseline x) \<and>
     pl_drift_high_bp x \<le> safe_int_max \<and>
     pl_drift_low_bp x \<le> safe_int_max \<and>
     pl_min_window_samples x \<le> safe_int_max \<and>
     pl_high_windows x \<le> safe_int_max \<and>
     pl_low_windows x \<le> safe_int_max \<and>
     pl_freshness_ms x \<le> safe_int_max \<and>
     pl_evaluation_ms x \<le> safe_int_max \<and>
     pl_clearance_ms x \<le> safe_int_max \<and>
     pl_review_ttl_ms x \<le> safe_int_max \<and>
     pl_review_accept_ms x \<le> safe_int_max \<and>
     pl_claim_lease_ms x \<le> safe_int_max \<and>
     pl_queue_capacity x \<le> safe_int_max \<and>
     pl_per_run_open_reviews x \<le> safe_int_max \<and>
     list_all valid_monitor (pl_monitors x)"

lemma policy_dec_enc [codec_enc]: "valid_policy x \<Longrightarrow> policy_of (policy_value x) = Inr x"
  by (cases x) (simp add: policy_of_def policy_value_def valid_policy_def fld_some closed_eval codec_enc)

lemma policy_not_Null [simp]: "policy_value x \<noteq> Null"
  by (simp add: policy_value_def)

lemma policy_dec_valid [codec_valid]: "policy_of v = Inr x \<Longrightarrow> valid_policy x"
  by (auto simp: policy_of_def valid_policy_def fld_iff dest!: codec_valid)

interpretation policy_codec: codec policy_value policy_of valid_policy
  by unfold_locales (auto simp: policy_dec_enc dest: policy_dec_valid)

lemmas policy_lists [codec_enc] = policy_codec.list_dec_enc policy_codec.opt_dec_enc [OF _ policy_not_Null]

lemmas policy_lists_valid [codec_valid] = policy_codec.list_valid policy_codec.opt_valid

section \<open>Policy constraints\<close>

text \<open>\<open>HashSet::insert\<close> of the identifiers and the detectors, in the order of the monitors.\<close>

fun monitors_unique :: "string list \<Rightarrow> Detector list \<Rightarrow> Monitor list \<Rightarrow> bool" where
  "monitors_unique ids dets [] = True"
| "monitors_unique ids dets (m # ms) =
     (if mo_id m \<in> set ids \<or> mo_detector m \<in> set dets then False
      else monitors_unique (mo_id m # ids) (mo_detector m # dets) ms)"

definition detector_rule :: "Monitor list \<Rightarrow> Detector \<times> bool \<Rightarrow> unit R" where
  "detector_rule ms dw = (case dw of (det, want_required) \<Rightarrow>
     case find (\<lambda>m. mo_detector m = det) ms of
       Some m \<Rightarrow>
         (let want_mode = (if det = Rate \<or> det = Distribution then ''trailing'' else ''blocking'')
          in if mo_mode m \<noteq> want_mode \<or> mo_required m \<noteq> want_required
             then Inl (new_fault PolicyInvalid ''monitor mode/required wrong for detector'')
             else Inr ())
     | None \<Rightarrow>
         if want_required then Inl (new_fault PolicyInvalid ''required blocking monitor missing'')
         else Inr ())"

definition policy_constraints :: "Policy \<Rightarrow> unit R" where
  "policy_constraints p =
    (if \<not> (pl_drift_low_bp p < pl_drift_high_bp p \<and> pl_drift_high_bp p \<le> 10000)
     then Inl (new_fault PolicyInvalid ''drift bounds'')
     else if wsum64 (bins_list (bl_counts (pl_baseline p))) = 0
     then Inl (new_fault PolicyInvalid ''baseline total zero'')
     else if pl_min_window_samples p < 100
     then Inl (new_fault PolicyInvalid ''min_window_samples < 100'')
     else if pl_high_windows p \<noteq> 2
     then Inl (new_fault PolicyInvalid ''high_windows != 2'')
     else if pl_low_windows p \<noteq> 3
     then Inl (new_fault PolicyInvalid ''low_windows != 3'')
     else if \<not> (1 \<le> pl_max_replicas p \<and> pl_max_replicas p \<le> 64)
     then Inl (new_fault PolicyInvalid ''max_replicas out of range'')
     else if \<not> (1 \<le> pl_review_at_minor p \<and> pl_review_at_minor p \<le> pl_cap_minor p)
     then Inl (new_fault PolicyInvalid ''review_at_minor out of range'')
     else if \<not> monitors_unique [] [] (pl_monitors p)
     then Inl (new_fault PolicyInvalid ''duplicate monitor id or detector'')
     else forR (detector_rule (pl_monitors p))
            [(Scope, True), (Spend, True), (Replicas, True), (Rate, False), (Distribution, False)])"

lemma monitors_unique_iff: "monitors_unique ids dets ms \<longleftrightarrow>
    distinct (map mo_id ms) \<and> distinct (map mo_detector ms) \<and>
    set (map mo_id ms) \<inter> set ids = {} \<and> set (map mo_detector ms) \<inter> set dets = {}"
  by (induction ms arbitrary: ids dets) auto

text \<open>What the mode and the duty of a monitor must be.\<close>

definition detector_duty :: "Detector \<Rightarrow> string \<times> bool" where
  "detector_duty det = (if det = Rate \<or> det = Distribution then (''trailing'', False) else (''blocking'', True))"

lemma find_unique:
  assumes "distinct (map f xs)" and "x \<in> set xs"
  shows "find (\<lambda>y. f y = f x) xs = Some x"
  using assms by (induction xs) (auto simp: rev_image_eqI)

lemma detector_rule_iff:
  assumes "distinct (map mo_detector ms)" and "w = snd (detector_duty det)"
  shows "detector_rule ms (det, w) = Inr () \<longleftrightarrow>
     (\<forall>m \<in> set ms. mo_detector m = det \<longrightarrow> (mo_mode m, mo_required m) = detector_duty det) \<and>
     (w \<longrightarrow> det \<in> mo_detector ` set ms)"
proof (cases "\<exists>m \<in> set ms. mo_detector m = det")
  case True
  then obtain m where m: "m \<in> set ms" "mo_detector m = det" by auto
  then have f: "find (\<lambda>m. mo_detector m = det) ms = Some m"
    using find_unique [OF assms(1) m(1)] by simp
  have u: "m' = m" if "m' \<in> set ms" "mo_detector m' = det" for m'
    using find_unique [OF assms(1) that(1)] that(2) f by simp
  have "detector_rule ms (det, w) = Inr () \<longleftrightarrow>
      mo_mode m = (if det = Rate \<or> det = Distribution then ''trailing'' else ''blocking'') \<and>
      mo_required m = w"
    by (auto simp: detector_rule_def f Let_def)
  then have "detector_rule ms (det, w) = Inr () \<longleftrightarrow> (mo_mode m, mo_required m) = detector_duty det"
    using assms(2) by (auto simp: detector_duty_def)
  moreover have "(\<forall>m' \<in> set ms. mo_detector m' = det \<longrightarrow>
      (mo_mode m', mo_required m') = detector_duty det) \<longleftrightarrow>
      (mo_mode m, mo_required m) = detector_duty det"
    using m u by blast
  moreover have "det \<in> mo_detector ` set ms" using m by blast
  ultimately show ?thesis by simp
next
  case False
  then have "find (\<lambda>m. mo_detector m = det) ms = None" by (simp add: find_None_iff)
  then show ?thesis using False by (auto simp: detector_rule_def)
qed

lemma all_Detector: "(\<forall>det. P det) \<longleftrightarrow> P Scope \<and> P Spend \<and> P Replicas \<and> P Rate \<and> P Distribution"
  by (metis (full_types) Detector.exhaust)

definition monitors_wellformed :: "Monitor list \<Rightarrow> bool" where
  "monitors_wellformed ms \<longleftrightarrow> distinct (map mo_id ms) \<and> distinct (map mo_detector ms) \<and>
     {Scope, Spend, Replicas} \<subseteq> mo_detector ` set ms \<and>
     (\<forall>m \<in> set ms. (mo_mode m, mo_required m) = detector_duty (mo_detector m))"

lemma detector_rules_iff:
  assumes "distinct (map mo_detector ms)"
  shows "forR (detector_rule ms)
            [(Scope, True), (Spend, True), (Replicas, True), (Rate, False), (Distribution, False)]
          = Inr () \<longleftrightarrow>
         {Scope, Spend, Replicas} \<subseteq> mo_detector ` set ms \<and>
         (\<forall>m \<in> set ms. (mo_mode m, mo_required m) = detector_duty (mo_detector m))"
proof -
  define D where "D det \<longleftrightarrow> (\<forall>m \<in> set ms. mo_detector m = det \<longrightarrow>
    (mo_mode m, mo_required m) = detector_duty det)" for det
  have "(\<forall>m \<in> set ms. (mo_mode m, mo_required m) = detector_duty (mo_detector m)) \<longleftrightarrow> (\<forall>det. D det)"
    unfolding D_def by blast
  moreover note rule = detector_rule_iff [OF assms, folded D_def]
  have "detector_rule ms (Scope, True) = Inr () \<longleftrightarrow> D Scope \<and> Scope \<in> mo_detector ` set ms"
    "detector_rule ms (Spend, True) = Inr () \<longleftrightarrow> D Spend \<and> Spend \<in> mo_detector ` set ms"
    "detector_rule ms (Replicas, True) = Inr () \<longleftrightarrow> D Replicas \<and> Replicas \<in> mo_detector ` set ms"
    "detector_rule ms (Rate, False) = Inr () \<longleftrightarrow> D Rate"
    "detector_rule ms (Distribution, False) = Inr () \<longleftrightarrow> D Distribution"
    by (simp_all add: rule detector_duty_def)
  ultimately show ?thesis
    by (simp only: forR.simps sbind_eq_Inr all_Detector  simp_thms insert_subset
        empty_subsetI) (simp add: conj_ac)
qed

text \<open>
  Remark. \<open>policy_constraints\<close> accepts a policy exactly when its drift bounds,
  windows, replica and review limits are in range, its baseline total (as the release profile
  computes it) is not zero, and its monitors are unique by identifier and by detector, cover the
  scope, spend and replica detectors, and have the mode and duty of their detector.
\<close>

theorem policy_constraints_iff:
  "policy_constraints p = Inr () \<longleftrightarrow>
     pl_drift_low_bp p < pl_drift_high_bp p \<and> pl_drift_high_bp p \<le> 10000 \<and>
     sum_list (bins_list (bl_counts (pl_baseline p))) mod 2 ^ 64 \<noteq> 0 \<and>
     100 \<le> pl_min_window_samples p \<and> pl_high_windows p = 2 \<and> pl_low_windows p = 3 \<and>
     1 \<le> pl_max_replicas p \<and> pl_max_replicas p \<le> 64 \<and>
     1 \<le> pl_review_at_minor p \<and> pl_review_at_minor p \<le> pl_cap_minor p \<and>
     monitors_wellformed (pl_monitors p)"
proof -
  have "monitors_wellformed (pl_monitors p) \<longleftrightarrow> monitors_unique [] [] (pl_monitors p) \<and>
      forR (detector_rule (pl_monitors p))
        [(Scope, True), (Spend, True), (Replicas, True), (Rate, False), (Distribution, False)]
        = Inr ()"
    using detector_rules_iff [of "pl_monitors p"]
    by (auto simp only: monitors_wellformed_def monitors_unique_iff) auto
  then show ?thesis
    unfolding policy_constraints_def wsum64_eq by (simp add: not_le not_less del: forR.simps) auto
qed

end
