(* ===== verification/SchemaRun.thy ===== *)
theory SchemaRun
  imports SchemaPolicy
begin

text \<open>
  Runs, drift states, results, bases, clearances and checks (\<open>schema.rs\<close>).
\<close>

datatype RunState = RsOpen | RsPaused | RsQuarantined | RsClosed

fun run_state_as_str :: "RunState \<Rightarrow> string" where
  "run_state_as_str RsOpen = ''OPEN''"
| "run_state_as_str RsPaused = ''PAUSED''"
| "run_state_as_str RsQuarantined = ''QUARANTINED''"
| "run_state_as_str RsClosed = ''CLOSED''"

definition run_state_parse :: "string \<Rightarrow> RunState option" where
  "run_state_parse s =
     (if s = ''OPEN'' then Some RsOpen
      else if s = ''PAUSED'' then Some RsPaused
      else if s = ''QUARANTINED'' then Some RsQuarantined
      else if s = ''CLOSED'' then Some RsClosed else None)"

lemma run_state_parse_iff [simp]: "run_state_parse s = Some x \<longleftrightarrow> s = run_state_as_str x"
  by (cases x) (auto simp: run_state_parse_def split: if_splits)

lemma run_state_parse_as_str [simp]: "run_state_parse (run_state_as_str x) = Some x"
  by simp

datatype DriftState = DsWarmup | DsStable | DsSuspect | DsDrift

fun drift_state_as_str :: "DriftState \<Rightarrow> string" where
  "drift_state_as_str DsWarmup = ''WARMUP''"
| "drift_state_as_str DsStable = ''STABLE''"
| "drift_state_as_str DsSuspect = ''SUSPECT''"
| "drift_state_as_str DsDrift = ''DRIFT''"

definition drift_state_parse :: "string \<Rightarrow> DriftState option" where
  "drift_state_parse s =
     (if s = ''WARMUP'' then Some DsWarmup
      else if s = ''STABLE'' then Some DsStable
      else if s = ''SUSPECT'' then Some DsSuspect
      else if s = ''DRIFT'' then Some DsDrift else None)"

lemma drift_state_parse_iff [simp]: "drift_state_parse s = Some x \<longleftrightarrow> s = drift_state_as_str x"
  by (cases x) (auto simp: drift_state_parse_def split: if_splits)

lemma drift_state_parse_as_str [simp]: "drift_state_parse (drift_state_as_str x) = Some x"
  by simp

record Drift =
  dr_state :: "DriftState"
  dr_high_streak :: "nat"
  dr_low_streak :: "nat"
  dr_last_window_ms :: "nat option"
  dr_score_bp :: "nat option"
  dr_data :: "string"

definition drift_of :: "Value \<Rightarrow> Drift R" where
  "drift_of v = sbind (obj_of v) (\<lambda>m.
     sbind (closed m [''state'', ''high_streak'', ''low_streak'', ''last_window_ms'', ''score_bp'', ''data'']) (\<lambda>_.
     sbind (fld m ''state'' (enum_of drift_state_parse ''bad drift state'')) (\<lambda>state.
     sbind (fld m ''data'' (one_of [''complete'', ''insufficient'', ''missing''] ''bad drift data'')) (\<lambda>data.
     sbind (fld m ''score_bp'' opt_n) (\<lambda>score_bp.
     if (case score_bp of Some k \<Rightarrow> k > 10000 | None \<Rightarrow> False) then Inl (schem ''score_bp out of range'') else
     sbind (fld m ''high_streak'' n_of) (\<lambda>high_streak.
     sbind (fld m ''low_streak'' n_of) (\<lambda>low_streak.
     sbind (fld m ''last_window_ms'' opt_u) (\<lambda>last_window_ms.
     Inr \<lparr>dr_state = state, dr_high_streak = high_streak, dr_low_streak = low_streak,
       dr_last_window_ms = last_window_ms, dr_score_bp = score_bp, dr_data = data\<rparr>))))))))"

definition drift_value :: "Drift \<Rightarrow> Value" where
  "drift_value x = Obj [
     (''state'', Str (drift_state_as_str (dr_state x))),
     (''high_streak'', num (dr_high_streak x)),
     (''low_streak'', num (dr_low_streak x)),
     (''last_window_ms'', opt_value ustr (dr_last_window_ms x)),
     (''score_bp'', opt_value num (dr_score_bp x)),
     (''data'', Str (dr_data x))]"

definition valid_drift :: "Drift \<Rightarrow> bool" where
  "valid_drift x \<longleftrightarrow>
     dr_high_streak x \<le> safe_int_max \<and>
     dr_low_streak x \<le> safe_int_max \<and>
     pred_option (\<lambda>k. k \<le> u_max) (dr_last_window_ms x) \<and>
     pred_option (\<lambda>k. k \<le> safe_int_max) (dr_score_bp x) \<and>
     dr_data x \<in> {''complete'', ''insufficient'', ''missing''} \<and>
     \<not> ((case (dr_score_bp x) of Some k \<Rightarrow> k > 10000 | None \<Rightarrow> False))"

lemma drift_dec_enc [codec_enc]: "valid_drift x \<Longrightarrow> drift_of (drift_value x) = Inr x"
  by (cases x) (simp add: drift_of_def drift_value_def valid_drift_def fld_some closed_eval codec_enc)

lemma drift_not_Null [simp]: "drift_value x \<noteq> Null"
  by (simp add: drift_value_def)

lemma drift_dec_valid [codec_valid]: "drift_of v = Inr x \<Longrightarrow> valid_drift x"
  by (auto simp: drift_of_def valid_drift_def fld_iff dest!: codec_valid)

interpretation drift_codec: codec drift_value drift_of valid_drift
  by unfold_locales (auto simp: drift_dec_enc dest: drift_dec_valid)

lemmas drift_lists [codec_enc] = drift_codec.list_dec_enc drift_codec.opt_dec_enc [OF _ drift_not_Null]

lemmas drift_lists_valid [codec_valid] = drift_codec.list_valid drift_codec.opt_valid

record Run =
  rn_id :: "string"
  rn_revision :: "nat"
  rn_tenant :: "string"
  rn_source :: "string"
  rn_source_epoch :: "nat"
  rn_runtime :: "string"
  rn_guard_epoch :: "nat"
  rn_boot :: "string"
  rn_mode :: "string"
  rn_profile :: "string"
  rn_state :: "RunState"
  rn_policy :: "string"
  rn_cursor :: "Head"
  rn_last_cut_ms :: "nat option"
  rn_last_received_ms :: "nat option"
  rn_drift :: "Drift"
  rn_pause_reason :: "string option"

definition run_of :: "Value \<Rightarrow> Run R" where
  "run_of v = sbind (obj_of v) (\<lambda>m.
     sbind (closed m [''id'', ''revision'', ''tenant'', ''source'', ''source_epoch'', ''runtime'',
       ''guard_epoch'', ''boot'', ''mode'', ''profile'', ''state'', ''policy'',
       ''cursor'', ''last_cut_ms'', ''last_received_ms'', ''drift'', ''pause_reason'']) (\<lambda>_.
     sbind (fld m ''mode'' (one_of [''GUARDED'', ''SHADOW''] ''bad mode'')) (\<lambda>mode.
     sbind (fld m ''profile'' (one_of [''fixture/1'', ''runtime-guard/1''] ''bad profile'')) (\<lambda>profile.
     sbind (fld m ''state'' (enum_of run_state_parse ''bad run state'')) (\<lambda>state.
     sbind (fld m ''id'' id_of) (\<lambda>id.
     sbind (fld m ''revision'' u_of) (\<lambda>revision.
     sbind (fld m ''tenant'' id_of) (\<lambda>tenant.
     sbind (fld m ''source'' id_of) (\<lambda>source.
     sbind (fld m ''source_epoch'' u_of) (\<lambda>source_epoch.
     sbind (fld m ''runtime'' id_of) (\<lambda>runtime.
     sbind (fld m ''guard_epoch'' u_of) (\<lambda>guard_epoch.
     sbind (fld m ''boot'' boot_of) (\<lambda>boot.
     sbind (fld m ''policy'' hash_of) (\<lambda>policy.
     sbind (fld m ''cursor'' head_of) (\<lambda>cursor.
     sbind (fld m ''last_cut_ms'' opt_u) (\<lambda>last_cut_ms.
     sbind (fld m ''last_received_ms'' opt_u) (\<lambda>last_received_ms.
     sbind (fld m ''drift'' drift_of) (\<lambda>drift.
     sbind (fld m ''pause_reason'' opt_text) (\<lambda>pause_reason.
     Inr \<lparr>rn_id = id, rn_revision = revision, rn_tenant = tenant, rn_source = source,
       rn_source_epoch = source_epoch, rn_runtime = runtime,
       rn_guard_epoch = guard_epoch, rn_boot = boot, rn_mode = mode,
       rn_profile = profile, rn_state = state, rn_policy = policy, rn_cursor = cursor,
       rn_last_cut_ms = last_cut_ms, rn_last_received_ms = last_received_ms,
       rn_drift = drift, rn_pause_reason = pause_reason\<rparr>)))))))))))))))))))"

definition run_value :: "Run \<Rightarrow> Value" where
  "run_value x = Obj [
     (''id'', Str (rn_id x)),
     (''revision'', ustr (rn_revision x)),
     (''tenant'', Str (rn_tenant x)),
     (''source'', Str (rn_source x)),
     (''source_epoch'', ustr (rn_source_epoch x)),
     (''runtime'', Str (rn_runtime x)),
     (''guard_epoch'', ustr (rn_guard_epoch x)),
     (''boot'', Str (rn_boot x)),
     (''mode'', Str (rn_mode x)),
     (''profile'', Str (rn_profile x)),
     (''state'', Str (run_state_as_str (rn_state x))),
     (''policy'', Str (rn_policy x)),
     (''cursor'', head_value (rn_cursor x)),
     (''last_cut_ms'', opt_value ustr (rn_last_cut_ms x)),
     (''last_received_ms'', opt_value ustr (rn_last_received_ms x)),
     (''drift'', drift_value (rn_drift x)),
     (''pause_reason'', opt_value Str (rn_pause_reason x))]"

definition valid_run :: "Run \<Rightarrow> bool" where
  "valid_run x \<longleftrightarrow>
     valid_id (rn_id x) \<and>
     rn_revision x \<le> u_max \<and>
     valid_id (rn_tenant x) \<and>
     valid_id (rn_source x) \<and>
     rn_source_epoch x \<le> u_max \<and>
     valid_id (rn_runtime x) \<and>
     rn_guard_epoch x \<le> u_max \<and>
     valid_boot (rn_boot x) \<and>
     rn_mode x \<in> {''GUARDED'', ''SHADOW''} \<and>
     rn_profile x \<in> {''fixture/1'', ''runtime-guard/1''} \<and>
     valid_hash (rn_policy x) \<and>
     valid_head (rn_cursor x) \<and>
     pred_option (\<lambda>k. k \<le> u_max) (rn_last_cut_ms x) \<and>
     pred_option (\<lambda>k. k \<le> u_max) (rn_last_received_ms x) \<and>
     valid_drift (rn_drift x) \<and>
     pred_option valid_text (rn_pause_reason x)"

lemma run_dec_enc [codec_enc]: "valid_run x \<Longrightarrow> run_of (run_value x) = Inr x"
  by (cases x) (simp add: run_of_def run_value_def valid_run_def fld_some closed_eval codec_enc)

lemma run_not_Null [simp]: "run_value x \<noteq> Null"
  by (simp add: run_value_def)

lemma run_dec_valid [codec_valid]: "run_of v = Inr x \<Longrightarrow> valid_run x"
  by (auto simp: run_of_def valid_run_def fld_iff dest!: codec_valid)

interpretation run_codec: codec run_value run_of valid_run
  by unfold_locales (auto simp: run_dec_enc dest: run_dec_valid)

lemmas run_lists [codec_enc] = run_codec.list_dec_enc run_codec.opt_dec_enc [OF _ run_not_Null]

lemmas run_lists_valid [codec_valid] = run_codec.list_valid run_codec.opt_valid

datatype Verdict = VClear | VFlag | VUncertain | VUnavailable

fun verdict_as_str :: "Verdict \<Rightarrow> string" where
  "verdict_as_str VClear = ''clear''"
| "verdict_as_str VFlag = ''flag''"
| "verdict_as_str VUncertain = ''uncertain''"
| "verdict_as_str VUnavailable = ''unavailable''"

definition verdict_parse :: "string \<Rightarrow> Verdict option" where
  "verdict_parse s =
     (if s = ''clear'' then Some VClear
      else if s = ''flag'' then Some VFlag
      else if s = ''uncertain'' then Some VUncertain
      else if s = ''unavailable'' then Some VUnavailable else None)"

lemma verdict_parse_iff [simp]: "verdict_parse s = Some x \<longleftrightarrow> s = verdict_as_str x"
  by (cases x) (auto simp: verdict_parse_def split: if_splits)

lemma verdict_parse_as_str [simp]: "verdict_parse (verdict_as_str x) = Some x"
  by simp

record Result_ =
  rs_monitor :: "string"
  rs_detector :: "Detector"
  rs_verdict :: "Verdict"
  rs_reason :: "string"
  rs_score_bp :: "nat option"
  rs_evidence :: "Ref list"

definition result_of :: "Value \<Rightarrow> Result_ R" where
  "result_of v = sbind (obj_of v) (\<lambda>m.
     sbind (closed m [''monitor'', ''detector'', ''verdict'', ''reason'', ''score_bp'', ''evidence'']) (\<lambda>_.
     sbind (fld m ''detector'' (enum_of detector_parse ''bad detector'')) (\<lambda>detector.
     sbind (fld m ''verdict'' (enum_of verdict_parse ''bad verdict'')) (\<lambda>verdict.
     sbind (fld m ''score_bp'' opt_n) (\<lambda>score_bp.
     if (case score_bp of Some k \<Rightarrow> k > 10000 | None \<Rightarrow> False) then Inl (schem ''score_bp out of range'') else
     sbind (fld m ''evidence'' arr_of) (\<lambda>evidence_a.
     sbind (mapR ref_of evidence_a) (\<lambda>evidence.
     if length evidence > set_max then Inl (schem ''evidence too large'') else
     sbind (fld m ''monitor'' id_of) (\<lambda>monitor.
     sbind (fld m ''reason'' text_of) (\<lambda>reason.
     Inr \<lparr>rs_monitor = monitor, rs_detector = detector, rs_verdict = verdict, rs_reason = reason,
       rs_score_bp = score_bp, rs_evidence = evidence\<rparr>)))))))))"

definition result_value :: "Result_ \<Rightarrow> Value" where
  "result_value x = Obj [
     (''monitor'', Str (rs_monitor x)),
     (''detector'', Str (detector_as_str (rs_detector x))),
     (''verdict'', Str (verdict_as_str (rs_verdict x))),
     (''reason'', Str (rs_reason x)),
     (''score_bp'', opt_value num (rs_score_bp x)),
     (''evidence'', Arr (map ref_value (rs_evidence x)))]"

definition valid_result :: "Result_ \<Rightarrow> bool" where
  "valid_result x \<longleftrightarrow>
     valid_id (rs_monitor x) \<and>
     valid_text (rs_reason x) \<and>
     pred_option (\<lambda>k. k \<le> safe_int_max) (rs_score_bp x) \<and>
     list_all valid_ref (rs_evidence x) \<and>
     \<not> ((case (rs_score_bp x) of Some k \<Rightarrow> k > 10000 | None \<Rightarrow> False)) \<and>
     \<not> (length (rs_evidence x) > set_max)"

lemma result_dec_enc [codec_enc]: "valid_result x \<Longrightarrow> result_of (result_value x) = Inr x"
  by (cases x) (simp add: result_of_def result_value_def valid_result_def fld_some closed_eval codec_enc)

lemma result_not_Null [simp]: "result_value x \<noteq> Null"
  by (simp add: result_value_def)

lemma result_dec_valid [codec_valid]: "result_of v = Inr x \<Longrightarrow> valid_result x"
  by (auto simp: result_of_def valid_result_def fld_iff dest!: codec_valid)

interpretation result_codec: codec result_value result_of valid_result
  by unfold_locales (auto simp: result_dec_enc dest: result_dec_valid)

lemmas result_lists [codec_enc] = result_codec.list_dec_enc result_codec.opt_dec_enc [OF _ result_not_Null]

lemmas result_lists_valid [codec_valid] = result_codec.list_valid result_codec.opt_valid

record Basis =
  bs_run :: "string"
  bs_intent :: "string"
  bs_policy :: "string"
  bs_guard_epoch :: "nat"
  bs_target_revision :: "nat"
  bs_max_total_minor :: "nat"
  bs_findings :: "string"

definition basis_of :: "Value \<Rightarrow> Basis R" where
  "basis_of v = sbind (obj_of v) (\<lambda>m.
     sbind (closed m [''run'', ''intent'', ''policy'', ''guard_epoch'', ''target_revision'',
       ''max_total_minor'', ''findings'']) (\<lambda>_.
     sbind (fld m ''run'' id_of) (\<lambda>run.
     sbind (fld m ''intent'' hash_of) (\<lambda>intent.
     sbind (fld m ''policy'' hash_of) (\<lambda>policy.
     sbind (fld m ''guard_epoch'' u_of) (\<lambda>guard_epoch.
     sbind (fld m ''target_revision'' u_of) (\<lambda>target_revision.
     sbind (fld m ''max_total_minor'' u_of) (\<lambda>max_total_minor.
     sbind (fld m ''findings'' hash_of) (\<lambda>findings.
     Inr \<lparr>bs_run = run, bs_intent = intent, bs_policy = policy, bs_guard_epoch = guard_epoch,
       bs_target_revision = target_revision, bs_max_total_minor = max_total_minor,
       bs_findings = findings\<rparr>)))))))))"

definition basis_value :: "Basis \<Rightarrow> Value" where
  "basis_value x = Obj [
     (''run'', Str (bs_run x)),
     (''intent'', Str (bs_intent x)),
     (''policy'', Str (bs_policy x)),
     (''guard_epoch'', ustr (bs_guard_epoch x)),
     (''target_revision'', ustr (bs_target_revision x)),
     (''max_total_minor'', ustr (bs_max_total_minor x)),
     (''findings'', Str (bs_findings x))]"

definition valid_basis :: "Basis \<Rightarrow> bool" where
  "valid_basis x \<longleftrightarrow>
     valid_id (bs_run x) \<and>
     valid_hash (bs_intent x) \<and>
     valid_hash (bs_policy x) \<and>
     bs_guard_epoch x \<le> u_max \<and>
     bs_target_revision x \<le> u_max \<and>
     bs_max_total_minor x \<le> u_max \<and>
     valid_hash (bs_findings x)"

lemma basis_dec_enc [codec_enc]: "valid_basis x \<Longrightarrow> basis_of (basis_value x) = Inr x"
  by (cases x) (simp add: basis_of_def basis_value_def valid_basis_def fld_some closed_eval codec_enc)

lemma basis_not_Null [simp]: "basis_value x \<noteq> Null"
  by (simp add: basis_value_def)

lemma basis_dec_valid [codec_valid]: "basis_of v = Inr x \<Longrightarrow> valid_basis x"
  by (auto simp: basis_of_def valid_basis_def fld_iff dest!: codec_valid)

interpretation basis_codec: codec basis_value basis_of valid_basis
  by unfold_locales (auto simp: basis_dec_enc dest: basis_dec_valid)

lemmas basis_lists [codec_enc] = basis_codec.list_dec_enc basis_codec.opt_dec_enc [OF _ basis_not_Null]

lemmas basis_lists_valid [codec_valid] = basis_codec.list_valid basis_codec.opt_valid

record Clearance =
  cl_tenant :: "string"
  cl_run :: "string"
  cl_runtime :: "string"
  cl_guard_epoch :: "nat"
  cl_boot :: "string"
  cl_check :: "string"
  cl_intent :: "string"
  cl_policy :: "string"
  cl_observation :: "Ref"
  cl_basis :: "string"
  cl_issued_ms :: "nat"
  cl_expires_ms :: "nat"
  cl_mode :: "string"

definition clearance_body_of :: "Value \<Rightarrow> Clearance R" where
  "clearance_body_of v = sbind (obj_of v) (\<lambda>m.
     sbind (closed m [''v'', ''tenant'', ''run'', ''runtime'', ''guard_epoch'', ''boot'', ''check'',
       ''intent'', ''policy'', ''observation'', ''basis'', ''issued_ms'', ''expires_ms'',
       ''mode'', ''semantics'']) (\<lambda>_.
     sbind (fld m ''v'' (lit_num 1)) (\<lambda>_.
     sbind (fld m ''semantics'' (lit_str ''NO_WATCH_VETO_NOT_AUTHORIZATION'')) (\<lambda>_.
     sbind (fld m ''mode'' (one_of [''GUARDED'', ''SHADOW''] ''bad mode'')) (\<lambda>mode.
     sbind (fld m ''tenant'' id_of) (\<lambda>tenant.
     sbind (fld m ''run'' id_of) (\<lambda>run.
     sbind (fld m ''runtime'' id_of) (\<lambda>runtime.
     sbind (fld m ''guard_epoch'' u_of) (\<lambda>guard_epoch.
     sbind (fld m ''boot'' boot_of) (\<lambda>boot.
     sbind (fld m ''check'' id_of) (\<lambda>check.
     sbind (fld m ''intent'' hash_of) (\<lambda>intent.
     sbind (fld m ''policy'' hash_of) (\<lambda>policy.
     sbind (fld m ''observation'' ref_of) (\<lambda>observation.
     sbind (fld m ''basis'' hash_of) (\<lambda>basis.
     sbind (fld m ''issued_ms'' u_of) (\<lambda>issued_ms.
     sbind (fld m ''expires_ms'' u_of) (\<lambda>expires_ms.
     Inr \<lparr>cl_tenant = tenant, cl_run = run, cl_runtime = runtime, cl_guard_epoch = guard_epoch,
       cl_boot = boot, cl_check = check, cl_intent = intent, cl_policy = policy,
       cl_observation = observation, cl_basis = basis, cl_issued_ms = issued_ms,
       cl_expires_ms = expires_ms, cl_mode = mode\<rparr>)))))))))))))))))"

definition clearance_body_value :: "Clearance \<Rightarrow> Value" where
  "clearance_body_value x = Obj [
     (''v'', num 1),
     (''tenant'', Str (cl_tenant x)),
     (''run'', Str (cl_run x)),
     (''runtime'', Str (cl_runtime x)),
     (''guard_epoch'', ustr (cl_guard_epoch x)),
     (''boot'', Str (cl_boot x)),
     (''check'', Str (cl_check x)),
     (''intent'', Str (cl_intent x)),
     (''policy'', Str (cl_policy x)),
     (''observation'', ref_value (cl_observation x)),
     (''basis'', Str (cl_basis x)),
     (''issued_ms'', ustr (cl_issued_ms x)),
     (''expires_ms'', ustr (cl_expires_ms x)),
     (''mode'', Str (cl_mode x)),
     (''semantics'', Str ''NO_WATCH_VETO_NOT_AUTHORIZATION'')]"

definition valid_clearance_body :: "Clearance \<Rightarrow> bool" where
  "valid_clearance_body x \<longleftrightarrow>
     valid_id (cl_tenant x) \<and>
     valid_id (cl_run x) \<and>
     valid_id (cl_runtime x) \<and>
     cl_guard_epoch x \<le> u_max \<and>
     valid_boot (cl_boot x) \<and>
     valid_id (cl_check x) \<and>
     valid_hash (cl_intent x) \<and>
     valid_hash (cl_policy x) \<and>
     valid_ref (cl_observation x) \<and>
     valid_hash (cl_basis x) \<and>
     cl_issued_ms x \<le> u_max \<and>
     cl_expires_ms x \<le> u_max \<and>
     cl_mode x \<in> {''GUARDED'', ''SHADOW''}"

lemma clearance_body_dec_enc [codec_enc]: "valid_clearance_body x \<Longrightarrow> clearance_body_of (clearance_body_value x) = Inr x"
  by (cases x) (simp add: clearance_body_of_def clearance_body_value_def valid_clearance_body_def fld_some closed_eval codec_enc)

lemma clearance_body_not_Null [simp]: "clearance_body_value x \<noteq> Null"
  by (simp add: clearance_body_value_def)

lemma clearance_body_dec_valid [codec_valid]: "clearance_body_of v = Inr x \<Longrightarrow> valid_clearance_body x"
  by (auto simp: clearance_body_of_def valid_clearance_body_def fld_iff dest!: codec_valid)

interpretation clearance_body_codec: codec clearance_body_value clearance_body_of valid_clearance_body
  by unfold_locales (auto simp: clearance_body_dec_enc dest: clearance_body_dec_valid)

lemmas clearance_body_lists [codec_enc] = clearance_body_codec.list_dec_enc clearance_body_codec.opt_dec_enc [OF _ clearance_body_not_Null]

lemmas clearance_body_lists_valid [codec_valid] = clearance_body_codec.list_valid clearance_body_codec.opt_valid

datatype CheckState = CsEvaluating | CsClear | CsDeny | CsHeld | CsExpired | CsCancelled | CsStale

fun check_state_as_str :: "CheckState \<Rightarrow> string" where
  "check_state_as_str CsEvaluating = ''EVALUATING''"
| "check_state_as_str CsClear = ''CLEAR''"
| "check_state_as_str CsDeny = ''DENY''"
| "check_state_as_str CsHeld = ''HELD''"
| "check_state_as_str CsExpired = ''EXPIRED''"
| "check_state_as_str CsCancelled = ''CANCELLED''"
| "check_state_as_str CsStale = ''STALE''"

definition check_state_parse :: "string \<Rightarrow> CheckState option" where
  "check_state_parse s =
     (if s = ''EVALUATING'' then Some CsEvaluating
      else if s = ''CLEAR'' then Some CsClear
      else if s = ''DENY'' then Some CsDeny
      else if s = ''HELD'' then Some CsHeld
      else if s = ''EXPIRED'' then Some CsExpired
      else if s = ''CANCELLED'' then Some CsCancelled
      else if s = ''STALE'' then Some CsStale else None)"

lemma check_state_parse_iff [simp]: "check_state_parse s = Some x \<longleftrightarrow> s = check_state_as_str x"
  by (cases x) (auto simp: check_state_parse_def split: if_splits)

lemma check_state_parse_as_str [simp]: "check_state_parse (check_state_as_str x) = Some x"
  by simp

definition check_state_terminal :: "CheckState \<Rightarrow> bool" where
  "check_state_terminal s \<longleftrightarrow> s \<noteq> CsEvaluating"

text \<open>The \<open>clearance\<close> member of a check: an envelope whose body is a clearance.\<close>

definition clearance_signed_of :: "Crypto \<Rightarrow> Value \<Rightarrow> Signed R" where
  "clearance_signed_of cr v = sbind (signed_of cr v) (\<lambda>sv.
     sbind (clearance_body_of (sd_body sv)) (\<lambda>_. Inr sv))"

definition valid_clearance_signed :: "Crypto \<Rightarrow> Signed \<Rightarrow> bool" where
  "valid_clearance_signed cr x \<longleftrightarrow> valid_signed cr x \<and> \<not> isl (clearance_body_of (sd_body x))"

interpretation clearance_signed_codec:
  codec signed_value "clearance_signed_of cr" "valid_clearance_signed cr" for cr
proof
  show "clearance_signed_of cr (signed_value x) = Inr x" if "valid_clearance_signed cr x" for x
    using that by (cases "clearance_body_of (sd_body x)")
      (simp_all add: clearance_signed_of_def valid_clearance_signed_def codec_enc)
  show "valid_clearance_signed cr x" if v: "clearance_signed_of cr v = Inr x" for v x
  proof -
    from v obtain c where "signed_of cr v = Inr x" "clearance_body_of (sd_body x) = Inr c"
      by (auto simp: clearance_signed_of_def)
    then show ?thesis by (simp add: valid_clearance_signed_def signed_dec_valid)
  qed
qed

lemmas clearance_signed_enc [codec_enc] =
  clearance_signed_codec.dec_enc clearance_signed_codec.opt_dec_enc [OF _ signed_not_Null]

lemmas clearance_signed_valid [codec_valid] =
  clearance_signed_codec.opt_valid

record Check =
  ck_id :: "string"
  ck_revision :: "nat"
  ck_run :: "string"
  ck_intent :: "Intent"
  ck_observation :: "Ref"
  ck_policy :: "string"
  ck_state :: "CheckState"
  ck_created_ms :: "nat"
  ck_deadline_ms :: "nat"
  ck_results :: "Result_ list"
  ck_review :: "string option"
  ck_clearance :: "Signed option"
  ck_reason :: "string"

definition check_of :: "Crypto \<Rightarrow> Value \<Rightarrow> Check R" where
  "check_of cr v = sbind (obj_of v) (\<lambda>m.
     sbind (closed m [''id'', ''revision'', ''run'', ''intent'', ''observation'', ''policy'', ''state'',
       ''created_ms'', ''deadline_ms'', ''results'', ''review'', ''clearance'',
       ''reason'']) (\<lambda>_.
     sbind (fld m ''state'' (enum_of check_state_parse ''bad check state'')) (\<lambda>state.
     sbind (fld m ''results'' arr_of) (\<lambda>results_a.
     sbind (fld m ''clearance'' (opt_of (clearance_signed_of cr))) (\<lambda>clearance.
     sbind (fld m ''id'' id_of) (\<lambda>id.
     sbind (fld m ''revision'' u_of) (\<lambda>revision.
     sbind (fld m ''run'' id_of) (\<lambda>run.
     sbind (fld m ''intent'' intent_of) (\<lambda>intent.
     sbind (fld m ''observation'' ref_of) (\<lambda>observation.
     sbind (fld m ''policy'' hash_of) (\<lambda>policy.
     sbind (fld m ''created_ms'' u_of) (\<lambda>created_ms.
     sbind (fld m ''deadline_ms'' u_of) (\<lambda>deadline_ms.
     sbind (mapR result_of results_a) (\<lambda>results.
     sbind (fld m ''review'' opt_id) (\<lambda>review.
     sbind (fld m ''reason'' text_of) (\<lambda>reason.
     Inr \<lparr>ck_id = id, ck_revision = revision, ck_run = run, ck_intent = intent,
       ck_observation = observation, ck_policy = policy, ck_state = state,
       ck_created_ms = created_ms, ck_deadline_ms = deadline_ms, ck_results = results,
       ck_review = review, ck_clearance = clearance, ck_reason = reason\<rparr>))))))))))))))))"

definition check_value :: "Check \<Rightarrow> Value" where
  "check_value x = Obj [
     (''id'', Str (ck_id x)),
     (''revision'', ustr (ck_revision x)),
     (''run'', Str (ck_run x)),
     (''intent'', intent_value (ck_intent x)),
     (''observation'', ref_value (ck_observation x)),
     (''policy'', Str (ck_policy x)),
     (''state'', Str (check_state_as_str (ck_state x))),
     (''created_ms'', ustr (ck_created_ms x)),
     (''deadline_ms'', ustr (ck_deadline_ms x)),
     (''results'', Arr (map result_value (ck_results x))),
     (''review'', opt_value Str (ck_review x)),
     (''clearance'', opt_value signed_value (ck_clearance x)),
     (''reason'', Str (ck_reason x))]"

definition valid_check :: "Crypto \<Rightarrow> Check \<Rightarrow> bool" where
  "valid_check cr x \<longleftrightarrow>
     valid_id (ck_id x) \<and>
     ck_revision x \<le> u_max \<and>
     valid_id (ck_run x) \<and>
     valid_intent (ck_intent x) \<and>
     valid_ref (ck_observation x) \<and>
     valid_hash (ck_policy x) \<and>
     ck_created_ms x \<le> u_max \<and>
     ck_deadline_ms x \<le> u_max \<and>
     list_all valid_result (ck_results x) \<and>
     pred_option valid_id (ck_review x) \<and>
     pred_option (valid_clearance_signed cr) (ck_clearance x) \<and>
     valid_text (ck_reason x)"

lemma check_dec_enc [codec_enc]: "valid_check cr x \<Longrightarrow> check_of cr (check_value x) = Inr x"
  by (cases x) (simp add: check_of_def check_value_def valid_check_def fld_some closed_eval codec_enc)

lemma check_not_Null [simp]: "check_value x \<noteq> Null"
  by (simp add: check_value_def)

lemma check_dec_valid [codec_valid]: "check_of cr v = Inr x \<Longrightarrow> valid_check cr x"
  by (auto simp: check_of_def valid_check_def fld_iff dest!: codec_valid)

interpretation check_codec: codec check_value "check_of cr" "valid_check cr" for cr
  by unfold_locales (auto simp: check_dec_enc dest: check_dec_valid)

lemmas check_lists [codec_enc] = check_codec.list_dec_enc check_codec.opt_dec_enc [OF _ check_not_Null]

lemmas check_lists_valid [codec_valid] = check_codec.list_valid check_codec.opt_valid

end
