(* ===== verification/SchemaReview.thy ===== *)
theory SchemaReview
  imports SchemaRun
begin

text \<open>
  Reviews, alerts, effects and evaluation inputs (\<open>schema.rs\<close>).
\<close>

datatype ReviewState = RvOpen | RvClaimed | RvDeferred | RvAccepted | RvRejected | RvExpired | RvConsumed | RvClosed

fun review_state_as_str :: "ReviewState \<Rightarrow> string" where
  "review_state_as_str RvOpen = ''OPEN''"
| "review_state_as_str RvClaimed = ''CLAIMED''"
| "review_state_as_str RvDeferred = ''DEFERRED''"
| "review_state_as_str RvAccepted = ''ACCEPTED''"
| "review_state_as_str RvRejected = ''REJECTED''"
| "review_state_as_str RvExpired = ''EXPIRED''"
| "review_state_as_str RvConsumed = ''CONSUMED''"
| "review_state_as_str RvClosed = ''CLOSED''"

definition review_state_parse :: "string \<Rightarrow> ReviewState option" where
  "review_state_parse s =
     (if s = ''OPEN'' then Some RvOpen
      else if s = ''CLAIMED'' then Some RvClaimed
      else if s = ''DEFERRED'' then Some RvDeferred
      else if s = ''ACCEPTED'' then Some RvAccepted
      else if s = ''REJECTED'' then Some RvRejected
      else if s = ''EXPIRED'' then Some RvExpired
      else if s = ''CONSUMED'' then Some RvConsumed
      else if s = ''CLOSED'' then Some RvClosed else None)"

lemma review_state_parse_iff [simp]: "review_state_parse s = Some x \<longleftrightarrow> s = review_state_as_str x"
  by (cases x) (auto simp: review_state_parse_def split: if_splits)

lemma review_state_parse_as_str [simp]: "review_state_parse (review_state_as_str x) = Some x"
  by simp

definition review_active :: "ReviewState \<Rightarrow> bool" where
  "review_active s \<longleftrightarrow> s \<in> {RvOpen, RvClaimed, RvDeferred, RvAccepted}"

datatype Level = LInfo | LWarning | LCritical

fun level_as_str :: "Level \<Rightarrow> string" where
  "level_as_str LInfo = ''info''"
| "level_as_str LWarning = ''warning''"
| "level_as_str LCritical = ''critical''"

definition level_parse :: "string \<Rightarrow> Level option" where
  "level_parse s =
     (if s = ''info'' then Some LInfo
      else if s = ''warning'' then Some LWarning
      else if s = ''critical'' then Some LCritical else None)"

lemma level_parse_iff [simp]: "level_parse s = Some x \<longleftrightarrow> s = level_as_str x"
  by (cases x) (auto simp: level_parse_def split: if_splits)

lemma level_parse_as_str [simp]: "level_parse (level_as_str x) = Some x"
  by simp

fun level_rank :: "Level \<Rightarrow> nat" where
  "level_rank LCritical = 0"
| "level_rank LWarning = 1"
| "level_rank LInfo = 2"

lemma level_rank_inject [simp]: "level_rank a = level_rank b \<longleftrightarrow> a = b"
  by (cases a; cases b) simp_all

text \<open>The order of the review queue: the most urgent level first.\<close>

instantiation Level :: linorder
begin

definition less_eq_Level :: "Level \<Rightarrow> Level \<Rightarrow> bool" where
  "less_eq_Level a b \<longleftrightarrow> level_rank a \<le> level_rank b"

definition less_Level :: "Level \<Rightarrow> Level \<Rightarrow> bool" where
  "less_Level a b \<longleftrightarrow> level_rank a < level_rank b"

instance
  by standard (auto simp: less_eq_Level_def less_Level_def)

end

record Review =
  rv_id :: "string"
  rv_revision :: "nat"
  rv_run :: "string"
  rv_check :: "string option"
  rv_alert :: "string option"
  rv_basis :: "Basis option"
  rv_kind :: "string"
  rv_state :: "ReviewState"
  rv_level :: "Level"
  rv_created_seq :: "nat"
  rv_due_ms :: "nat"
  rv_owner :: "string option"
  rv_lease_until_ms :: "nat option"
  rv_wake_ms :: "nat option"
  rv_accepted_until_ms :: "nat option"
  rv_reason :: "string"
  rv_resolution :: "string option"
  rv_resolved_by :: "string option"

definition review_of :: "Value \<Rightarrow> Review R" where
  "review_of v = sbind (obj_of v) (\<lambda>m.
     sbind (closed m [''id'', ''revision'', ''run'', ''check'', ''alert'', ''basis'', ''kind'', ''state'',
       ''level'', ''created_seq'', ''due_ms'', ''owner'', ''lease_until_ms'',
       ''wake_ms'', ''accepted_until_ms'', ''reason'', ''resolution'', ''resolved_by'']) (\<lambda>_.
     sbind (fld m ''state'' (enum_of review_state_parse ''bad review state'')) (\<lambda>state.
     sbind (fld m ''kind'' (one_of [''blocking'', ''trailing''] ''bad kind'')) (\<lambda>kind.
     sbind (fld m ''level'' (enum_of level_parse ''bad level'')) (\<lambda>level.
     sbind (fld m ''basis'' (opt_of basis_of)) (\<lambda>basis.
     sbind (fld m ''id'' id_of) (\<lambda>id.
     sbind (fld m ''revision'' u_of) (\<lambda>revision.
     sbind (fld m ''run'' id_of) (\<lambda>run.
     sbind (fld m ''check'' opt_id) (\<lambda>check.
     sbind (fld m ''alert'' opt_id) (\<lambda>alert.
     sbind (fld m ''created_seq'' u_of) (\<lambda>created_seq.
     sbind (fld m ''due_ms'' u_of) (\<lambda>due_ms.
     sbind (fld m ''owner'' opt_id) (\<lambda>owner.
     sbind (fld m ''lease_until_ms'' opt_u) (\<lambda>lease_until_ms.
     sbind (fld m ''wake_ms'' opt_u) (\<lambda>wake_ms.
     sbind (fld m ''accepted_until_ms'' opt_u) (\<lambda>accepted_until_ms.
     sbind (fld m ''reason'' text_of) (\<lambda>reason.
     sbind (fld m ''resolution'' opt_text) (\<lambda>resolution.
     sbind (fld m ''resolved_by'' opt_id) (\<lambda>resolved_by.
     Inr \<lparr>rv_id = id, rv_revision = revision, rv_run = run, rv_check = check, rv_alert = alert,
       rv_basis = basis, rv_kind = kind, rv_state = state, rv_level = level,
       rv_created_seq = created_seq, rv_due_ms = due_ms, rv_owner = owner,
       rv_lease_until_ms = lease_until_ms, rv_wake_ms = wake_ms,
       rv_accepted_until_ms = accepted_until_ms, rv_reason = reason,
       rv_resolution = resolution, rv_resolved_by = resolved_by\<rparr>))))))))))))))))))))"

definition review_value :: "Review \<Rightarrow> Value" where
  "review_value x = Obj [
     (''id'', Str (rv_id x)),
     (''revision'', ustr (rv_revision x)),
     (''run'', Str (rv_run x)),
     (''check'', opt_value Str (rv_check x)),
     (''alert'', opt_value Str (rv_alert x)),
     (''basis'', opt_value basis_value (rv_basis x)),
     (''kind'', Str (rv_kind x)),
     (''state'', Str (review_state_as_str (rv_state x))),
     (''level'', Str (level_as_str (rv_level x))),
     (''created_seq'', ustr (rv_created_seq x)),
     (''due_ms'', ustr (rv_due_ms x)),
     (''owner'', opt_value Str (rv_owner x)),
     (''lease_until_ms'', opt_value ustr (rv_lease_until_ms x)),
     (''wake_ms'', opt_value ustr (rv_wake_ms x)),
     (''accepted_until_ms'', opt_value ustr (rv_accepted_until_ms x)),
     (''reason'', Str (rv_reason x)),
     (''resolution'', opt_value Str (rv_resolution x)),
     (''resolved_by'', opt_value Str (rv_resolved_by x))]"

definition valid_review :: "Review \<Rightarrow> bool" where
  "valid_review x \<longleftrightarrow>
     valid_id (rv_id x) \<and>
     rv_revision x \<le> u_max \<and>
     valid_id (rv_run x) \<and>
     pred_option valid_id (rv_check x) \<and>
     pred_option valid_id (rv_alert x) \<and>
     pred_option (valid_basis) (rv_basis x) \<and>
     rv_kind x \<in> {''blocking'', ''trailing''} \<and>
     rv_created_seq x \<le> u_max \<and>
     rv_due_ms x \<le> u_max \<and>
     pred_option valid_id (rv_owner x) \<and>
     pred_option (\<lambda>k. k \<le> u_max) (rv_lease_until_ms x) \<and>
     pred_option (\<lambda>k. k \<le> u_max) (rv_wake_ms x) \<and>
     pred_option (\<lambda>k. k \<le> u_max) (rv_accepted_until_ms x) \<and>
     valid_text (rv_reason x) \<and>
     pred_option valid_text (rv_resolution x) \<and>
     pred_option valid_id (rv_resolved_by x)"

lemma review_dec_enc [codec_enc]: "valid_review x \<Longrightarrow> review_of (review_value x) = Inr x"
  by (cases x) (simp add: review_of_def review_value_def valid_review_def fld_some closed_eval codec_enc)

lemma review_not_Null [simp]: "review_value x \<noteq> Null"
  by (simp add: review_value_def)

lemma review_dec_valid [codec_valid]: "review_of v = Inr x \<Longrightarrow> valid_review x"
  by (auto simp: review_of_def valid_review_def fld_iff dest!: codec_valid)

interpretation review_codec: codec review_value review_of valid_review
  by unfold_locales (auto simp: review_dec_enc dest: review_dec_valid)

lemmas review_lists [codec_enc] = review_codec.list_dec_enc review_codec.opt_dec_enc [OF _ review_not_Null]

lemmas review_lists_valid [codec_valid] = review_codec.list_valid review_codec.opt_valid

datatype AlertState = AsOpen | AsAcknowledged | AsResolved

fun alert_state_as_str :: "AlertState \<Rightarrow> string" where
  "alert_state_as_str AsOpen = ''OPEN''"
| "alert_state_as_str AsAcknowledged = ''ACKNOWLEDGED''"
| "alert_state_as_str AsResolved = ''RESOLVED''"

definition alert_state_parse :: "string \<Rightarrow> AlertState option" where
  "alert_state_parse s =
     (if s = ''OPEN'' then Some AsOpen
      else if s = ''ACKNOWLEDGED'' then Some AsAcknowledged
      else if s = ''RESOLVED'' then Some AsResolved else None)"

lemma alert_state_parse_iff [simp]: "alert_state_parse s = Some x \<longleftrightarrow> s = alert_state_as_str x"
  by (cases x) (auto simp: alert_state_parse_def split: if_splits)

lemma alert_state_parse_as_str [simp]: "alert_state_parse (alert_state_as_str x) = Some x"
  by simp

record Alert =
  al_id :: "string"
  al_revision :: "nat"
  al_run :: "string"
  al_monitor :: "string"
  al_baseline :: "string"
  al_state :: "AlertState"
  al_level :: "Level"
  al_first :: "Ref"
  al_last :: "Ref"
  al_occurrences :: "nat"
  al_review :: "string option"
  al_reason :: "string"
  al_resolved_by :: "string option"

definition alert_of :: "Value \<Rightarrow> Alert R" where
  "alert_of v = sbind (obj_of v) (\<lambda>m.
     sbind (closed m [''id'', ''revision'', ''run'', ''monitor'', ''baseline'', ''state'', ''level'',
       ''first'', ''last'', ''occurrences'', ''review'', ''reason'', ''resolved_by'']) (\<lambda>_.
     sbind (fld m ''state'' (enum_of alert_state_parse ''bad alert state'')) (\<lambda>state.
     sbind (fld m ''level'' (enum_of level_parse ''bad level'')) (\<lambda>level.
     sbind (fld m ''id'' id_of) (\<lambda>id.
     sbind (fld m ''revision'' u_of) (\<lambda>revision.
     sbind (fld m ''run'' id_of) (\<lambda>run.
     sbind (fld m ''monitor'' id_of) (\<lambda>monitor.
     sbind (fld m ''baseline'' id_of) (\<lambda>baseline.
     sbind (fld m ''first'' ref_of) (\<lambda>first.
     sbind (fld m ''last'' ref_of) (\<lambda>last.
     sbind (fld m ''occurrences'' u_of) (\<lambda>occurrences.
     sbind (fld m ''review'' opt_id) (\<lambda>review.
     sbind (fld m ''reason'' text_of) (\<lambda>reason.
     sbind (fld m ''resolved_by'' opt_id) (\<lambda>resolved_by.
     Inr \<lparr>al_id = id, al_revision = revision, al_run = run, al_monitor = monitor,
       al_baseline = baseline, al_state = state, al_level = level, al_first = first,
       al_last = last, al_occurrences = occurrences, al_review = review,
       al_reason = reason, al_resolved_by = resolved_by\<rparr>)))))))))))))))"

definition alert_value :: "Alert \<Rightarrow> Value" where
  "alert_value x = Obj [
     (''id'', Str (al_id x)),
     (''revision'', ustr (al_revision x)),
     (''run'', Str (al_run x)),
     (''monitor'', Str (al_monitor x)),
     (''baseline'', Str (al_baseline x)),
     (''state'', Str (alert_state_as_str (al_state x))),
     (''level'', Str (level_as_str (al_level x))),
     (''first'', ref_value (al_first x)),
     (''last'', ref_value (al_last x)),
     (''occurrences'', ustr (al_occurrences x)),
     (''review'', opt_value Str (al_review x)),
     (''reason'', Str (al_reason x)),
     (''resolved_by'', opt_value Str (al_resolved_by x))]"

definition valid_alert :: "Alert \<Rightarrow> bool" where
  "valid_alert x \<longleftrightarrow>
     valid_id (al_id x) \<and>
     al_revision x \<le> u_max \<and>
     valid_id (al_run x) \<and>
     valid_id (al_monitor x) \<and>
     valid_id (al_baseline x) \<and>
     valid_ref (al_first x) \<and>
     valid_ref (al_last x) \<and>
     al_occurrences x \<le> u_max \<and>
     pred_option valid_id (al_review x) \<and>
     valid_text (al_reason x) \<and>
     pred_option valid_id (al_resolved_by x)"

lemma alert_dec_enc [codec_enc]: "valid_alert x \<Longrightarrow> alert_of (alert_value x) = Inr x"
  by (cases x) (simp add: alert_of_def alert_value_def valid_alert_def fld_some closed_eval codec_enc)

lemma alert_not_Null [simp]: "alert_value x \<noteq> Null"
  by (simp add: alert_value_def)

lemma alert_dec_valid [codec_valid]: "alert_of v = Inr x \<Longrightarrow> valid_alert x"
  by (auto simp: alert_of_def valid_alert_def fld_iff dest!: codec_valid)

interpretation alert_codec: codec alert_value alert_of valid_alert
  by unfold_locales (auto simp: alert_dec_enc dest: alert_dec_valid)

lemmas alert_lists [codec_enc] = alert_codec.list_dec_enc alert_codec.opt_dec_enc [OF _ alert_not_Null]

lemmas alert_lists_valid [codec_valid] = alert_codec.list_valid alert_codec.opt_valid

datatype EffectState = EsDeclared | EsConfirmed | EsNotDispatched | EsUnknown

fun effect_state_as_str :: "EffectState \<Rightarrow> string" where
  "effect_state_as_str EsDeclared = ''DECLARED''"
| "effect_state_as_str EsConfirmed = ''CONFIRMED''"
| "effect_state_as_str EsNotDispatched = ''NOT_DISPATCHED''"
| "effect_state_as_str EsUnknown = ''UNKNOWN''"

definition effect_state_parse :: "string \<Rightarrow> EffectState option" where
  "effect_state_parse s =
     (if s = ''DECLARED'' then Some EsDeclared
      else if s = ''CONFIRMED'' then Some EsConfirmed
      else if s = ''NOT_DISPATCHED'' then Some EsNotDispatched
      else if s = ''UNKNOWN'' then Some EsUnknown else None)"

lemma effect_state_parse_iff [simp]: "effect_state_parse s = Some x \<longleftrightarrow> s = effect_state_as_str x"
  by (cases x) (auto simp: effect_state_parse_def split: if_splits)

lemma effect_state_parse_as_str [simp]: "effect_state_parse (effect_state_as_str x) = Some x"
  by simp

record EffectBody =
  ef_tenant :: "string"
  ef_run :: "string"
  ef_check :: "string"
  ef_action :: "string"
  ef_intent :: "string"
  ef_clearance :: "string"
  ef_runtime :: "string"
  ef_guard_epoch :: "nat"
  ef_boot :: "string"
  ef_state :: "EffectState"
  ef_at_ms :: "nat"
  ef_provider_receipt :: "string option"
  ef_predecessor :: "string option"

definition effect_body_of :: "Value \<Rightarrow> EffectBody R" where
  "effect_body_of v = sbind (obj_of v) (\<lambda>m.
     sbind (closed m [''v'', ''tenant'', ''run'', ''check'', ''action'', ''intent'', ''clearance'',
       ''runtime'', ''guard_epoch'', ''boot'', ''state'', ''at_ms'',
       ''provider_receipt'', ''predecessor'']) (\<lambda>_.
     sbind (fld m ''v'' (lit_num 1)) (\<lambda>_.
     sbind (fld m ''state'' (enum_of effect_state_parse ''bad effect state'')) (\<lambda>state.
     sbind (fld m ''tenant'' id_of) (\<lambda>tenant.
     sbind (fld m ''run'' id_of) (\<lambda>run.
     sbind (fld m ''check'' id_of) (\<lambda>check.
     sbind (fld m ''action'' id_of) (\<lambda>action.
     sbind (fld m ''intent'' hash_of) (\<lambda>intent.
     sbind (fld m ''clearance'' hash_of) (\<lambda>clearance.
     sbind (fld m ''runtime'' id_of) (\<lambda>runtime.
     sbind (fld m ''guard_epoch'' u_of) (\<lambda>guard_epoch.
     sbind (fld m ''boot'' boot_of) (\<lambda>boot.
     sbind (fld m ''at_ms'' u_of) (\<lambda>at_ms.
     sbind (fld m ''provider_receipt'' opt_hash) (\<lambda>provider_receipt.
     sbind (fld m ''predecessor'' opt_hash) (\<lambda>predecessor.
     Inr \<lparr>ef_tenant = tenant, ef_run = run, ef_check = check, ef_action = action,
       ef_intent = intent, ef_clearance = clearance, ef_runtime = runtime,
       ef_guard_epoch = guard_epoch, ef_boot = boot, ef_state = state, ef_at_ms = at_ms,
       ef_provider_receipt = provider_receipt, ef_predecessor = predecessor\<rparr>))))))))))))))))"

definition effect_body_value :: "EffectBody \<Rightarrow> Value" where
  "effect_body_value x = Obj [
     (''v'', num 1),
     (''tenant'', Str (ef_tenant x)),
     (''run'', Str (ef_run x)),
     (''check'', Str (ef_check x)),
     (''action'', Str (ef_action x)),
     (''intent'', Str (ef_intent x)),
     (''clearance'', Str (ef_clearance x)),
     (''runtime'', Str (ef_runtime x)),
     (''guard_epoch'', ustr (ef_guard_epoch x)),
     (''boot'', Str (ef_boot x)),
     (''state'', Str (effect_state_as_str (ef_state x))),
     (''at_ms'', ustr (ef_at_ms x)),
     (''provider_receipt'', opt_value Str (ef_provider_receipt x)),
     (''predecessor'', opt_value Str (ef_predecessor x))]"

definition valid_effect_body :: "EffectBody \<Rightarrow> bool" where
  "valid_effect_body x \<longleftrightarrow>
     valid_id (ef_tenant x) \<and>
     valid_id (ef_run x) \<and>
     valid_id (ef_check x) \<and>
     valid_id (ef_action x) \<and>
     valid_hash (ef_intent x) \<and>
     valid_hash (ef_clearance x) \<and>
     valid_id (ef_runtime x) \<and>
     ef_guard_epoch x \<le> u_max \<and>
     valid_boot (ef_boot x) \<and>
     ef_at_ms x \<le> u_max \<and>
     pred_option valid_hash (ef_provider_receipt x) \<and>
     pred_option valid_hash (ef_predecessor x)"

lemma effect_body_dec_enc [codec_enc]: "valid_effect_body x \<Longrightarrow> effect_body_of (effect_body_value x) = Inr x"
  by (cases x) (simp add: effect_body_of_def effect_body_value_def valid_effect_body_def fld_some closed_eval codec_enc)

lemma effect_body_not_Null [simp]: "effect_body_value x \<noteq> Null"
  by (simp add: effect_body_value_def)

lemma effect_body_dec_valid [codec_valid]: "effect_body_of v = Inr x \<Longrightarrow> valid_effect_body x"
  by (auto simp: effect_body_of_def valid_effect_body_def fld_iff dest!: codec_valid)

interpretation effect_body_codec: codec effect_body_value effect_body_of valid_effect_body
  by unfold_locales (auto simp: effect_body_dec_enc dest: effect_body_dec_valid)

lemmas effect_body_lists [codec_enc] = effect_body_codec.list_dec_enc effect_body_codec.opt_dec_enc [OF _ effect_body_not_Null]

lemmas effect_body_lists_valid [codec_valid] = effect_body_codec.list_valid effect_body_codec.opt_valid

record EvalRow =
  er_unit :: "string"
  er_cluster :: "string"
  er_truth :: "string"
  er_watcher :: "string"
  er_human :: "string"
  er_prevention :: "string"
  er_late :: "bool"
  er_review :: "bool"

definition eval_row_of :: "Value \<Rightarrow> EvalRow R" where
  "eval_row_of v = sbind (obj_of v) (\<lambda>m.
     sbind (closed m [''unit'', ''cluster'', ''truth'', ''watcher'', ''human'', ''prevention'', ''late'',
       ''review'']) (\<lambda>_.
     sbind (fld m ''truth'' (one_of [''dangerous'', ''benign'', ''unknown''] ''bad truth'')) (\<lambda>truth.
     sbind (field m ''watcher'') (\<lambda>_. sbind (field m ''human'') (\<lambda>_.
     sbind (fld m ''watcher'' (one_of [''flag'', ''clear'', ''abstain''] ''bad prediction'')) (\<lambda>watcher.
     sbind (fld m ''human'' (one_of [''flag'', ''clear'', ''abstain''] ''bad prediction'')) (\<lambda>human.
     sbind (fld m ''prevention'' (one_of [''blocked'', ''dispatched'', ''not_attempted''] ''bad prevention'')) (\<lambda>prevention.
     sbind (fld m ''unit'' id_of) (\<lambda>unit.
     sbind (fld m ''cluster'' id_of) (\<lambda>cluster.
     sbind (fld m ''late'' boolean_of) (\<lambda>late.
     sbind (fld m ''review'' boolean_of) (\<lambda>review.
     Inr \<lparr>er_unit = unit, er_cluster = cluster, er_truth = truth, er_watcher = watcher,
       er_human = human, er_prevention = prevention, er_late = late, er_review = review\<rparr>))))))))))))"

definition eval_row_value :: "EvalRow \<Rightarrow> Value" where
  "eval_row_value x = Obj [
     (''unit'', Str (er_unit x)),
     (''cluster'', Str (er_cluster x)),
     (''truth'', Str (er_truth x)),
     (''watcher'', Str (er_watcher x)),
     (''human'', Str (er_human x)),
     (''prevention'', Str (er_prevention x)),
     (''late'', Bool (er_late x)),
     (''review'', Bool (er_review x))]"

definition valid_eval_row :: "EvalRow \<Rightarrow> bool" where
  "valid_eval_row x \<longleftrightarrow>
     valid_id (er_unit x) \<and>
     valid_id (er_cluster x) \<and>
     er_truth x \<in> {''dangerous'', ''benign'', ''unknown''} \<and>
     er_watcher x \<in> {''flag'', ''clear'', ''abstain''} \<and>
     er_human x \<in> {''flag'', ''clear'', ''abstain''} \<and>
     er_prevention x \<in> {''blocked'', ''dispatched'', ''not_attempted''}"

lemma eval_row_dec_enc [codec_enc]: "valid_eval_row x \<Longrightarrow> eval_row_of (eval_row_value x) = Inr x"
  by (cases x) (simp add: eval_row_of_def eval_row_value_def valid_eval_row_def fld_some closed_eval codec_enc field_some)

lemma eval_row_not_Null [simp]: "eval_row_value x \<noteq> Null"
  by (simp add: eval_row_value_def)

lemma eval_row_dec_valid [codec_valid]: "eval_row_of v = Inr x \<Longrightarrow> valid_eval_row x"
  by (auto simp: eval_row_of_def valid_eval_row_def fld_iff dest!: codec_valid)

interpretation eval_row_codec: codec eval_row_value eval_row_of valid_eval_row
  by unfold_locales (auto simp: eval_row_dec_enc dest: eval_row_dec_valid)

lemmas eval_row_lists [codec_enc] = eval_row_codec.list_dec_enc eval_row_codec.opt_dec_enc [OF _ eval_row_not_Null]

lemmas eval_row_lists_valid [codec_valid] = eval_row_codec.list_valid eval_row_codec.opt_valid

record EvalInput =
  ei_id :: "string"
  ei_dataset :: "string"
  ei_policy :: "string"
  ei_split :: "string"
  ei_sampling :: "string"
  ei_independent_units :: "bool"
  ei_population_count :: "nat"
  ei_rows :: "EvalRow list"

definition eval_input_of :: "Value \<Rightarrow> EvalInput R" where
  "eval_input_of v = sbind (obj_of v) (\<lambda>m.
     sbind (closed m [''id'', ''dataset'', ''policy'', ''split'', ''sampling'', ''independent_units'',
       ''population_count'', ''rows'']) (\<lambda>_.
     sbind (fld m ''split'' (one_of [''heldout'', ''calibration''] ''bad split'')) (\<lambda>split.
     sbind (fld m ''sampling'' (one_of [''census'', ''simple_random'', ''alerts_only''] ''bad sampling'')) (\<lambda>sampling.
     sbind (fld m ''rows'' arr_of) (\<lambda>rows_a.
     sbind (mapR eval_row_of rows_a) (\<lambda>rows.
     sbind (fld m ''id'' id_of) (\<lambda>id.
     sbind (fld m ''dataset'' hash_of) (\<lambda>dataset.
     sbind (fld m ''policy'' hash_of) (\<lambda>policy.
     sbind (fld m ''independent_units'' boolean_of) (\<lambda>independent_units.
     sbind (fld m ''population_count'' u_of) (\<lambda>population_count.
     Inr \<lparr>ei_id = id, ei_dataset = dataset, ei_policy = policy, ei_split = split,
       ei_sampling = sampling, ei_independent_units = independent_units,
       ei_population_count = population_count, ei_rows = rows\<rparr>)))))))))))"

definition eval_input_value :: "EvalInput \<Rightarrow> Value" where
  "eval_input_value x = Obj [
     (''id'', Str (ei_id x)),
     (''dataset'', Str (ei_dataset x)),
     (''policy'', Str (ei_policy x)),
     (''split'', Str (ei_split x)),
     (''sampling'', Str (ei_sampling x)),
     (''independent_units'', Bool (ei_independent_units x)),
     (''population_count'', ustr (ei_population_count x)),
     (''rows'', Arr (map eval_row_value (ei_rows x)))]"

definition valid_eval_input :: "EvalInput \<Rightarrow> bool" where
  "valid_eval_input x \<longleftrightarrow>
     valid_id (ei_id x) \<and>
     valid_hash (ei_dataset x) \<and>
     valid_hash (ei_policy x) \<and>
     ei_split x \<in> {''heldout'', ''calibration''} \<and>
     ei_sampling x \<in> {''census'', ''simple_random'', ''alerts_only''} \<and>
     ei_population_count x \<le> u_max \<and>
     list_all valid_eval_row (ei_rows x)"

lemma eval_input_dec_enc [codec_enc]: "valid_eval_input x \<Longrightarrow> eval_input_of (eval_input_value x) = Inr x"
  by (cases x) (simp add: eval_input_of_def eval_input_value_def valid_eval_input_def fld_some closed_eval codec_enc)

lemma eval_input_not_Null [simp]: "eval_input_value x \<noteq> Null"
  by (simp add: eval_input_value_def)

lemma eval_input_dec_valid [codec_valid]: "eval_input_of v = Inr x \<Longrightarrow> valid_eval_input x"
  by (auto simp: eval_input_of_def valid_eval_input_def fld_iff dest!: codec_valid)

interpretation eval_input_codec: codec eval_input_value eval_input_of valid_eval_input
  by unfold_locales (auto simp: eval_input_dec_enc dest: eval_input_dec_valid)

lemmas eval_input_lists [codec_enc] = eval_input_codec.list_dec_enc eval_input_codec.opt_dec_enc [OF _ eval_input_not_Null]

lemmas eval_input_lists_valid [codec_valid] = eval_input_codec.list_valid eval_input_codec.opt_valid

end
