(* ===== verification/SchemaEvent.thy ===== *)
theory SchemaEvent
  imports SchemaReview
begin

text \<open>
  Host values, evaluations, the event kinds and event bodies (\<open>schema.rs\<close>).
\<close>

datatype HostState = HsStarting | HsReady | HsDraining | HsFaulted | HsStopped

fun host_state_as_str :: "HostState \<Rightarrow> string" where
  "host_state_as_str HsStarting = ''STARTING''"
| "host_state_as_str HsReady = ''READY''"
| "host_state_as_str HsDraining = ''DRAINING''"
| "host_state_as_str HsFaulted = ''FAULTED''"
| "host_state_as_str HsStopped = ''STOPPED''"

record Host =
  ho_state :: HostState
  ho_epoch :: nat
  ho_boot :: string
  ho_reason :: "string option"

definition host_value :: "Host \<Rightarrow> Value" where
  "host_value h = Obj [(''state'', Str (host_state_as_str (ho_state h))),
     (''epoch'', ustr (ho_epoch h)), (''boot'', Str (ho_boot h)),
     (''reason'', opt_value Str (ho_reason h))]"

definition EVENT_KINDS :: "string list" where
  "EVENT_KINDS = [''HostStarted'', ''HostReady'', ''HostDraining'', ''HostFaulted'', ''HostStopped'',
     ''PolicyActivated'', ''RunOpened'', ''ObservationAccepted'', ''RunPaused'', ''RunResumed'',
     ''RunQuarantined'', ''RunClosed'', ''DriftUpdated'', ''TrailingEvaluated'', ''CheckStarted'',
     ''CheckFinalized'', ''ReviewOpened'', ''ReviewClaimed'', ''ReviewReleased'',
     ''ReviewDeferred'', ''ReviewWoken'', ''ReviewAccepted'', ''ReviewRejected'',
     ''ReviewExpired'', ''ReviewConsumed'', ''ReviewClosed'', ''AlertOpened'', ''AlertUpdated'',
     ''AlertAcknowledged'', ''AlertResolved'', ''EffectRecorded'', ''EvaluationRecorded'',
     ''ExportRecorded'']"

section \<open>Evaluation outputs\<close>

text \<open>The two parts of a value of six decimal places.\<close>

definition fraction_of :: "Value \<Rightarrow> unit R" where
  "fraction_of v = sbind (obj_of v) (\<lambda>m.
     sbind (closed m [''num'', ''den'', ''value'']) (\<lambda>_.
     sbind (fld m ''num'' u_of) (\<lambda>_.
     sbind (fld m ''den'' u_of) (\<lambda>_.
     sbind (field m ''value'') (\<lambda>val.
     if val \<noteq> Null then
       sbind (s_of val) (\<lambda>st. let parts = split_on (CHR ''.'') st in
         if length parts \<noteq> 2 \<or> length (parts ! 1) \<noteq> 6 \<or> \<not> list_all is_digit (parts ! 0) \<or>
            \<not> list_all is_digit (parts ! 1)
         then Inl (schem ''bad fraction value'') else Inr ())
     else Inr ())))))"

definition measures_of :: "Value \<Rightarrow> unit R" where
  "measures_of v = sbind (obj_of v) (\<lambda>m.
     sbind (closed m [''confusion'', ''precision'', ''recall_lower'', ''recall_decided'',
       ''fpr_lower'', ''fpr_upper'', ''coverage'', ''review_rate'', ''prevention'',
       ''recall_ci95'', ''ci_status'']) (\<lambda>_.
     sbind (fld m ''confusion'' obj_of) (\<lambda>c.
     sbind (closed c [''tp'', ''fp'', ''tn'', ''fn'', ''abstain_dangerous'', ''abstain_benign'',
       ''unlabeled'']) (\<lambda>_.
     sbind (forR (\<lambda>f. fld c f u_of) [''tp'', ''fp'', ''tn'', ''fn'', ''abstain_dangerous'',
       ''abstain_benign'', ''unlabeled'']) (\<lambda>_.
     sbind (forR (\<lambda>f. fld m f fraction_of) [''precision'', ''recall_lower'', ''recall_decided'',
       ''fpr_lower'', ''fpr_upper'', ''coverage'', ''review_rate'', ''prevention'']) (\<lambda>_.
     sbind (field m ''recall_ci95'') (\<lambda>ci.
     sbind (if ci \<noteq> Null then sbind (obj_of ci) (\<lambda>cm.
              sbind (closed cm [''low'', ''high'']) (\<lambda>_.
              sbind (fld cm ''low'' s_of) (\<lambda>_.
              sbind (fld cm ''high'' s_of) (\<lambda>_. Inr ()))))
            else Inr ()) (\<lambda>_.
     sbind (fld m ''ci_status''
       (one_of [''WILSON'', ''DESCRIPTIVE_ONLY'', ''UNDEFINED''] ''bad ci_status'')) (\<lambda>_.
     Inr ())))))))))"

definition evaluation_of :: "Value \<Rightarrow> unit R" where
  "evaluation_of v = sbind (obj_of v) (\<lambda>m.
     sbind (closed m [''id'', ''input'', ''watcher'', ''human'', ''paired'', ''late'', ''claim'']) (\<lambda>_.
     sbind (fld m ''id'' id_of) (\<lambda>_.
     sbind (fld m ''input'' hash_of) (\<lambda>_.
     sbind (fld m ''claim'' (lit_str ''DESCRIPTIVE_NOT_CERTIFICATION'')) (\<lambda>_.
     sbind (forR (\<lambda>f. fld m f measures_of) [''watcher'', ''human'']) (\<lambda>_.
     sbind (fld m ''paired'' obj_of) (\<lambda>p.
     sbind (closed p [''watcher_only'', ''human_only'', ''both'', ''neither'']) (\<lambda>_.
     sbind (forR (\<lambda>f. fld p f u_of) [''watcher_only'', ''human_only'', ''both'', ''neither'']) (\<lambda>_.
     sbind (fld m ''late'' u_of) (\<lambda>_.
     Inr ()))))))))))"

section \<open>Event bodies\<close>

definition check_with :: "(Value \<Rightarrow> 'a R) \<Rightarrow> Value \<Rightarrow> unit R" where
  "check_with p v = sbind (p v) (\<lambda>_. Inr ())"

lemma check_with_iff [simp]: "check_with p v = Inr x \<longleftrightarrow> (\<exists>y. p v = Inr y)"
  by (simp add: check_with_def sbind_eq_Inr)

definition validate_event_value :: "Crypto \<Rightarrow> string \<Rightarrow> Value \<Rightarrow> unit R" where
  "validate_event_value cr kind v =
    (if kind \<in> {''HostStarted'', ''HostReady'', ''HostDraining'', ''HostFaulted'', ''HostStopped''} then
       sbind (obj_of v) (\<lambda>m.
       sbind (closed m [''state'', ''epoch'', ''boot'', ''reason'']) (\<lambda>_.
       sbind (fld m ''state'' (one_of [''STARTING'', ''READY'', ''DRAINING'', ''FAULTED'', ''STOPPED'']
         ''bad host state'')) (\<lambda>_.
       sbind (fld m ''epoch'' u_of) (\<lambda>_.
       sbind (fld m ''boot'' boot_of) (\<lambda>_.
       sbind (fld m ''reason'' opt_text) (\<lambda>_. Inr ()))))))
     else if kind = ''PolicyActivated'' then
       sbind (signed_of cr v) (\<lambda>sv. check_with policy_of (sd_body sv))
     else if kind \<in> {''RunOpened'', ''ObservationAccepted'', ''RunPaused'', ''RunResumed'',
                     ''RunQuarantined'', ''RunClosed'', ''DriftUpdated''} then check_with run_of v
     else if kind = ''TrailingEvaluated'' then
       sbind (obj_of v) (\<lambda>m.
       sbind (closed m [''run'', ''window_start_ms'', ''observation'', ''results'']) (\<lambda>_.
       sbind (fld m ''run'' id_of) (\<lambda>_.
       sbind (fld m ''window_start_ms'' u_of) (\<lambda>_.
       sbind (fld m ''observation'' (opt_of ref_of)) (\<lambda>_.
       sbind (fld m ''results'' arr_of) (\<lambda>rs.
       sbind (mapR result_of rs) (\<lambda>_. Inr ())))))))
     else if kind = ''CheckStarted'' \<or> kind = ''CheckFinalized'' then check_with (check_of cr) v
     else if kind \<in> {''ReviewOpened'', ''ReviewClaimed'', ''ReviewReleased'', ''ReviewDeferred'',
                     ''ReviewWoken'', ''ReviewAccepted'', ''ReviewRejected'', ''ReviewExpired'',
                     ''ReviewConsumed'', ''ReviewClosed''} then check_with review_of v
     else if kind \<in> {''AlertOpened'', ''AlertUpdated'', ''AlertAcknowledged'', ''AlertResolved''}
       then check_with alert_of v
     else if kind = ''EffectRecorded'' then
       sbind (signed_of cr v) (\<lambda>sv. check_with effect_body_of (sd_body sv))
     else if kind = ''EvaluationRecorded'' then evaluation_of v
     else if kind = ''ExportRecorded'' then
       sbind (obj_of v) (\<lambda>m.
       sbind (closed m [''bundle'', ''through'', ''disclosure'', ''recipient'']) (\<lambda>_.
       sbind (fld m ''bundle'' hash_of) (\<lambda>_.
       sbind (fld m ''through'' head_of) (\<lambda>_.
       sbind (fld m ''disclosure'' (one_of [''FULL'', ''COMMITMENTS''] ''bad disclosure'')) (\<lambda>_.
       sbind (fld m ''recipient'' id_of) (\<lambda>_. Inr ()))))))
     else Inl (schem ''unknown event kind''))"

record EventBody =
  ev_tenant :: "string"
  ev_seq :: "nat"
  ev_prev :: "string"
  ev_epoch :: "nat"
  ev_boot :: "string"
  ev_at_ms :: "nat"
  ev_actor :: "string"
  ev_request :: "string"
  ev_kind :: "string"
  ev_value :: "Value"
  ev_causes :: "string list"

definition event_body_of :: "Crypto \<Rightarrow> Value \<Rightarrow> EventBody R" where
  "event_body_of cr v = sbind (obj_of v) (\<lambda>m.
     sbind (closed m [''v'', ''tenant'', ''seq'', ''prev'', ''epoch'', ''boot'', ''at_ms'', ''actor'',
       ''request'', ''kind'', ''value'', ''causes'']) (\<lambda>_.
     sbind (fld m ''v'' (lit_num 1)) (\<lambda>_.
     sbind (fld m ''kind'' (one_of EVENT_KINDS ''unknown event kind'')) (\<lambda>kind.
     sbind (fld m ''value'' Inr) (\<lambda>value.
     sbind (validate_event_value cr kind value) (\<lambda>_.
     sbind (fld m ''tenant'' id_of) (\<lambda>tenant.
     sbind (fld m ''seq'' u_of) (\<lambda>seq.
     sbind (fld m ''prev'' hash_of) (\<lambda>prev.
     sbind (fld m ''epoch'' u_of) (\<lambda>epoch.
     sbind (fld m ''boot'' boot_of) (\<lambda>boot.
     sbind (fld m ''at_ms'' u_of) (\<lambda>at_ms.
     sbind (fld m ''actor'' id_of) (\<lambda>actor.
     sbind (fld m ''request'' id_of) (\<lambda>request.
     sbind (fld m ''causes'' hash_list) (\<lambda>causes.
     Inr \<lparr>ev_tenant = tenant, ev_seq = seq, ev_prev = prev, ev_epoch = epoch, ev_boot = boot,
       ev_at_ms = at_ms, ev_actor = actor, ev_request = request, ev_kind = kind,
       ev_value = value, ev_causes = causes\<rparr>)))))))))))))))"

definition event_body_value :: "EventBody \<Rightarrow> Value" where
  "event_body_value x = Obj [
     (''v'', num 1),
     (''tenant'', Str (ev_tenant x)),
     (''seq'', ustr (ev_seq x)),
     (''prev'', Str (ev_prev x)),
     (''epoch'', ustr (ev_epoch x)),
     (''boot'', Str (ev_boot x)),
     (''at_ms'', ustr (ev_at_ms x)),
     (''actor'', Str (ev_actor x)),
     (''request'', Str (ev_request x)),
     (''kind'', Str (ev_kind x)),
     (''value'', ev_value x),
     (''causes'', Arr (map Str (ev_causes x)))]"

definition valid_event_body :: "Crypto \<Rightarrow> EventBody \<Rightarrow> bool" where
  "valid_event_body cr x \<longleftrightarrow>
     valid_id (ev_tenant x) \<and>
     ev_seq x \<le> u_max \<and>
     valid_hash (ev_prev x) \<and>
     ev_epoch x \<le> u_max \<and>
     valid_boot (ev_boot x) \<and>
     ev_at_ms x \<le> u_max \<and>
     valid_id (ev_actor x) \<and>
     valid_id (ev_request x) \<and>
     ev_kind x \<in> set EVENT_KINDS \<and>
     list_all valid_hash (ev_causes x) \<and> length (ev_causes x) \<le> set_max \<and>
     validate_event_value cr (ev_kind x) (ev_value x) = Inr ()"

lemma event_body_dec_enc [codec_enc]: "valid_event_body cr x \<Longrightarrow> event_body_of cr (event_body_value x) = Inr x"
  by (cases x) (simp add: event_body_of_def event_body_value_def valid_event_body_def fld_some closed_eval codec_enc)

lemma event_body_not_Null [simp]: "event_body_value x \<noteq> Null"
  by (simp add: event_body_value_def)

lemma event_body_dec_valid [codec_valid]: "event_body_of cr v = Inr x \<Longrightarrow> valid_event_body cr x"
  by (auto simp: event_body_of_def valid_event_body_def fld_iff dest!: codec_valid)

interpretation event_body_codec: codec event_body_value "event_body_of cr" "valid_event_body cr" for cr
  by unfold_locales (auto simp: event_body_dec_enc dest: event_body_dec_valid)

lemmas event_body_lists [codec_enc] = event_body_codec.list_dec_enc event_body_codec.opt_dec_enc [OF _ event_body_not_Null]

lemmas event_body_lists_valid [codec_valid] = event_body_codec.list_valid event_body_codec.opt_valid

end
