(* ===== verification/SchemaConfig.thy ===== *)
theory SchemaConfig
  imports SchemaEvent
begin

text \<open>
  Bundles, trust files, principals, sources, the configuration file and monitor jobs
  (\<open>schema.rs\<close>). These types have parsers only, apart from inventories.
\<close>

record Inventory =
  iv_tag :: "string"
  iv_digest :: "string"
  iv_bytes :: "nat"
  iv_present :: "bool"

definition inventory_of :: "Value \<Rightarrow> Inventory R" where
  "inventory_of v = sbind (obj_of v) (\<lambda>m.
     sbind (closed m [''tag'', ''digest'', ''bytes'', ''present'']) (\<lambda>_.
     sbind (fld m ''tag'' (one_of [''policy'', ''observation'', ''effect'', ''evaluation''] ''bad inventory tag'')) (\<lambda>tag.
     sbind (fld m ''digest'' hash_of) (\<lambda>digest.
     sbind (fld m ''bytes'' u_of) (\<lambda>bytes.
     sbind (fld m ''present'' boolean_of) (\<lambda>present.
     Inr \<lparr>iv_tag = tag, iv_digest = digest, iv_bytes = bytes, iv_present = present\<rparr>))))))"

definition inventory_value :: "Inventory \<Rightarrow> Value" where
  "inventory_value x = Obj [
     (''tag'', Str (iv_tag x)),
     (''digest'', Str (iv_digest x)),
     (''bytes'', ustr (iv_bytes x)),
     (''present'', Bool (iv_present x))]"

definition valid_inventory :: "Inventory \<Rightarrow> bool" where
  "valid_inventory x \<longleftrightarrow>
     iv_tag x \<in> {''policy'', ''observation'', ''effect'', ''evaluation''} \<and>
     valid_hash (iv_digest x) \<and>
     iv_bytes x \<le> u_max"

lemma inventory_dec_enc [codec_enc]: "valid_inventory x \<Longrightarrow> inventory_of (inventory_value x) = Inr x"
  by (cases x) (simp add: inventory_of_def inventory_value_def valid_inventory_def fld_some closed_eval codec_enc)

lemma inventory_not_Null [simp]: "inventory_value x \<noteq> Null"
  by (simp add: inventory_value_def)

lemma inventory_dec_valid [codec_valid]: "inventory_of v = Inr x \<Longrightarrow> valid_inventory x"
  by (auto simp: inventory_of_def valid_inventory_def fld_iff dest!: codec_valid)

interpretation inventory_codec: codec inventory_value inventory_of valid_inventory
  by unfold_locales (auto simp: inventory_dec_enc dest: inventory_dec_valid)

lemmas inventory_lists [codec_enc] = inventory_codec.list_dec_enc inventory_codec.opt_dec_enc [OF _ inventory_not_Null]

lemmas inventory_lists_valid [codec_valid] = inventory_codec.list_valid inventory_codec.opt_valid

record BundleBody =
  bb_tenant :: "string"
  bb_from :: "Head"
  bb_through :: "Head"
  bb_disclosure :: "string"
  bb_inventory :: "Inventory list"
  bb_event_hashes :: "string list"
  bb_limitations :: "string list"

definition bundle_body_of :: "Value \<Rightarrow> BundleBody R" where
  "bundle_body_of v = sbind (obj_of v) (\<lambda>m.
     sbind (closed m [''v'', ''format'', ''tenant'', ''from'', ''through'', ''disclosure'', ''inventory'',
       ''event_hashes'', ''limitations'', ''semantics'']) (\<lambda>_.
     sbind (fld m ''v'' (lit_num 1)) (\<lambda>_.
     sbind (fld m ''format'' (lit_str ''watch-proof/1'')) (\<lambda>_.
     sbind (fld m ''semantics'' (lit_str ''OBSERVATIONS_NOT_ACTION_AUTHORIZATION'')) (\<lambda>_.
     sbind (fld m ''disclosure'' (one_of [''FULL'', ''COMMITMENTS''] ''bad disclosure'')) (\<lambda>disclosure.
     sbind (fld m ''inventory'' arr_of) (\<lambda>inventory_a.
     sbind (fld m ''limitations'' arr_of) (\<lambda>limitations_a.
     sbind (fld m ''tenant'' id_of) (\<lambda>tenant.
     sbind (fld m ''from'' head_of) (\<lambda>from.
     sbind (fld m ''through'' head_of) (\<lambda>through.
     sbind (mapR inventory_of inventory_a) (\<lambda>inventory.
     sbind (fld m ''event_hashes'' hash_array) (\<lambda>event_hashes.
     sbind (mapR text_of limitations_a) (\<lambda>limitations.
     Inr \<lparr>bb_tenant = tenant, bb_from = from, bb_through = through, bb_disclosure = disclosure,
       bb_inventory = inventory, bb_event_hashes = event_hashes,
       bb_limitations = limitations\<rparr>))))))))))))))"

definition valid_bundle_body :: "BundleBody \<Rightarrow> bool" where
  "valid_bundle_body x \<longleftrightarrow>
     valid_id (bb_tenant x) \<and>
     valid_head (bb_from x) \<and>
     valid_head (bb_through x) \<and>
     bb_disclosure x \<in> {''FULL'', ''COMMITMENTS''} \<and>
     list_all valid_inventory (bb_inventory x) \<and>
     list_all valid_hash (bb_event_hashes x) \<and> length (bb_event_hashes x) \<le> array_max \<and>
     list_all valid_text (bb_limitations x)"

lemma bundle_body_dec_valid [codec_valid]: "bundle_body_of v = Inr x \<Longrightarrow> valid_bundle_body x"
  by (auto simp: bundle_body_of_def valid_bundle_body_def fld_iff dest!: codec_valid)

lemma bundle_body_list_valid [codec_valid]: "mapR bundle_body_of vs = Inr xs \<Longrightarrow> list_all valid_bundle_body xs"
  by (auto simp: list_all_iff dest: bundle_body_dec_valid elim: mapR_set)

record KeyPin =
  kp_id :: "string"
  kp_public_key :: "string"
  kp_tags :: "string list"
  kp_subjects :: "string list"
  kp_from_epoch :: "nat"
  kp_through_epoch :: "nat option"
  kp_live :: "bool"
  kp_compromised :: "bool"

definition key_pin_of :: "Crypto \<Rightarrow> Value \<Rightarrow> KeyPin R" where
  "key_pin_of cr v = sbind (obj_of v) (\<lambda>m.
     sbind (closed m [''id'', ''public_key'', ''tags'', ''subjects'', ''from_epoch'', ''through_epoch'',
       ''live'', ''compromised'']) (\<lambda>_.
     sbind (fld m ''tags'' arr_of) (\<lambda>tags_a.
     sbind (fld m ''subjects'' arr_of) (\<lambda>subjects_a.
     sbind (fld m ''id'' id_of) (\<lambda>id.
     sbind (fld m ''public_key'' (pubkey_of cr)) (\<lambda>public_key.
     sbind (mapR text_of tags_a) (\<lambda>tags.
     sbind (mapR id_of subjects_a) (\<lambda>subjects.
     sbind (fld m ''from_epoch'' u_of) (\<lambda>from_epoch.
     sbind (fld m ''through_epoch'' opt_u) (\<lambda>through_epoch.
     sbind (fld m ''live'' boolean_of) (\<lambda>live.
     sbind (fld m ''compromised'' boolean_of) (\<lambda>compromised.
     Inr \<lparr>kp_id = id, kp_public_key = public_key, kp_tags = tags, kp_subjects = subjects,
       kp_from_epoch = from_epoch, kp_through_epoch = through_epoch, kp_live = live,
       kp_compromised = compromised\<rparr>))))))))))))"

definition valid_key_pin :: "Crypto \<Rightarrow> KeyPin \<Rightarrow> bool" where
  "valid_key_pin cr x \<longleftrightarrow>
     valid_id (kp_id x) \<and>
     is_pub cr (kp_public_key x) \<and>
     list_all valid_text (kp_tags x) \<and>
     list_all valid_id (kp_subjects x) \<and>
     kp_from_epoch x \<le> u_max \<and>
     pred_option (\<lambda>k. k \<le> u_max) (kp_through_epoch x)"

lemma key_pin_dec_valid [codec_valid]: "key_pin_of cr v = Inr x \<Longrightarrow> valid_key_pin cr x"
  by (auto simp: key_pin_of_def valid_key_pin_def fld_iff dest!: codec_valid)

lemma key_pin_list_valid [codec_valid]: "mapR (key_pin_of cr) vs = Inr xs \<Longrightarrow> list_all (valid_key_pin cr) xs"
  by (auto simp: list_all_iff dest: key_pin_dec_valid elim: mapR_set)

record Source =
  src_id :: "string"
  src_runtime :: "string"
  src_key_id :: "string"
  src_key_epoch :: "nat"
  src_epoch :: "nat"
  src_profile :: "string"

definition source_of :: "Value \<Rightarrow> Source R" where
  "source_of v = sbind (obj_of v) (\<lambda>m.
     sbind (closed m [''id'', ''runtime'', ''key_id'', ''key_epoch'', ''epoch'', ''profile'']) (\<lambda>_.
     sbind (fld m ''profile'' (one_of [''fixture/1'', ''runtime-guard/1''] ''bad source profile'')) (\<lambda>profile.
     sbind (fld m ''id'' id_of) (\<lambda>id.
     sbind (fld m ''runtime'' id_of) (\<lambda>runtime.
     sbind (fld m ''key_id'' id_of) (\<lambda>key_id.
     sbind (fld m ''key_epoch'' u_of) (\<lambda>key_epoch.
     sbind (fld m ''epoch'' u_of) (\<lambda>epoch.
     Inr \<lparr>src_id = id, src_runtime = runtime, src_key_id = key_id, src_key_epoch = key_epoch,
       src_epoch = epoch, src_profile = profile\<rparr>))))))))"

definition valid_source :: "Source \<Rightarrow> bool" where
  "valid_source x \<longleftrightarrow>
     valid_id (src_id x) \<and>
     valid_id (src_runtime x) \<and>
     valid_id (src_key_id x) \<and>
     src_key_epoch x \<le> u_max \<and>
     src_epoch x \<le> u_max \<and>
     src_profile x \<in> {''fixture/1'', ''runtime-guard/1''}"

lemma source_dec_valid [codec_valid]: "source_of v = Inr x \<Longrightarrow> valid_source x"
  by (auto simp: source_of_def valid_source_def fld_iff dest!: codec_valid)

lemma source_list_valid [codec_valid]: "mapR source_of vs = Inr xs \<Longrightarrow> list_all valid_source xs"
  by (auto simp: list_all_iff dest: source_dec_valid elim: mapR_set)

record Trust =
  tr_tenant :: "string"
  tr_keys :: "KeyPin list"
  tr_sources :: "Source list"
  tr_minimum_head :: "Head"

definition trust_of :: "Crypto \<Rightarrow> Value \<Rightarrow> Trust R" where
  "trust_of cr v = sbind (obj_of v) (\<lambda>m.
     sbind (closed m [''v'', ''tenant'', ''keys'', ''sources'', ''minimum_head'']) (\<lambda>_.
     sbind (fld m ''v'' (lit_num 1)) (\<lambda>_.
     sbind (fld m ''keys'' arr_of) (\<lambda>keys_a.
     sbind (fld m ''sources'' arr_of) (\<lambda>sources_a.
     sbind (fld m ''tenant'' id_of) (\<lambda>tenant.
     sbind (mapR (key_pin_of cr) keys_a) (\<lambda>keys.
     sbind (mapR source_of sources_a) (\<lambda>sources.
     sbind (fld m ''minimum_head'' head_of) (\<lambda>minimum_head.
     Inr \<lparr>tr_tenant = tenant, tr_keys = keys, tr_sources = sources, tr_minimum_head = minimum_head\<rparr>)))))))))"

definition valid_trust :: "Crypto \<Rightarrow> Trust \<Rightarrow> bool" where
  "valid_trust cr x \<longleftrightarrow>
     valid_id (tr_tenant x) \<and>
     list_all (valid_key_pin cr) (tr_keys x) \<and>
     list_all valid_source (tr_sources x) \<and>
     valid_head (tr_minimum_head x)"

lemma trust_dec_valid [codec_valid]: "trust_of cr v = Inr x \<Longrightarrow> valid_trust cr x"
  by (auto simp: trust_of_def valid_trust_def fld_iff dest!: codec_valid)

lemma trust_list_valid [codec_valid]: "mapR (trust_of cr) vs = Inr xs \<Longrightarrow> list_all (valid_trust cr) xs"
  by (auto simp: list_all_iff dest: trust_dec_valid elim: mapR_set)

lemma mapR_one_of: "mapR (one_of allowed msg) a = Inr xs \<longleftrightarrow> a = map Str xs \<and> set xs \<subseteq> set allowed"
  by (induction a arbitrary: xs) (auto simp: sbind_eq_Inr Cons_eq_map_conv)

lemma one_of_list_valid [codec_valid]: "mapR (one_of allowed msg) a = Inr xs \<Longrightarrow> set xs \<subseteq> set allowed"
  by (simp add: mapR_one_of)

record Principal =
  pr_id :: "string"
  pr_uid :: "nat"
  pr_roles :: "string list"

definition principal_of :: "Value \<Rightarrow> Principal R" where
  "principal_of v = sbind (obj_of v) (\<lambda>m.
     sbind (closed m [''id'', ''uid'', ''roles'']) (\<lambda>_.
     sbind (fld m ''roles'' arr_of) (\<lambda>roles_a.
     sbind (fld m ''id'' id_of) (\<lambda>id.
     sbind (fld m ''uid'' n_of) (\<lambda>uid.
     sbind (mapR (one_of [''runtime'', ''reviewer'', ''operator'', ''auditor''] ''bad role'') roles_a) (\<lambda>roles.
     Inr \<lparr>pr_id = id, pr_uid = uid, pr_roles = roles\<rparr>))))))"

definition valid_principal :: "Principal \<Rightarrow> bool" where
  "valid_principal x \<longleftrightarrow>
     valid_id (pr_id x) \<and>
     pr_uid x \<le> safe_int_max \<and>
     set (pr_roles x) \<subseteq> {''runtime'', ''reviewer'', ''operator'', ''auditor''}"

lemma principal_dec_valid [codec_valid]: "principal_of v = Inr x \<Longrightarrow> valid_principal x"
  by (auto simp: principal_of_def valid_principal_def fld_iff dest!: codec_valid)

lemma principal_list_valid [codec_valid]: "mapR principal_of vs = Inr xs \<Longrightarrow> list_all valid_principal xs"
  by (auto simp: list_all_iff dest: principal_dec_valid elim: mapR_set)

section \<open>Configuration\<close>

record Config =
  cf_tenant :: string
  cf_deployment :: string
  cf_socket :: string
  cf_data_dir :: string
  cf_signer_key_id :: string
  cf_signer_key_epoch :: nat
  cf_signer_key_file :: string
  cf_trust_file :: string
  cf_principals :: "Principal list"
  cf_sources :: "Source list"
  cf_installed_artifacts :: "(Detector \<times> string \<times> string) list"
  cf_certified_profiles :: "string list"
  cf_release :: "Signed option"
  cf_storage_max_bytes :: nat
  cf_storage_warn_bp :: nat
  cf_storage_stop_bp :: nat
  cf_storage_raw_days :: nat
  cf_storage_audit_days :: nat
  cf_object_key_id :: string
  cf_object_key_file :: string

definition artifact_of :: "Value \<Rightarrow> (Detector \<times> string \<times> string) R" where
  "artifact_of a = sbind (obj_of a) (\<lambda>am.
     sbind (closed am [''detector'', ''digest'', ''path'']) (\<lambda>_.
     sbind (fld am ''detector'' (enum_of detector_parse ''bad artifact detector'')) (\<lambda>d.
     sbind (fld am ''digest'' hash_of) (\<lambda>digest.
     sbind (fld am ''path'' text_of) (\<lambda>path. Inr (d, digest, path))))))"

text \<open>\<open>st_field\<close> unwraps: no value is a panic.\<close>

definition st_field :: "(string \<times> Value) list \<Rightarrow> string \<Rightarrow> Value option" where
  "st_field m name = map_of m name"

text \<open>The result \<open>None\<close> is the panic of \<open>st_field\<close>, after every other member has been read.\<close>

definition config_of :: "Crypto \<Rightarrow> Value \<Rightarrow> Config R option" where
  "config_of cr v = (case
     sbind (obj_of v) (\<lambda>m.
     sbind (closed m [''v'', ''tenant'', ''deployment'', ''socket'', ''data_dir'', ''signer'',
       ''trust_file'', ''principals'', ''sources'', ''installed_artifacts'',
       ''certified_profiles'', ''release'', ''storage'']) (\<lambda>_.
     sbind (fld m ''v'' (lit_num 1)) (\<lambda>_.
     sbind (fld m ''deployment'' (one_of [''lab'', ''production''] ''bad deployment'')) (\<lambda>deployment.
     sbind (fld m ''signer'' obj_of) (\<lambda>sm.
     sbind (closed sm [''key_id'', ''key_epoch'', ''key_file'']) (\<lambda>_.
     sbind (fld m ''principals'' arr_of) (\<lambda>principals_a.
     sbind (mapR principal_of principals_a) (\<lambda>principals.
     sbind (fld m ''sources'' arr_of) (\<lambda>sources_a.
     sbind (mapR source_of sources_a) (\<lambda>sources.
     sbind (fld m ''installed_artifacts'' arr_of) (\<lambda>arts_a.
     sbind (fld m ''certified_profiles'' arr_of) (\<lambda>profiles_a.
     sbind (fld m ''storage'' obj_of) (\<lambda>st.
     sbind (closed st [''max_bytes'', ''warn_bp'', ''stop_bp'', ''raw_days'', ''audit_days'',
       ''object_key_id'', ''object_key_file'']) (\<lambda>_.
     sbind (fld m ''release'' (opt_of (signed_of cr))) (\<lambda>release.
     sbind (fld m ''tenant'' id_of) (\<lambda>tenant.
     sbind (fld m ''socket'' text_of) (\<lambda>socket.
     sbind (fld m ''data_dir'' text_of) (\<lambda>data_dir.
     sbind (fld sm ''key_id'' id_of) (\<lambda>signer_key_id.
     sbind (fld sm ''key_epoch'' u_of) (\<lambda>signer_key_epoch.
     sbind (fld sm ''key_file'' text_of) (\<lambda>signer_key_file.
     sbind (fld m ''trust_file'' text_of) (\<lambda>trust_file.
     sbind (mapR artifact_of arts_a) (\<lambda>arts.
     sbind (mapR (one_of [''fixture/1'', ''runtime-guard/1''] ''bad certified profile'') profiles_a) (\<lambda>profiles.
     sbind (fld st ''max_bytes'' u_of) (\<lambda>max_bytes.
     sbind (fld st ''warn_bp'' n_of) (\<lambda>warn_bp.
     sbind (fld st ''stop_bp'' n_of) (\<lambda>stop_bp.
     sbind (fld st ''raw_days'' n_of) (\<lambda>raw_days.
     sbind (fld st ''audit_days'' n_of) (\<lambda>audit_days.
     sbind (fld st ''object_key_id'' id_of) (\<lambda>object_key_id.
     Inr (st, \<lambda>object_key_file.
       \<lparr>cf_tenant = tenant, cf_deployment = deployment, cf_socket = socket, cf_data_dir = data_dir,
        cf_signer_key_id = signer_key_id, cf_signer_key_epoch = signer_key_epoch,
        cf_signer_key_file = signer_key_file, cf_trust_file = trust_file,
        cf_principals = principals, cf_sources = sources, cf_installed_artifacts = arts,
        cf_certified_profiles = profiles, cf_release = release,
        cf_storage_max_bytes = max_bytes, cf_storage_warn_bp = warn_bp,
        cf_storage_stop_bp = stop_bp, cf_storage_raw_days = raw_days,
        cf_storage_audit_days = audit_days, cf_object_key_id = object_key_id,
        cf_object_key_file = object_key_file\<rparr>)))))))))))))))))))))))))))))))
   of Inl e \<Rightarrow> Some (Inl e)
    | Inr (st, build) \<Rightarrow> (case st_field st ''object_key_file'' of
        None \<Rightarrow> None
      | Some fv \<Rightarrow> Some (sbind (text_of fv) (\<lambda>object_key_file. Inr (build object_key_file)))))"

section \<open>Monitor jobs\<close>

definition monitor_job_of :: "Crypto \<Rightarrow> Value \<Rightarrow> unit R" where
  "monitor_job_of cr v = sbind (obj_of v) (\<lambda>m.
     sbind (closed m [''v'', ''job'', ''monitor'', ''policy'', ''observation'', ''intent'',
       ''drift'', ''deadline_ms'']) (\<lambda>_.
     sbind (fld m ''v'' (lit_num 1)) (\<lambda>_.
     sbind (fld m ''job'' id_of) (\<lambda>_.
     sbind (fld m ''monitor'' monitor_of) (\<lambda>_.
     sbind (fld m ''policy'' policy_of) (\<lambda>_.
     sbind (fld m ''observation'' (signed_of cr)) (\<lambda>os.
     sbind (observation_body_of (sd_body os)) (\<lambda>_.
     sbind (fld m ''intent'' (opt_of intent_of)) (\<lambda>_.
     sbind (fld m ''drift'' (opt_of drift_of)) (\<lambda>_.
     sbind (fld m ''deadline_ms'' u_of) (\<lambda>_. Inr ())))))))))))"

end
