(* ===== verification/WideMul.thy ===== *)
theory WideMul
  imports Prelude
begin

text \<open>
  The 256-bit helper of \<open>auditmath.rs\<close>: the 128x128 multiply from 64-bit limbs, the comparison
  and the 256x128 multiply, on \<open>128 word\<close>s. \<open>U256::mul\<close> relies on the wrap-around of the middle
  sum, whose carry it restores.
\<close>

section \<open>The limbs\<close>

record U256 =
  hi256 :: "128 word"
  lo256 :: "128 word"

datatype Ordering = OLess | OEqual | OGreater

definition cmp128 :: "128 word \<Rightarrow> 128 word \<Rightarrow> Ordering" where
  "cmp128 a b = (if a < b then OLess else if a = b then OEqual else OGreater)"

definition u256_mul :: "128 word \<Rightarrow> 128 word \<Rightarrow> U256" where
  "u256_mul a b =
    (let a_lo = take_bit 64 a; a_hi = drop_bit 64 a;
         b_lo = take_bit 64 b; b_hi = drop_bit 64 b;
         ll = a_lo * b_lo; lh = a_lo * b_hi; hl = a_hi * b_lo; hh = a_hi * b_hi;
         mid = lh + hl;
         carry = (if mid < lh then push_bit 64 1 else 0);
         lo = ll + push_bit 64 mid;
         lo_carry = (if lo < ll then 1 else 0);
         hi = hh + drop_bit 64 mid + carry + lo_carry
     in \<lparr>hi256 = hi, lo256 = lo\<rparr>)"

definition u256_cmp :: "U256 \<Rightarrow> U256 \<Rightarrow> Ordering" where
  "u256_cmp x y = (case cmp128 (hi256 x) (hi256 y) of OEqual \<Rightarrow> cmp128 (lo256 x) (lo256 y) | o' \<Rightarrow> o')"

definition mul_u256_u128 :: "U256 \<Rightarrow> 128 word \<Rightarrow> U256" where
  "mul_u256_u128 x y =
    (let lo = u256_mul (lo256 x) y; hi_lo = u256_mul (hi256 x) y
     in \<lparr>hi256 = hi256 lo + lo256 hi_lo, lo256 = lo256 lo\<rparr>)"

definition u256_val :: "U256 \<Rightarrow> nat" where
  "u256_val x = unat (hi256 x) * 2 ^ 128 + unat (lo256 x)"

section \<open>The value of the results\<close>

lemma unat128_less: "unat (w :: 128 word) < 2 ^ 128"
proof -
  have "unat w < 2 ^ LENGTH(128)" by (rule unsigned_less)
  then show ?thesis by simp
qed

lemma unat128_plus: "unat (a + b :: 128 word) = (unat a + unat b) mod 2 ^ 128"
  using unat_word_ariths(1) [of a b] by simp

lemma unat128_mult: "unat (a * b :: 128 word) = (unat a * unat b) mod 2 ^ 128"
  using unat_word_ariths(2) [of a b] by simp

lemma unat_lo64: "unat (take_bit 64 w :: 128 word) = unat w mod 2 ^ 64"
  by (simp only: unsigned_take_bit_eq) (rule take_bit_eq_mod)

lemma unat_hi64: "unat (drop_bit 64 w :: 128 word) = unat w div 2 ^ 64"
  by (simp only: unat_drop_bit_eq) (rule drop_bit_eq_div)

lemma unat_shift64: "unat (push_bit 64 w :: 128 word) = (unat w mod 2 ^ 64) * 2 ^ 64"
proof -
  have "unat (push_bit 64 w :: 128 word) = (unat w * 2 ^ 64) mod 2 ^ 128"
    unfolding unsigned_push_bit_eq by (simp only: take_bit_eq_mod push_bit_eq_mult) simp
  also have "\<dots> = (unat w mod 2 ^ 64) * 2 ^ 64"
    using mod_mult_mult2 [of "unat w" "2 ^ 64" "2 ^ 64"] by simp
  finally show ?thesis .
qed

text \<open>A wrapped sum is smaller than its first summand exactly when it lost \<open>2^128\<close>.\<close>

lemma wrapped_sum:
  assumes "a < N" and "b < (N :: nat)"
  shows "(a + b) mod N + (if (a + b) mod N < a then N else 0) = a + b"
proof (cases "a + b < N")
  case False
  then have "(a + b) mod N = a + b - N" using assms by (simp add: mod_if)
  then show ?thesis using assms False by simp
qed simp

lemma limb_algebra:
  assumes "m + c * (N * N) = lh + (hl :: nat)" and "lo + lc * (N * N) = ll + (m mod N) * N"
  shows "(hh + m div N + c * N + lc) * (N * N) + lo = (hh * N + lh + hl) * N + ll"
proof -
  define k r where kr: "k = m div N" "r = m mod N"
  then have m: "m = k * N + r" by simp
  have "(hh + k + c * N + lc) * (N * N) + lo =
      hh * (N * N) + k * N * N + c * N * (N * N) + (lo + lc * (N * N))"
    by (simp add: algebra_simps)
  also have "\<dots> = hh * (N * N) + k * N * N + c * N * (N * N) + ll + r * N"
    using assms(2) kr by simp
  also have "\<dots> = hh * (N * N) + (k * N + r + c * (N * N)) * N + ll"
    by (simp add: algebra_simps)
  also have "\<dots> = (hh * N + lh + hl) * N + ll"
    unfolding m [symmetric] assms(1) by (simp add: algebra_simps)
  finally show ?thesis by (simp add: kr)
qed

text \<open>
  Remark. The limb-wise multiply returns the exact 256-bit product of any two 128-bit
  numbers.
\<close>

theorem u256_mul_exact: "u256_val (u256_mul a b) = unat a * unat b"
proof -
  define N :: nat where "N = 2 ^ 64"
  have NN: "N * N = 2 ^ 128" by (simp add: N_def)
  define A0 A1 B0 B1 where defs: "A0 = unat a mod N" "A1 = unat a div N" "B0 = unat b mod N" "B1 = unat b div N"
  have N0: "0 < N" by (simp add: N_def)
  have less: "A0 < N" "A1 < N" "B0 < N" "B1 < N"
    unfolding defs using unat128_less [of a] unat128_less [of b] N0 NN
    by (simp_all add: less_mult_imp_div_less)
  have prod: "x * y < N * N" if "x < N" "y < N" for x y
    using that by (simp add: mult_strict_mono')
  let ?a_lo = "take_bit 64 a" and ?a_hi = "drop_bit 64 a"
    and ?b_lo = "take_bit 64 b" and ?b_hi = "drop_bit 64 b"
  have ua: "unat ?a_lo = A0" "unat ?a_hi = A1" "unat ?b_lo = B0" "unat ?b_hi = B1"
    by (simp_all add: defs N_def unat_lo64 unat_hi64)
  define ll lh hl hh where w: "ll = ?a_lo * ?b_lo" "lh = ?a_lo * ?b_hi" "hl = ?a_hi * ?b_lo" "hh = ?a_hi * ?b_hi"
  have uw: "unat ll = A0 * B0" "unat lh = A0 * B1" "unat hl = A1 * B0" "unat hh = A1 * B1"
    unfolding w unat128_mult ua NN [symmetric] using less by (simp_all add: prod)
  define mid lo where ml: "mid = lh + hl" "lo = ll + push_bit 64 mid"
  define c lc :: nat where cs: "c = (if mid < lh then 1 else 0)" "lc = (if lo < ll then 1 else 0)"
  have um: "unat mid = (A0 * B1 + A1 * B0) mod (N * N)"
    unfolding ml unat128_plus uw NN ..
  have mid_eq: "unat mid + c * (N * N) = A0 * B1 + A1 * B0"
    using wrapped_sum [OF prod prod, OF less(1,4,2,3)]
    unfolding um cs word_less_nat_alt uw by (auto simp: um [symmetric] split: if_splits)
  have ul: "unat lo = (A0 * B0 + (unat mid mod N) * N) mod (N * N)"
    unfolding ml(2) unat128_plus unat_shift64 uw NN unfolding N_def ..
  have lo_eq: "unat lo + lc * (N * N) = A0 * B0 + (unat mid mod N) * N"
    using wrapped_sum [OF prod [OF less(1,3)] prod [OF mod_less_divisor [OF N0, of "unat mid"], of "N - 1"]]
      wrapped_sum [of "A0 * B0" "N * N" "(unat mid mod N) * N"] prod [OF less(1,3)] N0
    unfolding ul cs word_less_nat_alt uw by (auto simp: ul [symmetric] split: if_splits)
  define H where "H = A1 * B1 + unat mid div N + c * N + lc"
  have val: "H * (N * N) + unat lo = unat a * unat b"
  proof -
    have "unat a = A1 * N + A0" "unat b = B1 * N + B0" by (simp_all add: defs)
    then have "unat a * unat b = (A1 * B1 * N + A0 * B1 + A1 * B0) * N + A0 * B0"
      by (simp add: algebra_simps)
    then show ?thesis using limb_algebra [OF mid_eq lo_eq, of "A1 * B1"] by (simp add: H_def)
  qed
  have "unat a * unat b < (N * N) * (N * N)"
    unfolding NN by (intro mult_strict_mono' unat128_less) simp_all
  then have "H * (N * N) < (N * N) * (N * N)" using val by linarith
  then have H: "H < N * N" using N0 by simp
  have "unat (hh + drop_bit 64 mid + (if mid < lh then push_bit 64 1 else 0) + (if lo < ll then 1 else 0)) =
      H mod (N * N)"
    unfolding unat128_plus uw unat_hi64 H_def NN cs
    by (auto simp: unat_shift64 N_def mod_simps)
  then have hi: "unat (hh + drop_bit 64 mid + (if mid < lh then push_bit 64 1 else 0) + (if lo < ll then 1 else 0)) = H"
    using H by simp
  show ?thesis
    using val unfolding u256_val_def u256_mul_def Let_def w [symmetric] ml [symmetric] NN [symmetric]
    by (simp add: hi)
qed

lemma u256_val_less: "u256_val x < 2 ^ 256"
proof -
  have "u256_val x < (unat (hi256 x) + 1) * 2 ^ 128"
    using unat128_less [of "lo256 x"] by (simp add: u256_val_def)
  also have "\<dots> \<le> 2 ^ 128 * 2 ^ 128"
    using unat128_less [of "hi256 x"] by (intro mult_right_mono) simp_all
  finally show ?thesis by simp
qed

lemma mod_pair: "l < N \<Longrightarrow> (s * N + l) mod (N * N) = (s mod N) * N + (l :: nat)"
  by (subst mod_mult2_eq) simp

text \<open>
  Remark. The 256x128 multiply is the product modulo 2^256, hence exact while the
  product stays below.
\<close>

theorem mul_u256_u128_mod: "u256_val (mul_u256_u128 x y) = (u256_val x * unat y) mod 2 ^ 256"
proof -
  define N :: nat where "N = 2 ^ 128"
  have NN: "2 ^ 256 = N * N" by (simp add: N_def)
  let ?l = "u256_mul (lo256 x) y" and ?h = "u256_mul (hi256 x) y"
  have l: "unat (hi256 ?l) * N + unat (lo256 ?l) = unat (lo256 x) * unat y"
    and h: "unat (hi256 ?h) * N + unat (lo256 ?h) = unat (hi256 x) * unat y"
    using u256_mul_exact [of "lo256 x" y] u256_mul_exact [of "hi256 x" y]
    by (simp_all add: u256_val_def N_def)
  have "u256_val x * unat y = unat (hi256 x) * unat y * N + unat (lo256 x) * unat y"
    by (simp add: u256_val_def N_def algebra_simps)
  also have "\<dots> = unat (hi256 ?h) * (N * N) + ((unat (hi256 ?l) + unat (lo256 ?h)) * N + unat (lo256 ?l))"
    unfolding l [symmetric] h [symmetric] by (simp add: algebra_simps)
  finally have "(u256_val x * unat y) mod (N * N) =
      ((unat (hi256 ?l) + unat (lo256 ?h)) * N + unat (lo256 ?l)) mod (N * N)"
    by simp
  also have "\<dots> = ((unat (hi256 ?l) + unat (lo256 ?h)) mod N) * N + unat (lo256 ?l)"
    using unat128_less [of "lo256 ?l"] by (intro mod_pair) (simp add: N_def)
  finally show ?thesis
    unfolding NN u256_val_def mul_u256_u128_def Let_def U256.simps unat128_plus N_def [symmetric]
    by simp
qed

lemma u256_cmp_val:
  "u256_cmp x y = OLess \<longleftrightarrow> u256_val x < u256_val y"
  "u256_cmp x y = OGreater \<longleftrightarrow> u256_val x > u256_val y"
proof -
  have lex: "h * N + l < h' * N + l' \<longleftrightarrow> h < h' \<or> h = h' \<and> l < l'"
    if "l < N" "l' < (N :: nat)" for h l h' l' N
  proof (cases h h' rule: linorder_cases)
    case less
    then have "(h + 1) * N \<le> h' * N" by (intro mult_right_mono) simp_all
    then show ?thesis using less that by simp
  next
    case greater
    then have "(h' + 1) * N \<le> h * N" by (intro mult_right_mono) simp_all
    then show ?thesis using greater that by simp
  qed simp
  show "u256_cmp x y = OLess \<longleftrightarrow> u256_val x < u256_val y"
    using lex [OF unat128_less unat128_less, of "unat (hi256 x)" "lo256 x" "unat (hi256 y)" "lo256 y"]
    by (auto simp: u256_cmp_def cmp128_def u256_val_def word_less_nat_alt word_unat_eq_iff split: if_splits)
  show "u256_cmp x y = OGreater \<longleftrightarrow> u256_val x > u256_val y"
    using lex [OF unat128_less unat128_less, of "unat (hi256 y)" "lo256 y" "unat (hi256 x)" "lo256 x"]
    by (auto simp: u256_cmp_def cmp128_def u256_val_def word_less_nat_alt word_unat_eq_iff split: if_splits)
qed

end
