(* ===== verification/Wilson.thy ===== *)
theory Wilson
  imports WideMul Complex_Main
begin

text \<open>
  The 95 percent Wilson interval of \<open>auditmath.rs\<close>. The endpoints are found by adjusting a
  floating-point estimate with exact 256-bit comparisons; the estimate is a parameter here (the
  two functions of the record \<open>Estimates\<close>), and the theorem holds for every estimate of bounded
  size. \<open>i128\<close> values are \<open>int\<close>s with the wrap-around of the release profile written out. A loop
  that did not end would be the value \<open>None\<close>.
\<close>

section \<open>Integers\<close>

definition i128 :: "int \<Rightarrow> int" where
  "i128 x = (x + 2 ^ 127) mod 2 ^ 128 - 2 ^ 127"

definition sat_mul128 :: "128 word \<Rightarrow> 128 word \<Rightarrow> 128 word" where
  "sat_mul128 a b = word_of_nat (min (unat a * unat b) (2 ^ 128 - 1))"

lemma i128_exact: "- (2 ^ 127) \<le> x \<Longrightarrow> x < 2 ^ 127 \<Longrightarrow> i128 x = x"
  by (simp add: i128_def)

section \<open>The search\<close>

definition u_squared_cmp_vs :: "int \<Rightarrow> int \<Rightarrow> 128 word \<Rightarrow> 128 word \<Rightarrow> Ordering" where
  "u_squared_cmp_vs r_num r_den m e =
    (let rn = word_of_int \<bar>r_num\<bar>; rd = word_of_int r_den;
         rne = u256_mul rn e;
         left = mul_u256_u128 rne (sat_mul128 rn e);
         rhs_a = u256_mul 2401000000000000 m;
         right = mul_u256_u128 rhs_a (sat_mul128 rd rd)
     in u256_cmp left right)"

partial_function (option) minus_up :: "int \<Rightarrow> int \<Rightarrow> 128 word \<Rightarrow> 128 word \<Rightarrow> int \<Rightarrow> int option" where
  "minus_up rn rd m e q =
    (let diff_num = i128 (rn - i128 (i128 (q + 1) * rd)) in
     if diff_num < 0 then Some q
     else if u_squared_cmp_vs diff_num rd m e \<noteq> OLess then minus_up rn rd m e (i128 (q + 1))
     else Some q)"

partial_function (option) minus_down :: "int \<Rightarrow> int \<Rightarrow> 128 word \<Rightarrow> 128 word \<Rightarrow> int \<Rightarrow> int option" where
  "minus_down rn rd m e q =
    (let diff_num = i128 (rn - i128 (q * rd)) in
     if diff_num < 0 \<or> u_squared_cmp_vs diff_num rd m e = OLess
     then minus_down rn rd m e (i128 (q - 1)) else Some q)"

partial_function (option) plus_up :: "int \<Rightarrow> int \<Rightarrow> 128 word \<Rightarrow> 128 word \<Rightarrow> int \<Rightarrow> int option" where
  "plus_up rn rd m e q =
    (let diff_num = i128 (i128 (i128 (q + 1) * rd) - rn) in
     if diff_num \<le> 0 then plus_up rn rd m e (i128 (q + 1))
     else if u_squared_cmp_vs diff_num rd m e \<noteq> OGreater then plus_up rn rd m e (i128 (q + 1))
     else Some q)"

partial_function (option) plus_down :: "int \<Rightarrow> int \<Rightarrow> 128 word \<Rightarrow> 128 word \<Rightarrow> int \<Rightarrow> int option" where
  "plus_down rn rd m e q =
    (let diff_num = i128 (i128 (q * rd) - rn) in
     if diff_num > 0 \<and> u_squared_cmp_vs diff_num rd m e = OGreater
     then plus_down rn rd m e (i128 (q - 1)) else Some q)"

text \<open>\<open>(r_est - u_est).floor()\<close> and \<open>(r_est + u_est).floor()\<close> in binary64.\<close>

record Estimates =
  est_minus :: "int \<Rightarrow> int \<Rightarrow> 128 word \<Rightarrow> 128 word \<Rightarrow> int"
  est_plus :: "int \<Rightarrow> int \<Rightarrow> 128 word \<Rightarrow> 128 word \<Rightarrow> int"

definition floor_rat_minus_sqrt :: "Estimates \<Rightarrow> int \<Rightarrow> int \<Rightarrow> 128 word \<Rightarrow> 128 word \<Rightarrow> int option" where
  "floor_rat_minus_sqrt es rn rd m e =
     Option.bind (minus_up rn rd m e (est_minus es rn rd m e)) (minus_down rn rd m e)"

definition floor_rat_plus_sqrt :: "Estimates \<Rightarrow> int \<Rightarrow> int \<Rightarrow> 128 word \<Rightarrow> 128 word \<Rightarrow> int option" where
  "floor_rat_plus_sqrt es rn rd m e =
     Option.bind (plus_up rn rd m e (est_plus es rn rd m e)) (plus_down rn rd m e)"

definition clip :: "int \<Rightarrow> nat" where
  "clip q = (if q < 0 then 0 else if q > 1000000 then 1000000 else nat q)"

text \<open>The outer \<open>option\<close> is the loops' termination, the inner one the result of the source.\<close>

definition wilson_endpoints :: "Estimates \<Rightarrow> nat \<Rightarrow> nat \<Rightarrow> (nat \<times> nat) option option" where
  "wilson_endpoints es num den =
    (if den = 0 then Some None else
     let num = word_of_nat num :: 128 word;
         den = word_of_nat den :: 128 word;
         m = den * (2500 * num * (den - num) + 2401 * den);
         cn = 1000000 * (1250 * num + 2401);
         cd = 2 * (625 * den + 2401);
         e = 2 * den * (625 * den + 2401);
         rn = sint (2 * cn + cd);
         rd = sint (2 * cd)
     in Option.bind (floor_rat_minus_sqrt es rn rd m e) (\<lambda>low.
        Option.bind (floor_rat_plus_sqrt es rn rd m e) (\<lambda>high.
        Some (Some (clip low, clip high)))))"

section \<open>Exactness of the comparison\<close>

definition in_range :: "int \<Rightarrow> 128 word \<Rightarrow> 128 word \<Rightarrow> bool" where
  "in_range rd m e \<longleftrightarrow> 0 < rd \<and> rd \<le> 2 ^ 33 \<and> 0 < unat e \<and> unat e \<le> 2 ^ 51 \<and> unat m \<le> 2 ^ 72"

definition radius :: "nat \<Rightarrow> nat \<Rightarrow> real" where
  "radius m e = 49000000 * sqrt (real m) / real e"

lemma unat_word128: "x < 2 ^ 128 \<Longrightarrow> unat (word_of_nat x :: 128 word) = x"
  by (simp add: unat_of_nat)

lemma unat_sat_mul128: "unat a * unat b < 2 ^ 128 \<Longrightarrow> unat (sat_mul128 a b) = unat a * unat b"
proof -
  assume h: "unat a * unat b < 2 ^ 128"
  then have "min (unat a * unat b) (2 ^ 128 - 1) = unat a * unat b" by simp
  then show "unat (sat_mul128 a b) = unat a * unat b"
    unfolding sat_mul128_def by (simp only: unat_word128 [OF h])
qed

lemma cmp_by_order:
  "(ord = OLess \<longleftrightarrow> l < (r :: nat)) \<Longrightarrow> (ord = OGreater \<longleftrightarrow> r < l) \<Longrightarrow>
     ord = (if l < r then OLess else if l = r then OEqual else OGreater)"
  by (cases ord) auto

lemma u_squared_cmp_exact:
  assumes "in_range rd m e" and "0 \<le> x" and "x \<le> 2 ^ 66"
  shows "u_squared_cmp_vs x rd m e =
      (let l = (nat x * unat e) ^ 2; r = 2401000000000000 * unat m * nat rd ^ 2
       in if l < r then OLess else if l = r then OEqual else OGreater)"
proof -
  define X D where XD: "X = nat x" "D = nat rd"
  have b: "X \<le> 2 ^ 66" "D \<le> 2 ^ 33" "unat e \<le> 2 ^ 51" "unat m \<le> 2 ^ 72"
    using assms by (simp_all add: in_range_def XD nat_le_iff)
  have wx: "(word_of_int \<bar>x\<bar> :: 128 word) = word_of_nat X" "(word_of_int rd :: 128 word) = word_of_nat D"
    using assms by (simp_all add: XD in_range_def)
  have ux: "unat (word_of_nat X :: 128 word) = X" "unat (word_of_nat D :: 128 word) = D"
    using b by (simp_all add: unat_word128)
  have xe: "X * unat e \<le> 2 ^ 66 * 2 ^ 51" using b by (intro mult_mono) simp_all
  have dd: "D * D \<le> 2 ^ 33 * 2 ^ 33" using b by (intro mult_mono) simp_all
  have sat: "unat (sat_mul128 (word_of_nat X) e) = X * unat e"
      "unat (sat_mul128 (word_of_nat D) (word_of_nat D)) = D * D"
    using xe dd by (subst unat_sat_mul128; simp add: ux)+
  have left: "u256_val (mul_u256_u128 (u256_mul (word_of_nat X) e) (sat_mul128 (word_of_nat X) e)) =
      (X * unat e) ^ 2"
  proof -
    have "(X * unat e) * (X * unat e) \<le> (2 ^ 66 * 2 ^ 51) * (2 ^ 66 * 2 ^ 51)"
      by (rule mult_mono [OF xe xe]) simp_all
    then show ?thesis
      by (simp add: mul_u256_u128_mod u256_mul_exact ux sat power2_eq_square)
  qed
  have k: "unat (2401000000000000 :: 128 word) = 2401000000000000" by simp
  have right: "u256_val (mul_u256_u128 (u256_mul 2401000000000000 m) (sat_mul128 (word_of_nat D) (word_of_nat D))) =
      2401000000000000 * unat m * D ^ 2"
  proof -
    have "2401000000000000 * unat m * (D * D) \<le> 2401000000000000 * 2 ^ 72 * (2 ^ 33 * 2 ^ 33)"
      using b dd by (intro mult_mono) simp_all
    then have "2401000000000000 * unat m * (D * D) < 2 ^ 256"
      by (rule le_less_trans) simp
    then show ?thesis
      by (simp only: mul_u256_u128_mod u256_mul_exact sat k power2_eq_square mod_less)
  qed
  show ?thesis
    unfolding u_squared_cmp_vs_def Let_def wx XD [symmetric]
    using cmp_by_order [of _ "(X * unat e) ^ 2" "2401000000000000 * unat m * D ^ 2"]
      u256_cmp_val [unfolded Let_def, of "mul_u256_u128 (u256_mul (word_of_nat X) e) (sat_mul128 (word_of_nat X) e)"
        "mul_u256_u128 (u256_mul 2401000000000000 m) (sat_mul128 (word_of_nat D) (word_of_nat D))"]
    unfolding left right by blast
qed

lemma square_less_iff: "0 \<le> a \<Longrightarrow> 0 \<le> b \<Longrightarrow> a < b \<longleftrightarrow> a ^ 2 < (b :: real) ^ 2"
  using power_strict_mono [of a b 2] power_less_imp_less_base [of a 2 b] by auto

lemma radius_compare:
  fixes m e :: nat
  assumes "0 < rd" and "0 < e" and "0 \<le> x"
  shows "real_of_int x / real_of_int rd < radius m e \<longleftrightarrow>
      (nat x * e) ^ 2 < 2401000000000000 * m * nat rd ^ 2"
    and "real_of_int x / real_of_int rd > radius m e \<longleftrightarrow>
      (nat x * e) ^ 2 > 2401000000000000 * m * nat rd ^ 2"
proof -
  have pos: "0 < real_of_int rd" "0 < real e" using assms by simp_all
  define a b where ab: "a = real_of_int x * real e"
    "b = 49000000 * sqrt (real m) * real_of_int rd"
  have nn: "0 \<le> a" "0 \<le> b" using assms pos by (simp_all add: ab)
  have a2: "a ^ 2 = real ((nat x * e) ^ 2)"
    using assms by (simp add: ab power_mult_distrib)
  have b2: "b ^ 2 = real (2401000000000000 * m * nat rd ^ 2)"
    using assms(1) by (simp add: ab power_mult_distrib)
  have "real_of_int x / real_of_int rd < radius m e \<longleftrightarrow> a < b"
    using pos by (simp add: radius_def ab field_simps)
  also have "\<dots> \<longleftrightarrow> a ^ 2 < b ^ 2" by (rule square_less_iff [OF nn])
  finally show "real_of_int x / real_of_int rd < radius m e \<longleftrightarrow>
      (nat x * e) ^ 2 < 2401000000000000 * m * nat rd ^ 2"
    unfolding a2 b2 of_nat_less_iff .
  have "real_of_int x / real_of_int rd > radius m e \<longleftrightarrow> b < a"
    using pos by (simp add: radius_def ab field_simps)
  also have "\<dots> \<longleftrightarrow> b ^ 2 < a ^ 2" by (rule square_less_iff [OF nn(2,1)])
  finally show "real_of_int x / real_of_int rd > radius m e \<longleftrightarrow>
      (nat x * e) ^ 2 > 2401000000000000 * m * nat rd ^ 2"
    unfolding a2 b2 of_nat_less_iff .
qed

lemma cmp_radius:
  assumes "in_range rd m e" and "0 \<le> x" and "x \<le> 2 ^ 66"
  shows "u_squared_cmp_vs x rd m e = OLess \<longleftrightarrow> real_of_int x / real_of_int rd < radius (unat m) (unat e)"
    and "u_squared_cmp_vs x rd m e = OGreater \<longleftrightarrow> real_of_int x / real_of_int rd > radius (unat m) (unat e)"
  using radius_compare [of rd "unat e" x "unat m"] assms by (auto simp: u_squared_cmp_exact [OF assms] Let_def in_range_def)

section \<open>The loops\<close>

definition near :: "int \<Rightarrow> int \<Rightarrow> bool" where
  "near rn q \<longleftrightarrow> \<bar>rn\<bar> \<le> 2 ^ 52 \<and> \<bar>q\<bar> \<le> 2 ^ 32"

lemma near_bounds:
  assumes "near rn q" and "0 < rd" and "rd \<le> 2 ^ 33"
  shows "\<bar>q * rd\<bar> \<le> 2 ^ 65" and "\<bar>rn - q * rd\<bar> \<le> 2 ^ 66"
proof -
  have "\<bar>q\<bar> * \<bar>rd\<bar> \<le> 2 ^ 32 * 2 ^ 33"
    using assms by (intro mult_mono) (simp_all add: near_def)
  then show qr: "\<bar>q * rd\<bar> \<le> 2 ^ 65" by (simp add: abs_mult)
  show "\<bar>rn - q * rd\<bar> \<le> 2 ^ 66" using qr assms(1) by (simp add: near_def abs_le_iff)
qed

lemma diff_exact:
  assumes "near rn q" and "in_range rd m e"
  shows "i128 (rn - i128 (q * rd)) = rn - q * rd" and "i128 (i128 (q * rd) - rn) = q * rd - rn"
    and "\<bar>rn - q * rd\<bar> \<le> 2 ^ 66"
proof -
  have rd: "0 < rd" "rd \<le> 2 ^ 33" using assms(2) by (simp_all add: in_range_def)
  note b = near_bounds [OF assms(1) rd]
  have "i128 (q * rd) = q * rd" using b(1) by (intro i128_exact) (simp_all add: abs_le_iff)
  moreover have "i128 (rn - q * rd) = rn - q * rd" using b(2) by (intro i128_exact) (simp_all add: abs_le_iff)
  moreover have "i128 (q * rd - rn) = q * rd - rn" using b(2) by (intro i128_exact) (simp_all add: abs_le_iff)
  ultimately show "i128 (rn - i128 (q * rd)) = rn - q * rd" "i128 (i128 (q * rd) - rn) = q * rd - rn"
    by simp_all
  show "\<bar>rn - q * rd\<bar> \<le> 2 ^ 66" by (rule b(2))
qed

lemma i128_near: "\<bar>q\<bar> \<le> 2 ^ 32 \<Longrightarrow> i128 (q + 1) = q + 1" "\<bar>q\<bar> \<le> 2 ^ 32 \<Longrightarrow> i128 (q - 1) = q - 1"
  by (auto intro!: i128_exact simp: abs_le_iff)

lemma quotient_diff:
  "0 < rd \<Longrightarrow> real_of_int (rn - q * rd) / real_of_int rd = real_of_int rn / real_of_int rd - real_of_int q"
  "0 < rd \<Longrightarrow> real_of_int (q * rd - rn) / real_of_int rd = real_of_int q - real_of_int rn / real_of_int rd"
  by (simp_all add: field_simps)

lemma radius_nonneg: "0 \<le> radius m e"
  by (simp add: radius_def)

lemma minus_test:
  assumes "near rn q" and "in_range rd m e"
  shows "(rn - q * rd < 0 \<or> u_squared_cmp_vs (rn - q * rd) rd m e = OLess) \<longleftrightarrow>
     \<not> q \<le> \<lfloor>real_of_int rn / real_of_int rd - radius (unat m) (unat e)\<rfloor>"
proof -
  have rd: "0 < rd" using assms(2) by (simp add: in_range_def)
  have le: "q \<le> \<lfloor>real_of_int rn / real_of_int rd - radius (unat m) (unat e)\<rfloor> \<longleftrightarrow>
      radius (unat m) (unat e) \<le> real_of_int (rn - q * rd) / real_of_int rd"
    by (simp only: le_floor_iff quotient_diff [OF rd]) linarith
  show ?thesis
  proof (cases "rn - q * rd < 0")
    case True
    then have "real_of_int (rn - q * rd) / real_of_int rd < 0"
      using rd by (simp add: divide_neg_pos del: of_int_diff of_int_mult)
    then show ?thesis using True le radius_nonneg [of "unat m" "unat e"] by linarith
  next
    case False
    then show ?thesis using cmp_radius(1) [OF assms(2), of "rn - q * rd"] diff_exact(3) [OF assms] le
      by (simp del: of_int_diff of_int_mult add: not_less) linarith
  qed
qed

lemma plus_test:
  assumes "near rn q" and "in_range rd m e"
  shows "(q * rd - rn > 0 \<and> u_squared_cmp_vs (q * rd - rn) rd m e = OGreater) \<longleftrightarrow>
     \<not> q \<le> \<lfloor>real_of_int rn / real_of_int rd + radius (unat m) (unat e)\<rfloor>"
proof -
  have rd: "0 < rd" using assms(2) by (simp add: in_range_def)
  have le: "q \<le> \<lfloor>real_of_int rn / real_of_int rd + radius (unat m) (unat e)\<rfloor> \<longleftrightarrow>
      real_of_int (q * rd - rn) / real_of_int rd \<le> radius (unat m) (unat e)"
    by (simp only: le_floor_iff quotient_diff [OF rd]) linarith
  show ?thesis
  proof (cases "q * rd - rn > 0")
    case False
    then have "real_of_int (q * rd - rn) / real_of_int rd \<le> 0"
      using rd by (simp add: divide_nonpos_pos del: of_int_diff of_int_mult)
    then show ?thesis using False le radius_nonneg [of "unat m" "unat e"] by linarith
  next
    case True
    moreover have "q * rd - rn \<le> 2 ^ 66" using diff_exact(3) [OF assms] by linarith
    ultimately show ?thesis using cmp_radius(2) [OF assms(2), of "q * rd - rn"] le
      by (simp del: of_int_diff of_int_mult add: not_less) linarith
  qed
qed

lemma minus_up_result:
  assumes "in_range rd m e" and "near rn q" and "\<bar>F\<bar> < 2 ^ 32"
    and "F = \<lfloor>real_of_int rn / real_of_int rd - radius (unat m) (unat e)\<rfloor>" and "\<bar>q\<bar> < 2 ^ 32"
  shows "minus_up rn rd m e q = Some (max q F)"
  using assms(2,5)
proof (induction "nat (F - q)" arbitrary: q)
  case 0
  then have n: "near rn (q + 1)" by (simp add: near_def abs_le_iff abs_less_iff)
  show ?case
    using minus_test [OF n assms(1), folded assms(4)] diff_exact(1) [OF n assms(1)] 0
    by (subst minus_up.simps) (auto simp: Let_def i128_near near_def)
next
  case (Suc k)
  then have n: "near rn (q + 1)" by (simp add: near_def abs_le_iff abs_less_iff)
  have "q < F" using Suc.hyps(2) by simp
  then have "\<bar>q + 1\<bar> < 2 ^ 32" using Suc.prems assms(3) by (simp only: abs_less_iff) linarith
  moreover have "k = nat (F - (q + 1))" using Suc.hyps(2) by simp
  ultimately have IH: "minus_up rn rd m e (q + 1) = Some (max (q + 1) F)"
    using Suc.hyps(1) n by blast
  have le: "q + 1 \<le> F" using Suc.hyps(2) by simp
  show ?case
    using minus_test [OF n assms(1), folded assms(4)] diff_exact(1) [OF n assms(1)] Suc.prems IH le
    by (subst minus_up.simps) (auto simp: Let_def i128_near near_def)
qed

lemma minus_down_result:
  assumes "in_range rd m e" and "near rn q" and "\<bar>F\<bar> < 2 ^ 32"
    and "F = \<lfloor>real_of_int rn / real_of_int rd - radius (unat m) (unat e)\<rfloor>" and "F \<le> q"
  shows "minus_down rn rd m e q = Some F"
  using assms(2,5)
proof (induction "nat (q - F)" arbitrary: q)
  case 0
  then show ?case
    using minus_test [OF 0(2) assms(1), folded assms(4)] diff_exact(1) [OF 0(2) assms(1)]
    by (subst minus_down.simps) (auto simp: Let_def)
next
  case (Suc k)
  then have n: "near rn (q - 1)" using assms(3) by (simp add: near_def abs_le_iff abs_less_iff)
  have IH: "minus_down rn rd m e (q - 1) = Some F"
    using Suc.hyps(1) [of "q - 1"] Suc.hyps(2) n by simp
  show ?case
    using minus_test [OF Suc.prems(1) assms(1), folded assms(4)] diff_exact(1) [OF Suc.prems(1) assms(1)]
      IH Suc.hyps(2) Suc.prems(1)
    by (subst minus_down.simps) (auto simp: Let_def i128_near near_def)
qed

lemma plus_up_result:
  assumes "in_range rd m e" and "near rn q" and "\<bar>F\<bar> < 2 ^ 32"
    and "F = \<lfloor>real_of_int rn / real_of_int rd + radius (unat m) (unat e)\<rfloor>" and "\<bar>q\<bar> < 2 ^ 32"
  shows "plus_up rn rd m e q = Some (max q F)"
  using assms(2,5)
proof (induction "nat (F - q)" arbitrary: q)
  case 0
  then have n: "near rn (q + 1)" by (simp add: near_def abs_le_iff abs_less_iff)
  show ?case
    using plus_test [OF n assms(1), folded assms(4)] diff_exact(2) [OF n assms(1)] 0
    by (subst plus_up.simps) (auto simp: Let_def i128_near near_def)
next
  case (Suc k)
  then have n: "near rn (q + 1)" by (simp add: near_def abs_le_iff abs_less_iff)
  have "q < F" using Suc.hyps(2) by simp
  then have "\<bar>q + 1\<bar> < 2 ^ 32" using Suc.prems assms(3) by (simp only: abs_less_iff) linarith
  moreover have "k = nat (F - (q + 1))" using Suc.hyps(2) by simp
  ultimately have IH: "plus_up rn rd m e (q + 1) = Some (max (q + 1) F)"
    using Suc.hyps(1) n by blast
  have le: "q + 1 \<le> F" using Suc.hyps(2) by simp
  show ?case
    using plus_test [OF n assms(1), folded assms(4)] diff_exact(2) [OF n assms(1)] Suc.prems IH le
    by (subst plus_up.simps) (auto simp: Let_def i128_near near_def not_less)
qed

lemma plus_down_result:
  assumes "in_range rd m e" and "near rn q" and "\<bar>F\<bar> < 2 ^ 32"
    and "F = \<lfloor>real_of_int rn / real_of_int rd + radius (unat m) (unat e)\<rfloor>" and "F \<le> q"
  shows "plus_down rn rd m e q = Some F"
  using assms(2,5)
proof (induction "nat (q - F)" arbitrary: q)
  case 0
  then show ?case
    using plus_test [OF 0(2) assms(1), folded assms(4)] diff_exact(2) [OF 0(2) assms(1)]
    by (subst plus_down.simps) (auto simp: Let_def)
next
  case (Suc k)
  then have n: "near rn (q - 1)" using assms(3) by (simp add: near_def abs_le_iff abs_less_iff)
  have IH: "plus_down rn rd m e (q - 1) = Some F"
    using Suc.hyps(1) [of "q - 1"] Suc.hyps(2) n by simp
  show ?case
    using plus_test [OF Suc.prems(1) assms(1), folded assms(4)] diff_exact(2) [OF Suc.prems(1) assms(1)]
      IH Suc.hyps(2) Suc.prems(1)
    by (subst plus_down.simps) (auto simp: Let_def i128_near near_def)
qed

section \<open>The endpoints\<close>

text \<open>The Wilson score interval of \<open>n\<close> successes in \<open>k\<close> trials at \<open>z = 1.96\<close>.\<close>

definition wilson_center :: "nat \<Rightarrow> nat \<Rightarrow> real" where
  "wilson_center n k = (let p = real n / real k; z = 1.96 in
     (p + z ^ 2 / (2 * real k)) / (1 + z ^ 2 / real k))"

definition wilson_half :: "nat \<Rightarrow> nat \<Rightarrow> real" where
  "wilson_half n k = (let p = real n / real k; z = 1.96 in
     z / (1 + z ^ 2 / real k) * sqrt (p * (1 - p) / real k + z ^ 2 / (4 * real k ^ 2)))"

definition W_m :: "nat \<Rightarrow> nat \<Rightarrow> nat" where "W_m n k = k * (2500 * n * (k - n) + 2401 * k)"
definition W_e :: "nat \<Rightarrow> nat" where "W_e k = 2 * k * (625 * k + 2401)"
definition W_rn :: "nat \<Rightarrow> nat \<Rightarrow> nat" where
  "W_rn n k = 2 * (1000000 * (1250 * n + 2401)) + 2 * (625 * k + 2401)"
definition W_rd :: "nat \<Rightarrow> nat" where "W_rd k = 2 * (2 * (625 * k + 2401))"

lemma sint_small: "x < 2 ^ 127 \<Longrightarrow> sint (word_of_nat x :: 128 word) = int x"
proof -
  assume x: "x < 2 ^ 127"
  then have "int x < 2 ^ 127" by (simp only: of_nat_less_numeral_power_cancel_iff)
  then have "signed_take_bit 127 (int x) = int x" by (intro signed_take_bit_int_eq_self) simp_all
  then show ?thesis by (simp add: signed_of_nat)
qed

lemma center_eq:
  assumes "0 < k"
  shows "real (W_rn n k) / real (W_rd k) = 1000000 * wilson_center n k + 1 / 2"
proof -
  define a c where ac: "a = real n" "c = real k"
  have pos: "0 < c" "0 < 625 * c + 2401" using assms by (simp_all add: ac add_pos_pos)
  have "a / c + 1.96 ^ 2 / (2 * c) = (1250 * a + 2401) / (1250 * c)"
    "1 + 1.96 ^ 2 / c = (625 * c + 2401) / (625 * c)"
    using pos by (simp_all add: field_simps power2_eq_square)
  then have "wilson_center n k = ((1250 * a + 2401) / (1250 * c)) / ((625 * c + 2401) / (625 * c))"
    by (simp add: wilson_center_def Let_def ac)
  also have "\<dots> = (1250 * a + 2401) / (2 * (625 * c + 2401))"
    using pos by (simp add: divide_simps) (simp add: algebra_simps)
  finally have w: "wilson_center n k = (1250 * a + 2401) / (2 * (625 * c + 2401))" .
  have "real (W_rn n k) = 2000000 * (1250 * a + 2401) + 2 * (625 * c + 2401)"
    "real (W_rd k) = 4 * (625 * c + 2401)" by (simp_all add: W_rn_def W_rd_def ac)
  then show ?thesis unfolding w using pos by (simp add: divide_simps)
qed

lemma half_eq:
  assumes "0 < k" and "n \<le> k"
  shows "radius (W_m n k) (W_e k) = 1000000 * wilson_half n k"
proof -
  define c where "c = real k"
  define a where "a = real n"
  have pos: "0 < c" "0 < 625 * c + 2401" using assms by (simp_all add: c_def add_pos_pos)
  have M: "real (W_m n k) = c * (2500 * a * (c - a) + 2401 * c)"
    using assms by (simp add: W_m_def a_def c_def of_nat_diff)
  have "a / c * (1 - a / c) / c + 1.96 ^ 2 / (4 * c ^ 2) = real (W_m n k) / (50 * c ^ 2) ^ 2"
    unfolding M using pos by (simp add: field_simps power2_eq_square power4_eq_xxxx)
  moreover have "sqrt ((50 * c ^ 2) ^ 2) = 50 * c ^ 2" by (simp only: real_sqrt_abs) simp
  ultimately have "sqrt (a / c * (1 - a / c) / c + 1.96 ^ 2 / (4 * c ^ 2)) = sqrt (real (W_m n k)) / (50 * c ^ 2)"
    by (simp only: real_sqrt_divide)
  then have "wilson_half n k = 1.96 / (1 + 1.96 ^ 2 / c) * (sqrt (real (W_m n k)) / (50 * c ^ 2))"
    by (simp add: wilson_half_def Let_def a_def c_def)
  also have "1.96 / (1 + 1.96 ^ 2 / c) = 1225 * c / (625 * c + 2401)"
    using pos by (simp add: field_simps power2_eq_square)
  also have "1225 * c / (625 * c + 2401) * (sqrt (real (W_m n k)) / (50 * c ^ 2)) =
      49 * sqrt (real (W_m n k)) / (2 * c * (625 * c + 2401))"
    using pos by (simp add: field_simps power2_eq_square)
  finally show ?thesis by (simp add: radius_def W_e_def c_def)
qed

lemma W_bounds:
  assumes "0 < k" and "k \<le> 2 ^ 20" and "n \<le> k"
  shows "W_m n k \<le> 2 ^ 72" and "W_e k \<le> 2 ^ 51" and "0 < W_e k" and "W_rn n k \<le> 2 ^ 52" and "W_rd k \<le> 2 ^ 33"
proof -
  have "2500 * n * (k - n) \<le> 2500 * 2 ^ 20 * 2 ^ 20"
    using assms by (intro mult_mono) simp_all
  then have "k * (2500 * n * (k - n) + 2401 * k) \<le> 2 ^ 20 * (2500 * 2 ^ 20 * 2 ^ 20 + 2401 * 2 ^ 20)"
    using assms by (intro mult_mono add_mono) simp_all
  then show "W_m n k \<le> 2 ^ 72" unfolding W_m_def by (rule le_trans) simp
  have "2 * k * (625 * k + 2401) \<le> 2 * 2 ^ 20 * (625 * 2 ^ 20 + 2401)"
    using assms by (intro mult_mono add_mono) simp_all
  then show "W_e k \<le> 2 ^ 51" unfolding W_e_def by (rule le_trans) simp
  show "0 < W_e k" using assms by (simp add: W_e_def)
  show "W_rn n k \<le> 2 ^ 52" "W_rd k \<le> 2 ^ 33" using assms by (simp_all add: W_rn_def W_rd_def)
qed

lemma endpoint_bounds:
  assumes "0 < k" and "n \<le> k"
  shows "0 \<le> real (W_rn n k) / real (W_rd k)" and "real (W_rn n k) / real (W_rd k) \<le> 1000001"
    and "radius (W_m n k) (W_e k) \<le> 3000000"
proof -
  show "0 \<le> real (W_rn n k) / real (W_rd k)" by simp
  show "real (W_rn n k) / real (W_rd k) \<le> 1000001"
    using assms by (simp add: W_rn_def W_rd_def field_simps)
  have "W_m n k \<le> k * (2500 * k * k + 2401 * k)"
    using assms by (simp add: W_m_def mult_mono)
  also have "\<dots> \<le> k * (2500 * k * k + 2401 * k * k)"
    using assms by (intro mult_left_mono add_left_mono) simp_all
  also have "\<dots> = 4901 * (k * k * k)" by (simp add: algebra_simps)
  also have "\<dots> \<le> 5041 * (k * k * k * k)"
    using assms by (intro mult_mono) simp_all
  also have "\<dots> = (71 * (k * k)) ^ 2" by (simp add: power2_eq_square)
  finally have "real (W_m n k) \<le> (71 * (real k * real k)) ^ 2"
    by (metis of_nat_le_iff of_nat_mult of_nat_numeral of_nat_power)
  then have s: "sqrt (real (W_m n k)) \<le> 71 * (real k * real k)"
    by (intro real_le_lsqrt) simp_all
  have e: "1250 * (real k * real k) \<le> real (W_e k)" by (simp add: W_e_def algebra_simps)
  have "49000000 * sqrt (real (W_m n k)) \<le> 49000000 * (71 * (real k * real k))"
    using s by simp
  also have "\<dots> \<le> 3000000 * (1250 * (real k * real k))" by simp
  also have "\<dots> \<le> 3000000 * real (W_e k)" using e by simp
  finally show "radius (W_m n k) (W_e k) \<le> 3000000"
    using assms unfolding radius_def by (subst pos_divide_le_eq) (simp_all add: W_e_def)
qed

text \<open>
  C32. For at least one and at most 2^20 trials the computation returns, and
  its endpoints are those of the Wilson score interval at z = 1.96: the centre minus and plus the
  half width, in millionths, rounded half up and clipped to 0 and 1. The floating-point estimates
  only decide where the search starts: any estimate of at most 32 bits gives the same result.
\<close>

theorem wilson_endpoints_exact:
  assumes "0 < k" and "k \<le> 2 ^ 20" and "n \<le> k"
    and "\<And>rn rd m e. \<bar>est_minus es rn rd m e\<bar> < 2 ^ 32" and "\<And>rn rd m e. \<bar>est_plus es rn rd m e\<bar> < 2 ^ 32"
  shows "wilson_endpoints es n k = Some (Some
     (clip \<lfloor>1000000 * (wilson_center n k - wilson_half n k) + 1 / 2\<rfloor>,
      clip \<lfloor>1000000 * (wilson_center n k + wilson_half n k) + 1 / 2\<rfloor>))"
proof -
  note b = W_bounds [OF assms(1,2,3)]
  define m e :: "128 word" where me: "m = word_of_nat (W_m n k)" "e = word_of_nat (W_e k)"
  define rn rd where r: "rn = int (W_rn n k)" "rd = int (W_rd k)"
  have um: "unat m = W_m n k" "unat e = W_e k"
    using b unfolding me by (simp_all add: unat_word128)
  have ir: "in_range rd m e" using b unfolding in_range_def um r by (simp add: W_rd_def)
  have rnb: "\<bar>rn\<bar> \<le> 2 ^ 52" using b(4) by (simp add: r)
  have real_r: "real_of_int rn / real_of_int rd = real (W_rn n k) / real (W_rd k)" by (simp add: r)
  define lo hi where lh:
    "lo = \<lfloor>real_of_int rn / real_of_int rd - radius (unat m) (unat e)\<rfloor>"
    "hi = \<lfloor>real_of_int rn / real_of_int rd + radius (unat m) (unat e)\<rfloor>"
  note eb = endpoint_bounds [OF assms(1,3)] and rad = radius_nonneg [of "W_m n k" "W_e k"]
  define x u where xu: "x = real (W_rn n k) / real (W_rd k)" "u = radius (W_m n k) (W_e k)"
  have "0 \<le> x" "x \<le> 1000001" "0 \<le> u" "u \<le> 3000000" using eb rad by (simp_all add: xu)
  then have "-3000001 \<le> lo" "0 \<le> hi" "lo \<le> 1000001" "hi \<le> 4000001"
    unfolding lh real_r um xu [symmetric] le_floor_iff floor_le_iff by simp_all
  then have F: "\<bar>lo\<bar> < 2 ^ 32" "\<bar>hi\<bar> < 2 ^ 32" by (simp_all add: abs_less_iff)
  have near: "near rn q" if "\<bar>q\<bar> < 2 ^ 32" for q using that rnb by (simp add: near_def)
  have low: "floor_rat_minus_sqrt es rn rd m e = Some lo"
    using minus_up_result [OF ir near F(1) lh(1), OF assms(4) assms(4)]
      minus_down_result [OF ir near F(1) lh(1), of "max (est_minus es rn rd m e) lo"] assms(4) F(1)
    by (simp add: floor_rat_minus_sqrt_def max_def)
  have high: "floor_rat_plus_sqrt es rn rd m e = Some hi"
    using plus_up_result [OF ir near F(2) lh(2), OF assms(5) assms(5)]
      plus_down_result [OF ir near F(2) lh(2), of "max (est_plus es rn rd m e) hi"] assms(5) F(2)
    by (simp add: floor_rat_plus_sqrt_def max_def)
  have wm: "word_of_nat k * (2500 * word_of_nat n * (word_of_nat k - word_of_nat n) + 2401 * word_of_nat k) = m"
    using assms(3) by (simp add: me W_m_def of_nat_diff)
  have we: "2 * word_of_nat k * (625 * word_of_nat k + 2401) = e"
    by (simp add: me W_e_def)
  have wrn: "sint (2 * (1000000 * (1250 * word_of_nat n + 2401)) + 2 * (625 * word_of_nat k + 2401) :: 128 word) = rn"
    using sint_small [of "W_rn n k"] b(4) unfolding r by (simp add: W_rn_def)
  have wrd: "sint (2 * (2 * (625 * word_of_nat k + 2401)) :: 128 word) = rd"
    using sint_small [of "W_rd k"] b(5) unfolding r by (simp add: W_rd_def)
  have "wilson_endpoints es n k = Some (Some (clip lo, clip hi))"
    using assms(1) unfolding wilson_endpoints_def Let_def wm we wrn wrd by (simp add: low high)
  moreover have "lo = \<lfloor>1000000 * (wilson_center n k - wilson_half n k) + 1 / 2\<rfloor>"
    "hi = \<lfloor>1000000 * (wilson_center n k + wilson_half n k) + 1 / 2\<rfloor>"
    unfolding lh real_r um center_eq [OF assms(1)] half_eq [OF assms(1,3)] by (simp_all add: algebra_simps)
  ultimately show ?thesis by simp
qed

theorem wilson_endpoints_exact_witness:
  "wilson_endpoints \<lparr>est_minus = \<lambda>_ _ _ _. 0, est_plus = \<lambda>_ _ _ _. 5\<rparr> 3 4 = Some (Some
     (clip \<lfloor>1000000 * (wilson_center 3 4 - wilson_half 3 4) + 1 / 2\<rfloor>,
      clip \<lfloor>1000000 * (wilson_center 3 4 + wilson_half 3 4) + 1 / 2\<rfloor>))"
  by (rule wilson_endpoints_exact) simp_all

end
