(* ===== verification/Samples.thy ===== *)
theory Samples
  imports SchemaReview
begin

text \<open>
  Concrete objects of the wire types, with their validity. The witnesses instantiate the
  theorems at these objects.
\<close>

definition sample_monitor :: "string \<Rightarrow> Detector \<Rightarrow> Monitor" where
  "sample_monitor i det = \<lparr>mo_id = i, mo_detector = det, mo_mode = fst (detector_duty det),
     mo_required = snd (detector_duty det), mo_artifact = zero_hash, mo_deadline_ms = 100\<rparr>"

definition sample_policy :: Policy where
  "sample_policy = \<lparr>pl_id = ''wtp_1'', pl_generation = 1, pl_predecessor = None, pl_tenant = ''lab'',
     pl_allowed_scopes = [''a'', ''b''], pl_cap_minor = 1000, pl_review_at_minor = 500,
     pl_max_replicas = 4, pl_rate_per_window = 1000,
     pl_baseline = \<lparr>bl_id = ''base'', bl_counts = (100, 100, 0, 0), bl_evidence = zero_hash,
       bl_approved_by = ''op'', bl_approved_at_utc = ''t''\<rparr>,
     pl_drift_high_bp = 3000, pl_drift_low_bp = 1000, pl_min_window_samples = 100,
     pl_high_windows = 2, pl_low_windows = 3, pl_freshness_ms = 1000, pl_evaluation_ms = 500,
     pl_clearance_ms = 200, pl_review_ttl_ms = 5000, pl_review_accept_ms = 1000,
     pl_claim_lease_ms = 1000, pl_queue_capacity = 8, pl_per_run_open_reviews = 2,
     pl_monitors = [sample_monitor ''replicas'' Replicas, sample_monitor ''scope'' Scope,
       sample_monitor ''spend'' Spend]\<rparr>"

definition sample_snapshot :: Snapshot where
  "sample_snapshot = \<lparr>sn_committed_minor = 10, sn_reserved_minor = 0, sn_scopes = [''a''],
     sn_replicas = Some 1, sn_target_revision = 1, sn_window = None\<rparr>"

definition sample_boot :: string where
  "sample_boot = ''01234567-89ab-cdef-0123-456789abcdef''"

definition sample_body :: ObservationBody where
  "sample_body = \<lparr>ob_tenant = ''lab'', ob_source = ''s1'', ob_epoch = 1, ob_boot = sample_boot,
     ob_seq = 1, ob_prev = zero_hash, ob_run = ''wtr_1'', ob_cut_ms = 100,
     ob_snapshot = sample_snapshot, ob_signal = None, ob_lineage = []\<rparr>"

definition sample_intent :: Intent where
  "sample_intent = \<lparr>it_action = ''act'', it_request_hash = zero_hash, it_tool = ''record.write'',
     it_target_revision = 1, it_authority_hash = zero_hash, it_scopes = [''a''], it_cost_minor = 5\<rparr>"

lemma sample_monitor_valid [simp]: "valid_id i \<Longrightarrow> valid_monitor (sample_monitor i det)"
  by (simp add: valid_monitor_def sample_monitor_def detector_duty_def safe_int_max_def)

lemma valid_id_samples [simp]:
  "valid_id ''a''" "valid_id ''b''" "valid_id ''lab''" "valid_id ''op''" "valid_id ''s1''" "valid_id ''act''"
  "valid_id ''base''" "valid_id ''wtp_1''" "valid_id ''wtr_1''" "valid_id ''replicas''"
  "valid_id ''scope''" "valid_id ''spend''"
  by (simp_all add: valid_id_def id_char_def Let_def)

lemma sample_boot_valid [simp]: "valid_boot sample_boot"
  by (simp add: valid_boot_def sample_boot_def lower_hex_def Let_def)

lemma sample_policy_ok [simp]: "valid_policy sample_policy" "policy_constraints sample_policy = Inr ()"
proof -
  have "valid_id_set [''a'', ''b'']"
    by (simp add: valid_id_set_def set_max_def str_less_def)
  then show "valid_policy sample_policy"
    by (simp add: valid_policy_def sample_policy_def valid_baseline_def u_max_def safe_int_max_def
        valid_bins_def bins_list_def valid_text_def text_max_def)
  show "policy_constraints sample_policy = Inr ()"
    by (simp add: policy_constraints_def sample_policy_def sample_monitor_def detector_duty_def
        detector_rule_def wsum64_eq bins_list_def)
qed

lemma sample_body_valid [simp]: "valid_observation_body sample_body"
  by (simp add: valid_observation_body_def sample_body_def valid_snapshot_def sample_snapshot_def
      u_max_def safe_int_max_def valid_id_set_def set_max_def)

lemma sample_intent_valid [simp]: "valid_intent sample_intent"
  by (simp add: valid_intent_def sample_intent_def u_max_def valid_id_set_def set_max_def)

end
