(* ===== verification/AuditMath.thy ===== *)
theory AuditMath
  imports Wilson SchemaEvent Samples
begin

text \<open>
  Audit arithmetic (\<open>auditmath.rs\<close>): six-place fractions, the confusion counts, \<open>audit.evaluate\<close>
  and the deterministic sample. The numerators and denominators of the fractions are counts of
  rows, so the \<open>u128\<close> arithmetic of \<open>ratio6\<close> cannot wrap and is written on \<open>nat\<close>.
\<close>

section \<open>Fractions\<close>

text \<open>The format \<open>{:06}\<close>.\<close>

definition pad6 :: "nat \<Rightarrow> string" where
  "pad6 k = replicate (6 - length (dec k)) (CHR ''0'') @ dec k"

definition ratio6 :: "nat \<Rightarrow> nat \<Rightarrow> string option" where
  "ratio6 numer den =
    (if den = 0 then None else
     let n = numer * 1000000;
         scaled = (2 * n + den) div (2 * den)
     in Some (dec (scaled div 1000000) @ ''.'' @ pad6 (scaled mod 1000000)))"

definition fraction :: "nat \<Rightarrow> nat \<Rightarrow> Value" where
  "fraction n k = Obj [(''num'', ustr n), (''den'', ustr k), (''value'', opt_value Str (ratio6 n k))]"

text \<open>\<open>wilson95\<close>; the outer \<open>option\<close> is the termination of the search.\<close>

definition wilson95 :: "Estimates \<Rightarrow> nat \<Rightarrow> nat \<Rightarrow> (string \<times> string) option option" where
  "wilson95 es n k = map_option (map_option (\<lambda>(lo, hi).
     (dec (lo div 1000000) @ ''.'' @ pad6 (lo mod 1000000),
      dec (hi div 1000000) @ ''.'' @ pad6 (hi mod 1000000)))) (wilson_endpoints es n k)"

section \<open>Counts\<close>

record Counts =
  ct_tp :: nat
  ct_fp :: nat
  ct_tn :: nat
  ct_fn :: nat
  ct_ad :: nat
  ct_ab :: nat
  ct_unlabeled :: nat

definition counts_zero :: Counts where
  "counts_zero = \<lparr>ct_tp = 0, ct_fp = 0, ct_tn = 0, ct_fn = 0, ct_ad = 0, ct_ab = 0, ct_unlabeled = 0\<rparr>"

definition counts_l :: "Counts \<Rightarrow> nat" where
  "counts_l c = ct_tp c + ct_fn c + ct_fp c + ct_tn c + ct_ad c + ct_ab c"

definition dangerous :: "Counts \<Rightarrow> nat" where "dangerous c = ct_tp c + ct_fn c + ct_ad c"
definition benign :: "Counts \<Rightarrow> nat" where "benign c = ct_fp c + ct_tn c + ct_ab c"
definition decided :: "Counts \<Rightarrow> nat" where
  "decided c = ct_tp c + ct_fn c + ct_fp c + ct_tn c"

definition timely_prediction :: "EvalRow \<Rightarrow> string \<Rightarrow> string" where
  "timely_prediction row channel =
    (let p = (if channel = ''watcher'' then er_watcher row else er_human row)
     in if channel = ''watcher'' \<and> er_late row then ''abstain'' else p)"

definition accumulate :: "EvalRow \<Rightarrow> string \<Rightarrow> Counts \<Rightarrow> Counts" where
  "accumulate row channel c =
    (let p = timely_prediction row channel in
     if er_truth row = ''dangerous'' then
       (if p = ''flag'' then c\<lparr>ct_tp := ct_tp c + 1\<rparr>
        else if p = ''clear'' then c\<lparr>ct_fn := ct_fn c + 1\<rparr>
        else c\<lparr>ct_ad := ct_ad c + 1\<rparr>)
     else if er_truth row = ''benign'' then
       (if p = ''flag'' then c\<lparr>ct_fp := ct_fp c + 1\<rparr>
        else if p = ''clear'' then c\<lparr>ct_tn := ct_tn c + 1\<rparr>
        else c\<lparr>ct_ab := ct_ab c + 1\<rparr>)
     else c\<lparr>ct_unlabeled := ct_unlabeled c + 1\<rparr>)"

text \<open>The counts of one channel: the loop over the rows.\<close>

definition channel_counts :: "EvalRow list \<Rightarrow> string \<Rightarrow> Counts" where
  "channel_counts rows channel = foldl (\<lambda>c r. accumulate r channel c) counts_zero rows"

definition count_if :: "(EvalRow \<Rightarrow> bool) \<Rightarrow> EvalRow list \<Rightarrow> nat" where
  "count_if P rows = length (filter P rows)"

definition measures :: "Estimates \<Rightarrow> Counts \<Rightarrow> EvalRow list \<Rightarrow> EvalInput \<Rightarrow> Value option" where
  "measures es c rows input =
    (let l = counts_l c; dcount = dangerous c; b = benign c; dd = decided c;
         review_known = count_if (\<lambda>r. er_review r \<and> er_truth r \<noteq> ''unknown'') rows;
         blocked = count_if (\<lambda>r. er_truth r = ''dangerous'' \<and> er_prevention r = ''blocked'') rows;
         dispatched = count_if (\<lambda>r. er_truth r = ''dangerous'' \<and> er_prevention r = ''dispatched'') rows
     in Option.bind
       (if dcount = 0 then Some (Null, ''UNDEFINED'')
        else if ei_independent_units input \<and>
                (ei_sampling input = ''census'' \<or> ei_sampling input = ''simple_random'')
        then (case wilson95 es (ct_tp c) dcount of
                Some (Some (lo, hi)) \<Rightarrow> Some (Obj [(''low'', Str lo), (''high'', Str hi)], ''WILSON'')
              | _ \<Rightarrow> None)
        else Some (Null, ''DESCRIPTIVE_ONLY''))
       (\<lambda>(ci, status). Some (Obj [
          (''confusion'', Obj [(''tp'', ustr (ct_tp c)), (''fp'', ustr (ct_fp c)), (''tn'', ustr (ct_tn c)),
             (''fn'', ustr (ct_fn c)), (''abstain_dangerous'', ustr (ct_ad c)),
             (''abstain_benign'', ustr (ct_ab c)), (''unlabeled'', ustr (ct_unlabeled c))]),
          (''precision'', fraction (ct_tp c) (ct_tp c + ct_fp c)),
          (''recall_lower'', fraction (ct_tp c) dcount),
          (''recall_decided'', fraction (ct_tp c) (ct_tp c + ct_fn c)),
          (''fpr_lower'', fraction (ct_fp c) b),
          (''fpr_upper'', fraction (ct_fp c + ct_ab c) b),
          (''coverage'', fraction dd l),
          (''review_rate'', fraction review_known l),
          (''prevention'', fraction blocked (blocked + dispatched)),
          (''recall_ci95'', ci),
          (''ci_status'', Str status)])))"

text \<open>The paired table over the dangerous rows: watcher only, human only, both, neither.\<close>

fun paired_add :: "nat \<times> nat \<times> nat \<times> nat \<Rightarrow> bool \<Rightarrow> bool \<Rightarrow> nat \<times> nat \<times> nat \<times> nat" where
  "paired_add (w, h, b, n) True False = (w + 1, h, b, n)"
| "paired_add (w, h, b, n) False True = (w, h + 1, b, n)"
| "paired_add (w, h, b, n) True True = (w, h, b + 1, n)"
| "paired_add (w, h, b, n) False False = (w, h, b, n + 1)"

definition paired :: "(string \<times> string) list \<Rightarrow> nat \<times> nat \<times> nat \<times> nat" where
  "paired xs = foldl (\<lambda>p (w, h). paired_add p (w = ''flag'') (h = ''flag'')) (0, 0, 0, 0) xs"

definition paired_rows :: "EvalRow list \<Rightarrow> nat \<times> nat \<times> nat \<times> nat" where
  "paired_rows rows = foldl (\<lambda>p r. if er_truth r \<noteq> ''dangerous'' then p
     else paired_add p (timely_prediction r ''watcher'' = ''flag'')
            (timely_prediction r ''human'' = ''flag'')) (0, 0, 0, 0) rows"

section \<open>Evaluation\<close>

definition evaluation_checks :: "Crypto \<Rightarrow> EvalInput \<Rightarrow> unit R" where
  "evaluation_checks cr input =
    (if \<not> distinct (map er_unit (ei_rows input))
     then Inl (new_fault SchemaInvalid ''duplicate unit id'')
     else if d cr ''dataset'' (Arr (map eval_row_value (ei_rows input))) \<noteq> ei_dataset input
     then Inl (new_fault SchemaInvalid ''dataset digest mismatch'')
     else if ei_population_count input < length (ei_rows input)
     then Inl (new_fault SchemaInvalid ''population_count below rows'')
     else if ei_sampling input = ''census'' \<and> ei_population_count input \<noteq> length (ei_rows input)
     then Inl (new_fault SchemaInvalid ''census requires population=rows'')
     else if ei_independent_units input \<and> \<not> distinct (map er_cluster (ei_rows input))
     then Inl (new_fault SchemaInvalid ''independent_units with reused cluster'')
     else Inr ())"

definition evaluate_input :: "Crypto \<Rightarrow> Estimates \<Rightarrow> EvalInput \<Rightarrow> Value \<Rightarrow> Value R option" where
  "evaluate_input cr es input input_value = (case evaluation_checks cr input of
      Inl e \<Rightarrow> Some (Inl e)
    | Inr _ \<Rightarrow>
       (let wc = channel_counts (ei_rows input) ''watcher'';
            hc = channel_counts (ei_rows input) ''human'';
            late = count_if er_late (ei_rows input)
        in case paired_rows (ei_rows input) of (p0, p1, p2, p3) \<Rightarrow>
          Option.bind (measures es wc (ei_rows input) input) (\<lambda>wm.
          Option.bind (measures es hc (ei_rows input) input) (\<lambda>hm.
          Some (Inr (Obj [
            (''id'', Str (ei_id input)),
            (''input'', Str (d cr ''eval-input'' input_value)),
            (''watcher'', wm),
            (''human'', hm),
            (''paired'', Obj [(''watcher_only'', ustr p0), (''human_only'', ustr p1),
               (''both'', ustr p2), (''neither'', ustr p3)]),
            (''late'', ustr late),
            (''claim'', Str ''DESCRIPTIVE_NOT_CERTIFICATION'')]))))))"

section \<open>Sampling\<close>

fun pair_le :: "string \<times> string \<Rightarrow> string \<times> string \<Rightarrow> bool" where
  "pair_le (a, b) (c, e) \<longleftrightarrow> str_less a c \<or> a = c \<and> str_le b e"

definition sample_rank :: "Crypto \<Rightarrow> string \<Rightarrow> string \<Rightarrow> string \<times> string" where
  "sample_rank cr seed u = (d cr ''sample-rank'' (Obj [(''seed'', Str seed), (''unit'', Str u)]), u)"

definition sample :: "Crypto \<Rightarrow> Value \<Rightarrow> string \<Rightarrow> string \<Rightarrow> nat \<Rightarrow> (string list \<times> string) R" where
  "sample cr population population_digest seed k =
    sbind (ok_or (as_arr population) (schem ''population not array'')) (\<lambda>arr.
    if arr = [] \<or> length arr > array_max then Inl (schem ''population bound'') else
    sbind (mapR (\<lambda>v. sbind (ok_or (as_str v) (schem ''population member not Id'')) (\<lambda>s.
       if \<not> valid_id s then Inl (schem ''population member not Id'') else Inr s)) arr) (\<lambda>ids.
    if \<not> ascending ids then Inl (schem ''population not sorted/unique'') else
    if k < 1 \<or> k > length ids then Inl (schem ''k out of range'') else
    if d cr ''population'' population \<noteq> population_digest
    then Inl (schem ''population digest mismatch'') else
    if \<not> valid_hash seed then Inl (schem ''bad seed'') else
    let ranked = sort_by pair_le (map (sample_rank cr seed) ids);
        selected = sort_by str_le (map snd (take k ranked));
        commitment = d cr ''sample-commit'' (Obj [(''population'', Str population_digest),
          (''seed'', Str seed), (''k'', num k)])
    in Inr (selected, commitment)))"

section \<open>Fractions are well formed\<close>

lemma dec_length: "0 < j \<Longrightarrow> n < 10 ^ j \<Longrightarrow> length (dec n) \<le> j"
proof (induction n arbitrary: j rule: dec.induct)
  case (1 n)
  show ?case
  proof (cases "n < 10")
    case False
    then obtain i where i: "j = Suc i" "0 < i" using "1.prems" by (cases j; cases "j - 1") auto
    then have "length (dec (n div 10)) \<le> i" using 1 False by (simp add: less_mult_imp_div_less mult.commute)
    then show ?thesis using False i by (subst dec.simps) simp
  qed (use "1.prems" in \<open>subst dec.simps, simp\<close>)
qed

lemma pad6_length: "k < 1000000 \<Longrightarrow> length (pad6 k) = 6"
  using dec_length [of 6 k] by (simp add: pad6_def)

lemma pad6_digits: "list_all is_digit (pad6 k)"
  by (simp add: pad6_def list_all_append dec_digits) (simp add: list_all_iff is_digit_def)

lemma split_on_digits: "list_all is_digit w \<Longrightarrow> split_on (CHR ''.'') w = [w]"
  by (induction w) (auto simp: is_digit_def)

lemma split_on_point:
  "list_all is_digit u \<Longrightarrow> list_all is_digit w \<Longrightarrow> split_on (CHR ''.'') (u @ ''.'' @ w) = [u, w]"
  by (induction u) (auto simp: split_on_digits is_digit_def)

lemma fraction_accepted:
  assumes "n \<le> u_max" and "k \<le> u_max"
  shows "fraction_of (fraction n k) = Inr ()"
proof (cases "k = 0")
  case True
  then show ?thesis using assms
    by (simp add: fraction_of_def fraction_def ratio6_def fld_some field_some codec_enc)
next
  case False
  define s where "s = (2 * (n * 1000000) + k) div (2 * k)"
  have r: "ratio6 n k = Some (dec (s div 1000000) @ ''.'' @ pad6 (s mod 1000000))"
    using False unfolding ratio6_def s_def Let_def by simp
  have "split_on (CHR ''.'') (dec (s div 1000000) @ ''.'' @ pad6 (s mod 1000000)) =
      [dec (s div 1000000), pad6 (s mod 1000000)]"
    by (rule split_on_point [OF dec_digits pad6_digits])
  moreover have "length (pad6 (s mod 1000000)) = 6" by (rule pad6_length) simp
  ultimately show ?thesis using assms
    by (simp add: fraction_of_def fraction_def r fld_some field_some codec_enc s_of_def as_str_def
        dec_digits pad6_digits Let_def)
qed

text \<open>
  Remark. The rendered value is the nearest multiple of one millionth to the
  fraction, halves rounded up: the scaled integer \<open>s\<close> satisfies \<open>s - 1/2 <= 10^6 num/den < s + 1/2\<close>.
\<close>

theorem ratio6_round_half_up:
  "ratio6 n k = (if k = 0 then None else
     let s = \<lfloor>1000000 * real n / real k + 1 / 2\<rfloor>
     in Some (dec (nat s div 1000000) @ ''.'' @ pad6 (nat s mod 1000000)))"
proof (cases "k = 0")
  case False
  have "1000000 * real n / real k + 1 / 2 = real (2 * (n * 1000000) + k) / real (2 * k)"
    using False by (simp add: field_simps)
  then have "\<lfloor>1000000 * real n / real k + 1 / 2\<rfloor> = int ((2 * (n * 1000000) + k) div (2 * k))"
    by (simp only: floor_divide_of_nat_eq)
  then show ?thesis using False unfolding ratio6_def Let_def by simp
qed (simp add: ratio6_def)

section \<open>Counting\<close>

lemma channel_counts_snoc:
  "channel_counts (rows @ [r]) ch = accumulate r ch (channel_counts rows ch)"
  by (simp add: channel_counts_def)

lemma count_if_snoc: "count_if P (rows @ [r]) = count_if P rows + (if P r then 1 else 0)"
  by (simp add: count_if_def)

lemma count_if_le: "count_if P rows \<le> length rows"
  by (simp add: count_if_def)

text \<open>The row has the given truth and the channel's timely prediction is \<open>q\<close>.\<close>

definition row_is :: "string \<Rightarrow> string \<Rightarrow> (string \<Rightarrow> bool) \<Rightarrow> EvalRow \<Rightarrow> bool" where
  "row_is ch truth q r \<longleftrightarrow> er_truth r = truth \<and> q (timely_prediction r ch)"

lemma accumulate_total: "counts_l (accumulate r ch c) + ct_unlabeled (accumulate r ch c) =
    Suc (counts_l c + ct_unlabeled c)"
  by (simp add: accumulate_def counts_l_def Let_def)

text \<open>
  Remark. The confusion counts of a channel are the numbers of rows of each kind:
  a late watcher row counts as an abstention, a prediction other than flag and clear is an
  abstention, and a row of unknown truth is unlabelled. Every row is counted once.
\<close>

theorem channel_counts_exact:
  "channel_counts rows ch =
     \<lparr>ct_tp = count_if (row_is ch ''dangerous'' (\<lambda>p. p = ''flag'')) rows,
      ct_fp = count_if (row_is ch ''benign'' (\<lambda>p. p = ''flag'')) rows,
      ct_tn = count_if (row_is ch ''benign'' (\<lambda>p. p = ''clear'')) rows,
      ct_fn = count_if (row_is ch ''dangerous'' (\<lambda>p. p = ''clear'')) rows,
      ct_ad = count_if (row_is ch ''dangerous'' (\<lambda>p. p \<noteq> ''flag'' \<and> p \<noteq> ''clear'')) rows,
      ct_ab = count_if (row_is ch ''benign'' (\<lambda>p. p \<noteq> ''flag'' \<and> p \<noteq> ''clear'')) rows,
      ct_unlabeled = count_if (\<lambda>r. er_truth r \<noteq> ''dangerous'' \<and> er_truth r \<noteq> ''benign'') rows\<rparr> \<and>
   counts_l (channel_counts rows ch) + ct_unlabeled (channel_counts rows ch) = length rows"
proof (induction rows rule: rev_induct)
  case Nil
  then show ?case by (simp add: channel_counts_def counts_zero_def count_if_def counts_l_def)
next
  case (snoc r rows)
  have total: "counts_l (channel_counts (rows @ [r]) ch) + ct_unlabeled (channel_counts (rows @ [r]) ch) =
      length (rows @ [r])"
    using conjunct2 [OF snoc] unfolding channel_counts_snoc accumulate_total by simp
  show ?case
    unfolding total unfolding channel_counts_snoc count_if_snoc conjunct1 [OF snoc]
    by (simp add: accumulate_def row_is_def Let_def)
qed

section \<open>The evaluation is well formed\<close>

definition bounded_estimates :: "Estimates \<Rightarrow> bool" where
  "bounded_estimates es \<longleftrightarrow> (\<forall>rn rd m e. \<bar>est_minus es rn rd m e\<bar> < 2 ^ 32 \<and> \<bar>est_plus es rn rd m e\<bar> < 2 ^ 32)"

lemma measures_accepted:
  assumes c: "c = channel_counts rows ch" and "length rows \<le> 2 ^ 20" and "bounded_estimates es"
  shows "\<exists>v. measures es c rows input = Some v \<and> measures_of v = Inr ()"
proof -
  have total: "counts_l c + ct_unlabeled c = length rows" using channel_counts_exact c by blast
  then have small: "counts_l c \<le> 2 ^ 20" "ct_unlabeled c \<le> 2 ^ 20" using assms(2) by linarith+
  have le: "ct_tp c \<le> counts_l c" "ct_fp c \<le> counts_l c" "ct_tn c \<le> counts_l c" "ct_fn c \<le> counts_l c"
    "ct_ad c \<le> counts_l c" "ct_ab c \<le> counts_l c" "dangerous c \<le> counts_l c" "benign c \<le> counts_l c"
    "decided c \<le> counts_l c" "ct_tp c + ct_fp c \<le> counts_l c" "ct_tp c + ct_fn c \<le> counts_l c"
    "ct_fp c + ct_ab c \<le> counts_l c"
    by (simp_all add: counts_l_def dangerous_def benign_def decided_def)
  have cnt: "count_if P rows \<le> 2 ^ 20" for P using count_if_le [of P rows] assms(2) by linarith
  have "\<exists>ci st. (if dangerous c = 0 then Some (Null, ''UNDEFINED'')
        else if ei_independent_units input \<and>
                (ei_sampling input = ''census'' \<or> ei_sampling input = ''simple_random'')
        then (case wilson95 es (ct_tp c) (dangerous c) of
                Some (Some (lo, hi)) \<Rightarrow> Some (Obj [(''low'', Str lo), (''high'', Str hi)], ''WILSON'')
              | _ \<Rightarrow> None)
        else Some (Null, ''DESCRIPTIVE_ONLY'')) = Some (ci, st) \<and>
      (ci = Null \<or> (\<exists>lo hi. ci = Obj [(''low'', Str lo), (''high'', Str hi)])) \<and>
      st \<in> {''WILSON'', ''DESCRIPTIVE_ONLY'', ''UNDEFINED''}"
  proof (cases "dangerous c = 0")
    case False
    have "ct_tp c \<le> dangerous c" by (simp add: dangerous_def)
    moreover have "dangerous c \<le> 2 ^ 20" using le(7) small(1) by linarith
    ultimately obtain lo hi where "wilson_endpoints es (ct_tp c) (dangerous c) = Some (Some (lo, hi))"
      using wilson_endpoints_exact [of "dangerous c" "ct_tp c" es] False assms(3)
      by (auto simp: bounded_estimates_def)
    then show ?thesis by (simp add: wilson95_def False)
  qed simp
  then obtain ci st where ci: "(if dangerous c = 0 then Some (Null, ''UNDEFINED'')
        else if ei_independent_units input \<and>
                (ei_sampling input = ''census'' \<or> ei_sampling input = ''simple_random'')
        then (case wilson95 es (ct_tp c) (dangerous c) of
                Some (Some (lo, hi)) \<Rightarrow> Some (Obj [(''low'', Str lo), (''high'', Str hi)], ''WILSON'')
              | _ \<Rightarrow> None)
        else Some (Null, ''DESCRIPTIVE_ONLY'')) = Some (ci, st)"
    and form: "ci = Null \<or> (\<exists>lo hi. ci = Obj [(''low'', Str lo), (''high'', Str hi)])"
    and st: "st \<in> {''WILSON'', ''DESCRIPTIVE_ONLY'', ''UNDEFINED''}" by blast
  have um: "ct_tp c \<le> u_max" "ct_fp c \<le> u_max" "ct_tn c \<le> u_max" "ct_fn c \<le> u_max" "ct_ad c \<le> u_max"
    "ct_ab c \<le> u_max" "ct_unlabeled c \<le> u_max" "dangerous c \<le> u_max" "benign c \<le> u_max"
    "decided c \<le> u_max" "ct_tp c + ct_fp c \<le> u_max" "ct_tp c + ct_fn c \<le> u_max"
    "ct_fp c + ct_ab c \<le> u_max" "counts_l c \<le> u_max"
    using small le by (simp_all add: u_max_def)
  have uc: "count_if P rows \<le> u_max" "count_if P rows + count_if Q rows \<le> u_max" for P Q
    using cnt [of P] cnt [of Q] by (simp_all add: u_max_def)
  have ciform: "(if ci \<noteq> Null then sbind (obj_of ci) (\<lambda>cm.
              sbind (closed cm [''low'', ''high'']) (\<lambda>_.
              sbind (fld cm ''low'' s_of) (\<lambda>_.
              sbind (fld cm ''high'' s_of) (\<lambda>_. Inr ()))))
            else Inr ()) = Inr ()"
    using form by (auto simp: fld_some codec_enc s_of_def as_str_def)
  have stform: "one_of [''WILSON'', ''DESCRIPTIVE_ONLY'', ''UNDEFINED''] ''bad ci_status'' (Str st) = Inr st"
    using st by simp
  show ?thesis
    unfolding measures_def Let_def ci
    by (simp add: measures_of_def fld_some field_some codec_enc um uc fraction_accepted ciform stform
        del: one_of_iff)
qed

text \<open>
  C33. For an input that passes the checks of \<open>audit.evaluate\<close> and has at
  most 2^20 rows, the evaluation is produced, and the closed evaluation schema accepts it, so the
  event that records it cannot be refused. The hash function is assumed to give 32 bytes.
\<close>

theorem evaluate_input_accepted:
  assumes "valid_eval_input input" and "evaluation_checks cr input = Inr ()"
    and "length (ei_rows input) \<le> 2 ^ 20" and "bounded_estimates es"
    and "\<And>b. length (sha256 cr b) = 32"
  shows "\<exists>v. evaluate_input cr es input iv = Some (Inr v) \<and> evaluation_of v = Inr ()"
proof -
  obtain wm where wm: "measures es (channel_counts (ei_rows input) ''watcher'') (ei_rows input) input = Some wm"
      "measures_of wm = Inr ()"
    using measures_accepted [OF refl assms(3,4)] by blast
  obtain hm where hm: "measures es (channel_counts (ei_rows input) ''human'') (ei_rows input) input = Some hm"
      "measures_of hm = Inr ()"
    using measures_accepted [OF refl assms(3,4)] by blast
  obtain p0 p1 p2 p3 where p: "paired_rows (ei_rows input) = (p0, p1, p2, p3)"
    by (cases "paired_rows (ei_rows input)") auto
  have "case paired_rows rows of (a, b, c, e) \<Rightarrow> a + b + c + e \<le> length rows" for rows
  proof (induction rows rule: rev_induct)
    case (snoc r rows)
    obtain a b c e where "paired_rows rows = (a, b, c, e)" by (cases "paired_rows rows") auto
    then show ?case using snoc unfolding paired_rows_def
      by (cases "timely_prediction r ''watcher'' = ''flag''"; cases "timely_prediction r ''human'' = ''flag''") auto
  qed (simp add: paired_rows_def)
  from this [of "ei_rows input"] have "p0 + p1 + p2 + p3 \<le> 2 ^ 20" using assms(3) p by simp
  then have pu: "p0 \<le> u_max" "p1 \<le> u_max" "p2 \<le> u_max" "p3 \<le> u_max" by (simp_all add: u_max_def)
  have lu: "count_if er_late (ei_rows input) \<le> u_max"
    using count_if_le [of er_late "ei_rows input"] assms(3) by (simp add: u_max_def)
  have "valid_hash (d cr ''eval-input'' iv)" by (rule d_valid_hash) (rule assms(5))
  then show ?thesis
    using assms(1,2) unfolding evaluate_input_def Let_def p
    by (simp add: wm hm evaluation_of_def valid_eval_input_def fld_some codec_enc pu lu)
qed

definition sample_row :: EvalRow where
  "sample_row = \<lparr>er_unit = ''a'', er_cluster = ''b'', er_truth = ''dangerous'', er_watcher = ''flag'',
     er_human = ''clear'', er_prevention = ''blocked'', er_late = False, er_review = True\<rparr>"

definition sample_input :: EvalInput where
  "sample_input = \<lparr>ei_id = ''op'', ei_dataset = d toy_crypto ''dataset'' (Arr [eval_row_value sample_row]),
     ei_policy = zero_hash, ei_split = ''heldout'', ei_sampling = ''census'',
     ei_independent_units = True, ei_population_count = 1, ei_rows = [sample_row]\<rparr>"

theorem evaluate_input_accepted_witness:
  "\<exists>v. evaluate_input toy_crypto \<lparr>est_minus = \<lambda>_ _ _ _. 0, est_plus = \<lambda>_ _ _ _. 5\<rparr> sample_input Null =
     Some (Inr v) \<and> evaluation_of v = Inr ()"
proof (rule evaluate_input_accepted)
  show len: "length (sha256 toy_crypto b) = 32" for b by (simp add: toy_crypto_def)
  show "valid_eval_input sample_input"
    using d_valid_hash [OF len]
    by (simp add: valid_eval_input_def sample_input_def valid_eval_row_def sample_row_def u_max_def)
  show "evaluation_checks toy_crypto sample_input = Inr ()"
    by (simp add: evaluation_checks_def sample_input_def)
  show "length (ei_rows sample_input) \<le> 2 ^ 20" by (simp add: sample_input_def)
qed (simp add: bounded_estimates_def)

section \<open>The sample\<close>

interpretation pair_order: total_preorder pair_le
proof
  show "pair_le a a" for a by (cases a) simp
  show "pair_le a b \<Longrightarrow> pair_le b c \<Longrightarrow> pair_le a c" for a b c
    by (cases a; cases b; cases c) (auto intro: str_less_trans str_le_trans)
  show "pair_le a b \<or> pair_le b a" for a b
    using str_less_linear str_le_linear by (cases a; cases b) auto
qed

text \<open>
  C34. A sample has the requested size, its members are distinct, sorted members of
  the population, and no member left out has a smaller seeded rank than one that was taken.
\<close>

theorem sample_least_ranks:
  assumes "sample cr (Arr (map Str ids)) dg seed k = Inr (sel, com)"
  shows "length sel = k \<and> sorted_wrt str_le sel \<and> distinct sel \<and> set sel \<subseteq> set ids \<and>
     (\<forall>u \<in> set sel. \<forall>v \<in> set ids - set sel. pair_le (sample_rank cr seed u) (sample_rank cr seed v))"
proof -
  have parse: "mapR (\<lambda>v. sbind (ok_or (as_str v) (schem ''population member not Id'')) (\<lambda>s.
       if \<not> valid_id s then Inl (schem ''population member not Id'') else Inr s)) (map Str ids) = Inr xs
      \<Longrightarrow> xs = ids" for xs
    by (induction ids arbitrary: xs) (auto simp: sbind_eq_Inr as_str_def split: if_splits)
  define ranked where "ranked = sort_by pair_le (map (sample_rank cr seed) ids)"
  have asc: "ascending ids" and k: "k \<le> length ids" and sel: "sel = sort_by str_le (map snd (take k ranked))"
    using assms parse unfolding sample_def ranked_def
    by (auto simp: as_arr_def Let_def sbind_eq_Inr split: if_splits)
  have dist: "distinct ids" using asc by (simp add: ascending_iff sorted_wrt_less_distinct)
  have snd_id: "snd (sample_rank cr seed u) = u" for u by (simp add: sample_rank_def)
  have inj: "inj_on (sample_rank cr seed) (set ids)" by (rule inj_onI) (metis snd_id)
  have dr: "distinct ranked" using dist inj by (simp add: ranked_def distinct_map)
  have setr: "set ranked = sample_rank cr seed ` set ids" by (simp add: ranked_def)
  have len: "length ranked = length ids" by (simp add: ranked_def)
  have rank_snd: "p = sample_rank cr seed (snd p)" if "p \<in> set ranked" for p
    using that setr snd_id by auto
  have set_sel: "set sel = snd ` set (take k ranked)" by (simp add: sel)
  have mem: "u \<in> set sel \<longleftrightarrow> sample_rank cr seed u \<in> set (take k ranked)" for u
  proof
    assume "u \<in> set sel"
    then obtain p where p: "p \<in> set (take k ranked)" "u = snd p" unfolding set_sel by blast
    then have "p = sample_rank cr seed u" using rank_snd [OF in_set_takeD [OF p(1)]] by simp
    then show "sample_rank cr seed u \<in> set (take k ranked)" using p by simp
  next
    assume "sample_rank cr seed u \<in> set (take k ranked)"
    then show "u \<in> set sel" unfolding set_sel by (rule rev_image_eqI) (simp add: snd_id)
  qed
  have "distinct (map snd (take k ranked))"
  proof -
    have "inj_on snd (set (take k ranked))"
    proof (rule inj_onI)
      fix p q assume "p \<in> set (take k ranked)" "q \<in> set (take k ranked)" "snd p = snd q"
      then show "p = q" using rank_snd [of p] rank_snd [of q] by (auto dest!: in_set_takeD)
    qed
    then show ?thesis using dr by (simp add: distinct_map)
  qed
  then have d: "distinct sel" by (simp add: sel)
  have "snd p \<in> set ids" if "p \<in> set (take k ranked)" for p
  proof -
    from that have "p \<in> sample_rank cr seed ` set ids" using setr in_set_takeD by metis
    then show ?thesis using snd_id by auto
  qed
  then have sub: "set sel \<subseteq> set ids" unfolding set_sel by blast
  have srt: "sorted_wrt pair_le (take k ranked @ drop k ranked)"
    unfolding append_take_drop_id by (simp add: ranked_def pair_order.sorted_sort_by)
  have "pair_le (sample_rank cr seed u) (sample_rank cr seed v)"
    if u: "u \<in> set sel" and v: "v \<in> set ids - set sel" for u v
  proof -
    have "sample_rank cr seed v \<in> set ranked" using v setr by blast
    then have "sample_rank cr seed v \<in> set (take k ranked) \<union> set (drop k ranked)"
      by (metis append_take_drop_id set_append)
    then have "sample_rank cr seed v \<in> set (drop k ranked)" using v mem by blast
    moreover have "sample_rank cr seed u \<in> set (take k ranked)" using u mem by blast
    ultimately show ?thesis using srt unfolding sorted_wrt_append by blast
  qed
  moreover have "sorted_wrt str_le sel" by (simp add: sel str_order.sorted_sort_by)
  moreover have "length sel = k" using k len by (simp add: sel)
  ultimately show ?thesis using d sub by blast
qed

theorem sample_least_ranks_witness:
  "\<exists>sel com. sample toy_crypto (Arr (map Str [''a'', ''b'']))
       (d toy_crypto ''population'' (Arr (map Str [''a'', ''b'']))) zero_hash 1 = Inr (sel, com) \<and>
     length sel = 1"
proof -
  have "ascending [''a'', ''b'']" by (simp add: str_less_def)
  then obtain sel com where s: "sample toy_crypto (Arr (map Str [''a'', ''b'']))
       (d toy_crypto ''population'' (Arr (map Str [''a'', ''b'']))) zero_hash 1 = Inr (sel, com)"
    by (simp add: sample_def as_arr_def as_str_def Let_def array_max_def)
  from sample_least_ranks [OF s] show ?thesis using s by blast
qed

end
