(* ===== verification/DriftReducer.thy ===== *)
theory DriftReducer
  imports Samples
begin

text \<open>
  The drift reducer (\<open>drift.rs\<close>): the state machine that folds the closed windows of a run.

  \<open>drift_step\<close> is \<open>step\<close>, \<open>drift_fold\<close> is \<open>fold\<close>. The reducer is compared with a declarative
  reading of the whole history of windows: the run is in drift exactly when two high windows in
  a row were seen and no three low windows in a row since.
\<close>

section \<open>The reducer\<close>

datatype WindowInput = WComplete nat nat | WMissing

datatype Class = CHigh | CLow | CMiddle

definition classify :: "nat \<Rightarrow> Policy \<Rightarrow> Class" where
  "classify score p =
     (if score \<ge> pl_drift_high_bp p then CHigh
      else if score < pl_drift_low_bp p then CLow
      else CMiddle)"

text \<open>\<open>start_ms <= last\<close>: the window has been seen.\<close>

definition repeated_window :: "nat option \<Rightarrow> nat \<Rightarrow> bool" where
  "repeated_window lw start_ms = (case lw of None \<Rightarrow> False | Some l \<Rightarrow> start_ms \<le> l)"

text \<open>The class of the slot and the \<open>data\<close> recorded for it.\<close>

definition slot_class :: "nat option \<Rightarrow> nat \<Rightarrow> WindowInput \<Rightarrow> Policy \<Rightarrow> Class option \<times> string" where
  "slot_class lw start_ms input p =
    (let gapped = (case lw of None \<Rightarrow> False | Some l \<Rightarrow> start_ms > wadd64 l window_ms)
     in case input of
          WMissing \<Rightarrow> (None, ''missing'')
        | WComplete samples score \<Rightarrow>
            (if gapped then (None, ''missing'')
             else if samples < pl_min_window_samples p then (None, ''insufficient'')
             else (Some (classify score p), ''complete'')))"

text \<open>The final \<open>match\<close> on the prior state and the class.\<close>

fun drift_match :: "Policy \<Rightarrow> Drift \<Rightarrow> Drift \<Rightarrow> DriftState \<Rightarrow> Class \<Rightarrow> Drift" where
  "drift_match p prior nxt DsSuspect CHigh =
     (let h = wadd64 (dr_high_streak prior) 1 in
      if h \<ge> pl_high_windows p
      then nxt\<lparr>dr_state := DsDrift, dr_high_streak := pl_high_windows p, dr_low_streak := 0\<rparr>
      else nxt\<lparr>dr_state := DsSuspect, dr_high_streak := h, dr_low_streak := 0\<rparr>)"
| "drift_match p prior nxt DsDrift CLow =
     (let l = wadd64 (dr_low_streak prior) 1 in
      if l \<ge> pl_low_windows p
      then nxt\<lparr>dr_state := DsStable, dr_high_streak := 0, dr_low_streak := 0\<rparr>
      else nxt\<lparr>dr_state := DsDrift, dr_high_streak := 0, dr_low_streak := l\<rparr>)"
| "drift_match p prior nxt DsDrift c =
     nxt\<lparr>dr_state := DsDrift, dr_high_streak := 0, dr_low_streak := 0\<rparr>"
| "drift_match p prior nxt s CHigh =
     nxt\<lparr>dr_state := DsSuspect, dr_high_streak := 1, dr_low_streak := 0\<rparr>"
| "drift_match p prior nxt s c =
     nxt\<lparr>dr_state := DsStable, dr_high_streak := 0, dr_low_streak := 0\<rparr>"

definition drift_step :: "Drift \<Rightarrow> nat \<Rightarrow> WindowInput \<Rightarrow> Policy \<Rightarrow> Drift" where
  "drift_step prior start_ms input p =
    (if repeated_window (dr_last_window_ms prior) start_ms then prior
     else case slot_class (dr_last_window_ms prior) start_ms input p of (cls, data) \<Rightarrow>
       let nxt = prior\<lparr>dr_last_window_ms := Some start_ms, dr_data := data\<rparr> in
       case cls of
         None \<Rightarrow> nxt\<lparr>dr_high_streak := 0, dr_low_streak := 0, dr_score_bp := None,
                    dr_state := if dr_state nxt \<noteq> DsDrift then DsWarmup else dr_state nxt\<rparr>
       | Some c \<Rightarrow>
           let nxt = (case input of WComplete _ score \<Rightarrow> nxt\<lparr>dr_score_bp := Some score\<rparr>
                                  | WMissing \<Rightarrow> nxt)
           in drift_match p prior nxt (dr_state prior) c)"

definition drift_fold :: "Drift \<Rightarrow> (nat \<times> nat \<times> nat) list \<Rightarrow> Policy \<Rightarrow> Drift" where
  "drift_fold prior windows p =
     foldl (\<lambda>st (start, samples, score). drift_step st start (WComplete samples score) p) prior windows"

section \<open>One step\<close>

lemma drift_step_repeated:
  "repeated_window (dr_last_window_ms prior) start_ms \<Longrightarrow> drift_step prior start_ms input p = prior"
  by (simp add: drift_step_def)

lemma drift_match_keeps [simp]:
  "dr_last_window_ms (drift_match p prior nxt s c) = dr_last_window_ms nxt"
  "dr_data (drift_match p prior nxt s c) = dr_data nxt"
  "dr_score_bp (drift_match p prior nxt s c) = dr_score_bp nxt"
  by (cases s; cases c; simp add: Let_def)+

lemma drift_step_last:
  "\<not> repeated_window (dr_last_window_ms prior) start_ms \<Longrightarrow>
     dr_last_window_ms (drift_step prior start_ms input p) = Some start_ms"
  by (auto simp: drift_step_def Let_def split: prod.split option.split WindowInput.split)

text \<open>The counters and the state of a reducer that started from nothing.\<close>

definition drift_inv :: "Drift \<Rightarrow> bool" where
  "drift_inv st \<longleftrightarrow> (case dr_state st of
       DsWarmup \<Rightarrow> dr_high_streak st = 0 \<and> dr_low_streak st = 0
     | DsStable \<Rightarrow> dr_high_streak st = 0 \<and> dr_low_streak st = 0
     | DsSuspect \<Rightarrow> dr_high_streak st = 1 \<and> dr_low_streak st = 0
     | DsDrift \<Rightarrow> dr_high_streak st \<in> {0, 2} \<and> dr_low_streak st \<le> 2)"

text \<open>The effect of a class on the state and the low streak, under an admitted policy.\<close>

definition class_effect :: "DriftState \<times> nat \<Rightarrow> Class option \<Rightarrow> DriftState \<times> nat" where
  "class_effect sl c = (case sl of (s, l) \<Rightarrow>
     (case c of
        None \<Rightarrow> (if s = DsDrift then DsDrift else DsWarmup, 0)
      | Some CHigh \<Rightarrow> (if s = DsDrift \<or> s = DsSuspect then DsDrift else DsSuspect, 0)
      | Some CMiddle \<Rightarrow> (if s = DsDrift then DsDrift else DsStable, 0)
      | Some CLow \<Rightarrow> (if s = DsDrift \<and> l < 2 then (DsDrift, Suc l) else (DsStable, 0))))"

lemma drift_step_effect:
  assumes "drift_inv st" and "pl_high_windows p = 2" and "pl_low_windows p = 3"
    and "\<not> repeated_window (dr_last_window_ms st) start_ms"
    and "st' = drift_step st start_ms input p"
  shows "drift_inv st'"
    and "(dr_state st', dr_low_streak st') = class_effect (dr_state st, dr_low_streak st)
           (fst (slot_class (dr_last_window_ms st) start_ms input p))"
proof -
  obtain cls data where sc: "slot_class (dr_last_window_ms st) start_ms input p = (cls, data)"
    by (cases "slot_class (dr_last_window_ms st) start_ms input p")
  have "drift_inv st' \<and> (dr_state st', dr_low_streak st') =
      class_effect (dr_state st, dr_low_streak st) cls"
  proof (cases cls)
    case None
    then show ?thesis using assms sc
      by (auto simp: drift_step_def drift_inv_def class_effect_def Let_def split: DriftState.splits)
  next
    case (Some c)
    have nxt: "st' = drift_match p st (case input of
          WComplete _ score \<Rightarrow> st\<lparr>dr_last_window_ms := Some start_ms, dr_data := data,
            dr_score_bp := Some score\<rparr>
        | WMissing \<Rightarrow> st\<lparr>dr_last_window_ms := Some start_ms, dr_data := data\<rparr>) (dr_state st) c"
      using assms(4,5) sc Some by (simp add: drift_step_def Let_def split: WindowInput.splits)
    have "dr_high_streak st \<le> 2" "dr_low_streak st \<le> 2"
      using assms(1) by (auto simp: drift_inv_def split: DriftState.splits)
    then have plus: "wadd64 (dr_high_streak st) 1 = dr_high_streak st + 1"
      "wadd64 (dr_low_streak st) 1 = dr_low_streak st + 1" by simp_all
    show ?thesis
      using assms(1-3) unfolding nxt Some
      by (cases "dr_state st"; cases c)
        (auto simp: drift_inv_def class_effect_def Let_def plus[simplified] split: WindowInput.splits)
  qed
  with sc show "drift_inv st'"
    and "(dr_state st', dr_low_streak st') = class_effect (dr_state st, dr_low_streak st)
           (fst (slot_class (dr_last_window_ms st) start_ms input p))" by simp_all
qed

section \<open>The history of a run\<close>

definition initial_drift :: Drift where
  "initial_drift = \<lparr>dr_state = DsWarmup, dr_high_streak = 0, dr_low_streak = 0,
     dr_last_window_ms = None, dr_score_bp = None, dr_data = ''insufficient''\<rparr>"

definition drift_steps :: "Drift \<Rightarrow> (nat \<times> WindowInput) list \<Rightarrow> Policy \<Rightarrow> Drift" where
  "drift_steps st ws p = foldl (\<lambda>st (start, input). drift_step st start input p) st ws"

lemma drift_fold_steps:
  "drift_fold st ws p = drift_steps st (map (\<lambda>(s, n, x). (s, WComplete n x)) ws) p"
  by (simp add: drift_fold_def drift_steps_def foldl_map case_prod_unfold)

text \<open>The classes of the windows that are not repeated, in order.\<close>

fun window_history :: "nat option \<Rightarrow> (nat \<times> WindowInput) list \<Rightarrow> Policy \<Rightarrow> Class option list" where
  "window_history lw [] p = []"
| "window_history lw ((s, i) # ws) p =
     (if repeated_window lw s then window_history lw ws p
      else fst (slot_class lw s i p) # window_history (Some s) ws p)"

text \<open>
  A history is latched when it has two high windows in a row and after them no three low
  windows in a row.
\<close>

definition latched :: "Class option list \<Rightarrow> bool" where
  "latched cs \<longleftrightarrow> (\<exists>pre post. cs = pre @ [Some CHigh, Some CHigh] @ post \<and>
     \<not> (\<exists>a b. post = a @ [Some CLow, Some CLow, Some CLow] @ b))"

definition ends_with :: "'a list \<Rightarrow> 'a list \<Rightarrow> bool" where
  "ends_with cs w \<longleftrightarrow> (\<exists>pre. cs = pre @ w)"

lemma ends_with_snoc: "ends_with (cs @ [c]) (w @ [x]) \<longleftrightarrow> x = c \<and> ends_with cs w"
  by (auto simp: ends_with_def)

lemma not_latched_lows: "\<not> latched (pre @ [Some CLow, Some CLow, Some CLow])"
proof
  let ?L = "[Some CLow, Some CLow, Some CLow]"
  assume "latched (pre @ ?L)"
  then obtain u v where uv: "pre @ ?L = (u @ [Some CHigh, Some CHigh]) @ v"
    and no: "\<not> (\<exists>a b. v = a @ ?L @ b)"
    by (auto simp: latched_def)
  show False
  proof (cases "length v \<ge> 3")
    case True
    define a b where ab: "a = take (length v - 3) v" "b = drop (length v - 3) v"
    then have v: "v = a @ b" "length b = length ?L" using True by simp_all
    then have "pre @ ?L = ((u @ [Some CHigh, Some CHigh]) @ a) @ b" using uv by simp
    then have "b = ?L" using v(2) by (metis append_eq_append_conv)
    then show False using no v(1) by (metis append_Nil2)
  next
    case False
    then consider "v = []" | x where "v = [x]" | x y where "v = [x, y]"
      by (cases v; cases "tl v"; cases "tl (tl v)") (auto simp: numeral_3_eq_3)
    then show False using arg_cong [where f = rev, OF uv] by cases simp_all
  qed
qed

lemma latched_snoc:
  "latched (cs @ [c]) \<longleftrightarrow>
     (if c = Some CLow \<and> ends_with cs [Some CLow, Some CLow] then False
      else latched cs \<or> (c = Some CHigh \<and> ends_with cs [Some CHigh]))"
proof (cases "c = Some CLow \<and> ends_with cs [Some CLow, Some CLow]")
  case True
  then show ?thesis using not_latched_lows by (auto simp: ends_with_def)
next
  case False
  let ?H = "[Some CHigh, Some CHigh]" and ?L = "[Some CLow, Some CLow, Some CLow]"
  have "latched cs \<or> c = Some CHigh \<and> ends_with cs [Some CHigh]" if l: "latched (cs @ [c])"
  proof -
    from l obtain u v where uv: "cs @ [c] = u @ ?H @ v" and no: "\<not> (\<exists>a b. v = a @ ?L @ b)"
      by (auto simp: latched_def)
    show ?thesis
    proof (cases v rule: rev_cases)
      case Nil
      then show ?thesis using uv
        by (auto simp: ends_with_def)
    next
      case (snoc v' x)
      with uv have "cs = u @ ?H @ v'" by (metis append.assoc butlast_snoc)
      moreover have "\<not> (\<exists>a b. v' = a @ ?L @ b)" using no snoc by (metis append.assoc)
      ultimately show ?thesis unfolding latched_def by blast
    qed
  qed
  moreover have "latched (cs @ [c])" if "c = Some CHigh" "ends_with cs [Some CHigh]"
  proof -
    from that obtain pre where "cs @ [c] = pre @ ?H @ []" by (auto simp: ends_with_def)
    moreover have "\<not> (\<exists>a b. [] = a @ ?L @ b)" by simp
    ultimately show ?thesis unfolding latched_def by blast
  qed
  moreover have "latched (cs @ [c])" if l: "latched cs"
  proof -
    from l obtain u v where uv: "cs = u @ ?H @ v" and no: "\<not> (\<exists>a b. v = a @ ?L @ b)"
      by (auto simp: latched_def)
    have "\<not> (\<exists>a b. v @ [c] = a @ ?L @ b)"
    proof
      assume "\<exists>a b. v @ [c] = a @ ?L @ b"
      then obtain a b where ab: "v @ [c] = a @ ?L @ b" by blast
      show False
      proof (cases b rule: rev_cases)
        case Nil
        with ab have "(v @ [c]) = (a @ [Some CLow, Some CLow]) @ [Some CLow]" by simp
        then have "c = Some CLow" "v = a @ [Some CLow, Some CLow]" by (simp_all del: append_assoc)
        then show False using False uv unfolding ends_with_def by (metis append.assoc)
      next
        case (snoc b' x)
        with ab have "v = a @ ?L @ b'" by (metis append.assoc butlast_snoc)
        then show False using no by blast
      qed
    qed
    moreover have "cs @ [c] = u @ ?H @ (v @ [c])" using uv by simp
    ultimately show ?thesis unfolding latched_def by blast
  qed
  ultimately show ?thesis using False by auto
qed

text \<open>What the state and the low streak say of the history.\<close>

definition tracks :: "Class option list \<Rightarrow> DriftState \<times> nat \<Rightarrow> bool" where
  "tracks cs sl \<longleftrightarrow> (case sl of (s, l) \<Rightarrow>
     (s = DsDrift \<longleftrightarrow> latched cs) \<and>
     (s = DsDrift \<longrightarrow> (l \<ge> 1 \<longleftrightarrow> ends_with cs [Some CLow]) \<and>
                      (l \<ge> 2 \<longleftrightarrow> ends_with cs [Some CLow, Some CLow])) \<and>
     (s \<noteq> DsDrift \<longrightarrow> (s = DsSuspect \<longleftrightarrow> ends_with cs [Some CHigh])))"

lemma latched_ends_high: "\<not> latched [] "
  by (simp add: latched_def)

lemma ends_with_one: "ends_with (cs @ [c]) [x] \<longleftrightarrow> x = c"
  by (auto simp: ends_with_def)

lemma ends_with_two: "ends_with (cs @ [c]) [y, x] \<longleftrightarrow> x = c \<and> ends_with cs [y]"
  using ends_with_snoc [of cs c "[y]" x] by simp

lemma ends_with_unique: "ends_with cs [x] \<Longrightarrow> ends_with cs [y] \<Longrightarrow> x = y"
  by (auto simp: ends_with_def)

lemma ends_with_two_one: "ends_with cs [y, x] \<Longrightarrow> ends_with cs [x]"
  unfolding ends_with_def by (metis append.assoc append_Cons append_Nil)

lemma latched_ends_two_high:
  "s \<noteq> DsDrift \<Longrightarrow> tracks cs (s, l) \<Longrightarrow> \<not> latched cs"
  by (simp add: tracks_def)

lemma tracks_step:
  assumes "tracks cs (s, l)" and "l \<le> 2"
  shows "tracks (cs @ [c]) (class_effect (s, l) c)"
proof (cases c)
  case None
  then show ?thesis using assms
    by (auto simp: tracks_def class_effect_def latched_snoc ends_with_one ends_with_two)
next
  case (Some k)
  show ?thesis
  proof (cases k)
    case CHigh
    then show ?thesis using Some assms
      by (auto simp: tracks_def class_effect_def latched_snoc ends_with_one ends_with_two)
  next
    case CLow
    show ?thesis
    proof (cases "s = DsDrift \<and> l < 2")
      case True
      then show ?thesis using Some CLow assms
        by (auto simp: tracks_def class_effect_def latched_snoc ends_with_one ends_with_two)
    next
      case False
      then show ?thesis using Some CLow assms
        by (auto simp: tracks_def class_effect_def latched_snoc ends_with_one ends_with_two)
    qed
  next
    case CMiddle
    then show ?thesis using Some assms
      by (auto simp: tracks_def class_effect_def latched_snoc ends_with_one ends_with_two)
  qed
qed

lemma drift_steps_tracks:
  assumes "pl_high_windows p = 2" and "pl_low_windows p = 3" and "drift_inv st"
    and "tracks cs (dr_state st, dr_low_streak st)"
  shows "drift_inv (drift_steps st ws p) \<and>
     tracks (cs @ window_history (dr_last_window_ms st) ws p)
       (dr_state (drift_steps st ws p), dr_low_streak (drift_steps st ws p))"
  using assms(3,4)
proof (induction ws arbitrary: st cs)
  case Nil
  then show ?case by (simp add: drift_steps_def)
next
  case (Cons w ws)
  obtain s i where w: "w = (s, i)" by (cases w)
  show ?case
  proof (cases "repeated_window (dr_last_window_ms st) s")
    case True
    then show ?thesis using Cons w by (simp add: drift_steps_def drift_step_repeated)
  next
    case False
    let ?st' = "drift_step st s i p" and ?c = "fst (slot_class (dr_last_window_ms st) s i p)"
    note eff = drift_step_effect [OF Cons.prems(1) assms(1,2) False refl [of ?st']]
    have "dr_low_streak st \<le> 2"
      using Cons.prems(1) by (auto simp: drift_inv_def split: DriftState.splits)
    then have "tracks (cs @ [?c]) (dr_state ?st', dr_low_streak ?st')"
      using tracks_step [OF Cons.prems(2)] eff(2) by simp
    from Cons.IH [OF eff(1) this] show ?thesis
      using False w by (simp add: drift_steps_def drift_step_last)
  qed
qed

text \<open>
  C21. Under an admitted policy, folding any sequence of windows from the initial
  drift state ends in DRIFT exactly when the history of the windows that were not repeats has
  two high windows in a row with no three low windows in a row after them. A missing, gapped or
  undersized window breaks both kinds of streak and does not release the latch.
\<close>

theorem drift_iff_latched:
  assumes "policy_constraints p = Inr ()"
  shows "dr_state (drift_steps initial_drift ws p) = DsDrift \<longleftrightarrow> latched (window_history None ws p)"
proof -
  have "pl_high_windows p = 2" "pl_low_windows p = 3"
    using assms unfolding policy_constraints_def by (auto split: if_splits)
  moreover have "drift_inv initial_drift" "tracks [] (dr_state initial_drift, dr_low_streak initial_drift)"
    by (simp_all add: drift_inv_def initial_drift_def tracks_def latched_def ends_with_def)
  ultimately show ?thesis
    using drift_steps_tracks [of p initial_drift "[]" ws]
    by (simp add: tracks_def initial_drift_def)
qed

text \<open>
  Remark. Whatever the windows, the streak counters of a reducer started from the
  initial state stay within the two high windows and three low windows of the policy, and the
  reducer is in SUSPECT exactly when its high streak is one.
\<close>

theorem drift_streaks_bounded:
  assumes "policy_constraints p = Inr ()"
  shows "dr_high_streak (drift_steps initial_drift ws p) \<le> pl_high_windows p \<and>
     dr_low_streak (drift_steps initial_drift ws p) < pl_low_windows p \<and>
     (dr_state (drift_steps initial_drift ws p) = DsSuspect \<longleftrightarrow>
      dr_high_streak (drift_steps initial_drift ws p) = 1)"
proof -
  have "pl_high_windows p = 2" "pl_low_windows p = 3"
    using assms unfolding policy_constraints_def by (auto split: if_splits)
  moreover from this have "drift_inv (drift_steps initial_drift ws p)"
    using drift_steps_tracks [of p initial_drift "[]" ws]
    by (simp add: drift_inv_def initial_drift_def tracks_def latched_def ends_with_def)
  ultimately show ?thesis by (auto simp: drift_inv_def split: DriftState.splits)
qed

theorem drift_iff_latched_witness:
  "dr_state (drift_steps initial_drift [(0, WComplete 200 5000), (10000, WComplete 200 5000)] sample_policy) =
     DsDrift \<longleftrightarrow> latched [Some CHigh, Some CHigh]"
  using drift_iff_latched [OF sample_policy_ok(2), of "[(0, WComplete 200 5000), (10000, WComplete 200 5000)]"]
  by (simp add: repeated_window_def slot_class_def window_ms_def classify_def sample_policy_def)

theorem drift_streaks_bounded_witness:
  "dr_low_streak (drift_steps initial_drift [(0, WComplete 200 5000)] sample_policy) < 3"
  using drift_streaks_bounded [OF sample_policy_ok(2), of "[(0, WComplete 200 5000)]"]
  by (simp add: sample_policy_def)

end
