(* ===== verification/Detectors.thy ===== *)
theory Detectors
  imports DriftReducer
begin

text \<open>
  The five pinned detectors (\<open>detect.rs\<close>). \<open>tvd_bp\<close> works on \<open>u128\<close>, modelled as \<open>128 word\<close>:
  a product or sum that leaves the range wraps as in the release profile, and a zero divisor is
  the panic \<open>None\<close>. \<open>evaluate\<close> returns \<open>None\<close> for that panic too.
\<close>

section \<open>Total variation distance\<close>

definition abs_diff128 :: "128 word \<Rightarrow> 128 word \<Rightarrow> 128 word" where
  "abs_diff128 a b = (if a < b then b - a else a - b)"

definition tvd_bp :: "Bins \<Rightarrow> Bins \<Rightarrow> nat option option" where
  "tvd_bp baseline current =
    (let b = sum_list (map word_of_nat (bins_list baseline)) :: 128 word;
         c = sum_list (map word_of_nat (bins_list current)) :: 128 word
     in if b = 0 \<or> c = 0 then Some None
        else
          let num = foldl (\<lambda>num (x, y). num + abs_diff128 (word_of_nat x * b) (word_of_nat y * c)) 0
                      (zip (bins_list current) (bins_list baseline));
              den = 2 * c * b
          in if den = 0 then None
             else Some (Some (unat (min ((10000 * num) div den) 10000))))"

text \<open>The exact numerator.\<close>

definition tvd_num :: "Bins \<Rightarrow> Bins \<Rightarrow> nat" where
  "tvd_num baseline current =
    (let b = sum_list (bins_list baseline); c = sum_list (bins_list current)
     in sum_list (map (\<lambda>(x, y). nat \<bar>int (x * b) - int (y * c)\<bar>)
          (zip (bins_list current) (bins_list baseline))))"

lemma unat_small: "x < 2 ^ 128 \<Longrightarrow> unat (word_of_nat x :: 128 word) = x"
  by (simp add: unat_of_nat)

lemma word_of_nat_less_iff_small:
  "x < 2 ^ 128 \<Longrightarrow> y < 2 ^ 128 \<Longrightarrow> (word_of_nat x :: 128 word) < word_of_nat y \<longleftrightarrow> x < y"
  by (simp add: word_less_nat_alt unat_small)

lemma abs_diff128_exact:
  assumes "x < 2 ^ 128" and "y < 2 ^ 128"
  shows "abs_diff128 (word_of_nat x) (word_of_nat y) = word_of_nat (nat \<bar>int x - int y\<bar>)"
proof (cases "x < y")
  case True
  then have "nat \<bar>int x - int y\<bar> = y - x" by simp
  then show ?thesis using True assms
    by (simp add: abs_diff128_def word_of_nat_less_iff_small of_nat_diff)
next
  case False
  then have "nat \<bar>int x - int y\<bar> = x - y" by simp
  then show ?thesis using False assms
    by (simp add: abs_diff128_def word_of_nat_less_iff_small of_nat_diff)
qed

lemma sum_list_word_of_nat: "sum_list (map word_of_nat xs) = (word_of_nat (sum_list xs) :: 128 word)"
  by (induction xs) simp_all

lemma tvd_num_le: "tvd_num baseline current \<le> 2 * sum_list (bins_list current) * sum_list (bins_list baseline)"
proof -
  obtain x0 x1 x2 x3 where b: "baseline = (x0, x1, x2, x3)" by (cases baseline)
  obtain y0 y1 y2 y3 where c: "current = (y0, y1, y2, y3)" by (cases current)
  define B C where "B = sum_list (bins_list baseline)" and "C = sum_list (bins_list current)"
  have d: "nat \<bar>int u - int v\<bar> \<le> u + v" for u v :: nat by simp
  have "tvd_num baseline current =
      nat \<bar>int (y0 * B) - int (x0 * C)\<bar> + nat \<bar>int (y1 * B) - int (x1 * C)\<bar> +
      nat \<bar>int (y2 * B) - int (x2 * C)\<bar> + nat \<bar>int (y3 * B) - int (x3 * C)\<bar>"
    unfolding tvd_num_def B_def C_def b c by (simp add: bins_list_def Let_def add_ac)
  also have "\<dots> \<le> (y0 * B + x0 * C) + (y1 * B + x1 * C) + (y2 * B + x2 * C) + (y3 * B + x3 * C)"
    by (intro add_mono d)
  also have "\<dots> = (y0 + y1 + y2 + y3) * B + (x0 + x1 + x2 + x3) * C"
    by (simp add: algebra_simps)
  also have "\<dots> = 2 * C * B"
    by (simp add: B_def C_def b c bins_list_def algebra_simps)
  finally show ?thesis by (simp add: B_def C_def)
qed

lemma foldl_abs_diff:
  assumes "\<And>x y. (x, y) \<in> set xys \<Longrightarrow> x * b < 2 ^ 128 \<and> y * c < 2 ^ 128"
  shows "foldl (\<lambda>num (x, y). num + abs_diff128 (word_of_nat x * word_of_nat b) (word_of_nat y * word_of_nat c))
      (word_of_nat a) xys =
    word_of_nat (a + sum_list (map (\<lambda>(x, y). nat \<bar>int (x * b) - int (y * c)\<bar>) xys))"
  using assms
proof (induction xys arbitrary: a)
  case (Cons p xys)
  obtain x y where p: "p = (x, y)" by (cases p)
  have xy: "x * b < 2 ^ 128" "y * c < 2 ^ 128" using Cons.prems [of x y] p by auto
  have step: "word_of_nat a + abs_diff128 (word_of_nat x * word_of_nat b) (word_of_nat y * word_of_nat c) =
      word_of_nat (a + nat \<bar>int (x * b) - int (y * c)\<bar>)"
    using abs_diff128_exact [OF xy] by (simp only: of_nat_mult of_nat_add)
  show ?case using Cons.IH [of "a + nat \<bar>int (x * b) - int (y * c)\<bar>"] Cons.prems p
    by (simp only: foldl_Cons p prod.case step list.map sum_list.Cons add.assoc) auto
qed simp

lemma bins_member_le: "x \<in> set (bins_list b) \<Longrightarrow> x \<le> sum_list (bins_list b)"
  by (rule member_le_sum_list) simp_all

text \<open>
  C28. While 20000 times the product of the two totals fits in 128 bits, the score is
  the exact floor of 10000 times the total variation distance of the two count vectors, and it
  lies between 0 and 10000; no clamp is used and nothing wraps.
\<close>

theorem tvd_bp_exact:
  assumes "0 < sum_list (bins_list base)" and "0 < sum_list (bins_list cur)"
    and "20000 * (sum_list (bins_list cur) * sum_list (bins_list base)) < 2 ^ 128"
  shows "tvd_bp base cur = Some (Some
           (10000 * tvd_num base cur div (2 * sum_list (bins_list cur) * sum_list (bins_list base)))) \<and>
         10000 * tvd_num base cur div (2 * sum_list (bins_list cur) * sum_list (bins_list base)) \<le> 10000"
proof -
  define B C where BC: "B = sum_list (bins_list base)" "C = sum_list (bins_list cur)"
  have pos: "0 < B" "0 < C" and cap: "20000 * (C * B) < 2 ^ 128" using assms BC by simp_all
  have "B \<le> C * B" "C \<le> C * B" using pos by simp_all
  then have small: "B < 2 ^ 128" "C < 2 ^ 128" "C * B < 2 ^ 128" "2 * C * B < 2 ^ 128"
    using cap unfolding mult.assoc by linarith+
  have le: "tvd_num base cur \<le> 2 * C * B" using tvd_num_le BC by simp
  then have num: "10000 * tvd_num base cur < 2 ^ 128" using cap unfolding mult.assoc by linarith
  have fold: "foldl (\<lambda>num (x, y). num + abs_diff128 (word_of_nat x * word_of_nat B) (word_of_nat y * word_of_nat C))
      0 (zip (bins_list cur) (bins_list base)) = (word_of_nat (tvd_num base cur) :: 128 word)"
  proof -
    have "x * B < 2 ^ 128 \<and> y * C < 2 ^ 128" if "(x, y) \<in> set (zip (bins_list cur) (bins_list base))" for x y
    proof -
      have "x \<le> C" "y \<le> B" using that BC by (auto dest: set_zip_leftD set_zip_rightD bins_member_le)
      then have "x * B \<le> C * B" "y * C \<le> C * B" by (simp_all add: mult.commute)
      then show ?thesis using small(3) by linarith
    qed
    from foldl_abs_diff [OF this, of _ 0] show ?thesis
      by (simp add: tvd_num_def BC Let_def)
  qed
  have den: "(2 * word_of_nat C * word_of_nat B :: 128 word) = word_of_nat (2 * C * B)" by simp
  have den0: "(word_of_nat (2 * C * B) :: 128 word) \<noteq> 0"
    using small(4) pos by (simp only: word_of_nat_eq_0_iff) (auto dest: dvd_imp_le)
  have nz: "(word_of_nat B :: 128 word) \<noteq> 0" "(word_of_nat C :: 128 word) \<noteq> 0"
    using small pos by (auto simp: word_of_nat_eq_0_iff dest: dvd_imp_le)
  define q where "q = 10000 * tvd_num base cur div (2 * C * B)"
  have "q \<le> 10000 * (2 * C * B) div (2 * C * B)"
    unfolding q_def by (intro div_le_mono mult_le_mono2 le)
  also have "\<dots> = 10000" using pos by (intro nonzero_mult_div_cancel_right) simp
  finally have q: "q \<le> 10000" .
  have "unat ((10000 * word_of_nat (tvd_num base cur)) div word_of_nat (2 * C * B) :: 128 word) = q"
  proof -
    have "(10000 * word_of_nat (tvd_num base cur) :: 128 word) = word_of_nat (10000 * tvd_num base cur)"
      by simp
    then show ?thesis unfolding q_def
      using num small(4) by (simp only: unat_div_distrib unat_small)
  qed
  then have "unat (min ((10000 * word_of_nat (tvd_num base cur)) div word_of_nat (2 * C * B)) 10000 :: 128 word) = q"
    using q by (simp add: min_def word_le_nat_alt)
  then have "tvd_bp base cur = Some (Some q)"
    unfolding tvd_bp_def Let_def sum_list_word_of_nat BC [symmetric] fold
    using nz den0 by (simp only: den if_False simp_thms)
  then show ?thesis using q by (simp add: q_def BC)
qed

theorem tvd_bp_exact_witness: "tvd_bp (30, 10, 0, 0) (10, 30, 0, 0) = Some (Some 5000)"
proof -
  have "tvd_bp (30, 10, 0, 0) (10, 30, 0, 0) = Some (Some
      (10000 * tvd_num (30, 10, 0, 0) (10, 30, 0, 0) div (2 * 40 * 40)))"
    using tvd_bp_exact [of "(30, 10, 0, 0)" "(10, 30, 0, 0)"] by (simp add: bins_list_def)
  then show ?thesis by (simp add: tvd_num_def bins_list_def)
qed

section \<open>The detectors\<close>

definition res :: "Monitor \<Rightarrow> Verdict \<Rightarrow> string \<Rightarrow> nat option \<Rightarrow> Ref list \<Rightarrow> Result_" where
  "res m v reason score ev = \<lparr>rs_monitor = mo_id m, rs_detector = mo_detector m, rs_verdict = v,
     rs_reason = reason, rs_score_bp = score, rs_evidence = ev\<rparr>"

definition evaluate :: "Monitor \<Rightarrow> Policy \<Rightarrow> ObservationBody \<Rightarrow> Ref option \<Rightarrow> Intent option \<Rightarrow>
    Drift option \<Rightarrow> Result_ option" where
  "evaluate monitor policy body obs_ref intent drift_state =
    (let ev = (case obs_ref of None \<Rightarrow> [] | Some r \<Rightarrow> [r]);
         snap = ob_snapshot body
     in case mo_detector monitor of
       Scope \<Rightarrow>
         (let bad_snap = \<not> list_all (\<lambda>s. s \<in> set (pl_allowed_scopes policy)) (sn_scopes snap);
              bad_intent = (case intent of None \<Rightarrow> False
                | Some i \<Rightarrow> \<not> list_all (\<lambda>s. s \<in> set (pl_allowed_scopes policy)) (it_scopes i))
          in if bad_snap \<or> bad_intent then Some (res monitor VFlag ''SCOPE_DRIFT'' None ev)
             else Some (res monitor VClear ''SCOPE_OK'' None ev))
     | Spend \<Rightarrow>
         (let cost = (case intent of None \<Rightarrow> 0 | Some i \<Rightarrow> it_cost_minor i);
              total = sat_add64 (sat_add64 (sn_committed_minor snap) (sn_reserved_minor snap)) cost
          in if total > pl_cap_minor policy then Some (res monitor VFlag ''SPEND_CAP'' None ev)
             else if cost \<ge> pl_review_at_minor policy
             then Some (res monitor VUncertain ''LARGE_ACTION'' None ev)
             else Some (res monitor VClear ''SPEND_OK'' None ev))
     | Replicas \<Rightarrow>
         (case sn_replicas snap of
            None \<Rightarrow> Some (res monitor VUnavailable ''REPLICA_UNKNOWN'' None ev)
          | Some c \<Rightarrow> if c > pl_max_replicas policy
                      then Some (res monitor VFlag ''REPLICATION_DRIFT'' None ev)
                      else Some (res monitor VClear ''REPLICAS_OK'' None ev))
     | Rate \<Rightarrow>
         (case sn_window snap of
            None \<Rightarrow> Some (res monitor VUnavailable ''WINDOW_MISSING'' None ev)
          | Some w \<Rightarrow>
              (let total = wsum64 (bins_list (wn_counts w))
               in if total > pl_rate_per_window policy
                  then Some (res monitor VFlag ''RATE_SPIKE'' None ev)
                  else Some (res monitor VClear ''RATE_OK'' None ev)))
     | Distribution \<Rightarrow>
         (case sn_window snap of
            None \<Rightarrow> Some (res monitor VUnavailable ''WINDOW_MISSING'' None ev)
          | Some w \<Rightarrow>
              (let samples = wsum64 (bins_list (wn_counts w))
               in if samples < pl_min_window_samples policy
                  then Some (res monitor VUnavailable ''BASELINE_WARMUP'' None ev)
                  else case tvd_bp (bl_counts (pl_baseline policy)) (wn_counts w) of
                    None \<Rightarrow> None
                  | Some sc \<Rightarrow>
                      (let score = (case sc of None \<Rightarrow> 0 | Some x \<Rightarrow> x);
                           prior = (case drift_state of None \<Rightarrow> initial_drift | Some x \<Rightarrow> x);
                           nxt = drift_step prior (wn_start_ms w) (WComplete samples score) policy;
                           (verdict, reason) = (case dr_state nxt of
                               DsDrift \<Rightarrow> (VFlag, ''DISTRIBUTION_DRIFT'')
                             | DsSuspect \<Rightarrow> (VUncertain, ''DISTRIBUTION_SUSPECT'')
                             | DsStable \<Rightarrow> (VClear, ''DISTRIBUTION_OK'')
                             | DsWarmup \<Rightarrow> (VClear, ''DISTRIBUTION_OK''))
                       in Some (res monitor verdict reason (Some score) ev)))))"

section \<open>What the blocking detectors decide\<close>

definition intent_scopes :: "Intent option \<Rightarrow> string list" where
  "intent_scopes i = (case i of None \<Rightarrow> [] | Some x \<Rightarrow> it_scopes x)"

definition intent_cost :: "Intent option \<Rightarrow> nat" where
  "intent_cost i = (case i of None \<Rightarrow> 0 | Some x \<Rightarrow> it_cost_minor x)"

text \<open>The verdict the three blocking detectors owe, in plain arithmetic and sets.\<close>

definition blocking_verdict :: "Detector \<Rightarrow> Policy \<Rightarrow> Snapshot \<Rightarrow> Intent option \<Rightarrow> Verdict" where
  "blocking_verdict det p snap i = (case det of
     Scope \<Rightarrow> (if set (sn_scopes snap) \<union> set (intent_scopes i) \<subseteq> set (pl_allowed_scopes p)
               then VClear else VFlag)
   | Spend \<Rightarrow> (if sn_committed_minor snap + sn_reserved_minor snap + intent_cost i > pl_cap_minor p
               then VFlag
               else if intent_cost i \<ge> pl_review_at_minor p then VUncertain else VClear)
   | _ \<Rightarrow> (case sn_replicas snap of None \<Rightarrow> VUnavailable
               | Some c \<Rightarrow> if c \<le> pl_max_replicas p then VClear else VFlag))"

lemma sat_total_exceeds:
  assumes "cap < u64_max"
  shows "sat_add64 (sat_add64 a b) c > cap \<longleftrightarrow> a + b + c > cap"
  using assms by (auto simp: sat_add64_def)

text \<open>
  C27. A blocking detector always returns a result, under the monitor's own
  identifier, and its verdict is the one owed: scope flags any scope outside the policy, spend
  flags a total above the cap (saturation of the 64-bit sums cannot hide it) and asks for review
  from the review threshold on, replicas flags a count above the maximum and is unavailable when
  the count is unknown.
\<close>

theorem evaluate_blocking:
  assumes "valid_policy p" and "mo_detector m \<in> {Scope, Spend, Replicas}"
  shows "\<exists>r. evaluate m p body obs_ref i ds = Some r \<and> rs_monitor r = mo_id m \<and>
     rs_verdict r = blocking_verdict (mo_detector m) p (ob_snapshot body) i"
proof -
  have cap: "pl_cap_minor p < u64_max"
    using assms(1) by (simp add: valid_policy_def u_max_def u64_max_def)
  consider "mo_detector m = Scope" | "mo_detector m = Spend" | "mo_detector m = Replicas"
    using assms(2) by auto
  then show ?thesis
  proof cases
    case 1
    then show ?thesis
      by (cases i) (auto simp: evaluate_def Let_def res_def blocking_verdict_def intent_scopes_def
          list_all_iff)
  next
    case 2
    then show ?thesis
      by (cases i) (auto simp: evaluate_def Let_def res_def blocking_verdict_def intent_cost_def
          sat_total_exceeds [OF cap])
  next
    case 3
    then show ?thesis
      by (auto simp: evaluate_def Let_def res_def blocking_verdict_def split: option.split)
  qed
qed

theorem evaluate_blocking_witness:
  "\<exists>r. evaluate (sample_monitor ''spend'' Spend) sample_policy sample_body None (Some sample_intent) None = Some r \<and>
     rs_monitor r = ''spend'' \<and> rs_verdict r = VClear"
  using evaluate_blocking [OF sample_policy_ok(1), of "sample_monitor ''spend'' Spend" sample_body None
      "Some sample_intent" None]
  by (simp add: sample_monitor_def blocking_verdict_def intent_cost_def sample_body_def
      sample_snapshot_def sample_policy_def sample_intent_def)

definition flood_window :: Window where
  "flood_window = \<lparr>wn_start_ms = 0, wn_counts = (2 ^ 62, 2 ^ 62, 2 ^ 62, 2 ^ 62)\<rparr>"

definition flood_body :: ObservationBody where
  "flood_body = sample_body\<lparr>ob_snapshot := sample_snapshot\<lparr>sn_window := Some flood_window\<rparr>\<rparr>"

text \<open>
  Remark. The 64-bit sum of admissible window counts can wrap: four counts of 2^62
  have the total 2^64, which no cap admits, yet the rate detector reports RATE_OK.
\<close>

theorem rate_total_wraps:
  assumes "mo_detector m = Rate" and "sn_window (ob_snapshot body) = Some w"
    and "wn_counts w = (2 ^ 62, 2 ^ 62, 2 ^ 62, 2 ^ 62)"
  shows "valid_bins (wn_counts w) \<and> sum_list (bins_list (wn_counts w)) = 2 ^ 64 \<and>
     map_option rs_verdict (evaluate m p body obs_ref i ds) = Some VClear"
  using assms by (simp add: evaluate_def Let_def res_def wsum64_eq bins_list_def valid_bins_def u_max_def)

theorem rate_total_wraps_witness:
  "map_option rs_verdict (evaluate (sample_monitor ''rate'' Rate) sample_policy flood_body None None None) =
     Some VClear"
proof -
  have "mo_detector (sample_monitor ''rate'' Rate) = Rate" by (simp add: sample_monitor_def)
  moreover have "sn_window (ob_snapshot flood_body) = Some flood_window" by (simp add: flood_body_def)
  moreover have "wn_counts flood_window = (2 ^ 62, 2 ^ 62, 2 ^ 62, 2 ^ 62)"
    by (simp only: flood_window_def Window.simps)
  ultimately show ?thesis using rate_total_wraps by blast
qed

section \<open>No panic under an admitted policy\<close>

lemma two_power_dvd_mult:
  "2 ^ (i + j + 1) dvd x * y \<Longrightarrow> 2 ^ (i + 1) dvd x \<or> 2 ^ (j + 1) dvd (y :: nat)"
proof (induction i arbitrary: x)
  case 0
  then show ?case
    by (cases "even x") (auto simp: coprime_dvd_mult_right_iff)
next
  case (Suc i)
  show ?case
  proof (cases "even x")
    case True
    then obtain x' where x: "x = 2 * x'" by (rule evenE)
    have "2 ^ (i + j + 1) dvd x' * y" using Suc.prems by (simp add: x mult.assoc)
    from Suc.IH [OF this] show ?thesis by (auto simp: x)
  next
    case False
    then have "coprime (2 ^ (Suc i + j + 1)) x"
      unfolding coprime_power_left_iff by simp
    then have "2 ^ (Suc i + j + 1) dvd y" using Suc.prems by (simp only: coprime_dvd_mult_right_iff)
    then show ?thesis by (meson dvd_trans le_imp_power_dvd le_add2 add_le_mono le_refl)
  qed
qed

lemma tvd_bp_no_panic:
  assumes "valid_bins base" and "valid_bins cur"
    and "wsum64 (bins_list base) \<noteq> 0" and "wsum64 (bins_list cur) \<noteq> 0"
  shows "tvd_bp base cur \<noteq> None"
proof -
  define B C where BC: "B = sum_list (bins_list base)" "C = sum_list (bins_list cur)"
  have "\<not> 2 ^ 64 dvd B" "\<not> 2 ^ 64 dvd C"
    using assms(3,4) by (simp_all add: wsum64_eq BC dvd_eq_mod_eq_0)
  then have "\<not> 2 ^ (63 + 63 + 1) dvd C * B" using two_power_dvd_mult [of 63 63 C B] by auto
  then have "\<not> 2 * 2 ^ 127 dvd 2 * (C * B)" by (simp only: nat_mult_dvd_cancel_disj) simp
  then have "\<not> 2 ^ 128 dvd 2 * C * B" by (simp add: mult.assoc del: dvd_mult_cancel_left)
  then have "(word_of_nat (2 * C * B) :: 128 word) \<noteq> 0" by (simp only: word_of_nat_eq_0_iff) simp
  then have "(2 * word_of_nat C * word_of_nat B :: 128 word) \<noteq> 0" by simp
  then show ?thesis unfolding tvd_bp_def Let_def sum_list_word_of_nat BC [symmetric] by simp
qed

text \<open>
  C29. For an admitted policy and a validated observation no detector panics: the
  128-bit divisor of the distribution score never wraps to zero, because neither total is a
  multiple of 2^64.
\<close>

theorem evaluate_total:
  assumes "valid_policy p" and "policy_constraints p = Inr ()" and "valid_observation_body body"
  shows "evaluate m p body obs_ref i ds \<noteq> None"
proof -
  have base: "valid_bins (bl_counts (pl_baseline p))" "wsum64 (bins_list (bl_counts (pl_baseline p))) \<noteq> 0"
    "100 \<le> pl_min_window_samples p"
    using assms(1,2) by (auto simp: valid_policy_def valid_baseline_def policy_constraints_def split: if_splits)
  have "tvd_bp (bl_counts (pl_baseline p)) (wn_counts w) \<noteq> None"
    if w: "sn_window (ob_snapshot body) = Some w" and s: "\<not> wsum64 (bins_list (wn_counts w)) < pl_min_window_samples p" for w
  proof (rule tvd_bp_no_panic [OF base(1) _ base(2)])
    show "valid_bins (wn_counts w)"
      using assms(3) w by (simp add: valid_observation_body_def valid_snapshot_def valid_window_def)
    show "wsum64 (bins_list (wn_counts w)) \<noteq> 0" using s base(3) by simp
  qed
  then show ?thesis
    by (cases "mo_detector m") (auto simp: evaluate_def Let_def split: option.splits prod.splits DriftState.splits)
qed

theorem evaluate_total_witness:
  "evaluate (sample_monitor ''scope'' Scope) sample_policy sample_body None None None \<noteq> None"
  by (rule evaluate_total) simp_all

end
