(* ===== verification/Aggregation.thy ===== *)
theory Aggregation
  imports Detectors SchemaReview
begin

text \<open>
  Blocking aggregation, the deadline rule and the digests of findings, bases, intents, alerts and
  reviews (\<open>aggregate.rs\<close>).
\<close>

section \<open>Aggregation\<close>

type_synonym Slot = "Result_ option"

datatype Outcome = OClear | ODeny string | OHeld string bool | OExpired string

record QueueCtx =
  qc_depth :: nat
  qc_per_run_open :: nat
  qc_queue_capacity :: nat
  qc_per_run_cap :: nat
  qc_existing_basis :: bool

text \<open>The first flagged result.\<close>

fun first_flag :: "Slot list \<Rightarrow> string option" where
  "first_flag [] = None"
| "first_flag (None # ss) = first_flag ss"
| "first_flag (Some r # ss) = (if rs_verdict r = VFlag then Some (rs_reason r) else first_flag ss)"

fun first_gap :: "Slot list \<Rightarrow> string option" where
  "first_gap [] = None"
| "first_gap (None # ss) = Some ''MONITOR_TIMEOUT''"
| "first_gap (Some r # ss) =
     (if rs_verdict r = VUnavailable then Some ''MONITOR_UNAVAILABLE'' else first_gap ss)"

definition uncertain_of :: "Slot list \<Rightarrow> Result_ list" where
  "uncertain_of slots = filter (\<lambda>r. rs_verdict r = VUncertain) (concat (map (case_option [] (\<lambda>r. [r])) slots))"

definition aggregate :: "Slot list \<Rightarrow> QueueCtx \<Rightarrow> Outcome" where
  "aggregate slots q = (case first_flag slots of
      Some reason \<Rightarrow> ODeny reason
    | None \<Rightarrow> (case first_gap slots of
        Some reason \<Rightarrow> OExpired reason
      | None \<Rightarrow> (case uncertain_of slots of
          u # _ \<Rightarrow>
            (let reason = rs_reason u in
             if qc_existing_basis q then OHeld reason False
             else if qc_depth q \<ge> qc_queue_capacity q \<or> qc_per_run_open q \<ge> qc_per_run_cap q
             then ODeny ''QUEUE_FULL''
             else OHeld reason True)
        | [] \<Rightarrow> OClear)))"

definition worker_late :: "nat \<Rightarrow> nat \<Rightarrow> bool" where
  "worker_late worker_deadline_ms received_ms \<longleftrightarrow> received_ms \<ge> worker_deadline_ms"

section \<open>Digests\<close>

text \<open>The comparison \<open>a.monitor.cmp(&b.monitor)\<close>.\<close>

definition by_monitor :: "Result_ \<Rightarrow> Result_ \<Rightarrow> bool" where
  "by_monitor a b \<longleftrightarrow> str_le (rs_monitor a) (rs_monitor b)"

definition findings_digest :: "Crypto \<Rightarrow> Result_ list \<Rightarrow> string" where
  "findings_digest cr results =
    (let uncertain = filter (\<lambda>r. rs_verdict r = VUncertain) results;
         sorted = sort_by by_monitor uncertain;
         vals = map (\<lambda>r. result_value (r\<lparr>rs_evidence := []\<rparr>)) sorted
     in d cr ''findings'' (Arr vals))"

definition basis_digest :: "Crypto \<Rightarrow> Basis \<Rightarrow> string" where
  "basis_digest cr b = d cr ''basis'' (basis_value b)"

definition intent_digest :: "Crypto \<Rightarrow> Intent \<Rightarrow> string" where
  "intent_digest cr i = d cr ''intent'' (intent_value i)"

definition episode_key :: "string \<Rightarrow> string \<Rightarrow> string \<Rightarrow> string" where
  "episode_key run monitor baseline =
     jcs (Obj [(''run'', Str run), (''monitor'', Str monitor), (''baseline'', Str baseline)])"

definition alert_id :: "Crypto \<Rightarrow> string \<Rightarrow> string \<Rightarrow> string \<Rightarrow> Ref \<Rightarrow> string" where
  "alert_id cr run monitor baseline first =
     ''wta_'' @ take 32 (d cr ''alert-id'' (Obj [(''run'', Str run), (''monitor'', Str monitor),
        (''baseline'', Str baseline), (''first'', ref_value first)]))"

definition review_id :: "Crypto \<Rightarrow> string \<Rightarrow> string option \<Rightarrow> string option \<Rightarrow> string option \<Rightarrow> string" where
  "review_id cr run basis alert origin =
     ''wth_'' @ take 32 (d cr ''review-id'' (Obj [(''run'', Str run), (''basis'', opt_value Str basis),
        (''alert'', opt_value Str alert), (''origin_check'', opt_value Str origin)]))"

section \<open>No fail-open\<close>

lemma first_flag_None: "first_flag slots = None \<longleftrightarrow> (\<forall>r. Some r \<in> set slots \<longrightarrow> rs_verdict r \<noteq> VFlag)"
  by (induction slots rule: first_flag.induct) auto

lemma first_flag_Some: "first_flag slots = Some reason \<Longrightarrow>
    \<exists>r. Some r \<in> set slots \<and> rs_verdict r = VFlag \<and> rs_reason r = reason"
  by (induction slots rule: first_flag.induct) (auto split: if_splits)

lemma first_gap_None: "first_gap slots = None \<longleftrightarrow>
    None \<notin> set slots \<and> (\<forall>r. Some r \<in> set slots \<longrightarrow> rs_verdict r \<noteq> VUnavailable)"
  by (induction slots rule: first_gap.induct) auto

lemma set_uncertain_of: "set (uncertain_of slots) = {r. Some r \<in> set slots \<and> rs_verdict r = VUncertain}"
  by (induction slots) (auto simp: uncertain_of_def split: option.splits)

lemma passed_slot:
  assumes "first_flag slots = None" and "first_gap slots = None" and "s \<in> set slots"
  shows "map_option rs_verdict s \<in> {Some VClear, Some VUncertain}"
proof (cases s)
  case None
  then show ?thesis using assms(2,3) by (simp add: first_gap_None)
next
  case (Some r)
  then show ?thesis using assms by (cases "rs_verdict r") (auto simp: first_flag_None first_gap_None)
qed

lemma passed_slots:
  "aggregate slots q = OClear \<Longrightarrow> list_all (\<lambda>s. map_option rs_verdict s = Some VClear) slots"
  "aggregate slots q = OHeld reason fresh \<Longrightarrow> list_all (\<lambda>s. map_option rs_verdict s \<in> {Some VClear, Some VUncertain}) slots"
proof -
  assume "aggregate slots q = OClear"
  then have n: "first_flag slots = None" "first_gap slots = None" "uncertain_of slots = []"
    by (auto simp: aggregate_def Let_def split: option.splits list.splits if_splits)
  then have "\<forall>r. Some r \<in> set slots \<longrightarrow> rs_verdict r \<noteq> VUncertain" using set_uncertain_of [of slots] by auto
  then show "list_all (\<lambda>s. map_option rs_verdict s = Some VClear) slots"
    unfolding list_all_iff using passed_slot [OF n(1,2)] by fastforce
next
  assume "aggregate slots q = OHeld reason fresh"
  then have "first_flag slots = None" "first_gap slots = None"
    by (auto simp: aggregate_def Let_def split: option.splits list.splits if_splits)
  then show "list_all (\<lambda>s. map_option rs_verdict s \<in> {Some VClear, Some VUncertain}) slots"
    unfolding list_all_iff using passed_slot by blast
qed

text \<open>
  C15. The outcome is CLEAR exactly when every required monitor returned a result
  and every result is clear: a flag, an unavailable or uncertain result, or a slot without a
  result (its deadline was missed) always blocks, whatever the state of the review queue.
\<close>

theorem aggregate_clear_iff:
  "aggregate slots q = OClear \<longleftrightarrow> list_all (\<lambda>s. map_option rs_verdict s = Some VClear) slots"
proof
  assume all: "list_all (\<lambda>s. map_option rs_verdict s = Some VClear) slots"
  then have "first_flag slots = None" "first_gap slots = None"
    by (auto simp: first_flag_None first_gap_None list_all_iff)
  moreover have "uncertain_of slots = []"
    unfolding set_empty [symmetric] set_uncertain_of using all by (auto simp: list_all_iff)
  ultimately show "aggregate slots q = OClear" by (simp add: aggregate_def)
qed (rule passed_slots)

text \<open>A flag denies, whatever the other results are.\<close>

lemma aggregate_flag:
  assumes "Some r \<in> set slots" and "rs_verdict r = VFlag"
  shows "\<exists>reason. aggregate slots q = ODeny reason"
proof -
  have "first_flag slots \<noteq> None" using assms by (auto simp: first_flag_None)
  then show ?thesis by (auto simp: aggregate_def)
qed

text \<open>
  C19. A check is held only when the results are complete, none is a flag or
  unavailable, and the reason is that of an uncertain result; a fresh review is opened only
  when the basis is not queued yet and both the queue and the run have room for it.
\<close>

theorem aggregate_held:
  assumes "aggregate slots q = OHeld reason fresh"
  shows "list_all (\<lambda>s. map_option rs_verdict s \<in> {Some VClear, Some VUncertain}) slots \<and>
     (\<exists>r. Some r \<in> set slots \<and> rs_verdict r = VUncertain \<and> rs_reason r = reason) \<and>
     fresh = (\<not> qc_existing_basis q) \<and>
     (qc_existing_basis q \<or>
      qc_depth q < qc_queue_capacity q \<and> qc_per_run_open q < qc_per_run_cap q)"
proof -
  from assms obtain u us where n: "first_flag slots = None" "first_gap slots = None"
      "uncertain_of slots = u # us" "rs_reason u = reason"
      and q: "fresh = (\<not> qc_existing_basis q)" "qc_existing_basis q \<or>
        qc_depth q < qc_queue_capacity q \<and> qc_per_run_open q < qc_per_run_cap q"
    by (auto simp: aggregate_def Let_def split: option.splits list.splits if_splits)
  have "list_all (\<lambda>s. map_option rs_verdict s \<in> {Some VClear, Some VUncertain}) slots"
    using assms by (rule passed_slots)
  moreover have "Some u \<in> set slots" "rs_verdict u = VUncertain"
    using set_uncertain_of [of slots] n(3) by auto
  ultimately show ?thesis using n(4) q by blast
qed

definition sample_result :: "string \<Rightarrow> Verdict \<Rightarrow> Result_" where
  "sample_result m v = \<lparr>rs_monitor = m, rs_detector = Spend, rs_verdict = v,
     rs_reason = ''LARGE_ACTION'', rs_score_bp = None, rs_evidence = []\<rparr>"

theorem aggregate_held_witness:
  "(\<exists>r. Some r \<in> set [Some (sample_result ''spend'' VUncertain)] \<and> rs_verdict r = VUncertain \<and>
     rs_reason r = ''LARGE_ACTION'')"
  using aggregate_held [of "[Some (sample_result ''spend'' VUncertain)]"
      "\<lparr>qc_depth = 0, qc_per_run_open = 0, qc_queue_capacity = 8, qc_per_run_cap = 2,
        qc_existing_basis = False\<rparr>" "''LARGE_ACTION''" True]
  by (simp add: aggregate_def uncertain_of_def sample_result_def)

section \<open>The findings digest\<close>

interpretation monitor_order: total_preorder by_monitor
  by unfold_locales (auto intro: str_le_trans simp: str_le_linear by_monitor_def)

lemma mset_filter_eq: "mset xs = mset ys \<Longrightarrow> mset (filter P xs) = mset (filter P ys)"
  by (metis mset_filter)

text \<open>
  Remark. The findings digest commits to the uncertain results of distinct
  monitors as a set: the order in which the results arrived and every result that is not
  uncertain leave it unchanged, and so does the evidence.
\<close>

theorem findings_digest_order:
  assumes "distinct (map rs_monitor rs1)"
    and "mset (filter (\<lambda>r. rs_verdict r = VUncertain) (map (\<lambda>r. r\<lparr>rs_evidence := []\<rparr>) rs1)) =
         mset (filter (\<lambda>r. rs_verdict r = VUncertain) (map (\<lambda>r. r\<lparr>rs_evidence := []\<rparr>) rs2))"
  shows "findings_digest cr rs1 = findings_digest cr rs2"
proof -
  let ?le = by_monitor
  define strip where "strip r = r\<lparr>rs_evidence := []\<rparr>" for r :: Result_
  define unc where "unc xs = filter (\<lambda>r. rs_verdict r = VUncertain) xs" for xs :: "Result_ list"
  have keep [simp]: "rs_monitor (strip r) = rs_monitor r" "rs_verdict (strip r) = rs_verdict r" for r
    by (simp_all add: strip_def)
  have ins: "map strip (ins_by ?le x xs) = ins_by ?le (strip x) (map strip xs)" for x xs
    by (induction xs) (simp_all add: by_monitor_def)
  have srt: "map strip (sort_by ?le xs) = sort_by ?le (map strip xs)" for xs
    by (induction xs) (simp_all add: sort_by_def ins)
  have unc: "map strip (unc xs) = unc (map strip xs)" for xs
    by (induction xs) (simp_all add: unc_def)
  have dig: "findings_digest cr xs = d cr ''findings'' (Arr (map result_value (sort_by ?le (unc (map strip xs)))))" for xs
    by (simp add: findings_digest_def Let_def unc [symmetric] srt [symmetric])
      (simp add: unc_def strip_def comp_def)
  have "sort_by ?le (unc (map strip rs1)) = sort_by ?le (unc (map strip rs2))"
  proof (rule monitor_order.sorted_unique_keys)
    show "sorted_wrt ?le (sort_by ?le (unc (map strip rs1)))" "sorted_wrt ?le (sort_by ?le (unc (map strip rs2)))"
      by (rule monitor_order.sorted_sort_by)+
    show "mset (sort_by ?le (unc (map strip rs1))) = mset (sort_by ?le (unc (map strip rs2)))"
      using assms(2) by (simp add: unc_def strip_def [abs_def])
    fix a b assume "a \<in> set (sort_by ?le (unc (map strip rs1)))" "b \<in> set (sort_by ?le (unc (map strip rs1)))"
      and "?le a b" "?le b a"
    moreover from this have "a \<in> set (map strip rs1)" "b \<in> set (map strip rs1)"
      by (auto simp: unc_def)
    moreover have "distinct (map rs_monitor (map strip rs1))" using assms(1) by (simp add: comp_def)
    ultimately show "a = b"
      unfolding by_monitor_def using str_le_antisym by (metis distinct_map inj_onD)
  qed
  then show ?thesis by (simp add: dig)
qed

theorem findings_digest_order_witness:
  "findings_digest toy_crypto [sample_result ''a'' VUncertain, sample_result ''b'' VUncertain] =
   findings_digest toy_crypto [sample_result ''b'' VUncertain, sample_result ''c'' VClear,
     sample_result ''a'' VUncertain]"
  by (rule findings_digest_order) (simp_all add: sample_result_def)

end
