(* ===== verification/Guard.thy ===== *)
theory Guard
  imports Aggregation SchemaConfig
begin

text \<open>
  The dispatch guard of a certified runtime (\<open>guard.rs\<close>): the checks that turn a signed clearance
  into one allowed effect, and the runtime's own durable tables. \<open>dispatch\<close> is the whole method:
  it returns the outcome and the guard with its tables, which a failed transaction leaves as they
  were. Integers are stored as \<open>i64\<close>; a sum that leaves \<open>i64\<close> is the engine's error.
\<close>

section \<open>State\<close>

type_synonym GuardKey = "string \<times> string \<times> nat \<times> string"

text \<open>
  The tables \<open>consumed\<close>, \<open>dispatched\<close> and \<open>reservations\<close>; the table \<open>records\<close> is created and never
  used. The engine's \<open>SUM\<close> fails when it leaves \<open>i64\<close>, which the model says of the total.
\<close>

record GuardDb =
  gb_consumed :: "GuardKey list"
  gb_dispatched :: "(string \<times> string \<times> string) list"
  gb_reservations :: "((string \<times> string) \<times> int) list"

record Guard =
  gd_db :: GuardDb
  gd_runtime :: string
  gd_tenant :: string
  gd_trust :: Trust
  gd_authority_ok :: bool
  gd_cap_minor :: nat

record GuardOutcome =
  go_dispatched :: bool
  go_code :: "Code option"

definition new_in_memory :: "string \<Rightarrow> string \<Rightarrow> Trust \<Rightarrow> nat \<Rightarrow> Guard" where
  "new_in_memory runtime tenant trust cap_minor =
     \<lparr>gd_db = \<lparr>gb_consumed = [], gb_dispatched = [], gb_reservations = []\<rparr>, gd_runtime = runtime,
      gd_tenant = tenant, gd_trust = trust, gd_authority_ok = True, gd_cap_minor = cap_minor\<rparr>"

section \<open>Integers of the engine\<close>

text \<open>\<open>x as i64\<close> and \<open>x as u64\<close>.\<close>

definition as_i64 :: "nat \<Rightarrow> int" where
  "as_i64 n = (if n mod 2 ^ 64 < 2 ^ 63 then int (n mod 2 ^ 64) else int (n mod 2 ^ 64) - 2 ^ 64)"

definition as_u64 :: "int \<Rightarrow> nat" where
  "as_u64 i = nat (i mod 2 ^ 64)"

definition is_i64 :: "int \<Rightarrow> bool" where
  "is_i64 i \<longleftrightarrow> - (2 ^ 63) \<le> i \<and> i < 2 ^ 63"

lemma as_i64_small: "n < 2 ^ 63 \<Longrightarrow> as_i64 n = int n"
  by (simp add: as_i64_def)

lemma as_u64_small: "0 \<le> i \<Longrightarrow> i < 2 ^ 64 \<Longrightarrow> as_u64 i = nat i"
  by (simp add: as_u64_def)

section \<open>Dispatch\<close>

text \<open>The pin of the signer: live, not compromised, for the tag, the tenant and the key epoch.\<close>

definition clearance_pin :: "Guard \<Rightarrow> Signed \<Rightarrow> KeyPin \<Rightarrow> bool" where
  "clearance_pin g sv k \<longleftrightarrow> kp_id k = sd_key_id sv \<and> kp_live k \<and> \<not> kp_compromised k \<and>
     ''clearance'' \<in> set (kp_tags k) \<and> gd_tenant g \<in> set (kp_subjects k) \<and>
     sd_key_epoch sv \<ge> kp_from_epoch k \<and>
     (case kp_through_epoch k of None \<Rightarrow> True | Some t \<Rightarrow> sd_key_epoch sv \<le> t)"

definition no :: "Code \<Rightarrow> GuardOutcome" where
  "no c = \<lparr>go_dispatched = False, go_code = Some c\<rparr>"

definition reserved :: "GuardDb \<Rightarrow> string \<Rightarrow> int" where
  "reserved db run = sum_list (map snd (filter (\<lambda>row. fst (fst row) = run) (gb_reservations db)))"

text \<open>The checks before the transaction: the clearance, or the refusal.\<close>

definition dispatch_checks :: "Crypto \<Rightarrow> Guard \<Rightarrow> Value \<Rightarrow> Run \<Rightarrow> Intent \<Rightarrow> nat \<Rightarrow> nat \<Rightarrow> Code + Clearance" where
  "dispatch_checks cr g clearance_env run check_intent now target_revision =
    (case signed_of cr clearance_env of Inl _ \<Rightarrow> Inl SignatureInvalid | Inr sv \<Rightarrow>
     case clearance_body_of (sd_body sv) of Inl _ \<Rightarrow> Inl SignatureInvalid | Inr cb \<Rightarrow>
     if cl_tenant cb \<noteq> gd_tenant g \<or> cl_runtime cb \<noteq> gd_runtime g then Inl Forbidden else
     if cl_mode cb \<noteq> ''GUARDED'' then Inl Forbidden else
     case find (clearance_pin g sv) (tr_keys (gd_trust g)) of None \<Rightarrow> Inl Forbidden | Some pin \<Rightarrow>
     case b64u_decode cr (kp_public_key pin) of None \<Rightarrow> Inl Forbidden | Some pk \<Rightarrow>
     if length pk \<noteq> 32 then Inl Forbidden else
     if \<not> verify_envelope cr ''clearance'' (sd_body sv) (sd_digest sv) (sd_key_id sv)
            (dec (sd_key_epoch sv)) (sd_signature sv) pk then Inl Forbidden else
     if cl_run cb \<noteq> rn_id run \<or> cl_guard_epoch cb \<noteq> rn_guard_epoch run \<or> cl_boot cb \<noteq> rn_boot run \<or>
        cl_policy cb \<noteq> rn_policy run \<or> cl_intent cb \<noteq> intent_digest cr check_intent
     then Inl Forbidden else
     if now \<ge> cl_expires_ms cb \<or> now < cl_issued_ms cb then Inl LeaseExpired else
     if \<not> gd_authority_ok g then Inl Forbidden else
     if target_revision \<noteq> it_target_revision check_intent then Inl TargetStale else
     Inr cb)"

text \<open>The transaction: consume once, dispatch once, quota, then the three inserts.\<close>

definition dispatch_tx :: "Guard \<Rightarrow> Clearance \<Rightarrow> Intent \<Rightarrow> nat \<Rightarrow> GuardOutcome R \<times> GuardDb" where
  "dispatch_tx g cb check_intent cost_minor =
    (let db = gd_db g;
         key = (gd_tenant g, cl_run cb, cl_guard_epoch cb, cl_check cb);
         action = (gd_tenant g, cl_run cb, it_action check_intent);
         res_key = (cl_run cb, it_action check_intent);
         committed = reserved db (cl_run cb);
         engine_error = Inl (new_fault AuditUnavailable ''sqlite'')
     in if key \<in> set (gb_consumed db) then (Inr (no StateConflict), db)
        else if action \<in> set (gb_dispatched db) then (Inr (no StateConflict), db)
        else if \<not> is_i64 committed then (engine_error, db)
        else if wadd64 (as_u64 committed) cost_minor > gd_cap_minor g then (Inr (no Forbidden), db)
        else if res_key \<in> fst ` set (gb_reservations db) then (engine_error, db)
        else (Inr \<lparr>go_dispatched = True, go_code = None\<rparr>,
              db\<lparr>gb_reservations := gb_reservations db @ [(res_key, as_i64 cost_minor)],
                 gb_consumed := gb_consumed db @ [key],
                 gb_dispatched := gb_dispatched db @ [action]\<rparr>))"

definition dispatch :: "Crypto \<Rightarrow> Guard \<Rightarrow> Value \<Rightarrow> Run \<Rightarrow> Intent \<Rightarrow> nat \<Rightarrow> nat \<Rightarrow> nat \<Rightarrow> GuardOutcome R \<times> Guard" where
  "dispatch cr g clearance_env run check_intent now target_revision cost_minor =
    (case dispatch_checks cr g clearance_env run check_intent now target_revision of
       Inl c \<Rightarrow> (Inr (no c), g)
     | Inr cb \<Rightarrow> (case dispatch_tx g cb check_intent cost_minor of (r, db) \<Rightarrow> (r, g\<lparr>gd_db := db\<rparr>)))"

definition allowed :: "GuardOutcome R \<Rightarrow> bool" where
  "allowed r \<longleftrightarrow> (case r of Inl _ \<Rightarrow> False | Inr out \<Rightarrow> go_dispatched out)"

section \<open>What a dispatch proves\<close>

lemma find_Some_mem: "find P xs = Some x \<Longrightarrow> x \<in> set xs \<and> P x"
  by (induction xs) (auto split: if_splits)

lemma dispatch_checks_ok:
  assumes "dispatch_checks cr g env run i now tr = Inr cb"
  obtains sv pin pk where "signed_of cr env = Inr sv" "clearance_body_of (sd_body sv) = Inr cb"
    "pin \<in> set (tr_keys (gd_trust g))" "clearance_pin g sv pin"
    "b64u_decode cr (kp_public_key pin) = Some pk"
    "verify_envelope cr ''clearance'' (sd_body sv) (sd_digest sv) (sd_key_id sv)
       (dec (sd_key_epoch sv)) (sd_signature sv) pk"
    "cl_tenant cb = gd_tenant g" "cl_runtime cb = gd_runtime g" "cl_mode cb = ''GUARDED''"
    "cl_run cb = rn_id run" "cl_guard_epoch cb = rn_guard_epoch run" "cl_boot cb = rn_boot run"
    "cl_policy cb = rn_policy run" "cl_intent cb = intent_digest cr i"
    "cl_issued_ms cb \<le> now" "now < cl_expires_ms cb" "gd_authority_ok g" "tr = it_target_revision i"
  using assms unfolding dispatch_checks_def
  by (auto simp: not_less not_le split: sum.splits option.splits if_splits
      dest!: find_Some_mem)

text \<open>
  C23. An allowed dispatch carries a clearance signed by a live, uncompromised key
  pinned for clearances of this tenant at this key epoch, whose digest is that of its body, in
  GUARDED mode, bound to the run, guard epoch, boot, policy and intent it is used for, inside its
  half-open validity, with the runtime's own authority granted and the target revision current.
\<close>

theorem dispatch_sound:
  assumes "dispatch cr g env run i now target cost = (r, g')" and "allowed r"
  shows "\<exists>sv cb pin pk. signed_of cr env = Inr sv \<and> clearance_body_of (sd_body sv) = Inr cb \<and>
     pin \<in> set (tr_keys (gd_trust g)) \<and> clearance_pin g sv pin \<and>
     b64u_decode cr (kp_public_key pin) = Some pk \<and>
     verify_envelope cr ''clearance'' (sd_body sv) (sd_digest sv) (sd_key_id sv)
       (dec (sd_key_epoch sv)) (sd_signature sv) pk \<and>
     sd_digest sv = d cr ''clearance'' (sd_body sv) \<and>
     cl_tenant cb = gd_tenant g \<and> cl_runtime cb = gd_runtime g \<and> cl_mode cb = ''GUARDED'' \<and>
     cl_run cb = rn_id run \<and> cl_guard_epoch cb = rn_guard_epoch run \<and> cl_boot cb = rn_boot run \<and>
     cl_policy cb = rn_policy run \<and> cl_intent cb = intent_digest cr i \<and>
     cl_issued_ms cb \<le> now \<and> now < cl_expires_ms cb \<and> gd_authority_ok g \<and>
     target = it_target_revision i"
proof (cases "dispatch_checks cr g env run i now target")
  case (Inl c)
  then show ?thesis using assms by (auto simp: dispatch_def allowed_def no_def)
next
  case (Inr cb)
  then show ?thesis by (rule dispatch_checks_ok) (use verify_envelope_digest in blast)
qed

section \<open>Consume once, quota\<close>

text \<open>The tables of a guard whose costs were admissible.\<close>

definition guard_inv :: "Guard \<Rightarrow> bool" where
  "guard_inv g \<longleftrightarrow> list_all (\<lambda>row. 0 \<le> snd row) (gb_reservations (gd_db g)) \<and>
     (\<forall>run. reserved (gd_db g) run \<le> int (gd_cap_minor g))"

lemma reserved_snoc: "reserved (db\<lparr>gb_reservations := gb_reservations db @ [((run', a), c)]\<rparr>) run =
    reserved db run + (if run' = run then c else 0)"
  by (simp add: reserved_def)

lemma reserved_cong: "gb_reservations db = gb_reservations db' \<Longrightarrow> reserved db run = reserved db' run"
  by (simp add: reserved_def)

lemma dispatch_tx_cases:
  assumes "dispatch_tx g cb i cost = (r, db')"
  obtains (refused) "db' = gd_db g" "\<not> allowed r"
  | (declared) "r = Inr \<lparr>go_dispatched = True, go_code = None\<rparr>"
    "(gd_tenant g, cl_run cb, cl_guard_epoch cb, cl_check cb) \<notin> set (gb_consumed (gd_db g))"
    "(gd_tenant g, cl_run cb, it_action i) \<notin> set (gb_dispatched (gd_db g))"
    "wadd64 (as_u64 (reserved (gd_db g) (cl_run cb))) cost \<le> gd_cap_minor g"
    "db' = (gd_db g)\<lparr>gb_reservations := gb_reservations (gd_db g) @ [((cl_run cb, it_action i), as_i64 cost)],
       gb_consumed := gb_consumed (gd_db g) @ [(gd_tenant g, cl_run cb, cl_guard_epoch cb, cl_check cb)],
       gb_dispatched := gb_dispatched (gd_db g) @ [(gd_tenant g, cl_run cb, it_action i)]\<rparr>"
proof -
  let ?key = "(gd_tenant g, cl_run cb, cl_guard_epoch cb, cl_check cb)"
  let ?act = "(gd_tenant g, cl_run cb, it_action i)"
  let ?ok = "?key \<notin> set (gb_consumed (gd_db g)) \<and> ?act \<notin> set (gb_dispatched (gd_db g)) \<and>
    is_i64 (reserved (gd_db g) (cl_run cb)) \<and>
    wadd64 (as_u64 (reserved (gd_db g) (cl_run cb))) cost \<le> gd_cap_minor g \<and>
    (cl_run cb, it_action i) \<notin> fst ` set (gb_reservations (gd_db g))"
  show thesis
  proof (cases ?ok)
    case True
    with assms show thesis
      by (intro declared) (simp_all add: dispatch_tx_def Let_def not_less)
  next
    case False
    with assms show thesis
      by (intro refused) (auto simp: dispatch_tx_def Let_def allowed_def no_def not_less
          simp del: fst_conv split: if_split_asm)
  qed
qed

lemma dispatch_tx_inv:
  assumes "guard_inv g" and "gd_cap_minor g < 2 ^ 63" and "cost < 2 ^ 63"
    and "dispatch_tx g cb i cost = (r, db')"
  shows "guard_inv (g\<lparr>gd_db := db'\<rparr>)"
  using assms(4)
proof (cases rule: dispatch_tx_cases)
  case refused
  then show ?thesis using assms(1) by simp
next
  case declared
  let ?c = "reserved (gd_db g) (cl_run cb)"
  have c0: "0 \<le> ?c" using assms(1) unfolding guard_inv_def reserved_def
    by (intro sum_list_nonneg) (auto simp: list_all_iff)
  have c1: "?c \<le> int (gd_cap_minor g)" using assms(1) by (simp add: guard_inv_def)
  have "wadd64 (as_u64 ?c) cost = nat ?c + cost"
    using c0 c1 assms(2,3) by (simp add: as_u64_small)
  then have quota: "?c + int cost \<le> int (gd_cap_minor g)" using declared(4) c0 by simp
  have "reserved db' run \<le> int (gd_cap_minor g)" for run
  proof -
    have "reserved db' run = ?c + int cost" if "run = cl_run cb"
      using that declared(5) assms(3) by (simp add: reserved_def as_i64_small)
    moreover have "reserved db' run = reserved (gd_db g) run" if "run \<noteq> cl_run cb"
      using that declared(5) by (simp add: reserved_def)
    ultimately show ?thesis using quota assms(1) by (cases "run = cl_run cb") (simp_all add: guard_inv_def)
  qed
  moreover have "list_all (\<lambda>row. 0 \<le> snd row) (gb_reservations db')"
    using assms(1,3) unfolding declared(5) guard_inv_def by (simp add: as_i64_small)
  ultimately show ?thesis by (simp add: guard_inv_def)
qed

lemma dispatch_keeps [simp]:
  assumes "dispatch cr g env run i now target cost = (r, g')"
  shows "gd_tenant g' = gd_tenant g" "gd_cap_minor g' = gd_cap_minor g" "gd_trust g' = gd_trust g"
    "gd_runtime g' = gd_runtime g"
  using assms unfolding dispatch_def by (auto split: sum.splits prod.splits)

lemma dispatch_inv:
  assumes "guard_inv g" and "gd_cap_minor g < 2 ^ 63" and "cost < 2 ^ 63"
    and "dispatch cr g env run i now target cost = (r, g')"
  shows "guard_inv g'"
  using assms dispatch_tx_inv [OF assms(1-3)]
  unfolding dispatch_def by (auto split: sum.splits prod.splits)

section \<open>Any sequence of attempts\<close>

record Attempt =
  at_env :: Value
  at_run :: Run
  at_intent :: Intent
  at_now :: nat
  at_target :: nat
  at_cost :: nat

text \<open>The attempts in order, with the outcomes.\<close>

fun attempts :: "Crypto \<Rightarrow> Guard \<Rightarrow> Attempt list \<Rightarrow> (Attempt \<times> GuardOutcome R) list \<times> Guard" where
  "attempts cr g [] = ([], g)"
| "attempts cr g (a # as) =
     (case dispatch cr g (at_env a) (at_run a) (at_intent a) (at_now a) (at_target a) (at_cost a) of
        (r, g') \<Rightarrow> (case attempts cr g' as of (rs, g'') \<Rightarrow> ((a, r) # rs, g'')))"

text \<open>The run, guard epoch and check a clearance names, and the run and action of an attempt.\<close>

definition clearance_key :: "Crypto \<Rightarrow> Attempt \<Rightarrow> (string \<times> nat \<times> string) option" where
  "clearance_key cr a = (case signed_of cr (at_env a) of Inl _ \<Rightarrow> None | Inr sv \<Rightarrow>
     (case clearance_body_of (sd_body sv) of Inl _ \<Rightarrow> None
      | Inr cb \<Rightarrow> Some (cl_run cb, cl_guard_epoch cb, cl_check cb)))"

definition action_key :: "Attempt \<Rightarrow> string \<times> string" where
  "action_key a = (rn_id (at_run a), it_action (at_intent a))"

definition dispatched_attempts :: "(Attempt \<times> GuardOutcome R) list \<Rightarrow> Attempt list" where
  "dispatched_attempts rs = map fst (filter (\<lambda>(a, r). allowed r) rs)"

lemma dispatch_tables:
  assumes "dispatch cr g (at_env a) (at_run a) (at_intent a) (at_now a) (at_target a) (at_cost a) = (r, g')"
  shows "if allowed r then
      (\<exists>run e c. clearance_key cr a = Some (run, e, c) \<and>
        (gd_tenant g, run, e, c) \<notin> set (gb_consumed (gd_db g)) \<and>
        gb_consumed (gd_db g') = gb_consumed (gd_db g) @ [(gd_tenant g, run, e, c)]) \<and>
      (gd_tenant g, action_key a) \<notin> set (gb_dispatched (gd_db g)) \<and>
      gb_dispatched (gd_db g') = gb_dispatched (gd_db g) @ [(gd_tenant g, action_key a)]
    else gb_consumed (gd_db g') = gb_consumed (gd_db g) \<and> gb_dispatched (gd_db g') = gb_dispatched (gd_db g)"
proof (cases "dispatch_checks cr g (at_env a) (at_run a) (at_intent a) (at_now a) (at_target a)")
  case (Inl c)
  then show ?thesis using assms by (auto simp: dispatch_def allowed_def no_def)
next
  case (Inr cb)
  obtain db' where tx: "dispatch_tx g cb (at_intent a) (at_cost a) = (r, db')" and g': "g' = g\<lparr>gd_db := db'\<rparr>"
    using assms Inr by (auto simp: dispatch_def split: prod.splits)
  from Inr obtain sv where sv: "signed_of cr (at_env a) = Inr sv" "clearance_body_of (sd_body sv) = Inr cb"
    and run: "cl_run cb = rn_id (at_run a)" by (rule dispatch_checks_ok) blast
  have key: "clearance_key cr a = Some (cl_run cb, cl_guard_epoch cb, cl_check cb)"
    by (simp add: clearance_key_def sv)
  from tx show ?thesis
  proof (cases rule: dispatch_tx_cases)
    case refused
    then show ?thesis using g' by simp
  next
    case declared
    then show ?thesis using g' key run by (simp add: allowed_def action_key_def)
  qed
qed

lemma attempts_once:
  assumes "attempts cr g as = (rs, g')"
  shows "distinct (map (clearance_key cr) (dispatched_attempts rs)) \<and>
     distinct (map action_key (dispatched_attempts rs)) \<and>
     (\<forall>run e c. Some (run, e, c) \<in> clearance_key cr ` set (dispatched_attempts rs) \<longrightarrow>
        (gd_tenant g, run, e, c) \<notin> set (gb_consumed (gd_db g))) \<and>
     (\<forall>k. k \<in> action_key ` set (dispatched_attempts rs) \<longrightarrow> (gd_tenant g, k) \<notin> set (gb_dispatched (gd_db g))) \<and>
     None \<notin> clearance_key cr ` set (dispatched_attempts rs)"
  using assms
proof (induction as arbitrary: g rs)
  case Nil
  then show ?case by (simp add: dispatched_attempts_def)
next
  case (Cons a as)
  obtain r g1 where d1: "dispatch cr g (at_env a) (at_run a) (at_intent a) (at_now a) (at_target a) (at_cost a) = (r, g1)"
    by (cases "dispatch cr g (at_env a) (at_run a) (at_intent a) (at_now a) (at_target a) (at_cost a)")
  obtain rs' where r': "attempts cr g1 as = (rs', g')" and rs: "rs = (a, r) # rs'"
    using Cons.prems d1 by (auto split: prod.splits)
  note IH = Cons.IH [OF r']
  have t: "gd_tenant g1 = gd_tenant g" using d1 by (rule dispatch_keeps)
  show ?case
  proof (cases "allowed r")
    case False
    then show ?thesis using IH dispatch_tables [OF d1] t by (simp add: rs dispatched_attempts_def)
  next
    case True
    then obtain run e c where k: "clearance_key cr a = Some (run, e, c)"
        "(gd_tenant g, run, e, c) \<notin> set (gb_consumed (gd_db g))"
        "gb_consumed (gd_db g1) = gb_consumed (gd_db g) @ [(gd_tenant g, run, e, c)]"
      and ak: "(gd_tenant g, action_key a) \<notin> set (gb_dispatched (gd_db g))"
        "gb_dispatched (gd_db g1) = gb_dispatched (gd_db g) @ [(gd_tenant g, action_key a)]"
      using dispatch_tables [OF d1] by auto
    have da: "dispatched_attempts rs = a # dispatched_attempts rs'"
      using True by (simp add: rs dispatched_attempts_def)
    have "clearance_key cr a \<notin> clearance_key cr ` set (dispatched_attempts rs')"
      unfolding k(1) using IH k(3) t by fastforce
    moreover have "action_key a \<notin> action_key ` set (dispatched_attempts rs')"
      using IH ak(2) t by fastforce
    ultimately show ?thesis using IH k ak t unfolding da by auto
  qed
qed

text \<open>
  C22. Whatever is attempted, in whatever order and with whatever envelopes, a check's
  clearance is dispatched at most once per run and guard epoch, and an action of a run at most
  once.
\<close>

theorem dispatch_once:
  "distinct (map (clearance_key cr) (dispatched_attempts (fst (attempts cr g as)))) \<and>
   distinct (map action_key (dispatched_attempts (fst (attempts cr g as))))"
  using attempts_once [of cr g as "fst (attempts cr g as)" "snd (attempts cr g as)"] by simp

lemma attempts_inv:
  assumes "guard_inv g" and "gd_cap_minor g < 2 ^ 63" and "list_all (\<lambda>a. at_cost a < 2 ^ 63) as"
    and "attempts cr g as = (rs, g')"
  shows "guard_inv g' \<and> gd_cap_minor g' = gd_cap_minor g"
  using assms
proof (induction as arbitrary: g rs)
  case (Cons a as)
  obtain r g1 where d1: "dispatch cr g (at_env a) (at_run a) (at_intent a) (at_now a) (at_target a) (at_cost a) = (r, g1)"
    by (cases "dispatch cr g (at_env a) (at_run a) (at_intent a) (at_now a) (at_target a) (at_cost a)")
  obtain rs' where r': "attempts cr g1 as = (rs', g')" using Cons.prems(4) d1 by (auto split: prod.splits)
  have "guard_inv g1" using dispatch_inv [OF Cons.prems(1,2) _ d1] Cons.prems(3) by simp
  moreover have "gd_cap_minor g1 = gd_cap_minor g" using d1 by (rule dispatch_keeps)
  ultimately show ?case using Cons.IH [OF _ _ _ r'] Cons.prems(2,3) by simp
qed simp

text \<open>
  C24. Starting from empty tables, after any sequence of attempts with admissible
  costs the reservations of every run stay within the runtime's cap.
\<close>

theorem quota_respected:
  assumes "cap < 2 ^ 63" and "list_all (\<lambda>a. at_cost a < 2 ^ 63) as"
  shows "reserved (gd_db (snd (attempts cr (new_in_memory rt tn tr cap) as))) run \<le> int cap"
proof -
  define g0 where "g0 = new_in_memory rt tn tr cap"
  have "guard_inv g0" "gd_cap_minor g0 = cap"
    by (simp_all add: g0_def guard_inv_def new_in_memory_def reserved_def)
  then have "guard_inv (snd (attempts cr g0 as)) \<and> gd_cap_minor (snd (attempts cr g0 as)) = cap"
    using attempts_inv [of g0 as cr, OF _ _ assms(2) surjective_pairing] assms(1) by simp
  then have "reserved (gd_db (snd (attempts cr g0 as))) run \<le> int cap"
    unfolding guard_inv_def by metis
  then show ?thesis by (simp only: g0_def)
qed

section \<open>A dispatch that is allowed\<close>

definition sample_clearance :: Clearance where
  "sample_clearance = \<lparr>cl_tenant = ''lab'', cl_run = ''wtr_1'', cl_runtime = ''s1'', cl_guard_epoch = 1,
     cl_boot = sample_boot, cl_check = ''act'', cl_intent = intent_digest toy_crypto sample_intent,
     cl_policy = zero_hash,
     cl_observation = \<lparr>rf_source = ''s1'', rf_epoch = 1, rf_seq = 1, rf_hash = zero_hash\<rparr>,
     cl_basis = zero_hash, cl_issued_ms = 100, cl_expires_ms = 200, cl_mode = ''GUARDED''\<rparr>"

definition sample_signed :: Signed where
  "sample_signed = \<lparr>sd_body = clearance_body_value sample_clearance,
     sd_digest = d toy_crypto ''clearance'' (clearance_body_value sample_clearance),
     sd_key_id = ''op'', sd_key_epoch = 1, sd_signature = hex_lower (replicate 64 CHR ''s'')\<rparr>"

definition sample_pin :: KeyPin where
  "sample_pin = \<lparr>kp_id = ''op'', kp_public_key = hex_lower (replicate 32 CHR ''k''),
     kp_tags = [''clearance''], kp_subjects = [''lab''], kp_from_epoch = 1, kp_through_epoch = None,
     kp_live = True, kp_compromised = False\<rparr>"

definition sample_trust :: Trust where
  "sample_trust = \<lparr>tr_tenant = ''lab'', tr_keys = [sample_pin], tr_sources = [],
     tr_minimum_head = empty_head\<rparr>"

definition sample_run :: Run where
  "sample_run = \<lparr>rn_id = ''wtr_1'', rn_revision = 1, rn_tenant = ''lab'', rn_source = ''s1'',
     rn_source_epoch = 1, rn_runtime = ''s1'', rn_guard_epoch = 1, rn_boot = sample_boot,
     rn_mode = ''GUARDED'', rn_profile = ''fixture/1'', rn_state = RsOpen, rn_policy = zero_hash,
     rn_cursor = empty_head, rn_last_cut_ms = None, rn_last_received_ms = None,
     rn_drift = initial_drift, rn_pause_reason = None\<rparr>"

definition sample_guard :: Guard where
  "sample_guard = new_in_memory ''s1'' ''lab'' sample_trust 1000"

lemma toy_digest [simp]: "valid_hash (d toy_crypto tag v)"
  by (rule d_valid_hash) (simp add: toy_crypto_def)

lemma toy_decode: "b64u_decode toy_crypto (hex_lower x) = Some x"
  by (simp add: b64u_decode_def toy_crypto_def hex_lower_no_eq hex_decode_lower)

lemma sample_signed_of: "signed_of toy_crypto (signed_value sample_signed) = Inr sample_signed"
  by (rule signed_dec_enc)
    (simp add: valid_signed_def sample_signed_def is_sig_def is_b64_len_def toy_decode u_max_def)

lemma sample_clearance_of: "clearance_body_of (sd_body sample_signed) = Inr sample_clearance"
proof -
  have "valid_clearance_body sample_clearance"
    by (simp add: valid_clearance_body_def sample_clearance_def valid_ref_def u_max_def intent_digest_def)
  then show ?thesis by (simp add: sample_signed_def clearance_body_dec_enc)
qed

lemma sample_checks: "dispatch_checks toy_crypto sample_guard (signed_value sample_signed) sample_run
    sample_intent 150 1 = Inr sample_clearance"
proof -
  have "find (clearance_pin sample_guard sample_signed) [sample_pin] = Some sample_pin"
    by (simp add: clearance_pin_def sample_pin_def sample_guard_def new_in_memory_def sample_signed_def)
  moreover have "verify_envelope toy_crypto ''clearance'' (sd_body sample_signed) (sd_digest sample_signed)
      (sd_key_id sample_signed) (dec (sd_key_epoch sample_signed)) (sd_signature sample_signed)
      (replicate 32 CHR ''k'')"
    by (simp add: verify_envelope_def sample_signed_def toy_decode) (simp add: toy_crypto_def)
  ultimately show ?thesis
    unfolding dispatch_checks_def sample_signed_of sum.case sample_clearance_of
    by (simp add: sample_guard_def new_in_memory_def sample_trust_def sample_pin_def toy_decode
        sample_clearance_def sample_run_def sample_intent_def)
qed

lemma sample_dispatch: "allowed (fst (dispatch toy_crypto sample_guard (signed_value sample_signed)
    sample_run sample_intent 150 1 5))"
  unfolding dispatch_def sample_checks
  by (simp add: dispatch_tx_def sample_guard_def new_in_memory_def reserved_def is_i64_def as_u64_def
      allowed_def Let_def)

theorem dispatch_sound_witness:
  "\<exists>sv. signed_of toy_crypto (signed_value sample_signed) = Inr sv \<and>
     sd_digest sv = d toy_crypto ''clearance'' (sd_body sv)"
  using dispatch_sound [OF surjective_pairing sample_dispatch] by blast

theorem quota_respected_witness:
  "reserved (gd_db (snd (attempts toy_crypto (new_in_memory ''s1'' ''lab'' sample_trust 1000)
     [\<lparr>at_env = signed_value sample_signed, at_run = sample_run, at_intent = sample_intent,
       at_now = 150, at_target = 1, at_cost = 5\<rparr>]))) ''wtr_1'' \<le> int 1000"
  by (rule quota_respected) simp_all

end
