(* ===== verification/JsonParse.thy ===== *)
theory JsonParse
  imports Json
begin

text \<open>
  The strict JSON parser (\<open>json.rs\<close>: \<open>parse\<close> and \<open>Parser\<close>). The parser's position is the list of
  the bytes not read yet. The recursion of \<open>value\<close>, \<open>object\<close> and \<open>array\<close> is bounded by fuel;
  \<open>parse\<close> starts with twice the length of the document, which is enough (\<open>parse_total\<close>).
\<close>

section \<open>UTF-8\<close>

text \<open>
  \<open>str::from_utf8\<close>: the length of the well-formed sequence a byte string starts with, or zero, and
  the strings made of such sequences.
\<close>

definition cont :: "nat \<Rightarrow> bool" where
  "cont b \<longleftrightarrow> 0x80 \<le> b \<and> b \<le> 0xBF"

definition byte :: "nat list \<Rightarrow> nat \<Rightarrow> nat" where
  "byte bs i = (if i < length bs then bs ! i else 0)"

definition seq2 :: "nat \<Rightarrow> nat \<Rightarrow> bool" where
  "seq2 a b \<longleftrightarrow> 0xC2 \<le> a \<and> a \<le> 0xDF \<and> cont b"

definition seq3 :: "nat \<Rightarrow> nat \<Rightarrow> nat \<Rightarrow> bool" where
  "seq3 a b c \<longleftrightarrow> 0xE0 \<le> a \<and> a \<le> 0xEF \<and> (if a = 0xE0 then 0xA0 else 0x80) \<le> b \<and>
     b \<le> (if a = 0xED then 0x9F else 0xBF) \<and> cont c"

definition seq4 :: "nat \<Rightarrow> nat \<Rightarrow> nat \<Rightarrow> nat \<Rightarrow> bool" where
  "seq4 a b c e \<longleftrightarrow> 0xF0 \<le> a \<and> a \<le> 0xF4 \<and> (if a = 0xF0 then 0x90 else 0x80) \<le> b \<and>
     b \<le> (if a = 0xF4 then 0x8F else 0xBF) \<and> cont c \<and> cont e"

definition utf8_first :: "nat list \<Rightarrow> nat" where
  "utf8_first bs = (if bs = [] then 0
     else if byte bs 0 < 0x80 then 1
     else if seq2 (byte bs 0) (byte bs 1) then 2
     else if seq3 (byte bs 0) (byte bs 1) (byte bs 2) then 3
     else if seq4 (byte bs 0) (byte bs 1) (byte bs 2) (byte bs 3) then 4
     else 0)"

lemma byte_pos: "0 < byte bs i \<Longrightarrow> i < length bs"
  by (simp add: byte_def split: if_splits)

lemma byte_append [simp]: "i < length bs \<Longrightarrow> byte (bs @ cs) i = byte bs i"
  by (simp add: byte_def nth_append)

lemma byte_take [simp]: "i < n \<Longrightarrow> byte (take n bs) i = byte bs i"
  by (simp add: byte_def)

lemmas seq_defs = seq2_def seq3_def seq4_def cont_def

lemma seq_lengths:
  "seq2 a (byte bs 1) \<Longrightarrow> 2 \<le> length bs"
  "seq3 a (byte bs 1) (byte bs 2) \<Longrightarrow> 3 \<le> length bs"
  "seq4 a (byte bs 1) (byte bs 2) (byte bs 3) \<Longrightarrow> 4 \<le> length bs"
  using byte_pos [of bs 1] byte_pos [of bs 2] byte_pos [of bs 3] by (auto simp: seq_defs)

lemma seq_lead:
  "seq2 a b \<Longrightarrow> 0xC2 \<le> a \<and> a \<le> 0xDF" "seq3 a b c \<Longrightarrow> 0xE0 \<le> a \<and> a \<le> 0xEF"
  "seq4 a b c e \<Longrightarrow> 0xF0 \<le> a \<and> a \<le> 0xF4"
  by (simp_all add: seq_defs)

text \<open>The cases of a nonzero \<open>utf8_first\<close>.\<close>

lemma utf8_first_cases:
  assumes "utf8_first bs \<noteq> 0"
  obtains "utf8_first bs = 1" "bs \<noteq> []" "byte bs 0 < 0x80"
  | "utf8_first bs = 2" "bs \<noteq> []" "2 \<le> length bs" "seq2 (byte bs 0) (byte bs 1)"
  | "utf8_first bs = 3" "bs \<noteq> []" "3 \<le> length bs" "seq3 (byte bs 0) (byte bs 1) (byte bs 2)"
  | "utf8_first bs = 4" "bs \<noteq> []" "4 \<le> length bs" "seq4 (byte bs 0) (byte bs 1) (byte bs 2) (byte bs 3)"
proof -
  have len: "length bs \<ge> 1" "bs \<noteq> []" using assms by (cases bs; auto simp: utf8_first_def)+
  consider "byte bs 0 < 0x80" | "\<not> byte bs 0 < 0x80" "seq2 (byte bs 0) (byte bs 1)"
    | "\<not> byte bs 0 < 0x80" "\<not> seq2 (byte bs 0) (byte bs 1)" "seq3 (byte bs 0) (byte bs 1) (byte bs 2)"
    | "\<not> byte bs 0 < 0x80" "\<not> seq2 (byte bs 0) (byte bs 1)" "\<not> seq3 (byte bs 0) (byte bs 1) (byte bs 2)"
      "seq4 (byte bs 0) (byte bs 1) (byte bs 2) (byte bs 3)"
    using assms unfolding utf8_first_def by metis
  then show ?thesis using that seq_lengths [of "byte bs 0" bs] len by cases (simp_all add: utf8_first_def)
qed

lemma utf8_first_eqs:
  "byte bs 0 < 0x80 \<Longrightarrow> utf8_first bs = (if bs = [] then 0 else 1)"
  "seq2 (byte bs 0) (byte bs 1) \<Longrightarrow> utf8_first bs = 2"
  "seq3 (byte bs 0) (byte bs 1) (byte bs 2) \<Longrightarrow> utf8_first bs = 3"
  "seq4 (byte bs 0) (byte bs 1) (byte bs 2) (byte bs 3) \<Longrightarrow> utf8_first bs = 4"
  using seq_lead byte_pos [of bs 0] unfolding utf8_first_def by fastforce+

lemma utf8_first_le: "utf8_first bs \<le> length bs"
proof (cases "utf8_first bs = 0")
  case False
  then show ?thesis by (rule utf8_first_cases) (simp_all add: Suc_leI)
qed simp

lemma utf8_first_append: "utf8_first bs \<noteq> 0 \<Longrightarrow> utf8_first (bs @ cs) = utf8_first bs"
  by (erule utf8_first_cases) (simp_all add: utf8_first_eqs)

lemma utf8_first_take: "utf8_first bs \<noteq> 0 \<Longrightarrow> utf8_first (take (utf8_first bs) bs) = utf8_first bs"
  by (erule utf8_first_cases) (simp_all add: utf8_first_eqs)

function utf8_ok :: "string \<Rightarrow> bool" where
  "utf8_ok s = (if s = [] then True else if utf8_first (bytes s) = 0 then False
    else utf8_ok (drop (utf8_first (bytes s)) s))"
  by pat_completeness auto
termination utf8_ok
proof (relation "measure length")
  fix s assume s: "s \<noteq> []" "utf8_first (bytes s) \<noteq> 0"
  then have "utf8_first (bytes s) > 0" "length s > 0" by simp_all
  then show "(drop (utf8_first (bytes s)) s, s) \<in> measure length" by simp
qed simp

declare utf8_ok.simps [simp del]

lemma utf8_ok_Nil [simp]: "utf8_ok []"
  by (simp add: utf8_ok.simps)

text \<open>\<open>utf8_len\<close>, from the lead byte.\<close>

definition utf8_len :: "nat \<Rightarrow> nat" where
  "utf8_len b = (if b < 0x80 then 1 else if b \<ge> 0xF0 then 4 else if b \<ge> 0xE0 then 3
                 else if b \<ge> 0xC0 then 2 else 1)"

text \<open>\<open>String::push\<close> of a scalar value.\<close>

definition utf8_encode :: "nat \<Rightarrow> string" where
  "utf8_encode cp = map char_of
     (if cp < 0x80 then [cp]
      else if cp < 0x800 then [0xC0 + cp div 64, 0x80 + cp mod 64]
      else if cp < 0x10000 then [0xE0 + cp div 4096, 0x80 + cp div 64 mod 64, 0x80 + cp mod 64]
      else [0xF0 + cp div 262144, 0x80 + cp div 4096 mod 64, 0x80 + cp div 64 mod 64, 0x80 + cp mod 64])"

lemma utf8_first_len: "utf8_first bs \<noteq> 0 \<Longrightarrow> utf8_first bs = utf8_len (byte bs 0)"
  by (erule utf8_first_cases) (auto simp: utf8_len_def dest: seq_lead)

text \<open>A multi-byte sequence consists of bytes from 128 on.\<close>

lemma take_bytes: "n \<le> length bs \<Longrightarrow> take n bs = map (byte bs) [0..<n]"
  by (rule nth_equalityI) (simp_all add: byte_def)

lemma utf8_first_high:
  assumes "utf8_first bs \<noteq> 0" and "0x80 \<le> byte bs 0"
  shows "list_all (\<lambda>b. 0x80 \<le> b) (take (utf8_first bs) bs)"
  using assms(1)
  by (rule utf8_first_cases)
    (use assms(2) in \<open>simp_all add: take_bytes seq_defs upt_rec numeral_2_eq_2 numeral_3_eq_3 split: if_splits\<close>)

lemma bytes_append [simp]: "bytes (a @ b) = bytes a @ bytes b"
  by (simp add: bytes_def)

lemma bytes_take: "bytes (take n s) = take n (bytes s)"
  by (simp add: bytes_def take_map)

lemma length_bytes [simp]: "length (bytes s) = length s"
  by (simp add: bytes_def)

text \<open>Induction on the sequences of a well-formed string.\<close>

lemma utf8_induct [consumes 1, case_names Nil chunk]:
  assumes "utf8_ok s" and "P []"
    and "\<And>ch s. utf8_first (bytes ch) = length ch \<Longrightarrow> ch \<noteq> [] \<Longrightarrow> utf8_ok s \<Longrightarrow> P s \<Longrightarrow> P (ch @ s)"
  shows "P s"
  using assms(1)
proof (induction s rule: utf8_ok.induct)
  case (1 s)
  show ?case
  proof (cases "s = []")
    case False
    let ?n = "utf8_first (bytes s)"
    have n: "?n \<noteq> 0" "utf8_ok (drop ?n s)" using 1(2) False by (simp_all add: utf8_ok.simps [of s] split: if_splits)
    have "?n \<le> length s" using utf8_first_le [of "bytes s"] by simp
    then have len: "length (take ?n s) = ?n" by simp
    have "utf8_first (bytes (take ?n s)) = length (take ?n s)"
      unfolding len bytes_take using n(1) by (rule utf8_first_take)
    moreover have "take ?n s \<noteq> []" using False n(1) by simp
    ultimately have "P (take ?n s @ drop ?n s)" using n(2) 1(1) [OF False n(1)] n(2) by (intro assms(3))
    then show ?thesis by simp
  qed (simp add: assms(2))
qed

lemma utf8_ok_chunk: "utf8_first (bytes ch) = length ch \<Longrightarrow> ch \<noteq> [] \<Longrightarrow> utf8_ok (ch @ s) = utf8_ok s"
  by (subst utf8_ok.simps) (simp add: utf8_first_append)

lemma utf8_ok_append: "utf8_ok a \<Longrightarrow> utf8_ok b \<Longrightarrow> utf8_ok (a @ b)"
  by (induction a rule: utf8_induct) (simp_all add: utf8_ok_chunk)

lemma utf8_ok_ascii: "list_all (\<lambda>c. (of_char c :: nat) < 0x80) s \<Longrightarrow> utf8_ok s"
proof (induction s)
  case (Cons c s)
  then show ?case using utf8_ok_chunk [of "[c]" s] by (simp add: utf8_first_eqs byte_def)
qed simp

lemma utf8_first_encode:
  assumes "cp < 0x110000" and "\<not> (0xD800 \<le> cp \<and> cp \<le> 0xDFFF)"
  shows "utf8_first (bytes (utf8_encode cp)) = length (utf8_encode cp)"
proof -
  consider "cp < 0x80" | "0x80 \<le> cp" "cp < 0x800" | "0x800 \<le> cp" "cp < 0x10000" | "0x10000 \<le> cp" by linarith
  then show ?thesis
  proof cases
    case 1
    then show ?thesis by (simp add: utf8_encode_def bytes_def utf8_first_eqs byte_def)
  next
    case 2
    then have "cp div 64 < 32" "2 \<le> cp div 64" by linarith+
    then have "seq2 (0xC0 + cp div 64) (0x80 + cp mod 64)" by (simp add: seq_defs)
    then show ?thesis using 2 by (subst utf8_first_eqs(2)) (simp_all add: utf8_encode_def bytes_def byte_def)
  next
    case 3
    define x where "x = cp div 64"
    have x: "32 \<le> x" "x < 1024" "x < 864 \<or> 896 \<le> x" "cp div 4096 = x div 64"
      using 3 assms unfolding x_def by (auto simp: div_mult2_eq [symmetric])
    have "x = 64 * (x div 64) + x mod 64" by simp
    then have "x div 64 < 16" "x div 64 = 0 \<Longrightarrow> 32 \<le> x mod 64" "x div 64 = 13 \<Longrightarrow> x mod 64 \<le> 31"
      using x by linarith+
    then have "seq3 (0xE0 + cp div 4096) (0x80 + cp div 64 mod 64) (0x80 + cp mod 64)"
      unfolding seq_defs x(4) x_def [symmetric] by (auto simp: less_Suc_eq_le [symmetric])
    then show ?thesis using 3 by (subst utf8_first_eqs(3)) (simp_all add: utf8_encode_def bytes_def byte_def)
  next
    case 4
    define y where "y = cp div 4096"
    have y: "16 \<le> y" "y < 272" "cp div 262144 = y div 64"
      using 4 assms unfolding y_def by (auto simp: div_mult2_eq [symmetric])
    have "y = 64 * (y div 64) + y mod 64" by simp
    then have "y div 64 < 5" "y div 64 = 0 \<Longrightarrow> 16 \<le> y mod 64" "y div 64 = 4 \<Longrightarrow> y mod 64 \<le> 15"
      using y by linarith+
    then have "seq4 (0xF0 + cp div 262144) (0x80 + cp div 4096 mod 64) (0x80 + cp div 64 mod 64) (0x80 + cp mod 64)"
      unfolding seq_defs y(3) y_def [symmetric] by (auto simp: less_Suc_eq_le [symmetric])
    moreover have "cp div 262144 < 16" using assms(1) by linarith
    ultimately show ?thesis using 4 by (subst utf8_first_eqs(4)) (simp_all add: utf8_encode_def bytes_def byte_def)
  qed
qed

lemma utf8_ok_encode:
  "cp < 0x110000 \<Longrightarrow> \<not> (0xD800 \<le> cp \<and> cp \<le> 0xDFFF) \<Longrightarrow> utf8_ok (utf8_encode cp)"
  using utf8_ok_chunk [of "utf8_encode cp" "[]"] utf8_first_encode [of cp]
  by (simp add: utf8_encode_def)

section \<open>The parser\<close>

text \<open>\<open>ParseErr\<close>, and the fuel's own error.\<close>

datatype PErr = PSyntax | PBound | PFuel

record Limits =
  max_bytes :: nat
  max_depth :: nat
  max_members :: nat
  max_array :: nat

definition request_limits :: Limits where
  "request_limits = \<lparr>max_bytes = 1048576, max_depth = 24, max_members = 128, max_array = 4096\<rparr>"

definition reply_limits :: Limits where
  "reply_limits = \<lparr>max_bytes = 8388608, max_depth = 24, max_members = 128, max_array = 4096\<rparr>"

definition bundle_limits :: Limits where
  "bundle_limits = \<lparr>max_bytes = 67108864, max_depth = 24, max_members = 128, max_array = 4096\<rparr>"

definition perr_code :: "PErr \<Rightarrow> Code" where
  "perr_code e = (if e = PSyntax then BadJson else SchemaInvalid)"

definition is_ws :: "char \<Rightarrow> bool" where
  "is_ws c \<longleftrightarrow> (of_char c :: nat) \<in> {32, 9, 10, 13}"

definition ws :: "string \<Rightarrow> string" where
  "ws s = dropWhile is_ws s"

text \<open>\<open>peek\<close> fails at the end of the document.\<close>

definition next_char :: "string \<Rightarrow> PErr + char \<times> string" where
  "next_char s = (case s of [] \<Rightarrow> Inl PSyntax | c # r \<Rightarrow> Inr (c, r))"

definition expect :: "char \<Rightarrow> string \<Rightarrow> PErr + string" where
  "expect c s = (case s of [] \<Rightarrow> Inl PSyntax | x # r \<Rightarrow> if x = c then Inr r else Inl PSyntax)"

definition lit :: "string \<Rightarrow> Value \<Rightarrow> string \<Rightarrow> PErr + Value \<times> string" where
  "lit l v s = (if take (length l) s = l then Inr (v, drop (length l) s) else Inl PSyntax)"

subsection \<open>Numbers\<close>

text \<open>The parts of \<open>number\<close>: each returns the bytes it read and what is left.\<close>

definition num_sign :: "string \<Rightarrow> string \<times> string" where
  "num_sign s = (case s of c # r \<Rightarrow> if c = CHR ''-'' then ([c], r) else ([], s) | [] \<Rightarrow> ([], s))"

definition num_digits :: "string \<Rightarrow> PErr + string \<times> string" where
  "num_digits s = (if takeWhile is_digit s = [] then Inl PSyntax
                   else Inr (takeWhile is_digit s, dropWhile is_digit s))"

definition num_int :: "string \<Rightarrow> PErr + string \<times> string" where
  "num_int s = (case s of [] \<Rightarrow> Inl PSyntax
     | c # r \<Rightarrow> if c = CHR ''0'' then Inr ([c], r) else num_digits s)"

definition num_frac :: "string \<Rightarrow> PErr + string \<times> string" where
  "num_frac s = (case s of [] \<Rightarrow> Inr ([], s)
     | c # r \<Rightarrow> if c = CHR ''.'' then sbind (num_digits r) (\<lambda>(ds, t). Inr (c # ds, t)) else Inr ([], s))"

definition num_exp :: "string \<Rightarrow> PErr + string \<times> string" where
  "num_exp s = (case s of [] \<Rightarrow> Inr ([], s)
     | c # r \<Rightarrow> if c = CHR ''e'' \<or> c = CHR ''E''
         then (case r of [] \<Rightarrow> Inl PSyntax
               | g # q \<Rightarrow> if g = CHR ''+'' \<or> g = CHR ''-''
                   then sbind (num_digits q) (\<lambda>(ds, t). Inr (c # g # ds, t))
                   else sbind (num_digits r) (\<lambda>(ds, t). Inr (c # ds, t)))
         else Inr ([], s))"

definition number :: "string \<Rightarrow> PErr + string \<times> string" where
  "number s =
     (case num_sign s of (a, s1) \<Rightarrow>
      sbind (num_int s1) (\<lambda>(b, s2).
      sbind (num_frac s2) (\<lambda>(c, s3).
      sbind (num_exp s3) (\<lambda>(e, s4). Inr (a @ b @ c @ e, s4)))))"

subsection \<open>Strings\<close>

definition hex_val :: "char \<Rightarrow> nat option" where
  "hex_val c = (let n = (of_char c :: nat) in
     if 48 \<le> n \<and> n \<le> 57 then Some (n - 48)
     else if 97 \<le> n \<and> n \<le> 102 then Some (n - 97 + 10)
     else if 65 \<le> n \<and> n \<le> 70 then Some (n - 65 + 10)
     else None)"

definition hex1 :: "nat \<times> string \<Rightarrow> PErr + nat \<times> string" where
  "hex1 vs = (case vs of (v, s) \<Rightarrow> (case s of [] \<Rightarrow> Inl PSyntax | c # r \<Rightarrow>
     (case hex_val c of None \<Rightarrow> Inl PSyntax | Some k \<Rightarrow> Inr (v * 16 + k, r))))"

definition hex4 :: "string \<Rightarrow> PErr + nat \<times> string" where
  "hex4 s = sbind (hex1 (0, s)) (\<lambda>a. sbind (hex1 a) (\<lambda>b. sbind (hex1 b) hex1))"

text \<open>The part of \<open>string\<close> after a backslash and the letter \<open>u\<close>: the bytes pushed.\<close>

definition unicode_escape :: "string \<Rightarrow> PErr + string \<times> string" where
  "unicode_escape s =
     sbind (hex4 s) (\<lambda>(cp, r).
       if 0xD800 \<le> cp \<and> cp \<le> 0xDBFF then
         sbind (expect (CHR 0x5C) r) (\<lambda>r. sbind (expect (CHR ''u'') r) (\<lambda>r.
         sbind (hex4 r) (\<lambda>(lo, r).
           if \<not> (0xDC00 \<le> lo \<and> lo \<le> 0xDFFF) then Inl PSyntax
           else Inr (utf8_encode (0x10000 + (cp - 0xD800) * 1024 + (lo - 0xDC00)), r))))
       else if 0xDC00 \<le> cp \<and> cp \<le> 0xDFFF then Inl PSyntax
       else Inr (utf8_encode cp, r))"

text \<open>The part after a backslash.\<close>

definition escape :: "string \<Rightarrow> PErr + string \<times> string" where
  "escape s = sbind (next_char s) (\<lambda>(e, r).
     if e = CHR 0x22 \<or> e = CHR 0x5C \<or> e = CHR ''/'' then Inr ([e], r)
     else if e = CHR ''b'' then Inr ([CHR 0x08], r)
     else if e = CHR ''f'' then Inr ([CHR 0x0C], r)
     else if e = CHR ''n'' then Inr ([CHR 0x0A], r)
     else if e = CHR ''r'' then Inr ([CHR 0x0D], r)
     else if e = CHR ''t'' then Inr ([CHR 0x09], r)
     else if e = CHR ''u'' then unicode_escape r
     else Inl PSyntax)"

text \<open>One round of the loop of \<open>string\<close> on a byte that does not close it.\<close>

definition string_chunk :: "string \<Rightarrow> PErr + string \<times> string" where
  "string_chunk s = sbind (next_char s) (\<lambda>(c, r).
     if c = CHR 0x5C then escape r
     else if (of_char c :: nat) < 32 then Inl PSyntax
     else let n = utf8_len (of_char c) in
       if n > 1 then
         if n > length s then Inl PSyntax
         else if \<not> utf8_ok (take n s) then Inl PSyntax
         else Inr (take n s, drop n s)
       else Inr (utf8_encode (of_char c), r))"

lemma hex1_length: "hex1 (v, s) = Inr (w, r) \<Longrightarrow> length r < length s"
  by (auto simp: hex1_def split: list.splits option.splits)

lemma hex4_length: "hex4 s = Inr (w, r) \<Longrightarrow> length r < length s"
  unfolding hex4_def by (auto dest!: hex1_length)

lemma expect_length: "expect c s = Inr r \<Longrightarrow> length r < length s"
  by (auto simp: expect_def split: list.splits if_splits)

lemma string_chunk_length:
  assumes "string_chunk s = Inr (x, r)"
  shows "length r < length s"
proof -
  have u: "length r' < length s'" if "unicode_escape s' = Inr (x', r')" for s' x' r'
    using that unfolding unicode_escape_def
    by (force simp: dest!: hex4_length expect_length split: if_splits)
  show ?thesis using assms unfolding string_chunk_def escape_def next_char_def
    by (auto simp: Let_def dest!: u split: list.splits if_splits)
qed

function string_loop :: "string \<Rightarrow> string \<Rightarrow> PErr + string \<times> string" where
  "string_loop out s = (case s of [] \<Rightarrow> Inl PSyntax
     | c # r \<Rightarrow> if c = CHR 0x22 then Inr (out, r)
               else sbind (string_chunk s) (\<lambda>(x, t). string_loop (out @ x) t))"
  by pat_completeness auto
termination string_loop
  by (relation "measure (length \<circ> snd)") (auto dest: string_chunk_length)

declare string_loop.simps [simp del]

subsection \<open>Values\<close>

text \<open>The arms of the \<open>match\<close> of \<open>value\<close>, by the first byte.\<close>

datatype Arm = AObject | AArray | AString | ALit string Value | ANumber | ABad

definition arm :: "char \<Rightarrow> Arm" where
  "arm c = (if c = CHR ''{'' then AObject
     else if c = CHR ''['' then AArray
     else if c = CHR 0x22 then AString
     else if c = CHR ''t'' then ALit ''true'' (Bool True)
     else if c = CHR ''f'' then ALit ''false'' (Bool False)
     else if c = CHR ''n'' then ALit ''null'' Null
     else if c = CHR ''-'' \<or> is_digit c then ANumber
     else ABad)"

fun p_value :: "nat \<Rightarrow> Limits \<Rightarrow> nat \<Rightarrow> string \<Rightarrow> PErr + Value \<times> string"
  and p_members :: "nat \<Rightarrow> Limits \<Rightarrow> nat \<Rightarrow> (string \<times> Value) list \<Rightarrow> string \<Rightarrow> PErr + Value \<times> string"
  and p_items :: "nat \<Rightarrow> Limits \<Rightarrow> nat \<Rightarrow> Value list \<Rightarrow> string \<Rightarrow> PErr + Value \<times> string" where
  "p_value 0 lim depth s = Inl PFuel"
| "p_value (Suc n) lim depth s =
     (if depth > max_depth lim then Inl PBound
      else sbind (next_char (ws s)) (\<lambda>(c, r).
        case arm c of
          AObject \<Rightarrow> (case expect (CHR ''}'') (ws r) of
              Inr t \<Rightarrow> Inr (Obj [], t)
            | Inl _ \<Rightarrow> p_members n lim depth [] (ws r))
        | AArray \<Rightarrow> (case expect (CHR '']'') (ws r) of
              Inr t \<Rightarrow> Inr (Arr [], t)
            | Inl _ \<Rightarrow> p_items n lim depth [] (ws r))
        | AString \<Rightarrow> sbind (string_loop [] r) (\<lambda>(st, t). Inr (Str st, t))
        | ALit l v \<Rightarrow> lit l v (ws s)
        | ANumber \<Rightarrow> sbind (number (ws s)) (\<lambda>(raw, t). Inr (Num raw, t))
        | ABad \<Rightarrow> Inl PSyntax))"
| "p_members 0 lim depth members s = Inl PFuel"
| "p_members (Suc n) lim depth members s =
     sbind (expect (CHR 0x22) (ws s)) (\<lambda>s1.
     sbind (string_loop [] s1) (\<lambda>(key, s2).
     sbind (expect (CHR '':'') (ws s2)) (\<lambda>s3.
     sbind (p_value n lim (depth + 1) s3) (\<lambda>(v, s4).
       if key \<in> fst ` set members then Inl PSyntax
       else let members = members @ [(key, v)] in
         if length members > max_members lim then Inl PBound
         else sbind (next_char (ws s4)) (\<lambda>(c, s5).
           if c = CHR '','' then p_members n lim depth members s5
           else if c = CHR ''}'' then Inr (Obj members, s5)
           else Inl PSyntax)))))"
| "p_items 0 lim depth items s = Inl PFuel"
| "p_items (Suc n) lim depth items s =
     sbind (p_value n lim (depth + 1) s) (\<lambda>(v, s1).
       let items = items @ [v] in
       if length items > max_array lim then Inl PBound
       else sbind (next_char (ws s1)) (\<lambda>(c, s2).
         if c = CHR '','' then p_items n lim depth items s2
         else if c = CHR '']'' then Inr (Arr items, s2)
         else Inl PSyntax))"

definition parse_fuel :: "string \<Rightarrow> nat" where
  "parse_fuel s = 2 * length s + 1"

definition parse :: "string \<Rightarrow> Limits \<Rightarrow> PErr + Value" where
  "parse s lim =
     (if length s > max_bytes lim \<or> s = [] then Inl PBound
      else if \<not> utf8_ok s then Inl PSyntax
      else if take 3 (bytes s) = [0xEF, 0xBB, 0xBF] then Inl PSyntax
      else sbind (p_value (parse_fuel s) lim 0 s) (\<lambda>(v, r).
        if ws r \<noteq> [] then Inl PSyntax else Inr v))"

section \<open>What is left is shorter\<close>

lemma length_ws [simp]: "length (ws s) \<le> length s"
  by (simp add: ws_def length_dropWhile_le)

lemma ws_less: "length t < length (ws s) \<Longrightarrow> length t < length s"
  using length_ws [of s] by linarith

lemma next_char_Inr [simp]: "next_char s = Inr (c, r) \<longleftrightarrow> s = c # r"
  by (auto simp: next_char_def split: list.splits)

lemma next_char_Cons [simp]: "next_char (c # r) = Inr (c, r)"
  by (simp add: next_char_def)

lemma expect_Cons [simp]: "expect c (x # r) = (if x = c then Inr r else Inl PSyntax)"
  by (simp add: expect_def)

lemma expect_Inr [simp]: "expect c s = Inr r \<longleftrightarrow> s = c # r"
  by (auto simp: expect_def split: list.splits)

lemma lit_length: "lit l v s = Inr (w, r) \<Longrightarrow> l \<noteq> [] \<Longrightarrow> length r < length s"
  by (cases s) (auto simp: lit_def split: if_splits)

lemma num_digits_length: "num_digits s = Inr (a, r) \<Longrightarrow> length r < length s"
  using length_dropWhile_le [of is_digit "tl s"]
  by (cases s) (auto simp: num_digits_def split: if_splits)

lemma num_parts_length:
  "num_int s = Inr (a, r) \<Longrightarrow> length r < length s"
  "num_frac s = Inr (a, r) \<Longrightarrow> length r \<le> length s"
  "num_exp s = Inr (a, r) \<Longrightarrow> length r \<le> length s"
  by (force simp: num_int_def num_frac_def num_exp_def dest: num_digits_length split: list.splits if_splits)+

lemma number_length:
  assumes "number s = Inr (a, r)"
  shows "length r < length s"
proof -
  obtain sg s1 where sg: "num_sign s = (sg, s1)" by (cases "num_sign s")
  then have "length s1 \<le> length s" by (auto simp: num_sign_def split: list.splits if_splits)
  with assms sg show ?thesis unfolding number_def
    by (auto dest!: num_parts_length)
qed

lemma string_loop_length: "string_loop out s = Inr (x, r) \<Longrightarrow> length r < length s"
proof (induction out s arbitrary: x r rule: string_loop.induct)
  case (1 out s)
  then obtain c q where s: "s = c # q" by (cases s) (simp_all add: string_loop.simps)
  show ?case
  proof (cases "c = CHR 0x22")
    case True
    then show ?thesis using "1.prems" s by (simp add: string_loop.simps)
  next
    case False
    then obtain ch u where ch: "string_chunk s = Inr (ch, u)" "string_loop (out @ ch) u = Inr (x, r)"
      using "1.prems" s by (subst (asm) string_loop.simps) auto
    then have "length r < length u" using "1.IH" [OF s False ch(1)] by simp
    then show ?thesis using string_chunk_length [OF ch(1)] by simp
  qed
qed

text \<open>How a value, a member list and an item list were read.\<close>

lemma arm_lit: "arm c = ALit l v \<Longrightarrow> l \<noteq> [] \<and> v \<in> {Null, Bool True, Bool False}"
  by (auto simp: arm_def split: if_split_asm)

lemma lit_Inr: "lit l w u = Inr (v, t) \<Longrightarrow> v = w"
  by (simp add: lit_def split: if_split_asm)

lemma p_value_Inr:
  assumes "p_value (Suc n) lim d s = Inr (v, t)"
  obtains c r where "d \<le> max_depth lim" "ws s = c # r"
    "(v = Obj [] \<and> ws r = CHR ''}'' # t) \<or> p_members n lim d [] (ws r) = Inr (v, t) \<or>
     (v = Arr [] \<and> ws r = CHR '']'' # t) \<or> p_items n lim d [] (ws r) = Inr (v, t) \<or>
     (\<exists>st. v = Str st \<and> string_loop [] r = Inr (st, t)) \<or>
     (\<exists>l. lit l v (ws s) = Inr (v, t) \<and> l \<noteq> [] \<and> v \<in> {Null, Bool True, Bool False}) \<or>
     (\<exists>raw. v = Num raw \<and> number (ws s) = Inr (raw, t))"
proof -
  from assms obtain c r where d: "d \<le> max_depth lim" and c: "ws s = c # r"
    by (auto split: if_splits)
  show thesis
  proof (rule that [OF d c], cases "arm c")
    case (ALit l w)
    then have "lit l w (ws s) = Inr (v, t)" using assms d c by simp
    moreover then have "v = w" by (rule lit_Inr)
    ultimately show "(v = Obj [] \<and> ws r = CHR ''}'' # t) \<or> p_members n lim d [] (ws r) = Inr (v, t) \<or>
     (v = Arr [] \<and> ws r = CHR '']'' # t) \<or> p_items n lim d [] (ws r) = Inr (v, t) \<or>
     (\<exists>st. v = Str st \<and> string_loop [] r = Inr (st, t)) \<or>
     (\<exists>l. lit l v (ws s) = Inr (v, t) \<and> l \<noteq> [] \<and> v \<in> {Null, Bool True, Bool False}) \<or>
     (\<exists>raw. v = Num raw \<and> number (ws s) = Inr (raw, t))" using arm_lit [OF ALit] by blast
  qed (use assms d c in \<open>auto split: sum.split_asm\<close>)
qed

lemma p_members_Inr:
  assumes "p_members (Suc n) lim d ms s = Inr (v, t)"
  obtains s1 key s2 s3 w s4 c s5 where "ws s = CHR 0x22 # s1" "string_loop [] s1 = Inr (key, s2)"
    "ws s2 = CHR '':'' # s3" "p_value n lim (d + 1) s3 = Inr (w, s4)" "key \<notin> fst ` set ms"
    "length (ms @ [(key, w)]) \<le> max_members lim" "ws s4 = c # s5"
    "p_members n lim d (ms @ [(key, w)]) s5 = Inr (v, t) \<or> (v = Obj (ms @ [(key, w)]) \<and> t = s5)"
proof -
  from assms obtain s1 key s2 s3 w s4 where a: "ws s = CHR 0x22 # s1" "string_loop [] s1 = Inr (key, s2)"
    "ws s2 = CHR '':'' # s3" "p_value n lim (d + 1) s3 = Inr (w, s4)"
    and b: "(if key \<in> fst ` set ms then Inl PSyntax
       else let members = ms @ [(key, w)] in
         if length members > max_members lim then Inl PBound
         else sbind (next_char (ws s4)) (\<lambda>(c, s5).
           if c = CHR '','' then p_members n lim d members s5
           else if c = CHR ''}'' then Inr (Obj members, s5)
           else Inl PSyntax)) = Inr (v, t)"
    by (auto simp del: if_Inl_Inr)
  from b obtain c s5 where "key \<notin> fst ` set ms" "length (ms @ [(key, w)]) \<le> max_members lim" "ws s4 = c # s5"
    "p_members n lim d (ms @ [(key, w)]) s5 = Inr (v, t) \<or> (v = Obj (ms @ [(key, w)]) \<and> t = s5)"
    by (auto simp: Let_def split: if_split_asm)
  with a show thesis by (rule that)
qed

lemma p_items_Inr:
  assumes "p_items (Suc n) lim d xs s = Inr (v, t)"
  obtains w s1 c s2 where "p_value n lim (d + 1) s = Inr (w, s1)" "length (xs @ [w]) \<le> max_array lim"
    "ws s1 = c # s2" "p_items n lim d (xs @ [w]) s2 = Inr (v, t) \<or> (v = Arr (xs @ [w]) \<and> t = s2)"
proof -
  from assms obtain w s1 where a: "p_value n lim (d + 1) s = Inr (w, s1)"
    and b: "(let items = xs @ [w] in
       if length items > max_array lim then Inl PBound
       else sbind (next_char (ws s1)) (\<lambda>(c, s2).
         if c = CHR '','' then p_items n lim d items s2
         else if c = CHR '']'' then Inr (Arr items, s2)
         else Inl PSyntax)) = Inr (v, t)"
    by (auto simp del: if_Inl_Inr)
  from b obtain c s2 where "length (xs @ [w]) \<le> max_array lim"
    "ws s1 = c # s2" "p_items n lim d (xs @ [w]) s2 = Inr (v, t) \<or> (v = Arr (xs @ [w]) \<and> t = s2)"
    by (auto simp: Let_def split: if_split_asm)
  with a show thesis by (rule that)
qed

lemma ws_Cons_less: "ws s = c # r \<Longrightarrow> length r < length s"
  using length_ws [of s] by simp

lemma parser_length_all:
  "(\<forall>lim d s v r. p_value n lim d s = Inr (v, r) \<longrightarrow> length r < length s) \<and>
   (\<forall>lim d ms s v r. p_members n lim d ms s = Inr (v, r) \<longrightarrow> length r < length s) \<and>
   (\<forall>lim d xs s v r. p_items n lim d xs s = Inr (v, r) \<longrightarrow> length r < length s)"
proof (induction n)
  case (Suc n)
  have "length r < length s" if v: "p_value (Suc n) lim d s = Inr (v, r)" for lim d s v r
    using v
  proof (rule p_value_Inr)
    fix c q assume c: "ws s = c # q"
      and alt: "(v = Obj [] \<and> ws q = CHR ''}'' # r) \<or> p_members n lim d [] (ws q) = Inr (v, r) \<or>
       (v = Arr [] \<and> ws q = CHR '']'' # r) \<or> p_items n lim d [] (ws q) = Inr (v, r) \<or>
       (\<exists>st. v = Str st \<and> string_loop [] q = Inr (st, r)) \<or>
       (\<exists>l. lit l v (ws s) = Inr (v, r) \<and> l \<noteq> [] \<and> v \<in> {Null, Bool True, Bool False}) \<or>
       (\<exists>raw. v = Num raw \<and> number (ws s) = Inr (raw, r))"
    have q: "length q < length s" using c by (rule ws_Cons_less)
    have le: "length (ws q) \<le> length q" "length (ws s) \<le> length s" by simp_all
    have "length r < length q" if "ws q = x # r" for x using ws_Cons_less [OF that] .
    moreover have "length r < length (ws q)" if "p_members n lim d [] (ws q) = Inr (v, r)"
      using that Suc.IH by blast
    moreover have "length r < length (ws q)" if "p_items n lim d [] (ws q) = Inr (v, r)"
      using that Suc.IH by blast
    moreover have "length r < length q" if "string_loop [] q = Inr (st, r)" for st
      using string_loop_length [OF that] .
    moreover have "length r < length (ws s)" if "lit l v (ws s) = Inr (v, r)" "l \<noteq> []" for l
      using lit_length [OF that] .
    moreover have "length r < length (ws s)" if "number (ws s) = Inr (raw, r)" for raw
      using number_length [OF that] .
    ultimately show ?thesis using alt q le by (meson order_less_le_trans order_less_trans)
  qed
  moreover have "length r < length s" if v: "p_members (Suc n) lim d ms s = Inr (v, r)" for lim d ms s v r
    using v
  proof (rule p_members_Inr)
    fix s1 key s2 s3 w s4 c s5
    assume *: "ws s = CHR 0x22 # s1" "string_loop [] s1 = Inr (key, s2)" "ws s2 = CHR '':'' # s3"
      "p_value n lim (d + 1) s3 = Inr (w, s4)" "ws s4 = c # s5"
      "p_members n lim d (ms @ [(key, w)]) s5 = Inr (v, r) \<or> v = Obj (ms @ [(key, w)]) \<and> r = s5"
    have "length s5 < length s"
      using ws_Cons_less [OF *(1)] ws_Cons_less [OF *(3)] ws_Cons_less [OF *(5)]
        string_loop_length [OF *(2)] Suc.IH *(4) by fastforce
    moreover have "length r \<le> length s5" using *(6) Suc.IH by fastforce
    ultimately show ?thesis by simp
  qed
  moreover have "length r < length s" if v: "p_items (Suc n) lim d xs s = Inr (v, r)" for lim d xs s v r
    using v
  proof (rule p_items_Inr)
    fix w s1 c s2
    assume *: "p_value n lim (d + 1) s = Inr (w, s1)" "ws s1 = c # s2"
      "p_items n lim d (xs @ [w]) s2 = Inr (v, r) \<or> v = Arr (xs @ [w]) \<and> r = s2"
    have "length s2 < length s" using ws_Cons_less [OF *(2)] Suc.IH *(1) by fastforce
    moreover have "length r \<le> length s2" using *(3) Suc.IH by fastforce
    ultimately show ?thesis by simp
  qed
  ultimately show ?case by blast
qed simp

lemmas parser_length = parser_length_all [THEN conjunct1, rule_format]
  parser_length_all [THEN conjunct2, THEN conjunct1, rule_format]
  parser_length_all [THEN conjunct2, THEN conjunct2, rule_format]

section \<open>The fuel is enough\<close>

lemma string_errors:
  "hex4 s \<noteq> Inl PFuel" "string_chunk s \<noteq> Inl PFuel" "number s \<noteq> Inl PFuel"
proof -
  show hex4: "hex4 s \<noteq> Inl PFuel" for s
    by (auto simp: hex4_def hex1_def sbind_eq_Inl split: list.splits option.splits)
  have "expect c s \<noteq> Inl PFuel" "next_char s \<noteq> Inl PFuel" for c s
    by (auto simp: expect_def next_char_def split: list.splits)
  with hex4 show "string_chunk s \<noteq> Inl PFuel"
    by (auto simp: string_chunk_def escape_def unicode_escape_def Let_def sbind_eq_Inl)
  have digits: "num_digits s \<noteq> Inl PFuel" for s by (simp add: num_digits_def)
  have "num_int s \<noteq> Inl PFuel" for s
    using digits by (auto simp: num_int_def split: list.split)
  moreover have "num_frac s \<noteq> Inl PFuel" for s
    using digits by (auto simp: num_frac_def sbind_eq_Inl split: list.split)
  moreover have "num_exp s \<noteq> Inl PFuel" for s
    using digits by (auto simp: num_exp_def sbind_eq_Inl split: list.split)
  ultimately show "number s \<noteq> Inl PFuel"
    unfolding number_def by (auto simp: sbind_eq_Inl split: prod.split)
qed

lemma string_loop_errors: "string_loop out s \<noteq> Inl PFuel"
proof (induction out s rule: string_loop.induct)
  case (1 out s)
  then show ?case
    by (subst string_loop.simps) (auto simp: sbind_eq_Inl string_errors split: list.split)
qed

lemma simple_errors: "next_char s \<noteq> Inl PFuel" "expect c s \<noteq> Inl PFuel" "lit l v s \<noteq> Inl PFuel"
  by (auto simp: expect_def next_char_def lit_def split: list.splits)

lemma fuel_enough:
  "(\<forall>lim d s. 2 * length s < n \<longrightarrow> p_value n lim d s \<noteq> Inl PFuel) \<and>
   (\<forall>lim d ms s. 2 * length s + 1 < n \<longrightarrow> p_members n lim d ms s \<noteq> Inl PFuel) \<and>
   (\<forall>lim d xs s. 2 * length s + 1 < n \<longrightarrow> p_items n lim d xs s \<noteq> Inl PFuel)"
proof (induction n)
  case (Suc n)
  note errs = simple_errors string_loop_errors string_errors
  have "p_value (Suc n) lim d s \<noteq> Inl PFuel" if n: "2 * length s < Suc n" for lim d s
  proof (cases "ws s")
    case (Cons c r)
    have "2 * length (ws r) + 1 < n" using ws_Cons_less [OF Cons] length_ws [of r] n by linarith
    then show ?thesis using Suc.IH Cons errs
      by (cases "arm c") (auto simp: sbind_eq_Inl split: sum.split)
  qed (simp add: next_char_def)
  moreover have "p_members (Suc n) lim d ms s \<noteq> Inl PFuel" if n: "2 * length s + 1 < Suc n" for lim d ms s
  proof -
    have v: "p_value n lim (d + 1) s3 \<noteq> Inl PFuel"
      if "ws s = q # s1" "string_loop [] s1 = Inr (key, s2)" "ws s2 = x # s3" for q s1 key s2 x s3
      using Suc.IH ws_Cons_less [OF that(1)] string_loop_length [OF that(2)] ws_Cons_less [OF that(3)] n by simp
    have m: "p_members n lim d ms' s5 \<noteq> Inl PFuel"
      if "ws s = q # s1" "string_loop [] s1 = Inr (key, s2)" "ws s2 = x # s3"
        "p_value n lim (d + 1) s3 = Inr (w, s4)" "ws s4 = c # s5" for q s1 key s2 x s3 w s4 c s5 ms'
      using Suc.IH ws_Cons_less [OF that(1)] string_loop_length [OF that(2)] ws_Cons_less [OF that(3)]
        parser_length(1) [OF that(4)] ws_Cons_less [OF that(5)] n by simp
    show ?thesis using v m errs by (auto simp: sbind_eq_Inl Let_def split: if_split_asm)
  qed
  moreover have "p_items (Suc n) lim d xs s \<noteq> Inl PFuel" if n: "2 * length s + 1 < Suc n" for lim d xs s
  proof -
    have v: "p_value n lim (d + 1) s \<noteq> Inl PFuel" using Suc.IH n by simp
    have m: "p_items n lim d xs' s2 \<noteq> Inl PFuel"
      if "p_value n lim (d + 1) s = Inr (w, s1)" "ws s1 = c # s2" for w s1 c s2 xs'
      using Suc.IH parser_length(1) [OF that(1)] ws_Cons_less [OF that(2)] n by simp
    show ?thesis using v m errs by (auto simp: sbind_eq_Inl Let_def split: if_split_asm)
  qed
  ultimately show ?case by blast
qed simp

text \<open>
  C37. The parser is total: on every document and under every limits the recursion ends
  within the fuel \<open>parse\<close> gives it, in a value or in one of the two error classes of the source.
\<close>

theorem parse_total: "parse s lim \<noteq> Inl PFuel"
proof -
  have "p_value (parse_fuel s) lim 0 s \<noteq> Inl PFuel"
    using fuel_enough [of "parse_fuel s", THEN conjunct1] by (auto simp: parse_fuel_def simp del: p_value.simps)
  then show ?thesis unfolding parse_def by (auto simp: sbind_eq_Inl simp del: p_value.simps)
qed

declare p_value.simps [simp del] p_members.simps [simp del] p_items.simps [simp del]

end
