(* ===== verification/Gates.thy ===== *)
theory Gates
  imports SchemaConfig JsonParse
begin

text \<open>
  Configuration and trust (\<open>config.rs\<close>): admission of the configuration file, the startup gates,
  the pins of keys and the verification of a signed envelope under a pin. The bytes of a file are
  an argument; an unreadable file is an error of the reader.
\<close>

section \<open>Pins\<close>

definition pin_matches :: "string \<Rightarrow> string \<Rightarrow> string \<Rightarrow> nat \<Rightarrow> KeyPin \<Rightarrow> bool" where
  "pin_matches tag subject key_id key_epoch k \<longleftrightarrow>
     kp_id k = key_id \<and> kp_live k \<and> \<not> kp_compromised k \<and> tag \<in> set (kp_tags k) \<and>
     subject \<in> set (kp_subjects k) \<and> key_epoch \<ge> kp_from_epoch k \<and>
     (case kp_through_epoch k of None \<Rightarrow> True | Some t \<Rightarrow> key_epoch \<le> t)"

definition require_pin :: "Trust \<Rightarrow> string \<Rightarrow> string \<Rightarrow> string \<Rightarrow> nat \<Rightarrow> KeyPin R" where
  "require_pin trust tag subject key_id key_epoch =
     ok_or (find (pin_matches tag subject key_id key_epoch) (tr_keys trust))
       (new_fault SignatureInvalid (''no live pin for '' @ tag @ ''/'' @ subject @ ''/'' @ key_id @ ''@'' @ dec key_epoch))"

definition verify_signed_key ::
  "Crypto \<Rightarrow> Trust \<Rightarrow> string \<Rightarrow> string \<Rightarrow> string \<Rightarrow> nat \<Rightarrow> Signed \<Rightarrow> unit R" where
  "verify_signed_key cr trust tag subject key_id key_epoch sv =
    (if sd_key_id sv \<noteq> key_id \<or> sd_key_epoch sv \<noteq> key_epoch
     then Inl (new_fault SignatureInvalid ''key id/epoch mismatch'')
     else sbind (require_pin trust tag subject key_id key_epoch) (\<lambda>pin.
       case b64u_decode cr (kp_public_key pin) of
         None \<Rightarrow> Inl (new_fault SignatureInvalid ''pin key undecodable'')
       | Some pk \<Rightarrow>
           if length pk \<noteq> 32 then Inl (new_fault SignatureInvalid ''pin key undecodable'')
           else if verify_envelope cr tag (sd_body sv) (sd_digest sv) (sd_key_id sv)
             (dec (sd_key_epoch sv)) (sd_signature sv) pk
           then Inr () else Inl (new_fault SignatureInvalid ''bad signature'')))"

definition verify_signed :: "Crypto \<Rightarrow> Trust \<Rightarrow> string \<Rightarrow> string \<Rightarrow> Signed \<Rightarrow> unit R" where
  "verify_signed cr trust tag subject sv =
     verify_signed_key cr trust tag subject (sd_key_id sv) (sd_key_epoch sv) sv"

text \<open>What verification under a pin establishes.\<close>

definition signed_by_pin :: "Crypto \<Rightarrow> Trust \<Rightarrow> string \<Rightarrow> string \<Rightarrow> Signed \<Rightarrow> bool" where
  "signed_by_pin cr trust tag subject sv \<longleftrightarrow> (\<exists>pin pk. pin \<in> set (tr_keys trust) \<and>
     pin_matches tag subject (sd_key_id sv) (sd_key_epoch sv) pin \<and>
     b64u_decode cr (kp_public_key pin) = Some pk \<and> length pk = 32 \<and>
     verify_envelope cr tag (sd_body sv) (sd_digest sv) (sd_key_id sv) (dec (sd_key_epoch sv)) (sd_signature sv) pk)"

lemma require_pin_Inr: "require_pin trust tag subject k e = Inr pin \<Longrightarrow>
    pin \<in> set (tr_keys trust) \<and> pin_matches tag subject k e pin"
  unfolding require_pin_def ok_or_eq_Inr find_Some_iff by auto

lemma verify_signed_key_sound: "verify_signed_key cr trust tag subject k e sv = Inr u \<Longrightarrow>
    signed_by_pin cr trust tag subject sv \<and> sd_key_id sv = k \<and> sd_key_epoch sv = e"
  unfolding verify_signed_key_def signed_by_pin_def
  by (auto split: if_split_asm option.splits dest!: require_pin_Inr)

lemma verify_signed_sound: "verify_signed cr trust tag subject sv = Inr u \<Longrightarrow> signed_by_pin cr trust tag subject sv"
  unfolding verify_signed_def by (blast dest: verify_signed_key_sound)

section \<open>Startup\<close>

record ReleaseBody =
  rb_tenant :: string
  rb_covenant_version :: string

definition release_body :: "Value \<Rightarrow> ReleaseBody R" where
  "release_body v = sbind (obj_of v) (\<lambda>m.
     sbind (closed m [''v'', ''tenant'', ''covenant_version'', ''covenant_receipt'',
       ''reference_host_evidence'', ''external_operator_evidence'', ''watch_conformance'',
       ''approved_profile'']) (\<lambda>_.
     sbind (fld m ''v'' (lit_num 1)) (\<lambda>_.
     sbind (fld m ''tenant'' id_of) (\<lambda>tenant.
     sbind (fld m ''covenant_version'' text_of) (\<lambda>version.
     Inr \<lparr>rb_tenant = tenant, rb_covenant_version = version\<rparr>)))))"

definition gated :: "string \<Rightarrow> Fault" where
  "gated msg = new_fault Gated msg"

definition startup_gates :: "Crypto \<Rightarrow> Config \<Rightarrow> Trust \<Rightarrow> unit R" where
  "startup_gates cr cfg trust =
    (if tr_tenant trust \<noteq> cf_tenant cfg then Inl (gated ''trust tenant mismatch'')
     else if cf_deployment cfg = ''lab'' then Inr ()
     else if cf_deployment cfg = ''production'' then
       (case cf_release cfg of None \<Rightarrow> Inl (gated ''production requires a signed release'')
        | Some rel \<Rightarrow> sbind (release_body (sd_body rel)) (\<lambda>rb.
            if rb_covenant_version rb = [] \<or> rb_tenant rb \<noteq> cf_tenant cfg
            then Inl (gated ''release tenant/covenant missing'')
            else sbind (map_err (\<lambda>e. gated (''release pin: '' @ fault_message e))
                (verify_signed cr trust ''release'' (cf_tenant cfg) rel)) (\<lambda>_.
              if ''fixture/1'' \<in> set (cf_certified_profiles cfg)
              then Inl (gated ''fixture profile in production'') else Inr ())))
     else Inl (gated ''unknown deployment''))"

text \<open>The files at the paths of the configuration: the bytes, or the error of the reader.\<close>

definition artifact_check :: "Crypto \<Rightarrow> (string \<Rightarrow> string + string) \<Rightarrow> Detector \<times> string \<times> string \<Rightarrow> unit R" where
  "artifact_check cr files a = (case a of (det, digest, path) \<Rightarrow> (case files path of
     Inl e \<Rightarrow> Inl (new_fault ArtifactUnavailable (''artifact '' @ detector_as_str det @ '' unreadable: '' @ e))
   | Inr b \<Rightarrow>
      (if sha256_hex cr b = digest \<or>
          (case parse b reply_limits of Inl _ \<Rightarrow> False | Inr v \<Rightarrow> d cr ''artifact'' v = digest)
       then Inr ()
       else Inl (new_fault ArtifactUnavailable (''artifact '' @ detector_as_str det @ '' digest mismatch'')))))"

definition verify_artifacts :: "Crypto \<Rightarrow> (string \<Rightarrow> string + string) \<Rightarrow> Config \<Rightarrow> unit R" where
  "verify_artifacts cr files cfg = forR (artifact_check cr files) (cf_installed_artifacts cfg)"

section \<open>The configuration file\<close>

definition req_max :: nat where "req_max = 1048576"

text \<open>\<open>Path::is_absolute\<close>.\<close>

definition is_absolute :: "string \<Rightarrow> bool" where
  "is_absolute p \<longleftrightarrow> starts_with p ''/''"

fun check_principals :: "nat list \<Rightarrow> string list \<Rightarrow> Principal list \<Rightarrow> unit R" where
  "check_principals uids ids [] = Inr ()"
| "check_principals uids ids (pr # prs) =
     (if pr_uid pr \<in> set uids \<or> pr_id pr \<in> set ids then Inl (schem ''duplicate principal uid/id'')
      else if pr_id pr = ''watchd'' then Inl (schem ''watchd is reserved'')
      else if ''runtime'' \<in> set (pr_roles pr) \<and> (\<exists>r \<in> set (pr_roles pr). r \<noteq> ''runtime'')
      then Inl (schem ''runtime mixes roles'')
      else check_principals (pr_uid pr # uids) (pr_id pr # ids) prs)"

text \<open>The panic of \<open>config\<close> is the outcome \<open>None\<close>.\<close>

definition load_config :: "Crypto \<Rightarrow> string \<Rightarrow> Config R option" where
  "load_config cr b =
    (if length b > req_max then Some (Inl (schem ''file over bound''))
     else case parse b reply_limits of
       Inl e \<Rightarrow> Some (Inl (schem (code_as_str (perr_code e))))
     | Inr v \<Rightarrow> (case config_of cr v of None \<Rightarrow> None | Some (Inl e) \<Rightarrow> Some (Inl e)
        | Some (Inr c) \<Rightarrow>
            (if \<not> list_all is_absolute [cf_socket c, cf_data_dir c, cf_signer_key_file c, cf_trust_file c,
                  cf_object_key_file c]
             then Some (Inl (schem ''paths must be absolute''))
             else Some (sbind (check_principals [] [] (cf_principals c)) (\<lambda>_. Inr c)))))"

definition load_trust :: "Crypto \<Rightarrow> string \<Rightarrow> Trust R" where
  "load_trust cr b =
    (if length b > req_max then Inl (schem ''file over bound'')
     else case parse b reply_limits of
       Inl e \<Rightarrow> Inl (schem (code_as_str (perr_code e)))
     | Inr v \<Rightarrow> trust_of cr v)"

text \<open>The roles a principal may hold together.\<close>

definition principal_admissible :: "Principal \<Rightarrow> bool" where
  "principal_admissible pr \<longleftrightarrow> pr_id pr \<noteq> ''watchd'' \<and>
     (if ''runtime'' \<in> set (pr_roles pr) then set (pr_roles pr) = {''runtime''} else True)"

lemma check_principals_Inr: "check_principals uids ids prs = Inr u \<longleftrightarrow>
    distinct (map pr_uid prs) \<and> distinct (map pr_id prs) \<and>
    set (map pr_uid prs) \<inter> set uids = {} \<and> set (map pr_id prs) \<inter> set ids = {} \<and>
    list_all principal_admissible prs"
proof (induction uids ids prs rule: check_principals.induct)
  case (2 uids ids pr prs)
  have step: "check_principals uids ids (pr # prs) = Inr u \<longleftrightarrow>
      pr_uid pr \<notin> set uids \<and> pr_id pr \<notin> set ids \<and> principal_admissible pr \<and>
      check_principals (pr_uid pr # uids) (pr_id pr # ids) prs = Inr u"
    by (auto simp: principal_admissible_def)
  show ?case
  proof (cases "pr_uid pr \<notin> set uids \<and> pr_id pr \<notin> set ids \<and> principal_admissible pr")
    case True
    then have "check_principals (pr_uid pr # uids) (pr_id pr # ids) prs = Inr u \<longleftrightarrow>
        distinct (map pr_uid prs) \<and> distinct (map pr_id prs) \<and>
        set (map pr_uid prs) \<inter> set (pr_uid pr # uids) = {} \<and>
        set (map pr_id prs) \<inter> set (pr_id pr # ids) = {} \<and> list_all principal_admissible prs"
      by (intro "2.IH") (auto simp: principal_admissible_def split: if_split_asm)
    then show ?thesis using True unfolding step by auto
  next
    case False
    then show ?thesis unfolding step by auto
  qed
qed simp

lemma load_config_Inr: "load_config cr b = Some (Inr c) \<Longrightarrow>
    check_principals [] [] (cf_principals c) = Inr () \<and>
    list_all is_absolute [cf_socket c, cf_data_dir c, cf_signer_key_file c, cf_trust_file c, cf_object_key_file c]"
  unfolding load_config_def by (auto split: if_split_asm sum.split_asm option.split_asm)

text \<open>
  C39. The principals of an accepted configuration have pairwise different user ids and
  names (a peer's user id names at most one principal), none uses the reserved name \<open>watchd\<close>, and
  no runtime also reviews, operates or audits; exactly such lists are accepted.
\<close>

theorem principals_admitted:
  "check_principals [] [] prs = Inr u \<longleftrightarrow>
     distinct (map pr_uid prs) \<and> distinct (map pr_id prs) \<and> list_all principal_admissible prs"
  by (simp add: check_principals_Inr)

end
