(* ===== verification/JsonRoundtrip.thy ===== *)
theory JsonRoundtrip
  imports JsonParse
begin

text \<open>
  The parser and the canonical serializer together (\<open>json.rs\<close>): what \<open>parse\<close> accepts respects the
  limits and has no duplicate member, and parsing a canonical document gives the value back with
  its members in canonical order.
\<close>

section \<open>Admissible values\<close>

text \<open>
  Within the limits at a depth: numbers are complete number lexemes, strings are UTF-8, no object
  has two members of one name.
\<close>

fun val_ok :: "Limits \<Rightarrow> nat \<Rightarrow> Value \<Rightarrow> bool" where
  "val_ok lim d (Num raw) = (d \<le> max_depth lim \<and> number raw = Inr (raw, []))"
| "val_ok lim d (Str s) = (d \<le> max_depth lim \<and> utf8_ok s)"
| "val_ok lim d (Arr items) = (d \<le> max_depth lim \<and> length items \<le> max_array lim \<and>
     list_all (val_ok lim (d + 1)) items)"
| "val_ok lim d (Obj ms) = (d \<le> max_depth lim \<and> length ms \<le> max_members lim \<and>
     distinct (map fst ms) \<and> list_all (\<lambda>m. utf8_ok (fst m) \<and> val_ok lim (d + 1) (snd m)) ms)"
| "val_ok lim d v = (d \<le> max_depth lim)"

lemma val_ok_depth: "val_ok lim d v \<Longrightarrow> d \<le> max_depth lim"
  by (cases v) simp_all

section \<open>What the parser accepts is admissible\<close>

lemma takeWhile_idem [simp]: "takeWhile P (takeWhile P xs) = takeWhile P xs" "dropWhile P (takeWhile P xs) = []"
  by (induction xs) auto

text \<open>A number is read again from its own lexeme, whatever closes it.\<close>

definition closes :: "string \<Rightarrow> bool" where
  "closes r \<longleftrightarrow> (case r of [] \<Rightarrow> True | c # _ \<Rightarrow> c \<in> {CHR '','', CHR ''}'', CHR '']''})"

lemma closes_not:
  "closes (c # r) \<Longrightarrow> \<not> is_digit c \<and> c \<noteq> CHR ''.'' \<and> c \<noteq> CHR ''e'' \<and> c \<noteq> CHR ''E'' \<and> \<not> is_ws c"
  by (auto simp: closes_def is_digit_def is_ws_def)

text \<open>What may follow an integer part and a fraction: no digit.\<close>

definition no_digit :: "string \<Rightarrow> bool" where
  "no_digit r \<longleftrightarrow> (case r of [] \<Rightarrow> True | c # _ \<Rightarrow> \<not> is_digit c)"

lemma digits_again:
  assumes "num_digits s = Inr (a, r)" and "no_digit q"
  shows "num_digits (a @ q) = Inr (a, q)"
proof -
  have "takeWhile is_digit q = []" "dropWhile is_digit q = q"
    using assms(2) by (cases q; simp add: no_digit_def)+
  moreover have "a \<noteq> []" "list_all is_digit a"
    using assms(1) by (auto simp: num_digits_def list_all_iff dest: set_takeWhileD split: if_split_asm)
  moreover have "takeWhile is_digit (a @ q) = a @ takeWhile is_digit q"
    "dropWhile is_digit (a @ q) = dropWhile is_digit q"
    using \<open>list_all is_digit a\<close> by (auto simp: list_all_iff takeWhile_append2 dropWhile_append2)
  ultimately show ?thesis by (simp add: num_digits_def)
qed

lemma closes_no_digit: "closes q \<Longrightarrow> no_digit q"
  by (cases q) (auto simp: no_digit_def dest: closes_not)

lemma digits_head: "num_digits s = Inr (a, r) \<Longrightarrow> \<exists>c a'. a = c # a' \<and> is_digit c \<and> s = c # a' @ r"
  by (cases s) (auto simp: num_digits_def split: if_split_asm)

lemma digit_not: "is_digit c \<Longrightarrow> c \<noteq> CHR ''-'' \<and> c \<noteq> CHR ''+'' \<and> c \<noteq> CHR ''.''"
  by (auto simp: is_digit_def)

lemma int_again:
  assumes "num_int s = Inr (b, r)" and "no_digit x"
  shows "num_int (b @ x) = Inr (b, x)"
proof (cases "b = ''0''")
  case False
  then have dg: "num_digits s = Inr (b, r)" using assms(1)
    by (auto simp: num_int_def split: list.splits if_split_asm)
  then obtain c b' where b: "b = c # b'" "s = c # b' @ r" using digits_head by blast
  then have "c \<noteq> CHR ''0''" using assms(1) False by (auto simp: num_int_def split: if_split_asm)
  then show ?thesis using digits_again [OF dg assms(2)] b by (simp add: num_int_def)
qed (simp add: num_int_def)

lemma frac_again:
  assumes "num_frac s = Inr (c, r)" and "no_digit x" and "x = [] \<or> hd x \<noteq> CHR ''.''"
  shows "num_frac (c @ x) = Inr (c, x)"
proof (cases "c = []")
  case True
  then show ?thesis using assms(3) by (cases x) (simp_all add: num_frac_def)
next
  case False
  then obtain s' ds where "num_digits s' = Inr (ds, r)" "c = CHR ''.'' # ds"
    using assms(1) by (auto simp: num_frac_def split: list.splits if_split_asm)
  then show ?thesis using digits_again [OF _ assms(2)] by (auto simp: num_frac_def)
qed

lemma exp_again:
  assumes "num_exp s = Inr (e, r)" and "closes q"
  shows "num_exp (e @ q) = Inr (e, q)"
proof (cases "e = []")
  case True
  then show ?thesis using assms(2) by (cases q) (auto simp: num_exp_def dest: closes_not)
next
  case False
  then obtain c g s' ds where e: "num_digits s' = Inr (ds, r)" "c = CHR ''e'' \<or> c = CHR ''E''"
    "e = c # g # ds \<and> (g = CHR ''+'' \<or> g = CHR ''-'') \<or> e = c # ds"
    using assms(1) by (auto simp: num_exp_def split: list.splits if_split_asm)
  from e(1) have again: "num_digits (ds @ q) = Inr (ds, q)"
    using closes_no_digit [OF assms(2)] by (rule digits_again)
  moreover obtain k ds' where "ds = k # ds'" "is_digit k" using digits_head [OF e(1)] by blast
  ultimately show ?thesis using e(2,3) by (auto simp: num_exp_def dest: digit_not)
qed

lemma frac_head: "num_frac s = Inr (c, r) \<Longrightarrow> c = [] \<or> hd c = CHR ''.''"
  by (auto simp: num_frac_def split: list.splits if_split_asm)

lemma exp_head: "num_exp s = Inr (e, r) \<Longrightarrow> e = [] \<or> hd e = CHR ''e'' \<or> hd e = CHR ''E''"
  by (auto simp: num_exp_def split: list.splits if_split_asm)

lemma int_head:
  assumes "num_int s = Inr (b, r)"
  shows "\<exists>k b'. b = k # b' \<and> is_digit k"
proof (cases "b = ''0''")
  case True
  then show ?thesis by (simp add: is_digit_def)
next
  case False
  then have "num_digits s = Inr (b, r)" using assms
    by (auto simp: num_int_def split: list.splits if_split_asm)
  then show ?thesis using digits_head by blast
qed

lemma number_again:
  assumes "number s = Inr (raw, t)" and "closes q"
  shows "number (raw @ q) = Inr (raw, q)"
proof -
  obtain a s1 where sg: "num_sign s = (a, s1)" by (cases "num_sign s")
  with assms(1) obtain b s2 c s3 e s4 where parts: "num_int s1 = Inr (b, s2)" "num_frac s2 = Inr (c, s3)"
    "num_exp s3 = Inr (e, s4)" and raw: "raw = a @ b @ c @ e" by (auto simp: number_def)
  obtain k b' where b: "b = k # b'" "is_digit k" using int_head [OF parts(1)] by blast
  have "num_sign (a @ b @ c @ e @ q) = (a, b @ c @ e @ q)"
    using sg b digit_not [OF b(2)] by (auto simp: num_sign_def split: list.splits if_split_asm)
  moreover have e: "num_exp (e @ q) = Inr (e, q)" using exp_again [OF parts(3) assms(2)] .
  have eq: "no_digit (e @ q) \<and> (e @ q = [] \<or> hd (e @ q) \<noteq> CHR ''.'')"
  proof (cases e)
    case Nil
    then show ?thesis using assms(2) closes_no_digit by (cases q) (auto dest: closes_not)
  next
    case (Cons x e')
    then show ?thesis using exp_head [OF parts(3)] by (auto simp: no_digit_def is_digit_def)
  qed
  moreover have "num_frac (c @ e @ q) = Inr (c, e @ q)" using frac_again [OF parts(2)] eq by blast
  moreover have "num_int (b @ c @ e @ q) = Inr (b, c @ e @ q)"
  proof (rule int_again [OF parts(1)])
    show "no_digit (c @ e @ q)" using eq frac_head [OF parts(2)]
      by (cases c) (auto simp: no_digit_def is_digit_def)
  qed
  ultimately show ?thesis by (simp add: number_def raw e)
qed

lemma number_self: "number s = Inr (raw, t) \<Longrightarrow> number raw = Inr (raw, [])"
  using number_again [of s raw t "[]"] by (simp add: closes_def)

text \<open>Strings: every round of the loop pushes well-formed bytes.\<close>

lemma hex1_less: "hex1 (v, s) = Inr (w, r) \<Longrightarrow> w < 16 * v + 16"
  by (auto simp: hex1_def hex_val_def Let_def split: list.splits option.splits if_split_asm)

lemma hex4_less:
  assumes "hex4 s = Inr (w, r)"
  shows "w < 0x10000"
proof -
  from assms obtain a sa b sb c sc where h: "hex1 (0, s) = Inr (a, sa)" "hex1 (a, sa) = Inr (b, sb)"
    "hex1 (b, sb) = Inr (c, sc)" "hex1 (c, sc) = Inr (w, r)" by (auto simp: hex4_def)
  show ?thesis using hex1_less [OF h(1)] hex1_less [OF h(2)] hex1_less [OF h(3)] hex1_less [OF h(4)] by linarith
qed

lemma unicode_escape_utf8:
  assumes "unicode_escape s = Inr (x, r)"
  shows "utf8_ok x"
proof -
  obtain cp q where cp: "hex4 s = Inr (cp, q)" using assms by (auto simp: unicode_escape_def)
  note less = hex4_less [OF cp]
  show ?thesis
  proof (cases "0xD800 \<le> cp \<and> cp \<le> 0xDBFF")
    case True
    then obtain lo q' where "0xDC00 \<le> lo" "lo \<le> 0xDFFF"
      "x = utf8_encode (0x10000 + (cp - 0xD800) * 1024 + (lo - 0xDC00))"
      using assms cp by (auto simp: unicode_escape_def)
    then show ?thesis using True by (auto intro!: utf8_ok_encode)
  next
    case False
    then show ?thesis using assms cp less by (auto simp: unicode_escape_def intro!: utf8_ok_encode split: if_split_asm)
  qed
qed

lemma string_chunk_utf8:
  assumes "string_chunk s = Inr (x, r)"
  shows "utf8_ok x"
proof -
  have single: "utf8_ok [c]" if "(of_char c :: nat) < 0x80" for c using that by (intro utf8_ok_ascii) simp
  from assms obtain c q where s: "s = c # q" by (auto simp: string_chunk_def)
  show ?thesis
  proof (cases "c = CHR 0x5C")
    case True
    then show ?thesis using assms s single unicode_escape_utf8
      by (auto simp: string_chunk_def escape_def split: if_split_asm)
  next
    case False
    have "utf8_ok (utf8_encode (of_char c))"
    proof (rule utf8_ok_encode)
      have "(of_char c :: nat) < 256" by simp
      then show "(of_char c :: nat) < 0x110000" "\<not> (0xD800 \<le> (of_char c :: nat) \<and> (of_char c :: nat) \<le> 0xDFFF)"
        by linarith+
    qed
    then show ?thesis using assms s False single
      by (auto simp: string_chunk_def Let_def split: if_split_asm)
  qed
qed

lemma string_loop_utf8: "string_loop out s = Inr (x, r) \<Longrightarrow> utf8_ok out \<Longrightarrow> utf8_ok x"
proof (induction out s rule: string_loop.induct)
  case (1 out s)
  then obtain c q where s: "s = c # q" by (cases s) (simp_all add: string_loop.simps)
  show ?case
  proof (cases "c = CHR 0x22")
    case True
    then show ?thesis using "1.prems" s by (simp add: string_loop.simps)
  next
    case False
    then obtain ch u where ch: "string_chunk s = Inr (ch, u)" "string_loop (out @ ch) u = Inr (x, r)"
      using "1.prems"(1) s by (subst (asm) string_loop.simps) auto
    have "utf8_ok (out @ ch)" using "1.prems"(2) string_chunk_utf8 [OF ch(1)] by (rule utf8_ok_append)
    then show ?thesis using "1.IH" [OF s False ch(1) refl ch(2)] by simp
  qed
qed

text \<open>What the loops of objects and arrays have read so far.\<close>

definition members_ok :: "Limits \<Rightarrow> nat \<Rightarrow> (string \<times> Value) list \<Rightarrow> bool" where
  "members_ok lim d ms \<longleftrightarrow> length ms \<le> max_members lim \<and> distinct (map fst ms) \<and>
     list_all (\<lambda>m. utf8_ok (fst m) \<and> val_ok lim (d + 1) (snd m)) ms"

definition items_ok :: "Limits \<Rightarrow> nat \<Rightarrow> Value list \<Rightarrow> bool" where
  "items_ok lim d xs \<longleftrightarrow> length xs \<le> max_array lim \<and> list_all (val_ok lim (d + 1)) xs"

lemma parsed_ok:
  "(\<forall>lim d s v r. p_value n lim d s = Inr (v, r) \<longrightarrow> val_ok lim d v) \<and>
   (\<forall>lim d ms s v r. p_members n lim d ms s = Inr (v, r) \<longrightarrow> d \<le> max_depth lim \<longrightarrow> members_ok lim d ms \<longrightarrow>
      val_ok lim d v) \<and>
   (\<forall>lim d xs s v r. p_items n lim d xs s = Inr (v, r) \<longrightarrow> d \<le> max_depth lim \<longrightarrow> items_ok lim d xs \<longrightarrow>
      val_ok lim d v)"
proof (induction n)
  case (Suc n)
  have "val_ok lim d v" if v: "p_value (Suc n) lim d s = Inr (v, r)" for lim d s v r
    using v
  proof (rule p_value_Inr)
    fix c q assume d: "d \<le> max_depth lim" and
      alt: "(v = Obj [] \<and> ws q = CHR ''}'' # r) \<or> p_members n lim d [] (ws q) = Inr (v, r) \<or>
       (v = Arr [] \<and> ws q = CHR '']'' # r) \<or> p_items n lim d [] (ws q) = Inr (v, r) \<or>
       (\<exists>st. v = Str st \<and> string_loop [] q = Inr (st, r)) \<or>
       (\<exists>l. lit l v (ws s) = Inr (v, r) \<and> l \<noteq> [] \<and> v \<in> {Null, Bool True, Bool False}) \<or>
       (\<exists>raw. v = Num raw \<and> number (ws s) = Inr (raw, r))"
    have "members_ok lim d []" "items_ok lim d []" by (simp_all add: members_ok_def items_ok_def)
    then have "val_ok lim d v" if "p_members n lim d [] (ws q) = Inr (v, r) \<or> p_items n lim d [] (ws q) = Inr (v, r)"
      using that Suc.IH d by blast
    moreover have "val_ok lim d (Str st)" if "string_loop [] q = Inr (st, r)" for st
      using string_loop_utf8 [OF that] d by simp
    moreover have "val_ok lim d (Num raw)" if "number (ws s) = Inr (raw, r)" for raw
      using number_self [OF that] d by simp
    moreover have "val_ok lim d (Obj [])" "val_ok lim d (Arr [])" "v \<in> {Null, Bool True, Bool False} \<Longrightarrow> val_ok lim d v"
      using d by auto
    ultimately show ?thesis using alt by blast
  qed
  moreover have "val_ok lim d v" if v: "p_members (Suc n) lim d ms s = Inr (v, r)"
    and ok: "d \<le> max_depth lim" "members_ok lim d ms" for lim d ms s v r
    using v
  proof (rule p_members_Inr)
    fix s1 key s2 s3 w s4 c s5
    assume *: "string_loop [] s1 = Inr (key, s2)" "p_value n lim (d + 1) s3 = Inr (w, s4)"
      "key \<notin> fst ` set ms" "length (ms @ [(key, w)]) \<le> max_members lim"
      "p_members n lim d (ms @ [(key, w)]) s5 = Inr (v, r) \<or> v = Obj (ms @ [(key, w)]) \<and> r = s5"
    have "utf8_ok key" using string_loop_utf8 [OF *(1)] by simp
    moreover have "val_ok lim (d + 1) w" using Suc.IH *(2) by blast
    ultimately have "members_ok lim d (ms @ [(key, w)])"
      using ok(2) *(3,4) by (simp add: members_ok_def list_all_append)
    moreover then have "val_ok lim d (Obj (ms @ [(key, w)]))" using ok(1) by (simp add: members_ok_def)
    ultimately show ?thesis using *(5) Suc.IH ok(1) by blast
  qed
  moreover have "val_ok lim d v" if v: "p_items (Suc n) lim d xs s = Inr (v, r)"
    and ok: "d \<le> max_depth lim" "items_ok lim d xs" for lim d xs s v r
    using v
  proof (rule p_items_Inr)
    fix w s1 c s2
    assume *: "p_value n lim (d + 1) s = Inr (w, s1)" "length (xs @ [w]) \<le> max_array lim"
      "p_items n lim d (xs @ [w]) s2 = Inr (v, r) \<or> v = Arr (xs @ [w]) \<and> r = s2"
    have "val_ok lim (d + 1) w" using Suc.IH *(1) by blast
    then have "items_ok lim d (xs @ [w])" using ok(2) *(2) by (simp add: items_ok_def list_all_append)
    moreover then have "val_ok lim d (Arr (xs @ [w]))" using ok(1) by (simp add: items_ok_def)
    ultimately show ?thesis using *(3) Suc.IH ok(1) by blast
  qed
  ultimately show ?case by blast
qed (simp add: p_value.simps p_members.simps p_items.simps)

text \<open>
  C36. Whatever \<open>parse\<close> accepts is within the limits: nested at most \<open>max_depth\<close> deep,
  every array and object within its bound, no object with two members of the same name, every
  string well-formed UTF-8 and every number a complete lexeme.
\<close>

theorem parse_admits:
  assumes "parse s lim = Inr v"
  shows "val_ok lim 0 v"
proof -
  obtain r where "p_value (parse_fuel s) lim 0 s = Inr (v, r)"
    using assms by (auto simp: parse_def split: if_split_asm)
  then show ?thesis using parsed_ok [of "parse_fuel s"] by blast
qed

section \<open>Parsing a canonical document\<close>

text \<open>The value with the members of every object in canonical order.\<close>

function (sequential) canon :: "Value \<Rightarrow> Value" where
  "canon (Arr items) = Arr (map canon items)"
| "canon (Obj ms) = Obj (map (\<lambda>(k, v). (k, canon v)) (sort_by member_le ms))"
| "canon v = v"
  by pat_completeness auto
termination canon
  by (relation "measure size") (auto simp: size_list_estimation size_member_less less_Suc_eq_le
        intro: size_list_estimation')

lemma number_head:
  assumes "number s = Inr (raw, t)"
  shows "\<exists>c r. raw = c # r \<and> (c = CHR ''-'' \<or> is_digit c)"
proof -
  obtain a s1 where sg: "num_sign s = (a, s1)" by (cases "num_sign s")
  with assms obtain b s2 u where "num_int s1 = Inr (b, s2)" "raw = a @ b @ u" by (auto simp: number_def)
  moreover then obtain k b' where "b = k # b'" "is_digit k" using int_head by blast
  ultimately show ?thesis using sg by (auto simp: num_sign_def split: list.splits if_split_asm)
qed

text \<open>The first byte of a canonical document is one of the arms, and no blank.\<close>

definition starts :: "char \<Rightarrow> bool" where
  "starts c \<longleftrightarrow> c \<in> {CHR ''n'', CHR ''t'', CHR ''f'', CHR ''-'', CHR 0x22, CHR ''['', CHR ''{''} \<or> is_digit c"

lemma jcs_starts: "val_ok lim d v \<Longrightarrow> \<exists>c r. jcs v = c # r \<and> starts c"
proof (cases v)
  case (Num raw)
  moreover assume "val_ok lim d v"
  ultimately have "number raw = Inr (raw, [])" by simp
  from number_head [OF this] show ?thesis using Num by (auto simp: starts_def)
next
  case (Bool b)
  then show ?thesis by (cases b) (simp_all add: starts_def)
qed (simp_all add: starts_def quote_def)

lemma starts_not: "starts c \<Longrightarrow> \<not> is_ws c \<and> c \<noteq> CHR '']'' \<and> c \<noteq> CHR ''}''"
  by (auto simp: starts_def is_ws_def is_digit_def)

lemma ws_Cons [simp]: "\<not> is_ws c \<Longrightarrow> ws (c # r) = c # r"
  by (simp add: ws_def)

text \<open>A quoted string is read back.\<close>

lemma hex_val_digit [simp]: "k < 16 \<Longrightarrow> hex_val (hex_digit k) = Some k"
  by (auto simp: hex_val_def hex_digit_def Let_def)

lemma hex_val_0 [simp]: "hex_val (CHR ''0'') = Some 0"
  by (simp add: hex_val_def)

lemma hex4_control: "n < 32 \<Longrightarrow> hex4 (CHR ''0'' # CHR ''0'' # hex_digit (n div 16) # hex_digit (n mod 16) # r) = Inr (n, r)"
  by (simp add: hex4_def hex1_def)

lemma utf8_encode_ascii: "(of_char c :: nat) < 0x80 \<Longrightarrow> utf8_encode (of_char c) = [c]"
  by (simp add: utf8_encode_def)

lemma char_eqI: "(of_char c :: nat) = of_char k \<Longrightarrow> c = k"
  by simp

lemma ascii_eqs:
  "(of_char c :: nat) = 34 \<Longrightarrow> c = CHR 0x22" "(of_char c :: nat) = 92 \<Longrightarrow> c = CHR 0x5C"
  "(of_char c :: nat) = 8 \<Longrightarrow> c = CHR 0x08" "(of_char c :: nat) = 9 \<Longrightarrow> c = CHR 0x09"
  "(of_char c :: nat) = 10 \<Longrightarrow> c = CHR 0x0A" "(of_char c :: nat) = 12 \<Longrightarrow> c = CHR 0x0C"
  "(of_char c :: nat) = 13 \<Longrightarrow> c = CHR 0x0D"
  by (rule char_eqI, simp)+

text \<open>One escaped ASCII character is one round of the loop.\<close>

lemma escape_char_ascii:
  assumes "(of_char c :: nat) < 0x80"
  shows "string_loop out (escape_char c @ r) = string_loop (out @ [c]) r"
proof -
  have bs: "string_loop out (CHR 0x5C # q) = sbind (escape q) (\<lambda>(x, t). string_loop (out @ x) t)" for q
    by (subst string_loop.simps) (simp add: string_chunk_def)
  consider "(of_char c :: nat) \<in> {34, 92, 8, 9, 10, 12, 13}"
    | "(of_char c :: nat) < 32" "(of_char c :: nat) \<notin> {8, 9, 10, 12, 13}"
    | "32 \<le> (of_char c :: nat)" "(of_char c :: nat) \<notin> {34, 92}" by force
  then show ?thesis
  proof cases
    case 1
    then show ?thesis using ascii_eqs [of c] by (auto simp: escape_char_def Let_def bs escape_def)
  next
    case 2
    then have "escape_char c = CHR 0x5C # ''u00'' @ [hex_digit (of_char c div 16), hex_digit (of_char c mod 16)]"
      by (auto simp: escape_char_def Let_def)
    then show ?thesis using 2(1) assms
      by (simp add: bs escape_def unicode_escape_def hex4_control utf8_encode_ascii)
  next
    case 3
    then have c: "c \<noteq> CHR 0x22" "c \<noteq> CHR 0x5C" by auto
    have "escape_char c = [c]" using 3 by (auto simp: escape_char_def Let_def)
    moreover have "string_chunk (c # r) = Inr ([c], r)"
      using 3 c assms by (simp add: string_chunk_def Let_def utf8_len_def utf8_encode_ascii)
    ultimately show ?thesis using c by (subst string_loop.simps) simp
  qed
qed

text \<open>One multi-byte sequence is one round of the loop.\<close>

lemma escape_high: "list_all (\<lambda>c. 0x80 \<le> (of_char c :: nat)) s \<Longrightarrow> escape_into s = s"
  by (induction s) (auto simp: escape_into_def escape_char_def Let_def)

lemma chunk_high:
  assumes "utf8_first (bytes ch) = length ch" and "ch = c # ch'" and "0x80 \<le> (of_char c :: nat)"
  shows "escape_into ch = ch" "string_chunk (ch @ r) = Inr (ch, r)"
proof -
  have c0: "byte (bytes ch) 0 = of_char c" using assms(2) by (simp add: byte_def)
  have nz: "utf8_first (bytes ch) \<noteq> 0" using assms(1,2) by simp
  have "list_all (\<lambda>b. 0x80 \<le> b) (take (utf8_first (bytes ch)) (bytes ch))"
    using nz assms(3) c0 by (intro utf8_first_high) simp_all
  then show "escape_into ch = ch" using assms(1)
    by (intro escape_high) (simp add: list_all_length bytes_def)
  have len: "utf8_len (of_char c) = length ch" using utf8_first_len [OF nz] c0 assms(1) by simp
  have "length ch \<noteq> 1"
  proof
    assume "length ch = 1"
    then have "utf8_first (bytes ch) = 1" using assms(1) by simp
    then show False using utf8_first_cases [OF nz] c0 assms(3) by (auto elim: utf8_first_cases [OF nz])
  qed
  moreover have "utf8_ok ch" using utf8_ok_chunk [OF assms(1), of "[]"] assms(2) by simp
  moreover have "c \<noteq> CHR 0x5C" using assms(3) by auto
  ultimately show "string_chunk (ch @ r) = Inr (ch, r)"
    using assms(2,3) len by (simp add: string_chunk_def Let_def split: if_split)
qed

lemma string_loop_escape:
  "utf8_ok s \<Longrightarrow> string_loop out (escape_into s @ CHR 0x22 # r) = Inr (out @ s, r)"
proof (induction s arbitrary: out rule: utf8_induct)
  case Nil
  then show ?case by (simp add: escape_into_def string_loop.simps)
next
  case (chunk ch s)
  then obtain c ch' where ch: "ch = c # ch'" by (cases ch) auto
  have app: "escape_into (ch @ s) = escape_into ch @ escape_into s" by (simp add: escape_into_def)
  show ?case
  proof (cases "0x80 \<le> (of_char c :: nat)")
    case True
    note h = chunk_high [OF chunk.hyps(1) ch True]
    have "c \<noteq> CHR 0x22" using True by auto
    then show ?thesis using chunk.IH [of "out @ ch"] unfolding app h(1)
      by (subst string_loop.simps) (simp add: ch h(2) [unfolded ch, simplified] split: if_split)
  next
    case False
    then have "utf8_first (bytes ch) = 1" using ch by (subst utf8_first_eqs) (simp_all add: byte_def)
    then have "ch = [c]" using chunk.hyps(1) ch by simp
    then show ?thesis using chunk.IH [of "out @ [c]"] escape_char_ascii [of c out] False
      unfolding app by (simp add: escape_into_def)
  qed
qed

section \<open>The round trip\<close>

definition reads :: "Value \<Rightarrow> bool" where
  "reads v \<longleftrightarrow> (\<forall>lim d q n. val_ok lim d v \<longrightarrow> closes q \<longrightarrow> 2 * length (jcs v @ q) < n \<longrightarrow>
     p_value n lim d (jcs v @ q) = Inr (canon v, q))"

lemma closes_Cons [simp]: "closes (CHR '','' # r)" "closes (CHR ''}'' # r)" "closes (CHR '']'' # r)"
  by (simp_all add: closes_def)

lemma ws_marks [simp]: "\<not> is_ws (CHR '','')" "\<not> is_ws (CHR ''}'')" "\<not> is_ws (CHR '']'')" "\<not> is_ws (CHR '':'')"
  "\<not> is_ws (CHR 0x22)" "\<not> is_ws (CHR ''{'')" "\<not> is_ws (CHR ''['')"
  by (simp_all add: is_ws_def)

lemma intercalate_Cons: "ys \<noteq> [] \<Longrightarrow> intercalate sep (x # ys) = x @ sep @ intercalate sep ys"
  by (cases ys) simp_all

lemma p_items_jcs:
  assumes "xs \<noteq> []" and "list_all reads xs" and "list_all (val_ok lim (d + 1)) xs"
    and "length acc + length xs \<le> max_array lim"
    and "2 * length (intercalate '','' (map jcs xs) @ CHR '']'' # q) + 1 < n"
  shows "p_items n lim d acc (intercalate '','' (map jcs xs) @ CHR '']'' # q) = Inr (Arr (acc @ map canon xs), q)"
  using assms
proof (induction xs arbitrary: acc n)
  case (Cons x xs)
  obtain m where n: "n = Suc m" using Cons.prems(5) by (cases n) simp_all
  show ?case
  proof (cases "xs = []")
    case True
    have "p_value m lim (d + 1) (jcs x @ CHR '']'' # q) = Inr (canon x, CHR '']'' # q)"
      using Cons.prems True n by (simp add: reads_def)
    then show ?thesis using Cons.prems(4) True by (simp add: n p_items.simps)
  next
    case False
    let ?r = "intercalate '','' (map jcs xs) @ CHR '']'' # q"
    have "p_value m lim (d + 1) (jcs x @ CHR '','' # ?r) = Inr (canon x, CHR '','' # ?r)"
      using Cons.prems(2,3,5) False n by (simp add: reads_def intercalate_Cons)
    moreover have "p_items m lim d (acc @ [canon x]) ?r = Inr (Arr ((acc @ [canon x]) @ map canon xs), q)"
      using Cons.prems False n by (intro Cons.IH) (simp_all add: intercalate_Cons)
    ultimately show ?thesis using Cons.prems(4) False
      by (simp add: n p_items.simps intercalate_Cons)
  qed
qed simp

definition member_text :: "string \<times> Value \<Rightarrow> string" where
  "member_text m = quote (fst m) @ '':'' @ jcs (snd m)"

definition canon_member :: "string \<times> Value \<Rightarrow> string \<times> Value" where
  "canon_member m = (fst m, canon (snd m))"

lemma p_member_jcs:
  assumes "utf8_ok (fst m)" and "reads (snd m)" and "val_ok lim (d + 1) (snd m)"
    and "fst m \<notin> fst ` set acc" and "length acc < max_members lim"
    and "closes (c # q)" and "2 * length (member_text m @ c # q) + 1 < Suc k"
  shows "p_members (Suc k) lim d acc (member_text m @ c # q) =
    (if c = CHR '','' then p_members k lim d (acc @ [canon_member m]) q
     else if c = CHR ''}'' then Inr (Obj (acc @ [canon_member m]), q) else Inl PSyntax)"
proof -
  have "p_value k lim (d + 1) (jcs (snd m) @ c # q) = Inr (canon (snd m), c # q)"
    using assms(2,3,6,7) by (simp add: reads_def member_text_def)
  moreover have "\<not> is_ws c" using closes_not [OF assms(6)] by simp
  ultimately show ?thesis using assms(1,4,5)
    by (simp add: p_members.simps member_text_def quote_def string_loop_escape canon_member_def)
qed

lemma p_members_jcs:
  assumes "ms \<noteq> []" and "list_all (\<lambda>m. utf8_ok (fst m) \<and> reads (snd m) \<and> val_ok lim (d + 1) (snd m)) ms"
    and "distinct (map fst acc @ map fst ms)" and "length acc + length ms \<le> max_members lim"
    and "2 * length (intercalate '','' (map member_text ms) @ CHR ''}'' # q) + 1 < n"
  shows "p_members n lim d acc (intercalate '','' (map member_text ms) @ CHR ''}'' # q) =
     Inr (Obj (acc @ map canon_member ms), q)"
  using assms
proof (induction ms arbitrary: acc n)
  case (Cons m ms)
  obtain k where n: "n = Suc k" using Cons.prems(5) by (cases n) simp_all
  have fresh: "fst m \<notin> fst ` set acc" using Cons.prems(3) by auto
  show ?case
  proof (cases "ms = []")
    case True
    then show ?thesis
      using p_member_jcs [of m lim d acc "CHR ''}''" q k] Cons.prems fresh n by simp
  next
    case False
    let ?r = "intercalate '','' (map member_text ms) @ CHR ''}'' # q"
    have "p_members (Suc k) lim d acc (member_text m @ CHR '','' # ?r) =
        p_members k lim d (acc @ [canon_member m]) ?r"
      using p_member_jcs [of m lim d acc "CHR '',''" ?r k] Cons.prems fresh n False
      by (simp add: intercalate_Cons)
    moreover have "p_members k lim d (acc @ [canon_member m]) ?r =
        Inr (Obj ((acc @ [canon_member m]) @ map canon_member ms), q)"
      using Cons.prems False n
      by (intro Cons.IH) (simp_all add: intercalate_Cons canon_member_def)
    ultimately show ?thesis using False by (simp add: n intercalate_Cons)
  qed
qed simp

lemma reads_jcs: "reads v"
proof (induction v rule: jcs.induct)
  case (6 items)
  show ?case unfolding reads_def
  proof (intro allI impI)
    fix lim d q n assume v: "val_ok lim d (Arr items)" and q: "closes q"
      and n: "2 * length (jcs (Arr items) @ q) < n"
    obtain k where k: "n = Suc k" using n by (cases n) simp_all
    have all: "list_all reads items" using 6 by (simp add: list_all_iff)
    show "p_value n lim d (jcs (Arr items) @ q) = Inr (canon (Arr items), q)"
    proof (cases "items = []")
      case True
      then show ?thesis using v by (simp add: k p_value.simps arm_def)
    next
      case False
      then obtain x xs where items: "items = x # xs" by (cases items) auto
      then obtain c r where c: "jcs x = c # r" "starts c" using v jcs_starts [of lim "d + 1" x] by auto
      let ?s = "intercalate '','' (map jcs items) @ CHR '']'' # q"
      obtain r' where s: "?s = c # r'"
        using items c(1) by (cases xs) simp_all
      have p: "p_items k lim d [] ?s = Inr (Arr ([] @ map canon items), q)"
        using v n k all False by (intro p_items_jcs) simp_all
      have "p_value n lim d (CHR ''['' # ?s) = Inr (Arr (map canon items), q)"
        using v p starts_not [OF c(2)] unfolding s by (simp add: k p_value.simps arm_def)
      then show ?thesis by simp
    qed
  qed
next
  case (7 ms)
  show ?case unfolding reads_def
  proof (intro allI impI)
    fix lim d q n assume v: "val_ok lim d (Obj ms)" and q: "closes q"
      and n: "2 * length (jcs (Obj ms) @ q) < n"
    obtain k where k: "n = Suc k" using n by (cases n) simp_all
    let ?ms = "sort_by member_le ms"
    have jcs: "jcs (Obj ms) = CHR ''{'' # intercalate '','' (map member_text ?ms) @ ''}''"
      by (simp add: member_text_def [abs_def] case_prod_unfold)
    have canon: "canon (Obj ms) = Obj (map canon_member ?ms)"
      by (simp add: canon_member_def [abs_def] case_prod_unfold)
    show "p_value n lim d (jcs (Obj ms) @ q) = Inr (canon (Obj ms), q)"
    proof (cases "ms = []")
      case True
      then show ?thesis using v by (simp add: k p_value.simps arm_def sort_by_def)
    next
      case False
      have ne: "?ms \<noteq> []" using False by (metis length_sort_by length_0_conv)
      let ?s = "intercalate '','' (map member_text ?ms) @ CHR ''}'' # q"
      have all: "list_all (\<lambda>m. utf8_ok (fst m) \<and> reads (snd m) \<and> val_ok lim (d + 1) (snd m)) ?ms"
        using v 7 by (fastforce simp: list_all_iff)
      have "mset (map fst ?ms) = mset (map fst ms)" by (simp add: mset_map)
      then have dist: "distinct (map fst ?ms)" using v by (metis mset_eq_imp_distinct_iff val_ok.simps(4))
      have p: "p_members k lim d [] ?s = Inr (Obj ([] @ map canon_member ?ms), q)"
        using v n k dist unfolding jcs by (intro p_members_jcs [OF ne all]) simp_all
      obtain r' where s: "?s = CHR 0x22 # r'"
        using ne by (cases ?ms; cases "tl ?ms") (auto simp: member_text_def quote_def)
      have "p_value n lim d (CHR ''{'' # ?s) = Inr (Obj (map canon_member ?ms), q)"
        using v p unfolding s by (simp add: k p_value.simps arm_def)
      then show ?thesis unfolding jcs canon by simp
    qed
  qed
next
  case (4 raw)
  show ?case unfolding reads_def
  proof (intro allI impI)
    fix lim d q n assume v: "val_ok lim d (Num raw)" and q: "closes q"
      and n: "2 * length (jcs (Num raw) @ q) < n"
    obtain k where k: "n = Suc k" using n by (cases n) simp_all
    from v have raw: "number raw = Inr (raw, [])" by simp
    then obtain c r where c: "raw = c # r" "c = CHR ''-'' \<or> is_digit c" using number_head by blast
    then have "arm c = ANumber" "\<not> is_ws c" by (auto simp: arm_def is_digit_def is_ws_def)
    then show "p_value n lim d (jcs (Num raw) @ q) = Inr (canon (Num raw), q)"
      using v number_again [OF raw q] by (simp add: k p_value.simps c(1))
  qed
next
  case (5 s)
  show ?case unfolding reads_def
  proof (intro allI impI)
    fix lim d q n assume v: "val_ok lim d (Str s)" and n: "2 * length (jcs (Str s) @ q) < n"
    then show "p_value n lim d (jcs (Str s) @ q) = Inr (canon (Str s), q)"
      by (cases n) (simp_all add: p_value.simps arm_def quote_def string_loop_escape)
  qed
qed (auto simp: reads_def p_value.simps arm_def lit_def is_ws_def gr0_conv_Suc elim!: less_natE)

text \<open>A canonical document is well-formed UTF-8 and has no byte order mark.\<close>

lemma utf8_single: "(of_char c :: nat) < 0x80 \<Longrightarrow> utf8_ok (c # s) = utf8_ok s"
  using utf8_ok_chunk [of "[c]" s] by (simp add: utf8_first_eqs byte_def)

lemma escape_char_ascii_bytes:
  assumes "(of_char c :: nat) < 0x80"
  shows "utf8_ok (escape_char c)"
proof -
  have "(of_char (hex_digit k) :: nat) < 0x80" if "k < 16" for k
    using that by (simp add: hex_digit_def)
  then show ?thesis using assms by (auto simp: escape_char_def Let_def utf8_single)
qed

lemma utf8_escape: "utf8_ok s \<Longrightarrow> utf8_ok (escape_into s)"
proof (induction s rule: utf8_induct)
  case Nil
  then show ?case by (simp add: escape_into_def)
next
  case (chunk ch s)
  then obtain c ch' where ch: "ch = c # ch'" by (cases ch) auto
  have app: "escape_into (ch @ s) = escape_into ch @ escape_into s" by (simp add: escape_into_def)
  have "utf8_ok (escape_into ch)"
  proof (cases "0x80 \<le> (of_char c :: nat)")
    case True
    then show ?thesis
      using chunk_high(1) [OF chunk.hyps(1) ch True] utf8_ok_chunk [OF chunk.hyps(1,2), of "[]"] by simp
  next
    case False
    then have "utf8_first (bytes ch) = 1" using ch by (subst utf8_first_eqs) (simp_all add: byte_def)
    then have "ch = [c]" using chunk.hyps(1) ch by simp
    then show ?thesis using escape_char_ascii_bytes [of c] False by (simp add: escape_into_def)
  qed
  then show ?case unfolding app using chunk.IH by (rule utf8_ok_append)
qed

lemma utf8_quote: "utf8_ok s \<Longrightarrow> utf8_ok (quote s)"
  by (simp add: quote_def utf8_single utf8_ok_append utf8_escape)

lemma utf8_intercalate: "list_all utf8_ok xs \<Longrightarrow> utf8_ok (intercalate '','' xs)"
  by (induction "'',''" xs rule: intercalate.induct) (simp_all add: utf8_single utf8_ok_append)

lemma digits_ascii: "list_all is_digit s \<Longrightarrow> utf8_ok s"
  by (rule utf8_ok_ascii) (auto simp: list_all_iff is_digit_def)

lemma num_digits_ascii: "num_digits s = Inr (a, r) \<Longrightarrow> utf8_ok a"
  by (auto simp: num_digits_def list_all_iff intro!: digits_ascii dest: set_takeWhileD split: if_split_asm)

lemma number_ascii:
  assumes "number s = Inr (raw, t)"
  shows "utf8_ok raw"
proof -
  obtain a s1 where sg: "num_sign s = (a, s1)" by (cases "num_sign s")
  with assms obtain b s2 c s3 e s4 where parts: "num_int s1 = Inr (b, s2)" "num_frac s2 = Inr (c, s3)"
    "num_exp s3 = Inr (e, s4)" and raw: "raw = a @ b @ c @ e" by (auto simp: number_def)
  have "utf8_ok a" using sg by (auto simp: num_sign_def utf8_single split: list.splits if_split_asm)
  moreover have "utf8_ok b" using parts(1) num_digits_ascii
    by (auto simp: num_int_def utf8_single split: list.splits if_split_asm)
  moreover have "utf8_ok c" using parts(2) num_digits_ascii
    by (auto simp: num_frac_def utf8_single split: list.splits if_split_asm)
  moreover have "utf8_ok e" using parts(3) num_digits_ascii
    by (auto simp: num_exp_def utf8_single split: list.splits if_split_asm)
  ultimately show ?thesis unfolding raw by (intro utf8_ok_append)
qed

lemma utf8_jcs: "val_ok lim d v \<Longrightarrow> utf8_ok (jcs v)"
proof (induction v arbitrary: d rule: jcs.induct)
  case (6 items)
  then have "list_all utf8_ok (map jcs items)" by (auto simp: list_all_iff)
  then show ?case by (simp add: utf8_single utf8_ok_append utf8_intercalate)
next
  case (7 ms)
  have "utf8_ok (quote k @ CHR '':'' # jcs v)" if "(k, v) \<in> set ms" for k v
    using that 7 by (fastforce simp: list_all_iff utf8_single intro!: utf8_ok_append utf8_quote)
  then have "list_all utf8_ok (map (\<lambda>(k, v). quote k @ '':'' @ jcs v) (sort_by member_le ms))"
    by (auto simp: list_all_iff)
  then show ?case by (simp add: utf8_single utf8_ok_append utf8_intercalate)
qed (auto simp: utf8_single utf8_quote number_ascii)

lemma parse_canonical:
  assumes "val_ok lim 0 v" and "length (jcs v) \<le> max_bytes lim"
  shows "parse (jcs v) lim = Inr (canon v)"
proof -
  obtain c r where c: "jcs v = c # r" "starts c" using jcs_starts [OF assms(1)] by blast
  have "closes []" by (simp add: closes_def)
  moreover have "2 * length (jcs v @ []) < parse_fuel (jcs v)" by (simp add: parse_fuel_def)
  ultimately have "p_value (parse_fuel (jcs v)) lim 0 (jcs v @ []) = Inr (canon v, [])"
    using reads_jcs [of v] assms(1) unfolding reads_def by blast
  moreover have "(of_char c :: nat) \<noteq> 0xEF" using c(2) by (auto simp: starts_def is_digit_def)
  ultimately show ?thesis
    using assms utf8_jcs [OF assms(1)] c(1) by (simp add: parse_def ws_def numeral_3_eq_3)
qed

text \<open>
  C35. Round trip: the canonical form of an admissible value is read back by the strict
  parser as that value with its members in canonical order, when it fits the byte bound.
\<close>

theorem parse_jcs:
  assumes "val_ok lim 0 v" and "length (jcs v) \<le> max_bytes lim"
  shows "parse (jcs v) lim = Inr (canon v)"
  using assms by (rule parse_canonical)

lemma small_object: "val_ok request_limits 0 (Obj [(''b'', Bool True), (''a'', Arr [Null])])"
  "canon (Obj [(''b'', Bool True), (''a'', Arr [Null])]) = Obj [(''a'', Arr [Null]), (''b'', Bool True)]"
  "jcs (Obj [(''b'', Bool True), (''a'', Arr [Null])]) = ''{'' @ quote ''a'' @ '':[null],'' @ quote ''b'' @ '':true}''"
proof -
  have sorted: "sort_by member_le [(''b'', x), (''a'', y)] = [(''a'', y), (''b'', x)]" for x y :: Value
    by (simp add: sort_by_def member_le_def utf16_le_def encode_utf16_def utf16_unit_def)
  show "val_ok request_limits 0 (Obj [(''b'', Bool True), (''a'', Arr [Null])])"
    by (simp add: request_limits_def utf8_ok_ascii)
  show "canon (Obj [(''b'', Bool True), (''a'', Arr [Null])]) = Obj [(''a'', Arr [Null]), (''b'', Bool True)]"
    by (simp add: sorted)
  show "jcs (Obj [(''b'', Bool True), (''a'', Arr [Null])]) = ''{'' @ quote ''a'' @ '':[null],'' @ quote ''b'' @ '':true}''"
    by (simp add: sorted)
qed

lemma small_object_length: "length (jcs (Obj [(''b'', Bool True), (''a'', Arr [Null])])) \<le> max_bytes request_limits"
  unfolding small_object by (simp add: quote_def escape_into_def escape_char_def request_limits_def)

theorem parse_jcs_witness:
  "parse (jcs (Obj [(''b'', Bool True), (''a'', Arr [Null])])) request_limits =
   Inr (Obj [(''a'', Arr [Null]), (''b'', Bool True)])"
  using parse_jcs [OF small_object(1) small_object_length] unfolding small_object(2) .

theorem parse_admits_witness: "val_ok request_limits 0 (Obj [(''a'', Arr [Null]), (''b'', Bool True)])"
  using parse_admits [OF parse_canonical [OF small_object(1) small_object_length]] unfolding small_object(2) .

end
