(* ===== verification/Store.thy ===== *)
theory Store
  imports Aggregation SchemaConfig JsonParse
begin

text \<open>
  The store (\<open>store.rs\<close>): the tables of the schema, the statements the code runs on them and the
  constraints under which they fail. A table with a primary key is an association list in
  insertion order; an upsert replaces in place. A body is the bytes that the code stores, the
  canonical JSON of a record. Every statement error is the fault \<open>AUDIT_UNAVAILABLE\<close>; a failed
  transaction gives no new store. Counters are \<open>nat\<close>, the casts to \<open>i64\<close> and back being the identity
  on \<open>u64\<close>; comparisons inside the engine are those of counters below \<open>2^63\<close>.
\<close>

section \<open>Tables\<close>

record AuditRow =
  au_seq :: nat
  au_hash :: string
  au_prev :: string
  au_epoch :: nat
  au_kind :: string
  au_body :: string
  au_envelope :: string

record PolicyRow =
  pw_generation :: nat
  pw_body :: string

record RunRow =
  rr_revision :: nat
  rr_state :: string
  rr_source :: string
  rr_epoch :: nat
  rr_body :: string
  rr_changed_seq :: nat

record ObservationRow =
  or_run :: string
  or_source :: string
  or_epoch :: nat
  or_seq :: nat
  or_digest :: string
  or_envelope :: string

record CheckRow =
  cr_run :: string
  cr_state :: string
  cr_revision :: nat
  cr_deadline_ms :: nat
  cr_body :: string
  cr_changed_seq :: nat

record ReviewRow =
  vr_run :: string
  vr_basis :: "string option"
  vr_state :: string
  vr_revision :: nat
  vr_due_ms :: nat
  vr_lease_ms :: "nat option"
  vr_body :: string
  vr_changed_seq :: nat

record AlertRow =
  lr_run :: string
  lr_episode_key :: string
  lr_state :: string
  lr_body :: string
  lr_changed_seq :: nat

record EffectRow =
  fw_digest :: string
  fw_run :: string
  fw_action :: string
  fw_predecessor :: "string option"
  fw_state :: string
  fw_envelope :: string

record EvaluationRow =
  xr_id :: string
  xr_input_digest :: string
  xr_output :: string
  xr_changed_seq :: nat

record ObjectRow =
  jr_kind :: string
  jr_bytes :: nat
  jr_state :: string
  jr_expires_utc :: string

record OutboxRow =
  qb_kind :: string
  qb_subject :: string
  qb_due_ms :: nat
  qb_attempts :: nat
  qb_body :: string

record SlotRow =
  sl_deadline_ms :: nat
  sl_state :: string
  sl_result :: "string option"

record Store =
  st_meta :: "(string \<times> string) list"
  st_audit :: "AuditRow list"
  st_policies :: "(string \<times> PolicyRow) list"
  st_runs :: "(string \<times> RunRow) list"
  st_observations :: "ObservationRow list"
  st_actions :: "((string \<times> string) \<times> (string \<times> bool)) list"
  st_checks :: "(string \<times> CheckRow) list"
  st_reviews :: "(string \<times> ReviewRow) list"
  st_alerts :: "(string \<times> AlertRow) list"
  st_effects :: "EffectRow list"
  st_idempotency :: "((string \<times> string) \<times> (string \<times> string \<times> string)) list"
  st_evaluations :: "EvaluationRow list"
  st_objects :: "(string \<times> ObjectRow) list"
  st_outbox :: "(nat \<times> OutboxRow) list"
  st_history :: "((string \<times> string \<times> nat) \<times> string) list"
  st_slots :: "((string \<times> string) \<times> SlotRow) list"
  st_windows :: "((string \<times> nat) \<times> string option) list"

text \<open>\<open>open_memory\<close>: the tables, empty.\<close>

definition empty_store :: Store where
  "empty_store = \<lparr>st_meta = [], st_audit = [], st_policies = [], st_runs = [], st_observations = [],
     st_actions = [], st_checks = [], st_reviews = [], st_alerts = [], st_effects = [],
     st_idempotency = [], st_evaluations = [], st_objects = [], st_outbox = [], st_history = [],
     st_slots = [], st_windows = []\<rparr>"

text \<open>\<open>ferr\<close>.\<close>

definition ferr :: "Fault" where
  "ferr = new_fault AuditUnavailable ''sqlite''"

definition by_id :: "string \<times> 'a \<Rightarrow> string \<times> 'a \<Rightarrow> bool" where
  "by_id a b \<longleftrightarrow> str_le (fst a) (fst b)"

text \<open>The ids of the rows that satisfy a condition, in ascending order.\<close>

definition select_ids :: "('a \<Rightarrow> bool) \<Rightarrow> (string \<times> 'a) list \<Rightarrow> string list" where
  "select_ids P table = map fst (sort_by by_id (filter (\<lambda>r. P (snd r)) table))"

section \<open>Meta, head and commitments\<close>

definition meta_get :: "Store \<Rightarrow> string \<Rightarrow> string option" where
  "meta_get st k = map_of (st_meta st) k"

definition tx_meta_set :: "string \<Rightarrow> string \<Rightarrow> Store \<Rightarrow> Store" where
  "tx_meta_set k v st = st\<lparr>st_meta := put_assoc k v (st_meta st)\<rparr>"

text \<open>\<open>SELECT seq,hash FROM audit ORDER BY seq DESC LIMIT 1\<close>.\<close>

fun latest_row :: "AuditRow list \<Rightarrow> AuditRow option" where
  "latest_row [] = None"
| "latest_row (r # rs) = (case latest_row rs of
     None \<Rightarrow> Some r
   | Some q \<Rightarrow> if au_seq q < au_seq r then Some r else Some q)"

definition tx_head :: "Store \<Rightarrow> Head" where
  "tx_head st = (case latest_row (st_audit st) of
     None \<Rightarrow> empty_head
   | Some r \<Rightarrow> \<lparr>hd_seq = au_seq r, hd_hash = au_hash r\<rparr>)"

text \<open>Each of the six queries finds exactly one row when the digest is there: the columns are unique.\<close>

definition known_commitment :: "Store \<Rightarrow> string \<Rightarrow> bool" where
  "known_commitment st digest \<longleftrightarrow>
     length (filter (\<lambda>r. au_hash r = digest) (st_audit st)) = 1 \<or>
     length (filter (\<lambda>r. fst r = digest) (st_policies st)) = 1 \<or>
     length (filter (\<lambda>r. or_digest r = digest) (st_observations st)) = 1 \<or>
     length (filter (\<lambda>r. fw_digest r = digest) (st_effects st)) = 1 \<or>
     length (filter (\<lambda>r. xr_input_digest r = digest) (st_evaluations st)) = 1 \<or>
     length (filter (\<lambda>r. fst r = digest) (st_objects st)) = 1"

definition audit_seqs :: "Store \<Rightarrow> nat set" where
  "audit_seqs st = au_seq ` set (st_audit st)"

definition tx_append_audit :: "AuditRow \<Rightarrow> Store \<Rightarrow> Store R" where
  "tx_append_audit row st =
    (if au_seq row \<in> audit_seqs st \<or> au_hash row \<in> au_hash ` set (st_audit st) then Inl ferr
     else Inr (st\<lparr>st_audit := st_audit st @ [row]\<rparr>))"

section \<open>Entities\<close>

definition audit_unavailable :: "string \<Rightarrow> Fault" where
  "audit_unavailable msg = new_fault AuditUnavailable msg"

text \<open>A stored body: parsed with the limits of replies, then validated.\<close>

definition read_body :: "string \<Rightarrow> (Value \<Rightarrow> 'a R) \<Rightarrow> string \<Rightarrow> 'a R" where
  "read_body msg p body = (case parse body reply_limits of
     Inl _ \<Rightarrow> Inl (audit_unavailable msg)
   | Inr v \<Rightarrow> p v)"

text \<open>The same where the validator's fault is replaced too.\<close>

definition admit_body :: "string \<Rightarrow> (Value \<Rightarrow> 'a R) \<Rightarrow> string \<Rightarrow> 'a R" where
  "admit_body msg p body = (case read_body msg p body of
     Inl _ \<Rightarrow> Inl (audit_unavailable msg)
   | Inr x \<Rightarrow> Inr x)"

definition review_active_states :: "string list" where
  "review_active_states = [''OPEN'', ''CLAIMED'', ''DEFERRED'', ''ACCEPTED'']"

definition alert_active_states :: "string list" where
  "alert_active_states = [''OPEN'', ''ACKNOWLEDGED'']"

text \<open>The unique partial indexes \<open>review_active_basis\<close> and \<open>alert_active_episode\<close>.\<close>

definition review_index_ok :: "(string \<times> ReviewRow) list \<Rightarrow> bool" where
  "review_index_ok rows \<longleftrightarrow> distinct (map (\<lambda>r. (vr_run (snd r), vr_basis (snd r)))
     (filter (\<lambda>r. vr_basis (snd r) \<noteq> None \<and> vr_state (snd r) \<in> set review_active_states) rows))"

definition alert_index_ok :: "(string \<times> AlertRow) list \<Rightarrow> bool" where
  "alert_index_ok rows \<longleftrightarrow> distinct (map (\<lambda>r. lr_episode_key (snd r))
     (filter (\<lambda>r. lr_state (snd r) \<in> set alert_active_states) rows))"

text \<open>The row of a history entry and the foreign keys of the entity tables.\<close>

definition put_history :: "string \<Rightarrow> string \<Rightarrow> nat \<Rightarrow> string \<Rightarrow> Store \<Rightarrow> Store R" where
  "put_history entity eid seq body st =
    (if (entity, eid, seq) \<in> fst ` set (st_history st) \<or> seq \<notin> audit_seqs st then Inl ferr
     else Inr (st\<lparr>st_history := st_history st @ [((entity, eid, seq), body)]\<rparr>))"

definition put_run_row :: "string \<Rightarrow> string \<Rightarrow> nat \<Rightarrow> Store \<Rightarrow> Store R" where
  "put_run_row eid body seq st =
     sbind (admit_body ''bad run body'' run_of body) (\<lambda>r.
       if seq \<notin> audit_seqs st then Inl ferr
       else Inr (st\<lparr>st_runs := put_assoc eid
         \<lparr>rr_revision = rn_revision r, rr_state = run_state_as_str (rn_state r), rr_source = rn_source r,
          rr_epoch = rn_source_epoch r, rr_body = body, rr_changed_seq = seq\<rparr> (st_runs st)\<rparr>))"

definition put_check_row :: "Crypto \<Rightarrow> string \<Rightarrow> string \<Rightarrow> nat \<Rightarrow> Store \<Rightarrow> Store R" where
  "put_check_row cr eid body seq st =
     sbind (admit_body ''bad check body'' (check_of cr) body) (\<lambda>c.
       if seq \<notin> audit_seqs st \<or> ck_run c \<notin> fst ` set (st_runs st) then Inl ferr
       else Inr (st\<lparr>st_checks := put_assoc eid
         \<lparr>cr_run = ck_run c, cr_state = check_state_as_str (ck_state c), cr_revision = ck_revision c,
          cr_deadline_ms = ck_deadline_ms c, cr_body = body, cr_changed_seq = seq\<rparr> (st_checks st)\<rparr>))"

definition put_review_row :: "Crypto \<Rightarrow> string \<Rightarrow> string \<Rightarrow> nat \<Rightarrow> Store \<Rightarrow> Store R" where
  "put_review_row cr eid body seq st =
     sbind (admit_body ''bad review body'' review_of body) (\<lambda>r.
       let rows = put_assoc eid
         \<lparr>vr_run = rv_run r, vr_basis = map_option (basis_digest cr) (rv_basis r),
          vr_state = review_state_as_str (rv_state r), vr_revision = rv_revision r,
          vr_due_ms = rv_due_ms r, vr_lease_ms = rv_lease_until_ms r, vr_body = body,
          vr_changed_seq = seq\<rparr> (st_reviews st)
       in if seq \<notin> audit_seqs st \<or> rv_run r \<notin> fst ` set (st_runs st) \<or> \<not> review_index_ok rows
          then Inl ferr else Inr (st\<lparr>st_reviews := rows\<rparr>))"

definition put_alert_row :: "string \<Rightarrow> string \<Rightarrow> nat \<Rightarrow> Store \<Rightarrow> Store R" where
  "put_alert_row eid body seq st =
     sbind (admit_body ''bad alert body'' alert_of body) (\<lambda>a.
       let rows = put_assoc eid
         \<lparr>lr_run = al_run a, lr_episode_key = episode_key (al_run a) (al_monitor a) (al_baseline a),
          lr_state = alert_state_as_str (al_state a), lr_body = body, lr_changed_seq = seq\<rparr> (st_alerts st)
       in if seq \<notin> audit_seqs st \<or> al_run a \<notin> fst ` set (st_runs st) \<or> \<not> alert_index_ok rows
          then Inl ferr else Inr (st\<lparr>st_alerts := rows\<rparr>))"

definition tx_put_entity :: "Crypto \<Rightarrow> string \<Rightarrow> string \<Rightarrow> string \<Rightarrow> nat \<Rightarrow> string \<Rightarrow> Store \<Rightarrow> Store R" where
  "tx_put_entity cr table eid body changed_seq entity st =
     sbind (if table = ''runs'' then put_run_row eid body changed_seq st
            else if table = ''checks'' then put_check_row cr eid body changed_seq st
            else if table = ''reviews'' then put_review_row cr eid body changed_seq st
            else if table = ''alerts'' then put_alert_row eid body changed_seq st
            else Inl (audit_unavailable ''unknown entity table''))
       (\<lambda>st. put_history entity eid changed_seq body st)"

definition get_entity_body :: "string \<Rightarrow> string \<Rightarrow> Store \<Rightarrow> string option R" where
  "get_entity_body table eid st =
     (if table = ''runs'' then Inr (map_option rr_body (map_of (st_runs st) eid))
      else if table = ''checks'' then Inr (map_option cr_body (map_of (st_checks st) eid))
      else if table = ''reviews'' then Inr (map_option vr_body (map_of (st_reviews st) eid))
      else if table = ''alerts'' then Inr (map_option lr_body (map_of (st_alerts st) eid))
      else Inl (audit_unavailable ''bad table''))"

text \<open>\<open>SELECT body FROM history ... ORDER BY seq DESC LIMIT 1\<close>: the entry of greatest \<open>seq\<close>.\<close>

fun latest_entry :: "((string \<times> string \<times> nat) \<times> string) list \<Rightarrow> (nat \<times> string) option" where
  "latest_entry [] = None"
| "latest_entry (((e, i, s), b) # rs) = (case latest_entry rs of
     None \<Rightarrow> Some (s, b)
   | Some (s', b') \<Rightarrow> if s' < s then Some (s, b) else Some (s', b'))"

definition get_entity_at :: "string \<Rightarrow> string \<Rightarrow> nat option \<Rightarrow> Store \<Rightarrow> string option R" where
  "get_entity_at entity eid through st = (case through of
     None \<Rightarrow> get_entity_body entity eid st
   | Some upper \<Rightarrow> Inr (map_option snd (latest_entry
       (filter (\<lambda>((e, i, s), b). e = entity \<and> i = eid \<and> s \<le> upper) (st_history st)))))"

definition head_exists :: "Head \<Rightarrow> Store \<Rightarrow> bool" where
  "head_exists h st =
    (if hd_seq h = 0 then hd_hash h = zero_hash
     else case find (\<lambda>r. au_seq r = hd_seq h) (st_audit st) of
       None \<Rightarrow> False
     | Some r \<Rightarrow> au_hash r = hd_hash h)"

section \<open>Observations\<close>

definition tx_insert_observation :: "string \<Rightarrow> string \<Rightarrow> nat \<Rightarrow> nat \<Rightarrow> string \<Rightarrow> string \<Rightarrow> Store \<Rightarrow> Store R" where
  "tx_insert_observation run_id source epoch seq digest envelope st =
    (if run_id \<notin> fst ` set (st_runs st) \<or> digest \<in> or_digest ` set (st_observations st) \<or>
        (source, epoch, run_id, seq) \<in> (\<lambda>r. (or_source r, or_epoch r, or_run r, or_seq r)) ` set (st_observations st)
     then Inl ferr
     else Inr (st\<lparr>st_observations := st_observations st @
       [\<lparr>or_run = run_id, or_source = source, or_epoch = epoch, or_seq = seq, or_digest = digest,
         or_envelope = envelope\<rparr>]\<rparr>))"

definition get_observation :: "string \<Rightarrow> Store \<Rightarrow> string option" where
  "get_observation digest st =
     map_option or_envelope (find (\<lambda>r. or_digest r = digest) (st_observations st))"

definition get_observation_by_ref :: "string \<Rightarrow> nat \<Rightarrow> string \<Rightarrow> nat \<Rightarrow> Store \<Rightarrow> (string \<times> string) option" where
  "get_observation_by_ref source epoch run seq st =
     map_option (\<lambda>r. (or_digest r, or_envelope r))
       (find (\<lambda>r. or_source r = source \<and> or_epoch r = epoch \<and> or_run r = run \<and> or_seq r = seq)
         (st_observations st))"

text \<open>\<open>ORDER BY seq DESC LIMIT 1\<close>; among rows of equal \<open>seq\<close> the engine may choose any, here the first.\<close>

fun latest_obs :: "ObservationRow list \<Rightarrow> ObservationRow option" where
  "latest_obs [] = None"
| "latest_obs (r # rs) = (case latest_obs rs of
     None \<Rightarrow> Some r
   | Some q \<Rightarrow> if or_seq q \<le> or_seq r then Some r else Some q)"

definition latest_observation :: "string \<Rightarrow> Store \<Rightarrow> string option" where
  "latest_observation run st =
     map_option or_envelope (latest_obs (filter (\<lambda>r. or_run r = run) (st_observations st)))"

section \<open>Actions and effects\<close>

definition tx_action_get :: "string \<Rightarrow> string \<Rightarrow> Store \<Rightarrow> (string \<times> bool) option" where
  "tx_action_get run action st = map_of (st_actions st) (run, action)"

definition tx_action_put :: "string \<Rightarrow> string \<Rightarrow> string \<Rightarrow> bool \<Rightarrow> Store \<Rightarrow> Store R" where
  "tx_action_put run action intent_d rejected st =
    (if run \<notin> fst ` set (st_runs st) then Inl ferr
     else Inr (st\<lparr>st_actions := put_assoc (run, action) (intent_d, rejected) (st_actions st)\<rparr>))"

text \<open>The last row inserted for the action.\<close>

definition tx_effect_head :: "string \<Rightarrow> string \<Rightarrow> Store \<Rightarrow> (string \<times> string) option" where
  "tx_effect_head run action st =
     map_option (\<lambda>r. (fw_digest r, fw_state r))
       (find (\<lambda>r. fw_run r = run \<and> fw_action r = action) (rev (st_effects st)))"

text \<open>Unique: the digest, the predecessor, and one root for each action.\<close>

definition tx_effect_insert ::
  "string \<Rightarrow> string \<Rightarrow> string \<Rightarrow> string option \<Rightarrow> string \<Rightarrow> string \<Rightarrow> Store \<Rightarrow> Store R" where
  "tx_effect_insert digest run action predecessor state envelope st =
    (if digest \<in> fw_digest ` set (st_effects st) \<or> run \<notin> fst ` set (st_runs st) \<or>
        (predecessor \<noteq> None \<and> predecessor \<in> fw_predecessor ` set (st_effects st)) \<or>
        (predecessor = None \<and> (run, action, None) \<in>
           (\<lambda>r. (fw_run r, fw_action r, fw_predecessor r)) ` set (st_effects st))
     then Inl ferr
     else Inr (st\<lparr>st_effects := st_effects st @
       [\<lparr>fw_digest = digest, fw_run = run, fw_action = action, fw_predecessor = predecessor,
         fw_state = state, fw_envelope = envelope\<rparr>]\<rparr>))"

definition effect_get :: "string \<Rightarrow> Store \<Rightarrow> string option" where
  "effect_get digest st = map_option fw_envelope (find (\<lambda>r. fw_digest r = digest) (st_effects st))"

section \<open>Idempotency, policies, evaluations, objects\<close>

definition tx_idem_get :: "string \<Rightarrow> string \<Rightarrow> Store \<Rightarrow> (string \<times> string \<times> string) option" where
  "tx_idem_get prin request st = map_of (st_idempotency st) (prin, request)"

definition tx_idem_put :: "string \<Rightarrow> string \<Rightarrow> string \<Rightarrow> string \<Rightarrow> string \<Rightarrow> Store \<Rightarrow> Store R" where
  "tx_idem_put prin request mname params_hash reply st =
    (if (prin, request) \<in> fst ` set (st_idempotency st) then Inl ferr
     else Inr (st\<lparr>st_idempotency :=
       st_idempotency st @ [((prin, request), (mname, params_hash, reply))]\<rparr>))"

definition tx_policy_put :: "string \<Rightarrow> nat \<Rightarrow> string \<Rightarrow> Store \<Rightarrow> Store R" where
  "tx_policy_put digest generation body st =
    (if digest \<in> fst ` set (st_policies st) \<or> generation \<in> pw_generation ` snd ` set (st_policies st)
     then Inl ferr
     else Inr (st\<lparr>st_policies := st_policies st @ [(digest, \<lparr>pw_generation = generation, pw_body = body\<rparr>)]\<rparr>))"

definition policy_get :: "string \<Rightarrow> Store \<Rightarrow> string option" where
  "policy_get digest st = map_option pw_body (map_of (st_policies st) digest)"

fun latest_policy :: "(string \<times> PolicyRow) list \<Rightarrow> PolicyRow option" where
  "latest_policy [] = None"
| "latest_policy (r # rs) = (case latest_policy rs of
     None \<Rightarrow> Some (snd r)
   | Some q \<Rightarrow> if pw_generation q < pw_generation (snd r) then Some (snd r) else Some q)"

definition policy_latest :: "Store \<Rightarrow> string option" where
  "policy_latest st = map_option pw_body (latest_policy (st_policies st))"

definition tx_evaluation_put :: "string \<Rightarrow> string \<Rightarrow> string \<Rightarrow> nat \<Rightarrow> Store \<Rightarrow> Store R" where
  "tx_evaluation_put eid input_digest output changed_seq st =
    (if eid \<in> xr_id ` set (st_evaluations st) \<or> input_digest \<in> xr_input_digest ` set (st_evaluations st) \<or>
        changed_seq \<notin> audit_seqs st
     then Inl ferr
     else Inr (st\<lparr>st_evaluations := st_evaluations st @
       [\<lparr>xr_id = eid, xr_input_digest = input_digest, xr_output = output, xr_changed_seq = changed_seq\<rparr>]\<rparr>))"

definition evaluation_by_input :: "string \<Rightarrow> Store \<Rightarrow> string option" where
  "evaluation_by_input input_digest st =
     map_option xr_output (find (\<lambda>r. xr_input_digest r = input_digest) (st_evaluations st))"

definition evaluation_by_id :: "string \<Rightarrow> Store \<Rightarrow> string option" where
  "evaluation_by_id eid st = map_option xr_output (find (\<lambda>r. xr_id r = eid) (st_evaluations st))"

definition tx_object_put :: "string \<Rightarrow> string \<Rightarrow> nat \<Rightarrow> string \<Rightarrow> string \<Rightarrow> Store \<Rightarrow> Store" where
  "tx_object_put digest kind nbytes state expires_utc st =
     st\<lparr>st_objects := put_assoc digest
       \<lparr>jr_kind = kind, jr_bytes = nbytes, jr_state = state, jr_expires_utc = expires_utc\<rparr> (st_objects st)\<rparr>"

section \<open>Outbox, slots, windows\<close>

text \<open>A new row takes the rowid after the greatest one.\<close>

definition tx_outbox_put :: "string \<Rightarrow> string \<Rightarrow> nat \<Rightarrow> string \<Rightarrow> Store \<Rightarrow> Store" where
  "tx_outbox_put kind subject due_ms body st =
    (case find (\<lambda>r. qb_kind (snd r) = kind \<and> qb_subject (snd r) = subject) (st_outbox st) of
       Some (rid, row) \<Rightarrow>
         st\<lparr>st_outbox := put_assoc rid (row\<lparr>qb_due_ms := due_ms, qb_body := body\<rparr>) (st_outbox st)\<rparr>
     | None \<Rightarrow>
         st\<lparr>st_outbox := st_outbox st @
           [(foldr max (map fst (st_outbox st)) 0 + 1,
             \<lparr>qb_kind = kind, qb_subject = subject, qb_due_ms = due_ms, qb_attempts = 0, qb_body = body\<rparr>)]\<rparr>)"

definition outbox_before :: "nat \<times> OutboxRow \<Rightarrow> nat \<times> OutboxRow \<Rightarrow> bool" where
  "outbox_before a b \<longleftrightarrow> qb_due_ms (snd a) < qb_due_ms (snd b) \<or>
     qb_due_ms (snd a) = qb_due_ms (snd b) \<and> fst a \<le> fst b"

definition outbox_due :: "nat \<Rightarrow> Store \<Rightarrow> (nat \<times> string \<times> string \<times> string) list" where
  "outbox_due now st = map (\<lambda>(rid, r). (rid, qb_kind r, qb_subject r, qb_body r))
     (sort_by outbox_before (filter (\<lambda>r. qb_due_ms (snd r) \<le> now) (st_outbox st)))"

definition tx_outbox_delete :: "nat \<Rightarrow> Store \<Rightarrow> Store" where
  "tx_outbox_delete rid st = st\<lparr>st_outbox := filter (\<lambda>r. fst r \<noteq> rid) (st_outbox st)\<rparr>"

definition tx_slot_put :: "string \<Rightarrow> string \<Rightarrow> nat \<Rightarrow> string \<Rightarrow> string option \<Rightarrow> Store \<Rightarrow> Store" where
  "tx_slot_put check monitor deadline_ms state result st =
     st\<lparr>st_slots := put_assoc (check, monitor)
       \<lparr>sl_deadline_ms = deadline_ms, sl_state = state, sl_result = result\<rparr> (st_slots st)\<rparr>"

definition slot_before :: "(string \<times> string) \<times> SlotRow \<Rightarrow> (string \<times> string) \<times> SlotRow \<Rightarrow> bool" where
  "slot_before a b \<longleftrightarrow> str_le (snd (fst a)) (snd (fst b))"

definition slots_for_check :: "string \<Rightarrow> Store \<Rightarrow> (string \<times> SlotRow) list" where
  "slots_for_check check st = map (\<lambda>(k, r). (snd k, r))
     (sort_by slot_before (filter (\<lambda>r. fst (fst r) = check) (st_slots st)))"

definition tx_window_put :: "string \<Rightarrow> nat \<Rightarrow> string option \<Rightarrow> Store \<Rightarrow> Store" where
  "tx_window_put run start_ms counts st =
     st\<lparr>st_windows := put_assoc (run, start_ms)
       (case counts of Some c \<Rightarrow> Some c
        | None \<Rightarrow> (case map_of (st_windows st) (run, start_ms) of None \<Rightarrow> None | Some old \<Rightarrow> old))
       (st_windows st)\<rparr>"

definition window_counts :: "string \<Rightarrow> nat \<Rightarrow> Store \<Rightarrow> string option option" where
  "window_counts run start_ms st = map_of (st_windows st) (run, start_ms)"

definition window_attempted :: "string \<Rightarrow> nat \<Rightarrow> Store \<Rightarrow> bool" where
  "window_attempted run start_ms st \<longleftrightarrow> (run, start_ms) \<in> fst ` set (st_windows st)"

section \<open>Pages\<close>

text \<open>The last change of every entity at a cut.\<close>

definition latest_at_cut :: "string \<Rightarrow> nat \<Rightarrow> Store \<Rightarrow> ((string \<times> string \<times> nat) \<times> string) list" where
  "latest_at_cut entity through st =
     filter (\<lambda>((e, i, s), b). e = entity \<and> s \<le> through \<and>
        list_all (\<lambda>((e', i', s'), b'). e' = entity \<and> i' = i \<and> s' \<le> through \<longrightarrow> s' \<le> s) (st_history st))
       (st_history st)"

definition history_before ::
  "(string \<times> string \<times> nat) \<times> string \<Rightarrow> (string \<times> string \<times> nat) \<times> string \<Rightarrow> bool" where
  "history_before a b \<longleftrightarrow> (case (a, b) of (((_, i, s), _), ((_, i', s'), _)) \<Rightarrow>
     s < s' \<or> s = s' \<and> str_le i i')"

text \<open>The run filter reads the stored body; a body that does not parse is an error.\<close>

definition body_in_run :: "string option \<Rightarrow> string \<Rightarrow> bool R" where
  "body_in_run run body = (case run of
     None \<Rightarrow> Inr True
   | Some rf \<Rightarrow> (case parse body reply_limits of
       Inl _ \<Rightarrow> Inl (audit_unavailable ''bad body'')
     | Inr v \<Rightarrow> Inr (Option.bind (value_get v ''run'') as_str = Some rf)))"

fun list_rows :: "string option \<Rightarrow> nat \<Rightarrow> ((string \<times> string \<times> nat) \<times> string) list \<Rightarrow> (nat \<times> string) list R" where
  "list_rows run after [] = Inr []"
| "list_rows run after (((e, i, s), body) # rows) =
     (if s \<le> after then list_rows run after rows
      else sbind (body_in_run run body) (\<lambda>keep.
        sbind (list_rows run after rows) (\<lambda>items.
          Inr (if keep then (s, body) # items else items))))"

definition list_at :: "string \<Rightarrow> string option \<Rightarrow> nat \<Rightarrow> nat \<Rightarrow> nat \<Rightarrow> Store \<Rightarrow> ((nat \<times> string) list \<times> nat option) R" where
  "list_at entity run after through limit st =
     sbind (list_rows run after (sort_by history_before (latest_at_cut entity through st))) (\<lambda>items.
       if length items > limit
       then Inr (take limit items, if limit = 0 then None else Some (fst (items ! (limit - 1))))
       else Inr (items, None))"

definition audit_before :: "AuditRow \<Rightarrow> AuditRow \<Rightarrow> bool" where
  "audit_before a b \<longleftrightarrow> au_seq a \<le> au_seq b"

definition audit_between :: "nat \<Rightarrow> nat \<Rightarrow> Store \<Rightarrow> AuditRow list" where
  "audit_between after through st =
     sort_by audit_before (filter (\<lambda>r. after < au_seq r \<and> au_seq r \<le> through) (st_audit st))"

text \<open>A page of events; a limit of zero with an event to return panics (\<open>None\<close>).\<close>

definition events_page :: "nat \<Rightarrow> nat \<Rightarrow> nat \<Rightarrow> Store \<Rightarrow> (string list \<times> nat option) option" where
  "events_page after through limit st =
    (let rows = audit_between after through st in
     if length rows \<le> limit then Some (map au_envelope rows, None)
     else if limit = 0 then None
     else Some (map au_envelope (take limit rows), Some (au_seq (rows ! (limit - 1)))))"

definition events_to :: "nat \<Rightarrow> Store \<Rightarrow> string list" where
  "events_to through st = map au_envelope
     (sort_by audit_before (filter (\<lambda>r. au_seq r \<le> through) (st_audit st)))"

end
