(* ===== verification/Events.thy ===== *)
theory Events
  imports Store
begin

text \<open>
  Transactions and signed audit events (\<open>events.rs\<close>, and the transactions of \<open>store.rs\<close>). A handler
  runs inside one transaction: it is a function from the transaction's store and the digests emitted
  so far to a result and the new ones, or a fault, which rolls everything back. \<open>emit\<close> is the only
  writer of the audit table; \<open>emit_entity\<close> is the pair of calls by which the code records a new
  version of a run, check, review or alert.
\<close>

section \<open>Transactions\<close>

record Tx =
  tx_store :: Store
  tx_emitted :: "string list"

type_synonym 'a T = "Tx \<Rightarrow> ('a \<times> Tx) R"

definition ret :: "'a \<Rightarrow> 'a T" where "ret x = (\<lambda>tx. Inr (x, tx))"

definition fail :: "Fault \<Rightarrow> 'a T" where "fail f = (\<lambda>tx. Inl f)"

definition tbind :: "'a T \<Rightarrow> ('a \<Rightarrow> 'b T) \<Rightarrow> 'b T" where
  "tbind m k = (\<lambda>tx. sbind (m tx) (\<lambda>(x, tx'). k x tx'))"

definition thn :: "'a T \<Rightarrow> 'b T \<Rightarrow> 'b T" where "thn m n = tbind m (\<lambda>_. n)"

text \<open>A result of pure code, with the question mark operator.\<close>

definition liftR :: "'a R \<Rightarrow> 'a T" where "liftR r = (\<lambda>tx. sbind r (\<lambda>x. Inr (x, tx)))"

text \<open>A query and a statement on the open transaction.\<close>

definition query :: "(Store \<Rightarrow> 'a R) \<Rightarrow> 'a T" where
  "query f = (\<lambda>tx. sbind (f (tx_store tx)) (\<lambda>x. Inr (x, tx)))"

definition look :: "(Store \<Rightarrow> 'a) \<Rightarrow> 'a T" where "look f = query (\<lambda>st. Inr (f st))"

definition exec :: "(Store \<Rightarrow> Store R) \<Rightarrow> unit T" where
  "exec f = (\<lambda>tx. sbind (f (tx_store tx)) (\<lambda>st. Inr ((), tx\<lparr>tx_store := st\<rparr>)))"

definition exec_ok :: "(Store \<Rightarrow> Store) \<Rightarrow> unit T" where "exec_ok f = exec (\<lambda>st. Inr (f st))"

fun forT :: "('a \<Rightarrow> unit T) \<Rightarrow> 'a list \<Rightarrow> unit T" where
  "forT f [] = ret ()"
| "forT f (x # xs) = thn (f x) (forT f xs)"

lemmas tx_defs = ret_def fail_def tbind_def thn_def liftR_def query_def look_def exec_def exec_ok_def

section \<open>Emission\<close>

record EmitCtx =
  cx_tenant :: string
  cx_epoch :: nat
  cx_boot :: string
  cx_key_id :: string
  cx_key_epoch :: nat
  cx_sk :: string

text \<open>The body of the next event, from the head and the causes.\<close>

definition event_at :: "EmitCtx \<Rightarrow> nat \<Rightarrow> string \<Rightarrow> string \<Rightarrow> string \<Rightarrow> Value \<Rightarrow> string list \<Rightarrow> Head \<Rightarrow> EventBody" where
  "event_at cx now actor request kind value causes head =
     \<lparr>ev_tenant = cx_tenant cx, ev_seq = hd_seq head + 1, ev_prev = hd_hash head,
      ev_epoch = cx_epoch cx, ev_boot = cx_boot cx, ev_at_ms = now, ev_actor = actor,
      ev_request = request, ev_kind = kind, ev_value = value,
      ev_causes = remdups_adj (sort_by str_le causes)\<rparr>"

definition audit_row :: "Crypto \<Rightarrow> EmitCtx \<Rightarrow> EventBody \<Rightarrow> AuditRow" where
  "audit_row cr cx body = (let body_v = event_body_value body in
     \<lparr>au_seq = ev_seq body, au_hash = d cr ''audit'' body_v, au_prev = ev_prev body,
      au_epoch = ev_epoch body, au_kind = ev_kind body, au_body = jcs body_v,
      au_envelope = jcs (sign_envelope cr ''audit'' body_v (cx_key_id cx) (dec (cx_key_epoch cx)) (cx_sk cx))\<rparr>)"

definition emit :: "Crypto \<Rightarrow> EmitCtx \<Rightarrow> nat \<Rightarrow> string \<Rightarrow> string \<Rightarrow> string \<Rightarrow> Value \<Rightarrow> string list \<Rightarrow>
    (nat \<times> string) T" where
  "emit cr cx now actor request kind value causes = (\<lambda>tx.
     let st = tx_store tx;
         body = event_at cx now actor request kind value causes (tx_head st)
     in if length (ev_causes body) > set_max then Inl (schem ''causes set too large'')
        else if \<not> list_all (\<lambda>c. c \<in> set (tx_emitted tx) \<or> known_commitment st c) (ev_causes body)
        then Inl (audit_unavailable ''cause not durable'')
        else case event_body_of cr (event_body_value body) of
          Inl e \<Rightarrow> Inl (audit_unavailable (fault_message e))
        | Inr _ \<Rightarrow>
            (let row = audit_row cr cx body in
             sbind (tx_append_audit row st) (\<lambda>st'.
               Inr ((au_seq row, au_hash row),
                    \<lparr>tx_store = st', tx_emitted = tx_emitted tx @ [au_hash row]\<rparr>))))"

text \<open>\<open>emit\<close> and then \<open>tx_put_entity\<close> with the sequence number of the event.\<close>

definition emit_entity :: "Crypto \<Rightarrow> EmitCtx \<Rightarrow> nat \<Rightarrow> string \<Rightarrow> string \<Rightarrow> string \<Rightarrow> string \<Rightarrow> string \<Rightarrow> Value \<Rightarrow>
    string list \<Rightarrow> (nat \<times> string) T" where
  "emit_entity cr cx now actor request kind table eid value causes =
     tbind (emit cr cx now actor request kind value causes) (\<lambda>(seq, digest).
     thn (exec (tx_put_entity cr table eid (jcs value) seq table)) (ret (seq, digest)))"

section \<open>What a transaction may do\<close>

text \<open>One statement that writes neither the audit table nor an entity.\<close>

inductive stmt :: "Store \<Rightarrow> Store \<Rightarrow> bool" where
  meta: "stmt st (tx_meta_set k v st)"
| observation: "tx_insert_observation run src ep seq dg env st = Inr st' \<Longrightarrow> stmt st st'"
| action: "tx_action_put run act idg rej st = Inr st' \<Longrightarrow> stmt st st'"
| effect: "tx_effect_insert dg run act pre s env st = Inr st' \<Longrightarrow> stmt st st'"
| idem: "tx_idem_put p r m h reply st = Inr st' \<Longrightarrow> stmt st st'"
| policy: "tx_policy_put dg g body st = Inr st' \<Longrightarrow> stmt st st'"
| evaluation: "tx_evaluation_put i dg out seq st = Inr st' \<Longrightarrow> stmt st st'"
| object: "stmt st (tx_object_put dg kind n s ex st)"
| outbox_put: "stmt st (tx_outbox_put kind subj due body st)"
| outbox_delete: "stmt st (tx_outbox_delete rid st)"
| slot: "stmt st (tx_slot_put c m dl s rs st)"
| window: "stmt st (tx_window_put run start counts st)"

inductive tx_step :: "Crypto \<Rightarrow> Tx \<Rightarrow> Tx \<Rightarrow> bool" for cr where
  stmt: "stmt (tx_store tx) st \<Longrightarrow> tx_step cr tx (tx\<lparr>tx_store := st\<rparr>)"
| emit: "emit cr cx now actor request kind value causes tx = Inr (r, tx') \<Longrightarrow> tx_step cr tx tx'"
| entity: "emit_entity cr cx now actor request kind table eid value causes tx = Inr (r, tx') \<Longrightarrow>
    tx_step cr tx tx'"

abbreviation writes :: "Crypto \<Rightarrow> Tx \<Rightarrow> Tx \<Rightarrow> bool" where
  "writes cr \<equiv> rtranclp (tx_step cr)"

text \<open>A computation whose effect is a sequence of such steps.\<close>

definition keeps :: "Crypto \<Rightarrow> 'a T \<Rightarrow> bool" where
  "keeps cr m \<longleftrightarrow> (\<forall>tx x tx'. m tx = Inr (x, tx') \<longrightarrow> writes cr tx tx')"

named_theorems keeps_intro \<open>computations whose effect is a sequence of statements\<close>

lemma keepsD: "keeps cr m \<Longrightarrow> m tx = Inr (x, tx') \<Longrightarrow> writes cr tx tx'"
  by (auto simp: keeps_def)

lemma keeps_pure [keeps_intro]:
  "keeps cr (ret x)" "keeps cr (fail f)" "keeps cr (liftR r)" "keeps cr (query q)" "keeps cr (look g)"
  by (auto simp: keeps_def tx_defs)

lemma keeps_tbind [keeps_intro]:
  assumes "keeps cr m" and "\<And>x. keeps cr (k x)"
  shows "keeps cr (tbind m k)"
  unfolding keeps_def tbind_def
  using keepsD [OF assms(1)] keepsD [OF assms(2)] by (fastforce intro: rtranclp_trans)

lemma keeps_thn [keeps_intro]: "keeps cr m \<Longrightarrow> keeps cr n \<Longrightarrow> keeps cr (thn m n)"
  unfolding thn_def by (intro keeps_tbind)

lemma keeps_if [keeps_intro]: "keeps cr m \<Longrightarrow> keeps cr n \<Longrightarrow> keeps cr (if b then m else n)"
  by simp

lemma keeps_option [keeps_intro]:
  "keeps cr m \<Longrightarrow> (\<And>x. keeps cr (f x)) \<Longrightarrow> keeps cr (case z of None \<Rightarrow> m | Some x \<Rightarrow> f x)"
  by (cases z) simp_all

lemma keeps_prod [keeps_intro]: "(\<And>x y. keeps cr (f x y)) \<Longrightarrow> keeps cr (case z of (x, y) \<Rightarrow> f x y)"
  by (cases z) simp

lemma keeps_Let [keeps_intro]: "(\<And>x. keeps cr (f x)) \<Longrightarrow> keeps cr (Let z f)"
  by simp

lemma keeps_forT [keeps_intro]: "(\<And>x. keeps cr (f x)) \<Longrightarrow> keeps cr (forT f xs)"
  by (induction xs) (simp_all add: keeps_intro)

lemma keeps_emit [keeps_intro]: "keeps cr (emit cr cx now actor request kind value causes)"
  by (auto simp: keeps_def intro: tx_step.emit r_into_rtranclp)

lemma keeps_emit_entity [keeps_intro]:
  "keeps cr (emit_entity cr cx now actor request kind table eid value causes)"
  by (auto simp: keeps_def intro: tx_step.entity r_into_rtranclp)

lemma keeps_exec:
  assumes "\<And>st st'. f st = Inr st' \<Longrightarrow> stmt st st'"
  shows "keeps cr (exec f)"
  by (auto simp: keeps_def exec_def intro!: r_into_rtranclp tx_step.stmt assms)

lemma keeps_statements [keeps_intro]:
  "keeps cr (exec_ok (tx_meta_set k v))"
  "keeps cr (exec (tx_insert_observation run src ep seq dg env))"
  "keeps cr (exec (tx_action_put run act idg rej))"
  "keeps cr (exec (tx_effect_insert dg run act pre s env))"
  "keeps cr (exec (tx_idem_put p r m h reply))"
  "keeps cr (exec (tx_policy_put dg g body))"
  "keeps cr (exec (tx_evaluation_put i dg out seq))"
  "keeps cr (exec_ok (tx_object_put dg kind n s ex))"
  "keeps cr (exec_ok (tx_outbox_put kind subj due body))"
  "keeps cr (exec_ok (tx_outbox_delete rid))"
  "keeps cr (exec_ok (tx_slot_put c mo dl s rs))"
  "keeps cr (exec_ok (tx_window_put run start counts))"
  unfolding exec_ok_def by (rule keeps_exec, auto intro: stmt.intros)+

section \<open>Invariants of the store\<close>

text \<open>
  A property of the store that every statement and every event keep holds after any transaction.
  An entity is written with the sequence number of the event just appended.
\<close>

locale store_invariant =
  fixes cr :: Crypto and J :: "Store \<Rightarrow> bool"
  assumes stmt_keeps: "stmt st st' \<Longrightarrow> J st \<Longrightarrow> J st'"
    and emit_keeps: "emit cr cx now actor request kind value causes tx = Inr (r, tx') \<Longrightarrow>
      J (tx_store tx) \<Longrightarrow> J (tx_store tx')"
    and put_keeps: "emit cr cx now actor request kind value causes tx = Inr ((seq, digest), tx') \<Longrightarrow>
      J (tx_store tx) \<Longrightarrow> tx_put_entity cr table eid (jcs value) seq table (tx_store tx') = Inr st \<Longrightarrow>
      J st"
begin

lemma step_keeps: "tx_step cr tx tx' \<Longrightarrow> J (tx_store tx) \<Longrightarrow> J (tx_store tx')"
proof (induction rule: tx_step.induct)
  case (entity cx now actor request kind table eid v causes tx r tx')
  then obtain seq digest tx1 where e: "emit cr cx now actor request kind v causes tx = Inr ((seq, digest), tx1)"
    "tx_put_entity cr table eid (jcs v) seq table (tx_store tx1) = Inr (tx_store tx')"
    by (auto simp: emit_entity_def tx_defs)
  then show ?case using put_keeps entity.prems by blast
qed (auto intro: stmt_keeps emit_keeps)

lemma writes_keep: "writes cr tx tx' \<Longrightarrow> J (tx_store tx) \<Longrightarrow> J (tx_store tx')"
  by (induction rule: rtranclp_induct) (auto intro: step_keeps)

lemma computation_keeps: "keeps cr m \<Longrightarrow> m tx = Inr (x, tx') \<Longrightarrow> J (tx_store tx) \<Longrightarrow> J (tx_store tx')"
  by (rule writes_keep [OF keepsD])

end

section \<open>Frames\<close>

lemma stmt_frame:
  "stmt st st' \<Longrightarrow> st_audit st' = st_audit st \<and> st_history st' = st_history st \<and> st_runs st' = st_runs st \<and>
     st_checks st' = st_checks st \<and> st_reviews st' = st_reviews st \<and> st_alerts st' = st_alerts st"
  by (induction rule: stmt.induct)
    (auto simp: tx_meta_set_def tx_insert_observation_def tx_action_put_def tx_effect_insert_def
      tx_idem_put_def tx_policy_put_def tx_evaluation_put_def tx_object_put_def tx_outbox_put_def
      tx_outbox_delete_def tx_slot_put_def tx_window_put_def split: if_split_asm option.splits)

lemma emit_Inr:
  assumes "emit cr cx now actor request kind value causes tx = Inr (r, tx')"
  obtains body where "body = event_at cx now actor request kind value causes (tx_head (tx_store tx))"
    "length (ev_causes body) \<le> set_max"
    "list_all (\<lambda>c. c \<in> set (tx_emitted tx) \<or> known_commitment (tx_store tx) c) (ev_causes body)"
    "\<exists>b. event_body_of cr (event_body_value body) = Inr b"
    "au_hash (audit_row cr cx body) \<notin> au_hash ` set (st_audit (tx_store tx))"
    "r = (hd_seq (tx_head (tx_store tx)) + 1, au_hash (audit_row cr cx body))"
    "tx_store tx' = (tx_store tx)\<lparr>st_audit := st_audit (tx_store tx) @ [audit_row cr cx body]\<rparr>"
    "tx_emitted tx' = tx_emitted tx @ [au_hash (audit_row cr cx body)]"
proof -
  let ?b = "event_at cx now actor request kind value causes (tx_head (tx_store tx))"
  have seq: "au_seq (audit_row cr cx ?b) = hd_seq (tx_head (tx_store tx)) + 1"
    by (simp add: audit_row_def event_at_def Let_def)
  show thesis
  proof (rule that [OF refl])
    show "length (ev_causes ?b) \<le> set_max" "\<exists>b. event_body_of cr (event_body_value ?b) = Inr b"
      "list_all (\<lambda>c. c \<in> set (tx_emitted tx) \<or> known_commitment (tx_store tx) c) (ev_causes ?b)"
      "au_hash (audit_row cr cx ?b) \<notin> au_hash ` set (st_audit (tx_store tx))"
      "r = (hd_seq (tx_head (tx_store tx)) + 1, au_hash (audit_row cr cx ?b))"
      "tx_store tx' = (tx_store tx)\<lparr>st_audit := st_audit (tx_store tx) @ [audit_row cr cx ?b]\<rparr>"
      "tx_emitted tx' = tx_emitted tx @ [au_hash (audit_row cr cx ?b)]"
      using assms seq by (auto simp: emit_def Let_def tx_append_audit_def split: if_split_asm sum.split_asm)
  qed
qed

lemma put_history_frame:
  "put_history e i s b st = Inr st' \<Longrightarrow> s \<in> audit_seqs st \<and> (e, i, s) \<notin> fst ` set (st_history st) \<and>
     st' = st\<lparr>st_history := st_history st @ [((e, i, s), b)]\<rparr>"
  by (auto simp: put_history_def split: if_split_asm)

text \<open>The row an entity statement writes; the other entity tables stay.\<close>

lemma put_entity_Inr:
  assumes "tx_put_entity cr table eid body seq entity st = Inr st'"
  obtains (runs) r row where "table = ''runs''" "admit_body ''bad run body'' run_of body = Inr r"
      "row = \<lparr>rr_revision = rn_revision r, rr_state = run_state_as_str (rn_state r), rr_source = rn_source r,
          rr_epoch = rn_source_epoch r, rr_body = body, rr_changed_seq = seq\<rparr>"
      "st' = st\<lparr>st_runs := put_assoc eid row (st_runs st),
         st_history := st_history st @ [((entity, eid, seq), body)]\<rparr>"
  | (checks) c row where "table = ''checks''" "admit_body ''bad check body'' (check_of cr) body = Inr c"
      "row = \<lparr>cr_run = ck_run c, cr_state = check_state_as_str (ck_state c), cr_revision = ck_revision c,
          cr_deadline_ms = ck_deadline_ms c, cr_body = body, cr_changed_seq = seq\<rparr>"
      "st' = st\<lparr>st_checks := put_assoc eid row (st_checks st),
         st_history := st_history st @ [((entity, eid, seq), body)]\<rparr>"
  | (reviews) v row where "table = ''reviews''" "admit_body ''bad review body'' review_of body = Inr v"
      "row = \<lparr>vr_run = rv_run v, vr_basis = map_option (basis_digest cr) (rv_basis v),
          vr_state = review_state_as_str (rv_state v), vr_revision = rv_revision v,
          vr_due_ms = rv_due_ms v, vr_lease_ms = rv_lease_until_ms v, vr_body = body,
          vr_changed_seq = seq\<rparr>"
      "review_index_ok (put_assoc eid row (st_reviews st))"
      "st' = st\<lparr>st_reviews := put_assoc eid row (st_reviews st),
         st_history := st_history st @ [((entity, eid, seq), body)]\<rparr>"
  | (alerts) a row where "table = ''alerts''" "admit_body ''bad alert body'' alert_of body = Inr a"
      "row = \<lparr>lr_run = al_run a, lr_episode_key = episode_key (al_run a) (al_monitor a) (al_baseline a),
          lr_state = alert_state_as_str (al_state a), lr_body = body, lr_changed_seq = seq\<rparr>"
      "alert_index_ok (put_assoc eid row (st_alerts st))"
      "st' = st\<lparr>st_alerts := put_assoc eid row (st_alerts st),
         st_history := st_history st @ [((entity, eid, seq), body)]\<rparr>"
  using assms unfolding tx_put_entity_def put_run_row_def put_check_row_def put_review_row_def put_alert_row_def
  by (auto simp: Let_def dest!: put_history_frame split: if_split_asm)

lemma put_entity_audit: "tx_put_entity cr table eid body seq entity st = Inr st' \<Longrightarrow>
    st_audit st' = st_audit st \<and>
    st_history st' = st_history st @ [((entity, eid, seq), body)]"
  by (erule put_entity_Inr; auto)

section \<open>The audit chain\<close>

text \<open>
  A row holds an admissible event body: its canonical bytes, its digest, its number, the hash of the
  row before it, and the envelope the signer made.
\<close>

definition row_ok :: "Crypto \<Rightarrow> AuditRow \<Rightarrow> bool" where
  "row_ok cr row \<longleftrightarrow> (\<exists>cx body. valid_event_body cr body \<and> row = audit_row cr cx body)"

fun chained :: "Crypto \<Rightarrow> Head \<Rightarrow> AuditRow list \<Rightarrow> bool" where
  "chained cr head [] \<longleftrightarrow> True"
| "chained cr head (r # rs) \<longleftrightarrow> au_seq r = hd_seq head + 1 \<and> au_prev r = hd_hash head \<and> row_ok cr r \<and>
     chained cr \<lparr>hd_seq = au_seq r, hd_hash = au_hash r\<rparr> rs"

definition audit_ok :: "Crypto \<Rightarrow> Store \<Rightarrow> bool" where
  "audit_ok cr st \<longleftrightarrow> chained cr empty_head (st_audit st) \<and> distinct (map au_hash (st_audit st))"

text \<open>The head after a chained list of rows.\<close>

fun last_head :: "Head \<Rightarrow> AuditRow list \<Rightarrow> Head" where
  "last_head head [] = head"
| "last_head head (r # rs) = last_head \<lparr>hd_seq = au_seq r, hd_hash = au_hash r\<rparr> rs"

lemma last_head_append [simp]: "last_head h (rs @ [r]) = \<lparr>hd_seq = au_seq r, hd_hash = au_hash r\<rparr>"
  by (induction rs arbitrary: h) simp_all

lemma chained_append: "chained cr h (rs @ qs) \<longleftrightarrow> chained cr h rs \<and> chained cr (last_head h rs) qs"
  by (induction rs arbitrary: h) auto

lemma chained_seqs: "chained cr h rs \<Longrightarrow> map au_seq rs = [hd_seq h + 1 ..< hd_seq h + 1 + length rs]"
proof (induction rs arbitrary: h)
  case (Cons r rs)
  have "chained cr \<lparr>hd_seq = au_seq r, hd_hash = au_hash r\<rparr> rs" using Cons.prems unfolding chained.simps by blast
  from Cons.IH [OF this] show ?case using Cons.prems by (simp add: upt_conv_Cons del: upt_Suc)
qed simp

lemma chained_above: "chained cr h rs \<Longrightarrow> r \<in> set rs \<Longrightarrow> hd_seq h < au_seq r"
proof (induction rs arbitrary: h)
  case (Cons q rs)
  have "chained cr \<lparr>hd_seq = au_seq q, hd_hash = au_hash q\<rparr> rs" using Cons.prems(1) unfolding chained.simps by blast
  moreover have "hd_seq h < au_seq q" using Cons.prems(1) by simp
  ultimately show ?case using Cons.IH Cons.prems(2) by fastforce
qed simp

lemma chained_latest:
  assumes "chained cr h rs"
  shows "(case latest_row rs of None \<Rightarrow> rs = [] | Some q \<Rightarrow>
    rs \<noteq> [] \<and> last_head h rs = \<lparr>hd_seq = au_seq q, hd_hash = au_hash q\<rparr>)"
  using assms
proof (induction rs arbitrary: h)
  case (Cons r rs)
  let ?h = "\<lparr>hd_seq = au_seq r, hd_hash = au_hash r\<rparr>"
  have c: "chained cr ?h rs" using Cons.prems unfolding chained.simps by blast
  have above: "au_seq r < au_seq q" if "latest_row rs = Some q" for q
  proof -
    have "q \<in> set rs" using that by (induction rs arbitrary: q) (auto split: option.splits if_split_asm)
    then show ?thesis using chained_above [OF c] by simp
  qed
  show ?case using Cons.IH [OF c] above by (cases "latest_row rs") (auto dest: less_not_sym)
qed simp

lemma audit_ok_head: "audit_ok cr st \<Longrightarrow> tx_head st = last_head empty_head (st_audit st)"
  using chained_latest [of cr empty_head "st_audit st"]
  by (auto simp: audit_ok_def tx_head_def split: option.splits)

lemma audit_ok_seqs: "audit_ok cr st \<Longrightarrow> map au_seq (st_audit st) = [1 ..< Suc (hd_seq (tx_head st))]"
proof -
  assume ok: "audit_ok cr st"
  then have "map au_seq (st_audit st) = [1 ..< Suc (length (st_audit st))]"
    using chained_seqs [of cr empty_head "st_audit st"] by (simp add: audit_ok_def empty_head_def)
  moreover have "hd_seq (tx_head st) = length (st_audit st)"
  proof (cases "st_audit st" rule: rev_cases)
    case Nil
    then show ?thesis by (simp add: tx_head_def empty_head_def)
  next
    case (snoc rs r)
    then have "au_seq r = length (st_audit st)" using calculation by simp
    then show ?thesis using audit_ok_head [OF ok] snoc by simp
  qed
  ultimately show ?thesis by simp
qed

lemma event_body_reparse:
  assumes "event_body_of cr (event_body_value x) = Inr y"
  shows "y = x"
  using assms by (cases x, cases y) (auto simp: event_body_of_def event_body_value_def fld_iff inj_map_eq_map inj_def)

lemma audit_row_ok: "event_body_of cr (event_body_value body) = Inr b \<Longrightarrow> row_ok cr (audit_row cr cx body)"
  using event_body_reparse event_body_dec_valid unfolding row_ok_def by blast

lemma emit_keeps_audit:
  assumes "emit cr cx now actor request kind value causes tx = Inr (r, tx')" and "audit_ok cr (tx_store tx)"
  shows "audit_ok cr (tx_store tx') \<and> tx_head (tx_store tx') = \<lparr>hd_seq = fst r, hd_hash = snd r\<rparr> \<and>
    fst r = hd_seq (tx_head (tx_store tx)) + 1"
  using assms(1)
proof (rule emit_Inr)
  fix body
  assume b: "body = event_at cx now actor request kind value causes (tx_head (tx_store tx))"
    "\<exists>b. event_body_of cr (event_body_value body) = Inr b"
    "au_hash (audit_row cr cx body) \<notin> au_hash ` set (st_audit (tx_store tx))"
    "r = (hd_seq (tx_head (tx_store tx)) + 1, au_hash (audit_row cr cx body))"
    "tx_store tx' = (tx_store tx)\<lparr>st_audit := st_audit (tx_store tx) @ [audit_row cr cx body]\<rparr>"
  let ?row = "audit_row cr cx body"
  have head: "tx_head (tx_store tx) = last_head empty_head (st_audit (tx_store tx))"
    using assms(2) by (rule audit_ok_head)
  have row: "au_seq ?row = hd_seq (tx_head (tx_store tx)) + 1" "au_prev ?row = hd_hash (tx_head (tx_store tx))"
    by (simp_all add: audit_row_def b(1) event_at_def Let_def)
  have "chained cr empty_head (st_audit (tx_store tx) @ [?row])"
    using assms(2) row head b(2) audit_row_ok unfolding chained_append audit_ok_def by auto
  then have ok: "audit_ok cr (tx_store tx')"
    using assms(2) b(3,5) by (simp add: audit_ok_def)
  moreover have "tx_head (tx_store tx') = \<lparr>hd_seq = fst r, hd_hash = snd r\<rparr>"
    using audit_ok_head [OF ok] b(4,5) row(1) by simp
  ultimately show ?thesis using b(4) by simp
qed

interpretation audit: store_invariant cr "audit_ok cr" for cr
proof
  show "stmt st st' \<Longrightarrow> audit_ok cr st \<Longrightarrow> audit_ok cr st'" for st st'
    by (simp add: audit_ok_def stmt_frame)
  show "emit cr cx now actor request kind v causes tx = Inr (r, tx') \<Longrightarrow> audit_ok cr (tx_store tx) \<Longrightarrow>
      audit_ok cr (tx_store tx')" for cx now actor request kind v causes tx r tx'
    using emit_keeps_audit by blast
  then show "emit cr cx now actor request kind v causes tx = Inr ((seq, digest), tx') \<Longrightarrow>
      audit_ok cr (tx_store tx) \<Longrightarrow> tx_put_entity cr table eid (jcs v) seq table (tx_store tx') = Inr st \<Longrightarrow>
      audit_ok cr st" for cx now actor request kind v causes tx seq digest tx' table eid st
    using put_entity_audit unfolding audit_ok_def by metis
qed

lemma emit_extends: "emit cr cx now actor request kind value causes tx = Inr (r, tx') \<Longrightarrow>
    \<exists>rows. st_audit (tx_store tx') = st_audit (tx_store tx) @ rows"
  by (erule emit_Inr) simp

text \<open>Append only: a transaction extends the audit table and rewrites none of it.\<close>

lemma writes_extend: "writes cr tx tx' \<Longrightarrow> \<exists>rows. st_audit (tx_store tx') = st_audit (tx_store tx) @ rows"
proof (induction rule: rtranclp_induct)
  case (step tx1 tx2)
  from step.hyps(2) have "\<exists>rows. st_audit (tx_store tx2) = st_audit (tx_store tx1) @ rows"
  proof (induction rule: tx_step.induct)
    case (entity cx now actor request kind table eid v causes tx r tx')
    then obtain seq dg tx1 where "emit cr cx now actor request kind v causes tx = Inr ((seq, dg), tx1)"
      "tx_put_entity cr table eid (jcs v) seq table (tx_store tx1) = Inr (tx_store tx')"
      by (auto simp: emit_entity_def tx_defs)
    then show ?case using emit_extends put_entity_audit by metis
  qed (auto dest: emit_extends simp: stmt_frame)
  with step.IH show ?case by (metis append.assoc)
qed simp

end
