(* ===== verification/Readback.thy ===== *)
theory Readback
  imports JsonRoundtrip Events
begin

text \<open>
  Reading a stored body (\<open>store.rs\<close>, \<open>json.rs\<close>). A row holds the canonical bytes of a record and
  every reader parses them with the limits of replies. Whatever the parser accepts of canonical
  bytes is the value that was written, its members in canonical order, and a validator does not
  see the order: a version that the store admitted reads back as the record that was written.
\<close>

section \<open>Limits\<close>

definition limits_le :: "Limits \<Rightarrow> Limits \<Rightarrow> bool" where
  "limits_le a b \<longleftrightarrow> max_bytes a \<le> max_bytes b \<and> max_depth a \<le> max_depth b \<and>
     max_members a \<le> max_members b \<and> max_array a \<le> max_array b"

lemma p_mono:
  assumes "limits_le lim lim'"
  shows "(\<forall>d s x. p_value n lim d s = Inr x \<longrightarrow> p_value n lim' d s = Inr x) \<and>
    (\<forall>d ms s x. p_members n lim d ms s = Inr x \<longrightarrow> p_members n lim' d ms s = Inr x) \<and>
    (\<forall>d xs s x. p_items n lim d xs s = Inr x \<longrightarrow> p_items n lim' d xs s = Inr x)"
proof (induction n)
  case (Suc n)
  have le: "max_depth lim \<le> max_depth lim'" "max_members lim \<le> max_members lim'" "max_array lim \<le> max_array lim'"
    using assms by (simp_all add: limits_le_def)
  note IH = Suc.IH [THEN conjunct1, rule_format] Suc.IH [THEN conjunct2, THEN conjunct1, rule_format]
    Suc.IH [THEN conjunct2, THEN conjunct2, rule_format]
  have v: "p_value (Suc n) lim' d s = Inr x" if "p_value (Suc n) lim d s = Inr x" for d s x
    using that le(1) by (auto simp: p_value.simps split: sum.splits if_split_asm Arm.split_asm dest: IH)
  have m: "p_members (Suc n) lim' d ms s = Inr x" if "p_members (Suc n) lim d ms s = Inr x" for d ms s x
    using that le(2) by (fastforce simp: p_members.simps Let_def split: if_split_asm dest: IH)
  have i: "p_items (Suc n) lim' d xs s = Inr x" if "p_items (Suc n) lim d xs s = Inr x" for d xs s x
    using that le(3) by (fastforce simp: p_items.simps Let_def split: if_split_asm dest: IH)
  show ?case using v m i by blast
qed (simp add: p_value.simps p_members.simps p_items.simps)

lemma parse_mono:
  assumes "limits_le lim lim'" and "parse s lim = Inr v"
  shows "parse s lim' = Inr v"
proof -
  obtain r where "p_value (parse_fuel s) lim 0 s = Inr (v, r)" "ws r = []"
    and "s \<noteq> []" "length s \<le> max_bytes lim" "utf8_ok s" "take 3 (bytes s) \<noteq> [0xEF, 0xBB, 0xBF]"
    using assms(2) by (auto simp: parse_def split: if_split_asm)
  moreover then have "p_value (parse_fuel s) lim' 0 s = Inr (v, r)" using p_mono [OF assms(1)] by blast
  ultimately show ?thesis using assms(1) by (simp add: parse_def limits_le_def)
qed

section \<open>Text that is UTF-8 has UTF-8 parts\<close>

lemma utf8_split:
  "utf8_ok s \<Longrightarrow> s = a @ c # b \<Longrightarrow> (of_char c :: nat) < 0x80 \<Longrightarrow> utf8_ok a \<and> utf8_ok (c # b)"
proof (induction s arbitrary: a rule: utf8_induct)
  case (chunk ch s)
  have nz: "utf8_first (bytes ch) \<noteq> 0" using chunk.hyps by simp
  show ?case
  proof (cases "length ch \<le> length a")
    case True
    then obtain a' where "a = ch @ a'" "s = a' @ c # b"
      using chunk.prems(1) by (auto simp: append_eq_append_conv2)
    then show ?thesis using chunk.IH [of a'] chunk.prems(2) chunk.hyps by (simp add: utf8_ok_chunk)
  next
    case False
    then obtain q where q: "ch = a @ c # q" "b = q @ s"
      using chunk.prems(1) by (auto simp: append_eq_append_conv2) (metis Cons_eq_append_conv)
    have "a = []"
    proof (rule ccontr)
      assume "a \<noteq> []"
      then obtain h t where a: "a = h # t" by (cases a) auto
      have "utf8_first (bytes ch) \<noteq> 1" using chunk.hyps q a by simp
      then have "\<not> byte (bytes ch) 0 < 0x80" using utf8_first_eqs(1) [of "bytes ch"] chunk.hyps by (cases ch) auto
      then have "list_all (\<lambda>b. 0x80 \<le> b) (bytes ch)"
        using utf8_first_high [OF nz] chunk.hyps by simp
      then show False using q chunk.prems(2) by (simp add: list_all_iff)
    qed
    then show ?thesis using chunk.hyps q by (simp add: utf8_ok_chunk flip: append_Cons)
  qed
qed simp

lemma utf8_mid: "utf8_ok (a @ c # b) \<Longrightarrow> (of_char c :: nat) < 0x80 \<Longrightarrow> utf8_ok a \<and> utf8_ok b"
  using utf8_split [of "a @ c # b" a c b] utf8_single by blast

lemma utf8_ascii_prefix: "utf8_ok (a @ b) \<Longrightarrow> list_all (\<lambda>c. (of_char c :: nat) < 0x80) a \<Longrightarrow> utf8_ok b"
  by (induction a) (simp_all add: utf8_single)

lemma escape_char_codes: "(of_char c :: nat) < 0x80 \<Longrightarrow> list_all (\<lambda>k. (of_char k :: nat) < 0x80) (escape_char c)"
proof -
  have "(of_char (hex_digit k) :: nat) < 0x80" if "k < 16" for k
    using that by (simp add: hex_digit_def)
  then show "(of_char c :: nat) < 0x80 \<Longrightarrow> ?thesis" by (auto simp: escape_char_def Let_def)
qed

lemma escape_char_Cons: "\<exists>k ks. escape_char c = k # ks \<and> ((of_char c :: nat) < 0x80 \<longrightarrow> (of_char k :: nat) < 0x80)"
  by (auto simp: escape_char_def Let_def)

lemma utf8_unescape: "utf8_ok (escape_into s) \<Longrightarrow> utf8_ok s"
proof (induction "length s" arbitrary: s rule: less_induct)
  case less
  let ?high = "\<lambda>c. 0x80 \<le> (of_char c :: nat)"
  define a b where "a = takeWhile ?high s" and "b = dropWhile ?high s"
  have s: "s = a @ b" by (simp add: a_def b_def)
  have high: "list_all ?high a" unfolding a_def by (auto simp: list_all_iff dest: set_takeWhileD)
  have esc: "escape_into s = a @ escape_into b"
    using escape_high [OF high] by (simp add: s escape_into_def)
  show ?case
  proof (cases b)
    case Nil
    then show ?thesis using less.prems esc s by (simp add: escape_into_def)
  next
    case (Cons c t)
    then have c: "(of_char c :: nat) < 0x80" using b_def hd_dropWhile [of ?high s]
      by (metis list.distinct(1) list.sel(1) not_le)
    obtain k ks where k: "escape_char c = k # ks" "(of_char k :: nat) < 0x80"
      using escape_char_Cons [of c] c by auto
    have "utf8_ok (a @ k # (ks @ escape_into t))"
      using less.prems esc Cons k by (simp add: escape_into_def)
    then have "utf8_ok a" "utf8_ok (ks @ escape_into t)" using utf8_mid k(2) by blast+
    moreover have "list_all (\<lambda>k. (of_char k :: nat) < 0x80) ks" using escape_char_codes [OF c] k(1) by simp
    ultimately have "utf8_ok a" "utf8_ok (escape_into t)" using utf8_ascii_prefix by blast+
    then show ?thesis using less.hyps [of t] Cons s c by (simp add: utf8_ok_append utf8_single)
  qed
qed

lemma utf8_unquote: "utf8_ok (quote s) \<Longrightarrow> utf8_ok s"
  unfolding quote_def using utf8_mid [of "escape_into s" "CHR 0x22" "[]"] utf8_unescape
  by (simp add: utf8_single)

section \<open>Canonical bytes read back\<close>

fun shape_ok :: "Value \<Rightarrow> bool" where
  "shape_ok (Num raw) = (number raw = Inr (raw, []))"
| "shape_ok (Arr items) = list_all shape_ok items"
| "shape_ok (Obj ms) = (distinct (map fst ms) \<and> list_all (\<lambda>m. shape_ok (snd m)) ms)"
| "shape_ok v = True"

fun utf8_value :: "Value \<Rightarrow> bool" where
  "utf8_value (Str s) = utf8_ok s"
| "utf8_value (Arr items) = list_all utf8_value items"
| "utf8_value (Obj ms) = list_all (\<lambda>m. utf8_ok (fst m) \<and> utf8_value (snd m)) ms"
| "utf8_value v = True"

lemma utf8_parts: "utf8_ok (intercalate '','' xs) \<Longrightarrow> x \<in> set xs \<Longrightarrow> utf8_ok x"
proof (induction "'',''" xs rule: intercalate.induct)
  case (3 a b xs)
  then have "utf8_ok (a @ CHR '','' # intercalate '','' (b # xs))" by simp
  from utf8_mid [OF this] have "utf8_ok a" "utf8_ok (intercalate '','' (b # xs))" by simp_all
  then show ?case using 3 by auto
qed simp_all

lemma utf8_jcs_parts: "utf8_ok (jcs v) \<Longrightarrow> utf8_value v"
proof (induction v rule: jcs.induct)
  case (5 s)
  then show ?case using utf8_unquote by simp
next
  case (6 items)
  then have "utf8_ok (intercalate '','' (map jcs items))"
    using utf8_mid [of "intercalate '','' (map jcs items)" "CHR '']''" "[]"] by (simp add: utf8_single)
  then show ?case using 6 utf8_parts by (simp add: list_all_iff)
next
  case (7 ms)
  let ?ts = "map (\<lambda>(k, v). quote k @ '':'' @ jcs v) (sort_by member_le ms)"
  have "utf8_ok (intercalate '','' ?ts)"
    using 7 utf8_mid [of "intercalate '','' ?ts" "CHR ''}''" "[]"] by (simp add: utf8_single)
  moreover have "quote k @ '':'' @ jcs v \<in> set ?ts" if "(k, v) \<in> set ms" for k v
    unfolding set_map set_sort_by using that by (rule rev_image_eqI) simp
  ultimately have "utf8_ok (quote k @ '':'' @ jcs v)" if "(k, v) \<in> set ms" for k v
    using that utf8_parts by blast
  then have "utf8_ok k \<and> utf8_ok (jcs v)" if "(k, v) \<in> set ms" for k v
    using utf8_mid [of "quote k" "CHR '':''" "jcs v"] utf8_unquote [of k] that by simp
  then show ?case using 7 by (auto simp: list_all_iff)
qed simp_all

lemma size_parts:
  "x \<in> set items \<Longrightarrow> size x < size (Arr items)" "length items < size (Arr items)"
  "m \<in> set ms \<Longrightarrow> size (snd m) < size (Obj ms)" "length ms < size (Obj ms)"
proof -
  show "x \<in> set items \<Longrightarrow> size x < size (Arr items)" by (simp add: size_list_estimation' less_Suc_eq_le)
  show "length items < size (Arr items)" by (induction items) simp_all
  show "m \<in> set ms \<Longrightarrow> size (snd m) < size (Obj ms)" using size_member_less by (cases m) auto
  show "length ms < size (Obj ms)" by (induction ms) (simp_all add: split_beta)
qed

lemma val_ok_large:
  "shape_ok v \<Longrightarrow> utf8_value v \<Longrightarrow> k + size v \<le> max_depth lim \<Longrightarrow> size v \<le> max_array lim \<Longrightarrow>
    size v \<le> max_members lim \<Longrightarrow> val_ok lim k v"
proof (induction lim k v rule: val_ok.induct)
  case (3 lim k items)
  have "val_ok lim (k + 1) x" if "x \<in> set items" for x
    using 3 that size_parts(1) [OF that] by (simp add: list_all_iff)
  then show ?case using 3 size_parts(2) [of items] by (simp add: list_all_iff del: size_parts)
next
  case (4 lim k ms)
  have "val_ok lim (k + 1) (snd m)" if "m \<in> set ms" for m
    using 4 that size_parts(3) [OF that] by (simp add: list_all_iff)
  then show ?case using 4 size_parts(4) [of ms] by (simp add: list_all_iff)
qed simp_all

lemma parse_back:
  assumes "parse (jcs v) lim = Inr w" and "shape_ok v"
  shows "w = canon v"
proof -
  let ?big = "\<lparr>max_bytes = max_bytes lim, max_depth = max_depth lim + size v,
    max_members = max_members lim + size v, max_array = max_array lim + size v\<rparr>"
  have parts: "utf8_ok (jcs v)" "length (jcs v) \<le> max_bytes lim"
    using assms(1) by (auto simp: parse_def split: if_split_asm)
  have "val_ok ?big 0 v"
    using val_ok_large [OF assms(2) utf8_jcs_parts [OF parts(1)], of 0 ?big] by simp
  then have "parse (jcs v) ?big = Inr (canon v)" using parts(2) by (intro parse_canonical) simp_all
  moreover have "parse (jcs v) ?big = Inr w"
    using parse_mono [of lim ?big, OF _ assms(1)] by (simp add: limits_le_def)
  ultimately show ?thesis by simp
qed

lemma val_ok_shape: "val_ok lim k v \<Longrightarrow> shape_ok v"
  by (induction lim k v rule: val_ok.induct) (simp_all add: list_all_iff)

lemma parsed_shape: "parse s lim = Inr v \<Longrightarrow> shape_ok v"
proof -
  assume "parse s lim = Inr v"
  then obtain r where "p_value (parse_fuel s) lim 0 s = Inr (v, r)"
    by (auto simp: parse_def split: if_split_asm)
  then show "shape_ok v" using parsed_ok [of "parse_fuel s"] val_ok_shape by blast
qed

section \<open>Validators do not see the order of members\<close>

lemma filter_ins_by:
  "(\<And>y. y \<in> set ys \<Longrightarrow> P x \<Longrightarrow> P y \<Longrightarrow> le x y) \<Longrightarrow>
    filter P (ins_by le x ys) = (if P x then x # filter P ys else filter P ys)"
  by (induction ys) auto

lemma filter_key_sort: "filter (\<lambda>p. fst p = k) (sort_by member_le ms) = filter (\<lambda>p. fst p = k) ms"
proof (induction ms)
  case (Cons m ms)
  have "sort_by member_le (m # ms) = ins_by member_le m (sort_by member_le ms)" by (simp add: sort_by_def)
  moreover have "filter (\<lambda>p. fst p = k) (ins_by member_le m ys) =
      (if fst m = k then m # filter (\<lambda>p. fst p = k) ys else filter (\<lambda>p. fst p = k) ys)" for ys
    by (rule filter_ins_by) (simp add: member_le_def utf16_le_def)
  ultimately show ?case using Cons by simp
qed (simp add: sort_by_def)

lemma map_of_by_filter: "map_of ms k = (case filter (\<lambda>p. fst p = k) ms of [] \<Rightarrow> None | p # _ \<Rightarrow> Some (snd p))"
  by (induction ms) auto

lemma map_of_sort: "map_of (sort_by member_le ms) k = map_of ms k"
  by (simp add: map_of_by_filter filter_key_sort)

definition canon_members :: "(string \<times> Value) list \<Rightarrow> (string \<times> Value) list" where
  "canon_members ms = map (\<lambda>(k, v). (k, canon v)) (sort_by member_le ms)"

definition map_ok :: "('a \<Rightarrow> 'b) \<Rightarrow> 'a R \<Rightarrow> 'b R" where
  "map_ok f r = (case r of Inl e \<Rightarrow> Inl e | Inr x \<Rightarrow> Inr (f x))"

lemma map_ok_simps [simp]: "map_ok f (Inl e) = Inl e" "map_ok f (Inr x) = Inr (f x)"
  by (simp_all add: map_ok_def)

lemma sbind_map_ok [simp]: "sbind (map_ok f r) g = sbind r (\<lambda>x. g (f x))"
  by (cases r) simp_all

lemma map_of_canon: "map_of (canon_members ms) k = map_option canon (map_of ms k)"
  by (simp add: canon_members_def map_of_map map_of_sort)

definition blind :: "(Value \<Rightarrow> 'a R) \<Rightarrow> bool" where
  "blind p \<longleftrightarrow> (\<forall>v. p (canon v) = p v)"

lemma blindI: "(\<And>v. p (canon v) = p v) \<Longrightarrow> blind p"
  by (simp add: blind_def)

lemma blindD: "blind p \<Longrightarrow> p (canon v) = p v"
  by (simp add: blind_def)

lemma as_canon [simp]:
  "as_obj (canon v) = map_option canon_members (as_obj v)" "as_arr (canon v) = map_option (map canon) (as_arr v)"
  "as_str (canon v) = as_str v" "as_bool (canon v) = as_bool v" "as_int (canon v) = as_int v"
  "canon v = Null \<longleftrightarrow> v = Null"
  by (cases v; simp add: canon_members_def as_obj_def as_arr_def as_str_def as_bool_def as_int_def)+

lemma obj_canon [simp]: "obj_of (canon v) = map_ok canon_members (obj_of v)"
  by (cases "as_obj v") (simp_all add: obj_of_def)

lemma arr_canon [simp]: "arr_of (canon v) = map_ok (map canon) (arr_of v)"
  by (cases "as_arr v") (simp_all add: arr_of_def)

lemma closed_canon [simp]: "closed (canon_members ms) ks = closed ms ks"
  by (simp add: closed_def canon_members_def split_beta)

lemma fld_canon_any: "fld (canon_members ms) k p = fld ms k (\<lambda>v. p (canon v))"
  by (cases "map_of ms k") (simp_all add: fld_def field_def map_of_canon)

lemma fld_canon [simp]: "blind p \<Longrightarrow> fld (canon_members ms) k p = fld ms k p"
  by (simp add: fld_canon_any blind_def)

lemma mapR_canon [simp]: "blind p \<Longrightarrow> mapR p (map canon xs) = mapR p xs"
  by (induction xs) (simp_all add: blindD)

lemma fld_canon_arr [simp]: "fld (canon_members ms) k arr_of = map_ok (map canon) (fld ms k arr_of)"
  by (cases "map_of ms k") (simp_all add: fld_def field_def map_of_canon)

named_theorems blind_simps \<open>validators that do not see the order of members\<close>

lemma scalar_canon [simp]: "s_of (canon v) = s_of v" "u_of (canon v) = u_of v" "n_of (canon v) = n_of v"
  "boolean_of (canon v) = boolean_of v"
  by (simp_all add: s_of_def u_of_def n_of_def boolean_of_def)

lemma scalar_blind [blind_simps]:
  "blind id_of" "blind hash_of" "blind text_of" "blind boot_of" "blind (sig_of cr)" "blind u_of" "blind n_of"
  "blind boolean_of" "blind s_of" "blind (one_of l m)" "blind (enum_of e m)" "blind (lit_str w)" "blind (lit_num k)"
  by (simp_all add: blind_def lit_num_def id_of_def hash_of_def text_of_def boot_of_def sig_of_def check_str_def
      one_of_def enum_of_def lit_str_def)

lemma opt_of_blind: "blind p \<Longrightarrow> blind (opt_of p)"
  by (simp add: blind_def opt_of_def)

lemma list_blind [blind_simps]: "blind id_list" "blind hash_list" "blind hash_array" "blind bins_of"
  using scalar_blind
  by (auto simp: blind_def id_list_def hash_list_def hash_array_def bins_of_def simp del: mapR_canon
      intro!: sbind_cong mapR_canon arg_cong [where f = "\<lambda>r. sbind r _"])

lemmas opt_blind [blind_simps] = opt_of_blind
  scalar_blind(1) [THEN opt_of_blind, folded opt_id_def] scalar_blind(2) [THEN opt_of_blind, folded opt_hash_def]
  scalar_blind(3) [THEN opt_of_blind, folded opt_text_def] scalar_blind(6) [THEN opt_of_blind, folded opt_u_def]
  scalar_blind(7) [THEN opt_of_blind, folded opt_n_def]

lemma head_blind [blind_simps]: "blind head_of"
  by (rule blindI) (simp add: head_of_def blind_simps cong: if_cong)

lemma ref_blind [blind_simps]: "blind ref_of"
  by (rule blindI) (simp add: ref_of_def blind_simps cong: if_cong)

lemma drift_blind [blind_simps]: "blind drift_of"
  by (rule blindI) (simp add: drift_of_def blind_simps cong: if_cong)

lemma run_blind [blind_simps]: "blind run_of"
  by (rule blindI) (simp add: run_of_def blind_simps cong: if_cong)

lemma result_blind [blind_simps]: "blind result_of"
  by (rule blindI) (simp add: result_of_def blind_simps cong: if_cong)

lemma basis_blind [blind_simps]: "blind basis_of"
  by (rule blindI) (simp add: basis_of_def blind_simps cong: if_cong)

lemma intent_blind [blind_simps]: "blind intent_of"
  by (rule blindI) (simp add: intent_of_def blind_simps cong: if_cong)

lemma review_blind [blind_simps]: "blind review_of"
  by (rule blindI) (simp add: review_of_def blind_simps cong: if_cong)

lemma alert_blind [blind_simps]: "blind alert_of"
  by (rule blindI) (simp add: alert_of_def blind_simps cong: if_cong)

lemma clearance_body_blind [blind_simps]: "blind clearance_body_of"
  by (rule blindI) (simp add: clearance_body_of_def blind_simps cong: if_cong)

text \<open>An envelope keeps its body; a check keeps the envelope of its clearance.\<close>

abbreviation canon_signed :: "Signed \<Rightarrow> Signed" where
  "canon_signed \<equiv> sd_body_update canon"

lemma fld_canon_value: "fld (canon_members ms) k Inr = map_ok canon (fld ms k Inr)"
  by (cases "map_of ms k") (simp_all add: fld_def field_def map_of_canon)

lemma map_ok_sbind: "map_ok f (sbind r g) = sbind r (\<lambda>x. map_ok f (g x))"
  by (cases r) simp_all

lemma signed_canon: "signed_of cr (canon v) = map_ok canon_signed (signed_of cr v)"
  by (simp add: signed_of_def blind_simps fld_canon_value map_ok_sbind)

lemma clearance_signed_canon: "clearance_signed_of cr (canon v) = map_ok canon_signed (clearance_signed_of cr v)"
  by (simp add: clearance_signed_of_def signed_canon map_ok_sbind blindD [OF clearance_body_blind])

abbreviation canon_check :: "Check \<Rightarrow> Check" where
  "canon_check \<equiv> ck_clearance_update (map_option canon_signed)"

lemma opt_of_canon: "(\<And>v. p (canon v) = map_ok f (p v)) \<Longrightarrow> opt_of p (canon v) = map_ok (map_option f) (opt_of p v)"
  by (simp add: opt_of_def map_ok_sbind)

lemma fld_map_ok: "fld ms k (\<lambda>v. map_ok f (p v)) = map_ok f (fld ms k p)"
  by (simp add: fld_def map_ok_sbind)

lemma check_canon: "check_of cr (canon v) = map_ok canon_check (check_of cr v)"
  by (simp add: check_of_def blind_simps fld_canon_any [where p = "opt_of (clearance_signed_of cr)"]
      opt_of_canon [where p = "clearance_signed_of cr" and f = canon_signed, OF clearance_signed_canon] fld_map_ok map_ok_sbind)

section \<open>A record that was read is the one that was written\<close>

named_theorems codec_back \<open>what is read from a serialized record\<close>

lemma ustr_back: "ustr a = ustr b \<Longrightarrow> a = b"
  by (metis digits_val_dec ustr_def Value.inject(3))

lemma num_back: "num a = num b \<Longrightarrow> a = b"
  by (metis digits_val_dec num_def Value.inject(2))

lemma scalar_back [codec_back]:
  "u_of (ustr n) = Inr m \<Longrightarrow> m = n" "n_of (num n) = Inr m \<Longrightarrow> m = n"
  by (auto dest: ustr_back num_back)

lemma opt_back: "opt_of p (opt_value f x) = Inr y \<Longrightarrow> (\<And>a b. p (f a) = Inr b \<Longrightarrow> b = a) \<Longrightarrow> (\<And>a. f a \<noteq> Null) \<Longrightarrow> y = x"
  by (cases x) (auto simp: opt_of_def)

lemma opt_scalar_back [codec_back]:
  "opt_u (opt_value ustr x) = Inr a \<Longrightarrow> a = x" "opt_n (opt_value num x) = Inr a \<Longrightarrow> a = x"
  "opt_id (opt_value Str z) = Inr b \<Longrightarrow> b = z" "opt_hash (opt_value Str z) = Inr b \<Longrightarrow> b = z"
  "opt_text (opt_value Str z) = Inr b \<Longrightarrow> b = z"
  unfolding opt_u_def opt_n_def opt_id_def opt_hash_def opt_text_def
  by (erule opt_back; auto dest: ustr_back num_back simp: ustr_def num_def)+

lemma list_back: "mapR p (map f xs) = Inr ys \<Longrightarrow> (\<And>a b. p (f a) = Inr b \<Longrightarrow> b = a) \<Longrightarrow> ys = xs"
  by (induction xs arbitrary: ys) auto

lemma id_list_back [codec_back]: "id_list (Arr (map Str xs)) = Inr ys \<Longrightarrow> ys = xs"
  by (simp add: inj_map_eq_map inj_def)

lemma map_Str_inject [simp]: "map Str xs = map Str ys \<longleftrightarrow> xs = ys"
  by (simp add: inj_map_eq_map inj_def)

lemma as_str_inject [simp]:
  "drift_state_as_str a = drift_state_as_str b \<longleftrightarrow> a = b" "run_state_as_str c = run_state_as_str c' \<longleftrightarrow> c = c'"
  "verdict_as_str e = verdict_as_str e' \<longleftrightarrow> e = e'" "check_state_as_str g = check_state_as_str g' \<longleftrightarrow> g = g'"
  "review_state_as_str i = review_state_as_str i' \<longleftrightarrow> i = i'" "level_as_str k = level_as_str k' \<longleftrightarrow> k = k'"
  "alert_state_as_str m = alert_state_as_str m' \<longleftrightarrow> m = m'" "detector_as_str n = detector_as_str n' \<longleftrightarrow> n = n'"
  subgoal by (cases a; cases b) simp_all
  subgoal by (cases c; cases c') simp_all
  subgoal by (cases e; cases e') simp_all
  subgoal by (cases g; cases g') simp_all
  subgoal by (cases i; cases i') simp_all
  subgoal by (cases k; cases k') simp_all
  subgoal by (cases m; cases m') simp_all
  subgoal by (cases n; cases n') simp_all
  done

lemma head_back [codec_back]: "head_of (head_value x) = Inr y \<Longrightarrow> y = x"
  by (cases x) (auto simp: head_of_def head_value_def fld_iff dest!: codec_back)

lemma ref_back [codec_back]: "ref_of (ref_value x) = Inr y \<Longrightarrow> y = x"
  by (cases x) (auto simp: ref_of_def ref_value_def fld_iff dest!: codec_back)

lemma drift_back [codec_back]: "drift_of (drift_value x) = Inr y \<Longrightarrow> y = x"
  by (cases x) (auto simp: drift_of_def drift_value_def fld_iff dest!: codec_back)

lemma run_back [codec_back]: "run_of (run_value x) = Inr y \<Longrightarrow> y = x"
  by (cases x, simp add: run_of_def run_value_def fld_some closed_eval sbind_eq_Inr) (auto dest!: codec_back)

lemma ref_list_back [codec_back]: "mapR ref_of (map ref_value xs) = Inr ys \<Longrightarrow> ys = xs"
  by (rule list_back) (auto dest: ref_back)

lemma result_back [codec_back]: "result_of (result_value x) = Inr y \<Longrightarrow> y = x"
  by (cases x, simp add: result_of_def result_value_def fld_some closed_eval sbind_eq_Inr) (auto dest!: codec_back)

lemma result_list_back [codec_back]: "mapR result_of (map result_value xs) = Inr ys \<Longrightarrow> ys = xs"
  by (rule list_back) (auto dest: result_back)

lemma basis_back [codec_back]: "basis_of (basis_value x) = Inr y \<Longrightarrow> y = x"
  by (cases x, simp add: basis_of_def basis_value_def fld_some closed_eval sbind_eq_Inr)

lemma basis_opt_back [codec_back]: "opt_of basis_of (opt_value basis_value x) = Inr y \<Longrightarrow> y = x"
  by (rule opt_back) (auto dest: basis_back)

lemma intent_back [codec_back]: "intent_of (intent_value x) = Inr y \<Longrightarrow> y = x"
  by (cases x) (auto simp: intent_of_def intent_value_def fld_some closed_eval sbind_eq_Inr)

lemma review_back [codec_back]: "review_of (review_value x) = Inr y \<Longrightarrow> y = x"
  by (cases x, simp add: review_of_def review_value_def fld_some closed_eval sbind_eq_Inr) (auto dest!: codec_back)

lemma alert_back [codec_back]: "alert_of (alert_value x) = Inr y \<Longrightarrow> y = x"
  by (cases x, simp add: alert_of_def alert_value_def fld_some closed_eval sbind_eq_Inr) (auto dest!: codec_back)

lemma signed_back [codec_back]: "signed_of cr (signed_value x) = Inr y \<Longrightarrow> y = x"
  by (cases x, simp add: signed_of_def signed_value_def fld_some closed_eval sbind_eq_Inr)

lemma clearance_signed_back: "clearance_signed_of cr (signed_value x) = Inr y \<Longrightarrow> y = x"
  by (auto simp: clearance_signed_of_def dest: signed_back)

lemma clearance_opt_back [codec_back]: "opt_of (clearance_signed_of cr) (opt_value signed_value x) = Inr y \<Longrightarrow> y = x"
  by (rule opt_back) (auto dest: clearance_signed_back)

lemma check_back [codec_back]: "check_of cr (check_value x) = Inr y \<Longrightarrow> y = x"
  by (cases x, simp add: check_of_def check_value_def fld_some closed_eval sbind_eq_Inr) (auto dest!: codec_back)

section \<open>Stored versions\<close>

lemma number_dec [simp]: "number (dec n) = Inr (dec n, [])"
proof -
  obtain c cs where c: "dec n = c # cs" by (cases "dec n") auto
  have digits: "list_all is_digit (c # cs)" using dec_digits [of n] c by simp
  then have all: "takeWhile is_digit (c # cs) = c # cs" "dropWhile is_digit (c # cs) = []"
    by (auto simp: takeWhile_eq_all_conv dropWhile_eq_Nil_conv list_all_iff)
  have zero: "c = CHR ''0'' \<Longrightarrow> cs = []" using dec_hd_zero [of n] c by (cases "n = 0") simp_all
  have "c \<noteq> CHR ''-''" using digits digit_not by simp
  then have "num_sign (dec n) = ([], dec n)" by (simp add: num_sign_def c)
  moreover have "num_int (dec n) = Inr (dec n, [])"
    using all digits zero unfolding c by (auto simp: num_int_def num_digits_def)
  ultimately show ?thesis by (simp add: number_def num_frac_def num_exp_def)
qed

lemma shape_scalars [simp]: "shape_ok (num n)" "shape_ok (ustr n)" "shape_ok (opt_value Str z)"
  "shape_ok (opt_value ustr a)" "shape_ok (opt_value num b)" "shape_ok (Arr (map Str xs))"
  by (simp_all add: num_def ustr_def opt_value_def list_all_iff split: option.splits)

lemma shape_head [simp]: "shape_ok (head_value x)" by (simp add: head_value_def)
lemma shape_ref [simp]: "shape_ok (ref_value x)" by (simp add: ref_value_def)
lemma shape_drift [simp]: "shape_ok (drift_value x)" by (simp add: drift_value_def)
lemma shape_run [simp]: "shape_ok (run_value x)" by (simp add: run_value_def)
lemma shape_result [simp]: "shape_ok (result_value x)" by (simp add: result_value_def list_all_iff)
lemma shape_basis [simp]: "shape_ok (basis_value x)" by (simp add: basis_value_def)
lemma shape_intent [simp]: "shape_ok (intent_value x)" by (simp add: intent_value_def list_all_iff)
lemma shape_review [simp]: "shape_ok (review_value x)"
  by (cases "rv_basis x") (simp_all add: review_value_def)
lemma shape_alert [simp]: "shape_ok (alert_value x)" by (simp add: alert_value_def)
lemma shape_check: "pred_option (\<lambda>e. shape_ok (sd_body e)) (ck_clearance x) \<Longrightarrow> shape_ok (check_value x)"
  by (cases "ck_clearance x") (simp_all add: check_value_def signed_value_def list_all_iff)

lemma admit_body_Inr: "admit_body msg p body = Inr x \<longleftrightarrow> (\<exists>v. parse body reply_limits = Inr v \<and> p v = Inr x)"
  by (auto simp: admit_body_def read_body_def split: sum.splits)

lemma admitted:
  assumes "admit_body msg p (jcs v) = Inr x" and "shape_ok v" and "\<And>v. p (canon v) = map_ok f (p v)"
    and "\<And>y. p v = Inr y \<Longrightarrow> y = z"
  shows "x = f z"
proof -
  obtain w where "parse (jcs v) reply_limits = Inr w" "p w = Inr x"
    using assms(1) by (auto simp: admit_body_Inr)
  moreover then have "w = canon v" using parse_back assms(2) by blast
  ultimately obtain y where "p v = Inr y" "x = f y" using assms(3) [of v] by (cases "p v") auto
  then show ?thesis using assms(4) by blast
qed

lemma map_ok_id [simp]: "map_ok (\<lambda>x. x) r = r"
  by (cases r) simp_all

text \<open>What the store admits of a serialized record is that record.\<close>

lemma run_admitted: "admit_body msg run_of (jcs (run_value r)) = Inr x \<Longrightarrow> x = r"
  by (erule admitted [where f = "\<lambda>x. x"]) (auto dest: run_back simp: blindD [OF run_blind])

lemma review_admitted: "admit_body msg review_of (jcs (review_value r)) = Inr x \<Longrightarrow> x = r"
  by (erule admitted [where f = "\<lambda>x. x"]) (auto dest: review_back simp: blindD [OF review_blind])

lemma alert_admitted: "admit_body msg alert_of (jcs (alert_value r)) = Inr x \<Longrightarrow> x = r"
  by (erule admitted [where f = "\<lambda>x. x"]) (auto dest: alert_back simp: blindD [OF alert_blind])

lemma check_admitted: "admit_body msg (check_of cr) (jcs (check_value c)) = Inr x \<Longrightarrow>
    pred_option (\<lambda>e. shape_ok (sd_body e)) (ck_clearance c) \<Longrightarrow> x = canon_check c"
  by (erule admitted [where f = canon_check]) (auto dest: check_back simp: check_canon shape_check)

end
