(* ===== verification/Daemon.thy ===== *)
theory Daemon
  imports Gates Readback
begin

text \<open>
  The core of the daemon (\<open>daemon.rs\<close>): the method tables, the role gate, the reply envelope, the
  state of the daemon, its loaders and counters, the token bucket and \<open>mutate\<close>, the only way to a
  durable write. An \<open>unwrap\<close> of an absent row would panic; it is a failing step of the transaction
  here, and the rows it is applied to are listed from the same store.
\<close>

section \<open>Methods and roles\<close>

definition METHODS :: "string list" where
  "METHODS = [''system.status'', ''system.drain'', ''policy.activate'', ''runs.open'', ''runs.get'',
     ''runs.control'', ''observations.append'', ''checks.create'', ''checks.get'', ''checks.cancel'',
     ''effects.record'', ''reviews.list'', ''reviews.get'', ''reviews.claim'', ''reviews.resolve'',
     ''alerts.list'', ''alerts.resolve'', ''audit.evaluate'', ''audit.sample'', ''events.read'',
     ''bundle.export'', ''metrics.get'', ''monitor.evaluate'']"

definition PUBLIC_METHODS :: "string list" where
  "PUBLIC_METHODS = [''system.status'', ''system.drain'', ''policy.activate'', ''runs.open'', ''runs.get'',
     ''runs.control'', ''observations.append'', ''checks.create'', ''checks.get'', ''checks.cancel'',
     ''effects.record'', ''reviews.list'', ''reviews.get'', ''reviews.claim'', ''reviews.resolve'',
     ''alerts.list'', ''alerts.resolve'', ''audit.evaluate'', ''audit.sample'', ''events.read'',
     ''bundle.export'', ''metrics.get'', ''server.info'']"

definition is_mutation :: "string \<Rightarrow> bool" where
  "is_mutation m \<longleftrightarrow> m \<in> set [''system.drain'', ''policy.activate'', ''runs.open'', ''runs.control'',
     ''observations.append'', ''checks.create'', ''checks.cancel'', ''effects.record'', ''reviews.claim'',
     ''reviews.resolve'', ''alerts.resolve'', ''audit.evaluate'', ''bundle.export'']"

definition draining_allowed :: "string \<Rightarrow> bool" where
  "draining_allowed m \<longleftrightarrow> m \<in> set [''system.status'', ''runs.get'', ''checks.get'', ''reviews.list'',
     ''reviews.get'', ''alerts.list'', ''events.read'', ''metrics.get'', ''runs.control'', ''checks.cancel'',
     ''effects.record'', ''reviews.resolve'', ''alerts.resolve'', ''system.drain'']"

definition role_allowed :: "string list \<Rightarrow> string \<Rightarrow> bool" where
  "role_allowed roles m =
    (let has = (\<lambda>r. r \<in> set roles) in
     if m = ''system.status'' then True
     else if m \<in> set [''system.drain'', ''policy.activate''] then has ''operator''
     else if m \<in> set [''runs.open'', ''observations.append'', ''checks.create'', ''checks.cancel'',
       ''effects.record''] then has ''runtime''
     else if m \<in> set [''runs.get'', ''checks.get'']
     then has ''operator'' \<or> has ''auditor'' \<or> has ''reviewer'' \<or> has ''runtime''
     else if m \<in> set [''reviews.list'', ''reviews.get'', ''alerts.list'']
     then has ''reviewer'' \<or> has ''operator'' \<or> has ''auditor''
     else if m \<in> set [''reviews.claim'', ''reviews.resolve'', ''alerts.resolve''] then has ''reviewer''
     else if m = ''runs.control'' then has ''operator'' \<or> has ''runtime''
     else if m \<in> set [''events.read'', ''metrics.get''] then has ''operator'' \<or> has ''auditor''
     else if m \<in> set [''audit.evaluate'', ''audit.sample'', ''bundle.export''] then has ''auditor''
     else False)"

section \<open>Replies\<close>

definition retry_after_ms :: nat where "retry_after_ms = 1000"

text \<open>\<open>Fault::to_value\<close>.\<close>

definition fault_value :: "Fault \<Rightarrow> Value" where
  "fault_value e = Obj [
     (''code'', Str (code_as_str (fault_code e))),
     (''message'', Str (fault_message e)),
     (''retryable'', Bool (code_retryable (fault_code e))),
     (''retry_after_ms'', if code_retryable (fault_code e) then num retry_after_ms else Null)]"

definition reply_envelope :: "string \<Rightarrow> Value R \<Rightarrow> Value" where
  "reply_envelope req_id r = (case r of
     Inr result \<Rightarrow> Obj [(''v'', num 1), (''id'', Str req_id), (''ok'', Bool True), (''result'', result)]
   | Inl e \<Rightarrow> Obj [(''v'', num 1), (''id'', Str req_id), (''ok'', Bool False), (''error'', fault_value e)])"

text \<open>The outcome of a mutation: committed with a result, committed with a fault, rolled back.\<close>

datatype MOut = MOk Value | MFault Fault | MRejected Fault

fun stage_result :: "MOut \<Rightarrow> Value R" where
  "stage_result (MOk v) = Inr v"
| "stage_result (MFault e) = Inl e"
| "stage_result (MRejected e) = Inl e"

text \<open>The error of a handler: a fault, or the simulated crash.\<close>

datatype HErr = HReject Fault | HCrash

section \<open>State\<close>

record Daemon =
  dm_store :: Store
  dm_cfg :: Config
  dm_trust :: Trust
  dm_sk :: string
  dm_objects :: "(string \<times> string \<times> string \<times> string) list option"
  dm_pool :: bool
  dm_host :: Host
  dm_now :: nat
  dm_crash_before_commit :: bool
  dm_crash_after_commit :: bool
  dm_audit_fail :: bool
  dm_worker_mismatch :: bool
  dm_notices :: "string list"
  dm_commit_ms :: nat
  dm_audit_write_ms :: "nat list"
  dm_jobs :: "Value list"
  dm_rate :: "(string \<times> nat \<times> nat) list"
  dm_cur_idem :: "(string \<times> string \<times> string \<times> string) option"

definition emit_ctx :: "Daemon \<Rightarrow> EmitCtx" where
  "emit_ctx dm = \<lparr>cx_tenant = cf_tenant (dm_cfg dm), cx_epoch = ho_epoch (dm_host dm),
     cx_boot = ho_boot (dm_host dm), cx_key_id = cf_signer_key_id (dm_cfg dm),
     cx_key_epoch = cf_signer_key_epoch (dm_cfg dm), cx_sk = dm_sk dm\<rparr>"

definition set_host :: "HostState \<Rightarrow> string option \<Rightarrow> Daemon \<Rightarrow> Daemon" where
  "set_host hs reason dm = dm\<lparr>dm_host := (dm_host dm)\<lparr>ho_state := hs, ho_reason := reason\<rparr>\<rparr>"

text \<open>An event of the daemon itself, and the new version of an entity that it records.\<close>

definition watchd_event :: "Crypto \<Rightarrow> Daemon \<Rightarrow> nat \<Rightarrow> string \<Rightarrow> Value \<Rightarrow> string list \<Rightarrow> (nat \<times> string) T" where
  "watchd_event cr dm now kind v causes = emit cr (emit_ctx dm) now ''watchd'' ''watchd'' kind v causes"

definition watchd_entity ::
  "Crypto \<Rightarrow> Daemon \<Rightarrow> nat \<Rightarrow> string \<Rightarrow> string \<Rightarrow> string \<Rightarrow> Value \<Rightarrow> string list \<Rightarrow> (nat \<times> string) T" where
  "watchd_entity cr dm now kind table eid v causes =
     emit_entity cr (emit_ctx dm) now ''watchd'' ''watchd'' kind table eid v causes"

definition unwrap :: "'a option \<Rightarrow> 'a T" where
  "unwrap x = (case x of None \<Rightarrow> fail (audit_unavailable ''panic'') | Some y \<Rightarrow> ret y)"

section \<open>Loaders\<close>

definition load_with :: "string \<Rightarrow> (Value \<Rightarrow> 'a R) \<Rightarrow> string option \<Rightarrow> 'a option R" where
  "load_with msg p body = (case body of
     None \<Rightarrow> Inr None | Some b \<Rightarrow> sbind (read_body msg p b) (\<lambda>x. Inr (Some x)))"

definition load_run :: "string \<Rightarrow> Store \<Rightarrow> Run option R" where
  "load_run eid st = load_with ''run body parse'' run_of (map_option rr_body (map_of (st_runs st) eid))"

definition load_check :: "Crypto \<Rightarrow> string \<Rightarrow> Store \<Rightarrow> Check option R" where
  "load_check cr eid st =
     load_with ''check body parse'' (check_of cr) (map_option cr_body (map_of (st_checks st) eid))"

definition load_review :: "string \<Rightarrow> Store \<Rightarrow> Review option R" where
  "load_review eid st =
     load_with ''review body parse'' review_of (map_option vr_body (map_of (st_reviews st) eid))"

definition load_alert :: "string \<Rightarrow> Store \<Rightarrow> Alert option R" where
  "load_alert eid st =
     load_with ''alert body parse'' alert_of (map_option lr_body (map_of (st_alerts st) eid))"

text \<open>\<open>policy(&signed(&v)?.body)\<close>, with the digest and the envelope.\<close>

definition read_policy :: "Crypto \<Rightarrow> string \<Rightarrow> (Signed \<times> Policy) R" where
  "read_policy cr env = sbind (read_body ''policy parse'' (signed_of cr) env) (\<lambda>sv.
     sbind (policy_of (sd_body sv)) (\<lambda>p. Inr (sv, p)))"

definition active_policy :: "Crypto \<Rightarrow> Store \<Rightarrow> (string \<times> Policy) option R" where
  "active_policy cr st = (case policy_latest st of
     None \<Rightarrow> Inr None
   | Some env \<Rightarrow> sbind (read_policy cr env) (\<lambda>(sv, p). Inr (Some (sd_digest sv, p))))"

definition policy_for_run :: "Crypto \<Rightarrow> string \<Rightarrow> Store \<Rightarrow> Policy option R" where
  "policy_for_run cr run_id st = sbind (load_run run_id st) (\<lambda>r. case r of
     None \<Rightarrow> Inr None
   | Some run \<Rightarrow> (case policy_get (rn_policy run) st of
       None \<Rightarrow> Inr None
     | Some b \<Rightarrow> sbind (read_policy cr b) (\<lambda>(_, p). Inr (Some p))))"

definition read_observation :: "Crypto \<Rightarrow> string \<Rightarrow> (Signed \<times> ObservationBody) R" where
  "read_observation cr env = sbind (read_body ''obs parse'' (signed_of cr) env) (\<lambda>sv.
     sbind (observation_body_of (sd_body sv)) (\<lambda>b. Inr (sv, b)))"

definition observation_by_ref :: "Crypto \<Rightarrow> Ref \<Rightarrow> Store \<Rightarrow> (Signed \<times> ObservationBody) option R" where
  "observation_by_ref cr r st =
    (case find (\<lambda>row. or_source row = rf_source r \<and> or_epoch row = rf_epoch r \<and> or_seq row = rf_seq r \<and>
        or_digest row = rf_hash r) (st_observations st) of
       None \<Rightarrow> Inr None
     | Some row \<Rightarrow> sbind (read_observation cr (or_envelope row)) (\<lambda>x. Inr (Some x)))"

definition entity_ids_by_state :: "string \<Rightarrow> string list \<Rightarrow> Store \<Rightarrow> string list R" where
  "entity_ids_by_state table states st =
    (if table = ''runs'' then Inr (select_ids (\<lambda>r. rr_state r \<in> set states) (st_runs st))
     else if table = ''reviews'' then Inr (select_ids (\<lambda>r. vr_state r \<in> set states) (st_reviews st))
     else if table = ''checks'' then Inr (select_ids (\<lambda>r. cr_state r \<in> set states) (st_checks st))
     else Inl (audit_unavailable ''bad entity table''))"

section \<open>Counters\<close>

text \<open>
  \<open>CAST(value AS INTEGER)\<close>: the digits at the front. The counters are written by \<open>bump\<close> alone,
  as decimal digits.
\<close>

definition cast_integer :: "string \<Rightarrow> nat" where
  "cast_integer s = digits_val (takeWhile is_digit s)"

definition counter_key :: "string \<Rightarrow> string \<Rightarrow> string \<Rightarrow> string" where
  "counter_key name kind outcome = ''ctr:'' @ name @ ''|'' @ kind @ ''|'' @ outcome"

definition counter :: "string \<Rightarrow> Store \<Rightarrow> nat" where
  "counter k st = (case meta_get st k of None \<Rightarrow> 0 | Some v \<Rightarrow> cast_integer v)"

definition bump :: "string \<Rightarrow> string \<Rightarrow> string \<Rightarrow> nat \<Rightarrow> unit T" where
  "bump name kind outcome n =
     tbind (look (counter (counter_key name kind outcome))) (\<lambda>cur.
       exec_ok (tx_meta_set (counter_key name kind outcome) (dec (wadd64 cur n))))"

section \<open>The token bucket\<close>

definition rate_per_sec :: nat where "rate_per_sec = 100"
definition rate_burst :: nat where "rate_burst = 100"

text \<open>Tokens in thousandths and the time of the last refill; a millisecond refills \<open>rate_per_sec\<close> of them.\<close>

definition bucket_step :: "nat \<Rightarrow> nat \<times> nat \<Rightarrow> bool \<times> (nat \<times> nat)" where
  "bucket_step now e =
    (let elapsed = now - snd e;
         refill = wmul64 elapsed rate_per_sec;
         tokens = min (wadd64 (fst e) refill) (rate_burst * 1000)
     in if tokens \<ge> 1000 then (True, (tokens - 1000, now)) else (False, (tokens, now)))"

definition rate_ok :: "string \<Rightarrow> Daemon \<Rightarrow> bool \<times> Daemon" where
  "rate_ok who dm =
    (let e = (case map_of (dm_rate dm) who of None \<Rightarrow> (rate_burst * 1000, dm_now dm) | Some e \<Rightarrow> e);
         (ok, e') = bucket_step (dm_now dm) e
     in (ok, dm\<lparr>dm_rate := put_assoc who e' (dm_rate dm)\<rparr>))"

section \<open>Objects\<close>

text \<open>
  The object store (\<open>objects.rs\<close>), without its encryption: a file for each digest, which holds the
  tenant, the kind and the plaintext. A file written again is replaced, and a file of another tenant
  or kind is not read. The authenticated encryption returns what was sealed.
\<close>

definition object_put :: "string \<Rightarrow> string \<Rightarrow> string \<Rightarrow> string \<Rightarrow> Daemon \<Rightarrow> Daemon" where
  "object_put tenant kind digest plaintext dm =
     dm\<lparr>dm_objects := map_option (put_assoc digest (tenant, kind, plaintext)) (dm_objects dm)\<rparr>"

definition object_get ::
  "(string \<times> string \<times> string \<times> string) list \<Rightarrow> string \<Rightarrow> string \<Rightarrow> string \<Rightarrow> string R" where
  "object_get files tenant kind digest = (case map_of files digest of
     None \<Rightarrow> Inl (new_fault ArtifactUnavailable ''object missing'')
   | Some (t, k, plaintext) \<Rightarrow>
       if t \<noteq> tenant \<or> k \<noteq> kind then Inl (new_fault ArtifactUnavailable ''object header mismatch'')
       else Inr plaintext)"

section \<open>Mutations\<close>

text \<open>
  The closure of a mutation: a computation in the transaction, which may also change the daemon;
  that change is not undone by a rollback. \<open>of_tx\<close> is a closure that leaves the daemon alone.
\<close>

type_synonym Mutation = "Daemon \<Rightarrow> nat \<Rightarrow> Tx \<Rightarrow> (MOut \<times> Tx) R \<times> Daemon"

definition of_tx :: "(Daemon \<Rightarrow> nat \<Rightarrow> MOut T) \<Rightarrow> Mutation" where
  "of_tx f = (\<lambda>dm now tx. (f dm now tx, dm))"

definition begin_tx :: "Store \<Rightarrow> Tx" where
  "begin_tx st = \<lparr>tx_store = st, tx_emitted = []\<rparr>"

text \<open>The idempotency record of the request in flight rides the same transaction.\<close>

definition idem_write :: "Daemon \<Rightarrow> MOut \<Rightarrow> Store \<Rightarrow> Store R" where
  "idem_write dm stage st = (case dm_cur_idem dm of
     None \<Rightarrow> Inr st
   | Some (pid, rid, m, ph) \<Rightarrow>
       tx_idem_put pid rid m ph (jcs (reply_envelope rid (stage_result stage))) st)"

text \<open>
  The reservoir of commit latencies: the last 256 of them. What the commits take is the field
  \<open>dm_commit_ms\<close>, set from outside.
\<close>

definition latency :: "Daemon \<Rightarrow> Daemon" where
  "latency dm = (let xs = dm_audit_write_ms dm @ [dm_commit_ms dm] in
     dm\<lparr>dm_audit_write_ms := if length xs > 256 then tl xs else xs\<rparr>)"

text \<open>\<open>None\<close> is the simulated crash: no reply. The engine's own commit does not fail here.\<close>

definition mutate :: "nat \<Rightarrow> Mutation \<Rightarrow> Daemon \<Rightarrow> MOut option \<times> Daemon" where
  "mutate now f dm =
    (if dm_audit_fail dm then (None, set_host HsFaulted (Some ''audit write failure'') dm)
     else case f dm now (begin_tx (dm_store dm)) of
       (Inl e, dm') \<Rightarrow> (Some (MRejected e), dm')
     | (Inr (stage, tx), dm') \<Rightarrow>
         (case idem_write dm' stage (tx_store tx) of
            Inl e \<Rightarrow> (Some (MRejected e), dm')
          | Inr st \<Rightarrow>
              if dm_crash_before_commit dm' then (None, dm'\<lparr>dm_crash_before_commit := False\<rparr>)
              else (let dm'' = latency (dm'\<lparr>dm_store := st\<rparr>) in
                if dm_crash_after_commit dm' then (None, dm''\<lparr>dm_crash_after_commit := False\<rparr>)
                else (Some stage, dm''))))"

definition mutate_h :: "nat \<Rightarrow> Mutation \<Rightarrow> Daemon \<Rightarrow> (HErr + MOut) \<times> Daemon" where
  "mutate_h now f dm = (case mutate now f dm of
     (None, dm') \<Rightarrow> (Inl HCrash, dm') | (Some stage, dm') \<Rightarrow> (Inr stage, dm'))"

text \<open>A timer's own mutation: the outcome is dropped.\<close>

definition timer :: "nat \<Rightarrow> (Daemon \<Rightarrow> nat \<Rightarrow> unit T) \<Rightarrow> Daemon \<Rightarrow> Daemon" where
  "timer now f dm = snd (mutate now (of_tx (\<lambda>dm now. thn (f dm now) (ret (MOk Null)))) dm)"

end
