(* ===== verification/Objects.thy ===== *)
theory Objects
  imports Daemon
begin

text \<open>
  The object store on disk (\<open>objects.rs\<close>): a file for each digest, whose header is checked and whose
  ciphertext is opened when the object is read. The authenticated encryption is a parameter. The
  files refine the association list that the daemon's model keeps (\<open>object_put\<close>, \<open>object_get\<close>): an
  object that was put is read back under its own tenant and kind, and under no other.
\<close>

section \<open>The store\<close>

text \<open>\<open>XChaCha20Poly1305\<close>: key, nonce, associated data and message; \<open>None\<close> is its error.\<close>

record Aead =
  ae_encrypt :: "string \<Rightarrow> string \<Rightarrow> string \<Rightarrow> string \<Rightarrow> string option"
  ae_decrypt :: "string \<Rightarrow> string \<Rightarrow> string \<Rightarrow> string \<Rightarrow> string option"

record ObjectStore =
  os_dir :: string
  os_key_id :: string
  os_key :: string

definition aad :: "string \<Rightarrow> string \<Rightarrow> string \<Rightarrow> string \<Rightarrow> string" where
  "aad tenant key_id kind digest = jcs (Obj [
     (''v'', num 1),
     (''tenant'', Str tenant),
     (''key_id'', Str key_id),
     (''kind'', Str kind),
     (''digest'', Str digest)])"

definition shard_path :: "ObjectStore \<Rightarrow> string \<Rightarrow> string" where
  "shard_path os digest = os_dir os @ ''/'' @ take 2 digest"

definition object_path :: "ObjectStore \<Rightarrow> string \<Rightarrow> string" where
  "object_path os digest = shard_path os digest @ ''/'' @ digest"

definition temp_path :: "ObjectStore \<Rightarrow> string \<Rightarrow> string" where
  "temp_path os digest = shard_path os digest @ ''/.'' @ digest @ ''.tmp''"

definition object_fail :: "string \<Rightarrow> 'a R" where
  "object_fail msg = Inl (new_fault ArtifactUnavailable msg)"

definition object_file :: "Crypto \<Rightarrow> ObjectStore \<Rightarrow> string \<Rightarrow> string \<Rightarrow> string \<Rightarrow> string \<Rightarrow> string \<Rightarrow> Value" where
  "object_file cr os tenant kind digest nonce ct = Obj [
     (''v'', num 1),
     (''tenant'', Str tenant),
     (''key_id'', Str (os_key_id os)),
     (''kind'', Str kind),
     (''digest'', Str digest),
     (''nonce'', Str (b64_encode cr nonce)),
     (''ciphertext'', Str (b64_encode cr ct))]"

text \<open>
  \<open>put\<close>: the file is written beside its place, which must be free, and renamed over it. The nonce is
  drawn by the caller here. An error of the file system is not modelled.
\<close>

definition store_put ::
  "Crypto \<Rightarrow> Aead \<Rightarrow> ObjectStore \<Rightarrow> string \<Rightarrow> string \<Rightarrow> string \<Rightarrow> string \<Rightarrow> string \<Rightarrow> (string \<times> string) list \<Rightarrow>
   (string \<times> (string \<times> string) list) R" where
  "store_put cr ae os nonce tenant kind digest plaintext files =
    (case ae_encrypt ae (os_key os) nonce (aad tenant (os_key_id os) kind digest) plaintext of
       None \<Rightarrow> object_fail ''object encryption failed''
     | Some ct \<Rightarrow>
         if temp_path os digest \<in> fst ` set files then object_fail ''object temp''
         else Inr (object_path os digest,
           put_assoc (object_path os digest) (jcs (object_file cr os tenant kind digest nonce ct)) files))"

definition file_field :: "Value \<Rightarrow> string \<Rightarrow> Value R" where
  "file_field v k = ok_or (value_get v k) (new_fault ArtifactUnavailable ''object field'')"

definition file_text :: "Value \<Rightarrow> string \<Rightarrow> string \<Rightarrow> string R" where
  "file_text v k msg = sbind (file_field v k) (\<lambda>x. ok_or (as_str x) (new_fault ArtifactUnavailable msg))"

definition header_matches :: "ObjectStore \<Rightarrow> string \<Rightarrow> string \<Rightarrow> string \<Rightarrow> Value \<Rightarrow> bool R" where
  "header_matches os tenant kind digest v =
     sbind (file_field v ''tenant'') (\<lambda>t. if as_str t \<noteq> Some tenant then Inr False else
     sbind (file_field v ''key_id'') (\<lambda>t. if as_str t \<noteq> Some (os_key_id os) then Inr False else
     sbind (file_field v ''kind'') (\<lambda>t. if as_str t \<noteq> Some kind then Inr False else
     sbind (file_field v ''digest'') (\<lambda>t. Inr (as_str t = Some digest)))))"

definition store_get ::
  "Crypto \<Rightarrow> Aead \<Rightarrow> ObjectStore \<Rightarrow> string \<Rightarrow> string \<Rightarrow> string \<Rightarrow> (string \<times> string) list \<Rightarrow> string R" where
  "store_get cr ae os tenant kind digest files =
    (case map_of files (object_path os digest) of None \<Rightarrow> object_fail ''object missing'' | Some bs \<Rightarrow>
     case parse bs bundle_limits of Inl _ \<Rightarrow> object_fail ''object parse'' | Inr v \<Rightarrow>
     if as_obj v = None then object_fail ''object shape'' else
     sbind (file_field v ''v'') (\<lambda>n. if as_int n \<noteq> Some 1 then object_fail ''object v'' else
     sbind (header_matches os tenant kind digest v) (\<lambda>ok. if \<not> ok then object_fail ''object header mismatch'' else
     sbind (file_text v ''nonce'' ''nonce'') (\<lambda>n.
     sbind (case b64u_decode cr n of
         None \<Rightarrow> object_fail ''nonce decode''
       | Some b \<Rightarrow> if length b \<noteq> 24 then object_fail ''nonce decode'' else Inr b) (\<lambda>nonce.
     sbind (file_text v ''ciphertext'' ''ct'') (\<lambda>c.
     sbind (ok_or (b64u_decode cr c) (new_fault ArtifactUnavailable ''ciphertext decode'')) (\<lambda>ct.
     ok_or (ae_decrypt ae (os_key os) nonce (aad tenant (os_key_id os) kind digest) ct)
       (new_fault ArtifactUnavailable ''object auth failed''))))))))"

section \<open>The files represent the objects\<close>

text \<open>
  What the code relies on: base64 text is ASCII without padding and decodes to what was encoded, and
  what was sealed opens again under the same key, nonce and associated data.
\<close>

definition object_crypto :: "Crypto \<Rightarrow> Aead \<Rightarrow> bool" where
  "object_crypto cr ae \<longleftrightarrow>
     (\<forall>x. b64u_decode cr (b64_encode cr x) = Some x \<and> list_all (\<lambda>c. (of_char c :: nat) < 128) (b64_encode cr x)) \<and>
     (\<forall>k n a m ct. ae_encrypt ae k n a m = Some ct \<longrightarrow> ae_decrypt ae k n a ct = Some m)"

definition object_written ::
  "Crypto \<Rightarrow> Aead \<Rightarrow> ObjectStore \<Rightarrow> string \<Rightarrow> string \<times> string \<times> string \<Rightarrow> string \<Rightarrow> bool" where
  "object_written cr ae os digest x bs \<longleftrightarrow> (case x of (tenant, kind, plaintext) \<Rightarrow>
     utf8_ok tenant \<and> utf8_ok kind \<and> length bs \<le> max_bytes bundle_limits \<and>
     (\<exists>nonce ct. length nonce = 24 \<and>
        ae_encrypt ae (os_key os) nonce (aad tenant (os_key_id os) kind digest) plaintext = Some ct \<and>
        bs = jcs (object_file cr os tenant kind digest nonce ct)))"

definition represents ::
  "Crypto \<Rightarrow> Aead \<Rightarrow> ObjectStore \<Rightarrow> (string \<times> string) list \<Rightarrow> (string \<times> string \<times> string \<times> string) list \<Rightarrow> bool" where
  "represents cr ae os files objects \<longleftrightarrow> (\<forall>digest. valid_hash digest \<longrightarrow>
     (case map_of objects digest of
        None \<Rightarrow> map_of files (object_path os digest) = None
      | Some x \<Rightarrow> (\<exists>bs. map_of files (object_path os digest) = Some bs \<and> object_written cr ae os digest x bs)))"

lemma object_path_inject:
  assumes "valid_hash a" and "valid_hash b"
  shows "object_path os a = object_path os b \<longleftrightarrow> a = b"
  using assms by (auto simp: object_path_def shard_path_def valid_hash_def append_eq_append_conv)

lemma value_get_canon: "value_get (canon v) k = map_option canon (value_get v k)"
  using map_of_canon [of _ k]
  by (cases v) (auto simp: value_get_def mget_def canon_members_def)

lemma file_field_canon: "file_field (canon v) k = map_ok canon (file_field v k)"
  by (cases "value_get v k") (simp_all add: file_field_def value_get_canon)

lemma file_text_canon: "file_text (canon v) k msg = file_text v k msg"
  by (simp add: file_text_def file_field_canon)

lemma header_canon: "header_matches os tenant kind digest (canon v) = header_matches os tenant kind digest v"
  by (simp add: header_matches_def file_field_canon cong: if_cong)

lemma object_file_fields:
  fixes cr os tenant kind digest nonce ct
  defines "v \<equiv> object_file cr os tenant kind digest nonce ct"
  shows "as_obj v \<noteq> None" "file_field v ''v'' = Inr (num 1)"
    "file_text v ''nonce'' m = Inr (b64_encode cr nonce)" "file_text v ''ciphertext'' m = Inr (b64_encode cr ct)"
    "header_matches os tenant' kind' digest v = Inr (tenant' = tenant \<and> kind' = kind)"
  by (auto simp: v_def object_file_def file_field_def file_text_def header_matches_def value_get_def mget_def)

lemma object_file_ok:
  assumes "object_crypto cr ae" and "utf8_ok tenant" and "utf8_ok (os_key_id os)" and "utf8_ok kind"
    and "valid_hash digest"
  shows "val_ok bundle_limits 0 (object_file cr os tenant kind digest nonce ct)"
proof -
  have "utf8_ok (b64_encode cr x)" for x
    using assms(1) by (intro utf8_ok_ascii) (auto simp: object_crypto_def list_all_iff)
  moreover have "utf8_ok digest"
    using assms(5) by (intro utf8_ok_ascii) (auto simp: valid_hash_def list_all_iff lower_hex_def Let_def)
  ultimately show ?thesis
    using assms by (simp add: object_file_def bundle_limits_def num_def utf8_ok_ascii)
qed

lemma read_written:
  assumes ok: "object_crypto cr ae" "utf8_ok (os_key_id os)" and h: "valid_hash digest"
    and entry: "map_of files (object_path os digest) = Some bs"
    and w: "object_written cr ae os digest (tenant, kind, plaintext) bs"
  shows "store_get cr ae os tenant' kind' digest files =
    (if tenant \<noteq> tenant' \<or> kind \<noteq> kind' then object_fail ''object header mismatch'' else Inr plaintext)"
proof -
  obtain nonce ct where n: "length nonce = 24"
    and enc: "ae_encrypt ae (os_key os) nonce (aad tenant (os_key_id os) kind digest) plaintext = Some ct"
    and bs: "bs = jcs (object_file cr os tenant kind digest nonce ct)"
    and len: "length bs \<le> max_bytes bundle_limits" and u: "utf8_ok tenant" "utf8_ok kind"
    using w by (auto simp: object_written_def)
  let ?v = "object_file cr os tenant kind digest nonce ct"
  have p: "parse bs bundle_limits = Inr (canon ?v)"
    using parse_canonical [OF object_file_ok [OF ok(1) u(1) ok(2) u(2) h]] len bs by simp
  have "ae_decrypt ae (os_key os) nonce (aad tenant (os_key_id os) kind digest) ct = Some plaintext"
    using ok(1) enc by (simp add: object_crypto_def)
  moreover have "as_int (num 1) = Some 1" by (simp add: accessor_defs num_def int_profile_iff safe_int_max_def)
  ultimately show ?thesis
    by (cases "tenant = tenant' \<and> kind = kind'")
      (use ok(1) n p entry object_file_fields(1) [of cr os tenant kind digest nonce ct] in
        \<open>auto simp: store_get_def file_text_canon header_canon file_field_canon object_file_fields
          object_crypto_def cong: if_cong\<close>)
qed

lemma store_put_Inr:
  assumes "store_put cr ae os nonce tenant kind digest plaintext files = Inr (path, files')"
  obtains ct where "ae_encrypt ae (os_key os) nonce (aad tenant (os_key_id os) kind digest) plaintext = Some ct"
    "files' = put_assoc path (jcs (object_file cr os tenant kind digest nonce ct)) files"
    "path = object_path os digest"
proof (cases "ae_encrypt ae (os_key os) nonce (aad tenant (os_key_id os) kind digest) plaintext")
  case None
  then show thesis using assms by (simp add: store_put_def object_fail_def)
next
  case (Some ct)
  have "temp_path os digest \<notin> fst ` set files"
    using assms Some by (cases "temp_path os digest \<in> fst ` set files") (simp_all add: store_put_def object_fail_def)
  then have "object_path os digest = path" "put_assoc (object_path os digest)
      (jcs (object_file cr os tenant kind digest nonce ct)) files = files'" using assms Some by (auto simp: store_put_def)
  then show thesis using that [OF Some] by blast
qed

text \<open>
  C40. The files refine the object table of the daemon's model. An object that is put
  leaves files that represent the table with that object put, replacing what its digest held; and
  reading through the files gives exactly what the table gives: the plaintext for the tenant and
  kind it was put under, a missing object or a header mismatch otherwise.
\<close>

theorem objects_refine:
  assumes "object_crypto cr ae" and "utf8_ok (os_key_id os)" and "represents cr ae os files objects"
    and "valid_hash digest"
  shows "store_get cr ae os tenant kind digest files = object_get objects tenant kind digest \<and>
    (store_put cr ae os nonce tenant kind digest plaintext files = Inr (path, files') \<and>
     length nonce = 24 \<and> utf8_ok tenant \<and> utf8_ok kind \<and>
     length (the (map_of files' path)) \<le> max_bytes bundle_limits \<longrightarrow>
     represents cr ae os files' (put_assoc digest (tenant, kind, plaintext) objects))"
proof (intro conjI impI)
  show "store_get cr ae os tenant kind digest files = object_get objects tenant kind digest"
  proof (cases "map_of objects digest")
    case None
    then show ?thesis using assms(3,4)
      by (auto simp: represents_def store_get_def object_get_def object_fail_def)
  next
    case (Some x)
    obtain t k p where x: "x = (t, k, p)" by (cases x)
    obtain bs where "map_of files (object_path os digest) = Some bs" "object_written cr ae os digest x bs"
      using assms(3) [unfolded represents_def, rule_format, OF assms(4)] Some by auto
    then show ?thesis using read_written [OF assms(1,2,4)] Some
      by (simp add: x object_get_def object_fail_def)
  qed
next
  assume "store_put cr ae os nonce tenant kind digest plaintext files = Inr (path, files') \<and>
     length nonce = 24 \<and> utf8_ok tenant \<and> utf8_ok kind \<and>
     length (the (map_of files' path)) \<le> max_bytes bundle_limits"
  then have put: "store_put cr ae os nonce tenant kind digest plaintext files = Inr (path, files')"
    and side: "length nonce = 24" "utf8_ok tenant" "utf8_ok kind"
      "length (the (map_of files' path)) \<le> max_bytes bundle_limits" by blast+
  obtain ct where enc: "ae_encrypt ae (os_key os) nonce (aad tenant (os_key_id os) kind digest) plaintext = Some ct"
    and files': "files' = put_assoc path (jcs (object_file cr os tenant kind digest nonce ct)) files"
    and path: "path = object_path os digest"
    using put by (rule store_put_Inr)
  have "object_written cr ae os digest (tenant, kind, plaintext) (jcs (object_file cr os tenant kind digest nonce ct))"
    using side enc unfolding object_written_def files' by auto
  then show "represents cr ae os files' (put_assoc digest (tenant, kind, plaintext) objects)"
    using assms(3,4) unfolding represents_def files' path
    by (auto simp: object_path_inject split: option.splits)
qed

text \<open>A store of one object, sealed by an encryption that prefixes the associated data.\<close>

definition toy_aead :: Aead where
  "toy_aead = \<lparr>ae_encrypt = (\<lambda>k n a m. Some (a @ m)), ae_decrypt = (\<lambda>k n a c. Some (drop (length a) c))\<rparr>"

definition toy_objects :: ObjectStore where
  "toy_objects = \<lparr>os_dir = ''/o'', os_key_id = ''k1'', os_key = []\<rparr>"

lemma toy_object_crypto: "object_crypto toy_crypto toy_aead"
proof -
  have "list_all (\<lambda>c. (of_char c :: nat) < 128) (hex_lower x)" for x
    using hex_lower_chars [of x] by (auto simp: list_all_iff lower_hex_def Let_def)
  then show ?thesis
    by (auto simp: object_crypto_def toy_crypto_def toy_aead_def b64u_decode_def hex_decode_lower hex_lower_no_eq)
qed

theorem objects_refine_witness:
  "represents toy_crypto toy_aead toy_objects [] [] \<and>
   store_get toy_crypto toy_aead toy_objects ''acme'' ''export'' zero_hash [] =
     object_get [] ''acme'' ''export'' zero_hash"
proof -
  have r: "represents toy_crypto toy_aead toy_objects [] []" by (simp add: represents_def)
  have "utf8_ok (os_key_id toy_objects)" by (simp add: toy_objects_def utf8_ok_ascii)
  moreover have "valid_hash zero_hash" by (simp add: valid_hash_def zero_hash_def list_all_iff lower_hex_def)
  ultimately show ?thesis using objects_refine [OF toy_object_crypto _ r] r by blast
qed

end
