(* ===== verification/Lifecycle.thy ===== *)
theory Lifecycle
  imports Daemon
begin

text \<open>
  Startup, recovery and the timers on runs and reviews (\<open>daemon.rs\<close>: \<open>start\<close>, \<open>tick_run_silence\<close>,
  \<open>expire_run_checks\<close>, \<open>expire_run_reviews\<close>, \<open>tick_review_due\<close>, \<open>tick_lease_expiry\<close>, \<open>tick_wake\<close>). A
  timer lists the rows that are due, then updates them in one mutation, each row loaded again.
\<close>

section \<open>New versions\<close>

definition record_entity ::
  "Crypto \<Rightarrow> Daemon \<Rightarrow> nat \<Rightarrow> string \<Rightarrow> string \<Rightarrow> string \<Rightarrow> Value \<Rightarrow> string list \<Rightarrow> unit T" where
  "record_entity cr dm now kind table eid v causes =
     thn (watchd_entity cr dm now kind table eid v causes) (ret ())"

text \<open>The rows of the entities: loaded inside the transaction, and present.\<close>

definition get_run :: "string \<Rightarrow> Run T" where
  "get_run eid = tbind (query (load_run eid)) unwrap"

definition get_check :: "Crypto \<Rightarrow> string \<Rightarrow> Check T" where
  "get_check cr eid = tbind (query (load_check cr eid)) unwrap"

definition get_review :: "string \<Rightarrow> Review T" where
  "get_review eid = tbind (query (load_review eid)) unwrap"

definition get_alert :: "string \<Rightarrow> Alert T" where
  "get_alert eid = tbind (query (load_alert eid)) unwrap"

section \<open>Expiry\<close>

definition expired_review :: "Review \<Rightarrow> Review" where
  "expired_review rv = rv\<lparr>rv_state := RvExpired, rv_revision := rv_revision rv + 1,
     rv_owner := None, rv_lease_until_ms := None\<rparr>"

definition decided_check :: "CheckState \<Rightarrow> string \<Rightarrow> Check \<Rightarrow> Check" where
  "decided_check cs reason c = c\<lparr>ck_state := cs, ck_reason := reason, ck_revision := ck_revision c + 1\<rparr>"

definition checks_total :: "string \<Rightarrow> unit T" where
  "checks_total outcome = bump ''watch_checks_total'' [] outcome 1"

definition expire_run_checks :: "Crypto \<Rightarrow> Daemon \<Rightarrow> nat \<Rightarrow> string \<Rightarrow> unit T" where
  "expire_run_checks cr dm now run_id =
     tbind (look (\<lambda>st. select_ids (\<lambda>r. cr_run r = run_id \<and> cr_state r = ''EVALUATING'') (st_checks st)))
       (forT (\<lambda>cid. tbind (get_check cr cid) (\<lambda>c.
          thn (record_entity cr dm now ''CheckFinalized'' ''checks'' cid
                 (check_value (decided_check CsStale ''STALE'' c)) [])
              (checks_total ''STALE''))))"

definition expire_run_reviews :: "Crypto \<Rightarrow> Daemon \<Rightarrow> nat \<Rightarrow> string \<Rightarrow> unit T" where
  "expire_run_reviews cr dm now run_id =
     tbind (look (\<lambda>st. select_ids (\<lambda>r. vr_run r = run_id \<and> vr_state r \<in> set review_active_states) (st_reviews st)))
       (forT (\<lambda>rid. tbind (get_review rid) (\<lambda>rv.
          record_entity cr dm now ''ReviewExpired'' ''reviews'' rid (review_value (expired_review rv)) [])))"

section \<open>Source silence\<close>

definition active_freshness :: "Crypto \<Rightarrow> Run \<Rightarrow> Store \<Rightarrow> nat R" where
  "active_freshness cr run st = (case policy_get (rn_policy run) st of
     None \<Rightarrow> Inr 2000
   | Some env \<Rightarrow> sbind (read_policy cr env) (\<lambda>(_, p). Inr (pl_freshness_ms p)))"

definition silent_run :: "Crypto \<Rightarrow> nat \<Rightarrow> Store \<Rightarrow> string \<Rightarrow> string list R" where
  "silent_run cr now st eid = sbind (load_run eid st) (\<lambda>x. case x of
     None \<Rightarrow> Inr []
   | Some run \<Rightarrow> (case rn_last_received_ms run of
       None \<Rightarrow> Inr []
     | Some lr \<Rightarrow> sbind (active_freshness cr run st) (\<lambda>fresh.
         Inr (if now - lr \<ge> fresh then [eid] else []))))"

definition silent_runs :: "Crypto \<Rightarrow> nat \<Rightarrow> Store \<Rightarrow> string list R" where
  "silent_runs cr now st = sbind (entity_ids_by_state ''runs'' [''OPEN''] st) (\<lambda>ids.
     sbind (mapR (silent_run cr now st) ids) (\<lambda>xs. Inr (concat xs)))"

definition paused_run :: "string \<Rightarrow> Run \<Rightarrow> Run" where
  "paused_run reason run = run\<lparr>rn_state := RsPaused, rn_pause_reason := Some reason,
     rn_revision := rn_revision run + 1\<rparr>"

definition silence_run :: "Crypto \<Rightarrow> Daemon \<Rightarrow> nat \<Rightarrow> string \<Rightarrow> unit T" where
  "silence_run cr dm now eid = tbind (get_run eid) (\<lambda>run.
     if rn_state run \<noteq> RsOpen then ret ()
     else thn (record_entity cr dm now ''RunPaused'' ''runs'' eid (run_value (paused_run ''SOURCE_SILENCE'' run)) [])
       (thn (bump ''watch_source_faults_total'' [] ''stale'' 1)
            (expire_run_checks cr dm now eid)))"

definition tick_run_silence :: "Crypto \<Rightarrow> nat \<Rightarrow> Daemon \<Rightarrow> Daemon" where
  "tick_run_silence cr now dm = (case silent_runs cr now (dm_store dm) of
     Inl _ \<Rightarrow> dm
   | Inr paused \<Rightarrow> if paused = [] then dm
       else timer now (\<lambda>dm now. forT (silence_run cr dm now) paused) dm)"

section \<open>Reviews: hard due, lease, wake\<close>

text \<open>\<open>CAST(json_extract(body, '$.k') AS INTEGER)\<close> of a counter, which travels as a string.\<close>

definition json_u :: "string \<Rightarrow> string \<Rightarrow> nat option" where
  "json_u body k = (case parse body reply_limits of
     Inl _ \<Rightarrow> None
   | Inr v \<Rightarrow> map_option cast_integer (Option.bind (value_get v k) as_str))"

definition at_or_before :: "nat option \<Rightarrow> nat \<Rightarrow> bool" where
  "at_or_before x now = (case x of None \<Rightarrow> False | Some t \<Rightarrow> t \<le> now)"

definition due_row :: "nat \<Rightarrow> ReviewRow \<Rightarrow> bool" where
  "due_row now r \<longleftrightarrow> vr_state r \<in> set review_active_states \<and>
     (vr_state r = ''ACCEPTED'' \<and> at_or_before (json_u (vr_body r) ''accepted_until_ms'') now \<or>
      at_or_before (json_u (vr_body r) ''due_ms'') now)"

definition effective_due :: "Review \<Rightarrow> nat" where
  "effective_due rv = (if rv_state rv = RvAccepted
     then min (case rv_accepted_until_ms rv of None \<Rightarrow> rv_due_ms rv | Some a \<Rightarrow> a) (rv_due_ms rv)
     else rv_due_ms rv)"

definition due_review :: "Crypto \<Rightarrow> Daemon \<Rightarrow> nat \<Rightarrow> string \<Rightarrow> unit T" where
  "due_review cr dm now eid = tbind (get_review eid) (\<lambda>rv.
     if \<not> review_active (rv_state rv) then ret ()
     else if now < effective_due rv then ret ()
     else record_entity cr dm now ''ReviewExpired'' ''reviews'' eid (review_value (expired_review rv)) [])"

definition tick_review_due :: "Crypto \<Rightarrow> nat \<Rightarrow> Daemon \<Rightarrow> Daemon" where
  "tick_review_due cr now dm =
    (let due = select_ids (due_row now) (st_reviews (dm_store dm)) in
     if due = [] then dm else timer now (\<lambda>dm now. forT (due_review cr dm now) due) dm)"

definition released_review :: "Review \<Rightarrow> Review" where
  "released_review rv = rv\<lparr>rv_state := RvOpen, rv_revision := rv_revision rv + 1,
     rv_owner := None, rv_lease_until_ms := None\<rparr>"

definition lease_row :: "nat \<Rightarrow> ReviewRow \<Rightarrow> bool" where
  "lease_row now r \<longleftrightarrow> vr_state r = ''CLAIMED'' \<and> at_or_before (vr_lease_ms r) now"

definition lease_review :: "Crypto \<Rightarrow> Daemon \<Rightarrow> nat \<Rightarrow> string \<Rightarrow> unit T" where
  "lease_review cr dm now eid = tbind (get_review eid) (\<lambda>rv.
     if rv_state rv \<noteq> RvClaimed then ret ()
     else if (case rv_lease_until_ms rv of None \<Rightarrow> True | Some l \<Rightarrow> now < l) then ret ()
     else if now \<ge> rv_due_ms rv then ret ()
     else record_entity cr dm now ''ReviewReleased'' ''reviews'' eid (review_value (released_review rv)) [])"

definition tick_lease_expiry :: "Crypto \<Rightarrow> nat \<Rightarrow> Daemon \<Rightarrow> Daemon" where
  "tick_lease_expiry cr now dm =
    (let items = select_ids (lease_row now) (st_reviews (dm_store dm)) in
     if items = [] then dm else timer now (\<lambda>dm now. forT (lease_review cr dm now) items) dm)"

definition woken_review :: "Review \<Rightarrow> Review" where
  "woken_review rv = rv\<lparr>rv_state := RvOpen, rv_revision := rv_revision rv + 1, rv_wake_ms := None\<rparr>"

definition wake_row :: "nat \<Rightarrow> ReviewRow \<Rightarrow> bool" where
  "wake_row now r \<longleftrightarrow> vr_state r = ''DEFERRED'' \<and> at_or_before (json_u (vr_body r) ''wake_ms'') now"

definition wake_review :: "Crypto \<Rightarrow> Daemon \<Rightarrow> nat \<Rightarrow> string \<Rightarrow> unit T" where
  "wake_review cr dm now eid = tbind (get_review eid) (\<lambda>rv.
     if rv_state rv \<noteq> RvDeferred then ret ()
     else if now \<ge> rv_due_ms rv then ret ()
     else if (case rv_wake_ms rv of None \<Rightarrow> True | Some w \<Rightarrow> now < w) then ret ()
     else record_entity cr dm now ''ReviewWoken'' ''reviews'' eid (review_value (woken_review rv)) [])"

definition tick_wake :: "Crypto \<Rightarrow> nat \<Rightarrow> Daemon \<Rightarrow> Daemon" where
  "tick_wake cr now dm =
    (let items = select_ids (wake_row now) (st_reviews (dm_store dm)) in
     if items = [] then dm else timer now (\<lambda>dm now. forT (wake_review cr dm now) items) dm)"

section \<open>Startup and recovery\<close>

definition recover_run :: "Crypto \<Rightarrow> Daemon \<Rightarrow> nat \<Rightarrow> string \<Rightarrow> unit T" where
  "recover_run cr dm now eid = tbind (get_run eid) (\<lambda>run.
     if rn_state run = RsOpen
     then record_entity cr dm now ''RunPaused'' ''runs'' eid (run_value (paused_run ''RESTART'' run)) []
     else ret ())"

definition recover_review :: "Crypto \<Rightarrow> Daemon \<Rightarrow> nat \<Rightarrow> string \<Rightarrow> unit T" where
  "recover_review cr dm now eid = tbind (get_review eid) (\<lambda>rv.
     record_entity cr dm now ''ReviewExpired'' ''reviews'' eid (review_value (expired_review rv)) [])"

definition recover_check :: "Crypto \<Rightarrow> Daemon \<Rightarrow> nat \<Rightarrow> string \<Rightarrow> unit T" where
  "recover_check cr dm now eid = tbind (get_check cr eid) (\<lambda>c.
     thn (record_entity cr dm now ''CheckFinalized'' ''checks'' eid
            (check_value (decided_check CsExpired ''RESTART'' c)) [])
         (checks_total ''EXPIRED''))"

definition recovery :: "Crypto \<Rightarrow> Daemon \<Rightarrow> nat \<Rightarrow> unit T" where
  "recovery cr dm now =
     tbind (query (entity_ids_by_state ''runs'' [''OPEN'', ''PAUSED''])) (\<lambda>runs.
     thn (forT (recover_run cr dm now) runs)
     (tbind (query (entity_ids_by_state ''reviews'' review_active_states)) (\<lambda>reviews.
     thn (forT (recover_review cr dm now) reviews)
     (tbind (query (entity_ids_by_state ''checks'' [''EVALUATING''])) (\<lambda>checks.
     forT (recover_check cr dm now) checks)))))"

definition host_event :: "Crypto \<Rightarrow> string \<Rightarrow> Daemon \<Rightarrow> unit T" where
  "host_event cr kind dm =
     thn (watchd_event cr dm (dm_now dm) kind (host_value (dm_host dm)) []) (ret ())"

text \<open>A transaction of the startup: committed, or its fault.\<close>

definition commit_tx :: "unit T \<Rightarrow> Daemon \<Rightarrow> Daemon R" where
  "commit_tx m dm = sbind (m (begin_tx (dm_store dm))) (\<lambda>(_, tx). Inr (dm\<lparr>dm_store := tx_store tx\<rparr>))"

definition signer_pins :: "Config \<Rightarrow> Trust \<Rightarrow> unit R" where
  "signer_pins cfg trust = forR (\<lambda>tag.
     map_err (\<lambda>e. gated (''signer pin: '' @ fault_message e))
       (require_pin trust tag (cf_tenant cfg) (cf_signer_key_id cfg) (cf_signer_key_epoch cfg)))
     [''audit'', ''clearance'', ''bundle'', ''backup'']"

definition next_epoch :: "Store \<Rightarrow> nat" where
  "next_epoch st = wadd64 (case Option.bind (meta_get st ''host_epoch'') parse_u64 of None \<Rightarrow> 0 | Some e \<Rightarrow> e) 1"

definition boot_daemon ::
  "Store \<Rightarrow> Config \<Rightarrow> Trust \<Rightarrow> string \<Rightarrow> (string \<times> string \<times> string \<times> string) list option \<Rightarrow> bool \<Rightarrow> nat \<Rightarrow>
   string \<Rightarrow> Daemon" where
  "boot_daemon st cfg trust sk objects pool now boot =
     \<lparr>dm_store = st, dm_cfg = cfg, dm_trust = trust, dm_sk = sk, dm_objects = objects, dm_pool = pool,
      dm_host = \<lparr>ho_state = HsStarting, ho_epoch = next_epoch st, ho_boot = boot, ho_reason = None\<rparr>,
      dm_now = now, dm_crash_before_commit = False, dm_crash_after_commit = False,
      dm_audit_fail = False, dm_worker_mismatch = False, dm_notices = [], dm_commit_ms = 0, dm_audit_write_ms = [], dm_jobs = [], dm_rate = [],
      dm_cur_idem = None\<rparr>"

text \<open>
  The start sequence after the gates: the new epoch and \<open>HostStarted\<close>, the pinned minimum head,
  recovery, \<open>HostReady\<close>. A failed start leaves the store of its last commit.
\<close>

definition start_host :: "Crypto \<Rightarrow> Daemon \<Rightarrow> Daemon R \<times> Store" where
  "start_host cr dm =
    (let now = dm_now dm in
     case commit_tx (thn (exec_ok (tx_meta_set ''host_epoch'' (dec (ho_epoch (dm_host dm)))))
       (host_event cr ''HostStarted'' dm)) dm of
       Inl e \<Rightarrow> (Inl e, dm_store dm)
     | Inr dm1 \<Rightarrow>
         if hd_seq (tx_head (dm_store dm1)) < hd_seq (tr_minimum_head (dm_trust dm1)) then
           (let dm2 = set_host HsFaulted (Some ''restored behind minimum head'') dm1 in
            case commit_tx (host_event cr ''HostFaulted'' dm2) dm2 of
              Inl e \<Rightarrow> (Inl e, dm_store dm1)
            | Inr dm3 \<Rightarrow> (Inl (new_fault MigrationRequired ''store behind minimum head''), dm_store dm3))
         else (case commit_tx (recovery cr dm1 now) dm1 of
            Inl e \<Rightarrow> (Inl e, dm_store dm1)
          | Inr dm2 \<Rightarrow>
              (let dm3 = dm2\<lparr>dm_host := (dm_host dm2)\<lparr>ho_state := HsReady\<rparr>\<rparr> in
               case commit_tx (host_event cr ''HostReady'' dm3) dm3 of
                 Inl e \<Rightarrow> (Inl e, dm_store dm2)
               | Inr dm4 \<Rightarrow> (Inr dm4, dm_store dm4))))"

text \<open>The key material of the signer file is decoded by the key library: \<open>None\<close> is unreadable.\<close>

definition start_daemon ::
  "Crypto \<Rightarrow> (string \<Rightarrow> string + string) \<Rightarrow> Store \<Rightarrow> Config \<Rightarrow> Trust \<Rightarrow> string option \<Rightarrow>
   (string \<times> string \<times> string \<times> string) list option \<Rightarrow> bool \<Rightarrow> nat \<Rightarrow> string \<Rightarrow> Daemon R \<times> Store" where
  "start_daemon cr files st cfg trust signer objects pool now boot =
    (case sbind (startup_gates cr cfg trust) (\<lambda>_.
          sbind (ok_or signer (gated ''signer key unreadable'')) (\<lambda>sk.
          sbind (signer_pins cfg trust) (\<lambda>_.
          sbind (verify_artifacts cr files cfg) (\<lambda>_. Inr sk)))) of
       Inl e \<Rightarrow> (Inl e, st)
     | Inr sk \<Rightarrow> start_host cr (boot_daemon st cfg trust sk objects pool now boot))"

end
