(* ===== verification/Finalize.thy ===== *)
theory Finalize
  imports Lifecycle
begin

text \<open>
  The decision of a check (\<open>daemon.rs\<close>: \<open>tick_checks\<close>, \<open>maybe_finalize_check\<close>, \<open>finalize_check\<close>,
  \<open>finalize_stale\<close>, \<open>apply_outcome\<close>, \<open>active_review_count\<close>, \<open>find_active_basis_review\<close>): when all
  required slots are settled, or a deadline has passed, one mutation checks the run, the policy, the
  observation and the newest observation again, aggregates the results and records the outcome, with
  the clearance it signs, the review it opens or the review it consumes.
\<close>

section \<open>Queries\<close>

definition active_review_count :: "string option \<Rightarrow> Store \<Rightarrow> nat" where
  "active_review_count run st = length (filter (\<lambda>(_, r).
     (case run of None \<Rightarrow> True | Some rid \<Rightarrow> vr_run r = rid) \<and> vr_state r \<in> set review_active_states) (st_reviews st))"

definition find_active_basis_review :: "string \<Rightarrow> string \<Rightarrow> Store \<Rightarrow> string option" where
  "find_active_basis_review run basis st = map_option fst (find (\<lambda>(_, r).
     vr_run r = run \<and> vr_basis r = Some basis \<and> vr_state r \<in> set review_active_states) (st_reviews st))"

section \<open>Settled slots\<close>

definition slot_settled :: "nat \<Rightarrow> SlotRow \<Rightarrow> bool" where
  "slot_settled now s \<longleftrightarrow> sl_state s = ''done'' \<or> sl_state s = ''timeout'' \<or> now \<ge> sl_deadline_ms s"

text \<open>A result counts when the slot is done and its deadline has not passed.\<close>

definition slot_result :: "nat \<Rightarrow> SlotRow \<Rightarrow> Slot R" where
  "slot_result now s = (if sl_state s = ''done'' \<and> now < sl_deadline_ms s then
       (case sl_result s of None \<Rightarrow> Inr None
        | Some b \<Rightarrow> sbind (read_body ''result parse'' result_of b) (\<lambda>r. Inr (Some r)))
     else Inr None)"

section \<open>Stale\<close>

definition finalize_stale :: "Crypto \<Rightarrow> Daemon \<Rightarrow> nat \<Rightarrow> Check \<Rightarrow> unit T" where
  "finalize_stale cr dm now c =
     thn (record_entity cr dm now ''CheckFinalized'' ''checks'' (ck_id c)
            (check_value (decided_check CsStale ''STALE'' c)) [rf_hash (ck_observation c), ck_policy c])
         (checks_total ''STALE'')"

text \<open>A newer observation must keep the fields the check was made on.\<close>

definition same_facts :: "ObservationBody \<Rightarrow> ObservationBody \<Rightarrow> bool" where
  "same_facts ob lb \<longleftrightarrow> (let a = ob_snapshot ob; b = ob_snapshot lb in
     sn_scopes a = sn_scopes b \<and> sn_replicas a = sn_replicas b \<and>
     sn_target_revision a = sn_target_revision b \<and> sn_committed_minor a = sn_committed_minor b \<and>
     sn_reserved_minor a = sn_reserved_minor b \<and> ob_source lb = ob_source ob \<and>
     ob_epoch lb = ob_epoch ob \<and> ob_boot lb = ob_boot ob)"

definition still_same :: "Crypto \<Rightarrow> Run \<Rightarrow> Check \<Rightarrow> ObservationBody \<Rightarrow> Store \<Rightarrow> bool R" where
  "still_same cr run c ob st =
    (if hd_seq (rn_cursor run) > rf_seq (ck_observation c) then
       (case latest_observation (rn_id run) st of
          None \<Rightarrow> Inr True
        | Some env \<Rightarrow> sbind (read_observation cr env) (\<lambda>(_, lb). Inr (same_facts ob lb)))
     else Inr True)"

section \<open>Outcome\<close>

definition candidate_basis :: "Crypto \<Rightarrow> Check \<Rightarrow> Run \<Rightarrow> ObservationBody \<Rightarrow> Result_ list \<Rightarrow> Basis" where
  "candidate_basis cr c run ob settled =
     \<lparr>bs_run = rn_id run, bs_intent = intent_digest cr (ck_intent c), bs_policy = ck_policy c,
      bs_guard_epoch = rn_guard_epoch run, bs_target_revision = it_target_revision (ck_intent c),
      bs_max_total_minor = sat_add64 (sat_add64 (sn_committed_minor (ob_snapshot ob))
        (sn_reserved_minor (ob_snapshot ob))) (it_cost_minor (ck_intent c)),
      bs_findings = findings_digest cr (filter (\<lambda>r. rs_verdict r = VUncertain) settled)\<rparr>"

text \<open>The predicate under which a supplied review is consumed.\<close>

definition review_covers :: "nat \<Rightarrow> Basis \<Rightarrow> Review \<Rightarrow> bool" where
  "review_covers now cand rv \<longleftrightarrow> rv_state rv = RvAccepted \<and>
     (case rv_accepted_until_ms rv of None \<Rightarrow> False | Some a \<Rightarrow> now < a) \<and>
     (case rv_basis rv of None \<Rightarrow> False | Some b \<Rightarrow>
        bs_run b = bs_run cand \<and> bs_intent b = bs_intent cand \<and> bs_policy b = bs_policy cand \<and>
        bs_guard_epoch b = bs_guard_epoch cand \<and> bs_target_revision b = bs_target_revision cand \<and>
        bs_max_total_minor cand \<le> bs_max_total_minor b \<and> bs_findings b = bs_findings cand)"

definition supplied_review :: "nat \<Rightarrow> Basis \<Rightarrow> Check \<Rightarrow> Store \<Rightarrow> Review option R" where
  "supplied_review now cand c st = (case ck_review c of
     None \<Rightarrow> Inr None
   | Some rid \<Rightarrow> sbind (load_review rid st) (\<lambda>x. Inr (case x of
       None \<Rightarrow> None | Some rv \<Rightarrow> if review_covers now cand rv then Some rv else None)))"

fun cleared_by :: "Review option \<Rightarrow> Outcome \<Rightarrow> Outcome" where
  "cleared_by (Some rv) (OHeld reason new) = OClear"
| "cleared_by _ outcome = outcome"

definition blocking_review ::
  "Crypto \<Rightarrow> nat \<Rightarrow> Policy \<Rightarrow> Run \<Rightarrow> Check \<Rightarrow> Basis \<Rightarrow> string \<Rightarrow> nat \<Rightarrow> Review" where
  "blocking_review cr now pol run c cand reason created_seq =
     \<lparr>rv_id = review_id cr (rn_id run) (Some (basis_digest cr cand)) None (Some (ck_id c)),
      rv_revision = 1, rv_run = rn_id run, rv_check = Some (ck_id c), rv_alert = None,
      rv_basis = Some cand, rv_kind = ''blocking'', rv_state = RvOpen, rv_level = LWarning,
      rv_created_seq = created_seq, rv_due_ms = sat_add64 now (pl_review_ttl_ms pol), rv_owner = None,
      rv_lease_until_ms = None, rv_wake_ms = None, rv_accepted_until_ms = None, rv_reason = reason,
      rv_resolution = None, rv_resolved_by = None\<rparr>"

definition clearance_for ::
  "Crypto \<Rightarrow> Daemon \<Rightarrow> nat \<Rightarrow> Policy \<Rightarrow> Run \<Rightarrow> Check \<Rightarrow> ObservationBody \<Rightarrow> string \<Rightarrow> Clearance" where
  "clearance_for cr dm now pol run c ob basis =
     \<lparr>cl_tenant = cf_tenant (dm_cfg dm), cl_run = rn_id run, cl_runtime = rn_runtime run,
      cl_guard_epoch = rn_guard_epoch run, cl_boot = rn_boot run, cl_check = ck_id c,
      cl_intent = intent_digest cr (ck_intent c), cl_policy = ck_policy c,
      cl_observation = ck_observation c, cl_basis = basis, cl_issued_ms = now,
      cl_expires_ms = min (sat_add64 now (pl_clearance_ms pol)) (sat_add64 (ob_cut_ms ob) (pl_freshness_ms pol)),
      cl_mode = rn_mode run\<rparr>"

definition check_causes :: "Check \<Rightarrow> string list" where
  "check_causes c = [rf_hash (ck_observation c), ck_policy c]"

text \<open>A decision with no review opened or consumed.\<close>

definition plain_outcome :: "Crypto \<Rightarrow> Daemon \<Rightarrow> nat \<Rightarrow> Check \<Rightarrow> unit T" where
  "plain_outcome cr dm now c = (let c = c\<lparr>ck_revision := ck_revision c + 1\<rparr> in
     thn (record_entity cr dm now ''CheckFinalized'' ''checks'' (ck_id c) (check_value c) (check_causes c))
         (checks_total (check_state_as_str (ck_state c))))"

definition held_outcome ::
  "Crypto \<Rightarrow> Daemon \<Rightarrow> nat \<Rightarrow> Check \<Rightarrow> Run \<Rightarrow> Policy \<Rightarrow> Basis \<Rightarrow> string \<Rightarrow> unit T" where
  "held_outcome cr dm now c run pol cand reason =
     tbind (look tx_head) (\<lambda>head.
       let rv = blocking_review cr now pol run c cand reason (hd_seq head + 1);
           c = c\<lparr>ck_review := Some (rv_id rv), ck_revision := ck_revision c + 1\<rparr> in
       thn (record_entity cr dm now ''CheckFinalized'' ''checks'' (ck_id c) (check_value c) (check_causes c))
       (thn (record_entity cr dm now ''ReviewOpened'' ''reviews'' (rv_id rv) (review_value rv) [])
       (thn (checks_total ''HELD'') (bump ''watch_remainder_opened_total'' [] ''warning'' 1))))"

definition consume_review :: "Crypto \<Rightarrow> Daemon \<Rightarrow> nat \<Rightarrow> Review option \<Rightarrow> unit T" where
  "consume_review cr dm now consume = (case consume of
     None \<Rightarrow> ret ()
   | Some rv \<Rightarrow> record_entity cr dm now ''ReviewConsumed'' ''reviews'' (rv_id rv)
       (review_value (rv\<lparr>rv_state := RvConsumed, rv_revision := rv_revision rv + 1\<rparr>)) [])"

text \<open>The digest of the event just emitted is a cause too, when the check names a review.\<close>

definition clear_causes :: "Check \<Rightarrow> Tx \<Rightarrow> string list" where
  "clear_causes c tx = check_causes c @
     (if ck_review c \<noteq> None \<and> tx_emitted tx \<noteq> [] then [last (tx_emitted tx)] else [])"

definition clear_outcome ::
  "Crypto \<Rightarrow> Daemon \<Rightarrow> nat \<Rightarrow> Check \<Rightarrow> Run \<Rightarrow> Policy \<Rightarrow> ObservationBody \<Rightarrow> Basis \<Rightarrow> Review option \<Rightarrow> unit T" where
  "clear_outcome cr dm now c run pol ob cand consume =
    (let basis = basis_digest cr (case Option.bind consume rv_basis of None \<Rightarrow> cand | Some b \<Rightarrow> b);
         cl = clearance_for cr dm now pol run c ob basis
     in tbind (liftR (signed_of cr (sign_envelope cr ''clearance'' (clearance_body_value cl)
            (cf_signer_key_id (dm_cfg dm)) (dec (cf_signer_key_epoch (dm_cfg dm))) (dm_sk dm)))) (\<lambda>sv.
        let c = c\<lparr>ck_clearance := Some sv, ck_revision := ck_revision c + 1\<rparr> in
        thn (consume_review cr dm now consume)
        (thn (\<lambda>tx. record_entity cr dm now ''CheckFinalized'' ''checks'' (ck_id c) (check_value c)
                (clear_causes c tx) tx)
             (checks_total ''CLEAR''))))"

definition apply_outcome ::
  "Crypto \<Rightarrow> Daemon \<Rightarrow> nat \<Rightarrow> Check \<Rightarrow> Run \<Rightarrow> Policy \<Rightarrow> ObservationBody \<Rightarrow> Outcome \<Rightarrow> string option \<Rightarrow>
   Review option \<Rightarrow> Basis \<Rightarrow> unit T" where
  "apply_outcome cr dm now c run pol ob outcome existing consume cand = (case outcome of
     ODeny reason \<Rightarrow> plain_outcome cr dm now (c\<lparr>ck_state := CsDeny, ck_reason := reason\<rparr>)
   | OExpired reason \<Rightarrow> plain_outcome cr dm now (c\<lparr>ck_state := CsExpired, ck_reason := reason\<rparr>)
   | OHeld reason new_review \<Rightarrow>
      (let c = c\<lparr>ck_state := CsHeld, ck_reason := reason\<rparr> in
       if new_review then held_outcome cr dm now c run pol cand reason
       else plain_outcome cr dm now (case existing of None \<Rightarrow> c | Some rid \<Rightarrow> c\<lparr>ck_review := Some rid\<rparr>))
   | OClear \<Rightarrow> clear_outcome cr dm now (c\<lparr>ck_state := CsClear, ck_reason := ''CLEAR''\<rparr>) run pol ob cand consume)"

text \<open>Aggregation over the settled slots, and its outcome.\<close>

definition decide_check ::
  "Crypto \<Rightarrow> Daemon \<Rightarrow> nat \<Rightarrow> Check \<Rightarrow> Run \<Rightarrow> Policy \<Rightarrow> ObservationBody \<Rightarrow> Slot list \<Rightarrow> unit T" where
  "decide_check cr dm now c run pol ob slots =
    (let settled = concat (map (case_option [] (\<lambda>r. [r])) slots);
         cand = candidate_basis cr c run ob settled
     in tbind (look (\<lambda>st. (active_review_count None st, active_review_count (Some (rn_id run)) st,
            find_active_basis_review (rn_id run) (basis_digest cr cand) st))) (\<lambda>(depth, per_run, existing).
        let outcome = aggregate slots \<lparr>qc_depth = depth, qc_per_run_open = per_run,
              qc_queue_capacity = pl_queue_capacity pol, qc_per_run_cap = pl_per_run_open_reviews pol,
              qc_existing_basis = (existing \<noteq> None)\<rparr> in
        tbind (query (supplied_review now cand c)) (\<lambda>consume.
          apply_outcome cr dm now (c\<lparr>ck_results := settled\<rparr>) run pol ob (cleared_by consume outcome)
            existing consume cand)))"

text \<open>The rechecks of the final transaction, on a check that is still EVALUATING.\<close>

definition recheck :: "Crypto \<Rightarrow> Daemon \<Rightarrow> nat \<Rightarrow> Check \<Rightarrow> Slot list \<Rightarrow> unit T" where
  "recheck cr dm now c slots =
     tbind (query (load_run (ck_run c))) (\<lambda>x. case x of None \<Rightarrow> ret () | Some run \<Rightarrow>
     tbind (query (\<lambda>st. ok_or (policy_get (ck_policy c) st) (audit_unavailable ''policy lost''))) (\<lambda>env.
     tbind (liftR (read_policy cr env)) (\<lambda>(_, pol).
     if rn_state run \<noteq> RsOpen \<or> rn_policy run \<noteq> ck_policy c then finalize_stale cr dm now c else
     tbind (query (observation_by_ref cr (ck_observation c))) (\<lambda>x. case x of
       None \<Rightarrow> finalize_stale cr dm now c
     | Some (_, ob) \<Rightarrow>
     if now - ob_cut_ms ob \<ge> pl_freshness_ms pol then finalize_stale cr dm now c else
     tbind (query (still_same cr run c ob)) (\<lambda>same.
     if \<not> same then finalize_stale cr dm now c else
     if now \<ge> ck_deadline_ms c \<and> None \<in> set slots then
       thn (record_entity cr dm now ''CheckFinalized'' ''checks'' (ck_id c)
              (check_value (decided_check CsExpired ''MONITOR_TIMEOUT'' c)) (check_causes c))
           (checks_total ''EXPIRED'')
     else decide_check cr dm now c run pol ob slots)))))"

definition finalize_check :: "Crypto \<Rightarrow> Daemon \<Rightarrow> nat \<Rightarrow> string \<Rightarrow> Slot list \<Rightarrow> unit T" where
  "finalize_check cr dm now check_id slots =
     tbind (query (load_check cr check_id)) (\<lambda>x. case x of None \<Rightarrow> ret ()
     | Some c \<Rightarrow> if ck_state c \<noteq> CsEvaluating then ret () else recheck cr dm now c slots)"

definition maybe_finalize_check :: "Crypto \<Rightarrow> string \<Rightarrow> nat \<Rightarrow> Daemon \<Rightarrow> Daemon" where
  "maybe_finalize_check cr check_id now dm = (case load_check cr check_id (dm_store dm) of
     Inl _ \<Rightarrow> dm
   | Inr None \<Rightarrow> dm
   | Inr (Some c) \<Rightarrow>
      (if ck_state c \<noteq> CsEvaluating then dm
       else let slots = map snd (slots_for_check check_id (dm_store dm)) in
         if \<not> list_all (slot_settled now) slots \<and> now < ck_deadline_ms c then dm
         else (case mapR (slot_result now) slots of
           Inl _ \<Rightarrow> dm
         | Inr results \<Rightarrow> timer now (\<lambda>dm now. finalize_check cr dm now check_id results) dm)))"

definition tick_checks :: "Crypto \<Rightarrow> nat \<Rightarrow> Daemon \<Rightarrow> Daemon" where
  "tick_checks cr now dm = (case entity_ids_by_state ''checks'' [''EVALUATING''] (dm_store dm) of
     Inl _ \<Rightarrow> dm
   | Inr ids \<Rightarrow> fold (\<lambda>cid dm. maybe_finalize_check cr cid now dm) ids dm)"

end
