(* ===== verification/Windows.thy ===== *)
theory Windows
  imports Finalize
begin

text \<open>
  Trailing windows, drift and alert episodes (\<open>daemon.rs\<close>: \<open>run_opened_ms\<close>, \<open>process_windows\<close>,
  \<open>process_one_window\<close>, \<open>alert_episode\<close>, \<open>resolve_episode_if_active\<close>, \<open>tick_windows\<close>). Every expected
  window of a run is attempted once: the trailing monitors are evaluated on the counts an observation
  supplied, or the window is missing, the drift reducer takes one step, and flags open or renew the
  alert episode of their monitor. Clocks are below \<open>2^64 - 1\<close>, where the saturating addition of the
  loop is exact.
\<close>

section \<open>Expected windows\<close>

definition window_due_ms :: nat where "window_due_ms = 500"

text \<open>\<open>json_extract\<close> along a path of members, to a string.\<close>

fun json_path :: "Value \<Rightarrow> string list \<Rightarrow> string option" where
  "json_path v [] = as_str v"
| "json_path v (k # ks) = Option.bind (value_get v k) (\<lambda>w. json_path w ks)"

definition body_path :: "string \<Rightarrow> string list \<Rightarrow> string option" where
  "body_path body ks = (case parse body reply_limits of Inl _ \<Rightarrow> None | Inr v \<Rightarrow> json_path v ks)"

definition opened_row :: "string \<Rightarrow> AuditRow \<Rightarrow> bool" where
  "opened_row run_id r \<longleftrightarrow> au_kind r = ''RunOpened'' \<and> body_path (au_body r) [''value'', ''id''] = Some run_id"

definition run_opened_ms :: "string \<Rightarrow> Store \<Rightarrow> nat R" where
  "run_opened_ms run_id st =
     sbind (ok_or (find (opened_row run_id) (sort_by audit_before (st_audit st))) ferr) (\<lambda>r.
       Inr (case body_path (au_body r) [''at_ms''] of None \<Rightarrow> 0 | Some t \<Rightarrow> cast_integer t))"

definition first_boundary :: "nat \<Rightarrow> nat" where
  "first_boundary opened = (opened + (window_ms - 1)) div window_ms * window_ms"

text \<open>The loop over the boundaries that are due; at most 4097 windows are taken at once.\<close>

function due_windows :: "(nat \<Rightarrow> bool) \<Rightarrow> nat \<Rightarrow> nat \<Rightarrow> nat list \<Rightarrow> nat list" where
  "due_windows attempted now start due =
    (if start + (window_ms + window_due_ms) \<le> now then
       (let due' = (if attempted start then due else due @ [start]) in
        if length due' > 4096 then due' else due_windows attempted now (start + window_ms) due')
     else due)"
  by pat_completeness auto
termination
  by (relation "measure (\<lambda>(_, now, start, _). now - start)") (auto simp: window_ms_def window_due_ms_def)

declare due_windows.simps [simp del]

section \<open>Supplied counts\<close>

definition observation_ref :: "ObservationBody \<Rightarrow> string \<Rightarrow> Ref" where
  "observation_ref b digest = \<lparr>rf_source = ob_source b, rf_epoch = ob_epoch b, rf_seq = ob_seq b, rf_hash = digest\<rparr>"

definition window_at :: "nat \<Rightarrow> ObservationBody \<Rightarrow> Bins option" where
  "window_at start b = (case sn_window (ob_snapshot b) of
     None \<Rightarrow> None | Some w \<Rightarrow> if wn_start_ms w = start then Some (wn_counts w) else None)"

definition run_observations :: "string \<Rightarrow> Store \<Rightarrow> ObservationRow list" where
  "run_observations run_id st = filter (\<lambda>r. or_run r = run_id) (st_observations st)"

text \<open>The newest observation, when the window has linked counts.\<close>

definition linked_counts :: "Crypto \<Rightarrow> string \<Rightarrow> nat \<Rightarrow> Store \<Rightarrow> (Bins \<times> Ref) option R" where
  "linked_counts cr run_id start st =
    (if window_counts run_id start st \<in> {None, Some None} then Inr None
     else case latest_obs (run_observations run_id st) of
       None \<Rightarrow> Inr None
     | Some row \<Rightarrow> sbind (read_observation cr (or_envelope row)) (\<lambda>(sv, b).
         Inr (map_option (\<lambda>c. (c, observation_ref b (sd_digest sv))) (window_at start b))))"

definition obs_before :: "ObservationRow \<Rightarrow> ObservationRow \<Rightarrow> bool" where
  "obs_before a b \<longleftrightarrow> or_seq a \<le> or_seq b"

fun scan_counts :: "Crypto \<Rightarrow> nat \<Rightarrow> (Bins \<times> Ref) option \<Rightarrow> ObservationRow list \<Rightarrow> (Bins \<times> Ref) option R" where
  "scan_counts cr start found [] = Inr found"
| "scan_counts cr start found (row # rows) = sbind (read_observation cr (or_envelope row)) (\<lambda>(sv, b).
     scan_counts cr start (case window_at start b of
       None \<Rightarrow> found | Some c \<Rightarrow> Some (c, observation_ref b (or_digest row))) rows)"

definition supplied_counts :: "Crypto \<Rightarrow> string \<Rightarrow> nat \<Rightarrow> Store \<Rightarrow> (Bins \<times> Ref) option R" where
  "supplied_counts cr run_id start st = sbind (linked_counts cr run_id start st) (\<lambda>x. case x of
     Some y \<Rightarrow> Inr (Some y)
   | None \<Rightarrow> scan_counts cr start None (sort_by obs_before (run_observations run_id st)))"

text \<open>The newest observation as evidence of a missing window; an unreadable one is no evidence.\<close>

definition latest_ref :: "Crypto \<Rightarrow> Run \<Rightarrow> string \<Rightarrow> Store \<Rightarrow> Ref option" where
  "latest_ref cr run run_id st =
    (if hd_seq (rn_cursor run) = 0 then None
     else case latest_obs (run_observations run_id st) of
       None \<Rightarrow> None
     | Some row \<Rightarrow> (case read_observation cr (or_envelope row) of
         Inl _ \<Rightarrow> None | Inr (_, b) \<Rightarrow> Some (observation_ref b (or_digest row))))"

section \<open>Trailing results\<close>

text \<open>The body of the observation that carried the counts, read again by its digest.\<close>

definition carried_body :: "Ref \<Rightarrow> Store \<Rightarrow> ObservationBody R" where
  "carried_body oref st =
     sbind (ok_or (get_observation (rf_hash oref) st) ferr) (\<lambda>env.
     sbind (read_body ''obs parse'' Inr env) (\<lambda>v.
     sbind (ok_or (value_get v ''body'') (audit_unavailable ''panic'')) observation_body_of))"

definition trailing_result ::
  "Crypto \<Rightarrow> Policy \<Rightarrow> Run \<Rightarrow> nat \<Rightarrow> (Bins \<times> Ref) option \<Rightarrow> Ref option \<Rightarrow> Monitor \<Rightarrow> Store \<Rightarrow> Result_ R" where
  "trailing_result cr pol run start supplied newest m st = (case supplied of
     Some (counts, oref) \<Rightarrow> sbind (carried_body oref st) (\<lambda>b.
       let b = b\<lparr>ob_snapshot := (ob_snapshot b)\<lparr>sn_window := Some \<lparr>wn_start_ms = start, wn_counts = counts\<rparr>\<rparr>\<rparr> in
       ok_or (evaluate m pol b (Some oref) None
         (if mo_detector m = Distribution then Some (rn_drift run) else None)) (audit_unavailable ''panic''))
   | None \<Rightarrow> Inr \<lparr>rs_monitor = mo_id m, rs_detector = mo_detector m, rs_verdict = VUnavailable,
       rs_reason = ''WINDOW_MISSING'', rs_score_bp = None,
       rs_evidence = (case newest of None \<Rightarrow> [] | Some r \<Rightarrow> [r])\<rparr>)"

definition trailing_results ::
  "Crypto \<Rightarrow> Policy \<Rightarrow> Run \<Rightarrow> nat \<Rightarrow> (Bins \<times> Ref) option \<Rightarrow> Ref option \<Rightarrow> Store \<Rightarrow> Result_ list R" where
  "trailing_results cr pol run start supplied newest st =
     sbind (mapR (\<lambda>m. trailing_result cr pol run start supplied newest m st)
       (filter (\<lambda>m. mo_mode m = ''trailing'') (pl_monitors pol)))
     (\<lambda>rs. Inr (sort_by by_monitor rs))"

definition trailing_value :: "string \<Rightarrow> nat \<Rightarrow> Ref option \<Rightarrow> Result_ list \<Rightarrow> Value" where
  "trailing_value run_id start oref results = Obj [
     (''run'', Str run_id),
     (''window_start_ms'', ustr start),
     (''observation'', opt_value ref_value oref),
     (''results'', Arr (map result_value results))]"

definition window_input :: "Policy \<Rightarrow> Bins option \<Rightarrow> WindowInput R" where
  "window_input pol supplied = (case supplied of
     None \<Rightarrow> Inr WMissing
   | Some counts \<Rightarrow> sbind (ok_or (tvd_bp (bl_counts (pl_baseline pol)) counts) (audit_unavailable ''panic'')) (\<lambda>sc.
       Inr (WComplete (wsum64 (bins_list counts)) (case sc of None \<Rightarrow> 0 | Some x \<Rightarrow> x))))"

section \<open>Alert episodes\<close>

definition active_episode :: "string \<Rightarrow> Store \<Rightarrow> string option" where
  "active_episode ek st = map_option fst (find (\<lambda>(_, r). lr_episode_key r = ek \<and> lr_state r \<in> set alert_active_states)
     (st_alerts st))"

definition renewed_alert :: "Ref \<Rightarrow> Alert \<Rightarrow> Alert" where
  "renewed_alert ev a = a\<lparr>al_occurrences := al_occurrences a + 1, al_last := ev, al_revision := al_revision a + 1\<rparr>"

definition opened_alert :: "Crypto \<Rightarrow> Run \<Rightarrow> Policy \<Rightarrow> Result_ \<Rightarrow> Ref \<Rightarrow> Level \<Rightarrow> Alert" where
  "opened_alert cr run pol r ev level =
     \<lparr>al_id = alert_id cr (rn_id run) (rs_monitor r) (bl_id (pl_baseline pol)) ev, al_revision = 1,
      al_run = rn_id run, al_monitor = rs_monitor r, al_baseline = bl_id (pl_baseline pol),
      al_state = AsOpen, al_level = level, al_first = ev, al_last = ev, al_occurrences = 1,
      al_review = None, al_reason = rs_reason r, al_resolved_by = None\<rparr>"

definition trailing_review :: "Crypto \<Rightarrow> nat \<Rightarrow> Policy \<Rightarrow> Run \<Rightarrow> Result_ \<Rightarrow> string \<Rightarrow> Level \<Rightarrow> nat \<Rightarrow> Review" where
  "trailing_review cr now pol run r aid level created_seq =
     \<lparr>rv_id = review_id cr (rn_id run) None (Some aid) None, rv_revision = 1, rv_run = rn_id run,
      rv_check = None, rv_alert = Some aid, rv_basis = None, rv_kind = ''trailing'', rv_state = RvOpen,
      rv_level = level, rv_created_seq = created_seq, rv_due_ms = sat_add64 now (pl_review_ttl_ms pol),
      rv_owner = None, rv_lease_until_ms = None, rv_wake_ms = None, rv_accepted_until_ms = None,
      rv_reason = rs_reason r, rv_resolution = None, rv_resolved_by = None\<rparr>"

definition alert_notice :: "string \<Rightarrow> string \<Rightarrow> string \<Rightarrow> string" where
  "alert_notice aid run reason = jcs (Obj [(''kind'', Str ''alert''), (''alert'', Str aid), (''run'', Str run),
     (''reason'', Str reason)])"

definition open_episode :: "Crypto \<Rightarrow> Daemon \<Rightarrow> nat \<Rightarrow> Run \<Rightarrow> Policy \<Rightarrow> Result_ \<Rightarrow> Ref \<Rightarrow> Level \<Rightarrow> unit T" where
  "open_episode cr dm now run pol r ev level =
    (let a = opened_alert cr run pol r ev level; aid = al_id a in
     thn (record_entity cr dm now ''AlertOpened'' ''alerts'' aid (alert_value a) [])
     (thn (bump ''watch_drift_episodes_total'' (detector_as_str (rs_detector r)) [] 1)
     (tbind (look tx_head) (\<lambda>head.
       let rv = trailing_review cr now pol run r aid level (hd_seq head + 1);
           a = a\<lparr>al_review := Some (rv_id rv), al_revision := al_revision a + 1\<rparr> in
       thn (record_entity cr dm now ''ReviewOpened'' ''reviews'' (rv_id rv) (review_value rv) [])
       (thn (record_entity cr dm now ''AlertUpdated'' ''alerts'' aid (alert_value a) [])
            (exec_ok (tx_outbox_put ''local_notice'' aid now (alert_notice aid (rn_id run) (rs_reason r)))))))))"

definition alert_episode ::
  "Crypto \<Rightarrow> Daemon \<Rightarrow> nat \<Rightarrow> Run \<Rightarrow> Policy \<Rightarrow> Result_ \<Rightarrow> Ref option \<Rightarrow> Level \<Rightarrow> unit T" where
  "alert_episode cr dm now run pol r ev level = (case ev of
     None \<Rightarrow> ret ()
   | Some ev \<Rightarrow>
       tbind (look (active_episode (episode_key (rn_id run) (rs_monitor r) (bl_id (pl_baseline pol))))) (\<lambda>x. case x of
         Some aid \<Rightarrow> tbind (get_alert aid) (\<lambda>a.
           record_entity cr dm now ''AlertUpdated'' ''alerts'' aid (alert_value (renewed_alert ev a)) [])
       | None \<Rightarrow> open_episode cr dm now run pol r ev level))"

definition resolved_alert :: "Alert \<Rightarrow> Alert" where
  "resolved_alert a = a\<lparr>al_state := AsResolved, al_resolved_by := Some ''watchd'', al_revision := al_revision a + 1\<rparr>"

definition resolve_episode_if_active :: "Crypto \<Rightarrow> Daemon \<Rightarrow> nat \<Rightarrow> string \<Rightarrow> string \<Rightarrow> string \<Rightarrow> unit T" where
  "resolve_episode_if_active cr dm now run_id monitor_id baseline =
     tbind (look (active_episode (episode_key run_id monitor_id baseline))) (\<lambda>x. case x of
       None \<Rightarrow> ret ()
     | Some aid \<Rightarrow> tbind (get_alert aid) (\<lambda>a.
         record_entity cr dm now ''AlertResolved'' ''alerts'' aid (alert_value (resolved_alert a)) []))"

section \<open>One window\<close>

definition flag_level :: "Detector \<Rightarrow> Level" where
  "flag_level dt = (if dt = Distribution then LCritical else LWarning)"

definition window_result ::
  "Crypto \<Rightarrow> Daemon \<Rightarrow> nat \<Rightarrow> string \<Rightarrow> Run \<Rightarrow> Policy \<Rightarrow> Ref option \<Rightarrow> bool \<Rightarrow> Result_ \<Rightarrow> unit T" where
  "window_result cr dm now run_id run pol ev supplied r =
    (if rs_verdict r = VFlag then alert_episode cr dm now run pol r ev (flag_level (rs_detector r))
     else if rs_detector r = Rate \<and> supplied
     then resolve_episode_if_active cr dm now run_id (rs_monitor r) (bl_id (pl_baseline pol))
     else ret ())"

definition update_drift :: "Crypto \<Rightarrow> Daemon \<Rightarrow> nat \<Rightarrow> string \<Rightarrow> Run \<Rightarrow> Drift \<Rightarrow> Run T" where
  "update_drift cr dm now run_id run drift =
    (if drift \<noteq> rn_drift run then
       (let run = run\<lparr>rn_drift := drift, rn_revision := rn_revision run + 1\<rparr> in
        thn (record_entity cr dm now ''DriftUpdated'' ''runs'' run_id (run_value run) []) (ret run))
     else ret (run\<lparr>rn_drift := drift\<rparr>))"

definition leave_drift :: "Crypto \<Rightarrow> Daemon \<Rightarrow> nat \<Rightarrow> string \<Rightarrow> Policy \<Rightarrow> Drift \<Rightarrow> Drift \<Rightarrow> unit T" where
  "leave_drift cr dm now run_id pol prior nxt =
    (if dr_state prior = DsDrift \<and> dr_state nxt \<noteq> DsDrift then
       (case find (\<lambda>m. mo_detector m = Distribution) (pl_monitors pol) of
          None \<Rightarrow> ret ()
        | Some m \<Rightarrow> resolve_episode_if_active cr dm now run_id (mo_id m) (bl_id (pl_baseline pol)))
     else ret ())"

definition attempt_window :: "string \<Rightarrow> nat \<Rightarrow> Bins option \<Rightarrow> unit T" where
  "attempt_window run_id start counts =
    (let row = map_option (\<lambda>c. jcs (window_value \<lparr>wn_start_ms = start, wn_counts = c\<rparr>)) counts in
     thn (exec_ok (tx_window_put run_id start row))
         (if row = None then exec_ok (tx_window_put run_id start None) else ret ()))"

definition evaluate_window :: "Crypto \<Rightarrow> Daemon \<Rightarrow> nat \<Rightarrow> string \<Rightarrow> nat \<Rightarrow> Run \<Rightarrow> Policy \<Rightarrow> unit T" where
  "evaluate_window cr dm now run_id start run pol =
     tbind (query (supplied_counts cr run_id start)) (\<lambda>supplied.
     tbind (look (latest_ref cr run run_id)) (\<lambda>newest.
     tbind (query (trailing_results cr pol run start supplied newest)) (\<lambda>results.
     thn (attempt_window run_id start (map_option fst supplied))
     (thn (watchd_event cr dm now ''TrailingEvaluated''
        (trailing_value run_id start (map_option snd supplied) results) [])
     (tbind (liftR (window_input pol (map_option fst supplied))) (\<lambda>input.
     let nxt = drift_step (rn_drift run) start input pol in
     tbind (update_drift cr dm now run_id run nxt) (\<lambda>new_run.
     thn (forT (window_result cr dm now run_id new_run pol
            (case supplied of Some (_, r) \<Rightarrow> Some r | None \<Rightarrow> newest) (supplied \<noteq> None)) results)
         (leave_drift cr dm now run_id pol (rn_drift run) nxt))))))))"

definition process_one_window :: "Crypto \<Rightarrow> Daemon \<Rightarrow> nat \<Rightarrow> string \<Rightarrow> nat \<Rightarrow> unit T" where
  "process_one_window cr dm now run_id start =
     tbind (query (load_run run_id)) (\<lambda>x. case x of None \<Rightarrow> ret () | Some run \<Rightarrow>
     if rn_state run \<noteq> RsOpen \<and> rn_state run \<noteq> RsPaused then ret () else
     tbind (query (\<lambda>st. ok_or (policy_get (rn_policy run) st) (audit_unavailable ''policy lost''))) (\<lambda>env.
     tbind (liftR (read_policy cr env)) (\<lambda>(_, pol).
     evaluate_window cr dm now run_id start run pol)))"

definition process_windows :: "Crypto \<Rightarrow> string \<Rightarrow> nat \<Rightarrow> Daemon \<Rightarrow> Daemon" where
  "process_windows cr run_id now dm = (case run_opened_ms run_id (dm_store dm) of
     Inl _ \<Rightarrow> dm
   | Inr opened \<Rightarrow>
      (let due = due_windows (\<lambda>start. window_attempted run_id start (dm_store dm)) now (first_boundary opened) [] in
       if due = [] then dm else timer now (\<lambda>dm now. forT (process_one_window cr dm now run_id) due) dm))"

definition tick_windows :: "Crypto \<Rightarrow> nat \<Rightarrow> Daemon \<Rightarrow> Daemon" where
  "tick_windows cr now dm = (case entity_ids_by_state ''runs'' [''OPEN'', ''PAUSED''] (dm_store dm) of
     Inl _ \<Rightarrow> dm
   | Inr ids \<Rightarrow> fold (\<lambda>rid dm. process_windows cr rid now dm) ids dm)"

end
