(* ===== verification/Monitors.thy ===== *)
theory Monitors
  imports Windows
begin

text \<open>
  Monitor workers and the tick (\<open>monitor.rs\<close>; \<open>daemon.rs\<close>: \<open>dispatch_check_jobs\<close>, \<open>recompute\<close>,
  \<open>apply_monitor_reply\<close>, \<open>tick_outbox\<close>, \<open>tick\<close>, \<open>next_due\<close>). A worker evaluates a framed job and frames
  its reply; the coordinator computes the result again before a slot is settled. The sockets are
  not modelled: \<open>dm_jobs\<close> lists the jobs written to the pool, and the replies that arrived are an
  argument of the tick. A worker that panics sends nothing.
\<close>

section \<open>Workers\<close>

definition member_of :: "Value \<Rightarrow> string \<Rightarrow> Value R" where
  "member_of v k = ok_or (value_get v k) (audit_unavailable ''panic'')"

definition intent_free :: "Detector \<Rightarrow> bool" where
  "intent_free dt \<longleftrightarrow> dt \<notin> {Scope, Spend, Replicas}"

definition evaluate_job :: "Crypto \<Rightarrow> Value \<Rightarrow> Value R" where
  "evaluate_job cr v = sbind (monitor_job_of cr v) (\<lambda>_.
     sbind (sbind (member_of v ''monitor'') monitor_of) (\<lambda>m.
     sbind (sbind (member_of v ''policy'') policy_of) (\<lambda>pol.
     sbind (sbind (member_of v ''observation'') (signed_of cr)) (\<lambda>osv.
     sbind (observation_body_of (sd_body osv)) (\<lambda>b.
     sbind (sbind (member_of v ''intent'') (opt_of intent_of)) (\<lambda>int.
     sbind (sbind (member_of v ''drift'') (opt_of drift_of)) (\<lambda>dr.
     if int = None \<and> \<not> intent_free (mo_detector m) then Inl (schem ''blocking monitor needs intent'')
     else sbind (ok_or (evaluate m pol b (Some (observation_ref b (sd_digest osv))) int dr)
         (audit_unavailable ''panic'')) (\<lambda>r.
       sbind (member_of v ''job'') (\<lambda>job.
       Inr (Obj [(''v'', num 1), (''job'', job), (''result'', result_value r)]))))))))))"

text \<open>One round of \<open>worker_loop\<close>: the reply to a frame, if it can be read.\<close>

definition worker_reply :: "Crypto \<Rightarrow> string \<Rightarrow> Value option" where
  "worker_reply cr frame = (case parse frame request_limits of
     Inl _ \<Rightarrow> None
   | Inr v \<Rightarrow> Some (case evaluate_job cr v of
       Inr r \<Rightarrow> r
     | Inl e \<Rightarrow> Obj [(''v'', num 1),
         (''job'', case value_get v ''job'' of None \<Rightarrow> Str ''?'' | Some j \<Rightarrow> j),
         (''error'', Str (fault_message e))]))"

record Completion =
  cp_job :: string
  cp_monitor :: string
  cp_result :: "string + Result_"

text \<open>One round of \<open>reader_loop\<close>.\<close>

definition string_or :: "string \<Rightarrow> Value option \<Rightarrow> string" where
  "string_or dflt x = (case Option.bind x as_str of None \<Rightarrow> dflt | Some t \<Rightarrow> t)"

definition completion_of :: "string \<Rightarrow> Completion option" where
  "completion_of frame = (case parse frame request_limits of
     Inl _ \<Rightarrow> None
   | Inr v \<Rightarrow>
      (let job = string_or ''?'' (value_get v ''job'') in
       Some (case value_get v ''result'' of
         Some rv \<Rightarrow> (case result_of rv of
             Inr r \<Rightarrow> \<lparr>cp_job = job, cp_monitor = rs_monitor r, cp_result = Inr r\<rparr>
           | Inl e \<Rightarrow> \<lparr>cp_job = job, cp_monitor = ''?'', cp_result = Inl (fault_message e)\<rparr>)
       | None \<Rightarrow> \<lparr>cp_job = job, cp_monitor = ''?'',
           cp_result = Inl (string_or ''worker error'' (value_get v ''error''))\<rparr>)))"

section \<open>Jobs\<close>

text \<open>\<open>WorkerPool::dispatch\<close>: refused when the pool is not reachable.\<close>

definition pool_dispatch :: "Value \<Rightarrow> Daemon \<Rightarrow> bool \<times> Daemon" where
  "pool_dispatch job dm = (if dm_pool dm then (True, dm\<lparr>dm_jobs := dm_jobs dm @ [job]\<rparr>) else (False, dm))"

definition job_id :: "Check \<Rightarrow> Monitor \<Rightarrow> string" where
  "job_id c m = ''job_'' @ ck_id c @ ''_'' @ mo_id m"

definition job_value :: "Check \<Rightarrow> Policy \<Rightarrow> Value \<Rightarrow> Monitor \<Rightarrow> Value" where
  "job_value c pol obs_env m = Obj [
     (''v'', num 1),
     (''job'', Str (job_id c m)),
     (''monitor'', monitor_value m),
     (''policy'', policy_value pol),
     (''observation'', obs_env),
     (''intent'', intent_value (ck_intent c)),
     (''drift'', Null),
     (''deadline_ms'', ustr (wadd64 (ck_created_ms c) (mo_deadline_ms m)))]"

definition required_monitor :: "Monitor \<Rightarrow> bool" where
  "required_monitor m \<longleftrightarrow> mo_mode m = ''blocking'' \<and> mo_required m"

definition dispatch_check_jobs :: "Check \<Rightarrow> Policy \<Rightarrow> Value \<Rightarrow> Daemon \<Rightarrow> Daemon" where
  "dispatch_check_jobs c pol obs_env dm =
     fold (\<lambda>m dm. snd (pool_dispatch (job_value c pol obs_env m) dm)) (filter required_monitor (pl_monitors pol)) dm"

section \<open>Replies\<close>

text \<open>The result the coordinator expects for a slot.\<close>

definition recompute :: "Crypto \<Rightarrow> Check \<Rightarrow> string \<Rightarrow> Store \<Rightarrow> Result_ option R" where
  "recompute cr c monitor_id st = (case policy_get (ck_policy c) st of
     None \<Rightarrow> Inr None
   | Some env \<Rightarrow> sbind (read_policy cr env) (\<lambda>(_, pol).
       sbind (observation_by_ref cr (ck_observation c) st) (\<lambda>x. case x of
         None \<Rightarrow> Inr None
       | Some (_, b) \<Rightarrow> (case find (\<lambda>m. mo_id m = monitor_id) (pl_monitors pol) of
           None \<Rightarrow> Inr None
         | Some m \<Rightarrow> sbind (ok_or (evaluate m pol b (Some (ck_observation c)) (Some (ck_intent c)) None)
             (audit_unavailable ''panic'')) (\<lambda>r. Inr (Some r))))))"

definition strip_job :: "string \<Rightarrow> string" where
  "strip_job job = (if starts_with job ''job_'' then drop 4 job else job)"

text \<open>The slot a job id names: the first row whose check and monitor spell it.\<close>

definition slot_of_job :: "string \<Rightarrow> Store \<Rightarrow> (string \<times> SlotRow) option" where
  "slot_of_job job st = map_option (\<lambda>((cid, mid), row). (cid, row))
     (find (\<lambda>((cid, mid), row). strip_job job = cid @ ''_'' @ mid) (st_slots st))"

definition settle_slot :: "nat \<Rightarrow> string \<Rightarrow> string \<Rightarrow> nat \<Rightarrow> string \<Rightarrow> string option \<Rightarrow> Daemon \<Rightarrow> Daemon" where
  "settle_slot now check_id monitor deadline slot_state result =
     timer now (\<lambda>dm now. exec_ok (tx_slot_put check_id monitor deadline slot_state result))"

definition mismatched :: "Result_ \<Rightarrow> Result_ option \<Rightarrow> bool" where
  "mismatched a expected \<longleftrightarrow> (case expected of None \<Rightarrow> False | Some b \<Rightarrow> a \<noteq> b)"

text \<open>A mismatch faults the host in memory whatever becomes of the event.\<close>

definition fault_host :: "Crypto \<Rightarrow> Mutation" where
  "fault_host cr = (\<lambda>dm now tx.
     let dm' = set_host HsFaulted (Some ''MONITOR_RESULT_MISMATCH'') dm in
     (thn (watchd_event cr dm' now ''HostFaulted'' (host_value (dm_host dm')) []) (ret (MOk Null)) tx, dm'))"

definition apply_monitor_reply :: "Crypto \<Rightarrow> nat \<Rightarrow> Completion \<Rightarrow> Daemon \<Rightarrow> Daemon" where
  "apply_monitor_reply cr now cm dm = (case slot_of_job (cp_job cm) (dm_store dm) of
     None \<Rightarrow> dm
   | Some (check_id, slot) \<Rightarrow> (case load_check cr check_id (dm_store dm) of
       Inl _ \<Rightarrow> dm
     | Inr None \<Rightarrow> dm
     | Inr (Some c) \<Rightarrow>
         if ck_state c \<noteq> CsEvaluating then dm
         else if sl_state slot = ''done'' then dm
         else if now \<ge> sl_deadline_ms slot then
           maybe_finalize_check cr check_id now
             (settle_slot now check_id (cp_monitor cm) (sl_deadline_ms slot) ''timeout'' None dm)
         else (case cp_result cm of
           Inl _ \<Rightarrow> dm
         | Inr r \<Rightarrow> (case recompute cr c (cp_monitor cm) (dm_store dm) of
             Inl _ \<Rightarrow> dm
           | Inr expected \<Rightarrow>
               if dm_worker_mismatch dm \<or> mismatched r expected
               then snd (mutate now (fault_host cr) (dm\<lparr>dm_worker_mismatch := False\<rparr>))
               else maybe_finalize_check cr check_id now
                 (settle_slot now check_id (cp_monitor cm) (sl_deadline_ms slot) ''done''
                   (Some (jcs (result_value r))) dm)))))"

section \<open>Outbox\<close>

text \<open>Deliveries change the daemon at once; a failing item rolls the deletions back.\<close>

fun deliver :: "(nat \<times> string \<times> string \<times> string) list \<Rightarrow> Daemon \<Rightarrow> Tx \<Rightarrow> (unit \<times> Tx) R \<times> Daemon" where
  "deliver [] dm tx = (Inr ((), tx), dm)"
| "deliver ((rid, kind, subject, body) # items) dm tx =
    (let deleted = tx\<lparr>tx_store := tx_outbox_delete rid (tx_store tx)\<rparr> in
     if kind = ''local_notice'' then deliver items (dm\<lparr>dm_notices := dm_notices dm @ [body]\<rparr>) deleted
     else if kind = ''monitor_job'' then
       (case parse body request_limits of
          Inl _ \<Rightarrow> (Inl (audit_unavailable ''job parse''), dm)
        | Inr v \<Rightarrow> (case pool_dispatch v dm of (sent, dm') \<Rightarrow> deliver items dm' (if sent then deleted else tx)))
     else deliver items dm deleted)"

definition tick_outbox :: "nat \<Rightarrow> Daemon \<Rightarrow> Daemon" where
  "tick_outbox now dm =
    (let items = outbox_due now (dm_store dm) in
     if items = [] then dm
     else snd (mutate now (\<lambda>dm now tx. case deliver items dm tx of
            (Inl e, dm') \<Rightarrow> (Inl e, dm')
          | (Inr (_, tx'), dm') \<Rightarrow> (Inr (MOk Null, tx'), dm')) dm))"

section \<open>The tick\<close>

text \<open>Everything due at the daemon's clock, in order; the replies of the workers last.\<close>

definition tick :: "Crypto \<Rightarrow> Completion list \<Rightarrow> Daemon \<Rightarrow> Daemon" where
  "tick cr replies dm =
    (if ho_state (dm_host dm) = HsFaulted then dm
     else let now = dm_now dm in
       fold (apply_monitor_reply cr now) replies
         (tick_outbox now (tick_windows cr now (tick_checks cr now
           (tick_wake cr now (tick_lease_expiry cr now (tick_review_due cr now
             (tick_run_silence cr now dm))))))))"

section \<open>The next due instant\<close>

fun least :: "nat list \<Rightarrow> nat option" where
  "least [] = None"
| "least (x # xs) = (case least xs of None \<Rightarrow> Some x | Some y \<Rightarrow> Some (min x y))"

definition somes :: "'a option list \<Rightarrow> 'a list" where
  "somes xs = concat (map (case_option [] (\<lambda>x. [x])) xs)"

definition next_due :: "Store \<Rightarrow> nat option" where
  "next_due st =
    (let checks = map snd (st_checks st); reviews = map snd (st_reviews st) in
     least (somes [
       least (map cr_deadline_ms (filter (\<lambda>r. cr_state r = ''EVALUATING'') checks)),
       least (map vr_due_ms (filter (\<lambda>r. vr_state r \<in> set review_active_states) reviews)),
       least (somes (map vr_lease_ms (filter (\<lambda>r. vr_state r = ''CLAIMED'') reviews))),
       least (map (\<lambda>r. qb_due_ms (snd r)) (st_outbox st)),
       least (somes (map (\<lambda>r. json_u (vr_body r) ''wake_ms'') (filter (\<lambda>r. vr_state r = ''DEFERRED'') reviews))),
       least (somes (map (\<lambda>r. json_u (vr_body r) ''accepted_until_ms'')
         (filter (\<lambda>r. vr_state r = ''ACCEPTED'') reviews)))]))"

end
