(* ===== verification/Params.thy ===== *)
theory Params
  imports Monitors
begin

text \<open>
  The parameter schemas of the public methods (\<open>methods.rs\<close>: \<open>validate_params\<close>), and the shape of a
  handler: it admits the request, which may end early, and then runs one mutation.
\<close>

definition page_max :: nat where "page_max = 100"

definition null_or :: "(Value \<Rightarrow> 'a R) \<Rightarrow> Value \<Rightarrow> unit R" where
  "null_or p v = (if v = Null then Inr () else sbind (p v) (\<lambda>_. Inr ()))"

definition need :: "(string \<times> Value) list \<Rightarrow> string \<Rightarrow> (Value \<Rightarrow> 'a R) \<Rightarrow> unit R" where
  "need m k p = sbind (field m k) (\<lambda>v. sbind (p v) (\<lambda>_. Inr ()))"

definition page_limit :: "Value \<Rightarrow> unit R" where
  "page_limit v = sbind (n_of v) (\<lambda>limit.
     if 1 \<le> limit \<and> limit \<le> page_max then Inr () else Inl (schem ''limit out of range''))"

definition paired_claim :: "(string \<times> Value) list \<Rightarrow> unit R" where
  "paired_claim m = sbind (field m ''id'') (\<lambda>idv. sbind (field m ''expected_revision'') (\<lambda>rev.
     if idv = Null \<and> rev = Null then Inr ()
     else if idv \<noteq> Null \<and> rev \<noteq> Null then sbind (id_of idv) (\<lambda>_. sbind (u_of rev) (\<lambda>_. Inr ()))
     else Inl (schem ''id and expected_revision pair'')))"

definition resolve_params :: "(string \<times> Value) list \<Rightarrow> unit R" where
  "resolve_params m =
     sbind (need m ''id'' id_of) (\<lambda>_.
     sbind (need m ''expected_revision'' u_of) (\<lambda>_.
     sbind (fld m ''action'' (one_of [''accept_risk'', ''reject'', ''annotate'', ''release'', ''defer''] ''bad action'')) (\<lambda>a.
     sbind (need m ''reason'' text_of) (\<lambda>_.
     sbind (field m ''wake_ms'') (\<lambda>w.
     sbind (null_or u_of w) (\<lambda>_.
     if a \<noteq> ''defer'' \<and> w \<noteq> Null then Inl (schem ''wake_ms only for defer'') else Inr ()))))))"

text \<open>The population: identifiers, pairwise different; no more than its size are drawn.\<close>

definition sample_params :: "(string \<times> Value) list \<Rightarrow> unit R" where
  "sample_params m =
     sbind (fld m ''population'' arr_of) (\<lambda>pop.
     sbind (mapR id_of pop) (\<lambda>_.
     let names = map (\<lambda>x. case as_str x of None \<Rightarrow> [] | Some st \<Rightarrow> st) pop in
     if length (remdups_adj (sort_by str_le names)) \<noteq> length pop
     then Inl (schem ''duplicate population member'') else
     sbind (need m ''population_digest'' hash_of) (\<lambda>_.
     sbind (need m ''seed'' hash_of) (\<lambda>_.
     sbind (fld m ''k'' n_of) (\<lambda>k.
     if k > length pop then Inl (schem ''k exceeds population'') else Inr ())))))"

definition list_params :: "(string \<times> Value) list \<Rightarrow> unit R" where
  "list_params m =
     sbind (need m ''after'' u_of) (\<lambda>_.
     sbind (need m ''through'' (null_or head_of)) (\<lambda>_.
     need m ''limit'' page_limit))"

definition validate_params :: "Crypto \<Rightarrow> string \<Rightarrow> Value \<Rightarrow> unit R" where
  "validate_params cr mname params = (case params of Obj m \<Rightarrow>
     (if mname \<in> set [''system.status'', ''system.drain'', ''metrics.get''] then closed m []
      else if mname = ''policy.activate'' then
        sbind (closed m [''policy'', ''expected_generation'']) (\<lambda>_.
        sbind (need m ''policy'' (signed_of cr)) (\<lambda>_. need m ''expected_generation'' u_of))
      else if mname = ''runs.open'' then
        sbind (closed m [''id'', ''source'', ''source_epoch'', ''guard_epoch'', ''boot'', ''mode'', ''profile'',
          ''policy'']) (\<lambda>_.
        sbind (need m ''id'' id_of) (\<lambda>_.
        sbind (need m ''source'' id_of) (\<lambda>_.
        sbind (need m ''source_epoch'' u_of) (\<lambda>_.
        sbind (need m ''guard_epoch'' u_of) (\<lambda>_.
        sbind (need m ''boot'' boot_of) (\<lambda>_.
        sbind (need m ''mode'' (one_of [''GUARDED'', ''SHADOW''] ''bad mode'')) (\<lambda>_.
        sbind (need m ''profile'' (one_of [''fixture/1'', ''runtime-guard/1''] ''bad profile'')) (\<lambda>_.
        need m ''policy'' hash_of))))))))
      else if mname \<in> set [''runs.get'', ''checks.get'', ''reviews.get''] then
        sbind (closed m [''id'']) (\<lambda>_. need m ''id'' id_of)
      else if mname = ''runs.control'' then
        sbind (closed m [''id'', ''expected_revision'', ''action'', ''reason'']) (\<lambda>_.
        sbind (need m ''id'' id_of) (\<lambda>_.
        sbind (need m ''expected_revision'' u_of) (\<lambda>_.
        sbind (need m ''action'' (one_of [''pause'', ''resume'', ''close''] ''bad action'')) (\<lambda>_.
        need m ''reason'' text_of))))
      else if mname = ''observations.append'' then
        sbind (closed m [''observation'']) (\<lambda>_. need m ''observation'' (signed_of cr))
      else if mname = ''checks.create'' then
        sbind (closed m [''id'', ''run'', ''intent'', ''observation'', ''review'']) (\<lambda>_.
        sbind (need m ''id'' id_of) (\<lambda>_.
        sbind (need m ''run'' id_of) (\<lambda>_.
        sbind (need m ''intent'' intent_of) (\<lambda>_.
        sbind (need m ''observation'' ref_of) (\<lambda>_.
        need m ''review'' (null_or id_of))))))
      else if mname = ''checks.cancel'' then
        sbind (closed m [''id'', ''expected_revision'']) (\<lambda>_.
        sbind (need m ''id'' id_of) (\<lambda>_. need m ''expected_revision'' u_of))
      else if mname = ''effects.record'' then
        sbind (closed m [''effect'']) (\<lambda>_. need m ''effect'' (signed_of cr))
      else if mname \<in> set [''reviews.list'', ''alerts.list''] then
        sbind (closed m [''run'', ''after'', ''through'', ''limit'']) (\<lambda>_.
        sbind (need m ''run'' (null_or id_of)) (\<lambda>_. list_params m))
      else if mname = ''reviews.claim'' then
        sbind (closed m [''id'', ''expected_revision'']) (\<lambda>_. paired_claim m)
      else if mname = ''reviews.resolve'' then
        sbind (closed m [''id'', ''expected_revision'', ''action'', ''reason'', ''wake_ms'']) (\<lambda>_. resolve_params m)
      else if mname = ''alerts.resolve'' then
        sbind (closed m [''id'', ''expected_revision'', ''action'', ''reason'']) (\<lambda>_.
        sbind (need m ''id'' id_of) (\<lambda>_.
        sbind (need m ''expected_revision'' u_of) (\<lambda>_.
        sbind (need m ''action'' (one_of [''acknowledge'', ''resolve''] ''bad action'')) (\<lambda>_.
        need m ''reason'' text_of))))
      else if mname = ''audit.evaluate'' then
        sbind (closed m [''input'']) (\<lambda>_. need m ''input'' eval_input_of)
      else if mname = ''audit.sample'' then
        sbind (closed m [''population'', ''population_digest'', ''seed'', ''k'']) (\<lambda>_. sample_params m)
      else if mname = ''events.read'' then
        sbind (closed m [''after'', ''through'', ''limit'']) (\<lambda>_. list_params m)
      else if mname = ''bundle.export'' then
        sbind (closed m [''through'', ''disclosure'', ''recipient'']) (\<lambda>_.
        sbind (need m ''through'' head_of) (\<lambda>_.
        sbind (need m ''disclosure'' (one_of [''FULL'', ''COMMITMENTS''] ''bad disclosure'')) (\<lambda>_.
        need m ''recipient'' id_of)))
      else Inl (new_fault MethodUnknown ''unknown method''))
   | _ \<Rightarrow> Inl (schem ''params must be an object''))"

section \<open>Handlers\<close>

text \<open>What ends a request before its mutation, or the value that the request needs next.\<close>

type_synonym 'a Admission = "(HErr + MOut) + 'a"

definition q :: "'a R \<Rightarrow> 'a Admission" where
  "q r = map_err (\<lambda>e. Inl (HReject e)) r"

definition reject :: "Code \<Rightarrow> string \<Rightarrow> 'a Admission" where
  "reject c msg = Inl (Inr (MRejected (new_fault c msg)))"

definition guard_that :: "bool \<Rightarrow> Code \<Rightarrow> string \<Rightarrow> unit Admission" where
  "guard_that b c msg = (if b then Inr () else reject c msg)"

definition some_or :: "'a option \<Rightarrow> Code \<Rightarrow> string \<Rightarrow> 'a Admission" where
  "some_or x c msg = (case x of None \<Rightarrow> reject c msg | Some y \<Rightarrow> Inr y)"

definition early :: "Value \<Rightarrow> 'a Admission" where
  "early v = Inl (Inr (MOk v))"

text \<open>A fault of the given code that keeps the message.\<close>

definition as_code :: "Code \<Rightarrow> 'a R \<Rightarrow> 'a R" where
  "as_code c r = map_err (\<lambda>e. new_fault c (fault_message e)) r"

text \<open>\<open>p(params.get(k).unwrap())?\<close>: the member is there once the parameters are validated.\<close>

definition arg :: "Value \<Rightarrow> string \<Rightarrow> (Value \<Rightarrow> 'a R) \<Rightarrow> 'a Admission" where
  "arg params k p = q (sbind (member_of params k) p)"

definition handle :: "(Daemon \<Rightarrow> Mutation Admission) \<Rightarrow> Daemon \<Rightarrow> (HErr + MOut) \<times> Daemon" where
  "handle admit dm = (case admit dm of
     Inl stop \<Rightarrow> (stop, dm)
   | Inr m \<Rightarrow> mutate_h (dm_now dm) m dm)"

text \<open>A read: its value or its fault.\<close>

definition reading :: "Value R \<Rightarrow> Daemon \<Rightarrow> (HErr + MOut) \<times> Daemon" where
  "reading r dm = ((case r of Inl e \<Rightarrow> Inl (HReject e) | Inr v \<Rightarrow> Inr (MOk v)), dm)"

text \<open>An event in the name of the principal, and the entity version it records.\<close>

record Caller =
  ca_principal :: Principal
  ca_request :: string

definition caller_event :: "Crypto \<Rightarrow> Daemon \<Rightarrow> nat \<Rightarrow> Caller \<Rightarrow> string \<Rightarrow> Value \<Rightarrow> string list \<Rightarrow> (nat \<times> string) T" where
  "caller_event cr dm now ca kind v causes =
     emit cr (emit_ctx dm) now (pr_id (ca_principal ca)) (ca_request ca) kind v causes"

definition caller_entity ::
  "Crypto \<Rightarrow> Daemon \<Rightarrow> nat \<Rightarrow> Caller \<Rightarrow> string \<Rightarrow> string \<Rightarrow> string \<Rightarrow> Value \<Rightarrow> string list \<Rightarrow> unit T" where
  "caller_entity cr dm now ca kind table eid v causes =
     thn (emit_entity cr (emit_ctx dm) now (pr_id (ca_principal ca)) (ca_request ca) kind table eid v causes) (ret ())"

definition has_role :: "Caller \<Rightarrow> string \<Rightarrow> bool" where
  "has_role ca role \<longleftrightarrow> role \<in> set (pr_roles (ca_principal ca))"

definition entity_reply :: "string \<Rightarrow> nat \<Rightarrow> string \<Rightarrow> Value" where
  "entity_reply eid revision state = Obj [(''id'', Str eid), (''revision'', ustr revision), (''state'', Str state)]"

end
