(* ===== verification/MethodsRuns.thy ===== *)
theory MethodsRuns
  imports Params
begin

text \<open>
  Hosts, policies, runs and observations (\<open>methods.rs\<close>: \<open>system_status\<close>, \<open>system_drain\<close>,
  \<open>policy_activate\<close>, \<open>runs_open\<close>, \<open>run_get\<close>, \<open>runs_control\<close>, \<open>observations_append\<close>, \<open>pause_source\<close>,
  \<open>quarantine\<close>).
\<close>

section \<open>System\<close>

definition system_status :: "Crypto \<Rightarrow> Daemon \<Rightarrow> Value" where
  "system_status cr dm = Obj [
     (''host'', host_value (dm_host dm)),
     (''active_policy'', case active_policy cr (dm_store dm) of
         Inr (Some (dg, _)) \<Rightarrow> Str dg | _ \<Rightarrow> Null),
     (''product_status'', Str ''UNWRITTEN_GATED''),
     (''profile'', Str ''lab/1'')]"

definition draining_reply :: Value where
  "draining_reply = Obj [(''state'', Str ''DRAINING'')]"

definition drain_check :: "Crypto \<Rightarrow> Daemon \<Rightarrow> nat \<Rightarrow> string \<Rightarrow> unit T" where
  "drain_check cr dm now cid = tbind (get_check cr cid) (\<lambda>c.
     thn (record_entity cr dm now ''CheckFinalized'' ''checks'' cid
            (check_value (decided_check CsExpired ''DRAIN'' c)) (check_causes c))
         (checks_total ''EXPIRED''))"

text \<open>The host is draining in memory whatever becomes of the transaction.\<close>

definition drain_tx :: "Crypto \<Rightarrow> Caller \<Rightarrow> Mutation" where
  "drain_tx cr ca = (\<lambda>dm now tx.
     let dm' = dm\<lparr>dm_host := (dm_host dm)\<lparr>ho_state := HsDraining\<rparr>\<rparr> in
     (thn (caller_event cr dm' now ca ''HostDraining'' (host_value (dm_host dm')) [])
      (tbind (look (\<lambda>st. select_ids (\<lambda>r. cr_state r = ''EVALUATING'') (st_checks st))) (\<lambda>ids.
       thn (forT (drain_check cr dm' now) ids) (ret (MOk draining_reply)))) tx, dm'))"

definition system_drain :: "Crypto \<Rightarrow> Caller \<Rightarrow> Daemon \<Rightarrow> (HErr + MOut) \<times> Daemon" where
  "system_drain cr ca = handle (\<lambda>dm.
     if ho_state (dm_host dm) = HsDraining then early draining_reply else Inr (drain_tx cr ca))"

section \<open>Policies\<close>

definition policy_cas :: "nat \<Rightarrow> Policy \<Rightarrow> (string \<times> Policy) option \<Rightarrow> unit Admission" where
  "policy_cas expected pol active = (case active of
     None \<Rightarrow> guard_that (expected = 0 \<and> pl_generation pol = 1 \<and> pl_predecessor pol = None)
       PolicyStale ''first policy must be generation 1''
   | Some (dg, cur) \<Rightarrow> guard_that (expected = pl_generation cur \<and>
         pl_generation pol = pl_generation cur + 1 \<and> pl_predecessor pol = Some dg)
       PolicyStale ''generation/predecessor mismatch'')"

definition artifact_installed :: "Config \<Rightarrow> Monitor \<Rightarrow> bool" where
  "artifact_installed cfg m \<longleftrightarrow>
     (\<exists>(det, dg, _) \<in> set (cf_installed_artifacts cfg). det = mo_detector m \<and> dg = mo_artifact m)"

definition replace_policy_run :: "Crypto \<Rightarrow> Daemon \<Rightarrow> nat \<Rightarrow> string \<Rightarrow> unit T" where
  "replace_policy_run cr dm now rid = tbind (get_run rid) (\<lambda>run.
     thn (record_entity cr dm now ''RunPaused'' ''runs'' rid (run_value (paused_run ''POLICY_REPLACED'' run)) [])
     (thn (expire_run_checks cr dm now rid) (expire_run_reviews cr dm now rid)))"

definition activate_tx :: "Crypto \<Rightarrow> Caller \<Rightarrow> Signed \<Rightarrow> Policy \<Rightarrow> string \<Rightarrow> Mutation" where
  "activate_tx cr ca sv pol env = of_tx (\<lambda>dm now.
     thn (exec (tx_policy_put (sd_digest sv) (pl_generation pol) env))
     (thn (exec_ok (tx_meta_set ''active_policy'' (sd_digest sv)))
     (thn (caller_event cr dm now ca ''PolicyActivated'' (signed_value sv) [])
     (tbind (query (entity_ids_by_state ''runs'' [''OPEN''])) (\<lambda>ids.
     thn (forT (replace_policy_run cr dm now) ids)
     (ret (MOk (Obj [(''id'', Str (pl_id pol)), (''generation'', ustr (pl_generation pol)),
        (''digest'', Str (sd_digest sv))]))))))))"

definition policy_activate :: "Crypto \<Rightarrow> Caller \<Rightarrow> Value \<Rightarrow> Daemon \<Rightarrow> (HErr + MOut) \<times> Daemon" where
  "policy_activate cr ca params = handle (\<lambda>dm.
     sbind (arg params ''policy'' (signed_of cr)) (\<lambda>sv.
     sbind (arg params ''expected_generation'' u_of) (\<lambda>expected.
     sbind (q (as_code PolicyInvalid (policy_of (sd_body sv)))) (\<lambda>pol.
     sbind (q (as_code PolicyInvalid (policy_constraints pol))) (\<lambda>_.
     sbind (q (as_code PolicyInvalid (verify_signed cr (dm_trust dm) ''policy'' (cf_tenant (dm_cfg dm)) sv))) (\<lambda>_.
     sbind (guard_that (pl_tenant pol = cf_tenant (dm_cfg dm)) PolicyInvalid ''tenant mismatch'') (\<lambda>_.
     sbind (guard_that (list_all (artifact_installed (dm_cfg dm)) (pl_monitors pol))
        PolicyInvalid ''monitor artifact not installed'') (\<lambda>_.
     sbind (q (active_policy cr (dm_store dm))) (\<lambda>active.
     sbind (policy_cas expected pol active) (\<lambda>_.
     sbind (arg params ''policy'' Inr) (\<lambda>env.
     Inr (activate_tx cr ca sv pol (jcs env)))))))))))))"

section \<open>Runs\<close>

definition run_total :: nat where "run_total = 64"

definition live_runs :: "Store \<Rightarrow> nat" where
  "live_runs st = length (filter (\<lambda>(_, r). rr_state r \<in> {''OPEN'', ''PAUSED''}) (st_runs st))"

definition new_run :: "Daemon \<Rightarrow> Caller \<Rightarrow> string \<Rightarrow> string \<Rightarrow> nat \<Rightarrow> nat \<Rightarrow> string \<Rightarrow> string \<Rightarrow> string \<Rightarrow> string \<Rightarrow> Run" where
  "new_run dm ca rid source epoch guard_epoch boot mode profile policy =
     \<lparr>rn_id = rid, rn_revision = 1, rn_tenant = cf_tenant (dm_cfg dm), rn_source = source,
      rn_source_epoch = epoch, rn_runtime = pr_id (ca_principal ca), rn_guard_epoch = guard_epoch,
      rn_boot = boot, rn_mode = mode, rn_profile = profile, rn_state = RsOpen, rn_policy = policy,
      rn_cursor = empty_head, rn_last_cut_ms = None, rn_last_received_ms = None,
      rn_drift = initial_drift, rn_pause_reason = None\<rparr>"

definition open_tx :: "Crypto \<Rightarrow> Caller \<Rightarrow> Run \<Rightarrow> Mutation" where
  "open_tx cr ca run = of_tx (\<lambda>dm now.
     thn (caller_entity cr dm now ca ''RunOpened'' ''runs'' (rn_id run) (run_value run) [])
     (thn (bump ''watch_candidate_actions_total'' (rn_mode run) [] 0)
     (ret (MOk (entity_reply (rn_id run) 1 ''OPEN'')))))"

definition runs_open :: "Crypto \<Rightarrow> Caller \<Rightarrow> Value \<Rightarrow> Daemon \<Rightarrow> (HErr + MOut) \<times> Daemon" where
  "runs_open cr ca params = handle (\<lambda>dm.
     sbind (arg params ''id'' id_of) (\<lambda>rid.
     sbind (arg params ''source'' id_of) (\<lambda>source.
     sbind (arg params ''source_epoch'' u_of) (\<lambda>epoch.
     sbind (arg params ''guard_epoch'' u_of) (\<lambda>guard_epoch.
     sbind (arg params ''boot'' boot_of) (\<lambda>boot.
     sbind (arg params ''mode'' s_of) (\<lambda>mode.
     sbind (arg params ''profile'' s_of) (\<lambda>profile.
     sbind (arg params ''policy'' hash_of) (\<lambda>policy.
     sbind (q (load_run rid (dm_store dm))) (\<lambda>old.
     sbind (guard_that (old = None) StateConflict ''entity id reuse'') (\<lambda>_.
     sbind (some_or (find (\<lambda>x. src_id x = source) (cf_sources (dm_cfg dm))) NotFound ''unknown source'') (\<lambda>src.
     sbind (guard_that (src_runtime src = pr_id (ca_principal ca)) Forbidden ''not the source runtime'') (\<lambda>_.
     sbind (guard_that (src_epoch src = epoch \<and> src_profile src = profile) StateConflict
        ''source epoch/profile mismatch'') (\<lambda>_.
     sbind (guard_that (profile \<in> set (cf_certified_profiles (dm_cfg dm))) AdapterUnavailable
        ''profile not certified'') (\<lambda>_.
     sbind (guard_that (\<not> (mode = ''GUARDED'' \<and> profile = ''runtime-guard/1'' \<and> cf_deployment (dm_cfg dm) = ''lab''))
        AdapterUnavailable ''guard adapter unavailable'') (\<lambda>_.
     sbind (q (active_policy cr (dm_store dm))) (\<lambda>active.
     sbind (some_or active PolicyStale ''no active policy'') (\<lambda>(dg, _).
     sbind (guard_that (dg = policy) PolicyStale ''not the active policy'') (\<lambda>_.
     sbind (guard_that (live_runs (dm_store dm) < run_total) Capacity ''run cap'') (\<lambda>_.
     Inr (open_tx cr ca (new_run dm ca rid source epoch guard_epoch boot mode profile policy))))))))))))))))))))))"

definition run_get :: "Caller \<Rightarrow> Value \<Rightarrow> Store \<Rightarrow> Value R" where
  "run_get ca params st =
     sbind (sbind (member_of params ''id'') id_of) (\<lambda>rid.
     sbind (load_run rid st) (\<lambda>x. case x of
       Some r \<Rightarrow> if \<not> has_role ca ''runtime'' \<or> rn_runtime r = pr_id (ca_principal ca) then Inr (run_value r)
                else Inl (new_fault NotFound ''run not found'')
     | None \<Rightarrow> Inl (new_fault NotFound ''run not found'')))"

section \<open>Control of runs\<close>

text \<open>Fresh contiguous telemetry and an unchanged policy are required to resume.\<close>

definition resume_checks :: "Crypto \<Rightarrow> Daemon \<Rightarrow> string \<Rightarrow> Run \<Rightarrow> unit Admission" where
  "resume_checks cr dm rid run =
     sbind (guard_that (rn_state run = RsPaused) StateConflict ''run not PAUSED'') (\<lambda>_.
     sbind (q (active_policy cr (dm_store dm))) (\<lambda>active.
     sbind (some_or active PolicyStale ''no active policy'') (\<lambda>(dg, pol).
     sbind (guard_that (rn_policy run = dg) PolicyStale ''policy changed'') (\<lambda>_.
     sbind (some_or (latest_observation rid (dm_store dm)) SourceGap ''no telemetry'') (\<lambda>env.
     sbind (q (read_observation cr env)) (\<lambda>(sv, b).
     sbind (guard_that (ob_seq b = hd_seq (rn_cursor run) \<and> sd_digest sv = hd_hash (rn_cursor run))
        SourceGap ''telemetry not contiguous'') (\<lambda>_.
     guard_that (dm_now dm - ob_cut_ms b < pl_freshness_ms pol) SourceStale ''telemetry stale'')))))))"

definition control_allowed :: "Caller \<Rightarrow> Run \<Rightarrow> string \<Rightarrow> unit Admission" where
  "control_allowed ca run action =
    (let operator = has_role ca ''operator'';
         owner = has_role ca ''runtime'' \<and> rn_runtime run = pr_id (ca_principal ca)
     in if action = ''resume'' then guard_that operator Forbidden ''resume is operator-only''
        else if action \<in> {''pause'', ''close''}
        then guard_that (operator \<or> owner) Forbidden ''not the run controller''
        else reject SchemaInvalid ''bad action'')"

definition control_legal :: "Crypto \<Rightarrow> Daemon \<Rightarrow> string \<Rightarrow> Run \<Rightarrow> string \<Rightarrow> unit Admission" where
  "control_legal cr dm rid run action =
    (if action = ''pause'' then guard_that (rn_state run = RsOpen) StateConflict ''run not OPEN''
     else if action = ''resume'' then resume_checks cr dm rid run
     else guard_that (rn_state run \<noteq> RsClosed) StateConflict ''already closed'')"

definition controlled_run :: "string \<Rightarrow> string \<Rightarrow> Run \<Rightarrow> Run" where
  "controlled_run action reason run = (let run = run\<lparr>rn_revision := rn_revision run + 1\<rparr> in
     if action = ''pause'' then run\<lparr>rn_state := RsPaused, rn_pause_reason := Some reason\<rparr>
     else if action = ''resume'' then run\<lparr>rn_state := RsOpen, rn_pause_reason := None\<rparr>
     else run\<lparr>rn_state := RsClosed, rn_pause_reason := Some reason\<rparr>)"

definition control_kind :: "string \<Rightarrow> string" where
  "control_kind action = (if action = ''pause'' then ''RunPaused''
     else if action = ''resume'' then ''RunResumed'' else ''RunClosed'')"

definition cancel_check :: "Crypto \<Rightarrow> Daemon \<Rightarrow> nat \<Rightarrow> string \<Rightarrow> unit T" where
  "cancel_check cr dm now cid = tbind (get_check cr cid) (\<lambda>c.
     record_entity cr dm now ''CheckFinalized'' ''checks'' cid
       (check_value (decided_check CsCancelled ''CANCELLED'' c)) (check_causes c))"

text \<open>Without an order the engine returns the checks of a run in the order of the table.\<close>

definition pending_checks :: "string \<Rightarrow> Store \<Rightarrow> string list" where
  "pending_checks rid st = map fst (filter (\<lambda>(_, r). cr_run r = rid \<and> cr_state r = ''EVALUATING'') (st_checks st))"

definition control_tx :: "Crypto \<Rightarrow> Caller \<Rightarrow> string \<Rightarrow> string \<Rightarrow> Run \<Rightarrow> Mutation" where
  "control_tx cr ca rid action run = of_tx (\<lambda>dm now.
     thn (caller_entity cr dm now ca (control_kind action) ''runs'' rid (run_value run) [])
     (thn (if action = ''pause'' then expire_run_checks cr dm now rid
           else if action = ''close'' then
             tbind (look (pending_checks rid)) (\<lambda>ids.
             thn (forT (cancel_check cr dm now) ids) (expire_run_reviews cr dm now rid))
           else ret ())
     (ret (MOk (entity_reply rid (rn_revision run) (run_state_as_str (rn_state run)))))))"

definition runs_control :: "Crypto \<Rightarrow> Caller \<Rightarrow> Value \<Rightarrow> Daemon \<Rightarrow> (HErr + MOut) \<times> Daemon" where
  "runs_control cr ca params = handle (\<lambda>dm.
     sbind (arg params ''id'' id_of) (\<lambda>rid.
     sbind (arg params ''expected_revision'' u_of) (\<lambda>expected.
     sbind (arg params ''action'' s_of) (\<lambda>action.
     sbind (arg params ''reason'' text_of) (\<lambda>reason.
     sbind (q (load_run rid (dm_store dm))) (\<lambda>x.
     sbind (some_or x NotFound ''run not found'') (\<lambda>run.
     sbind (control_allowed ca run action) (\<lambda>_.
     sbind (guard_that (rn_revision run = expected) RevisionConflict ''revision mismatch'') (\<lambda>_.
     sbind (control_legal cr dm rid run action) (\<lambda>_.
     Inr (control_tx cr ca rid action (controlled_run action reason run))))))))))))"

section \<open>Observations\<close>

text \<open>The faults of a source pause or quarantine the run, and are committed.\<close>

definition source_fault_run :: "RunState \<Rightarrow> Code \<Rightarrow> Run \<Rightarrow> Run" where
  "source_fault_run rs c run = run\<lparr>rn_state := rs, rn_pause_reason := Some (code_as_str c),
     rn_revision := rn_revision run + 1\<rparr>"

definition pause_source :: "Crypto \<Rightarrow> Caller \<Rightarrow> Run \<Rightarrow> Code \<Rightarrow> string \<Rightarrow> Mutation" where
  "pause_source cr ca run c msg = of_tx (\<lambda>dm now.
     thn (caller_entity cr dm now ca ''RunPaused'' ''runs'' (rn_id run)
            (run_value (source_fault_run RsPaused c run)) [])
     (thn (expire_run_checks cr dm now (rn_id run))
     (thn (bump ''watch_source_faults_total'' [] ''gap'' 1)
     (ret (MFault (new_fault c msg))))))"

definition quarantine :: "Crypto \<Rightarrow> Caller \<Rightarrow> Run \<Rightarrow> Code \<Rightarrow> string \<Rightarrow> Mutation" where
  "quarantine cr ca run c msg = of_tx (\<lambda>dm now.
     thn (caller_entity cr dm now ca ''RunQuarantined'' ''runs'' (rn_id run)
            (run_value (source_fault_run RsQuarantined c run)) [])
     (thn (expire_run_checks cr dm now (rn_id run))
     (thn (expire_run_reviews cr dm now (rn_id run))
     (thn (bump ''watch_source_faults_total'' [] (if c = SourceFork then ''fork'' else ''binding'') 1)
     (ret (MFault (new_fault c msg)))))))"

definition append_reply :: "bool \<Rightarrow> Run \<Rightarrow> Value" where
  "append_reply accepted run = Obj [(''accepted'', Bool accepted), (''cursor'', head_value (rn_cursor run)),
     (''run_revision'', ustr (rn_revision run))]"

text \<open>A stop that commits: the handler goes on with another mutation.\<close>

type_synonym 'a Divert = "((HErr + MOut) + Mutation) + 'a"

definition lift_stop :: "'a Admission \<Rightarrow> 'a Divert" where
  "lift_stop r = map_err Inl r"

definition divert_if :: "bool \<Rightarrow> Mutation \<Rightarrow> unit Divert" where
  "divert_if b m = (if b then Inl (Inr m) else Inr ())"

definition divert :: "'a Divert \<Rightarrow> ('a \<Rightarrow> Mutation) \<Rightarrow> Mutation Admission" where
  "divert r f = (case r of Inl (Inl stop) \<Rightarrow> Inl stop | Inl (Inr m) \<Rightarrow> Inr m | Inr x \<Rightarrow> Inr (f x))"

text \<open>The binding of the observation to its run, source and key.\<close>

definition observation_binding :: "Crypto \<Rightarrow> Caller \<Rightarrow> Daemon \<Rightarrow> Signed \<Rightarrow> ObservationBody \<Rightarrow> Run Admission" where
  "observation_binding cr ca dm osv b =
     sbind (q (load_run (ob_run b) (dm_store dm))) (\<lambda>x.
     sbind (some_or x NotFound ''run not found'') (\<lambda>run.
     sbind (guard_that (rn_runtime run = pr_id (ca_principal ca)) Forbidden ''not the run runtime'') (\<lambda>_.
     sbind (guard_that (rn_state run \<noteq> RsClosed \<and> rn_state run \<noteq> RsQuarantined) StateConflict ''run closed'') (\<lambda>_.
     sbind (guard_that (ob_tenant b = cf_tenant (dm_cfg dm) \<and> ob_source b = rn_source run \<and>
        ob_epoch b = rn_source_epoch run) SourceBinding ''source binding mismatch'') (\<lambda>_.
     sbind (guard_that (ob_boot b = rn_boot run) SourceBinding ''boot mismatch'') (\<lambda>_.
     sbind (some_or (find (\<lambda>x. src_id x = ob_source b) (cf_sources (dm_cfg dm))) NotFound ''unknown source'') (\<lambda>src.
     sbind (q (as_code SignatureInvalid (verify_signed_key cr (dm_trust dm) ''observation'' (ob_source b)
        (src_key_id src) (src_key_epoch src) osv))) (\<lambda>_.
     Inr run))))))))"

text \<open>The place of the observation in the sequence of its run.\<close>

definition sequence_admission ::
  "Crypto \<Rightarrow> Caller \<Rightarrow> Daemon \<Rightarrow> Run \<Rightarrow> Signed \<Rightarrow> ObservationBody \<Rightarrow> unit Divert" where
  "sequence_admission cr ca dm run osv b =
    (let at = hd_seq (rn_cursor run) in
     if ob_seq b = at then
       (if sd_digest osv = hd_hash (rn_cursor run) then lift_stop (early (append_reply False run))
        else Inl (Inr (quarantine cr ca run SourceFork ''same-slot conflicting bytes'')))
     else if ob_seq b < at then
       sbind (lift_stop (q (observation_by_ref cr \<lparr>rf_source = ob_source b, rf_epoch = ob_epoch b,
          rf_seq = ob_seq b, rf_hash = sd_digest osv\<rparr> (dm_store dm)))) (\<lambda>x.
         if (case x of None \<Rightarrow> False | Some (sv, _) \<Rightarrow> sd_digest sv = sd_digest osv)
         then lift_stop (early (append_reply False run))
         else Inl (Inr (quarantine cr ca run SourceFork ''earlier conflicting seq'')))
     else if ob_seq b > at + 1 then Inl (Inr (pause_source cr ca run SourceGap ''sequence gap''))
     else divert_if (ob_prev b \<noteq> hd_hash (rn_cursor run)) (quarantine cr ca run SourceFork ''prev mismatch''))"

text \<open>Clocks and counters do not go back.\<close>

definition counter_admission :: "Crypto \<Rightarrow> Caller \<Rightarrow> Daemon \<Rightarrow> Run \<Rightarrow> ObservationBody \<Rightarrow> unit Divert" where
  "counter_admission cr ca dm run b =
     sbind (lift_stop (guard_that (ob_cut_ms b \<le> dm_now dm) ClockFault ''future cut'')) (\<lambda>_.
     sbind (divert_if (case rn_last_cut_ms run of None \<Rightarrow> False | Some c \<Rightarrow> ob_cut_ms b < c)
        (quarantine cr ca run CounterRollback ''cut_ms decreased'')) (\<lambda>_.
     sbind (case latest_observation (rn_id run) (dm_store dm) of
         None \<Rightarrow> Inr None
       | Some env \<Rightarrow> lift_stop (q (sbind (read_observation cr env) (\<lambda>(_, lb).
           Inr (Some (sn_committed_minor (ob_snapshot lb))))))) (\<lambda>committed.
     divert_if (case committed of None \<Rightarrow> False | Some c \<Rightarrow> sn_committed_minor (ob_snapshot b) < c)
        (quarantine cr ca run CounterRollback ''committed decreased''))))"

definition window_admission :: "Crypto \<Rightarrow> Caller \<Rightarrow> Daemon \<Rightarrow> Run \<Rightarrow> ObservationBody \<Rightarrow> unit Divert" where
  "window_admission cr ca dm run b = (case sn_window (ob_snapshot b) of
     None \<Rightarrow> Inr ()
   | Some w \<Rightarrow>
       sbind (lift_stop (guard_that (wn_start_ms w mod window_ms = 0) SchemaInvalid ''window start misaligned'')) (\<lambda>_.
       sbind (lift_stop (guard_that (wn_start_ms w + window_ms \<le> ob_cut_ms b) SchemaInvalid ''window end past cut'')) (\<lambda>_.
       case window_counts (rn_id run) (wn_start_ms w) (dm_store dm) of
         Some (Some existing) \<Rightarrow>
           sbind (lift_stop (q (read_body ''window parse'' window_of existing))) (\<lambda>ew.
           divert_if (wn_counts ew \<noteq> wn_counts w) (quarantine cr ca run SourceFork ''window counts changed''))
       | _ \<Rightarrow> Inr ())))"

definition link_window :: "string \<Rightarrow> Window option \<Rightarrow> unit T" where
  "link_window rid win = (case win of
     None \<Rightarrow> ret ()
   | Some w \<Rightarrow> tbind (look (window_attempted rid (wn_start_ms w))) (\<lambda>attempted.
       if attempted then ret ()
       else exec_ok (tx_window_put rid (wn_start_ms w) (Some (jcs (window_value w))))))"

definition observed_run :: "nat \<Rightarrow> Signed \<Rightarrow> ObservationBody \<Rightarrow> Run \<Rightarrow> Run" where
  "observed_run now osv b run = run\<lparr>rn_cursor := \<lparr>hd_seq = ob_seq b, hd_hash = sd_digest osv\<rparr>,
     rn_last_cut_ms := Some (ob_cut_ms b), rn_last_received_ms := Some now, rn_revision := rn_revision run + 1\<rparr>"

definition accept_tx :: "Crypto \<Rightarrow> Caller \<Rightarrow> Signed \<Rightarrow> ObservationBody \<Rightarrow> string \<Rightarrow> Run \<Rightarrow> Mutation" where
  "accept_tx cr ca osv b env run = of_tx (\<lambda>dm now.
     thn (exec (tx_insert_observation (rn_id run) (ob_source b) (ob_epoch b) (ob_seq b) (sd_digest osv) env))
     (thn (link_window (rn_id run) (sn_window (ob_snapshot b)))
     (thn (caller_entity cr dm now ca ''ObservationAccepted'' ''runs'' (rn_id run) (run_value run) [sd_digest osv])
     (ret (MOk (append_reply True run))))))"

definition observations_append :: "Crypto \<Rightarrow> Caller \<Rightarrow> Value \<Rightarrow> Daemon \<Rightarrow> (HErr + MOut) \<times> Daemon" where
  "observations_append cr ca params = handle (\<lambda>dm.
     sbind (arg params ''observation'' Inr) (\<lambda>env.
     sbind (q (signed_of cr env)) (\<lambda>osv.
     sbind (q (as_code SchemaInvalid (observation_body_of (sd_body osv)))) (\<lambda>b.
     sbind (observation_binding cr ca dm osv b) (\<lambda>run.
     divert (sbind (sequence_admission cr ca dm run osv b) (\<lambda>_.
             sbind (counter_admission cr ca dm run b) (\<lambda>_.
             window_admission cr ca dm run b)))
       (\<lambda>_. accept_tx cr ca osv b (jcs env) (observed_run (dm_now dm) osv b run)))))))"

end
