(* ===== verification/MethodsChecks.thy ===== *)
theory MethodsChecks
  imports MethodsRuns
begin

text \<open>
  Checks and effects (\<open>methods.rs\<close>: \<open>checks_create\<close>, \<open>check_get\<close>, \<open>checks_cancel\<close>, \<open>effects_record\<close>).
\<close>

section \<open>Creation\<close>

definition check_total :: nat where "check_total = 128"
definition check_per_run :: nat where "check_per_run = 16"

definition evaluating :: "string option \<Rightarrow> Store \<Rightarrow> nat" where
  "evaluating run st = length (filter (\<lambda>(_, r).
     (case run of None \<Rightarrow> True | Some rid \<Rightarrow> cr_run r = rid) \<and> cr_state r = ''EVALUATING'') (st_checks st))"

text \<open>The predicate on a supplied review at admission; its findings are compared at finalization.\<close>

definition review_usable :: "nat \<Rightarrow> string \<Rightarrow> string \<Rightarrow> string \<Rightarrow> Run \<Rightarrow> Intent \<Rightarrow> ObservationBody \<Rightarrow> Review \<Rightarrow> bool" where
  "review_usable now rid intent_d pdg run intent ob rv \<longleftrightarrow> rv_state rv = RvAccepted \<and>
     (case rv_accepted_until_ms rv of None \<Rightarrow> False | Some a \<Rightarrow> now < a) \<and>
     (case rv_basis rv of None \<Rightarrow> False | Some b \<Rightarrow>
        bs_run b = rid \<and> bs_intent b = intent_d \<and> bs_policy b = pdg \<and> bs_guard_epoch b = rn_guard_epoch run \<and>
        bs_target_revision b = it_target_revision intent \<and>
        sat_add64 (sat_add64 (sn_committed_minor (ob_snapshot ob)) (sn_reserved_minor (ob_snapshot ob)))
          (it_cost_minor intent) \<le> bs_max_total_minor b)"

definition review_admission ::
  "Daemon \<Rightarrow> string \<Rightarrow> string \<Rightarrow> string \<Rightarrow> Run \<Rightarrow> Intent \<Rightarrow> ObservationBody \<Rightarrow> string option \<Rightarrow> unit Admission" where
  "review_admission dm rid intent_d pdg run intent ob review = (case review of
     None \<Rightarrow> Inr ()
   | Some rvid \<Rightarrow> sbind (q (load_review rvid (dm_store dm))) (\<lambda>x.
       sbind (some_or x NotFound ''unknown review'') (\<lambda>rv.
       guard_that (review_usable (dm_now dm) rid intent_d pdg run intent ob rv) ReviewStale ''supplied review unusable'')))"

definition new_check :: "nat \<Rightarrow> string \<Rightarrow> string \<Rightarrow> Intent \<Rightarrow> Ref \<Rightarrow> string \<Rightarrow> Policy \<Rightarrow> string option \<Rightarrow> Check" where
  "new_check now cid rid intent oref pdg pol review =
     \<lparr>ck_id = cid, ck_revision = 1, ck_run = rid, ck_intent = intent, ck_observation = oref, ck_policy = pdg,
      ck_state = CsEvaluating, ck_created_ms = now, ck_deadline_ms = wadd64 now (pl_evaluation_ms pol),
      ck_results = [], ck_review = review, ck_clearance = None, ck_reason = ''PENDING''\<rparr>"

text \<open>The slot of a required monitor and its job in the outbox.\<close>

definition queue_job :: "nat \<Rightarrow> Check \<Rightarrow> Policy \<Rightarrow> string \<Rightarrow> Monitor \<Rightarrow> unit T" where
  "queue_job now c pol env m =
     thn (exec_ok (tx_slot_put (ck_id c) (mo_id m) (wadd64 now (mo_deadline_ms m)) ''pending'' None))
     (tbind (liftR (read_body ''obs parse'' Inr env)) (\<lambda>obs.
      exec_ok (tx_outbox_put ''monitor_job'' (job_id c m) now (jcs (job_value c pol obs m)))))"

definition latched_deny :: "Check \<Rightarrow> Check" where
  "latched_deny c = decided_check CsDeny ''REVIEW_REJECTED'' c"

definition create_tx :: "Crypto \<Rightarrow> Caller \<Rightarrow> Run \<Rightarrow> Policy \<Rightarrow> string \<Rightarrow> bool \<Rightarrow> Check \<Rightarrow> Mutation" where
  "create_tx cr ca run pol env latch c = of_tx (\<lambda>dm now.
     thn (caller_entity cr dm now ca ''CheckStarted'' ''checks'' (ck_id c) (check_value c) [rf_hash (ck_observation c)])
     (thn (forT (queue_job now c pol env) (filter required_monitor (pl_monitors pol)))
     (thn (exec (tx_action_put (ck_run c) (it_action (ck_intent c)) (intent_digest cr (ck_intent c)) latch))
     (thn (bump ''watch_candidate_actions_total'' (rn_mode run) [] 1)
     (if latch then
        (let c2 = latched_deny c in
         thn (record_entity cr dm now ''CheckFinalized'' ''checks'' (ck_id c) (check_value c2) (check_causes c))
         (thn (checks_total ''DENY'')
         (ret (MOk (entity_reply (ck_id c) (ck_revision c2) ''DENY'')))))
      else ret (MOk (entity_reply (ck_id c) 1 ''EVALUATING'')))))))"

definition create_admission :: "Crypto \<Rightarrow> Caller \<Rightarrow> Value \<Rightarrow> Daemon \<Rightarrow> Mutation Admission" where
  "create_admission cr ca params dm =
     sbind (arg params ''id'' id_of) (\<lambda>cid.
     sbind (arg params ''run'' id_of) (\<lambda>rid.
     sbind (arg params ''intent'' intent_of) (\<lambda>intent.
     sbind (arg params ''observation'' ref_of) (\<lambda>oref.
     sbind (arg params ''review'' opt_id) (\<lambda>review.
     sbind (q (load_run rid (dm_store dm))) (\<lambda>x.
     sbind (some_or x NotFound ''run not found'') (\<lambda>run.
     sbind (guard_that (rn_runtime run = pr_id (ca_principal ca)) Forbidden ''not the run runtime'') (\<lambda>_.
     sbind (q (load_check cr cid (dm_store dm))) (\<lambda>old.
     sbind (guard_that (old = None) StateConflict ''entity id reuse'') (\<lambda>_.
     sbind (guard_that (rn_state run = RsOpen) StateConflict ''run not OPEN'') (\<lambda>_.
     sbind (q (observation_by_ref cr oref (dm_store dm))) (\<lambda>x.
     sbind (some_or x NotFound ''unknown observation'') (\<lambda>(_, ob).
     sbind (guard_that (ob_run ob = rid) SourceBinding ''observation bound to another run'') (\<lambda>_.
     sbind (q (active_policy cr (dm_store dm))) (\<lambda>active.
     sbind (some_or active PolicyStale ''no active policy'') (\<lambda>(pdg, pol).
     sbind (guard_that (rn_policy run = pdg) PolicyStale ''policy changed'') (\<lambda>_.
     sbind (guard_that (dm_now dm - ob_cut_ms ob < pl_freshness_ms pol) SourceStale ''observation stale'') (\<lambda>_.
     sbind (guard_that (it_target_revision intent = sn_target_revision (ob_snapshot ob)) TargetStale
        ''target revision mismatch'') (\<lambda>_.
     let intent_d = intent_digest cr intent; prior = tx_action_get rid (it_action intent) (dm_store dm) in
     sbind (guard_that (case prior of None \<Rightarrow> True | Some (dg, _) \<Rightarrow> dg = intent_d) IdempotencyConflict
        ''changed intent under recorded action'') (\<lambda>_.
     sbind (review_admission dm rid intent_d pdg run intent ob review) (\<lambda>_.
     sbind (guard_that (evaluating None (dm_store dm) < check_total \<and>
        evaluating (Some rid) (dm_store dm) < check_per_run) Capacity ''check capacity'') (\<lambda>_.
     sbind (some_or (map_option or_envelope (find (\<lambda>row. or_source row = rf_source oref \<and>
        or_epoch row = rf_epoch oref \<and> or_seq row = rf_seq oref \<and> or_digest row = rf_hash oref)
        (st_observations (dm_store dm)))) NotFound ''unknown observation'') (\<lambda>env.
     Inr (create_tx cr ca run pol env (case prior of None \<Rightarrow> False | Some (_, latch) \<Rightarrow> latch)
       (new_check (dm_now dm) cid rid intent oref pdg pol review)))))))))))))))))))))))))"

text \<open>After a committed creation the queued jobs are sent.\<close>

definition checks_create :: "Crypto \<Rightarrow> Caller \<Rightarrow> Value \<Rightarrow> Daemon \<Rightarrow> (HErr + MOut) \<times> Daemon" where
  "checks_create cr ca params dm = (case handle (create_admission cr ca params) dm of
     (Inr (MOk v), dm') \<Rightarrow> (Inr (MOk v), tick_outbox (dm_now dm) dm')
   | other \<Rightarrow> other)"

section \<open>Reading and cancelling\<close>

definition run_of_check :: "Check \<Rightarrow> Store \<Rightarrow> Run R" where
  "run_of_check c st = sbind (load_run (ck_run c) st) (\<lambda>x. ok_or x (audit_unavailable ''run lost''))"

definition check_get :: "Crypto \<Rightarrow> Caller \<Rightarrow> Value \<Rightarrow> Store \<Rightarrow> Value R" where
  "check_get cr ca params st =
     sbind (sbind (member_of params ''id'') id_of) (\<lambda>cid.
     sbind (load_check cr cid st) (\<lambda>x. case x of
       None \<Rightarrow> Inl (new_fault NotFound ''check not found'')
     | Some c \<Rightarrow> sbind (run_of_check c st) (\<lambda>run.
         if has_role ca ''runtime'' \<and> rn_runtime run \<noteq> pr_id (ca_principal ca)
         then Inl (new_fault NotFound ''check not found'') else Inr (check_value c))))"

definition cancel_tx :: "Crypto \<Rightarrow> Caller \<Rightarrow> string \<Rightarrow> Check \<Rightarrow> Mutation" where
  "cancel_tx cr ca cid c = of_tx (\<lambda>dm now.
     thn (caller_entity cr dm now ca ''CheckFinalized'' ''checks'' cid (check_value c) (check_causes c))
     (thn (checks_total ''CANCELLED'')
     (ret (MOk (entity_reply cid (ck_revision c) ''CANCELLED'')))))"

definition cancel_admission :: "Crypto \<Rightarrow> Caller \<Rightarrow> Value \<Rightarrow> Daemon \<Rightarrow> Mutation Admission" where
  "cancel_admission cr ca params dm =
     sbind (arg params ''id'' id_of) (\<lambda>cid.
     sbind (arg params ''expected_revision'' u_of) (\<lambda>expected.
     sbind (q (load_check cr cid (dm_store dm))) (\<lambda>x.
     sbind (some_or x NotFound ''check not found'') (\<lambda>c.
     sbind (q (run_of_check c (dm_store dm))) (\<lambda>run.
     sbind (guard_that (has_role ca ''operator'' \<or> rn_runtime run = pr_id (ca_principal ca)) Forbidden
        ''not the run controller'') (\<lambda>_.
     sbind (guard_that (ck_revision c = expected) RevisionConflict ''revision mismatch'') (\<lambda>_.
     sbind (guard_that (ck_state c = CsEvaluating) StateConflict ''check already terminal'') (\<lambda>_.
     Inr (cancel_tx cr ca cid (decided_check CsCancelled ''CANCELLED'' c))))))))))"

definition checks_cancel :: "Crypto \<Rightarrow> Caller \<Rightarrow> Value \<Rightarrow> Daemon \<Rightarrow> (HErr + MOut) \<times> Daemon" where
  "checks_cancel cr ca params = handle (cancel_admission cr ca params)"

section \<open>Effects\<close>

text \<open>The transitions of the chain of an action, from the stored state to the next one.\<close>

definition effect_transition :: "string \<Rightarrow> EffectState \<Rightarrow> bool" where
  "effect_transition old new \<longleftrightarrow> (old, new) \<in> {(''DECLARED'', EsConfirmed), (''DECLARED'', EsNotDispatched),
     (''DECLARED'', EsUnknown), (''UNKNOWN'', EsConfirmed), (''UNKNOWN'', EsNotDispatched)}"

definition effect_chain :: "EffectBody \<Rightarrow> (string \<times> string) option \<Rightarrow> unit Admission" where
  "effect_chain eb prior = (case prior of
     None \<Rightarrow> sbind (guard_that (ef_predecessor eb = None) EffectConflict ''root has predecessor'') (\<lambda>_.
       guard_that (ef_state eb = EsDeclared \<or> ef_state eb = EsNotDispatched) EffectConflict ''root must declare'')
   | Some (pdg, pstate) \<Rightarrow>
       sbind (guard_that (ef_predecessor eb = Some pdg) EffectConflict ''predecessor mismatch'') (\<lambda>_.
       guard_that (effect_transition pstate (ef_state eb)) EffectConflict ''contradictory evidence''))"

text \<open>The check that was cleared and its \<open>GUARDED\<close> clearance are the evidence of an effect.\<close>

definition effect_evidence :: "Crypto \<Rightarrow> EffectBody \<Rightarrow> Check \<Rightarrow> unit Admission" where
  "effect_evidence cr eb c =
     sbind (guard_that (ck_run c = ef_run eb) StateConflict ''check bound elsewhere'') (\<lambda>_.
     sbind (guard_that (ck_state c = CsClear) StateConflict ''no finalized clearance'') (\<lambda>_.
     sbind (some_or (ck_clearance c) StateConflict ''no clearance on check'') (\<lambda>cl.
     sbind (guard_that (sd_digest cl = ef_clearance eb) StateConflict ''clearance digest mismatch'') (\<lambda>_.
     sbind (q (clearance_body_of (sd_body cl))) (\<lambda>cb.
     sbind (guard_that (cl_mode cb = ''GUARDED'') Forbidden ''non-GUARDED clearance'') (\<lambda>_.
     guard_that (ef_intent eb = intent_digest cr (ck_intent c)) EffectConflict ''intent mismatch''))))))"

definition effect_binding :: "Crypto \<Rightarrow> Caller \<Rightarrow> Daemon \<Rightarrow> Signed \<Rightarrow> EffectBody \<Rightarrow> unit Admission" where
  "effect_binding cr ca dm esv eb =
    (let who = pr_id (ca_principal ca) in
     sbind (q (load_run (ef_run eb) (dm_store dm))) (\<lambda>x.
     sbind (some_or x NotFound ''run not found'') (\<lambda>run.
     sbind (guard_that (rn_runtime run = who \<and> ef_runtime eb = who) Forbidden ''not the run runtime'') (\<lambda>_.
     sbind (guard_that (ef_tenant eb = cf_tenant (dm_cfg dm)) SourceBinding ''tenant mismatch'') (\<lambda>_.
     sbind (some_or (find (\<lambda>x. src_runtime x = who) (cf_sources (dm_cfg dm))) Forbidden ''no source for runtime'') (\<lambda>src.
     sbind (q (as_code SignatureInvalid (verify_signed_key cr (dm_trust dm) ''effect'' (ef_runtime eb)
        (src_key_id src) (src_key_epoch src) esv))) (\<lambda>_.
     sbind (guard_that (ef_guard_epoch eb = rn_guard_epoch run \<and> ef_boot eb = rn_boot run) StateConflict
        ''epoch/boot mismatch'') (\<lambda>_.
     sbind (guard_that (ef_at_ms eb \<le> dm_now dm) ClockFault ''future effect'') (\<lambda>_.
     sbind (q (load_check cr (ef_check eb) (dm_store dm))) (\<lambda>x.
     sbind (some_or x StateConflict ''missing check seed'') (\<lambda>c.
     effect_evidence cr eb c)))))))))))"

definition effect_reply :: "string \<Rightarrow> EffectState \<Rightarrow> string \<Rightarrow> Value" where
  "effect_reply action es digest = Obj [(''action'', Str action), (''state'', Str (effect_state_as_str es)),
     (''digest'', Str digest)]"

text \<open>The same bytes recorded before are answered without a new record.\<close>

definition effect_repeat :: "Crypto \<Rightarrow> string \<Rightarrow> string \<Rightarrow> Store \<Rightarrow> unit Admission" where
  "effect_repeat cr digest env st = (case effect_get digest st of
     None \<Rightarrow> Inr ()
   | Some old \<Rightarrow> if old \<noteq> env then Inr ()
       else sbind (q (sbind (read_body ''effect parse'' (signed_of cr) old) (\<lambda>sv. effect_body_of (sd_body sv)))) (\<lambda>b.
         early (effect_reply (ef_action b) (ef_state b) digest)))"

definition effect_tx :: "Crypto \<Rightarrow> Caller \<Rightarrow> Signed \<Rightarrow> EffectBody \<Rightarrow> string \<Rightarrow> Mutation" where
  "effect_tx cr ca esv eb env = of_tx (\<lambda>dm now.
     thn (exec (tx_effect_insert (sd_digest esv) (ef_run eb) (ef_action eb) (ef_predecessor eb)
            (effect_state_as_str (ef_state eb)) env))
     (thn (caller_event cr dm now ca ''EffectRecorded'' (signed_value esv) [sd_digest esv])
     (ret (MOk (effect_reply (ef_action eb) (ef_state eb) (sd_digest esv))))))"

definition effects_record :: "Crypto \<Rightarrow> Caller \<Rightarrow> Value \<Rightarrow> Daemon \<Rightarrow> (HErr + MOut) \<times> Daemon" where
  "effects_record cr ca params = handle (\<lambda>dm.
     sbind (arg params ''effect'' Inr) (\<lambda>env.
     sbind (q (signed_of cr env)) (\<lambda>esv.
     sbind (q (as_code SchemaInvalid (effect_body_of (sd_body esv)))) (\<lambda>eb.
     sbind (effect_binding cr ca dm esv eb) (\<lambda>_.
     sbind (effect_repeat cr (sd_digest esv) (jcs env) (dm_store dm)) (\<lambda>_.
     sbind (effect_chain eb (tx_effect_head (ef_run eb) (ef_action eb) (dm_store dm))) (\<lambda>_.
     Inr (effect_tx cr ca esv eb (jcs env)))))))))"

end
