(* ===== verification/MethodsReviews.thy ===== *)
theory MethodsReviews
  imports MethodsChecks
begin

text \<open>
  The review queue and alerts (\<open>methods.rs\<close>: \<open>list_page\<close>, \<open>resolve_through\<close>, \<open>review_card\<close>,
  \<open>next_open_review\<close>, \<open>reviews_claim\<close>, \<open>expire_then_fault\<close>, \<open>release_then_fault\<close>, \<open>reviews_resolve\<close>,
  \<open>alerts_resolve\<close>).
\<close>

section \<open>Pages and cards\<close>

definition resolve_through :: "Store \<Rightarrow> Value \<Rightarrow> Head R" where
  "resolve_through st v = (if v = Null then Inr (tx_head st)
     else sbind (head_of v) (\<lambda>h. if head_exists h st then Inr h
       else Inl (new_fault NotFound ''through head not in retained history'')))"

definition page_value :: "Value list \<Rightarrow> Head \<Rightarrow> nat option \<Rightarrow> Value" where
  "page_value items through next_after = Obj [
     (''items'', Arr items),
     (''through'', head_value through),
     (''next_after'', opt_value ustr next_after)]"

definition list_page :: "string \<Rightarrow> Value \<Rightarrow> Store \<Rightarrow> Value R" where
  "list_page entity params st =
     sbind (sbind (member_of params ''run'') opt_id) (\<lambda>run.
     sbind (sbind (member_of params ''after'') u_of) (\<lambda>after.
     sbind (sbind (member_of params ''limit'') n_of) (\<lambda>limit.
     sbind (sbind (member_of params ''through'') (resolve_through st)) (\<lambda>through.
     sbind (list_at entity run after (hd_seq through) limit st) (\<lambda>(items, nxt).
     sbind (mapR (\<lambda>(_, body). read_body ''body parse'' Inr body) items) (\<lambda>vals.
     Inr (page_value vals through nxt)))))))"

definition linked_value :: "'a option R \<Rightarrow> ('a \<Rightarrow> Value) \<Rightarrow> Value R" where
  "linked_value r f = sbind r (\<lambda>x. Inr (case x of None \<Rightarrow> Null | Some y \<Rightarrow> f y))"

text \<open>The observation of the linked check; retired bytes are an error while the review is active.\<close>

definition card_observation :: "Crypto \<Rightarrow> Review \<Rightarrow> Store \<Rightarrow> Value R" where
  "card_observation cr rv st = (case rv_check rv of
     None \<Rightarrow> Inr Null
   | Some cid \<Rightarrow> sbind (load_check cr cid st) (\<lambda>x. case x of
       None \<Rightarrow> Inr Null
     | Some c \<Rightarrow> sbind (observation_by_ref cr (ck_observation c) st) (\<lambda>o1.
         if o1 = None then
           (if review_active (rv_state rv) then Inl (new_fault ArtifactUnavailable ''evidence retired'') else Inr Null)
         else case find (\<lambda>row. or_source row = rf_source (ck_observation c) \<and>
             or_epoch row = rf_epoch (ck_observation c) \<and> or_seq row = rf_seq (ck_observation c) \<and>
             or_digest row = rf_hash (ck_observation c)) (st_observations st) of
           None \<Rightarrow> Inr Null
         | Some row \<Rightarrow> read_body ''obs parse'' Inr (or_envelope row))))"

definition card_policy :: "Crypto \<Rightarrow> Run \<Rightarrow> Store \<Rightarrow> Value R" where
  "card_policy cr run st = (case policy_get (rn_policy run) st of
     None \<Rightarrow> Inl (new_fault ArtifactUnavailable ''policy unavailable'')
   | Some b \<Rightarrow> (case parse b reply_limits of
       Inl _ \<Rightarrow> Inl (new_fault ArtifactUnavailable ''policy unavailable'')
     | Inr v \<Rightarrow> (case signed_of cr v of
         Inl _ \<Rightarrow> Inl (new_fault ArtifactUnavailable ''policy unavailable'')
       | Inr _ \<Rightarrow> Inr v)))"

definition review_card :: "Crypto \<Rightarrow> Caller \<Rightarrow> Value \<Rightarrow> Daemon \<Rightarrow> Value R" where
  "review_card cr ca params dm = (let st = dm_store dm in
     sbind (sbind (member_of params ''id'') id_of) (\<lambda>rid.
     sbind (load_review rid st) (\<lambda>x. case x of
       None \<Rightarrow> Inl (new_fault NotFound ''review not found'')
     | Some rv \<Rightarrow>
         sbind (sbind (load_run (rv_run rv) st) (\<lambda>x. ok_or x (audit_unavailable ''run lost''))) (\<lambda>run.
         if has_role ca ''runtime'' then Inl (new_fault NotFound ''review not found'') else
         sbind (case rv_check rv of None \<Rightarrow> Inr Null
                | Some cid \<Rightarrow> linked_value (load_check cr cid st) check_value) (\<lambda>check_v.
         sbind (case rv_alert rv of None \<Rightarrow> Inr Null
                | Some aid \<Rightarrow> linked_value (load_alert aid st) alert_value) (\<lambda>alert_v.
         sbind (card_observation cr rv st) (\<lambda>obs_v.
         sbind (card_policy cr run st) (\<lambda>pol_v.
         Inr (Obj [(''review'', review_value rv), (''check'', check_v), (''alert'', alert_v),
           (''observation'', obs_v), (''policy'', pol_v), (''run'', run_value run),
           (''at_ms'', ustr (dm_now dm))])))))))))"

section \<open>The queue\<close>

text \<open>\<open>read_body\<close> with the message of this reader.\<close>

definition open_reviews :: "Store \<Rightarrow> Review list R" where
  "open_reviews st = mapR (\<lambda>(_, r). read_body ''review parse'' review_of (vr_body r))
     (sort_by by_id (filter (\<lambda>(_, r). vr_state r = ''OPEN'') (st_reviews st)))"

definition review_before :: "Review \<Rightarrow> Review \<Rightarrow> bool" where
  "review_before a b \<longleftrightarrow> str_less (rv_run a) (rv_run b) \<or>
     rv_run a = rv_run b \<and> rv_created_seq a \<le> rv_created_seq b"

definition cursor_key :: "nat \<Rightarrow> string" where
  "cursor_key rank = ''queue_cursor:'' @ dec rank"

text \<open>The most urgent level; within it the runs take turns, and within a run the oldest is first.\<close>

definition most_urgent :: "Review list \<Rightarrow> Review list" where
  "most_urgent items = filter (\<lambda>r. \<forall>x \<in> set items. level_rank (rv_level r) \<le> level_rank (rv_level x)) items"

definition choose_review :: "string \<Rightarrow> Review list \<Rightarrow> Review option" where
  "choose_review cursor items = (case sort_by review_before items of
     [] \<Rightarrow> None
   | r # rs \<Rightarrow> if cursor = [] then Some r
       else (case find (\<lambda>x. str_less cursor (rv_run x)) (r # rs) of None \<Rightarrow> Some r | Some x \<Rightarrow> Some x))"

definition next_open_review :: "Store \<Rightarrow> Review option R" where
  "next_open_review st = sbind (open_reviews st) (\<lambda>items.
     let urgent = most_urgent items in
     case urgent of
       [] \<Rightarrow> Inr None
     | u # _ \<Rightarrow> Inr (choose_review
         (case meta_get st (cursor_key (level_rank (rv_level u))) of None \<Rightarrow> [] | Some c \<Rightarrow> c) urgent))"

section \<open>Claims\<close>

definition expire_then_fault :: "Crypto \<Rightarrow> Caller \<Rightarrow> Review \<Rightarrow> Code \<Rightarrow> string \<Rightarrow> Mutation" where
  "expire_then_fault cr ca rv c msg = of_tx (\<lambda>dm now.
     thn (caller_entity cr dm now ca ''ReviewExpired'' ''reviews'' (rv_id rv) (review_value (expired_review rv)) [])
         (ret (MFault (new_fault c msg))))"

definition release_then_fault :: "Crypto \<Rightarrow> Caller \<Rightarrow> Review \<Rightarrow> Code \<Rightarrow> string \<Rightarrow> Mutation" where
  "release_then_fault cr ca rv c msg = of_tx (\<lambda>dm now.
     thn (caller_entity cr dm now ca ''ReviewReleased'' ''reviews'' (rv_id rv) (review_value (released_review rv)) [])
         (ret (MFault (new_fault c msg))))"

definition claimed_review :: "string \<Rightarrow> nat \<Rightarrow> Policy \<Rightarrow> Review \<Rightarrow> Review" where
  "claimed_review who now pol rv = rv\<lparr>rv_state := RvClaimed, rv_owner := Some who,
     rv_lease_until_ms := Some (min (wadd64 now (pl_claim_lease_ms pol)) (rv_due_ms rv)),
     rv_revision := rv_revision rv + 1\<rparr>"

definition claim_tx :: "Crypto \<Rightarrow> Caller \<Rightarrow> Review \<Rightarrow> Mutation" where
  "claim_tx cr ca rv = of_tx (\<lambda>dm now.
     thn (caller_entity cr dm now ca ''ReviewClaimed'' ''reviews'' (rv_id rv) (review_value rv) [])
     (thn (exec_ok (tx_meta_set (cursor_key (level_rank (rv_level rv))) (rv_run rv)))
     (ret (MOk (entity_reply (rv_id rv) (rv_revision rv) ''CLAIMED'')))))"

definition policy_of_review :: "Crypto \<Rightarrow> Review \<Rightarrow> Store \<Rightarrow> Policy option R" where
  "policy_of_review cr rv st = sbind (load_run (rv_run rv) st) (\<lambda>x.
     case policy_get (case x of None \<Rightarrow> [] | Some r \<Rightarrow> rn_policy r) st of
       None \<Rightarrow> Inr None
     | Some b \<Rightarrow> sbind (read_policy cr b) (\<lambda>(_, p). Inr (Some p)))"

definition reviews_claim :: "Crypto \<Rightarrow> Caller \<Rightarrow> Value \<Rightarrow> Daemon \<Rightarrow> (HErr + MOut) \<times> Daemon" where
  "reviews_claim cr ca params = handle (\<lambda>dm.
    (let who = pr_id (ca_principal ca); now = dm_now dm in
     sbind (arg params ''id'' opt_id) (\<lambda>named.
     sbind (arg params ''expected_revision'' opt_u) (\<lambda>expected.
     sbind (case named of
         Some rid \<Rightarrow> sbind (q (load_review rid (dm_store dm))) (\<lambda>x. some_or x NotFound ''review not found'')
       | None \<Rightarrow> sbind (q (next_open_review (dm_store dm))) (\<lambda>x. some_or x NotFound ''queue empty'')) (\<lambda>rv.
     sbind (guard_that (case expected of None \<Rightarrow> True | Some e \<Rightarrow> rv_revision rv = e)
        RevisionConflict ''revision mismatch'') (\<lambda>_.
     sbind (q (policy_of_review cr rv (dm_store dm))) (\<lambda>x.
     sbind (some_or x ArtifactUnavailable ''policy unavailable'') (\<lambda>pol.
     if now \<ge> rv_due_ms rv then Inr (expire_then_fault cr ca rv LeaseExpired ''past due'') else
     sbind (guard_that (rv_state rv = RvOpen \<or> rv_state rv = RvClaimed \<and> rv_owner rv = Some who)
        StateConflict ''not claimable'') (\<lambda>_.
     if rv_state rv = RvClaimed \<and> (case rv_lease_until_ms rv of None \<Rightarrow> False | Some l \<Rightarrow> now \<ge> l) \<and> rv_owner rv \<noteq> Some who
     then Inr (release_then_fault cr ca rv LeaseExpired ''lease expired'')
     else Inr (claim_tx cr ca (claimed_review who now pol rv)))))))))))"

section \<open>Resolution\<close>

definition resolve_legal :: "Review \<Rightarrow> string \<Rightarrow> bool" where
  "resolve_legal rv action \<longleftrightarrow> rv_state rv = RvClaimed \<and>
     (action \<in> {''accept_risk'', ''reject''} \<and> rv_kind rv = ''blocking'' \<or>
      action = ''annotate'' \<and> rv_kind rv = ''trailing'' \<or> action \<in> {''release'', ''defer''})"

definition defer_ok :: "nat \<Rightarrow> Review \<Rightarrow> string \<Rightarrow> nat option \<Rightarrow> unit Admission" where
  "defer_ok now rv action wake = (if action \<noteq> ''defer'' then Inr ()
     else sbind (q (ok_or wake (schem ''defer needs wake_ms''))) (\<lambda>w.
       guard_that (now < w \<and> w < rv_due_ms rv) SchemaInvalid ''wake outside (now,due)''))"

text \<open>The next version of the review and the kind of its event.\<close>

definition resolved_review ::
  "Crypto \<Rightarrow> nat \<Rightarrow> Review \<Rightarrow> string \<Rightarrow> nat option \<Rightarrow> Store \<Rightarrow> (Review \<times> string) R" where
  "resolved_review cr now rv action wake st =
    (if action = ''accept_risk'' then
       sbind (sbind (policy_for_run cr (rv_run rv) st)
         (\<lambda>x. ok_or x (new_fault ArtifactUnavailable ''policy unavailable''))) (\<lambda>pol.
       Inr (rv\<lparr>rv_state := RvAccepted,
         rv_accepted_until_ms := Some (min (wadd64 now (pl_review_accept_ms pol)) (rv_due_ms rv))\<rparr>, ''ReviewAccepted''))
     else if action = ''reject'' then Inr (rv\<lparr>rv_state := RvRejected\<rparr>, ''ReviewRejected'')
     else if action = ''annotate'' then Inr (rv\<lparr>rv_state := RvClosed\<rparr>, ''ReviewClosed'')
     else if action = ''release''
     then Inr (rv\<lparr>rv_state := RvOpen, rv_owner := None, rv_lease_until_ms := None\<rparr>, ''ReviewReleased'')
     else Inr (rv\<lparr>rv_state := RvDeferred, rv_owner := None, rv_lease_until_ms := None, rv_wake_ms := wake\<rparr>,
       ''ReviewDeferred''))"

definition signed_off :: "string \<Rightarrow> string \<Rightarrow> Review \<Rightarrow> Review" where
  "signed_off who reason rv = rv\<lparr>rv_revision := rv_revision rv + 1, rv_resolution := Some reason,
     rv_resolved_by := Some who\<rparr>"

text \<open>The action a rejection latches: that of the check of the review.\<close>

definition latch_action :: "Crypto \<Rightarrow> Review \<Rightarrow> string \<Rightarrow> Store \<Rightarrow> string option" where
  "latch_action cr rv action st = (if action = ''reject'' \<and> rv_kind rv = ''blocking'' then
       Option.bind (rv_check rv) (\<lambda>cid. case load_check cr cid st of
         Inr (Some c) \<Rightarrow> Some (it_action (ck_intent c)) | _ \<Rightarrow> None)
     else None)"

definition latch_rejected :: "string \<Rightarrow> string option \<Rightarrow> unit T" where
  "latch_rejected run act = (case act of
     None \<Rightarrow> ret ()
   | Some action \<Rightarrow> tbind (look (tx_action_get run action)) (\<lambda>x.
       let intent_d = (case x of None \<Rightarrow> [] | Some (dg, _) \<Rightarrow> dg) in
       if intent_d = [] then ret () else exec (tx_action_put run action intent_d True)))"

definition resolve_tx :: "Crypto \<Rightarrow> Caller \<Rightarrow> string \<Rightarrow> string \<Rightarrow> string option \<Rightarrow> Review \<Rightarrow> Mutation" where
  "resolve_tx cr ca rid kind act rv = of_tx (\<lambda>dm now.
     thn (caller_entity cr dm now ca kind ''reviews'' rid (review_value rv) [])
     (thn (latch_rejected (rv_run rv) act)
     (ret (MOk (entity_reply rid (rv_revision rv) (review_state_as_str (rv_state rv)))))))"

definition lease_over :: "nat \<Rightarrow> Review \<Rightarrow> bool" where
  "lease_over now rv \<longleftrightarrow> rv_state rv = RvClaimed \<and>
     (case rv_lease_until_ms rv of None \<Rightarrow> False | Some l \<Rightarrow> now \<ge> l)"

definition reviews_resolve :: "Crypto \<Rightarrow> Caller \<Rightarrow> Value \<Rightarrow> Daemon \<Rightarrow> (HErr + MOut) \<times> Daemon" where
  "reviews_resolve cr ca params = handle (\<lambda>dm.
    (let who = pr_id (ca_principal ca); now = dm_now dm in
     sbind (arg params ''id'' id_of) (\<lambda>rid.
     sbind (arg params ''expected_revision'' u_of) (\<lambda>expected.
     sbind (arg params ''action'' s_of) (\<lambda>action.
     sbind (arg params ''reason'' text_of) (\<lambda>reason.
     sbind (arg params ''wake_ms'' opt_u) (\<lambda>wake.
     sbind (q (load_review rid (dm_store dm))) (\<lambda>x.
     sbind (some_or x NotFound ''review not found'') (\<lambda>rv.
     sbind (guard_that (rv_revision rv = expected) RevisionConflict ''revision mismatch'') (\<lambda>_.
     if now \<ge> rv_due_ms rv then Inr (expire_then_fault cr ca rv LeaseExpired ''past due'') else
     if lease_over now rv then Inr (release_then_fault cr ca rv LeaseExpired ''lease expired'') else
     sbind (guard_that (\<not> (rv_state rv = RvClaimed \<and> rv_owner rv \<noteq> Some who)) Forbidden ''not the owner'') (\<lambda>_.
     sbind (guard_that (resolve_legal rv action) StateConflict ''no such transition'') (\<lambda>_.
     sbind (defer_ok now rv action wake) (\<lambda>_.
     sbind (q (resolved_review cr now rv action wake (dm_store dm))) (\<lambda>(rv', kind).
     Inr (resolve_tx cr ca rid kind (latch_action cr rv action (dm_store dm)) (signed_off who reason rv'))))))))))))))))"

section \<open>Alerts\<close>

definition alert_legal :: "AlertState \<Rightarrow> string \<Rightarrow> bool" where
  "alert_legal s action \<longleftrightarrow> (s, action) \<in> {(AsOpen, ''acknowledge''), (AsOpen, ''resolve''), (AsAcknowledged, ''resolve'')}"

definition handled_alert :: "string \<Rightarrow> string \<Rightarrow> Alert \<Rightarrow> Alert" where
  "handled_alert who action a = (let a = a\<lparr>al_revision := al_revision a + 1\<rparr> in
     if action = ''acknowledge'' then a\<lparr>al_state := AsAcknowledged\<rparr>
     else a\<lparr>al_state := AsResolved, al_resolved_by := Some who\<rparr>)"

definition alert_tx :: "Crypto \<Rightarrow> Caller \<Rightarrow> string \<Rightarrow> string \<Rightarrow> Alert \<Rightarrow> Mutation" where
  "alert_tx cr ca aid kind a = of_tx (\<lambda>dm now.
     thn (caller_entity cr dm now ca kind ''alerts'' aid (alert_value a) [])
     (ret (MOk (entity_reply aid (al_revision a) (alert_state_as_str (al_state a))))))"

definition alerts_resolve :: "Crypto \<Rightarrow> Caller \<Rightarrow> Value \<Rightarrow> Daemon \<Rightarrow> (HErr + MOut) \<times> Daemon" where
  "alerts_resolve cr ca params = handle (\<lambda>dm.
     sbind (arg params ''id'' id_of) (\<lambda>aid.
     sbind (arg params ''expected_revision'' u_of) (\<lambda>expected.
     sbind (arg params ''action'' s_of) (\<lambda>action.
     sbind (arg params ''reason'' text_of) (\<lambda>_.
     sbind (q (load_alert aid (dm_store dm))) (\<lambda>x.
     sbind (some_or x NotFound ''alert not found'') (\<lambda>a.
     sbind (guard_that (al_revision a = expected) RevisionConflict ''revision mismatch'') (\<lambda>_.
     sbind (guard_that (alert_legal (al_state a) action) StateConflict ''no such transition'') (\<lambda>_.
     Inr (alert_tx cr ca aid (if action = ''acknowledge'' then ''AlertAcknowledged'' else ''AlertResolved'')
       (handled_alert (pr_id (ca_principal ca)) action a)))))))))))"

end
