(* ===== verification/MethodsAudit.thy ===== *)
theory MethodsAudit
  imports MethodsReviews AuditMath
begin

text \<open>
  Audit methods, proof export and metrics (\<open>methods.rs\<close>: \<open>audit_evaluate\<close>, \<open>audit_sample\<close>,
  \<open>events_read\<close>, \<open>bundle_export\<close>; \<open>bundle.rs\<close>: \<open>export\<close>; \<open>metrics.rs\<close>: \<open>get\<close>). What the engine reports of
  its pages and the rendering of a quotient of floats are arguments.
\<close>

section \<open>Evaluation and sampling\<close>

definition store_object :: "string \<Rightarrow> string \<Rightarrow> string \<Rightarrow> Daemon \<Rightarrow> Daemon" where
  "store_object kind digest plaintext dm = object_put (cf_tenant (dm_cfg dm)) kind digest plaintext dm"

definition object_row :: "Daemon \<Rightarrow> string \<Rightarrow> string \<Rightarrow> nat \<Rightarrow> unit T" where
  "object_row dm digest kind nbytes = (if dm_objects dm = None then ret ()
     else exec_ok (tx_object_put digest kind nbytes ''sealed'' ''never''))"

definition evaluation_tx :: "Crypto \<Rightarrow> Caller \<Rightarrow> string \<Rightarrow> string \<Rightarrow> string \<Rightarrow> string \<Rightarrow> Mutation" where
  "evaluation_tx cr ca eval_id input_digest input_bytes out_bytes = (\<lambda>dm now tx.
     (thn (object_row dm input_digest ''eval-input'' (length input_bytes))
      (tbind (liftR (read_body ''eval parse'' Inr out_bytes)) (\<lambda>out.
       tbind (caller_event cr dm now ca ''EvaluationRecorded'' out [input_digest]) (\<lambda>(seq, _).
       thn (exec (tx_evaluation_put eval_id input_digest out_bytes seq))
       (ret (MOk out))))) tx,
      store_object ''eval-input'' input_digest input_bytes dm))"

definition audit_evaluate ::
  "Crypto \<Rightarrow> Estimates \<Rightarrow> Caller \<Rightarrow> Value \<Rightarrow> Daemon \<Rightarrow> (HErr + MOut) \<times> Daemon" where
  "audit_evaluate cr es ca params = handle (\<lambda>dm.
     sbind (arg params ''input'' Inr) (\<lambda>raw.
     sbind (q (eval_input_of raw)) (\<lambda>input.
     let digest = d cr ''eval-input'' raw in
     sbind (case evaluation_by_input digest (dm_store dm) of
         None \<Rightarrow> Inr ()
       | Some out \<Rightarrow> sbind (q (read_body ''eval parse'' Inr out)) early) (\<lambda>_.
     sbind (guard_that (evaluation_by_id (ei_id input) (dm_store dm) = None) IdempotencyConflict
        ''evaluation id reused'') (\<lambda>_.
     sbind (q (sbind (ok_or (evaluate_input cr es input raw) (audit_unavailable ''panic'')) (\<lambda>r. r))) (\<lambda>out.
     Inr (evaluation_tx cr ca (ei_id input) digest (jcs raw) (jcs out))))))))"

definition drawn_rank :: "Crypto \<Rightarrow> string \<Rightarrow> string \<Rightarrow> string \<times> string" where
  "drawn_rank cr seed m = (d cr ''sample-rank'' (Obj [(''member'', Str m), (''seed'', Str seed)]), m)"

definition audit_sample :: "Crypto \<Rightarrow> Value \<Rightarrow> Value R" where
  "audit_sample cr params =
     sbind (member_of params ''population'') (\<lambda>pop_v.
     sbind (sbind (arr_of pop_v) (mapR id_of)) (\<lambda>pop.
     sbind (sbind (member_of params ''population_digest'') hash_of) (\<lambda>pdg.
     sbind (sbind (member_of params ''seed'') hash_of) (\<lambda>seed.
     sbind (sbind (member_of params ''k'') n_of) (\<lambda>k.
     if d cr ''population'' pop_v \<noteq> pdg then Inl (schem ''population_digest mismatch'')
     else Inr (Obj [
       (''selected'', Arr (map (\<lambda>r. Str (snd r)) (take k (sort_by pair_le (map (drawn_rank cr seed) pop))))),
       (''commitment'', Str (d cr ''sample-commit'' (Obj [(''k'', num k), (''population'', Str pdg),
          (''seed'', Str seed)])))]))))))"

definition events_read :: "Value \<Rightarrow> Store \<Rightarrow> Value R" where
  "events_read params st =
     sbind (sbind (member_of params ''after'') u_of) (\<lambda>after.
     sbind (sbind (member_of params ''limit'') n_of) (\<lambda>limit.
     sbind (sbind (member_of params ''through'') (resolve_through st)) (\<lambda>through.
     sbind (ok_or (events_page after (hd_seq through) limit st) (audit_unavailable ''panic'')) (\<lambda>(items, nxt).
     sbind (mapR (read_body ''event parse'' Inr) items) (\<lambda>vals.
     Inr (page_value vals through nxt))))))"

section \<open>Proof export\<close>

type_synonym Item = "string \<times> string \<times> nat \<times> bool"

definition item_le :: "Item \<Rightarrow> Item \<Rightarrow> bool" where
  "item_le a b \<longleftrightarrow> (case (a, b) of ((t, g, n, p), (t', g', n', p')) \<Rightarrow>
     str_less t t' \<or> t = t' \<and> (str_less g g' \<or> g = g' \<and> (n < n' \<or> n = n' \<and> (p \<longrightarrow> p'))))"

definition item_value :: "Item \<Rightarrow> Value" where
  "item_value i = (case i of (tag, digest, nbytes, present) \<Rightarrow> Obj [(''tag'', Str tag), (''digest'', Str digest),
     (''bytes'', ustr nbytes), (''present'', Bool present)])"

definition policy_before :: "string \<times> PolicyRow \<Rightarrow> string \<times> PolicyRow \<Rightarrow> bool" where
  "policy_before a b \<longleftrightarrow> pw_generation (snd a) \<le> pw_generation (snd b)"

definition obs_in_order :: "ObservationRow \<Rightarrow> ObservationRow \<Rightarrow> bool" where
  "obs_in_order a b \<longleftrightarrow> str_less (or_run a) (or_run b) \<or> or_run a = or_run b \<and> or_seq a \<le> or_seq b"

definition effect_in_order :: "EffectRow \<Rightarrow> EffectRow \<Rightarrow> bool" where
  "effect_in_order a b \<longleftrightarrow> str_less (fw_run a) (fw_run b) \<or> fw_run a = fw_run b \<and> str_le (fw_action a) (fw_action b)"

definition evaluation_in_order :: "EvaluationRow \<Rightarrow> EvaluationRow \<Rightarrow> bool" where
  "evaluation_in_order a b \<longleftrightarrow> str_le (xr_id a) (xr_id b)"

text \<open>A stored envelope, its value, and its line of the inventory: the digest is that of the body.\<close>

definition export_item :: "Crypto \<Rightarrow> string \<Rightarrow> string \<Rightarrow> bool \<Rightarrow> string \<Rightarrow> (Value \<times> Item) R" where
  "export_item cr tag msg present env = sbind (read_body msg Inr env) (\<lambda>v.
     sbind (signed_of cr v) (\<lambda>sv. Inr (v, (tag, sd_digest sv, length env, present))))"

definition export_input :: "Daemon \<Rightarrow> bool \<Rightarrow> string \<Rightarrow> Value R" where
  "export_input dm full idg = (case dm_objects dm of
     None \<Rightarrow> if full then Inl (new_fault ArtifactUnavailable ''object store unavailable'') else Inr Null
   | Some files \<Rightarrow> (case object_get files (cf_tenant (dm_cfg dm)) ''eval-input'' idg of
       Inr b \<Rightarrow> read_body ''eval input parse'' Inr b
     | Inl _ \<Rightarrow> if full then Inl (new_fault ArtifactUnavailable ''eval input object missing'') else Inr Null))"

definition export_evaluation :: "Crypto \<Rightarrow> Daemon \<Rightarrow> bool \<Rightarrow> EvaluationRow \<Rightarrow> (Value option \<times> Item) R" where
  "export_evaluation cr dm full row =
     sbind (read_body ''eval parse'' Inr (xr_output row)) (\<lambda>out.
     sbind (export_input dm full (xr_input_digest row)) (\<lambda>input.
     let pair = Obj [(''input'', input), (''output'', out)];
         present = (full \<and> input \<noteq> Null)
     in Inr (if present then Some pair else None,
          (''evaluation'', if present then d cr ''evaluation'' pair else xr_input_digest row,
           length (xr_output row), present))))"

definition limitations :: "bool \<Rightarrow> bool \<Rightarrow> string list" where
  "limitations empty_cut full = (if empty_cut then [''EMPTY_HISTORY'']
     else if \<not> full then [''observations/effects/evaluations omitted; commitments only''] else [])"

definition manifest_value :: "Daemon \<Rightarrow> Head \<Rightarrow> string \<Rightarrow> Item list \<Rightarrow> string list \<Rightarrow> string list \<Rightarrow> Value" where
  "manifest_value dm through disclosure inventory hashes limits = Obj [
     (''v'', num 1), (''format'', Str ''watch-proof/1''), (''tenant'', Str (cf_tenant (dm_cfg dm))),
     (''from'', head_value empty_head), (''through'', head_value through), (''disclosure'', Str disclosure),
     (''inventory'', Arr (map item_value inventory)), (''event_hashes'', Arr (map Str hashes)),
     (''limitations'', Arr (map Str limits)), (''semantics'', Str ''OBSERVATIONS_NOT_ACTION_AUTHORIZATION'')]"

definition bundle_value :: "Value \<Rightarrow> Value list \<Rightarrow> Value list \<Rightarrow> Value list \<Rightarrow> Value list \<Rightarrow> Value list \<Rightarrow> Value" where
  "bundle_value manifest events policies observations effects evaluations = Obj [
     (''manifest'', manifest), (''events'', Arr events), (''policies'', Arr policies),
     (''observations'', Arr observations), (''effects'', Arr effects), (''evaluations'', Arr evaluations)]"

definition export :: "Crypto \<Rightarrow> Daemon \<Rightarrow> Head \<Rightarrow> string \<Rightarrow> Value R" where
  "export cr dm through disclosure =
    (let st = dm_store dm; empty_cut = (hd_seq through = 0); full = (disclosure = ''FULL'');
         events = (if empty_cut then [] else events_to (hd_seq through) st)
     in sbind (mapR (read_body ''event parse'' Inr) events) (\<lambda>event_vals.
        sbind (mapR (\<lambda>(_, r). export_item cr ''policy'' ''policy parse'' True (pw_body r))
          (if empty_cut then [] else sort_by policy_before (st_policies st))) (\<lambda>pols.
        sbind (mapR (\<lambda>r. export_item cr ''observation'' ''obs parse'' full (or_envelope r))
          (if empty_cut then [] else sort_by obs_in_order (st_observations st))) (\<lambda>obs.
        sbind (mapR (\<lambda>r. export_item cr ''effect'' ''effect parse'' full (fw_envelope r))
          (if empty_cut then [] else sort_by effect_in_order (st_effects st))) (\<lambda>effs.
        sbind (mapR (export_evaluation cr dm full)
          (if empty_cut then [] else sort_by evaluation_in_order (st_evaluations st))) (\<lambda>evals.
        let inventory = sort_by item_le (map snd pols @ map snd obs @ map snd effs @ map snd evals);
            body = manifest_value dm through disclosure inventory (map (sha256_hex cr) events)
              (limitations empty_cut full);
            manifest = sign_envelope cr ''bundle'' body (cf_signer_key_id (dm_cfg dm))
              (dec (cf_signer_key_epoch (dm_cfg dm))) (dm_sk dm)
        in Inr (bundle_value manifest event_vals (map fst pols) (if full then map fst obs else [])
             (if full then map fst effs else []) (somes (map fst evals)))))))))"

definition reply_max :: nat where "reply_max = 8388608"

definition export_tx :: "Crypto \<Rightarrow> Caller \<Rightarrow> Head \<Rightarrow> string \<Rightarrow> string \<Rightarrow> string \<Rightarrow> Mutation" where
  "export_tx cr ca through disclosure recipient content = (\<lambda>dm now tx.
     let digest = sha256_hex cr content in
     (thn (object_row dm digest ''export'' (length content))
      (thn (caller_event cr dm now ca ''ExportRecorded'' (Obj [(''bundle'', Str digest), (''through'', head_value through),
          (''disclosure'', Str disclosure), (''recipient'', Str recipient)]) [])
      (tbind (liftR (read_body ''bundle parse'' Inr content)) (\<lambda>v. ret (MOk v)))) tx,
      store_object ''export'' digest content dm))"

definition bundle_export :: "Crypto \<Rightarrow> Caller \<Rightarrow> Value \<Rightarrow> Daemon \<Rightarrow> (HErr + MOut) \<times> Daemon" where
  "bundle_export cr ca params = handle (\<lambda>dm.
     sbind (map_err (\<lambda>e. Inr (MRejected e)) (sbind (member_of params ''through'') (resolve_through (dm_store dm)))) (\<lambda>through.
     sbind (arg params ''disclosure'' s_of) (\<lambda>disclosure.
     sbind (arg params ''recipient'' id_of) (\<lambda>recipient.
     sbind (map_err (\<lambda>e. Inr (MRejected e)) (export cr dm through disclosure)) (\<lambda>bundle.
     sbind (guard_that (length (jcs bundle) \<le> reply_max) BundleLimit ''export exceeds reply bound'') (\<lambda>_.
     Inr (export_tx cr ca through disclosure recipient (jcs bundle))))))))"

end
