(* ===== verification/Metrics.thy ===== *)
theory Metrics
  imports MethodsAudit
begin

text \<open>
  Operational metrics (\<open>metrics.rs\<close>) and the dispatch of a request (\<open>methods.rs\<close>: \<open>execute\<close>;
  \<open>daemon.rs\<close>: \<open>dispatch\<close>). What the engine reports of its pages and the rendering of a quotient of
  floats with six places come from the platform.
\<close>

section \<open>Metrics\<close>

record Platform =
  pf_estimates :: Estimates
  pf_used_bytes :: nat
  pf_ratio :: "nat \<Rightarrow> nat \<Rightarrow> string"

type_synonym Row = "string \<times> string \<times> string \<times> string"

definition row_le :: "Row \<Rightarrow> Row \<Rightarrow> bool" where
  "row_le a b \<longleftrightarrow> (case (a, b) of ((n, k, e, v), (n', k', e', v')) \<Rightarrow>
     str_less n n' \<or> n = n' \<and> (str_less k k' \<or> k = k' \<and> (str_less e e' \<or> e = e' \<and> str_le v v')))"

definition cut_at :: "string \<Rightarrow> string \<times> string" where
  "cut_at s = (takeWhile (\<lambda>c. c \<noteq> CHR ''|'') s, tl (dropWhile (\<lambda>c. c \<noteq> CHR ''|'') s))"

fun strip_ctr :: "nat \<Rightarrow> string \<Rightarrow> string" where
  "strip_ctr 0 s = s"
| "strip_ctr (Suc n) s = (if starts_with s ''ctr:'' then strip_ctr n (drop 4 s) else s)"

text \<open>The counters; \<open>splitn(3, '|')\<close> of the key without its prefix.\<close>

definition counter_rows :: "Store \<Rightarrow> Row list" where
  "counter_rows st = concat (map (\<lambda>(k, v).
     if starts_with k ''ctr:'' \<and> v \<noteq> ''0'' then
       (let (name, r1) = cut_at (strip_ctr (length k) k); (kind, outcome) = cut_at r1
        in [(name, kind, outcome, v)])
     else []) (st_meta st))"

definition level_is :: "string \<Rightarrow> ReviewRow \<Rightarrow> bool" where
  "level_is lvl r \<longleftrightarrow> vr_state r \<in> set review_active_states \<and> body_path (vr_body r) [''level''] = Some lvl"

definition depth_rows :: "Store \<Rightarrow> Row list" where
  "depth_rows st = concat (map (\<lambda>lvl.
     (let n = length (filter (\<lambda>(_, r). level_is lvl r) (st_reviews st)) in
      if n > 0 then [(''watch_remainder_depth'', lvl, [], dec n)] else []))
     [''critical'', ''warning'', ''info''])"

text \<open>The time of the event that opened a review.\<close>

definition opened_at :: "Store \<Rightarrow> ReviewRow \<Rightarrow> nat list" where
  "opened_at st r = (case json_u (vr_body r) ''created_seq'' of
     None \<Rightarrow> []
   | Some seq \<Rightarrow> somes (map (\<lambda>a. json_u (au_body a) ''at_ms'') (filter (\<lambda>a. au_seq a = seq) (st_audit st))))"

definition oldest_rows :: "nat \<Rightarrow> Store \<Rightarrow> Row list" where
  "oldest_rows now st = concat (map (\<lambda>lvl.
     (case least (concat (map (\<lambda>(_, r). opened_at st r) (filter (\<lambda>(_, r). level_is lvl r) (st_reviews st)))) of
        None \<Rightarrow> [] | Some op \<Rightarrow> [(''watch_remainder_oldest_ms'', lvl, [], dec (now - op))]))
     (remdups (somes (map (\<lambda>(_, r). body_path (vr_body r) [''level'']) (st_reviews st)))))"

definition dec_int :: "int \<Rightarrow> string" where
  "dec_int z = (if z < 0 then CHR ''-'' # dec (nat (- z)) else dec (nat z))"

definition lag_rows :: "nat \<Rightarrow> Store \<Rightarrow> Row list" where
  "lag_rows now st =
    (case least (somes (map (\<lambda>(_, r). json_u (rr_body r) ''last_received_ms'')
        (filter (\<lambda>(_, r). rr_state r = ''OPEN'') (st_runs st)))) of
       None \<Rightarrow> [] | Some t \<Rightarrow> [(''watch_source_lag_ms'', [], ''max'', dec_int (int now - int t))])"

definition storage_rows :: "nat \<Rightarrow> Config \<Rightarrow> Row list" where
  "storage_rows used cfg = (if cf_storage_max_bytes cfg = 0 then []
     else [(''watch_storage_used_bp'', [], [],
       dec (min (used * 10000) u64_max div cf_storage_max_bytes cfg))])"

definition outbox_rows :: "nat \<Rightarrow> Store \<Rightarrow> Row list" where
  "outbox_rows now st = (case least (map (\<lambda>(_, r). qb_due_ms r) (st_outbox st)) of
     None \<Rightarrow> [] | Some t \<Rightarrow> [(''watch_outbox_oldest_ms'', [], [], dec (now - t))])"

text \<open>The \<open>UNKNOWN\<close> effects that no other row of the action names a different predecessor for.\<close>

definition unresolved_effect :: "Store \<Rightarrow> EffectRow \<Rightarrow> bool" where
  "unresolved_effect st e \<longleftrightarrow> fw_state e = ''UNKNOWN'' \<and>
     \<not> (\<exists>e2 \<in> set (st_effects st). fw_run e2 = fw_run e \<and> fw_action e2 = fw_action e \<and>
         (case fw_predecessor e2 of None \<Rightarrow> False | Some p \<Rightarrow> p \<noteq> fw_digest e))"

definition unknown_effects :: "Store \<Rightarrow> nat" where
  "unknown_effects st = length (filter (unresolved_effect st) (st_effects st))"

definition unknown_rows :: "Store \<Rightarrow> Row list" where
  "unknown_rows st = (let n = unknown_effects st in
     if n > 0 then [(''watch_guard_unknown_effects'', [], [], dec n)] else [])"

definition latency_rows :: "nat list \<Rightarrow> Row list" where
  "latency_rows xs = (if xs = [] then [] else
     [(''watch_audit_write_ms'', [], ''p99'', dec (sort xs ! min (length xs * 99 div 100) (length xs - 1)))])"

definition profile_windows :: "string \<Rightarrow> Store \<Rightarrow> (nat \<times> nat) " where
  "profile_windows prof st =
    (let ws = filter (\<lambda>((rid, _), _). case map_of (st_runs st) rid of None \<Rightarrow> False
          | Some r \<Rightarrow> body_path (rr_body r) [''profile''] = Some prof) (st_windows st)
     in (length (filter (\<lambda>(_, c). c \<noteq> None) ws), length ws))"

definition coverage_rows :: "(nat \<Rightarrow> nat \<Rightarrow> string) \<Rightarrow> Store \<Rightarrow> Row list" where
  "coverage_rows ratio st = concat (map (\<lambda>prof. (case profile_windows prof st of (got, known) \<Rightarrow>
     if known > 0 then [(''watch_observation_coverage'', prof, [], ratio got known)] else []))
     (remdups (somes (map (\<lambda>(_, r). body_path (rr_body r) [''profile'']) (st_runs st)))))"

definition metric_value :: "Row \<Rightarrow> Value" where
  "metric_value r = (case r of (name, kind, outcome, v) \<Rightarrow> Obj [
     (''labels'', Obj [(''kind'', Str kind), (''outcome'', Str outcome)]), (''name'', Str name), (''value'', Str v)])"

definition metrics_get :: "Platform \<Rightarrow> Daemon \<Rightarrow> Value" where
  "metrics_get pf dm = (let st = dm_store dm; now = dm_now dm in Obj [
     (''at'', head_value (tx_head st)),
     (''values'', Arr (map metric_value (sort_by row_le (counter_rows st @ depth_rows st @ oldest_rows now st @
        lag_rows now st @ storage_rows (pf_used_bytes pf) (dm_cfg dm) @ outbox_rows now st @ unknown_rows st @
        latency_rows (dm_audit_write_ms dm) @ coverage_rows (pf_ratio pf) st))))])"

section \<open>Dispatch\<close>

definition execute :: "Crypto \<Rightarrow> Platform \<Rightarrow> Caller \<Rightarrow> string \<Rightarrow> Value \<Rightarrow> Daemon \<Rightarrow> (HErr + MOut) \<times> Daemon" where
  "execute cr pf ca mname params dm = (let st = dm_store dm in
     if mname = ''system.status'' then reading (Inr (system_status cr dm)) dm
     else if mname = ''system.drain'' then system_drain cr ca dm
     else if mname = ''policy.activate'' then policy_activate cr ca params dm
     else if mname = ''runs.open'' then runs_open cr ca params dm
     else if mname = ''runs.get'' then reading (run_get ca params st) dm
     else if mname = ''runs.control'' then runs_control cr ca params dm
     else if mname = ''observations.append'' then observations_append cr ca params dm
     else if mname = ''checks.create'' then checks_create cr ca params dm
     else if mname = ''checks.get'' then reading (check_get cr ca params st) dm
     else if mname = ''checks.cancel'' then checks_cancel cr ca params dm
     else if mname = ''effects.record'' then effects_record cr ca params dm
     else if mname = ''reviews.list'' then reading (list_page ''reviews'' params st) dm
     else if mname = ''reviews.get'' then reading (review_card cr ca params dm) dm
     else if mname = ''reviews.claim'' then reviews_claim cr ca params dm
     else if mname = ''reviews.resolve'' then reviews_resolve cr ca params dm
     else if mname = ''alerts.list'' then reading (list_page ''alerts'' params st) dm
     else if mname = ''alerts.resolve'' then alerts_resolve cr ca params dm
     else if mname = ''audit.evaluate'' then audit_evaluate cr (pf_estimates pf) ca params dm
     else if mname = ''audit.sample'' then reading (audit_sample cr params) dm
     else if mname = ''events.read'' then reading (events_read params st) dm
     else if mname = ''bundle.export'' then bundle_export cr ca params dm
     else if mname = ''metrics.get'' then reading (Inr (metrics_get pf dm)) dm
     else (Inr (MRejected (new_fault MethodUnknown ''unknown method'')), dm))"

text \<open>A stored reply of the same request, or the conflict of a request id bound to something else.\<close>

definition replay :: "Caller \<Rightarrow> string \<Rightarrow> string \<Rightarrow> Daemon \<Rightarrow> Value option" where
  "replay ca mname params_hash dm =
    (let fault = (\<lambda>c msg. reply_envelope (ca_request ca) (Inl (new_fault c msg))) in
     case tx_idem_get (pr_id (ca_principal ca)) (ca_request ca) (dm_store dm) of
       None \<Rightarrow> None
     | Some (m, h, stored) \<Rightarrow>
         if m = mname \<and> h = params_hash then
           (case parse stored reply_limits of
              Inr v \<Rightarrow> Some v
            | Inl _ \<Rightarrow> Some (fault AuditUnavailable ''stored reply unreadable''))
         else Some (fault IdempotencyConflict ''request id rebound''))"

definition host_refusal :: "HostState \<Rightarrow> string \<Rightarrow> Fault option" where
  "host_refusal hs mname =
    (if hs = HsReady then None
     else if hs = HsDraining then
       (if draining_allowed mname then None else Some (new_fault StateConflict ''host draining''))
     else Some (new_fault AuditUnavailable ''host not ready''))"

text \<open>The work of an admitted request; \<open>None\<close> is the simulated crash.\<close>

definition run_request :: "Crypto \<Rightarrow> Platform \<Rightarrow> Caller \<Rightarrow> string \<Rightarrow> Value \<Rightarrow> string \<Rightarrow> Daemon \<Rightarrow> Value option \<times> Daemon" where
  "run_request cr pf ca mname params params_hash dm =
    (let dm = (if is_mutation mname
               then dm\<lparr>dm_cur_idem := Some (pr_id (ca_principal ca), ca_request ca, mname, params_hash)\<rparr> else dm)
     in case execute cr pf ca mname params dm of (r, dm') \<Rightarrow>
       (case r of
          Inl HCrash \<Rightarrow> None
        | Inl (HReject e) \<Rightarrow> Some (reply_envelope (ca_request ca) (Inl e))
        | Inr stage \<Rightarrow> Some (reply_envelope (ca_request ca) (stage_result stage)),
        dm'\<lparr>dm_cur_idem := None\<rparr>))"

definition dispatch_request :: "Crypto \<Rightarrow> Platform \<Rightarrow> Caller \<Rightarrow> string \<Rightarrow> Value \<Rightarrow> Daemon \<Rightarrow> Value option \<times> Daemon" where
  "dispatch_request cr pf ca mname params dm =
    (let refuse = (\<lambda>e. (Some (reply_envelope (ca_request ca) (Inl e)), dm));
         params_hash = d cr ''request'' params
     in if mname \<notin> set PUBLIC_METHODS then refuse (new_fault MethodUnknown ''unknown method'')
        else case validate_params cr mname params of Inl e \<Rightarrow> refuse e | Inr _ \<Rightarrow>
        if \<not> role_allowed (pr_roles (ca_principal ca)) mname then refuse (new_fault Forbidden ''role not permitted'')
        else case (if is_mutation mname then replay ca mname params_hash dm else None) of
          Some v \<Rightarrow> (Some v, dm)
        | None \<Rightarrow> (case host_refusal (ho_state (dm_host dm)) mname of
            Some e \<Rightarrow> refuse e
          | None \<Rightarrow> (case rate_ok (pr_id (ca_principal ca)) dm of (ok, dm') \<Rightarrow>
              if \<not> ok then (Some (reply_envelope (ca_request ca) (Inl (new_fault RateLimited ''rate''))), dm')
              else run_request cr pf ca mname params params_hash dm')))"

end
