(* ===== verification/History.thy ===== *)
theory History
  imports Events
begin

text \<open>
  Versions of entities (\<open>store.rs\<close>: \<open>tx_put_entity\<close>, \<open>get_entity_at\<close>, \<open>list_at\<close>). The history table
  refines the entity tables: the current body of an entity is its last version, and what a reader
  sees at an audit cut never changes afterwards.
\<close>

lemma emit_frame: "emit cr cx now actor request kind v causes tx = Inr (r, tx') \<Longrightarrow>
    \<exists>rows. tx_store tx' = (tx_store tx)\<lparr>st_audit := rows\<rparr>"
  by (erule emit_Inr) blast

definition entry_seq :: "(string \<times> string \<times> nat) \<times> string \<Rightarrow> nat" where
  "entry_seq h = snd (snd (fst h))"

definition versions :: "string \<Rightarrow> string \<Rightarrow> nat \<Rightarrow> Store \<Rightarrow> ((string \<times> string \<times> nat) \<times> string) list" where
  "versions entity eid through st =
     filter (\<lambda>((e, i, s), b). e = entity \<and> i = eid \<and> s \<le> through) (st_history st)"

lemma get_entity_at_cut: "get_entity_at entity eid (Some c) st =
    Inr (map_option snd (latest_entry (versions entity eid c st)))"
  by (simp add: get_entity_at_def versions_def)

lemma versions_snoc: "st_history st' = st_history st @ [((e, i, s), b)] \<Longrightarrow>
    versions entity eid c st' = versions entity eid c st @
      (if e = entity \<and> i = eid \<and> s \<le> c then [((e, i, s), b)] else [])"
  by (simp add: versions_def)

lemma versions_same: "st_history st' = st_history st \<Longrightarrow> versions entity eid c st' = versions entity eid c st"
  by (simp add: versions_def)

lemma latest_entry_snoc:
  "\<forall>h \<in> set hs. entry_seq h < s \<Longrightarrow> latest_entry (hs @ [((e, i, s), b)]) = Some (s, b)"
  by (induction hs rule: latest_entry.induct) (auto simp: entry_seq_def)

definition entity_tables :: "string list" where
  "entity_tables = [''runs'', ''checks'', ''reviews'', ''alerts'']"

definition history_ok :: "Store \<Rightarrow> bool" where
  "history_ok st \<longleftrightarrow> (\<forall>h \<in> set (st_history st). entry_seq h \<le> hd_seq (tx_head st)) \<and>
     (\<forall>table \<in> set entity_tables. \<forall>eid. get_entity_body table eid st =
        get_entity_at table eid (Some (hd_seq (tx_head st))) st)"

lemma versions_all:
  assumes "\<forall>h \<in> set (st_history st). entry_seq h \<le> n" and "n \<le> m"
  shows "versions table eid m st = versions table eid n st"
  unfolding versions_def using assms by (intro filter_cong) (auto simp: entry_seq_def)

lemma get_entity_body_tables:
  "get_entity_body ''runs'' eid st = Inr (map_option rr_body (map_of (st_runs st) eid))"
  "get_entity_body ''checks'' eid st = Inr (map_option cr_body (map_of (st_checks st) eid))"
  "get_entity_body ''reviews'' eid st = Inr (map_option vr_body (map_of (st_reviews st) eid))"
  "get_entity_body ''alerts'' eid st = Inr (map_option lr_body (map_of (st_alerts st) eid))"
  by (simp_all add: get_entity_body_def)

lemma get_entity_body_frame:
  assumes "st_runs st' = st_runs st" "st_checks st' = st_checks st" "st_reviews st' = st_reviews st"
    "st_alerts st' = st_alerts st"
  shows "get_entity_body table eid st' = get_entity_body table eid st"
  by (simp add: get_entity_body_def assms)

lemma put_entity_table:
  "tx_put_entity cr table eid body seq table st = Inr st' \<Longrightarrow> table \<in> set entity_tables"
  by (erule put_entity_Inr) (simp_all add: entity_tables_def)

lemma put_entity_body:
  assumes "tx_put_entity cr table eid body seq table st = Inr st'" and "table' \<in> set entity_tables"
  shows "get_entity_body table' eid' st' =
    (if table' = table \<and> eid' = eid then Inr (Some body) else get_entity_body table' eid' st)"
  using assms(1)
  by (rule put_entity_Inr) (use assms(2) in \<open>auto simp: entity_tables_def get_entity_body_def\<close>)

lemma history_frame:
  assumes "history_ok st" and "st_history st' = st_history st" "st_runs st' = st_runs st"
    "st_checks st' = st_checks st" "st_reviews st' = st_reviews st" "st_alerts st' = st_alerts st"
    and "hd_seq (tx_head st) \<le> hd_seq (tx_head st')"
  shows "history_ok st'"
proof -
  let ?n = "hd_seq (tx_head st)"
  let ?m = "hd_seq (tx_head st')"
  have below: "\<forall>h \<in> set (st_history st). entry_seq h \<le> ?n" using assms(1) by (simp add: history_ok_def)
  have "versions table eid ?m st' = versions table eid ?n st" for table eid
    unfolding versions_same [OF assms(2)] by (rule versions_all [OF below assms(7)])
  then have "get_entity_at table eid (Some ?m) st' = get_entity_at table eid (Some ?n) st" for table eid
    unfolding get_entity_at_cut by simp
  then have "\<forall>table \<in> set entity_tables. \<forall>eid. get_entity_body table eid st' = get_entity_at table eid (Some ?m) st'"
    using assms(1) get_entity_body_frame [OF assms(3-6)] unfolding history_ok_def by metis
  moreover have "\<forall>h \<in> set (st_history st'). entry_seq h \<le> ?m"
    using below assms(7) unfolding assms(2) by (blast intro: order_trans)
  ultimately show ?thesis by (simp add: history_ok_def)
qed

lemma history_put:
  assumes "history_ok st" and "tx_head st = \<lparr>hd_seq = s, hd_hash = h\<rparr>"
    and "\<forall>h \<in> set (st_history st). entry_seq h < s"
    and "tx_put_entity cr table eid body s table st = Inr st'"
  shows "history_ok st'"
proof -
  note put = put_entity_audit [OF assms(4)]
  have head: "tx_head st' = tx_head st" using put by (simp add: tx_head_def)
  have hist: "st_history st' = st_history st @ [((table, eid, s), body)]" using put by blast
  have "get_entity_body t i st' = get_entity_at t i (Some s) st'" if t: "t \<in> set entity_tables" for t i
  proof (cases "t = table \<and> i = eid")
    case True
    have "\<forall>h \<in> set (versions t i s st). entry_seq h < s" using assms(3) by (auto simp: versions_def)
    then show ?thesis using True put_entity_body [OF assms(4) t, of i]
      by (simp add: get_entity_at_cut versions_snoc [OF hist] latest_entry_snoc)
  next
    case False
    then show ?thesis using assms(1,2) put_entity_body [OF assms(4) t, of i] t
      by (auto simp: get_entity_at_cut versions_snoc [OF hist] history_ok_def)
  qed
  moreover have "\<forall>h \<in> set (st_history st'). entry_seq h \<le> s"
    using assms(3) hist by (auto simp: entry_seq_def dest: less_imp_le)
  ultimately show ?thesis using assms(2) by (simp add: history_ok_def head)
qed

interpretation history: store_invariant cr "\<lambda>st. audit_ok cr st \<and> history_ok st" for cr
proof
  show "audit_ok cr st' \<and> history_ok st'" if s: "stmt st st'" and ok: "audit_ok cr st \<and> history_ok st" for st st'
  proof (intro conjI)
    show "audit_ok cr st'" using audit.stmt_keeps [OF s] ok by blast
    note f = stmt_frame [OF s]
    then have "tx_head st' = tx_head st" by (simp add: tx_head_def)
    then have le: "hd_seq (tx_head st) \<le> hd_seq (tx_head st')" by simp
    have h: "history_ok st" using ok by blast
    show "history_ok st'" using f by (intro history_frame [OF h _ _ _ _ _ le]) blast+
  qed
  show e: "audit_ok cr (tx_store tx') \<and> history_ok (tx_store tx')"
    if "emit cr cx now actor request kind v causes tx = Inr (r, tx')"
      "audit_ok cr (tx_store tx) \<and> history_ok (tx_store tx)"
    for cx now actor request kind v causes tx r tx'
  proof -
    note k = emit_keeps_audit [OF that(1) conjunct1 [OF that(2)]]
    note em = that(1)
    from k have le: "hd_seq (tx_head (tx_store tx)) \<le> hd_seq (tx_head (tx_store tx'))" by simp
    have h: "history_ok (tx_store tx)" using that(2) by blast
    obtain rows where "tx_store tx' = (tx_store tx)\<lparr>st_audit := rows\<rparr>"
      using emit_frame [OF em] by blast
    then have "history_ok (tx_store tx')" by (intro history_frame [OF h _ _ _ _ _ le]) simp_all
    then show ?thesis using k by blast
  qed
  show "audit_ok cr st \<and> history_ok st"
    if "emit cr cx now actor request kind v causes tx = Inr ((seq, digest), tx')"
      "audit_ok cr (tx_store tx) \<and> history_ok (tx_store tx)"
      "tx_put_entity cr table eid (jcs v) seq table (tx_store tx') = Inr st"
    for cx now actor request kind v causes tx seq digest tx' table eid st
  proof -
    note k = emit_keeps_audit [OF that(1) conjunct1 [OF that(2)]]
    have "st_history (tx_store tx') = st_history (tx_store tx)" by (rule emit_Inr [OF that(1)]) simp
    then have "\<forall>h \<in> set (st_history (tx_store tx')). entry_seq h < seq"
      using that(2) k unfolding history_ok_def by fastforce
    then have "history_ok st"
      using history_put [OF _ _ _ that(3)] e [OF that(1,2)] k by simp
    moreover have "audit_ok cr st"
      using audit.put_keeps [OF that(1) _ that(3)] that(2) by blast
    ultimately show ?thesis by blast
  qed
qed

section \<open>The past does not change\<close>

lemma writes_past:
  assumes "writes cr tx tx'" and "audit_ok cr (tx_store tx)" and "c \<le> hd_seq (tx_head (tx_store tx))"
  shows "(\<exists>new. st_history (tx_store tx') = st_history (tx_store tx) @ new \<and> (\<forall>h \<in> set new. c < entry_seq h)) \<and>
    c \<le> hd_seq (tx_head (tx_store tx'))"
  using assms
proof (induction rule: rtranclp_induct)
  case (step tx1 tx2)
  then have ok: "audit_ok cr (tx_store tx1)" and c: "c \<le> hd_seq (tx_head (tx_store tx1))"
    using audit.writes_keep by blast+
  have "(\<exists>new. st_history (tx_store tx2) = st_history (tx_store tx1) @ new \<and> (\<forall>h \<in> set new. c < entry_seq h)) \<and>
      c \<le> hd_seq (tx_head (tx_store tx2))"
    using step.hyps(2) ok c
  proof (induction rule: tx_step.induct)
    case (stmt tx st)
    then show ?case using stmt_frame [OF stmt.hyps] by (simp add: tx_head_def)
  next
    case (emit cx now actor request kind v causes tx r tx')
    then have "c \<le> hd_seq (tx_head (tx_store tx'))" using emit_keeps_audit by fastforce
    then show ?case by (rule_tac emit_Inr [OF emit.hyps]) simp
  next
    case (entity cx now actor request kind table eid v causes tx r tx')
    then obtain seq dg tx1 where e: "emit cr cx now actor request kind v causes tx = Inr ((seq, dg), tx1)"
      and p: "tx_put_entity cr table eid (jcs v) seq table (tx_store tx1) = Inr (tx_store tx')"
      by (auto simp: emit_entity_def tx_defs)
    have "st_history (tx_store tx1) = st_history (tx_store tx)" by (rule emit_Inr [OF e]) simp
    then show ?case using emit_keeps_audit [OF e entity.prems(1)] put_entity_audit [OF p] entity.prems(2)
      by (simp add: entry_seq_def tx_head_def)
  qed
  then obtain new2 where "st_history (tx_store tx2) = st_history (tx_store tx1) @ new2" "\<forall>h \<in> set new2. c < entry_seq h"
    "c \<le> hd_seq (tx_head (tx_store tx2))" by blast
  moreover obtain new1 where "st_history (tx_store tx1) = st_history (tx_store tx) @ new1"
    "\<forall>h \<in> set new1. c < entry_seq h" using step.IH [OF step.prems] by blast
  ultimately show ?case by (intro conjI exI [of _ "new1 @ new2"]) auto
qed simp

text \<open>Reads at a cut, of one entity and of a page, before and after a transaction.\<close>

lemma past_reads:
  assumes "writes cr tx tx'" and "audit_ok cr (tx_store tx)" and "c \<le> hd_seq (tx_head (tx_store tx))"
  shows "get_entity_at entity eid (Some c) (tx_store tx') = get_entity_at entity eid (Some c) (tx_store tx) \<and>
    list_at entity run after c limit (tx_store tx') = list_at entity run after c limit (tx_store tx)"
proof -
  obtain new where new: "st_history (tx_store tx') = st_history (tx_store tx) @ new" "\<forall>h \<in> set new. c < entry_seq h"
    using writes_past [OF assms] by blast
  have "versions entity eid c (tx_store tx') = versions entity eid c (tx_store tx)"
    using new by (auto simp: versions_def filter_empty_conv entry_seq_def)
  moreover have "latest_at_cut entity c (tx_store tx') = latest_at_cut entity c (tx_store tx)"
  proof -
    have "filter (\<lambda>((e, i, s), b). e = entity \<and> s \<le> c \<and> P i s) new = []" for P
      using new(2) by (auto simp: filter_empty_conv entry_seq_def)
    moreover have "list_all (\<lambda>((e', i', s'), b'). e' = entity \<and> i' = i \<and> s' \<le> c \<longrightarrow> s' \<le> s) new" for i s
      using new(2) by (auto simp: list_all_iff entry_seq_def)
    ultimately show ?thesis unfolding latest_at_cut_def new(1) by (simp add: list_all_append case_prod_unfold)
  qed
  ultimately show ?thesis by (simp add: get_entity_at_cut list_at_def)
qed

end
