(* ===== verification/Orders.thy ===== *)
theory Orders
  imports Metrics History
begin

text \<open>
  Orders on stores. Many properties of the daemon have the form: every request and every timer moves
  the store only along a reflexive and transitive relation. \<open>quiet_order\<close> states what such a relation owes
  to the statements that write no observation, check or alert, \<open>transaction_order\<close> what it owes to all but
  the checks; \<open>host_order\<close> and \<open>request_order\<close> add the few computations that decide checks, append an
  observation, evaluate windows or handle an alert. Inside them every transaction, timer and handler is
  shown once to follow the relation; a property of all requests is then an interpretation.
\<close>

section \<open>Computations that follow a relation\<close>

definition follows :: "(Tx \<Rightarrow> Tx \<Rightarrow> bool) \<Rightarrow> 'a T \<Rightarrow> bool" where
  "follows rel m \<longleftrightarrow> (\<forall>tx x tx'. m tx = Inr (x, tx') \<longrightarrow> rel tx tx')"

lemma followsI: "(\<And>tx x tx'. m tx = Inr (x, tx') \<Longrightarrow> rel tx tx') \<Longrightarrow> follows rel m"
  by (simp add: follows_def)

lemma followsD: "follows rel m \<Longrightarrow> m tx = Inr (x, tx') \<Longrightarrow> rel tx tx'"
  by (simp add: follows_def)

text \<open>A mutation leaves the daemon's own store alone; what it returns follows the relation.\<close>

definition mfollows :: "(Tx \<Rightarrow> Tx \<Rightarrow> bool) \<Rightarrow> Mutation \<Rightarrow> bool" where
  "mfollows rel f \<longleftrightarrow> (\<forall>dm now tx r dm'. f dm now tx = (r, dm') \<longrightarrow> dm_store dm' = dm_store dm \<and>
     (\<forall>stage tx'. r = Inr (stage, tx') \<longrightarrow> rel tx tx'))"

lemma mfollows_of_tx: "(\<And>dm now. follows rel (f dm now)) \<Longrightarrow> mfollows rel (of_tx f)"
  by (auto simp: mfollows_def of_tx_def follows_def)

text \<open>A sequence of committed transactions.\<close>

definition commit_step :: "(Tx \<Rightarrow> Tx \<Rightarrow> bool) \<Rightarrow> Store \<Rightarrow> Store \<Rightarrow> bool" where
  "commit_step rel st st' \<longleftrightarrow> (\<exists>tx'. rel (begin_tx st) tx' \<and> tx_store tx' = st')"

abbreviation commits :: "(Tx \<Rightarrow> Tx \<Rightarrow> bool) \<Rightarrow> Store \<Rightarrow> Store \<Rightarrow> bool" where
  "commits rel \<equiv> rtranclp (commit_step rel)"

definition advances :: "(Tx \<Rightarrow> Tx \<Rightarrow> bool) \<Rightarrow> (Daemon \<Rightarrow> Daemon) \<Rightarrow> bool" where
  "advances rel h \<longleftrightarrow> (\<forall>dm. commits rel (dm_store dm) (dm_store (h dm)))"

lemma advancesD: "advances rel h \<Longrightarrow> commits rel (dm_store dm) (dm_store (h dm))"
  by (simp add: advances_def)

lemma advances_id: "advances rel (\<lambda>dm. dm)"
  by (simp add: advances_def)

lemma advances_comp: "advances rel g \<Longrightarrow> advances rel h \<Longrightarrow> advances rel (\<lambda>dm. g (h dm))"
  unfolding advances_def by (metis rtranclp_trans)

lemma advances_fold: "(\<And>x. advances rel (h x)) \<Longrightarrow> advances rel (fold h xs)"
proof (induction xs)
  case (Cons x xs)
  then show ?case using advances_comp [of rel "fold h xs" "h x"] by (simp add: comp_def)
qed (simp add: advances_def)

lemma advances_if: "(b \<Longrightarrow> advances rel g) \<Longrightarrow> (\<not> b \<Longrightarrow> advances rel h) \<Longrightarrow> advances rel (\<lambda>dm. if b then g dm else h dm)"
  by (cases b) simp_all

text \<open>What an admission lets through.\<close>

definition yields :: "('a \<Rightarrow> bool) \<Rightarrow> 'e + 'a \<Rightarrow> bool" where
  "yields P r \<longleftrightarrow> (\<forall>m. r = Inr m \<longrightarrow> P m)"

named_theorems yields_intro \<open>what admissions let through\<close>

lemma yields_rules [yields_intro]:
  "yields P (Inl e)" "P m \<Longrightarrow> yields P (Inr m)" "(\<And>x. yields P (f x)) \<Longrightarrow> yields P (sbind s f)"
  "yields P r \<Longrightarrow> yields P r' \<Longrightarrow> yields P (if b then r else r')"
  "(\<And>x. yields P (h x)) \<Longrightarrow> yields P (Let z h)"
  "(\<And>x y. yields P (g x y)) \<Longrightarrow> yields P (case p of (x, y) \<Rightarrow> g x y)"
  by (auto simp: yields_def sbind_eq_Inr split: if_split_asm prod.splits)

lemma yieldsD: "yields P r \<Longrightarrow> r = Inr m \<Longrightarrow> P m"
  by (simp add: yields_def)

text \<open>The mutations a sequence of checks may divert to.\<close>

definition diverts :: "('m \<Rightarrow> bool) \<Rightarrow> ('s + 'm) + 'a \<Rightarrow> bool" where
  "diverts P r \<longleftrightarrow> (\<forall>m. r = Inl (Inr m) \<longrightarrow> P m)"

lemma diverts_rules [yields_intro]:
  "diverts P (Inr x)" "diverts P (Inl (Inl t))" "P m \<Longrightarrow> diverts P (Inl (Inr m))" "diverts P (lift_stop stop)"
  "P m \<Longrightarrow> diverts P (divert_if b m)"
  "diverts P s \<Longrightarrow> (\<And>x. diverts P (f x)) \<Longrightarrow> diverts P (sbind s f)"
  "diverts P r \<Longrightarrow> diverts P r' \<Longrightarrow> diverts P (if b then r else r')"
  "(\<And>x. diverts P (h x)) \<Longrightarrow> diverts P (Let z h)"
  "diverts P r \<Longrightarrow> (\<And>x. diverts P (g x)) \<Longrightarrow> diverts P (case w of None \<Rightarrow> r | Some x \<Rightarrow> g x)"
  by (auto simp: diverts_def lift_stop_def divert_if_def sbind_eq_Inl map_err_def split: if_split_asm option.splits sum.split_asm)

lemma yields_divert [yields_intro]: "diverts P r \<Longrightarrow> (\<And>x. P (f x)) \<Longrightarrow> yields P (divert r f)"
  by (auto simp: yields_def diverts_def divert_def split: sum.split_asm)

section \<open>Transactions\<close>

lemma unobserved:
  "st_observations (tx_meta_set k v st) = st_observations st"
  "tx_action_put run act idg rej st = Inr st' \<Longrightarrow> st_observations st' = st_observations st"
  "tx_effect_insert dg run act pre s env st = Inr st' \<Longrightarrow> st_observations st' = st_observations st"
  "tx_idem_put p r m h reply st = Inr st' \<Longrightarrow> st_observations st' = st_observations st"
  "tx_policy_put dg g body st = Inr st' \<Longrightarrow> st_observations st' = st_observations st"
  "tx_evaluation_put i dg out seq st = Inr st' \<Longrightarrow> st_observations st' = st_observations st"
  "st_observations (tx_object_put dg kind n s ex st) = st_observations st"
  "st_observations (tx_outbox_put kind subj due body st) = st_observations st"
  "st_observations (tx_outbox_delete rid st) = st_observations st"
  "st_observations (tx_slot_put c m dl s rs st) = st_observations st"
  "st_observations (tx_window_put run start counts st) = st_observations st"
  by (auto simp: tx_meta_set_def tx_action_put_def tx_effect_insert_def tx_idem_put_def tx_policy_put_def
      tx_evaluation_put_def tx_object_put_def tx_outbox_put_def tx_outbox_delete_def tx_slot_put_def tx_window_put_def
      split: if_split_asm option.splits)

locale quiet_order =
  fixes cr :: Crypto and rel :: "Tx \<Rightarrow> Tx \<Rightarrow> bool"
  assumes rel_refl: "rel tx tx"
    and rel_trans: "rel tx tx' \<Longrightarrow> rel tx' tx'' \<Longrightarrow> rel tx tx''"
    and rel_quiet: "stmt (tx_store tx) st \<Longrightarrow> st_observations st = st_observations (tx_store tx) \<Longrightarrow> rel tx (tx\<lparr>tx_store := st\<rparr>)"
    and rel_emit: "emit cr cx now actor request kind value causes tx = Inr (r, tx') \<Longrightarrow> rel tx tx'"
    and rel_plain: "table \<notin> {''checks'', ''alerts''} \<Longrightarrow>
      emit_entity cr cx now actor request kind table eid value causes tx = Inr (r, tx') \<Longrightarrow> rel tx tx'"
begin

named_theorems fol \<open>computations that follow the relation\<close>

lemma follows_pure [fol]:
  "follows rel (ret x)" "follows rel (fail f)" "follows rel (liftR r)" "follows rel (query qf)" "follows rel (look g)"
  by (auto simp: follows_def tx_defs intro: rel_refl)

lemma follows_tbind [fol]:
  "follows rel m \<Longrightarrow> (\<And>x. follows rel (k x)) \<Longrightarrow> follows rel (tbind m k)"
  by (rule followsI) (auto simp: tbind_def sbind_eq_Inr intro: rel_trans dest: followsD)

lemma follows_thn [fol]: "follows rel m \<Longrightarrow> follows rel n \<Longrightarrow> follows rel (thn m n)"
  unfolding thn_def by (intro follows_tbind)

lemma follows_if [fol]: "(b \<Longrightarrow> follows rel m) \<Longrightarrow> (\<not> b \<Longrightarrow> follows rel n) \<Longrightarrow> follows rel (if b then m else n)"
  by simp

lemma follows_option [fol]:
  "follows rel m \<Longrightarrow> (\<And>x. follows rel (f x)) \<Longrightarrow> follows rel (case z of None \<Rightarrow> m | Some x \<Rightarrow> f x)"
  by (cases z) simp_all

lemma follows_prod [fol]: "(\<And>x y. follows rel (f x y)) \<Longrightarrow> follows rel (case z of (x, y) \<Rightarrow> f x y)"
  by (cases z) simp

lemma follows_Let [fol]: "(\<And>x. follows rel (f x)) \<Longrightarrow> follows rel (Let z f)"
  by simp

lemma follows_forT [fol]: "(\<And>x. follows rel (f x)) \<Longrightarrow> follows rel (forT f xs)"
  by (induction xs) (simp_all add: fol)

lemma follows_reader: "(\<And>tx. follows rel (f tx)) \<Longrightarrow> follows rel (\<lambda>tx. f tx tx)"
  by (auto simp: follows_def)

lemma follows_exec:
  assumes "\<And>st st'. f st = Inr st' \<Longrightarrow> stmt st st' \<and> st_observations st' = st_observations st"
  shows "follows rel (exec f)"
  by (rule followsI) (auto simp: exec_def intro!: rel_quiet dest: assms)

lemma follows_statements [fol]:
  "follows rel (exec_ok (tx_meta_set k v))"
  "follows rel (exec (tx_action_put run act idg rej))"
  "follows rel (exec (tx_effect_insert dg run act pre s env))"
  "follows rel (exec (tx_policy_put dg g body))"
  "follows rel (exec (tx_evaluation_put i dg out sq))"
  "follows rel (exec_ok (tx_object_put dg kind n s ex))"
  "follows rel (exec_ok (tx_outbox_put kind subj due body))"
  "follows rel (exec_ok (tx_outbox_delete rid))"
  "follows rel (exec_ok (tx_slot_put c mo dl s rs))"
  "follows rel (exec_ok (tx_window_put run start counts))"
  unfolding exec_ok_def by (rule follows_exec, auto intro: stmt.intros simp: unobserved)+

lemma follows_events [fol]:
  "follows rel (emit cr cx now actor request kind value causes)"
  "follows rel (watchd_event cr dm now kind value causes)"
  "follows rel (caller_event cr dm now ca kind value causes)"
  by (auto intro: followsI rel_emit simp: watchd_event_def caller_event_def)

lemma follows_entities [fol]:
  "table \<notin> {''checks'', ''alerts''} \<Longrightarrow> follows rel (emit_entity cr cx now actor request kind table eid value causes)"
  "table \<notin> {''checks'', ''alerts''} \<Longrightarrow> follows rel (watchd_entity cr dm now kind table eid value causes)"
  "table \<notin> {''checks'', ''alerts''} \<Longrightarrow> follows rel (record_entity cr dm now kind table eid value causes)"
  "table \<notin> {''checks'', ''alerts''} \<Longrightarrow> follows rel (caller_entity cr dm now ca kind table eid value causes)"
  by (auto simp: watchd_entity_def record_entity_def caller_entity_def intro!: fol intro: followsI rel_plain)

lemma follows_small [fol]:
  "follows rel (bump name kind outcome n)" "follows rel (checks_total outcome)" "follows rel (get_run rid)"
  "follows rel (get_check cr cid)" "follows rel (get_review vid)" "follows rel (get_alert aid)" "follows rel (unwrap x)"
  unfolding bump_def checks_total_def get_run_def get_check_def get_review_def get_alert_def unwrap_def
  by (intro fol)+

text \<open>The transactions that write no observation, check or alert.\<close>

lemma follows_reviews [fol]:
  "follows rel (expire_run_reviews cr dm now rid)" "follows rel (due_review cr dm now vid)"
  "follows rel (lease_review cr dm now vid)" "follows rel (wake_review cr dm now vid)"
  "follows rel (recover_review cr dm now vid)" "follows rel (recover_run cr dm now rid)"
  "follows rel (host_event cr kind dm)"
  unfolding expire_run_reviews_def due_review_def lease_review_def wake_review_def recover_review_def
    recover_run_def host_event_def
  by (intro fol; simp)+

lemma follows_latch [fol]: "follows rel (latch_rejected run act)" "follows rel (link_window rid win)"
    "follows rel (queue_job now c pol env m)" "follows rel (object_row dm dg kind n)"
  unfolding latch_rejected_def link_window_def queue_job_def object_row_def by (intro fol)+

lemma mfollows_plain:
  "mfollows rel (open_tx cr ca run)" "mfollows rel (effect_tx cr ca esv eb env)" "mfollows rel (expire_then_fault cr ca rv c msg)"
  "mfollows rel (release_then_fault cr ca rv c msg)" "mfollows rel (claim_tx cr ca rv)"
  "mfollows rel (resolve_tx cr ca vid kind act rv)"
  unfolding open_tx_def effect_tx_def expire_then_fault_def release_then_fault_def claim_tx_def resolve_tx_def
  by (intro mfollows_of_tx fol; simp)+

lemma mfollows_objects:
  "mfollows rel (evaluation_tx cr ca eid dg inp out)" "mfollows rel (export_tx cr ca through disc rec content)"
proof -
  have "follows rel (thn (object_row dm dg ''eval-input'' (length inp))
      (tbind (liftR (read_body ''eval parse'' Inr out)) (\<lambda>out'.
       tbind (caller_event cr dm now ca ''EvaluationRecorded'' out' [dg]) (\<lambda>(sq, _).
       thn (exec (tx_evaluation_put eid dg out sq)) (ret (MOk out'))))))" for dm now
    by (intro fol)
  then show "mfollows rel (evaluation_tx cr ca eid dg inp out)"
    by (auto simp: mfollows_def evaluation_tx_def store_object_def object_put_def dest: followsD)
  have "follows rel (thn (object_row dm (sha256_hex cr content) ''export'' (length content))
      (thn (caller_event cr dm now ca ''ExportRecorded'' (Obj [(''bundle'', Str (sha256_hex cr content)),
          (''through'', head_value through), (''disclosure'', Str disc), (''recipient'', Str rec)]) [])
      (tbind (liftR (read_body ''bundle parse'' Inr content)) (\<lambda>v. ret (MOk v)))))" for dm now
    by (intro fol)
  then show "mfollows rel (export_tx cr ca through disc rec content)"
    by (auto simp: mfollows_def export_tx_def store_object_def object_put_def Let_def dest: followsD)
qed

end

locale transaction_order = quiet_order +
  assumes rel_stmt: "stmt (tx_store tx) st \<Longrightarrow> rel tx (tx\<lparr>tx_store := st\<rparr>)"
    and rel_entity: "table \<noteq> ''checks'' \<Longrightarrow>
      emit_entity cr cx now actor request kind table eid value causes tx = Inr (r, tx') \<Longrightarrow> rel tx tx'"
begin

lemma follows_tables [fol]:
  "table \<noteq> ''checks'' \<Longrightarrow> follows rel (emit_entity cr cx now actor request kind table eid value causes)"
  "table \<noteq> ''checks'' \<Longrightarrow> follows rel (watchd_entity cr dm now kind table eid value causes)"
  "table \<noteq> ''checks'' \<Longrightarrow> follows rel (record_entity cr dm now kind table eid value causes)"
  "table \<noteq> ''checks'' \<Longrightarrow> follows rel (caller_entity cr dm now ca kind table eid value causes)"
  by (auto simp: watchd_entity_def record_entity_def caller_entity_def intro!: follows_tbind follows_thn follows_pure intro: followsI rel_entity)

lemma follows_episodes [fol]:
  "follows rel (open_episode cr dm now run pol r ev level)" "follows rel (alert_episode cr dm now run pol r evo level)"
  "follows rel (resolve_episode_if_active cr dm now rid mid baseline)"
  unfolding alert_episode_def resolve_episode_if_active_def open_episode_def
  by (intro fol; simp)+

lemma follows_windows [fol]:
  "follows rel (window_result cr dm now rid run pol ev supplied r)" "follows rel (update_drift cr dm now rid run dr)"
  "follows rel (leave_drift cr dm now rid pol dr nxt)" "follows rel (attempt_window rid start counts)"
  "follows rel (evaluate_window cr dm now rid start run pol)" "follows rel (process_one_window cr dm now rid start)"
proof -
  show a: "follows rel (window_result cr dm now rid run pol ev supplied r)" for rid run pol ev supplied r
    unfolding window_result_def by (intro fol)
  show b: "follows rel (update_drift cr dm now rid run dr)" for rid run dr
    unfolding update_drift_def by (intro fol) simp
  show c: "follows rel (leave_drift cr dm now rid pol dr nxt)" for rid pol dr nxt
    unfolding leave_drift_def by (intro fol)
  show e: "follows rel (attempt_window rid start counts)" for rid start counts
    unfolding attempt_window_def by (intro fol)
  show f: "follows rel (evaluate_window cr dm now rid start run pol)" for rid start run pol
    unfolding evaluate_window_def by (intro fol a b c e)
  show "follows rel (process_one_window cr dm now rid start)"
    unfolding process_one_window_def by (intro fol f)
qed

lemma follows_insert: "follows rel (exec (tx_insert_observation run src ep seq dg env))"
  by (rule followsI) (auto simp: exec_def intro!: rel_stmt stmt.observation)

lemma mfollows_writes:
  "mfollows rel (accept_tx cr ca osv b env run)" "mfollows rel (alert_tx cr ca aid kind a)"
  unfolding accept_tx_def alert_tx_def by (intro mfollows_of_tx fol follows_insert; simp)+

lemma window_rel: "forT (process_one_window cr dm now rid) due tx = Inr (x, tx') \<Longrightarrow> rel tx tx'"
  by (rule followsD [where m = "forT (process_one_window cr dm now rid) due"]) (intro fol)

lemma alert_rel: "alert_tx cr ca aid kind b dm now tx = (Inr (stage, tx'), dm') \<Longrightarrow> rel tx tx'"
  using mfollows_writes(2) unfolding mfollows_def by blast

lemmas window_facts = window_rel alert_rel mfollows_writes(1)

end

text \<open>The laws of the full order give those of the quiet one.\<close>

lemma transaction_orderI:
  assumes "\<And>tx. rel tx tx" and "\<And>tx tx' tx''. rel tx tx' \<Longrightarrow> rel tx' tx'' \<Longrightarrow> rel tx tx''"
    and "\<And>tx st. stmt (tx_store tx) st \<Longrightarrow> rel tx (tx\<lparr>tx_store := st\<rparr>)"
    and "\<And>cx now actor request kind value causes tx r tx'.
      emit cr cx now actor request kind value causes tx = Inr (r, tx') \<Longrightarrow> rel tx tx'"
    and "\<And>table cx now actor request kind eid value causes tx r tx'. table \<noteq> ''checks'' \<Longrightarrow>
      emit_entity cr cx now actor request kind table eid value causes tx = Inr (r, tx') \<Longrightarrow> rel tx tx'"
  shows "transaction_order cr rel"
  by unfold_locales (rule assms(1), erule (1) assms(2), erule assms(3), erule assms(4), (rule assms(5); simp),
    erule assms(3), erule (1) assms(5))

end
