(* ===== verification/Requests.thy ===== *)
theory Requests
  imports Orders
begin

text \<open>
  Timers, requests and startup follow the orders of their transactions: whatever a daemon is asked to do,
  its store moves by committed transactions of the relation.
\<close>

section \<open>Requests, timers and startup\<close>

text \<open>What the append of an observation owes to a relation.\<close>

definition appends :: "Crypto \<Rightarrow> (Tx \<Rightarrow> Tx \<Rightarrow> bool) \<Rightarrow> Value \<Rightarrow> bool" where
  "appends cr rel params \<longleftrightarrow> (\<forall>ca dm. commits rel (dm_store dm) (dm_store (snd (observations_append cr ca params dm))))"

locale host_order = quiet_order +
  assumes rel_expire: "follows rel (expire_run_checks cr dm now rid)"
    and rel_recover: "follows rel (tbind (query (entity_ids_by_state ''checks'' [''EVALUATING'']))
      (\<lambda>ids. forT (recover_check cr dm now) ids))"
    and rel_drain: "follows rel (n :: MOut T) \<Longrightarrow> follows rel (tbind
      (look (\<lambda>st. select_ids (\<lambda>r. cr_state r = ''EVALUATING'') (st_checks st)))
      (\<lambda>ids. thn (forT (drain_check cr dm now) ids) n))"
    and rel_close: "follows rel (k :: unit T) \<Longrightarrow> follows rel (tbind (look (pending_checks rid))
      (\<lambda>ids. thn (forT (cancel_check cr dm now) ids) k))"
    and rel_finalize: "follows rel (finalize_check cr dm now cid slots)"
    and rel_create: "create_admission cr ca params dm = Inr f \<Longrightarrow>
      f dm (dm_now dm) (begin_tx (dm_store dm)) = (Inr (stage, tx'), dm') \<Longrightarrow> rel (begin_tx (dm_store dm)) tx'"
    and rel_cancel: "cancel_admission cr ca params dm = Inr f \<Longrightarrow>
      f dm (dm_now dm) (begin_tx (dm_store dm)) = (Inr (stage, tx'), dm') \<Longrightarrow> rel (begin_tx (dm_store dm)) tx'"
    and rel_windows: "forT (process_one_window cr dm now rid) (due_windows (\<lambda>s. window_attempted rid s st) now start [])
      (begin_tx st) = Inr (x, tx') \<Longrightarrow> rel (begin_tx st) tx'"
    and rel_alert: "load_alert aid (dm_store dm) = Inr (Some a) \<Longrightarrow>
      alert_tx cr ca aid kind b dm (dm_now dm) (begin_tx (dm_store dm)) = (Inr (stage, tx'), dm') \<Longrightarrow> rel (begin_tx (dm_store dm)) tx'"
begin

lemma commits_refl: "commits rel st st"
  by simp

lemma commits_tx: "rel (begin_tx st) tx' \<Longrightarrow> commits rel st (tx_store tx')"
  by (auto simp: commit_step_def intro!: r_into_rtranclp)

text \<open>One mutation: its transaction and the idempotency record, or nothing.\<close>

lemma mutate_commits_at:
  assumes keep: "\<And>r dm'. f dm now (begin_tx (dm_store dm)) = (r, dm') \<Longrightarrow> dm_store dm' = dm_store dm"
    and tx: "\<And>stage tx' dm'. f dm now (begin_tx (dm_store dm)) = (Inr (stage, tx'), dm') \<Longrightarrow>
      rel (begin_tx (dm_store dm)) tx'"
  shows "commits rel (dm_store dm) (dm_store (snd (mutate now f dm)))"
proof (cases "f dm now (begin_tx (dm_store dm))")
  case (Pair r dm')
  note run = Pair
  show ?thesis
  proof (cases r)
    case (Inl e)
    then show ?thesis using run keep by (simp add: mutate_def set_host_def)
  next
    case (Inr p)
    obtain stage tx' where p: "p = (stage, tx')" by (cases p)
    have same: "dm_store dm' = dm_store dm" using keep run by blast
    show ?thesis
    proof (cases "idem_write dm' stage (tx_store tx')")
      case (Inl e)
      then show ?thesis using run Inr p same by (simp add: mutate_def set_host_def)
    next
      case (Inr st)
      have "commits rel (dm_store dm) st"
      proof (cases "dm_cur_idem dm'")
        case None
        then show ?thesis using Inr tx run \<open>r = Inr p\<close> p by (auto simp: idem_write_def intro: commits_tx)
      next
        case (Some i)
        then have "stmt (tx_store tx') st" using Inr
          by (cases i) (auto simp: idem_write_def intro: stmt.idem)
        moreover have "st_observations st = st_observations (tx_store tx')" using Inr Some
          by (cases i) (auto simp: idem_write_def unobserved)
        ultimately have "rel tx' (tx'\<lparr>tx_store := st\<rparr>)" by (rule rel_quiet)
        then have "rel (begin_tx (dm_store dm)) (tx'\<lparr>tx_store := st\<rparr>)"
          using tx run \<open>r = Inr p\<close> p rel_trans by blast
        then show ?thesis using commits_tx by fastforce
      qed
      then show ?thesis using run \<open>r = Inr p\<close> p same Inr
        by (simp add: mutate_def set_host_def latency_def Let_def)
    qed
  qed
qed

lemma mutate_commits: "mfollows rel f \<Longrightarrow> commits rel (dm_store dm) (dm_store (snd (mutate now f dm)))"
  by (rule mutate_commits_at) (auto simp: mfollows_def)

lemma mutate_h_store: "dm_store (snd (mutate_h now f dm)) = dm_store (snd (mutate now f dm))"
  by (simp add: mutate_h_def split: prod.splits option.splits)

lemma timer_commits: "(\<And>dm now. follows rel (f dm now)) \<Longrightarrow> commits rel (dm_store dm) (dm_store (timer now f dm))"
  unfolding timer_def by (intro mutate_commits mfollows_of_tx fol)

lemma handle_commits:
  "yields (mfollows rel) (admit dm) \<Longrightarrow> commits rel (dm_store dm) (dm_store (snd (handle admit dm)))"
  by (auto simp: handle_def mutate_h_store dest: yieldsD intro: mutate_commits split: sum.splits)

lemma follows_checks [fol]:
  "follows rel (expire_run_checks cr dm now rid)" "follows rel (finalize_check cr dm now cid slots)"
  by (rule rel_expire rel_finalize)+

lemma follows_runs [fol]:
  "follows rel (silence_run cr dm now rid)" "follows rel (replace_policy_run cr dm now rid)"
  "follows rel (recovery cr dm now)"
  unfolding silence_run_def replace_policy_run_def recovery_def
  by (intro fol rel_recover; simp)+

section \<open>Timers\<close>

lemma runs_advance: "advances rel (tick_run_silence cr now)"
  unfolding advances_def tick_run_silence_def
  by (auto split: sum.splits intro!: timer_commits fol)

lemma reviews_advance:
  "advances rel (tick_review_due cr now)" "advances rel (tick_lease_expiry cr now)" "advances rel (tick_wake cr now)"
  unfolding advances_def tick_review_due_def tick_lease_expiry_def tick_wake_def Let_def
  by (auto intro!: timer_commits fol)

lemma finalize_advance: "advances rel (maybe_finalize_check cr cid now)"
  unfolding advances_def maybe_finalize_check_def Let_def
  by (auto split: sum.splits option.splits intro!: timer_commits fol)

lemma checks_advance: "advances rel (tick_checks cr now)"
  unfolding tick_checks_def advances_def
  using advances_fold [of rel "\<lambda>cid. maybe_finalize_check cr cid now", OF finalize_advance]
  by (auto simp: advances_def split: sum.splits)

lemma process_advance: "advances rel (process_windows cr rid now)"
proof -
  have "commits rel (dm_store dm) (dm_store (timer now (\<lambda>dm t. forT (process_one_window cr dm t rid)
      (due_windows (\<lambda>s. window_attempted rid s (dm_store dm0)) now start [])) dm))" if "dm0 = dm" for dm dm0 start
    unfolding timer_def that
    by (rule mutate_commits_at) (auto simp: of_tx_def tx_defs intro: rel_windows)
  then show ?thesis unfolding advances_def process_windows_def Let_def by (auto split: sum.splits)
qed

lemma windows_advance: "advances rel (tick_windows cr now)"
  unfolding tick_windows_def advances_def
  using advances_fold [of rel "\<lambda>rid. process_windows cr rid now", OF process_advance]
  by (auto simp: advances_def split: sum.splits)

lemma deliver_rel: "deliver items dm tx = (r, dm') \<Longrightarrow>
    dm_store dm' = dm_store dm \<and> (\<forall>u tx'. r = Inr (u, tx') \<longrightarrow> rel tx tx')"
proof (induction items dm tx arbitrary: r dm' rule: deliver.induct)
  case (1 dm tx)
  then show ?case by (auto intro: rel_refl)
next
  case (2 rid kind subject body items dm tx)
  have del: "rel tx (tx\<lparr>tx_store := tx_outbox_delete rid (tx_store tx)\<rparr>)" by (intro rel_quiet stmt.outbox_delete unobserved)
  have pool: "dm_store (snd (pool_dispatch v d)) = dm_store d" for v d by (simp add: pool_dispatch_def)
  show ?case
  proof (cases "kind = ''monitor_job''")
    case True
    show ?thesis
    proof (cases "parse body request_limits")
      case (Inr v)
      obtain sent dm1 where p: "pool_dispatch v dm = (sent, dm1)" by (cases "pool_dispatch v dm")
      have d: "deliver items dm1 (if sent then tx\<lparr>tx_store := tx_outbox_delete rid (tx_store tx)\<rparr> else tx) = (r, dm')"
        using "2.prems" True Inr p by (simp add: Let_def)
      have same: "dm_store dm1 = dm_store dm" using pool [of v dm] p by simp
      have ih: "dm_store dm' = dm_store dm1 \<and> (\<forall>u tx'. r = Inr (u, tx') \<longrightarrow>
          rel (if sent then tx\<lparr>tx_store := tx_outbox_delete rid (tx_store tx)\<rparr> else tx) tx')"
        by (rule 2(2) [OF refl _ True Inr p [symmetric] d]) (simp add: True)
      then show ?thesis using same del by (cases sent) (auto intro: rel_trans)
    qed (use "2.prems" True in \<open>auto simp: Let_def\<close>)
  next
    case False
    have d: "deliver items (if kind = ''local_notice'' then dm\<lparr>dm_notices := dm_notices dm @ [body]\<rparr> else dm)
        (tx\<lparr>tx_store := tx_outbox_delete rid (tx_store tx)\<rparr>) = (r, dm')"
      using "2.prems" False by (simp add: Let_def split: if_split_asm)
    show ?thesis
    proof (cases "kind = ''local_notice''")
      case True
      then show ?thesis using 2(1) [OF refl True, of r dm'] d del by (auto intro: rel_trans)
    next
      case not_notice: False
      then show ?thesis using 2(3) [OF refl not_notice False, of r dm'] d del by (auto intro: rel_trans)
    qed
  qed
qed

lemma outbox_advance: "advances rel (tick_outbox now)"
proof -
  have "mfollows rel (\<lambda>dm now tx. case deliver items dm tx of
            (Inl e, dm') \<Rightarrow> (Inl e, dm') | (Inr (_, tx'), dm') \<Rightarrow> (Inr (MOk Null, tx'), dm'))" for items
    unfolding mfollows_def by (auto dest!: deliver_rel split: prod.splits sum.splits)
  then show ?thesis unfolding advances_def tick_outbox_def Let_def by (auto intro!: mutate_commits)
qed

lemma fault_host_follows: "mfollows rel (fault_host cr)"
proof -
  have "follows rel (thn (watchd_event cr dm' now ''HostFaulted'' v []) (ret (MOk Null)))" for dm' now v
    by (intro fol)
  then show ?thesis by (auto simp: mfollows_def fault_host_def Let_def set_host_def dest: followsD)
qed

lemma settle_commits: "commits rel (dm_store dm) (dm_store (settle_slot now cid mid dl ss rs dm))"
  unfolding settle_slot_def by (intro timer_commits fol)

lemma reply_advance: "advances rel (apply_monitor_reply cr now cm)"
proof (unfold advances_def, intro allI)
  fix dm
  have fin: "commits rel (dm_store dm) (dm_store (maybe_finalize_check cr cid now (settle_slot now cid mid dl ss rs dm)))"
    for cid mid dl ss rs
    using rtranclp_trans [OF settle_commits advancesD [OF finalize_advance]] .
  have fault: "commits rel (dm_store dm) (dm_store (snd (mutate now (fault_host cr) (dm\<lparr>dm_worker_mismatch := False\<rparr>))))"
    using mutate_commits [OF fault_host_follows, of "dm\<lparr>dm_worker_mismatch := False\<rparr>"] by simp
  have settled: "commits rel (dm_store dm) (dm_store (case recompute cr c (cp_monitor cm) (dm_store dm) of
      Inl _ \<Rightarrow> dm
    | Inr expected \<Rightarrow> if dm_worker_mismatch dm \<or> mismatched r expected
        then snd (mutate now (fault_host cr) (dm\<lparr>dm_worker_mismatch := False\<rparr>))
        else maybe_finalize_check cr cid now (settle_slot now cid mid dl ss rs dm)))" for c r cid mid dl ss rs
  proof (cases "recompute cr c (cp_monitor cm) (dm_store dm)")
    case (Inr expected)
    then show ?thesis
      by (cases "dm_worker_mismatch dm \<or> mismatched r expected") (simp_all only: sum.case if_True if_False fin fault)
  qed simp
  show "commits rel (dm_store dm) (dm_store (apply_monitor_reply cr now cm dm))"
  proof (cases "slot_of_job (cp_job cm) (dm_store dm)")
    case (Some p)
    obtain cid slot where p: "p = (cid, slot)" by (cases p)
    show ?thesis
    proof (cases "load_check cr cid (dm_store dm)")
      case (Inr x)
      then show ?thesis using Some p fin settled
        by (cases x; cases "cp_result cm") (simp_all add: apply_monitor_reply_def)
    qed (use Some p in \<open>simp add: apply_monitor_reply_def\<close>)
  qed (simp add: apply_monitor_reply_def)
qed

lemma tick_advance: "commits rel (dm_store dm) (dm_store (tick cr replies dm))"
proof -
  note step = rtranclp_trans [OF _ advancesD]
  show ?thesis
    unfolding tick_def Let_def
    by (simp, intro impI step [OF _ advances_fold [OF reply_advance]] step [OF _ outbox_advance]
      step [OF _ windows_advance] step [OF _ checks_advance] step [OF _ reviews_advance(3)]
      step [OF _ reviews_advance(2)] step [OF _ reviews_advance(1)] advancesD [OF runs_advance])
qed

section \<open>Requests\<close>

lemma mfollows_runs:
  "mfollows rel (drain_tx cr ca)" "mfollows rel (activate_tx cr ca sv pol env)"
  "mfollows rel (control_tx cr ca rid action run)" "mfollows rel (pause_source cr ca run c msg)"
  "mfollows rel (quarantine cr ca run c msg)"
proof -
  have "follows rel (thn (caller_event cr dm' now ca ''HostDraining'' v [])
      (tbind (look (\<lambda>st. select_ids (\<lambda>r. cr_state r = ''EVALUATING'') (st_checks st))) (\<lambda>ids.
       thn (forT (drain_check cr dm' now) ids) (ret (MOk draining_reply)))))" for dm' now v
    by (intro fol rel_drain)
  then show "mfollows rel (drain_tx cr ca)"
    by (auto simp: mfollows_def drain_tx_def Let_def dest: followsD)
  show "mfollows rel (activate_tx cr ca sv pol env)"
    unfolding activate_tx_def by (intro mfollows_of_tx fol)
  show "mfollows rel (control_tx cr ca rid action run)"
    unfolding control_tx_def by (intro mfollows_of_tx fol rel_close) simp
  show "mfollows rel (pause_source cr ca run c msg)" "mfollows rel (quarantine cr ca run c msg)"
    unfolding pause_source_def quarantine_def by (intro mfollows_of_tx fol; simp)+
qed

lemma guards_yield [yields_intro]: "yields P (early v)" "yields P (reject c msg)"
  by (simp_all add: yields_def early_def reject_def)

lemma handler_commits:
  "commits rel (dm_store dm) (dm_store (snd (system_drain cr ca dm)))"
  "commits rel (dm_store dm) (dm_store (snd (policy_activate cr ca params dm)))"
  "commits rel (dm_store dm) (dm_store (snd (runs_open cr ca params dm)))"
  "commits rel (dm_store dm) (dm_store (snd (runs_control cr ca params dm)))"
  "commits rel (dm_store dm) (dm_store (snd (effects_record cr ca params dm)))"
  "commits rel (dm_store dm) (dm_store (snd (reviews_claim cr ca params dm)))"
  "commits rel (dm_store dm) (dm_store (snd (reviews_resolve cr ca params dm)))"
  "commits rel (dm_store dm) (dm_store (snd (audit_evaluate cr es ca params dm)))"
  "commits rel (dm_store dm) (dm_store (snd (bundle_export cr ca params dm)))"
proof -
  note [intro] = handle_commits
  show "commits rel (dm_store dm) (dm_store (snd (system_drain cr ca dm)))"
    unfolding system_drain_def by (rule handle_commits, intro yields_intro mfollows_runs)
  show "commits rel (dm_store dm) (dm_store (snd (policy_activate cr ca params dm)))"
    unfolding policy_activate_def by (rule handle_commits, intro yields_intro mfollows_runs)
  show "commits rel (dm_store dm) (dm_store (snd (runs_open cr ca params dm)))"
    unfolding runs_open_def by (rule handle_commits, intro yields_intro mfollows_plain)
  show "commits rel (dm_store dm) (dm_store (snd (runs_control cr ca params dm)))"
    unfolding runs_control_def by (rule handle_commits, intro yields_intro mfollows_runs)
  show "commits rel (dm_store dm) (dm_store (snd (effects_record cr ca params dm)))"
    unfolding effects_record_def by (rule handle_commits, intro yields_intro mfollows_plain)
  show "commits rel (dm_store dm) (dm_store (snd (reviews_claim cr ca params dm)))"
    unfolding reviews_claim_def by (rule handle_commits, intro yields_intro mfollows_plain)
  show "commits rel (dm_store dm) (dm_store (snd (reviews_resolve cr ca params dm)))"
    unfolding reviews_resolve_def by (rule handle_commits, intro yields_intro mfollows_plain)
  show "commits rel (dm_store dm) (dm_store (snd (audit_evaluate cr es ca params dm)))"
    unfolding audit_evaluate_def by (rule handle_commits, intro yields_intro mfollows_objects)
  show "commits rel (dm_store dm) (dm_store (snd (bundle_export cr ca params dm)))"
    unfolding bundle_export_def by (rule handle_commits, intro yields_intro mfollows_objects)
qed

lemma at_commits:
  assumes "\<And>f stage tx' dm'. admit dm = Inr f \<Longrightarrow> f dm (dm_now dm) (begin_tx (dm_store dm)) = (Inr (stage, tx'), dm') \<Longrightarrow>
      rel (begin_tx (dm_store dm)) tx'"
    and "\<And>f r dm'. admit dm = Inr f \<Longrightarrow> f dm (dm_now dm) (begin_tx (dm_store dm)) = (r, dm') \<Longrightarrow> dm_store dm' = dm_store dm"
  shows "commits rel (dm_store dm) (dm_store (snd (handle admit dm)))"
proof (cases "admit dm")
  case (Inr f)
  then have "commits rel (dm_store dm) (dm_store (snd (mutate (dm_now dm) f dm)))"
    using assms by (intro mutate_commits_at) blast+
  then show ?thesis using Inr by (simp add: handle_def mutate_h_store)
qed (simp add: handle_def)

definition store_free :: "Mutation \<Rightarrow> bool" where
  "store_free f \<longleftrightarrow> (\<forall>dm now tx. dm_store (snd (f dm now tx)) = dm_store dm)"

lemma store_free_of_tx: "store_free (of_tx f)"
  by (simp add: store_free_def of_tx_def)

lemma alert_commits: "commits rel (dm_store dm) (dm_store (snd (alerts_resolve cr ca params dm)))"
  unfolding alerts_resolve_def
  apply (rule at_commits)
  subgoal by (auto simp: sbind_eq_Inr q_def some_or_def map_err_eq_Inr reject_def split: option.splits intro: rel_alert)
  subgoal by (auto simp: sbind_eq_Inr alert_tx_def of_tx_def)
  done

lemma store_free_checks: "yields store_free (create_admission cr ca params dm)" "yields store_free (cancel_admission cr ca params dm)"
  unfolding create_admission_def cancel_admission_def create_tx_def cancel_tx_def
  by (intro yields_intro store_free_of_tx)+

lemma check_commits:
  "commits rel (dm_store dm) (dm_store (snd (checks_create cr ca params dm)))"
  "commits rel (dm_store dm) (dm_store (snd (checks_cancel cr ca params dm)))"
proof -
  have free: "dm_store dm' = dm_store dm" if "store_free f" "f dm now tx = (r, dm')" for f dm' r now tx
    using that unfolding store_free_def by (metis snd_conv)
  have c: "commits rel (dm_store dm) (dm_store (snd (handle (create_admission cr ca params) dm)))"
    by (rule at_commits) (auto intro: rel_create free yieldsD [OF store_free_checks(1)])
  then show "commits rel (dm_store dm) (dm_store (snd (checks_create cr ca params dm)))"
    using advancesD [OF outbox_advance] unfolding checks_create_def
    by (auto split: prod.splits sum.splits MOut.splits intro: rtranclp_trans)
  show "commits rel (dm_store dm) (dm_store (snd (checks_cancel cr ca params dm)))"
    unfolding checks_cancel_def
    by (rule at_commits) (auto intro: rel_cancel free yieldsD [OF store_free_checks(2)])
qed

lemma execute_commits:
  assumes "appends cr rel params"
  shows "commits rel (dm_store dm) (dm_store (snd (execute cr pf ca mname params dm)))"
  unfolding execute_def Let_def using assms
  by (auto simp: reading_def handler_commits alert_commits check_commits appends_def)

lemma request_advances:
  assumes "appends cr rel params"
  shows "commits rel (dm_store dm) (dm_store (snd (dispatch_request cr pf ca mname params dm)))"
proof -
  have rate: "dm_store dm' = dm_store dm" if "rate_ok who dm = (ok, dm')" for who ok dm'
    using that by (auto simp: rate_ok_def Let_def split: prod.splits)
  have run: "commits rel (dm_store dm) (dm_store (snd (run_request cr pf ca mname params h dm')))"
    if "dm_store dm' = dm_store dm" for h dm'
  proof -
    obtain r dm2 where e: "execute cr pf ca mname params (if is_mutation mname
        then dm'\<lparr>dm_cur_idem := Some (pr_id (ca_principal ca), ca_request ca, mname, h)\<rparr> else dm') = (r, dm2)"
      by (cases "execute cr pf ca mname params (if is_mutation mname
        then dm'\<lparr>dm_cur_idem := Some (pr_id (ca_principal ca), ca_request ca, mname, h)\<rparr> else dm')") blast
    have "commits rel (dm_store dm) (dm_store dm2)"
      using execute_commits [OF assms, of _ pf ca mname, unfolded e [symmetric], of "if is_mutation mname
        then dm'\<lparr>dm_cur_idem := Some (pr_id (ca_principal ca), ca_request ca, mname, h)\<rparr> else dm'"] that e
      by (simp split: if_split_asm)
    then show ?thesis using e by (simp add: run_request_def Let_def)
  qed
  show ?thesis
    unfolding dispatch_request_def Let_def
    by (auto split: sum.splits option.splits prod.splits dest: rate intro: run)
qed

section \<open>Startup\<close>

lemma commit_tx_commits: "follows rel m \<Longrightarrow> commit_tx m dm = Inr dm' \<Longrightarrow> commits rel (dm_store dm) (dm_store dm')"
  by (auto simp: commit_tx_def sbind_eq_Inr dest!: followsD intro: commits_tx)

lemma start_host_commits: "commits rel (dm_store dm) (snd (start_host cr dm))"
proof -
  have boot: "follows rel (thn (exec_ok (tx_meta_set k v)) (host_event cr kind dm))" for k v kind dm by (intro fol)
  have event: "follows rel (host_event cr kind dm)" for kind dm by (intro fol)
  have rec: "follows rel (recovery cr dm now)" for dm now by (intro fol)
  show ?thesis
    unfolding start_host_def Let_def
    by (auto split: sum.splits dest!: commit_tx_commits [OF boot] commit_tx_commits [OF event] commit_tx_commits [OF rec]
        simp: set_host_def intro: rtranclp_trans)
qed

lemma start_advance: "commits rel st (snd (start_daemon cr files st cfg trust signer objects pool now boot))"
  using start_host_commits [of "boot_daemon st cfg trust _ objects pool now boot"]
  by (auto simp: start_daemon_def boot_daemon_def split: sum.splits)

end

text \<open>All of it, with the observations.\<close>

locale request_order = host_order +
  assumes rel_accept: "mfollows rel (accept_tx cr ca osv b env run)"
begin

lemma append_commits: "commits rel (dm_store dm) (dm_store (snd (observations_append cr ca params dm)))"
proof -
  have w: "diverts (mfollows rel) (window_admission cr ca dm run b)" for run b
    unfolding window_admission_def by (intro yields_intro mfollows_runs)
  have c: "diverts (mfollows rel) (counter_admission cr ca dm run b)" for run b
    unfolding counter_admission_def by (intro yields_intro mfollows_runs)
  show ?thesis
    unfolding observations_append_def sequence_admission_def
    by (rule handle_commits, intro yields_intro mfollows_runs rel_accept w c)
qed

lemma all_append: "appends cr rel params"
  by (simp add: appends_def append_commits)

lemma request_advance: "commits rel (dm_store dm) (dm_store (snd (dispatch_request cr pf ca mname params dm)))"
  by (rule request_advances [OF all_append])

end

end
