(* ===== verification/Life.thy ===== *)
theory Life
  imports Requests
begin

text \<open>
  The life of a store: starts, requests, ticks, crashes and restarts in any order, from the empty
  store. What happens to the process between them (the clock, injected faults, the workers) is an input too.
\<close>

datatype Input =
    IStart "string \<Rightarrow> string + string" Config Trust "string option"
      "(string \<times> string \<times> string \<times> string) list option" bool nat string
  | IRequest Caller string Value
  | ITick "Completion list"
  | IClock nat
  | IFaults bool bool bool bool
  | IWorkers bool
  | ICommitTime nat
  | IDeath

type_synonym Process = "Store \<times> Daemon option"

text \<open>The death of the process loses everything but the store; a request without a reply is not its death.\<close>

definition perform :: "Crypto \<Rightarrow> Platform \<Rightarrow> Input \<Rightarrow> Process \<Rightarrow> Process" where
  "perform cr pf i p = (case p of (st, live) \<Rightarrow> (case i of
     IStart files cfg trust signer objects pool now boot \<Rightarrow>
       (case start_daemon cr files st cfg trust signer objects pool now boot of
          (Inl _, st') \<Rightarrow> (st', None) | (Inr dm, st') \<Rightarrow> (st', Some dm))
   | IRequest ca mname params \<Rightarrow> (case live of None \<Rightarrow> (st, None)
       | Some dm \<Rightarrow> (case dispatch_request cr pf ca mname params dm of
           (_, dm') \<Rightarrow> (dm_store dm', Some dm')))
   | ITick replies \<Rightarrow> (case live of None \<Rightarrow> (st, None)
       | Some dm \<Rightarrow> (let dm' = tick cr replies dm in (dm_store dm', Some dm')))
   | IClock t \<Rightarrow> (st, map_option (\<lambda>dm. dm\<lparr>dm_now := t\<rparr>) live)
   | IFaults before after audit mismatch \<Rightarrow> (st, map_option (\<lambda>dm. dm\<lparr>dm_crash_before_commit := before,
       dm_crash_after_commit := after, dm_audit_fail := audit, dm_worker_mismatch := mismatch\<rparr>) live)
   | IWorkers reachable \<Rightarrow> (st, map_option (\<lambda>dm. dm\<lparr>dm_pool := reachable\<rparr>) live)
   | ICommitTime ms \<Rightarrow> (st, map_option (\<lambda>dm. dm\<lparr>dm_commit_ms := ms\<rparr>) live)
   | IDeath \<Rightarrow> (st, None)))"

definition process_from :: "Crypto \<Rightarrow> Platform \<Rightarrow> Process \<Rightarrow> Input list \<Rightarrow> Process" where
  "process_from cr pf p inputs = fold (perform cr pf) inputs p"

text \<open>The store after a sequence of inputs.\<close>

definition store_after :: "Crypto \<Rightarrow> Platform \<Rightarrow> Input list \<Rightarrow> Store" where
  "store_after cr pf inputs = fst (process_from cr pf (empty_store, None) inputs)"

definition coherent :: "Process \<Rightarrow> bool" where
  "coherent p \<longleftrightarrow> (case snd p of None \<Rightarrow> True | Some dm \<Rightarrow> dm_store dm = fst p)"

context host_order begin

lemma start_store: "start_daemon cr files st cfg trust signer objects pool now boot = (Inr dm, st') \<Longrightarrow> dm_store dm = st'"
  by (auto simp: start_daemon_def start_host_def Let_def split: sum.splits if_split_asm)

lemma performs_commits:
  assumes "coherent p" and "\<And>ca mname params. i = IRequest ca mname params \<Longrightarrow> appends cr rel params"
  shows "coherent (perform cr pf i p) \<and> commits rel (fst p) (fst (perform cr pf i p))"
proof -
  obtain st live where p: "p = (st, live)" by (cases p)
  have same: "live = Some dm \<Longrightarrow> dm_store dm = st" for dm using assms by (simp add: p coherent_def)
  show ?thesis
  proof (cases i)
    case (IStart files cfg trust signer objects pool now boot)
    obtain r st' where d: "start_daemon cr files st cfg trust signer objects pool now boot = (r, st')"
      by (cases "start_daemon cr files st cfg trust signer objects pool now boot")
    have "commits rel st st'"
      using start_advance [of st files cfg trust signer objects pool now boot] d by simp
    then show ?thesis using IStart d start_store [of files st cfg trust signer objects pool now boot]
      by (cases r) (simp_all add: p perform_def coherent_def)
  next
    case (IRequest ca mname params)
    show ?thesis
    proof (cases live)
      case (Some dm)
      obtain r dm' where d: "dispatch_request cr pf ca mname params dm = (r, dm')"
        by (cases "dispatch_request cr pf ca mname params dm")
      have "commits rel st (dm_store dm')"
        using request_advances [OF assms(2) [OF IRequest], of dm pf ca mname] unfolding d snd_conv same [OF Some] .
      then show ?thesis using IRequest Some d by (simp add: p perform_def coherent_def)
    qed (use IRequest in \<open>simp add: p perform_def coherent_def\<close>)
  next
    case (ITick replies)
    show ?thesis
    proof (cases live)
      case (Some dm)
      then show ?thesis using tick_advance [of dm replies] same [OF Some] ITick by (simp add: p perform_def coherent_def Let_def)
    qed (use ITick in \<open>simp add: p perform_def coherent_def\<close>)
  qed (use assms(1) in \<open>cases live; auto simp: p perform_def coherent_def\<close>)+
qed

lemma processes_commits:
  "coherent p \<Longrightarrow> (\<And>ca mname params. IRequest ca mname params \<in> set inputs \<Longrightarrow> appends cr rel params) \<Longrightarrow>
    coherent (process_from cr pf p inputs) \<and> commits rel (fst p) (fst (process_from cr pf p inputs))"
proof (induction inputs arbitrary: p)
  case (Cons i inputs)
  have "coherent (perform cr pf i p) \<and> commits rel (fst p) (fst (perform cr pf i p))"
    using Cons.prems by (intro performs_commits) auto
  then show ?case using Cons.IH [of "perform cr pf i p"] Cons.prems(2)
    by (auto simp: process_from_def intro: rtranclp_trans)
qed (simp add: process_from_def)

end

context request_order begin

lemma process_commits:
  "coherent p \<Longrightarrow> coherent (process_from cr pf p inputs) \<and> commits rel (fst p) (fst (process_from cr pf p inputs))"
  using processes_commits all_append by blast

lemma after_commits: "commits rel (store_after cr pf xs) (store_after cr pf (xs @ ys))"
proof -
  have "coherent (process_from cr pf (empty_store, None) xs)"
    using process_commits [of "(empty_store, None)" pf xs] by (simp add: coherent_def)
  then show ?thesis
    using process_commits [of "process_from cr pf (empty_store, None) xs" pf ys]
    by (simp add: store_after_def process_from_def)
qed

lemma life_commits: "commits rel empty_store (store_after cr pf xs)"
  using after_commits [of pf "[]" xs] by (simp add: store_after_def process_from_def)

end

end
