(* ===== verification/Histories.thy ===== *)
theory Histories
  imports Life
begin

text \<open>
  What every history of a store guarantees. A sequence of starts, requests, ticks, faults and crashes
  from the empty store keeps the audit chain intact, extends it and rewrites none of it, and keeps the
  versions of every entity: the current body is the last version, and what was read at an audit cut reads
  the same ever after.
\<close>

section \<open>Orders on every write\<close>

locale decision_order = quiet_order +
  assumes rel_check: "emit_entity cr cx now actor request kind ''checks'' eid value causes tx = Inr (r, tx') \<Longrightarrow> rel tx tx'"
begin

lemma follows_check [fol]:
  "follows rel (emit_entity cr cx now actor request kind ''checks'' eid v causes)"
  "follows rel (record_entity cr dm now kind ''checks'' eid v causes)"
  "follows rel (caller_entity cr dm now ca kind ''checks'' eid v causes)"
proof -
  show a: "follows rel (emit_entity cr cx now actor request kind ''checks'' eid v causes)"
    for cx now actor request kind eid v causes
    by (rule followsI) (rule rel_check)
  show "follows rel (record_entity cr dm now kind ''checks'' eid v causes)"
    "follows rel (caller_entity cr dm now ca kind ''checks'' eid v causes)"
    unfolding record_entity_def watchd_entity_def caller_entity_def by (intro fol a)+
qed

lemma follows_decisions [fol]:
  "follows rel (expire_run_checks cr dm now rid)" "follows rel (recover_check cr dm now cid)"
  "follows rel (drain_check cr dm now cid)" "follows rel (cancel_check cr dm now cid)"
  "follows rel (finalize_stale cr dm now c)" "follows rel (plain_outcome cr dm now c)"
  "follows rel (held_outcome cr dm now c run pol cand reason)" "follows rel (consume_review cr dm now consume)"
  unfolding expire_run_checks_def recover_check_def drain_check_def cancel_check_def finalize_stale_def
    plain_outcome_def held_outcome_def consume_review_def Let_def
  by (intro fol; simp)+

lemma follows_clear [fol]: "follows rel (clear_outcome cr dm now c run pol ob cand consume)"
  unfolding clear_outcome_def Let_def
  by (intro fol follows_reader [where f = "\<lambda>tx. record_entity cr dm now _ _ _ _ (clear_causes _ tx)"])

lemma follows_apply [fol]: "follows rel (apply_outcome cr dm now c run pol ob outcome existing consume cand)"
  by (cases outcome) (auto simp: apply_outcome_def Let_def intro!: fol)

lemma follows_finalize: "follows rel (finalize_check cr dm now cid slots)"
  unfolding finalize_check_def recheck_def decide_check_def Let_def by (intro fol)

lemma decisions_host:
  "follows rel (tbind (query (entity_ids_by_state ''checks'' [''EVALUATING''])) (\<lambda>ids. forT (recover_check cr dm now) ids))"
  "follows rel n \<Longrightarrow> follows rel (tbind (look (\<lambda>st. select_ids (\<lambda>r. cr_state r = ''EVALUATING'') (st_checks st)))
    (\<lambda>ids. thn (forT (drain_check cr dm now) ids) n))"
  "follows rel k \<Longrightarrow> follows rel (tbind (look (pending_checks rid)) (\<lambda>ids. thn (forT (cancel_check cr dm now) ids) k))"
  by (intro fol; assumption)+

lemma create_rel:
  assumes "create_admission cr ca params dm = Inr f"
    and "f dm (dm_now dm) (begin_tx (dm_store dm)) = (Inr (stage, tx'), dm')"
  shows "rel (begin_tx (dm_store dm)) tx'"
proof -
  have "yields (mfollows rel) (create_admission cr ca params dm)"
    unfolding create_admission_def create_tx_def by (intro yields_intro mfollows_of_tx fol; simp)
  then show ?thesis using assms by (auto simp: mfollows_def dest: yieldsD)
qed

lemma cancel_rel:
  assumes "cancel_admission cr ca params dm = Inr f"
    and "f dm (dm_now dm) (begin_tx (dm_store dm)) = (Inr (stage, tx'), dm')"
  shows "rel (begin_tx (dm_store dm)) tx'"
proof -
  have "yields (mfollows rel) (cancel_admission cr ca params dm)"
    unfolding cancel_admission_def cancel_tx_def by (intro yields_intro mfollows_of_tx fol; simp)
  then show ?thesis using assms by (auto simp: mfollows_def dest: yieldsD)
qed

lemmas host_facts = follows_decisions(1) decisions_host follows_finalize create_rel cancel_rel

end

locale entity_order = transaction_order + decision_order

sublocale entity_order \<subseteq> request_order
  by unfold_locales (rule host_facts window_facts; assumption)+

lemma entity_orderI:
  assumes "\<And>tx. rel tx tx" and "\<And>tx tx' tx''. rel tx tx' \<Longrightarrow> rel tx' tx'' \<Longrightarrow> rel tx tx''"
    and "\<And>tx st. stmt (tx_store tx) st \<Longrightarrow> rel tx (tx\<lparr>tx_store := st\<rparr>)"
    and "\<And>cx now actor request kind value causes tx r tx'.
      emit cr cx now actor request kind value causes tx = Inr (r, tx') \<Longrightarrow> rel tx tx'"
    and "\<And>cx now actor request kind table eid value causes tx r tx'.
      emit_entity cr cx now actor request kind table eid value causes tx = Inr (r, tx') \<Longrightarrow> rel tx tx'"
  shows "entity_order cr rel"
proof -
  have t: "transaction_order cr rel"
    by (rule transaction_orderI) (rule assms(1), erule (1) assms(2), erule assms(3), erule assms(4), erule assms(5))
  show ?thesis
    by (intro entity_order.intro decision_order.intro decision_order_axioms.intro t transaction_order.axioms(1) [OF t])
      (erule assms(5))
qed

text \<open>The order of all writes, and what the invariants of the history make of it.\<close>

interpretation writes: entity_order cr "writes cr" for cr
proof (rule entity_orderI)
  show "stmt (tx_store tx) st \<Longrightarrow> writes cr tx (tx\<lparr>tx_store := st\<rparr>)" for tx st
    by (intro r_into_rtranclp tx_step.stmt)
qed (auto intro: r_into_rtranclp tx_step.intros rtranclp_trans)

definition sound_history :: "Crypto \<Rightarrow> Store \<Rightarrow> bool" where
  "sound_history cr st \<longleftrightarrow> audit_ok cr st \<and> history_ok st"

lemma sound_empty: "sound_history cr empty_store"
  by (simp add: sound_history_def audit_ok_def history_ok_def empty_store_def get_entity_body_def
      get_entity_at_cut versions_def entity_tables_def)

lemma commits_sound: "commits (writes cr) st st' \<Longrightarrow> sound_history cr st \<Longrightarrow> sound_history cr st'"
proof (induction rule: rtranclp_induct)
  case (step st1 st2)
  then show ?case using history.writes_keep by (fastforce simp: commit_step_def sound_history_def begin_tx_def)
qed

lemma commits_extend: "commits (writes cr) st st' \<Longrightarrow> \<exists>rows. st_audit st' = st_audit st @ rows"
proof (induction rule: rtranclp_induct)
  case (step st1 st2)
  then show ?case using writes_extend by (fastforce simp: commit_step_def begin_tx_def)
qed simp

lemma commits_past:
  assumes "commits (writes cr) st st'" and "sound_history cr st" and "c \<le> hd_seq (tx_head st)"
  shows "get_entity_at table eid (Some c) st' = get_entity_at table eid (Some c) st \<and>
    list_at table run after c limit st' = list_at table run after c limit st \<and> c \<le> hd_seq (tx_head st')"
  using assms
proof (induction rule: rtranclp_induct)
  case (step st1 st2)
  obtain tx' where w: "writes cr (begin_tx st1) tx'" "st2 = tx_store tx'" using step.hyps(2) by (auto simp: commit_step_def)
  have "audit_ok cr (tx_store (begin_tx st1))"
    using commits_sound [OF step.hyps(1)] step.prems by (simp add: sound_history_def begin_tx_def)
  then show ?case
    using past_reads [OF w(1), of c] writes_past [OF w(1), of c] step w(2) by (simp add: begin_tx_def)
qed simp

lemma after_sound: "sound_history cr (store_after cr pf xs)"
  using commits_sound [OF writes.life_commits sound_empty] .

end
