(* ===== verification/SampleHost.thy ===== *)
theory SampleHost
  imports Samples Metrics
begin

text \<open>
  A concrete host: an empty store, an operator and the drain request, with the event it commits. The
  witnesses of the properties of requests run on it.
\<close>

definition sample_config :: Config where
  "sample_config = \<lparr>cf_tenant = ''lab'', cf_deployment = ''lab'', cf_socket = ''s'', cf_data_dir = ''d'',
     cf_signer_key_id = ''a'', cf_signer_key_epoch = 1, cf_signer_key_file = ''k'', cf_trust_file = ''t'',
     cf_principals = [], cf_sources = [], cf_installed_artifacts = [], cf_certified_profiles = [],
     cf_release = None, cf_storage_max_bytes = 0, cf_storage_warn_bp = 0, cf_storage_stop_bp = 0,
     cf_storage_raw_days = 0, cf_storage_audit_days = 0, cf_object_key_id = ''a'', cf_object_key_file = ''k''\<rparr>"

definition sample_trust :: Trust where
  "sample_trust = \<lparr>tr_tenant = ''lab'', tr_keys = [], tr_sources = [],
     tr_minimum_head = \<lparr>hd_seq = 0, hd_hash = zero_hash\<rparr>\<rparr>"

definition sample_daemon :: Daemon where
  "sample_daemon = (boot_daemon empty_store sample_config sample_trust ''sk'' None False 5 sample_boot)
     \<lparr>dm_host := \<lparr>ho_state = HsReady, ho_epoch = 1, ho_boot = sample_boot, ho_reason = None\<rparr>\<rparr>"

definition sample_platform :: Platform where
  "sample_platform = \<lparr>pf_estimates = \<lparr>est_minus = \<lambda>_ _ _ _. 0, est_plus = \<lambda>_ _ _ _. 5\<rparr>, pf_used_bytes = 0,
     pf_ratio = \<lambda>_ _. ''0.0''\<rparr>"

definition sample_caller :: Caller where
  "sample_caller = \<lparr>ca_principal = \<lparr>pr_id = ''op'', pr_uid = 1, pr_roles = [''operator'']\<rparr>, ca_request = ''a''\<rparr>"

lemma sort_by_Nil [simp]: "sort_by le [] = []"
  by (simp add: sort_by_def)

definition drain_event :: EventBody where
  "drain_event = event_at (emit_ctx sample_daemon) 5 ''op'' ''a'' ''HostDraining''
     (host_value \<lparr>ho_state = HsDraining, ho_epoch = 1, ho_boot = sample_boot, ho_reason = None\<rparr>) [] empty_head"

lemma drain_event_valid: "valid_event_body cr drain_event"
proof -
  have "validate_event_value cr ''HostDraining''
      (host_value \<lparr>ho_state = HsDraining, ho_epoch = 1, ho_boot = sample_boot, ho_reason = None\<rparr>) = Inr ()"
    by (simp add: validate_event_value_def host_value_def fld_some closed_eval codec_enc u_max_def opt_text_def opt_of_def)
  then show ?thesis
    by (simp add: valid_event_body_def drain_event_def event_at_def emit_ctx_def sample_daemon_def boot_daemon_def
        sample_config_def empty_head_def u_max_def set_max_def EVENT_KINDS_def)
qed

text \<open>The drain commits: an event, and the reply under the request id.\<close>

lemma drain_emits:
  "\<exists>r tx. emit cr (emit_ctx sample_daemon) 5 ''op'' ''a'' ''HostDraining''
     (host_value \<lparr>ho_state = HsDraining, ho_epoch = 1, ho_boot = sample_boot, ho_reason = None\<rparr>) []
     (begin_tx empty_store) = Inr (r, tx) \<and> st_audit (tx_store tx) \<noteq> [] \<and> st_checks (tx_store tx) = [] \<and>
     st_idempotency (tx_store tx) = []"
proof -
  have "event_body_of cr (event_body_value drain_event) = Inr drain_event"
    using drain_event_valid by (rule event_body_dec_enc)
  then show ?thesis
    unfolding drain_event_def
    by (simp add: emit_def Let_def begin_tx_def empty_store_def tx_head_def tx_append_audit_def audit_seqs_def)
      (simp add: event_at_def)
qed

lemma drain_commits:
  "\<exists>out dm1. dispatch_request cr pf sample_caller ''system.drain'' (Obj []) sample_daemon = (Some out, dm1) \<and>
     st_audit (dm_store dm1) \<noteq> []"
proof -
  obtain r tx where e: "emit cr (emit_ctx sample_daemon) 5 ''op'' ''a'' ''HostDraining''
     (host_value \<lparr>ho_state = HsDraining, ho_epoch = 1, ho_boot = sample_boot, ho_reason = None\<rparr>) []
     (begin_tx empty_store) = Inr (r, tx)" and tx: "st_audit (tx_store tx) \<noteq> []" "st_checks (tx_store tx) = []"
     "st_idempotency (tx_store tx) = []"
    using drain_emits by blast
  have gates: "''system.drain'' \<in> set PUBLIC_METHODS" "validate_params cr ''system.drain'' (Obj []) = Inr ()"
    "role_allowed [''operator''] ''system.drain''" "is_mutation ''system.drain''"
    "host_refusal HsReady ''system.drain'' = None"
    by (simp_all add: PUBLIC_METHODS_def validate_params_def closed_eval role_allowed_def is_mutation_def host_refusal_def Let_def)
  show ?thesis
    using gates e tx
    by (simp add: dispatch_request_def Let_def sample_caller_def replay_def sample_daemon_def boot_daemon_def
        tx_idem_get_def empty_store_def rate_ok_def bucket_step_def rate_burst_def rate_per_sec_def wmul64_def wadd64_def
        run_request_def execute_def system_drain_def handle_def mutate_h_def mutate_def drain_tx_def caller_event_def
        tx_defs emit_ctx_def idem_write_def tx_idem_put_def latency_def select_ids_def begin_tx_def)
qed

end
