(* ===== verification/Retry.thy ===== *)
theory Retry
  imports Histories SampleHost
begin

text \<open>
  Requests take effect once. A mutation that commits records its reply under the caller and the request
  id in the same transaction; the record is never replaced, and the same request is then answered from
  the record without touching the store, whatever happened in between.
\<close>

section \<open>The idempotency table only grows\<close>

definition recorded :: "Store \<Rightarrow> Store \<Rightarrow> bool" where
  "recorded st st' \<longleftrightarrow> (\<forall>k v. map_of (st_idempotency st) k = Some v \<longrightarrow> map_of (st_idempotency st') k = Some v)"

lemma recorded_refl: "recorded st st"
  by (simp add: recorded_def)

lemma recorded_trans: "recorded st st' \<Longrightarrow> recorded st' st'' \<Longrightarrow> recorded st st''"
  unfolding recorded_def by blast

lemma recorded_same: "st_idempotency st' = st_idempotency st \<Longrightarrow> recorded st st'"
  by (simp add: recorded_def)

lemma stmt_recorded: "stmt st st' \<Longrightarrow> recorded st st'"
proof (induction rule: stmt.induct)
  case (idem p r m h reply st st')
  then show ?case
    by (auto simp: tx_idem_put_def recorded_def map_of_append map_add_def split: if_split_asm option.splits)
qed (auto intro!: recorded_same simp: tx_meta_set_def tx_insert_observation_def tx_action_put_def tx_effect_insert_def
      tx_policy_put_def tx_evaluation_put_def tx_object_put_def tx_outbox_put_def
      tx_outbox_delete_def tx_slot_put_def tx_window_put_def split: if_split_asm option.splits)

lemma put_idempotency: "tx_put_entity cr table eid body seq entity st = Inr st' \<Longrightarrow> st_idempotency st' = st_idempotency st"
  by (erule put_entity_Inr) simp_all

interpretation idem: entity_order cr "\<lambda>tx tx'. recorded (tx_store tx) (tx_store tx')" for cr
proof (rule entity_orderI)
  show a: "recorded (tx_store tx) (tx_store tx')" if "emit cr cx now actor request kind v causes tx = Inr (r, tx')"
    for cx now actor request kind v causes tx r tx'
    using emit_frame [OF that] by (auto intro: recorded_same)
  show "recorded (tx_store tx) (tx_store tx')"
    if written: "emit_entity cr cx now actor request kind table eid v causes tx = Inr (r, tx')"
    for cx now actor request kind table eid v causes tx r tx'
  proof -
    obtain seq dg tx1 where e: "emit cr cx now actor request kind v causes tx = Inr ((seq, dg), tx1)"
      and put: "tx_put_entity cr table eid (jcs v) seq table (tx_store tx1) = Inr (tx_store tx')"
      using written by (auto simp: emit_entity_def tx_defs)
    show ?thesis using a [OF e] recorded_same [OF put_idempotency [OF put]] by (rule recorded_trans)
  qed
  show "recorded (tx_store tx) (tx_store (tx\<lparr>tx_store := st\<rparr>))" if "stmt (tx_store tx) st" for tx st
    using stmt_recorded [OF that] by simp
qed (auto intro: recorded_refl recorded_trans)

lemma commits_recorded: "commits (\<lambda>tx tx'. recorded (tx_store tx) (tx_store tx')) st st' \<Longrightarrow> recorded st st'"
proof (induction rule: rtranclp_induct)
  case (step st1 st2)
  then show ?case by (auto simp: commit_step_def begin_tx_def intro: recorded_trans)
qed (rule recorded_refl)

section \<open>Mutations record their reply\<close>

definition steady :: "Mutation \<Rightarrow> bool" where
  "steady f \<longleftrightarrow> (\<forall>dm now tx. dm_cur_idem (snd (f dm now tx)) = dm_cur_idem dm \<and>
     dm_store (snd (f dm now tx)) = dm_store dm \<and> dm_audit_fail (snd (f dm now tx)) = dm_audit_fail dm)"

lemma steady_of_tx: "steady (of_tx f)"
  by (simp add: steady_def of_tx_def)

lemma steady_daemon: "steady (drain_tx cr ca)" "steady (evaluation_tx cr ca i dg inp out)"
  "steady (export_tx cr ca through disc rec content)"
  by (simp_all add: steady_def drain_tx_def evaluation_tx_def export_tx_def store_object_def object_put_def Let_def)

lemma steadyD: "steady f \<Longrightarrow> f dm now tx = (r, dm') \<Longrightarrow>
    dm_cur_idem dm' = dm_cur_idem dm \<and> dm_store dm' = dm_store dm \<and> dm_audit_fail dm' = dm_audit_fail dm"
  by (metis steady_def snd_conv)

lemma mutate_open: "steady f \<Longrightarrow> mutate now f dm = (Some stage, dm') \<Longrightarrow> \<not> dm_audit_fail dm'"
  by (auto simp: mutate_def latency_def Let_def dest: steadyD split: if_split_asm prod.split_asm sum.split_asm)

text \<open>What a request leaves: nothing, or a store that holds its reply.\<close>

definition idem_of :: "Caller \<Rightarrow> string \<Rightarrow> string \<Rightarrow> (string \<times> string \<times> string \<times> string)" where
  "idem_of ca mname h = (pr_id (ca_principal ca), ca_request ca, mname, h)"

definition reply_kept :: "Caller \<Rightarrow> string \<Rightarrow> string \<Rightarrow> Value R \<Rightarrow> Store \<Rightarrow> bool" where
  "reply_kept ca mname h r st \<longleftrightarrow> tx_idem_get (pr_id (ca_principal ca)) (ca_request ca) st =
     Some (mname, h, jcs (reply_envelope (ca_request ca) r))"

lemma map_of_appended: "k \<notin> fst ` set xs \<Longrightarrow> map_of (xs @ [(k, v)]) k = Some v"
  by (induction xs) auto

lemma idem_put_kept:
  assumes "tx_idem_put (pr_id (ca_principal ca)) (ca_request ca) mname h (jcs (reply_envelope (ca_request ca) r)) st = Inr st'"
  shows "reply_kept ca mname h r st'"
  using assms map_of_appended [of "(pr_id (ca_principal ca), ca_request ca)" "st_idempotency st"]
  by (auto simp: tx_idem_put_def reply_kept_def tx_idem_get_def split: if_split_asm)

lemma mutate_records:
  assumes "steady f" and "dm_cur_idem dm = Some (idem_of ca mname h)" and "mutate now f dm = (out, dm')"
  shows "dm_cur_idem dm' = dm_cur_idem dm \<and> (dm_store dm' = dm_store dm \<and> (out = None \<or> (\<exists>e. out = Some (MRejected e))) \<or>
    (\<exists>stage. reply_kept ca mname h (stage_result stage) (dm_store dm') \<and> out \<in> {None, Some stage}))"
proof (cases "dm_audit_fail dm")
  case True
  then show ?thesis using assms(3) by (auto simp: mutate_def set_host_def)
next
  case False
  obtain r dm1 where f: "f dm now (begin_tx (dm_store dm)) = (r, dm1)" by (cases "f dm now (begin_tx (dm_store dm))")
  note same = steadyD [OF assms(1) f]
  show ?thesis
  proof (cases r)
    case (Inl e)
    then show ?thesis using assms(3) False f same by (auto simp: mutate_def)
  next
    case (Inr p)
    obtain stage tx where p: "p = (stage, tx)" by (cases p)
    show ?thesis
    proof (cases "idem_write dm1 stage (tx_store tx)")
      case (Inl e)
      then show ?thesis using assms(3) False f same \<open>r = Inr p\<close> p by (auto simp: mutate_def)
    next
      case (Inr st)
      then have "reply_kept ca mname h (stage_result stage) st"
        using same assms(2) by (auto simp: idem_write_def idem_of_def intro: idem_put_kept)
      then show ?thesis using assms(3) False f same \<open>r = Inr p\<close> p Inr
        by (auto simp: mutate_def latency_def Let_def split: if_split_asm)
    qed
  qed
qed

definition recording :: "Caller \<Rightarrow> string \<Rightarrow> string \<Rightarrow> Daemon \<Rightarrow> (HErr + MOut) \<times> Daemon \<Rightarrow> bool" where
  "recording ca mname h dm ans \<longleftrightarrow> (case ans of (r, dm') \<Rightarrow> dm_store dm' = dm_store dm \<or>
     (\<exists>stage. reply_kept ca mname h (stage_result stage) (dm_store dm') \<and> r \<in> {Inl HCrash, Inr stage}))"

lemma handle_records:
  assumes "yields steady (admit dm)" and "dm_cur_idem dm = Some (idem_of ca mname h)"
  shows "recording ca mname h dm (handle admit dm)"
proof (cases "admit dm")
  case (Inr f)
  obtain out dm' where m: "mutate (dm_now dm) f dm = (out, dm')" by (cases "mutate (dm_now dm) f dm")
  have "steady f" using assms(1) Inr by (rule yieldsD)
  from mutate_records [OF this assms(2) m] show ?thesis
    by (cases out) (auto simp: recording_def handle_def mutate_h_def Inr m)
qed (simp add: recording_def handle_def)

lemma reading_records: "recording ca mname h dm (reading r dm)"
  by (simp add: recording_def reading_def)

lemma handler_records:
  assumes "dm_cur_idem dm = Some (idem_of ca mname h)"
  shows "recording ca mname h dm (system_drain cr ca' dm)" "recording ca mname h dm (policy_activate cr ca' params dm)"
    "recording ca mname h dm (runs_open cr ca' params dm)" "recording ca mname h dm (runs_control cr ca' params dm)"
    "recording ca mname h dm (checks_cancel cr ca' params dm)" "recording ca mname h dm (effects_record cr ca' params dm)"
    "recording ca mname h dm (reviews_claim cr ca' params dm)" "recording ca mname h dm (reviews_resolve cr ca' params dm)"
    "recording ca mname h dm (alerts_resolve cr ca' params dm)" "recording ca mname h dm (audit_evaluate cr es ca' params dm)"
    "recording ca mname h dm (bundle_export cr ca' params dm)"
  unfolding system_drain_def policy_activate_def runs_open_def runs_control_def checks_cancel_def effects_record_def
    reviews_claim_def reviews_resolve_def alerts_resolve_def audit_evaluate_def bundle_export_def cancel_admission_def
    activate_tx_def open_tx_def control_tx_def cancel_tx_def effect_tx_def expire_then_fault_def release_then_fault_def
    claim_tx_def resolve_tx_def alert_tx_def
  by (rule handle_records [OF _ assms], intro yields_intro steady_of_tx steady_daemon)+

lemma append_records:
  assumes "dm_cur_idem dm = Some (idem_of ca mname h)"
  shows "recording ca mname h dm (observations_append cr ca' params dm)"
  unfolding observations_append_def sequence_admission_def window_admission_def counter_admission_def
    pause_source_def quarantine_def accept_tx_def
  by (rule handle_records [OF _ assms], intro yields_intro steady_of_tx)

section \<open>The outbox inside a request\<close>

lemma deliver_idem: "dm_cur_idem (snd (deliver items dm tx)) = dm_cur_idem dm"
  by (induction items dm tx rule: deliver.induct)
    (auto simp: Let_def pool_dispatch_def split: sum.splits prod.splits if_splits)

text \<open>The record is there already: the delivery is made and its transaction is rolled back.\<close>

lemma outbox_effect:
  assumes "dm_cur_idem dm = Some (pid, rid, mname, h)" and "tx_idem_get pid rid (dm_store dm) \<noteq> None"
    and "\<not> dm_audit_fail dm"
  shows "tick_outbox now dm = snd (deliver (outbox_due now (dm_store dm)) dm (begin_tx (dm_store dm)))"
proof -
  obtain r dm1 where del: "deliver (outbox_due now (dm_store dm)) dm (begin_tx (dm_store dm)) = (r, dm1)"
    by (cases "deliver (outbox_due now (dm_store dm)) dm (begin_tx (dm_store dm))")
  have full: "\<exists>e. idem_write dm1 (MOk Null) (tx_store tx') = Inl e" if "r = Inr (u, tx')" for u tx'
  proof -
    have "recorded (dm_store dm) (tx_store tx')" using idem.deliver_rel [OF del] that by (simp add: begin_tx_def)
    then have "map_of (st_idempotency (tx_store tx')) (pid, rid) \<noteq> None"
      using assms(2) by (auto simp: recorded_def tx_idem_get_def)
    moreover have "dm_cur_idem dm1 = dm_cur_idem dm"
      using deliver_idem [of "outbox_due now (dm_store dm)" dm "begin_tx (dm_store dm)"] del by simp
    ultimately show ?thesis using assms(1) by (auto simp: idem_write_def tx_idem_put_def map_of_eq_None_iff)
  qed
  show ?thesis
  proof (cases r)
    case (Inl e)
    then show ?thesis using del assms(3) by (auto simp: tick_outbox_def mutate_def Let_def)
  next
    case (Inr p)
    obtain u tx' where p: "p = (u, tx')" by (cases p)
    obtain e where "idem_write dm1 (MOk Null) (tx_store tx') = Inl e" using full Inr p by blast
    then show ?thesis using del Inr p assms(3) by (auto simp: tick_outbox_def mutate_def Let_def)
  qed
qed

lemma deliver_store: "dm_store (snd (deliver items dm tx)) = dm_store dm"
  using idem.deliver_rel [of items dm tx] by (cases "deliver items dm tx") simp

lemma outbox_in_flight:
  assumes "dm_cur_idem dm = Some (pid, rid, mname, h)" and "tx_idem_get pid rid (dm_store dm) \<noteq> None"
    and "\<not> dm_audit_fail dm"
  shows "dm_store (tick_outbox now dm) = dm_store dm"
  unfolding outbox_effect [OF assms] by (rule deliver_store)

lemma create_yields: "yields steady (create_admission cr ca params dm)"
  unfolding create_admission_def create_tx_def by (intro yields_intro steady_of_tx)

text \<open>The admission of a check answers with a fault or not at all.\<close>

definition unanswered :: "'a Admission \<Rightarrow> bool" where
  "unanswered r \<longleftrightarrow> (\<forall>v. r \<noteq> Inl (Inr (MOk v)))"

lemma unanswered_rules:
  "unanswered (Inr x)" "unanswered (q z)" "unanswered (guard_that b c m)" "unanswered (some_or y c m)" "unanswered (arg p k g)"
  "unanswered s \<Longrightarrow> (\<And>x. unanswered (f x)) \<Longrightarrow> unanswered (sbind s f)"
  "(\<And>x. unanswered (h x)) \<Longrightarrow> unanswered (Let w h)" "(\<And>x y. unanswered (j x y)) \<Longrightarrow> unanswered (case pr of (x, y) \<Rightarrow> j x y)"
  "unanswered r \<Longrightarrow> (\<And>x. unanswered (l x)) \<Longrightarrow> unanswered (case opt of None \<Rightarrow> r | Some x \<Rightarrow> l x)"
  by (auto simp: unanswered_def q_def guard_that_def some_or_def arg_def map_err_def reject_def sbind_eq_Inl
      split: sum.splits option.splits prod.splits)

lemma create_unanswered: "unanswered (create_admission cr ca params dm)"
  unfolding create_admission_def review_admission_def by (intro unanswered_rules)

lemma create_effect:
  assumes "dm_cur_idem dm = Some (idem_of ca mname h)"
  shows "checks_create cr ca' params dm = (case handle (create_admission cr ca' params) dm of
      (Inr (MOk v), dm1) \<Rightarrow> (Inr (MOk v), snd (deliver (outbox_due (dm_now dm) (dm_store dm1)) dm1 (begin_tx (dm_store dm1))))
    | other \<Rightarrow> other)"
proof (cases "create_admission cr ca' params dm")
  case (Inl stop)
  then show ?thesis using create_unanswered [of cr ca' params dm]
    by (auto simp: checks_create_def handle_def unanswered_def split: sum.splits MOut.splits)
next
  case (Inr f)
  obtain out dm1 where m: "mutate (dm_now dm) f dm = (out, dm1)" by (cases "mutate (dm_now dm) f dm")
  have steady: "steady f" using create_yields Inr by (rule yieldsD)
  note rec = mutate_records [OF steady assms m]
  have handled: "handle (create_admission cr ca' params) dm = (case out of None \<Rightarrow> (Inl HCrash, dm1) | Some stage \<Rightarrow> (Inr stage, dm1))"
    by (simp add: handle_def mutate_h_def Inr m)
  show ?thesis
  proof (cases "\<exists>v. out = Some (MOk v)")
    case True
    then obtain v where out: "out = Some (MOk v)" by blast
    then have "reply_kept ca mname h (Inr v) (dm_store dm1)" using rec by auto
    then have "tick_outbox (dm_now dm) dm1 = snd (deliver (outbox_due (dm_now dm) (dm_store dm1)) dm1 (begin_tx (dm_store dm1)))"
      using rec assms mutate_open [OF steady] m out by (intro outbox_effect) (auto simp: reply_kept_def idem_of_def)
    then show ?thesis using out by (simp add: checks_create_def handled)
  next
    case False
    then show ?thesis unfolding checks_create_def handled by (auto split: option.splits MOut.splits)
  qed
qed

lemma create_store:
  assumes "dm_cur_idem dm = Some (idem_of ca mname h)"
  shows "dm_store (snd (checks_create cr ca' params dm)) = dm_store (snd (handle (create_admission cr ca' params) dm))"
    "fst (checks_create cr ca' params dm) = fst (handle (create_admission cr ca' params) dm)"
  unfolding create_effect [OF assms] by (simp_all add: deliver_store split: prod.splits sum.splits MOut.splits)

lemma create_records:
  assumes "dm_cur_idem dm = Some (idem_of ca mname h)"
  shows "recording ca mname h dm (checks_create cr ca' params dm)"
  using handle_records [where admit = "create_admission cr ca' params" and dm = dm, OF create_yields assms] create_store [OF assms, of cr ca' params]
  by (simp add: recording_def case_prod_unfold)

lemma execute_records:
  assumes "dm_cur_idem dm = Some (idem_of ca mname h)"
  shows "recording ca mname h dm (execute cr pf ca' name params dm)"
  unfolding execute_def Let_def
  using handler_records [OF assms] append_records [OF assms] create_records [OF assms]
  by (simp add: reading_records) (simp add: recording_def)

section \<open>The same request again\<close>

lemma run_records:
  assumes "is_mutation mname" and "run_request cr pf ca mname params h dm = (out, dm1)" and "dm_store dm1 \<noteq> dm_store dm"
  obtains r where "reply_kept ca mname h r (dm_store dm1)" and "out \<in> {None, Some (reply_envelope (ca_request ca) r)}"
proof -
  let ?dm = "dm\<lparr>dm_cur_idem := Some (idem_of ca mname h)\<rparr>"
  obtain ans dm2 where e: "execute cr pf ca mname params ?dm = (ans, dm2)" by (cases "execute cr pf ca mname params ?dm")
  have "recording ca mname h ?dm (ans, dm2)"
    using execute_records [of ?dm ca mname h cr pf ca mname params] e by simp
  moreover have store: "dm_store dm1 = dm_store dm2"
    and out: "out = (case ans of Inl HCrash \<Rightarrow> None | Inl (HReject e) \<Rightarrow> Some (reply_envelope (ca_request ca) (Inl e))
        | Inr stage \<Rightarrow> Some (reply_envelope (ca_request ca) (stage_result stage)))"
    using assms(1,2) e by (auto simp: run_request_def idem_of_def Let_def)
  ultimately obtain stage where kept: "reply_kept ca mname h (stage_result stage) (dm_store dm1)"
    and ans: "ans \<in> {Inl HCrash, Inr stage}"
    using assms(3) by (auto simp: recording_def)
  from ans out have "out \<in> {None, Some (reply_envelope (ca_request ca) (stage_result stage))}" by auto
  with kept show thesis by (rule that)
qed

lemma rate_ok_store: "rate_ok who dm = (ok, dm') \<Longrightarrow> dm_store dm' = dm_store dm"
  by (auto simp: rate_ok_def Let_def split: prod.splits)

lemma request_records:
  assumes "is_mutation mname" and "dispatch_request cr pf ca mname params dm = (out, dm1)" and "dm_store dm1 \<noteq> dm_store dm"
  obtains r where "reply_kept ca mname (d cr ''request'' params) r (dm_store dm1)"
    and "out \<in> {None, Some (reply_envelope (ca_request ca) r)}"
    and "mname \<in> set PUBLIC_METHODS" and "\<not> isl (validate_params cr mname params)"
    and "role_allowed (pr_roles (ca_principal ca)) mname"
proof -
  obtain dm' where run: "run_request cr pf ca mname params (d cr ''request'' params) dm' = (out, dm1)"
    and same: "dm_store dm' = dm_store dm" and gates: "mname \<in> set PUBLIC_METHODS" "\<not> isl (validate_params cr mname params)"
      "role_allowed (pr_roles (ca_principal ca)) mname"
    using assms(2,3) unfolding dispatch_request_def Let_def
    by (auto split: if_split_asm sum.split_asm option.split_asm prod.split_asm dest: rate_ok_store)
  have "dm_store dm1 \<noteq> dm_store dm'" using assms(3) same by simp
  from run_records [OF assms(1) run this] that gates show thesis by blast
qed

lemma replayed:
  assumes "reply_kept ca mname (d cr ''request'' params) r (dm_store dm)" and "is_mutation mname"
    and "mname \<in> set PUBLIC_METHODS" and "\<not> isl (validate_params cr mname params)"
    and "role_allowed (pr_roles (ca_principal ca)) mname"
  shows "dispatch_request cr pf ca mname params dm =
    (Some (case parse (jcs (reply_envelope (ca_request ca) r)) reply_limits of Inr v \<Rightarrow> v
       | Inl _ \<Rightarrow> reply_envelope (ca_request ca) (Inl (new_fault AuditUnavailable ''stored reply unreadable''))), dm)"
  using assms
  by (cases "validate_params cr mname params")
    (auto simp: dispatch_request_def replay_def reply_kept_def Let_def split: sum.splits)

text \<open>
  C5. Exactly once: when a mutation changed the store, its reply was committed with it (the
  caller got that reply or, in a crash, none), and whatever happens to the store afterwards, crashes and
  restarts included, the same request is answered with the stored bytes of that reply and changes nothing.
\<close>

theorem retry_replays:
  assumes "is_mutation mname"
    and "dispatch_request cr pf ca mname params dm = (out, dm1)" and "dm_store dm1 \<noteq> dm_store dm"
    and "process_from cr pf (dm_store dm1, live) inputs = (st, Some dm2)" and "coherent (dm_store dm1, live)"
  shows "\<exists>reply. out \<in> {None, Some reply} \<and>
    dispatch_request cr pf ca mname params dm2 =
      (Some (case parse (jcs reply) reply_limits of Inr v \<Rightarrow> v
         | Inl _ \<Rightarrow> reply_envelope (ca_request ca) (Inl (new_fault AuditUnavailable ''stored reply unreadable''))), dm2)"
proof -
  from request_records [OF assms(1-3)] obtain r where kept: "reply_kept ca mname (d cr ''request'' params) r (dm_store dm1)"
    and out: "out \<in> {None, Some (reply_envelope (ca_request ca) r)}"
    and gates: "mname \<in> set PUBLIC_METHODS" "\<not> isl (validate_params cr mname params)"
      "role_allowed (pr_roles (ca_principal ca)) mname" .
  have "coherent (st, Some dm2)" "recorded (dm_store dm1) st"
    using idem.process_commits [OF assms(5), of cr pf inputs] assms(4) commits_recorded by auto
  then have "reply_kept ca mname (d cr ''request'' params) r (dm_store dm2)"
    using kept by (simp add: recorded_def coherent_def reply_kept_def tx_idem_get_def)
  from replayed [OF this assms(1) gates] out show ?thesis by blast
qed

theorem retry_replays_witness:
  "\<exists>dm1 reply. dm_store dm1 \<noteq> empty_store \<and>
    dispatch_request toy_crypto sample_platform sample_caller ''system.drain'' (Obj []) sample_daemon = (Some reply, dm1) \<and>
    dispatch_request toy_crypto sample_platform sample_caller ''system.drain'' (Obj []) (dm1\<lparr>dm_now := 7\<rparr>) =
      (Some (case parse (jcs reply) reply_limits of Inr v \<Rightarrow> v
         | Inl _ \<Rightarrow> reply_envelope (ca_request sample_caller) (Inl (new_fault AuditUnavailable ''stored reply unreadable''))), dm1\<lparr>dm_now := 7\<rparr>)"
proof -
  obtain out dm1 where run: "dispatch_request toy_crypto sample_platform sample_caller ''system.drain'' (Obj []) sample_daemon = (Some out, dm1)"
    and audit: "st_audit (dm_store dm1) \<noteq> []"
    using drain_commits by blast
  have start: "dm_store sample_daemon = empty_store" by (simp add: sample_daemon_def boot_daemon_def)
  have changed: "dm_store dm1 \<noteq> dm_store sample_daemon" unfolding start using audit by (auto simp: empty_store_def)
  have m: "is_mutation ''system.drain''" by (simp add: is_mutation_def)
  have later: "process_from toy_crypto sample_platform (dm_store dm1, Some dm1) [IClock 7] = (dm_store dm1, Some (dm1\<lparr>dm_now := 7\<rparr>))"
    by (simp add: process_from_def perform_def)
  have "coherent (dm_store dm1, Some dm1)" by (simp add: coherent_def)
  from retry_replays [OF m run changed later this] have "dispatch_request toy_crypto sample_platform sample_caller ''system.drain'' (Obj [])
      (dm1\<lparr>dm_now := 7\<rparr>) = (Some (case parse (jcs out) reply_limits of Inr v \<Rightarrow> v
         | Inl _ \<Rightarrow> reply_envelope (ca_request sample_caller) (Inl (new_fault AuditUnavailable ''stored reply unreadable''))),
       dm1\<lparr>dm_now := 7\<rparr>)" by simp
  then show ?thesis using run changed start by (intro exI [of _ dm1] exI [of _ out]) simp
qed

end
