(* ===== verification/Typed.thy ===== *)
theory Typed
  imports Histories
begin

text \<open>
  The types of a store. In every history each entity row holds the canonical body of a record of its
  schema, its columns are the fields of that record, it names an event of the audit table and a run of
  the run table, and the partial indexes on active reviews and alerts hold.
\<close>

section \<open>Rows and tables\<close>

definition typed_run :: "Store \<Rightarrow> RunRow \<Rightarrow> bool" where
  "typed_run st row \<longleftrightarrow> rr_changed_seq row \<in> audit_seqs st \<and>
     (case admit_body ''bad run body'' run_of (rr_body row) of Inl _ \<Rightarrow> False | Inr r \<Rightarrow>
        rr_revision row = rn_revision r \<and> rr_state row = run_state_as_str (rn_state r) \<and>
        rr_source row = rn_source r \<and> rr_epoch row = rn_source_epoch r)"

definition typed_check :: "Crypto \<Rightarrow> Store \<Rightarrow> CheckRow \<Rightarrow> bool" where
  "typed_check cr st row \<longleftrightarrow> cr_changed_seq row \<in> audit_seqs st \<and> cr_run row \<in> fst ` set (st_runs st) \<and>
     (case admit_body ''bad check body'' (check_of cr) (cr_body row) of Inl _ \<Rightarrow> False | Inr c \<Rightarrow>
        cr_run row = ck_run c \<and> cr_state row = check_state_as_str (ck_state c) \<and>
        cr_revision row = ck_revision c \<and> cr_deadline_ms row = ck_deadline_ms c)"

definition typed_review :: "Crypto \<Rightarrow> Store \<Rightarrow> ReviewRow \<Rightarrow> bool" where
  "typed_review cr st row \<longleftrightarrow> vr_changed_seq row \<in> audit_seqs st \<and> vr_run row \<in> fst ` set (st_runs st) \<and>
     (case admit_body ''bad review body'' review_of (vr_body row) of Inl _ \<Rightarrow> False | Inr r \<Rightarrow>
        vr_run row = rv_run r \<and> vr_basis row = map_option (basis_digest cr) (rv_basis r) \<and>
        vr_state row = review_state_as_str (rv_state r) \<and> vr_revision row = rv_revision r \<and>
        vr_due_ms row = rv_due_ms r \<and> vr_lease_ms row = rv_lease_until_ms r)"

definition typed_alert :: "Store \<Rightarrow> AlertRow \<Rightarrow> bool" where
  "typed_alert st row \<longleftrightarrow> lr_changed_seq row \<in> audit_seqs st \<and> lr_run row \<in> fst ` set (st_runs st) \<and>
     (case admit_body ''bad alert body'' alert_of (lr_body row) of Inl _ \<Rightarrow> False | Inr a \<Rightarrow>
        lr_run row = al_run a \<and> lr_state row = alert_state_as_str (al_state a) \<and>
        lr_episode_key row = episode_key (al_run a) (al_monitor a) (al_baseline a))"

definition table_ok :: "('r \<Rightarrow> bool) \<Rightarrow> (string \<times> 'r) list \<Rightarrow> bool" where
  "table_ok P table \<longleftrightarrow> distinct (map fst table) \<and> list_all (\<lambda>(_, row). P row) table"

definition store_typed :: "Crypto \<Rightarrow> Store \<Rightarrow> bool" where
  "store_typed cr st \<longleftrightarrow> table_ok (typed_run st) (st_runs st) \<and> table_ok (typed_check cr st) (st_checks st) \<and>
     table_ok (typed_review cr st) (st_reviews st) \<and> table_ok (typed_alert st) (st_alerts st) \<and>
     review_index_ok (st_reviews st) \<and> alert_index_ok (st_alerts st)"

lemma table_put: "table_ok P table \<Longrightarrow> P row \<Longrightarrow> table_ok P (put_assoc k row table)"
  using put_assoc_set [of _ _ k row table] by (fastforce simp: table_ok_def list_all_iff)

lemma table_mono: "table_ok P table \<Longrightarrow> (\<And>row. P row \<Longrightarrow> Q row) \<Longrightarrow> table_ok Q table"
  by (auto simp: table_ok_def list_all_iff)

text \<open>A store with more events and more runs types the rows of an earlier one.\<close>

definition covers :: "Store \<Rightarrow> Store \<Rightarrow> bool" where
  "covers st st' \<longleftrightarrow> audit_seqs st \<subseteq> audit_seqs st' \<and> fst ` set (st_runs st) \<subseteq> fst ` set (st_runs st')"

lemma typed_mono:
  assumes "covers st st'"
  shows "typed_run st a \<Longrightarrow> typed_run st' a" "typed_check cr st b \<Longrightarrow> typed_check cr st' b"
    "typed_review cr st c \<Longrightarrow> typed_review cr st' c" "typed_alert st e \<Longrightarrow> typed_alert st' e"
  using assms unfolding covers_def typed_run_def typed_check_def typed_review_def typed_alert_def by blast+

lemma tables_mono:
  assumes "covers st st'"
  shows "table_ok (typed_run st) t1 \<Longrightarrow> table_ok (typed_run st') t1"
    "table_ok (typed_check cr st) t2 \<Longrightarrow> table_ok (typed_check cr st') t2"
    "table_ok (typed_review cr st) t3 \<Longrightarrow> table_ok (typed_review cr st') t3"
    "table_ok (typed_alert st) t4 \<Longrightarrow> table_ok (typed_alert st') t4"
  using typed_mono [OF assms] by (auto elim: table_mono)

lemma typed_frame:
  assumes "store_typed cr st" and "st_runs st' = st_runs st" and "st_checks st' = st_checks st"
    and "st_reviews st' = st_reviews st" and "st_alerts st' = st_alerts st" and "audit_seqs st \<subseteq> audit_seqs st'"
  shows "store_typed cr st'"
proof -
  have "covers st st'" using assms by (simp add: covers_def)
  note tables_mono [OF this]
  then show ?thesis using assms by (simp add: store_typed_def)
qed

section \<open>Writing a row\<close>

lemma typed_run_put:
  assumes "store_typed cr st" and "put_run_row eid body seq st = Inr st'"
  shows "store_typed cr st'"
proof -
  obtain row where row: "typed_run st row" and st': "st' = st\<lparr>st_runs := put_assoc eid row (st_runs st)\<rparr>"
    using assms(2) by (force simp: put_run_row_def sbind_eq_Inr typed_run_def split: if_split_asm)
  have "covers st st'" by (simp add: st' covers_def audit_seqs_def subset_insertI)
  note mono = tables_mono [OF this] and rows = typed_mono [OF this]
  have "table_ok (typed_run st') (st_runs st)" using mono(1) assms(1) by (simp add: store_typed_def)
  from table_put [OF this rows(1) [OF row]] have "table_ok (typed_run st') (st_runs st')" by (simp add: st')
  then show ?thesis using mono(2-4) assms(1) by (simp add: store_typed_def st')
qed

lemma typed_check_put:
  assumes "store_typed cr st" and "put_check_row cr eid body seq st = Inr st'"
  shows "store_typed cr st'"
proof -
  obtain c row where row: "typed_check cr st row" and st': "st' = st\<lparr>st_checks := put_assoc eid row (st_checks st)\<rparr>"
    using assms(2) by (force simp: put_check_row_def sbind_eq_Inr typed_check_def split: if_split_asm)
  have "covers st st'" by (simp add: st' covers_def audit_seqs_def)
  note mono = tables_mono [OF this] and rows = typed_mono [OF this]
  have "table_ok (typed_check cr st') (st_checks st)" using mono(2) assms(1) by (simp add: store_typed_def)
  from table_put [OF this rows(2) [OF row]] have "table_ok (typed_check cr st') (st_checks st')" by (simp add: st')
  then show ?thesis using mono(1,3,4) assms(1) by (simp add: store_typed_def st')
qed

lemma typed_review_put:
  assumes "store_typed cr st" and "put_review_row cr eid body seq st = Inr st'"
  shows "store_typed cr st'"
proof -
  obtain row where row: "typed_review cr st row" and st': "st' = st\<lparr>st_reviews := put_assoc eid row (st_reviews st)\<rparr>"
    and index: "review_index_ok (put_assoc eid row (st_reviews st))"
    using assms(2) by (force simp: put_review_row_def sbind_eq_Inr typed_review_def Let_def split: if_split_asm)
  have "covers st st'" by (simp add: st' covers_def audit_seqs_def)
  note mono = tables_mono [OF this] and rows = typed_mono [OF this]
  have "table_ok (typed_review cr st') (st_reviews st)" using mono(3) assms(1) by (simp add: store_typed_def)
  from table_put [OF this rows(3) [OF row]] have "table_ok (typed_review cr st') (st_reviews st')" by (simp add: st')
  then show ?thesis using mono(1,2,4) assms(1) index by (simp add: store_typed_def st')
qed

lemma typed_alert_put:
  assumes "store_typed cr st" and "put_alert_row eid body seq st = Inr st'"
  shows "store_typed cr st'"
proof -
  obtain row where row: "typed_alert st row" and st': "st' = st\<lparr>st_alerts := put_assoc eid row (st_alerts st)\<rparr>"
    and index: "alert_index_ok (put_assoc eid row (st_alerts st))"
    using assms(2) by (force simp: put_alert_row_def sbind_eq_Inr typed_alert_def Let_def split: if_split_asm)
  have "covers st st'" by (simp add: st' covers_def audit_seqs_def)
  note mono = tables_mono [OF this] and rows = typed_mono [OF this]
  have "table_ok (typed_alert st') (st_alerts st)" using mono(4) assms(1) by (simp add: store_typed_def)
  from table_put [OF this rows(4) [OF row]] have "table_ok (typed_alert st') (st_alerts st')" by (simp add: st')
  then show ?thesis using mono(1-3) assms(1) index by (simp add: store_typed_def st')
qed

lemma typed_put:
  assumes "store_typed cr st" and "tx_put_entity cr table eid body seq entity st = Inr st'"
  shows "store_typed cr st'"
proof -
  let ?put = "if table = ''runs'' then put_run_row eid body seq st
            else if table = ''checks'' then put_check_row cr eid body seq st
            else if table = ''reviews'' then put_review_row cr eid body seq st
            else if table = ''alerts'' then put_alert_row eid body seq st
            else Inl (audit_unavailable ''unknown entity table'')"
  obtain st1 where put: "?put = Inr st1" and hist: "put_history entity eid seq body st1 = Inr st'"
    using assms(2) unfolding tx_put_entity_def sbind_eq_Inr by blast
  have "store_typed cr st1"
    using put typed_run_put [OF assms(1)] typed_check_put [OF assms(1)] typed_review_put [OF assms(1)]
      typed_alert_put [OF assms(1)]
    by (simp split: if_split_asm)
  then show ?thesis
    using put_history_frame [OF hist] by (rule_tac typed_frame [of cr st1]) (simp_all add: audit_seqs_def)
qed

interpretation typed: store_invariant cr "store_typed cr" for cr
proof
  show "store_typed cr st'" if "stmt st st'" "store_typed cr st" for st st'
    using stmt_frame [OF that(1)] that(2) by (rule_tac typed_frame [of cr st]) (simp_all add: audit_seqs_def)
  show emitted: "store_typed cr (tx_store tx')"
    if "emit cr cx now actor request kind v causes tx = Inr (r, tx')" "store_typed cr (tx_store tx)"
    for cx now actor request kind v causes tx r tx'
    using that(2) by (rule_tac emit_Inr [OF that(1)]) (rule_tac typed_frame [of cr "tx_store tx"]; simp add: audit_seqs_def subset_insertI)
  show "store_typed cr st"
    if "emit cr cx now actor request kind v causes tx = Inr ((seq, digest), tx')" "store_typed cr (tx_store tx)"
      "tx_put_entity cr table eid (jcs v) seq table (tx_store tx') = Inr st"
    for cx now actor request kind v causes tx seq digest tx' table eid st
    using typed_put [OF emitted [OF that(1,2)] that(3)] .
qed

lemma commits_typed: "commits (writes cr) st st' \<Longrightarrow> store_typed cr st \<Longrightarrow> store_typed cr st'"
proof (induction rule: rtranclp_induct)
  case (step st1 st2)
  then show ?case using typed.writes_keep by (fastforce simp: commit_step_def begin_tx_def)
qed

lemma typed_after: "store_typed cr (store_after cr pf xs)"
  using commits_typed [OF writes.life_commits]
  by (simp add: store_typed_def table_ok_def empty_store_def review_index_ok_def alert_index_ok_def)

end
