(* ===== verification/Decisions.thy ===== *)
theory Decisions
  imports Histories
begin

text \<open>
  Checks are decided once. In every history of a store a check is created EVALUATING, is decided in one
  step, and never changes again; what it was asked (its run, intent, observation, policy and times) stays
  fixed. A CLEAR check holds a clearance that names it and results that allow it, and no other check
  holds one.
\<close>

section \<open>The rows of checks\<close>

definition clearance_names :: "Crypto \<Rightarrow> Check \<Rightarrow> Signed \<Rightarrow> bool" where
  "clearance_names cr c sv \<longleftrightarrow> (case clearance_body_of (sd_body sv) of Inl _ \<Rightarrow> False
     | Inr cl \<Rightarrow> cl_check cl = ck_id c \<and> cl_policy cl = ck_policy c \<and>
         cl_intent cl = intent_digest cr (ck_intent c) \<and> cl_observation cl = ck_observation c)"

definition results_allow :: "Check \<Rightarrow> bool" where
  "results_allow c \<longleftrightarrow> list_all (\<lambda>r. rs_verdict r \<in> {VClear, VUncertain}) (ck_results c) \<and>
     (ck_review c = None \<longrightarrow> list_all (\<lambda>r. rs_verdict r = VClear) (ck_results c))"

definition check_sound :: "Crypto \<Rightarrow> Check \<Rightarrow> bool" where
  "check_sound cr c \<longleftrightarrow> (case ck_clearance c of
     None \<Rightarrow> ck_state c \<noteq> CsClear
   | Some sv \<Rightarrow> ck_state c = CsClear \<and> clearance_names cr c sv \<and> results_allow c)"

definition row_check :: "Crypto \<Rightarrow> string \<Rightarrow> CheckRow \<Rightarrow> Check \<Rightarrow> bool" where
  "row_check cr cid row c \<longleftrightarrow> admit_body ''bad check body'' (check_of cr) (cr_body row) = Inr c \<and> ck_id c = cid \<and>
     cr_state row = check_state_as_str (ck_state c) \<and> cr_run row = ck_run c \<and> cr_revision row = ck_revision c \<and>
     check_sound cr c"

definition checks_ok :: "Crypto \<Rightarrow> Store \<Rightarrow> bool" where
  "checks_ok cr st \<longleftrightarrow> distinct (map fst (st_checks st)) \<and>
     (\<forall>cid row. map_of (st_checks st) cid = Some row \<longrightarrow> (\<exists>c. row_check cr cid row c))"

text \<open>The one step of a check, and what a store keeps of the checks of an earlier one.\<close>

definition decides :: "Check \<Rightarrow> Check \<Rightarrow> bool" where
  "decides c c' \<longleftrightarrow> ck_state c = CsEvaluating \<and> ck_state c' \<noteq> CsEvaluating \<and> ck_revision c' = ck_revision c + 1 \<and>
     ck_id c' = ck_id c \<and> ck_run c' = ck_run c \<and> ck_intent c' = ck_intent c \<and>
     ck_observation c' = ck_observation c \<and> ck_policy c' = ck_policy c \<and>
     ck_created_ms c' = ck_created_ms c \<and> ck_deadline_ms c' = ck_deadline_ms c"

definition succeeds :: "Crypto \<Rightarrow> string \<Rightarrow> CheckRow \<Rightarrow> CheckRow \<Rightarrow> bool" where
  "succeeds cr cid row row' \<longleftrightarrow> row' = row \<or>
     (\<exists>c c'. row_check cr cid row c \<and> row_check cr cid row' c' \<and> decides c c')"

definition checks_kept :: "Crypto \<Rightarrow> Store \<Rightarrow> Store \<Rightarrow> bool" where
  "checks_kept cr st st' \<longleftrightarrow> (\<forall>cid row. map_of (st_checks st) cid = Some row \<longrightarrow>
     (\<exists>row'. map_of (st_checks st') cid = Some row' \<and> succeeds cr cid row row'))"

definition check_order :: "Crypto \<Rightarrow> Tx \<Rightarrow> Tx \<Rightarrow> bool" where
  "check_order cr tx tx' \<longleftrightarrow> (checks_ok cr (tx_store tx) \<longrightarrow>
     checks_ok cr (tx_store tx') \<and> checks_kept cr (tx_store tx) (tx_store tx'))"

lemma row_check_unique: "row_check cr cid row c \<Longrightarrow> row_check cr cid row c' \<Longrightarrow> c' = c"
  by (simp add: row_check_def)

lemma succeeds_trans: "succeeds cr cid row row' \<Longrightarrow> succeeds cr cid row' row'' \<Longrightarrow> succeeds cr cid row row''"
  unfolding succeeds_def decides_def using row_check_unique by metis

lemma checks_kept_refl: "checks_kept cr st st"
  by (simp add: checks_kept_def succeeds_def)

lemma checks_kept_trans: "checks_kept cr st st' \<Longrightarrow> checks_kept cr st' st'' \<Longrightarrow> checks_kept cr st st''"
  unfolding checks_kept_def using succeeds_trans by blast

lemma checks_frame: "st_checks st' = st_checks st \<Longrightarrow> (checks_ok cr st' \<longleftrightarrow> checks_ok cr st) \<and> checks_kept cr st st'"
  unfolding checks_ok_def checks_kept_def succeeds_def by simp

lemma order_frame: "st_checks (tx_store tx') = st_checks (tx_store tx) \<Longrightarrow> check_order cr tx tx'"
  using checks_frame [of "tx_store tx'" "tx_store tx" cr] unfolding check_order_def by blast

lemma load_row: "map_of (st_checks st) cid = Some row \<Longrightarrow> row_check cr cid row c \<Longrightarrow> load_check cr cid st = Inr (Some c)"
  by (auto simp: load_check_def load_with_def row_check_def admit_body_Inr read_body_def)

lemma row_ok: "checks_ok cr st \<Longrightarrow> map_of (st_checks st) cid = Some row \<Longrightarrow> \<exists>c. row_check cr cid row c"
  unfolding checks_ok_def by blast

lemma row_load:
  assumes "checks_ok cr st" and "load_check cr cid st = Inr (Some c)"
  obtains row where "map_of (st_checks st) cid = Some row" and "row_check cr cid row c"
proof (cases "map_of (st_checks st) cid")
  case (Some row)
  then obtain c' where "row_check cr cid row c'" using row_ok [OF assms(1)] by blast
  then show ?thesis using that load_row [OF Some] assms(2) Some by fastforce
qed (use assms(2) in \<open>simp add: load_check_def load_with_def\<close>)

lemma row_none: "checks_ok cr st \<Longrightarrow> load_check cr cid st = Inr None \<Longrightarrow> map_of (st_checks st) cid = None"
  by (metis load_row checks_ok_def Inr_inject option.distinct(1) not_None_eq)

lemma evaluating_check:
  assumes "checks_ok cr st" and "map_of (st_checks st) cid = Some row" and "cr_state row = ''EVALUATING''"
  obtains c where "load_check cr cid st = Inr (Some c)" and "ck_state c = CsEvaluating"
proof -
  obtain c where c: "row_check cr cid row c" using row_ok [OF assms(1,2)] by blast
  then have "ck_state c = CsEvaluating" using assms(3) by (cases "ck_state c") (simp_all add: row_check_def)
  then show ?thesis using that load_row [OF assms(2) c] by blast
qed

section \<open>Writing a check\<close>

lemma sound_canon: "check_sound cr (canon_check c) = check_sound cr c"
  by (auto simp: check_sound_def clearance_names_def results_allow_def blindD [OF clearance_body_blind] split: option.splits sum.splits)

lemma written_row:
  assumes "emit_entity cr cx now actor request kind ''checks'' cid (check_value c) causes tx = Inr (r, tx')"
    and "pred_option (\<lambda>e. shape_ok (sd_body e)) (ck_clearance c)" and "ck_id c = cid"
    and "valid_check cr c \<Longrightarrow> check_sound cr c"
  obtains row where "st_checks (tx_store tx') = put_assoc cid row (st_checks (tx_store tx))"
    and "row_check cr cid row (canon_check c)"
proof -
  obtain seq dg tx1 where e: "emit cr cx now actor request kind (check_value c) causes tx = Inr ((seq, dg), tx1)"
    and put: "tx_put_entity cr ''checks'' cid (jcs (check_value c)) seq ''checks'' (tx_store tx1) = Inr (tx_store tx')"
    using assms(1) by (auto simp: emit_entity_def tx_defs)
  have st: "st_checks (tx_store tx1) = st_checks (tx_store tx)" using emit_frame [OF e] by fastforce
  from put show thesis
  proof (rule put_entity_Inr)
    fix c2 row
    assume a: "admit_body ''bad check body'' (check_of cr) (jcs (check_value c)) = Inr c2"
      and row: "row = \<lparr>cr_run = ck_run c2, cr_state = check_state_as_str (ck_state c2), cr_revision = ck_revision c2,
          cr_deadline_ms = ck_deadline_ms c2, cr_body = jcs (check_value c), cr_changed_seq = seq\<rparr>"
      and st': "tx_store tx' = (tx_store tx1)\<lparr>st_checks := put_assoc cid row (st_checks (tx_store tx1)),
         st_history := st_history (tx_store tx1) @ [((''checks'', cid, seq), jcs (check_value c))]\<rparr>"
    have c2: "c2 = canon_check c" using check_admitted [OF a assms(2)] .
    obtain w where "parse (jcs (check_value c)) reply_limits = Inr w" "check_of cr w = Inr c2"
      using a by (auto simp: admit_body_Inr)
    then have "check_of cr (canon (check_value c)) = Inr c2"
      using parse_back shape_check [OF assms(2)] by metis
    then obtain y where "check_of cr (check_value c) = Inr y" unfolding check_canon by (cases "check_of cr (check_value c)") auto
    then have "valid_check cr c" using check_back check_dec_valid by metis
    then have "row_check cr cid row (canon_check c)"
      using a row assms(3,4) sound_canon c2 by (simp add: row_check_def)
    then show thesis using that st' st by simp
  qed simp_all
qed

text \<open>What one check's computation may change: the row of that check, by a decision.\<close>

definition alters :: "Crypto \<Rightarrow> string \<Rightarrow> Store \<Rightarrow> Store \<Rightarrow> bool" where
  "alters cr cid st st' \<longleftrightarrow> checks_ok cr st' \<and> checks_kept cr st st' \<and>
     (\<forall>i. i \<noteq> cid \<longrightarrow> map_of (st_checks st') i = map_of (st_checks st) i)"

lemma put_alters:
  assumes "checks_ok cr st" and "st_checks st' = put_assoc cid row (st_checks st)" and "row_check cr cid row c"
    and "\<And>old. map_of (st_checks st) cid = Some old \<Longrightarrow> succeeds cr cid old row"
  shows "alters cr cid st st'"
  using assms by (auto simp: alters_def checks_ok_def checks_kept_def succeeds_def)

lemma decision_alters:
  assumes "emit_entity cr cx now actor request kind ''checks'' cid (check_value c') causes tx = Inr (r, tx')"
    and "checks_ok cr (tx_store tx)" and "load_check cr cid (tx_store tx) = Inr (Some c)"
    and "decides c c'" and "pred_option (\<lambda>e. shape_ok (sd_body e)) (ck_clearance c')" and "valid_check cr c' \<Longrightarrow> check_sound cr c'"
  shows "alters cr cid (tx_store tx) (tx_store tx')"
proof -
  obtain old where old: "map_of (st_checks (tx_store tx)) cid = Some old" "row_check cr cid old c"
    using row_load [OF assms(2,3)] .
  have "ck_id c' = cid" using assms(4) old(2) by (simp add: decides_def row_check_def)
  then obtain row where "st_checks (tx_store tx') = put_assoc cid row (st_checks (tx_store tx))"
    and row: "row_check cr cid row (canon_check c')"
    using written_row [OF assms(1) assms(5)] assms(6) by blast
  moreover have "decides c (canon_check c')" using assms(4) by (simp add: decides_def)
  then have "succeeds cr cid old row" using old(2) row by (auto simp: succeeds_def)
  ultimately show ?thesis using put_alters [OF assms(2) _ row] old(1) by simp
qed

lemma creation_alters:
  assumes "emit_entity cr cx now actor request kind ''checks'' cid (check_value c) causes tx = Inr (r, tx')"
    and "checks_ok cr (tx_store tx)" and "map_of (st_checks (tx_store tx)) cid = None"
    and "ck_id c = cid" and "ck_clearance c = None" and "ck_state c = CsEvaluating"
  shows "alters cr cid (tx_store tx) (tx_store tx') \<and> load_check cr cid (tx_store tx') = Inr (Some c)"
proof -
  have sound: "check_sound cr c" using assms(5,6) by (simp add: check_sound_def)
  obtain row where st: "st_checks (tx_store tx') = put_assoc cid row (st_checks (tx_store tx))"
    and row: "row_check cr cid row (canon_check c)"
    using written_row [OF assms(1) _ assms(4) sound] assms(5) by auto
  have "canon_check c = c" using assms(5) by (cases c) simp
  then have "load_check cr cid (tx_store tx') = Inr (Some c)"
    using load_row [of "tx_store tx'" cid row cr c] row st by simp
  then show ?thesis using put_alters [OF assms(2) st row] assms(3) by simp
qed

lemma alters_order: "(checks_ok cr (tx_store tx) \<Longrightarrow> alters cr cid (tx_store tx) (tx_store tx')) \<Longrightarrow> check_order cr tx tx'"
  by (simp add: alters_def check_order_def)

lemma alters_trans: "alters cr cid st st' \<Longrightarrow> alters cr cid st' st'' \<Longrightarrow> alters cr cid st st''"
  unfolding alters_def using checks_kept_trans by metis

lemma alters_refl: "checks_ok cr st \<Longrightarrow> st_checks st' = st_checks st \<Longrightarrow> alters cr cid st st'"
  using checks_frame [of st' st cr] by (simp add: alters_def)

section \<open>Computations that decide one check\<close>

interpretation same: transaction_order cr "\<lambda>tx tx'. st_checks (tx_store tx') = st_checks (tx_store tx)" for cr
proof (rule transaction_orderI)
  show "st_checks (tx_store tx') = st_checks (tx_store tx)" if "table \<noteq> ''checks''"
    "emit_entity cr cx now actor request kind table eid v causes tx = Inr (r, tx')"
    for table cx now actor request kind eid v causes tx r tx'
  proof -
    note written = that(2)
    obtain seq dg tx1 where e: "emit cr cx now actor request kind v causes tx = Inr ((seq, dg), tx1)"
      and put: "tx_put_entity cr table eid (jcs v) seq table (tx_store tx1) = Inr (tx_store tx')"
      using written by (auto simp: emit_entity_def tx_defs)
    have "st_checks (tx_store tx') = st_checks (tx_store tx1)" using put that(1) by (auto elim: put_entity_Inr)
    then show ?thesis using emit_frame [OF e] by auto
  qed
  show "st_checks (tx_store tx') = st_checks (tx_store tx)"
    if "emit cr cx now actor request kind v causes tx = Inr (r, tx')" for cx now actor request kind v causes tx r tx'
    using emit_frame [OF that] by auto
qed (simp_all add: stmt_frame)

abbreviation leaves :: "'a T \<Rightarrow> bool" where
  "leaves \<equiv> follows (\<lambda>tx tx'. st_checks (tx_store tx') = st_checks (tx_store tx))"

lemma load_same: "st_checks st' = st_checks st \<Longrightarrow> load_check cr cid st' = load_check cr cid st"
  by (simp add: load_check_def)

definition decision_by :: "Crypto \<Rightarrow> string \<Rightarrow> Check \<Rightarrow> 'a T \<Rightarrow> bool" where
  "decision_by cr cid c m \<longleftrightarrow> (\<forall>tx x tx'. checks_ok cr (tx_store tx) \<longrightarrow> load_check cr cid (tx_store tx) = Inr (Some c) \<longrightarrow>
     m tx = Inr (x, tx') \<longrightarrow> alters cr cid (tx_store tx) (tx_store tx'))"

named_theorems deciding \<open>computations that decide one check\<close>

lemma decision_leaves: "leaves m \<Longrightarrow> decision_by cr cid c m"
  by (auto simp: decision_by_def intro: alters_refl dest: followsD)

lemma decision_before [deciding]:
  assumes "leaves m" and "\<And>x. decision_by cr cid c (k x)"
  shows "decision_by cr cid c (tbind m k)"
  unfolding decision_by_def
proof (intro allI impI)
  fix tx y tx'
  assume ok: "checks_ok cr (tx_store tx)" and l: "load_check cr cid (tx_store tx) = Inr (Some c)"
    and "tbind m k tx = Inr (y, tx')"
  then obtain x tx1 where m: "m tx = Inr (x, tx1)" and k: "k x tx1 = Inr (y, tx')" by (auto simp: tx_defs)
  have same: "st_checks (tx_store tx1) = st_checks (tx_store tx)" using followsD [OF assms(1) m] .
  then have "alters cr cid (tx_store tx1) (tx_store tx')"
    using assms(2) [unfolded decision_by_def] k ok l checks_frame [OF same] load_same [OF same] by metis
  then show "alters cr cid (tx_store tx) (tx_store tx')"
    using alters_trans alters_refl [OF ok same] by blast
qed

lemma decision_after [deciding]:
  assumes "decision_by cr cid c m" and "leaves n"
  shows "decision_by cr cid c (thn m n)"
  unfolding decision_by_def
proof (intro allI impI)
  fix tx y tx'
  assume ok: "checks_ok cr (tx_store tx)" and l: "load_check cr cid (tx_store tx) = Inr (Some c)"
    and "thn m n tx = Inr (y, tx')"
  then obtain x tx1 where m: "m tx = Inr (x, tx1)" and n: "n tx1 = Inr (y, tx')" by (auto simp: tx_defs)
  have a: "alters cr cid (tx_store tx) (tx_store tx1)" using assms(1) ok l m by (auto simp: decision_by_def)
  then show "alters cr cid (tx_store tx) (tx_store tx')"
    using alters_trans alters_refl [OF _ followsD [OF assms(2) n]] by (auto simp: alters_def)
qed

lemma decision_first: "leaves m \<Longrightarrow> decision_by cr cid c n \<Longrightarrow> decision_by cr cid c (thn m n)"
  unfolding thn_def by (intro decision_before)

lemma decision_if [deciding]:
  "(b \<Longrightarrow> decision_by cr cid c m) \<Longrightarrow> (\<not> b \<Longrightarrow> decision_by cr cid c n) \<Longrightarrow> decision_by cr cid c (if b then m else n)"
  by simp

lemma decision_option [deciding]:
  "decision_by cr cid c m \<Longrightarrow> (\<And>x. decision_by cr cid c (f x)) \<Longrightarrow> decision_by cr cid c (case z of None \<Rightarrow> m | Some x \<Rightarrow> f x)"
  by (cases z) simp_all

lemma decision_prod [deciding]: "(\<And>x y. decision_by cr cid c (f x y)) \<Longrightarrow> decision_by cr cid c (case z of (x, y) \<Rightarrow> f x y)"
  by (cases z) simp

lemma decision_liftR:
  "(\<And>x. r = Inr x \<Longrightarrow> decision_by cr cid c (k x)) \<Longrightarrow> decision_by cr cid c (tbind (liftR r) k)"
  by (cases r) (auto simp: decision_by_def tx_defs)

lemma decision_reader: "(\<And>tx. decision_by cr cid c (f tx)) \<Longrightarrow> decision_by cr cid c (\<lambda>tx. f tx tx)"
  by (auto simp: decision_by_def)

lemma decision_record:
  assumes "decides c c'" and "pred_option (\<lambda>e. shape_ok (sd_body e)) (ck_clearance c')" and "valid_check cr c' \<Longrightarrow> check_sound cr c'"
  shows "decision_by cr cid c (record_entity cr dm now kind ''checks'' cid (check_value c') causes)"
    "decision_by cr cid c (caller_entity cr dm now ca kind ''checks'' cid (check_value c') causes)"
  unfolding decision_by_def record_entity_def watchd_entity_def caller_entity_def
  by (auto simp: tx_defs intro: decision_alters [OF _ _ _ assms])

text \<open>What is known of a check that was loaded and is not decided.\<close>

lemma decision_loaded:
  assumes "\<And>c. ck_id c = cid \<Longrightarrow> ck_clearance c = None \<Longrightarrow> ck_state c = CsEvaluating \<Longrightarrow> decision_by cr cid c (m c)"
    and "ck_state c = CsEvaluating"
  shows "decision_by cr cid c (m c)"
  unfolding decision_by_def
proof (intro allI impI)
  fix tx x tx'
  assume *: "checks_ok cr (tx_store tx)" "load_check cr cid (tx_store tx) = Inr (Some c)" "m c tx = Inr (x, tx')"
  then obtain row where "row_check cr cid row c" using row_load by blast
  then have "ck_id c = cid" "ck_clearance c = None"
    using assms(2) by (auto simp: row_check_def check_sound_def split: option.splits)
  then show "alters cr cid (tx_store tx) (tx_store tx')"
    using assms(1) [OF _ _ assms(2)] * by (auto simp: decision_by_def)
qed

lemma decided_facts:
  assumes "ck_state c = CsEvaluating" and "ck_clearance c = None" and "cs \<noteq> CsEvaluating" and "cs \<noteq> CsClear"
  shows "decides c (decided_check cs reason c)" "check_sound cr (decided_check cs reason c)"
    "pred_option P (ck_clearance (decided_check cs reason c))"
  using assms by (simp_all add: decides_def decided_check_def check_sound_def)

text \<open>A computation that decides a check when it is not decided.\<close>

definition decides_open :: "Crypto \<Rightarrow> string \<Rightarrow> 'a T \<Rightarrow> bool" where
  "decides_open cr cid m \<longleftrightarrow> (\<forall>c tx x tx'. ck_state c = CsEvaluating \<longrightarrow> checks_ok cr (tx_store tx) \<longrightarrow>
     load_check cr cid (tx_store tx) = Inr (Some c) \<longrightarrow> m tx = Inr (x, tx') \<longrightarrow> alters cr cid (tx_store tx) (tx_store tx'))"

lemma open_get:
  assumes "\<And>c. ck_id c = cid \<Longrightarrow> ck_clearance c = None \<Longrightarrow> ck_state c = CsEvaluating \<Longrightarrow> decision_by cr cid c (k c)"
  shows "decides_open cr cid (tbind (get_check cr cid) k)"
  unfolding decides_open_def
proof (intro allI impI)
  fix c tx x tx'
  assume *: "ck_state c = CsEvaluating" "checks_ok cr (tx_store tx)" "load_check cr cid (tx_store tx) = Inr (Some c)"
    "tbind (get_check cr cid) k tx = Inr (x, tx')"
  then have "k c tx = Inr (x, tx')" by (simp add: get_check_def unwrap_def tx_defs)
  moreover have "decision_by cr cid c (k c)" using decision_loaded [OF assms *(1)] .
  ultimately show "alters cr cid (tx_store tx) (tx_store tx')" using * by (auto simp: decision_by_def)
qed

lemma open_decided:
  "decides_open cr cid (recover_check cr dm now cid)" "decides_open cr cid (drain_check cr dm now cid)"
  "decides_open cr cid (cancel_check cr dm now cid)"
  "decides_open cr cid (tbind (get_check cr cid) (\<lambda>c.
          thn (record_entity cr dm now ''CheckFinalized'' ''checks'' cid
                 (check_value (decided_check CsStale ''STALE'' c)) [])
              (checks_total ''STALE'')))"
  unfolding recover_check_def drain_check_def cancel_check_def
  by (intro open_get decision_after decision_record decided_facts same.fol; simp)+

end
