(* ===== verification/DecisionOrder.thy ===== *)
theory DecisionOrder
  imports Decisions
begin

text \<open>
  Every request, timer and restart follows the order of checks: the loops that expire, cancel or drain
  the pending checks, the finalization, and the creation and cancellation of one check.
\<close>

section \<open>Loops over pending checks\<close>

interpretation order: transaction_order cr "check_order cr" for cr
proof (rule transaction_orderI)
  show "check_order cr tx tx''" if "check_order cr tx tx'" "check_order cr tx' tx''" for tx tx' tx''
    using that checks_kept_trans unfolding check_order_def by blast
  show "check_order cr tx tx'" if "table \<noteq> ''checks''"
    "emit_entity cr cx now actor request kind table eid v causes tx = Inr (r, tx')"
    for table cx now actor request kind eid v causes tx r tx'
    using same.rel_entity [OF that] by (rule order_frame)
  show "check_order cr tx tx'" if "emit cr cx now actor request kind v causes tx = Inr (r, tx')"
    for cx now actor request kind v causes tx r tx'
    using same.rel_emit [OF that] by (rule order_frame)
qed (rule order_frame; simp add: stmt_frame)+

lemma follows_leaves: "leaves m \<Longrightarrow> follows (check_order cr) m"
  by (rule followsI, rule order_frame) (rule followsD)

definition pending :: "Crypto \<Rightarrow> string \<Rightarrow> Store \<Rightarrow> bool" where
  "pending cr cid st \<longleftrightarrow> (\<exists>c. load_check cr cid st = Inr (Some c) \<and> ck_state c = CsEvaluating)"

lemma pending_other: "alters cr cid st st' \<Longrightarrow> i \<noteq> cid \<Longrightarrow> pending cr i st' = pending cr i st"
  by (simp add: alters_def pending_def load_check_def)

lemma open_alters: "decides_open cr cid m \<Longrightarrow> checks_ok cr (tx_store tx) \<Longrightarrow> pending cr cid (tx_store tx) \<Longrightarrow>
    m tx = Inr (x, tx') \<Longrightarrow> alters cr cid (tx_store tx) (tx_store tx')"
  by (auto simp: decides_open_def pending_def)

lemma loop_kept:
  assumes "distinct ids" and "\<And>cid. decides_open cr cid (f cid)" and "checks_ok cr (tx_store tx)"
    and "list_all (\<lambda>cid. pending cr cid (tx_store tx)) ids" and "forT f ids tx = Inr (u, tx')"
  shows "checks_ok cr (tx_store tx') \<and> checks_kept cr (tx_store tx) (tx_store tx')"
  using assms(1,3-5)
proof (induction ids arbitrary: tx)
  case Nil
  then show ?case by (simp add: ret_def checks_kept_refl)
next
  case (Cons cid ids)
  then obtain x tx1 where f: "f cid tx = Inr (x, tx1)" and rest: "forT f ids tx1 = Inr (u, tx')"
    by (auto simp: tx_defs)
  have a: "alters cr cid (tx_store tx) (tx_store tx1)"
    using open_alters [OF assms(2)] Cons.prems f by simp
  have "list_all (\<lambda>i. pending cr i (tx_store tx1)) ids"
    using Cons.prems(1,3) pending_other [OF a] unfolding list_all_iff by (metis distinct.simps(2) list.set_intros(2))
  then have "checks_ok cr (tx_store tx') \<and> checks_kept cr (tx_store tx1) (tx_store tx')"
    using Cons.IH [of tx1] rest Cons.prems(1) a by (simp add: alters_def)
  then show ?case using a checks_kept_trans unfolding alters_def by blast
qed

text \<open>The ids a loop runs over.\<close>

definition picks :: "(Store \<Rightarrow> string list) \<Rightarrow> bool" where
  "picks sel \<longleftrightarrow> (\<forall>st. distinct (map fst (st_checks st)) \<longrightarrow> distinct (sel st) \<and>
     (\<forall>cid \<in> set (sel st). \<exists>row. map_of (st_checks st) cid = Some row \<and> cr_state row = ''EVALUATING''))"

lemma distinct_filtered: "distinct (map fst xs) \<Longrightarrow> distinct (map fst (filter P xs))"
  by (induction xs) auto

lemma distinct_keys_mset: "mset ys = mset xs \<Longrightarrow> distinct (map fst xs) \<Longrightarrow> distinct (map fst ys)"
  by (metis mset_eq_imp_distinct_iff mset_map)

lemma picks_select: "(\<And>r. P r \<Longrightarrow> cr_state r = ''EVALUATING'') \<Longrightarrow> picks (\<lambda>st. select_ids P (st_checks st))"
  unfolding picks_def select_ids_def
  by (auto intro!: distinct_keys_mset [OF mset_sort_by] distinct_filtered dest: map_of_is_SomeI)

lemma picks_pending: "picks (pending_checks rid)"
  unfolding picks_def pending_checks_def by (auto intro!: distinct_filtered dest: map_of_is_SomeI)

lemma loop_follows:
  assumes "picks sel" and "\<And>cid. decides_open cr cid (f cid)"
  shows "follows (check_order cr) (tbind (look sel) (forT f))"
proof (rule followsI)
  fix tx u tx'
  assume run: "tbind (look sel) (forT f) tx = Inr (u, tx')"
  show "check_order cr tx tx'"
    unfolding check_order_def
  proof (intro impI)
    assume ok: "checks_ok cr (tx_store tx)"
    have "list_all (\<lambda>cid. pending cr cid (tx_store tx)) (sel (tx_store tx))"
      using assms(1) ok evaluating_check [OF ok] unfolding list_all_iff picks_def pending_def checks_ok_def by metis
    moreover have "distinct (sel (tx_store tx))" using assms(1) ok by (simp add: picks_def checks_ok_def)
    moreover have "forT f (sel (tx_store tx)) tx = Inr (u, tx')" using run by (simp add: tx_defs)
    ultimately show "checks_ok cr (tx_store tx') \<and> checks_kept cr (tx_store tx) (tx_store tx')"
      using loop_kept [OF _ assms(2) ok] by blast
  qed
qed

lemma loop_then:
  assumes "picks sel" and "\<And>cid. decides_open cr cid (f cid)" and "follows (check_order cr) n"
  shows "follows (check_order cr) (tbind (look sel) (\<lambda>ids. thn (forT f ids) n))"
proof -
  have "tbind (look sel) (\<lambda>ids. thn (forT f ids) n) = thn (tbind (look sel) (forT f)) n"
    by (rule ext) (simp add: tx_defs)
  then show ?thesis using order.follows_thn [OF loop_follows [OF assms(1,2)] assms(3)] by simp
qed

section \<open>Finalization\<close>

lemma decided_with:
  assumes "ck_state c = CsEvaluating" and "ck_clearance c' = None" and "ck_state c' \<noteq> CsEvaluating" and "ck_state c' \<noteq> CsClear"
    and "ck_revision c' = ck_revision c + 1" and "ck_id c' = ck_id c" and "ck_run c' = ck_run c"
    and "ck_intent c' = ck_intent c" and "ck_observation c' = ck_observation c" and "ck_policy c' = ck_policy c"
    and "ck_created_ms c' = ck_created_ms c" and "ck_deadline_ms c' = ck_deadline_ms c"
  shows "decision_by cr (ck_id c) c (record_entity cr dm now kind ''checks'' (ck_id c) (check_value c') causes)"
  using assms by (intro decision_record) (simp_all add: decides_def check_sound_def)

lemma decision_stale:
  assumes "ck_state c = CsEvaluating" and "ck_clearance c = None"
  shows "decision_by cr (ck_id c) c (finalize_stale cr dm now c)"
  unfolding finalize_stale_def using assms
  by (intro decision_after decided_with same.fol) (simp_all add: decided_check_def)

lemma settled_results: "set (concat (map (case_option [] (\<lambda>r. [r])) slots)) = {r. Some r \<in> set slots}"
  by (induction slots) (auto split: option.splits)

lemma outcome_results:
  assumes "cleared_by consume (aggregate slots qctx) = OClear"
  shows "list_all (\<lambda>r. rs_verdict r \<in> {VClear, VUncertain}) (concat (map (case_option [] (\<lambda>r. [r])) slots)) \<and>
    (consume = None \<longrightarrow> list_all (\<lambda>r. rs_verdict r = VClear) (concat (map (case_option [] (\<lambda>r. [r])) slots)))"
proof (cases "aggregate slots qctx")
  case OClear
  then have "list_all (\<lambda>s. map_option rs_verdict s = Some VClear) slots" by (rule passed_slots)
  then show ?thesis unfolding list_all_iff settled_results by auto
next
  case (OHeld reason fresh)
  then have "list_all (\<lambda>s. map_option rs_verdict s \<in> {Some VClear, Some VUncertain}) slots"
    by (rule passed_slots)
  then show ?thesis using assms OHeld unfolding list_all_iff settled_results by (cases consume) auto
qed (use assms in \<open>cases consume; simp\<close>)+

text \<open>The clearance a CLEAR check is given names that check.\<close>

lemma signed_body: "signed_of cr (sign_envelope cr tag body kid kep sk) = Inr sv \<Longrightarrow> sd_body sv = body"
  by (auto simp: sign_envelope_def signed_of_def Let_def fld_iff)

lemma clearance_back: "clearance_body_of (clearance_body_value cl) = Inr x \<Longrightarrow> x = cl"
  by (cases cl, cases x) (auto simp: clearance_body_of_def clearance_body_value_def fld_some closed_eval sbind_eq_Inr dest!: codec_back)

lemma shape_clearance: "shape_ok (clearance_body_value cl)"
  by (simp add: clearance_body_value_def)

lemma decision_clear:
  assumes "ck_state c = CsEvaluating" and "c1 = c\<lparr>ck_results := rs, ck_state := CsClear, ck_reason := ''CLEAR''\<rparr>"
    and "list_all (\<lambda>r. rs_verdict r \<in> {VClear, VUncertain}) rs"
    and "ck_review c = None \<Longrightarrow> list_all (\<lambda>r. rs_verdict r = VClear) rs"
  shows "decision_by cr (ck_id c) c (clear_outcome cr dm now c1 run pol ob cand consume)"
proof -
  let ?cl = "\<lambda>basis. clearance_for cr dm now pol run c1 ob basis"
  have "decision_by cr (ck_id c) c (record_entity cr dm now ''CheckFinalized'' ''checks''
      (ck_id (c1\<lparr>ck_clearance := Some sv, ck_revision := ck_revision c1 + 1\<rparr>))
      (check_value (c1\<lparr>ck_clearance := Some sv, ck_revision := ck_revision c1 + 1\<rparr>)) causes)"
    if sv: "sd_body sv = clearance_body_value (?cl basis)" for sv basis causes
  proof -
    let ?c = "c1\<lparr>ck_clearance := Some sv, ck_revision := ck_revision c1 + 1\<rparr>"
    have "check_sound cr ?c" if "valid_check cr ?c"
    proof -
      from that obtain x where x: "clearance_body_of (sd_body sv) = Inr x"
        by (auto simp: valid_check_def valid_clearance_signed_def isl_def split: sum.splits)
          (meson sum.exhaust)
      then have "x = ?cl basis" using sv clearance_back by metis
      then show ?thesis using x assms(2-4) by (simp add: check_sound_def clearance_names_def results_allow_def clearance_for_def)
    qed
    moreover have "decides c ?c" using assms(1,2) by (simp add: decides_def)
    ultimately have "decision_by cr (ck_id c) c (record_entity cr dm now ''CheckFinalized'' ''checks'' (ck_id c) (check_value ?c) causes)"
      using sv shape_clearance by (intro decision_record) simp_all
    then show ?thesis using assms(2) by simp
  qed
  note written = this
  show ?thesis
    unfolding clear_outcome_def Let_def
  proof (rule decision_liftR)
    fix sv
    assume "signed_of cr (sign_envelope cr ''clearance'' (clearance_body_value (?cl (basis_digest cr
        (case Option.bind consume rv_basis of None \<Rightarrow> cand | Some b \<Rightarrow> b)))) (cf_signer_key_id (dm_cfg dm))
        (dec (cf_signer_key_epoch (dm_cfg dm))) (dm_sk dm)) = Inr sv"
    note body = signed_body [OF this]
    let ?c = "c1\<lparr>ck_clearance := Some sv, ck_revision := ck_revision c1 + 1\<rparr>"
    have "decision_by cr (ck_id c) c
        (\<lambda>tx. record_entity cr dm now ''CheckFinalized'' ''checks'' (ck_id ?c) (check_value ?c) (clear_causes ?c tx) tx)"
      by (rule decision_reader [where f = "\<lambda>tx. record_entity cr dm now ''CheckFinalized'' ''checks'' (ck_id ?c)
        (check_value ?c) (clear_causes ?c tx)"], rule written [OF body])
    moreover have "leaves (consume_review cr dm now consume)"
      unfolding consume_review_def by (intro same.fol) simp
    ultimately show "decision_by cr (ck_id c) c (thn (consume_review cr dm now consume)
        (thn (\<lambda>tx. record_entity cr dm now ''CheckFinalized'' ''checks'' (ck_id ?c) (check_value ?c) (clear_causes ?c tx) tx)
          (checks_total ''CLEAR'')))"
      by (intro decision_first decision_after same.fol)
  qed
qed

lemma decision_query:
  assumes "\<And>st x. qf st = Inr x \<Longrightarrow> decision_by cr cid c (k x)"
  shows "decision_by cr cid c (tbind (query qf) k)"
  using assms by (auto simp: decision_by_def tx_defs sbind_eq_Inr)

lemma decision_plain:
  assumes "ck_state c = CsEvaluating" and "ck_clearance c' = None" and "ck_state c' \<noteq> CsEvaluating" and "ck_state c' \<noteq> CsClear"
    and "ck_revision c' = ck_revision c" and "ck_id c' = ck_id c" and "ck_run c' = ck_run c"
    and "ck_intent c' = ck_intent c" and "ck_observation c' = ck_observation c" and "ck_policy c' = ck_policy c"
    and "ck_created_ms c' = ck_created_ms c" and "ck_deadline_ms c' = ck_deadline_ms c"
  shows "decision_by cr (ck_id c) c (plain_outcome cr dm now c')"
proof -
  have "decision_by cr (ck_id c) c (record_entity cr dm now ''CheckFinalized'' ''checks'' (ck_id c)
      (check_value (c'\<lparr>ck_revision := ck_revision c' + 1\<rparr>)) causes)" for causes
    by (rule decided_with) (simp_all add: assms)
  then show ?thesis
    unfolding plain_outcome_def Let_def using assms(6) by (simp add: decision_after same.fol)
qed

lemma decision_apply:
  assumes "ck_state c = CsEvaluating" and "ck_clearance c = None" and "consume \<noteq> None \<Longrightarrow> ck_review c \<noteq> None"
    and "outcome = cleared_by consume (aggregate slots qctx)"
    and "rs = concat (map (case_option [] (\<lambda>r. [r])) slots)"
  shows "decision_by cr (ck_id c) c (apply_outcome cr dm now (c\<lparr>ck_results := rs\<rparr>) run pol ob outcome existing consume cand)"
proof (cases outcome)
  case OClear
  have "list_all (\<lambda>r. rs_verdict r \<in> {VClear, VUncertain}) rs"
    "ck_review c = None \<Longrightarrow> list_all (\<lambda>r. rs_verdict r = VClear) rs"
    using outcome_results [of consume slots qctx] assms(3-5) OClear by auto
  then show ?thesis
    unfolding apply_outcome_def OClear Outcome.case by (intro decision_clear [OF assms(1)]) simp_all
next
  case (OHeld reason fresh)
  have held: "decision_by cr (ck_id c) c (held_outcome cr dm now (c\<lparr>ck_results := rs, ck_state := CsHeld, ck_reason := reason\<rparr>)
      run pol cand reason)"
    unfolding held_outcome_def Let_def
    by (rule decision_before, rule same.fol, simp, rule decision_after, rule decided_with)
      (use assms(1,2) in simp_all, intro same.fol, simp)
  have plain: "decision_by cr (ck_id c) c (plain_outcome cr dm now (c\<lparr>ck_results := rs, ck_state := CsHeld, ck_reason := reason\<rparr>))"
    "decision_by cr (ck_id c) c (plain_outcome cr dm now (c\<lparr>ck_results := rs, ck_state := CsHeld, ck_reason := reason, ck_review := v\<rparr>))" for v
    using assms(1,2) by (intro decision_plain; simp)+
  show ?thesis
    unfolding apply_outcome_def OHeld Outcome.case Let_def
    by (cases fresh; cases existing) (simp_all add: held plain)
next
  case (ODeny reason)
  show ?thesis unfolding apply_outcome_def ODeny Outcome.case using assms(1,2) by (intro decision_plain) simp_all
next
  case (OExpired reason)
  show ?thesis unfolding apply_outcome_def OExpired Outcome.case using assms(1,2) by (intro decision_plain) simp_all
qed

lemma supplied_named: "supplied_review now cand c st = Inr consume \<Longrightarrow> consume \<noteq> None \<Longrightarrow> ck_review c \<noteq> None"
  by (auto simp: supplied_review_def split: option.splits)

lemma decision_decide:
  assumes "ck_state c = CsEvaluating" and "ck_clearance c = None"
  shows "decision_by cr (ck_id c) c (decide_check cr dm now c run pol ob slots)"
  unfolding decide_check_def Let_def
  by (intro decision_before decision_prod decision_query decision_apply [OF assms] supplied_named same.fol) simp_all

lemma decision_recheck:
  assumes "ck_state c = CsEvaluating" and "ck_clearance c = None"
  shows "decision_by cr (ck_id c) c (recheck cr dm now c slots)"
  unfolding recheck_def
  by (intro decision_before decision_option decision_prod decision_if decision_stale [OF assms]
      decision_decide [OF assms] decision_leaves [OF same.follows_pure(1)] same.fol decision_after decided_with assms)
    (simp_all add: decided_check_def assms)

lemma decision_order: "decision_by cr cid c m \<Longrightarrow> load_check cr cid (tx_store tx) = Inr (Some c) \<Longrightarrow>
    m tx = Inr (x, tx') \<Longrightarrow> check_order cr tx tx'"
  by (rule alters_order) (auto simp: decision_by_def)

lemma finalize_follows: "follows (check_order cr) (finalize_check cr dm now cid slots)"
proof (rule followsI)
  fix tx u tx'
  assume run: "finalize_check cr dm now cid slots tx = Inr (u, tx')"
  show "check_order cr tx tx'"
  proof (cases "\<exists>c. load_check cr cid (tx_store tx) = Inr (Some c) \<and> ck_state c = CsEvaluating")
    case True
    then obtain c where c: "load_check cr cid (tx_store tx) = Inr (Some c)" "ck_state c = CsEvaluating" by blast
    have by_check: "decision_by cr cid c (recheck cr dm now c slots)"
      by (rule decision_loaded [OF _ c(2)]) (use decision_recheck in blast)
    have "recheck cr dm now c slots tx = Inr (u, tx')" using run c by (simp add: finalize_check_def tx_defs)
    then show ?thesis by (rule decision_order [OF by_check c(1)])
  next
    case False
    then have "tx' = tx" using run
      by (auto simp: finalize_check_def tx_defs sbind_eq_Inr split: option.splits if_split_asm)
    then show ?thesis by (simp add: order.rel_refl)
  qed
qed

section \<open>Creation and cancellation\<close>

lemma admission_Inr:
  "guard_that b code msg = Inr u \<longleftrightarrow> b" "some_or x code msg = Inr y \<longleftrightarrow> x = Some y" "q r = Inr z \<longleftrightarrow> r = Inr z"
  by (auto simp: guard_that_def some_or_def q_def map_err_def reject_def split: option.splits sum.splits)

lemma created_fresh:
  assumes "create_admission cr ca params dm = Inr f"
  obtains run pol env latch c where "f = create_tx cr ca run pol env latch c"
    and "load_check cr (ck_id c) (dm_store dm) = Inr None" and "ck_state c = CsEvaluating" and "ck_clearance c = None"
proof -
  let ?P = "\<lambda>f. \<exists>run pol env latch c. f = create_tx cr ca run pol env latch c \<and>
    load_check cr (ck_id c) (dm_store dm) = Inr None \<and> ck_state c = CsEvaluating \<and> ck_clearance c = None"
  have "?P (create_tx cr ca run pol env latch (new_check now cid rid intent oref pdg pol review))"
    if "load_check cr cid (dm_store dm) = Inr None" for run pol env latch now cid rid intent oref pdg review
    using that by (intro exI conjI) (auto simp: new_check_def)
  then have "?P f"
    using assms unfolding create_admission_def sbind_eq_Inr Let_def admission_Inr case_prod_unfold by blast
  then show thesis using that by blast
qed

lemma cancelled_pending:
  assumes "cancel_admission cr ca params dm = Inr f"
  obtains cid c where "f = cancel_tx cr ca cid (decided_check CsCancelled ''CANCELLED'' c)"
    and "load_check cr cid (dm_store dm) = Inr (Some c)" and "ck_state c = CsEvaluating"
  using assms unfolding cancel_admission_def sbind_eq_Inr admission_Inr by auto

lemma create_follows:
  assumes "create_admission cr ca params dm = Inr f"
    and "f dm (dm_now dm) (begin_tx (dm_store dm)) = (Inr (stage, tx'), dm')"
  shows "check_order cr (begin_tx (dm_store dm)) tx'"
  unfolding check_order_def
proof (intro impI)
  let ?tx = "begin_tx (dm_store dm)"
  assume ok: "checks_ok cr (tx_store ?tx)"
  from created_fresh [OF assms(1)] obtain run pol env latch c where f: "f = create_tx cr ca run pol env latch c"
    and new: "load_check cr (ck_id c) (dm_store dm) = Inr None" and c: "ck_state c = CsEvaluating" "ck_clearance c = None" .
  let ?rest = "thn (forT (queue_job (dm_now dm) c pol env) (filter required_monitor (pl_monitors pol)))
    (thn (exec (tx_action_put (ck_run c) (it_action (ck_intent c)) (intent_digest cr (ck_intent c)) latch))
    (thn (bump ''watch_candidate_actions_total'' (rn_mode run) [] 1)
    (if latch then
        thn (record_entity cr dm (dm_now dm) ''CheckFinalized'' ''checks'' (ck_id c) (check_value (latched_deny c)) (check_causes c))
        (thn (checks_total ''DENY'') (ret (MOk (entity_reply (ck_id c) (ck_revision (latched_deny c)) ''DENY''))))
      else ret (MOk (entity_reply (ck_id c) 1 ''EVALUATING'')))))"
  obtain x tx1 where made: "caller_entity cr dm (dm_now dm) ca ''CheckStarted'' ''checks'' (ck_id c) (check_value c)
      [rf_hash (ck_observation c)] ?tx = Inr (x, tx1)" and rest: "?rest tx1 = Inr (stage, tx')"
    using assms(2) unfolding f create_tx_def of_tx_def Let_def by (auto simp: thn_def tbind_def sbind_eq_Inr)
  have "map_of (st_checks (tx_store ?tx)) (ck_id c) = None"
    using row_none [OF ok] new by (simp add: begin_tx_def)
  then have a: "alters cr (ck_id c) (tx_store ?tx) (tx_store tx1)" and l: "load_check cr (ck_id c) (tx_store tx1) = Inr (Some c)"
    using creation_alters [OF _ ok, of _ _ _ _ _ "ck_id c" c] made c by (auto simp: caller_entity_def tx_defs)
  have "decision_by cr (ck_id c) c (record_entity cr dm (dm_now dm) ''CheckFinalized'' ''checks'' (ck_id c)
      (check_value (latched_deny c)) (check_causes c))"
    using c unfolding latched_deny_def by (intro decision_record decided_facts) simp_all
  then have "decision_by cr (ck_id c) c ?rest"
    by (intro decision_first decision_if decision_after same.fol decision_leaves [OF same.follows_pure(1)])
  then have "alters cr (ck_id c) (tx_store tx1) (tx_store tx')"
    using a l rest by (auto simp: decision_by_def alters_def)
  then show "checks_ok cr (tx_store tx') \<and> checks_kept cr (tx_store ?tx) (tx_store tx')"
    using alters_trans [OF a] by (auto simp: alters_def)
qed

lemma cancel_follows:
  assumes "cancel_admission cr ca params dm = Inr f"
    and "f dm (dm_now dm) (begin_tx (dm_store dm)) = (Inr (stage, tx'), dm')"
  shows "check_order cr (begin_tx (dm_store dm)) tx'"
proof -
  from cancelled_pending [OF assms(1)] obtain cid c where f: "f = cancel_tx cr ca cid (decided_check CsCancelled ''CANCELLED'' c)"
    and l: "load_check cr cid (dm_store dm) = Inr (Some c)" and c: "ck_state c = CsEvaluating" .
  let ?c = "decided_check CsCancelled ''CANCELLED'' c"
  let ?m = "thn (caller_entity cr dm (dm_now dm) ca ''CheckFinalized'' ''checks'' cid (check_value ?c) (check_causes ?c))
     (thn (checks_total ''CANCELLED'') (ret (MOk (entity_reply cid (ck_revision ?c) ''CANCELLED''))))"
  have ran: "?m (begin_tx (dm_store dm)) = Inr (stage, tx')"
    using assms(2) unfolding f cancel_tx_def of_tx_def by auto
  have by_check: "decision_by cr cid c ?m"
  proof (rule decision_loaded [OF _ c, where m = "\<lambda>c. thn (caller_entity cr dm (dm_now dm) ca ''CheckFinalized'' ''checks'' cid
      (check_value (decided_check CsCancelled ''CANCELLED'' c)) (check_causes (decided_check CsCancelled ''CANCELLED'' c)))
      (thn (checks_total ''CANCELLED'') (ret (MOk (entity_reply cid (ck_revision (decided_check CsCancelled ''CANCELLED'' c)) ''CANCELLED''))))"])
  qed (intro decision_after decision_record decided_facts same.fol; simp)
  have "load_check cr cid (tx_store (begin_tx (dm_store dm))) = Inr (Some c)" using l by (simp add: begin_tx_def)
  then show ?thesis by (rule decision_order [OF by_check _ ran])
qed

section \<open>Every history\<close>

interpretation checks: request_order cr "check_order cr" for cr
proof
  show "follows (check_order cr) (expire_run_checks cr dm now rid)" for dm now rid
    unfolding expire_run_checks_def by (intro loop_follows picks_select open_decided) simp
  show "follows (check_order cr) (tbind (query (entity_ids_by_state ''checks'' [''EVALUATING'']))
      (\<lambda>ids. forT (recover_check cr dm now) ids))" for dm now
  proof -
    have "query (entity_ids_by_state ''checks'' [''EVALUATING'']) =
        look (\<lambda>st. select_ids (\<lambda>r. cr_state r \<in> set [''EVALUATING'']) (st_checks st))"
      by (simp add: look_def entity_ids_by_state_def [abs_def])
    moreover have "follows (check_order cr) (tbind (look (\<lambda>st. select_ids (\<lambda>r. cr_state r \<in> set [''EVALUATING'']) (st_checks st)))
        (forT (recover_check cr dm now)))"
      by (intro loop_follows picks_select open_decided) simp
    ultimately show ?thesis by simp
  qed
  show "follows (check_order cr) (tbind (look (\<lambda>st. select_ids (\<lambda>r. cr_state r = ''EVALUATING'') (st_checks st)))
      (\<lambda>ids. thn (forT (drain_check cr dm now) ids) n))" if "follows (check_order cr) n" for dm now and n :: "MOut T"
    using that by (intro loop_then picks_select open_decided) simp_all
  show "follows (check_order cr) (tbind (look (pending_checks rid)) (\<lambda>ids. thn (forT (cancel_check cr dm now) ids) k))"
    if "follows (check_order cr) k" for rid dm now and k :: "unit T"
    using that by (intro loop_then picks_pending open_decided)
qed (rule finalize_follows create_follows cancel_follows order.window_facts; assumption)+

lemma commits_checks: "commits (check_order cr) st st' \<Longrightarrow> checks_ok cr st \<Longrightarrow> checks_ok cr st' \<and> checks_kept cr st st'"
proof (induction rule: rtranclp_induct)
  case (step st1 st2)
  then show ?case using checks_kept_trans unfolding commit_step_def check_order_def begin_tx_def by fastforce
qed (simp add: checks_kept_refl)

lemma checks_after: "checks_ok cr (store_after cr pf xs)"
  using commits_checks [OF checks.life_commits] by (simp add: checks_ok_def empty_store_def)

end
