(* ===== verification/Settled.thy ===== *)
theory Settled
  imports Typed DecisionOrder
begin

text \<open>
  Checks do not stay open. A finalization that commits decides its check, on every branch: stale facts, a
  missed deadline, a flag, a full queue, an open review, a clearance.
\<close>

definition settles :: "Crypto \<Rightarrow> string \<Rightarrow> 'a T \<Rightarrow> bool" where
  "settles cr cid m \<longleftrightarrow> (\<forall>tx x tx'. m tx = Inr (x, tx') \<longrightarrow> \<not> pending cr cid (tx_store tx'))"

named_theorems settling \<open>computations after which a check is decided\<close>

lemma settles_later [settling]: "(\<And>x. settles cr cid (k x)) \<Longrightarrow> settles cr cid (tbind m k)"
  by (auto simp: settles_def tx_defs sbind_eq_Inr)

lemma settles_second: "settles cr cid n \<Longrightarrow> settles cr cid (thn m n)"
  unfolding thn_def by (rule settles_later)

lemma settles_first [settling]: "settles cr cid m \<Longrightarrow> leaves n \<Longrightarrow> settles cr cid (thn m n)"
  unfolding settles_def
proof (intro allI impI)
  fix tx x tx'
  assume m: "\<forall>tx x tx'. m tx = Inr (x, tx') \<longrightarrow> \<not> pending cr cid (tx_store tx')" and n: "leaves n"
    and "thn m n tx = Inr (x, tx')"
  then obtain y tx1 where "m tx = Inr (y, tx1)" and run: "n tx1 = Inr (x, tx')" by (auto simp: tx_defs)
  then have "\<not> pending cr cid (tx_store tx1)" using m by blast
  then show "\<not> pending cr cid (tx_store tx')" using load_same [OF followsD [OF n run]] by (simp add: pending_def)
qed

lemma settles_cases [settling]:
  "settles cr cid m \<Longrightarrow> settles cr cid n \<Longrightarrow> settles cr cid (if b then m else n)"
  "settles cr cid p \<Longrightarrow> (\<And>x. settles cr cid (f x)) \<Longrightarrow> settles cr cid (case z of None \<Rightarrow> p | Some x \<Rightarrow> f x)"
  "(\<And>x y. settles cr cid (g x y)) \<Longrightarrow> settles cr cid (case w of (x, y) \<Rightarrow> g x y)"
  by (simp_all split: option.split prod.split)

lemma settles_reader: "(\<And>tx. settles cr cid (f tx)) \<Longrightarrow> settles cr cid (\<lambda>tx. f tx tx)"
  by (auto simp: settles_def)

lemma settles_record [settling]:
  assumes "ck_state c \<noteq> CsEvaluating" and "pred_option (\<lambda>e. shape_ok (sd_body e)) (ck_clearance c)"
  shows "settles cr cid (record_entity cr dm now kind ''checks'' cid (check_value c) causes)"
  unfolding settles_def
proof (intro allI impI)
  fix tx x tx'
  assume "record_entity cr dm now kind ''checks'' cid (check_value c) causes tx = Inr (x, tx')"
  then have "\<exists>seq st1. tx_put_entity cr ''checks'' cid (jcs (check_value c)) seq ''checks'' st1 = Inr (tx_store tx')"
    by (auto simp: record_entity_def watchd_entity_def emit_entity_def tx_defs) blast
  then obtain seq st1 where
    put: "tx_put_entity cr ''checks'' cid (jcs (check_value c)) seq ''checks'' st1 = Inr (tx_store tx')" by blast
  from put show "\<not> pending cr cid (tx_store tx')"
  proof (rule put_entity_Inr)
    fix c2 row
    assume a: "admit_body ''bad check body'' (check_of cr) (jcs (check_value c)) = Inr c2"
      and row: "row = \<lparr>cr_run = ck_run c2, cr_state = check_state_as_str (ck_state c2), cr_revision = ck_revision c2,
          cr_deadline_ms = ck_deadline_ms c2, cr_body = jcs (check_value c), cr_changed_seq = seq\<rparr>"
      and st': "tx_store tx' = st1\<lparr>st_checks := put_assoc cid row (st_checks st1),
         st_history := st_history st1 @ [((''checks'', cid, seq), jcs (check_value c))]\<rparr>"
    have "c2 = canon_check c" using check_admitted [OF a assms(2)] .
    moreover have "load_check cr cid (tx_store tx') = Inr (Some c2)"
      using a row st' by (auto simp: load_check_def load_with_def admit_body_Inr read_body_def)
    ultimately show ?thesis using assms(1) by (simp add: pending_def)
  qed simp_all
qed

lemma settles_outcomes:
  assumes "ck_clearance c = None"
  shows "settles cr (ck_id c) (finalize_stale cr dm now c)"
    "ck_state c \<noteq> CsEvaluating \<Longrightarrow> settles cr (ck_id c) (plain_outcome cr dm now c)"
    "ck_state c \<noteq> CsEvaluating \<Longrightarrow> settles cr (ck_id c) (held_outcome cr dm now c run pol cand reason)"
proof -
  have wrote: "ck_state c' \<noteq> CsEvaluating \<Longrightarrow> ck_id c' = ck_id c \<Longrightarrow> ck_clearance c' = None \<Longrightarrow>
      settles cr (ck_id c) (record_entity cr dm now kind ''checks'' (ck_id c) (check_value c') causes)" for c' kind causes
    by (rule settles_record) simp_all
  show "settles cr (ck_id c) (finalize_stale cr dm now c)"
    unfolding finalize_stale_def using assms by (intro settles_first wrote same.fol) (simp_all add: decided_check_def)
  show "settles cr (ck_id c) (plain_outcome cr dm now c)" if "ck_state c \<noteq> CsEvaluating"
    unfolding plain_outcome_def Let_def using assms that by (simp, intro settles_first wrote same.fol) simp_all
  show "settles cr (ck_id c) (held_outcome cr dm now c run pol cand reason)" if "ck_state c \<noteq> CsEvaluating"
    unfolding held_outcome_def Let_def using assms that by (simp, intro settles_later settles_first wrote same.fol) simp_all
qed

lemma settles_clear:
  assumes "ck_state c \<noteq> CsEvaluating"
  shows "settles cr (ck_id c) (clear_outcome cr dm now c run pol ob cand consume)"
proof -
  have "settles cr (ck_id c) (tbind (liftR (signed_of cr (sign_envelope cr ''clearance'' (clearance_body_value cl) kid kep sk))) (\<lambda>sv.
      let c = c\<lparr>ck_clearance := Some sv, ck_revision := ck_revision c + 1\<rparr> in
        thn (consume_review cr dm now consume)
        (thn (\<lambda>tx. record_entity cr dm now ''CheckFinalized'' ''checks'' (ck_id c) (check_value c) (clear_causes c tx) tx)
             (checks_total ''CLEAR''))))" for cl kid kep sk
  proof (cases "signed_of cr (sign_envelope cr ''clearance'' (clearance_body_value cl) kid kep sk)")
    case (Inr sv)
    let ?c = "c\<lparr>ck_clearance := Some sv, ck_revision := ck_revision c + 1\<rparr>"
    have "settles cr (ck_id ?c) (\<lambda>tx. record_entity cr dm now ''CheckFinalized'' ''checks'' (ck_id ?c) (check_value ?c) (clear_causes ?c tx) tx)"
      by (rule settles_reader [where f = "\<lambda>tx. record_entity cr dm now ''CheckFinalized'' ''checks'' (ck_id ?c)
          (check_value ?c) (clear_causes ?c tx)"], rule settles_record)
        (use assms signed_body [OF Inr] shape_clearance in simp_all)
    then have "settles cr (ck_id ?c) (thn (consume_review cr dm now consume)
        (thn (\<lambda>tx. record_entity cr dm now ''CheckFinalized'' ''checks'' (ck_id ?c) (check_value ?c) (clear_causes ?c tx) tx)
             (checks_total ''CLEAR'')))"
      by (intro settles_second settles_first same.fol)
    then show ?thesis using Inr by (simp add: settles_def tx_defs Let_def)
  qed (simp add: settles_def tx_defs)
  then show ?thesis unfolding clear_outcome_def Let_def by blast
qed

lemma settles_apply:
  assumes "ck_clearance c = None"
  shows "settles cr (ck_id c) (apply_outcome cr dm now c run pol ob outcome existing consume cand)"
proof -
  let ?id = "ck_id c"
  have plain: "settles cr ?id (plain_outcome cr dm now c')" if "ck_id c' = ?id" "ck_clearance c' = None" "ck_state c' \<noteq> CsEvaluating" for c'
    using settles_outcomes(2) [OF that(2,3)] that(1) by simp
  have held: "settles cr ?id (held_outcome cr dm now (c\<lparr>ck_state := CsHeld, ck_reason := reason\<rparr>) run pol cand reason)" for reason
    using settles_outcomes(3) [of "c\<lparr>ck_state := CsHeld, ck_reason := reason\<rparr>"] assms by simp
  have clear: "settles cr ?id (clear_outcome cr dm now (c\<lparr>ck_state := CsClear, ck_reason := ''CLEAR''\<rparr>) run pol ob cand consume)"
    using settles_clear [of "c\<lparr>ck_state := CsClear, ck_reason := ''CLEAR''\<rparr>"] by simp
  show ?thesis
    by (cases outcome) (auto simp: apply_outcome_def Let_def assms held clear intro!: plain split: option.split)
qed

lemma settles_recheck:
  assumes "ck_clearance c = None" and "load_run (ck_run c) (tx_store tx) \<noteq> Inr None"
    and "recheck cr dm now c slots tx = Inr (u, tx')"
  shows "\<not> pending cr (ck_id c) (tx_store tx')"
proof -
  have decide: "settles cr (ck_id c) (decide_check cr dm now c run pol ob slots)" for run pol ob
    unfolding decide_check_def Let_def
    using settles_apply [of "c\<lparr>ck_results := _\<rparr>"] assms(1) by (intro settling) simp
  have timeout: "settles cr (ck_id c) (record_entity cr dm now ''CheckFinalized'' ''checks'' (ck_id c)
      (check_value (decided_check CsExpired ''MONITOR_TIMEOUT'' c)) (check_causes c))"
    by (rule settles_record) (simp_all add: decided_check_def assms(1))
  note stale = settles_outcomes(1) [OF assms(1)]
  obtain run where l: "load_run (ck_run c) (tx_store tx) = Inr (Some run)"
    using assms(2,3) by (cases "load_run (ck_run c) (tx_store tx)") (auto simp: recheck_def tx_defs)
  define rest where "rest = (\<lambda>x. case x of None \<Rightarrow> ret () | Some run \<Rightarrow>
     tbind (query (\<lambda>st. ok_or (policy_get (ck_policy c) st) (audit_unavailable ''policy lost''))) (\<lambda>env.
     tbind (liftR (read_policy cr env)) (\<lambda>(_, pol).
     if rn_state run \<noteq> RsOpen \<or> rn_policy run \<noteq> ck_policy c then finalize_stale cr dm now c else
     tbind (query (observation_by_ref cr (ck_observation c))) (\<lambda>x. case x of
       None \<Rightarrow> finalize_stale cr dm now c
     | Some (_, ob) \<Rightarrow>
     if now - ob_cut_ms ob \<ge> pl_freshness_ms pol then finalize_stale cr dm now c else
     tbind (query (still_same cr run c ob)) (\<lambda>same.
     if \<not> same then finalize_stale cr dm now c else
     if now \<ge> ck_deadline_ms c \<and> None \<in> set slots then
       thn (record_entity cr dm now ''CheckFinalized'' ''checks'' (ck_id c)
              (check_value (decided_check CsExpired ''MONITOR_TIMEOUT'' c)) (check_causes c))
           (checks_total ''EXPIRED'')
     else decide_check cr dm now c run pol ob slots)))))"
  have "settles cr (ck_id c) (rest (Some run))"
    unfolding rest_def option.case by (intro settling stale decide timeout same.fol)
  moreover have "rest (Some run) tx = Inr (u, tx')"
    using assms(3) l unfolding recheck_def rest_def [symmetric] by (simp add: tbind_def query_def)
  ultimately show ?thesis by (auto simp: settles_def)
qed

text \<open>The run of a check is there: no finalization ends without a decision.\<close>

lemma run_present:
  assumes "store_typed cr st" and "map_of (st_checks st) cid = Some row" and "row_check cr cid row c"
  shows "load_run (ck_run c) st \<noteq> Inr None"
proof -
  have "typed_check cr st row"
    using assms(1,2) map_of_SomeD by (fastforce simp: store_typed_def table_ok_def list_all_iff)
  then have "ck_run c \<in> fst ` set (st_runs st)"
    using assms(3) by (auto simp: typed_check_def row_check_def)
  then show ?thesis by (auto simp: load_run_def load_with_def sbind_eq_Inr map_of_eq_None_iff split: option.splits)
qed

lemma finalize_settled:
  assumes "checks_ok cr (tx_store tx)" and "store_typed cr (tx_store tx)"
    and "finalize_check cr dm now cid slots tx = Inr (u, tx')"
  shows "\<not> pending cr cid (tx_store tx')"
proof (cases "pending cr cid (tx_store tx)")
  case False
  have "tx' = tx" if "load_check cr cid (tx_store tx) = Inr z" for z
    using that False assms(3)
    by (cases z) (auto simp: finalize_check_def tx_defs pending_def split: if_split_asm)
  then show ?thesis using False assms(3)
    by (cases "load_check cr cid (tx_store tx)") (auto simp: finalize_check_def tx_defs)
next
  case True
  then obtain c where l: "load_check cr cid (tx_store tx) = Inr (Some c)" and c: "ck_state c = CsEvaluating"
    by (auto simp: pending_def)
  obtain row where row: "map_of (st_checks (tx_store tx)) cid = Some row" "row_check cr cid row c"
    using row_load [OF assms(1) l] .
  have "ck_id c = cid" "ck_clearance c = None"
    using row(2) c by (auto simp: row_check_def check_sound_def split: option.splits)
  moreover have "recheck cr dm now c slots tx = Inr (u, tx')"
    using assms(3) l c by (simp add: finalize_check_def tx_defs)
  ultimately show ?thesis using settles_recheck run_present [OF assms(2) row] by blast
qed

end
