(* ===== verification/EventCanon.thy ===== *)
theory EventCanon
  imports Readback
begin

text \<open>
  Signed events, read back (\<open>schema.rs\<close>, \<open>events.rs\<close>). No validator of an event value sees the order of
  members, and canonical bytes are canonical: an audit row whose envelope the reader accepts reads back as
  the event that was emitted, with the digest and signature it was emitted with.
\<close>

section \<open>Canonical bytes are canonical\<close>

lemma member_le_key [simp]: "member_le (map_prod (\<lambda>k. k) f p) (map_prod (\<lambda>k. k) f q) \<longleftrightarrow> member_le p q"
  by (simp add: member_le_def)

lemma jcs_of_canon: "jcs (canon v) = jcs v"
proof (induction v rule: canon.induct)
  case (1 items)
  then show ?case by (simp cong: map_cong)
next
  case (2 ms)
  let ?ms = "sort_by member_le ms" and ?f = "\<lambda>(k, v). (k, canon v)"
  have "sorted_wrt member_le ?ms" by (rule member_order.sorted_sort_by)
  then have "sorted_wrt member_le (map ?f ?ms)"
    unfolding sorted_wrt_map by (rule sorted_wrt_mono_rel [rotated]) (auto simp: member_le_def)
  then have s: "sort_by member_le (map ?f ?ms) = map ?f ?ms" by (rule member_order.sort_by_sorted)
  have m: "map ((\<lambda>(k, v). quote k @ '':'' @ jcs v) \<circ> ?f) ?ms = map (\<lambda>(k, v). quote k @ '':'' @ jcs v) ?ms"
    using 2 by (intro map_cong) auto
  show ?case unfolding canon.simps jcs.simps s map_map m ..
qed simp_all

section \<open>Parsed values and their canonical bytes\<close>

definition text_ok :: "Value \<Rightarrow> bool" where
  "text_ok v \<longleftrightarrow> shape_ok v \<and> utf8_value v"

lemma val_ok_text: "val_ok lm k v \<Longrightarrow> text_ok v"
proof -
  have "utf8_value v" if "val_ok lm k v" for lm k v
    using that by (induction lm k v rule: val_ok.induct) (auto simp: list_all_iff)
  then show "val_ok lm k v \<Longrightarrow> text_ok v" using val_ok_shape by (simp add: text_ok_def)
qed

lemma parsed_text: "parse s lm = Inr v \<Longrightarrow> text_ok v"
proof -
  assume "parse s lm = Inr v"
  then obtain r where "p_value (parse_fuel s) lm 0 s = Inr (v, r)" by (auto simp: parse_def split: if_split_asm)
  then show "text_ok v" using parsed_ok [of "parse_fuel s"] val_ok_text by blast
qed

lemma text_parts:
  "text_ok (Obj m) \<Longrightarrow> map_of m k = Some v \<Longrightarrow> text_ok v"
  "text_ok (Arr vs) \<Longrightarrow> v \<in> set vs \<Longrightarrow> text_ok v"
  by (auto simp: text_ok_def list_all_iff dest!: map_of_SomeD)

lemma text_parses: "text_ok v \<Longrightarrow> size v \<le> n \<Longrightarrow> length (jcs v) \<le> n \<Longrightarrow>
    parse (jcs v) \<lparr>max_bytes = n, max_depth = n, max_members = n, max_array = n\<rparr> = Inr (canon v)"
  by (rule parse_canonical) (auto simp: text_ok_def intro: val_ok_large)

text \<open>Canonical bytes determine a value up to the order of members.\<close>

lemma jcs_canon:
  assumes "text_ok x" and "text_ok y" and "jcs x = jcs y"
  shows "canon x = canon y"
proof -
  let ?n = "size x + size y + length (jcs x)"
  have "Inr (canon x) = (Inr (canon y) :: PErr + Value)"
    using text_parses [OF assms(1), of ?n] text_parses [OF assms(2), of ?n] assms(3) by simp
  then show ?thesis by simp
qed

text \<open>A bound on canonical bytes that does not sort.\<close>

fun jcs_bound :: "Value \<Rightarrow> nat" where
  "jcs_bound (Num raw) = length raw"
| "jcs_bound (Str s) = 6 * length s + 2"
| "jcs_bound (Arr items) = sum_list (map (\<lambda>v. jcs_bound v + 1) items) + 2"
| "jcs_bound (Obj ms) = sum_list (map (\<lambda>m. 6 * length (fst m) + jcs_bound (snd m) + 4) ms) + 2"
| "jcs_bound v = 5"

lemma quote_bound: "length (quote s) \<le> 6 * length s + 2"
proof -
  have one: "length (escape_char c) \<le> 6" for c by (simp add: escape_char_def Let_def)
  have "length (escape_into s) \<le> 6 * length s"
  proof (induction s)
    case (Cons c s)
    then show ?case using one [of c] by (simp add: escape_into_def)
  qed (simp add: escape_into_def)
  then show ?thesis by (simp add: quote_def)
qed

lemma intercalate_bound: "length (intercalate '','' xs) \<le> sum_list (map (\<lambda>x. length x + 1) xs)"
  by (induction "'',''" xs rule: intercalate.induct) simp_all

lemma jcs_bounded: "length (jcs v) \<le> jcs_bound v"
proof (induction v rule: jcs.induct)
  case (6 items)
  have "sum_list (map (\<lambda>x. length x + 1) (map jcs items)) \<le> sum_list (map (\<lambda>v. jcs_bound v + 1) items)"
    unfolding map_map comp_def by (rule sum_list_mono) (use 6 in auto)
  then show ?case using intercalate_bound [of "map jcs items"] by simp
next
  case (7 ms)
  let ?f = "\<lambda>(k, v). quote k @ '':'' @ jcs v" and ?b = "\<lambda>m. 6 * length (fst m) + jcs_bound (snd m) + 4"
  have "sum_list (map (\<lambda>x. length x + 1) (map ?f (sort_by member_le ms))) \<le> sum_list (map ?b (sort_by member_le ms))"
    unfolding map_map comp_def
  proof (rule sum_list_mono)
    fix m assume "m \<in> set (sort_by member_le ms)"
    then have "length (jcs (snd m)) \<le> jcs_bound (snd m)" using 7 [of m "fst m" "snd m"] by simp
    then show "length (?f m) + 1 \<le> ?b m" using quote_bound [of "fst m"] by (simp add: case_prod_unfold)
  qed
  also have "\<dots> = sum_list (map ?b ms)" by (simp only: sum_mset_sum_list [symmetric] mset_map mset_sort_by)
  finally show ?case using intercalate_bound [of "map ?f (sort_by member_le ms)"] by simp
next
  case (5 s)
  then show ?case using quote_bound [of s] by simp
qed simp_all

lemma utf8_hex: "utf8_ok (hex_lower bs)"
  using hex_lower_chars [of bs] by (intro utf8_ok_ascii) (fastforce simp: list_all_iff lower_hex_def Let_def)

section \<open>Event values\<close>

lemma monitor_blind [blind_simps]: "blind monitor_of"
  by (rule blindI) (simp add: monitor_of_def blind_simps cong: if_cong)

lemma baseline_blind [blind_simps]: "blind baseline_of"
  by (rule blindI) (simp add: baseline_of_def blind_simps cong: if_cong)

lemma policy_blind [blind_simps]: "blind policy_of"
  by (rule blindI) (simp add: policy_of_def blind_simps cong: if_cong)

lemma effect_body_blind [blind_simps]: "blind effect_body_of"
  by (rule blindI) (simp add: effect_body_of_def blind_simps cong: if_cong)

lemma field_canon: "field (canon_members ms) k = map_ok canon (field ms k)"
  by (cases "map_of ms k") (simp_all add: field_def map_of_canon)

lemma fld_obj_canon: "fld (canon_members ms) k obj_of = map_ok canon_members (fld ms k obj_of)"
  by (simp add: fld_canon_any fld_map_ok)

lemma fraction_blind [blind_simps]: "blind fraction_of"
  by (rule blindI) (simp add: fraction_of_def blind_simps field_canon cong: if_cong)

lemma measures_blind [blind_simps]: "blind measures_of"
  by (rule blindI) (simp add: measures_of_def blind_simps field_canon fld_obj_canon cong: if_cong)

lemma evaluation_blind [blind_simps]: "blind evaluation_of"
  by (rule blindI) (simp add: evaluation_of_def blind_simps fld_obj_canon cong: if_cong)

lemma event_value_blind [blind_simps]: "blind (validate_event_value cr kind)"
  by (rule blindI)
    (simp add: validate_event_value_def check_with_def blind_simps blindD [OF run_blind] blindD [OF review_blind]
      blindD [OF alert_blind] blindD [OF policy_blind] blindD [OF effect_body_blind] blindD [OF evaluation_blind]
      signed_canon check_canon cong: if_cong)

lemma event_body_canon: "event_body_of cr (canon v) = map_ok (ev_value_update canon) (event_body_of cr v)"
  by (simp add: event_body_of_def blind_simps fld_canon_value map_ok_sbind blindD [OF event_value_blind])

section \<open>Audit rows\<close>

text \<open>What a reader makes of the envelope of a row.\<close>

lemma row_reads:
  assumes "valid_event_body cr body" and "shape_ok (ev_value body)"
    and "parse (au_envelope (audit_row cr cx body)) reply_limits = Inr v"
  shows "v = canon (sign_envelope cr ''audit'' (event_body_value body) (cx_key_id cx) (dec (cx_key_epoch cx)) (cx_sk cx)) \<and>
    jcs v = au_envelope (audit_row cr cx body)"
proof -
  let ?env = "sign_envelope cr ''audit'' (event_body_value body) (cx_key_id cx) (dec (cx_key_epoch cx)) (cx_sk cx)"
  have "shape_ok ?env" using assms(2) by (simp add: sign_envelope_def event_body_value_def Let_def list_all_iff)
  moreover have env: "au_envelope (audit_row cr cx body) = jcs ?env" by (simp add: audit_row_def Let_def)
  ultimately have "v = canon ?env" using parse_back assms(3) by metis
  then show ?thesis using env jcs_of_canon by simp
qed

lemma event_bodies_agree:
  assumes "event_body_of cr x = Inr a" and "event_body_of cr y = Inr b" and "canon x = canon y"
  shows "ev_prev a = ev_prev b \<and> ev_seq a = ev_seq b"
proof -
  obtain m k where m: "obj_of x = Inr m" "obj_of y = Inr k"
    using assms(1,2) by (auto simp: event_body_of_def simp del: obj_canon)
  then have "canon_members m = canon_members k" using assms(3) by (auto simp: obj_of_def ok_or_eq_Inr accessor_Some canon_members_def)
  moreover have "fld m ''prev'' hash_of = Inr (ev_prev a)" "fld k ''prev'' hash_of = Inr (ev_prev b)"
    "fld m ''seq'' u_of = Inr (ev_seq a)" "fld k ''seq'' u_of = Inr (ev_seq b)"
    using assms(1,2) m by (auto simp: event_body_of_def)
  moreover have "fld (canon_members z) ''prev'' hash_of = fld z ''prev'' hash_of"
    "fld (canon_members z) ''seq'' u_of = fld z ''seq'' u_of" for z
    by (simp_all add: fld_canon scalar_blind)
  ultimately show ?thesis by (metis sum.inject(2))
qed

end
