(* ===== verification/Server.thy ===== *)
theory Server
  imports Life EventCanon
begin

text \<open>
  The control socket (\<open>server.rs\<close>). A connection is a thread: it is counted against the caps, serves one
  request frame after the other, and is uncounted again. The caps are a state machine of the atomic steps
  of all threads in any order; the service of one connection is a function of the bytes the peer sends and
  of what the clock and the workers deliver meanwhile. Sockets, peer credentials and thread creation are
  the operating system's.
\<close>

section \<open>Connection caps\<close>

text \<open>
  Where a thread is: accepted; counted, with the total it saw; serving; refused, to be uncounted; uncounted
  in the total and still counted for its principal; gone. A thread has a principal if the peer has one.
\<close>

datatype Phase = Arrived | Counted nat | Serving | Refused | Leaving | Gone

record Conns =
  cn_total :: nat
  cn_per :: "string \<Rightarrow> nat"
  cn_threads :: "(Phase \<times> string option) list"

definition no_conns :: Conns where
  "no_conns = \<lparr>cn_total = 0, cn_per = (\<lambda>_. 0), cn_threads = []\<rparr>"

definition conn_total_max :: nat where "conn_total_max = 64"
definition conn_per_principal :: nat where "conn_per_principal = 8"

datatype ConnEvent = Accept "string option" | Advance nat

text \<open>The next atomic step of a thread.\<close>

fun conn_step :: "nat \<Rightarrow> Phase \<times> string option \<Rightarrow> Conns \<Rightarrow> Conns" where
  "conn_step i (Arrived, p) c = c\<lparr>cn_total := cn_total c + 1, cn_threads := (cn_threads c)[i := (Counted (cn_total c + 1), p)]\<rparr>"
| "conn_step i (Counted n, p) c =
    (if n > conn_total_max then c\<lparr>cn_total := cn_total c - 1, cn_threads := (cn_threads c)[i := (Gone, p)]\<rparr>
     else case p of
       None \<Rightarrow> c\<lparr>cn_threads := (cn_threads c)[i := (Serving, p)]\<rparr>
     | Some who \<Rightarrow> if cn_per c who + 1 > conn_per_principal
         then c\<lparr>cn_threads := (cn_threads c)[i := (Refused, p)]\<rparr>
         else c\<lparr>cn_per := (cn_per c)(who := cn_per c who + 1), cn_threads := (cn_threads c)[i := (Serving, p)]\<rparr>)"
| "conn_step i (Refused, p) c = c\<lparr>cn_total := cn_total c - 1, cn_threads := (cn_threads c)[i := (Gone, p)]\<rparr>"
| "conn_step i (Serving, p) c = c\<lparr>cn_total := cn_total c - 1, cn_threads := (cn_threads c)[i := (Leaving, p)]\<rparr>"
| "conn_step i (Leaving, p) c = (case p of
       None \<Rightarrow> c\<lparr>cn_threads := (cn_threads c)[i := (Gone, p)]\<rparr>
     | Some who \<Rightarrow> c\<lparr>cn_per := (cn_per c)(who := cn_per c who - 1), cn_threads := (cn_threads c)[i := (Gone, p)]\<rparr>)"
| "conn_step i (Gone, p) c = c"

fun conn_event :: "ConnEvent \<Rightarrow> Conns \<Rightarrow> Conns" where
  "conn_event (Accept p) c = c\<lparr>cn_threads := cn_threads c @ [(Arrived, p)]\<rparr>"
| "conn_event (Advance i) c = (if i < length (cn_threads c) then conn_step i (cn_threads c ! i) c else c)"

definition conns_after :: "ConnEvent list \<Rightarrow> Conns" where
  "conns_after events = fold conn_event events no_conns"

text \<open>Who is counted where.\<close>

definition tally :: "('a \<Rightarrow> bool) \<Rightarrow> 'a list \<Rightarrow> nat" where
  "tally P xs = length (filter P xs)"

lemma tally_simps [simp]: "tally P [] = 0" "tally P (x # xs) = (if P x then 1 else 0) + tally P xs"
  "tally P (xs @ ys) = tally P xs + tally P ys"
  by (simp_all add: tally_def)

lemma tally_update: "i < length xs \<Longrightarrow>
    tally P (xs[i := y]) + (if P (xs ! i) then 1 else 0) = tally P xs + (if P y then 1 else 0)"
proof (induction xs arbitrary: i)
  case (Cons x xs)
  then show ?case using Cons.IH [of "i - 1"] by (cases i) auto
qed simp

lemma tally_zero: "tally P xs = 0 \<longleftrightarrow> (\<forall>x \<in> set xs. \<not> P x)"
  by (auto simp: tally_def filter_empty_conv)

fun in_total :: "Phase \<times> string option \<Rightarrow> bool" where
  "in_total (ph, p) \<longleftrightarrow> (case ph of Counted n \<Rightarrow> True | Serving \<Rightarrow> True | Refused \<Rightarrow> True | _ \<Rightarrow> False)"

fun passed_total :: "Phase \<times> string option \<Rightarrow> bool" where
  "passed_total (ph, p) \<longleftrightarrow> (case ph of Counted n \<Rightarrow> n \<le> conn_total_max | Serving \<Rightarrow> True | Refused \<Rightarrow> True | _ \<Rightarrow> False)"

fun in_per :: "string \<Rightarrow> Phase \<times> string option \<Rightarrow> bool" where
  "in_per who (ph, p) \<longleftrightarrow> p = Some who \<and> (ph = Serving \<or> ph = Leaving)"

fun serving :: "Phase \<times> string option \<Rightarrow> bool" where
  "serving (ph, p) \<longleftrightarrow> ph = Serving"

definition conns_ok :: "Conns \<Rightarrow> bool" where
  "conns_ok c \<longleftrightarrow> cn_total c = tally in_total (cn_threads c) \<and> tally passed_total (cn_threads c) \<le> conn_total_max \<and>
     (\<forall>who. cn_per c who = tally (in_per who) (cn_threads c) \<and> cn_per c who \<le> conn_per_principal)"

lemma tally_le: "(\<And>x. P x \<Longrightarrow> Q x) \<Longrightarrow> tally P xs \<le> tally Q xs"
  by (induction xs) auto

lemma conns_okD:
  assumes "conns_ok c"
  shows "cn_total c = tally in_total (cn_threads c)" "tally passed_total (cn_threads c) \<le> conn_total_max"
    "cn_per c who = tally (in_per who) (cn_threads c)" "tally (in_per who) (cn_threads c) \<le> conn_per_principal"
  using assms unfolding conns_ok_def by (blast, blast, blast, metis)

lemma conn_step_ok:
  assumes "conns_ok c" and "i < length (cn_threads c)" and "cn_threads c ! i = (ph, p)"
  shows "conns_ok (conn_step i (ph, p) c)"
proof -
  note up = tally_update [OF assms(2), unfolded assms(3)]
  note total = up [of in_total] and passed = up [of passed_total] and per = up [of "in_per _"]
  note ok = conns_okD [OF assms(1)]
  have below: "tally passed_total (cn_threads c) \<le> cn_total c"
    unfolding ok(1) by (rule tally_le) (auto split: Phase.splits)
  show ?thesis
  proof (cases ph)
    case Arrived
    then show ?thesis using total [of "(Counted (cn_total c + 1), p)"] passed [of "(Counted (cn_total c + 1), p)"]
        per [of _ "(Counted (cn_total c + 1), p)"] ok below by (auto simp: conns_ok_def)
  next
    case (Counted n)
    show ?thesis
    proof (cases p)
      case None
      then show ?thesis using Counted total [of "(Gone, p)"] passed [of "(Gone, p)"] per [of _ "(Gone, p)"]
          total [of "(Serving, p)"] passed [of "(Serving, p)"] per [of _ "(Serving, p)"] ok by (auto simp: conns_ok_def)
    next
      case (Some who)
      then show ?thesis using Counted total [of "(Gone, p)"] passed [of "(Gone, p)"] per [of _ "(Gone, p)"]
          total [of "(Serving, p)"] passed [of "(Serving, p)"] per [of _ "(Serving, p)"]
          total [of "(Refused, p)"] passed [of "(Refused, p)"] per [of _ "(Refused, p)"] ok
        by (auto simp: conns_ok_def)
    qed
  next
    case Serving
    then show ?thesis using total [of "(Leaving, p)"] passed [of "(Leaving, p)"] per [of _ "(Leaving, p)"] ok
      by (auto simp: conns_ok_def)
  next
    case Refused
    then show ?thesis using total [of "(Gone, p)"] passed [of "(Gone, p)"] per [of _ "(Gone, p)"] ok
      by (auto simp: conns_ok_def)
  next
    case Leaving
    have "tally (in_per who) ((cn_threads c)[i := (Gone, p)]) =
        (if p = Some who then tally (in_per who) (cn_threads c) - 1 else tally (in_per who) (cn_threads c))" for who
      using per [of who "(Gone, p)"] Leaving by auto
    moreover have "tally (in_per who) (cn_threads c) - 1 \<le> conn_per_principal" for who
      using ok(4) [of who] by simp
    ultimately show ?thesis using Leaving total [of "(Gone, p)"] passed [of "(Gone, p)"] ok
      by (cases p) (auto simp: conns_ok_def)
  next
    case Gone
    then show ?thesis using assms(1) by simp
  qed
qed

lemma conns_after_ok: "conns_ok (conns_after events)"
proof -
  have "conns_ok (fold conn_event events c)" if "conns_ok c" for c
    using that
  proof (induction events arbitrary: c)
    case (Cons e events)
    have "conns_ok (conn_event e c)"
    proof (cases e)
      case (Accept p)
      then show ?thesis using conns_okD [OF Cons.prems] by (simp add: conns_ok_def)
    next
      case (Advance i)
      then show ?thesis using conn_step_ok [OF Cons.prems, of i] Cons.prems by (cases "cn_threads c ! i") simp
    qed
    then show ?case using Cons.IH by simp
  qed simp
  moreover have "conns_ok no_conns" by (simp add: conns_ok_def no_conns_def)
  ultimately show ?thesis by (simp add: conns_after_def)
qed

text \<open>
  C25. Whatever connections arrive and however their threads interleave, at most 64 are served at
  a time and at most 8 of one principal, and the counters are exactly the threads they count: none is lost
  when a connection is refused or closed.
\<close>

theorem conns_capped:
  "let c = conns_after events in
    tally serving (cn_threads c) \<le> conn_total_max \<and>
    tally (\<lambda>t. serving t \<and> snd t = Some who) (cn_threads c) \<le> conn_per_principal \<and>
    cn_total c = tally in_total (cn_threads c) \<and> cn_per c who = tally (in_per who) (cn_threads c)"
proof -
  have ok: "conns_ok (conns_after events)" by (rule conns_after_ok)
  have "tally serving ts \<le> tally passed_total ts" "tally (\<lambda>t. serving t \<and> snd t = Some who) ts \<le> tally (in_per who) ts" for ts
    by (rule tally_le, auto)+
  then show ?thesis using conns_okD [OF ok] unfolding Let_def by (meson order_trans)
qed

section \<open>Frames\<close>

definition be32 :: "nat \<Rightarrow> string" where
  "be32 n = map char_of [n div 16777216 mod 256, n div 65536 mod 256, n div 256 mod 256, n mod 256]"

fun of_be32 :: "string \<Rightarrow> nat" where
  "of_be32 [a, b, c, e] = of_char a * 16777216 + of_char b * 65536 + of_char c * 256 + of_char e"
| "of_be32 _ = 0"

definition frame :: "string \<Rightarrow> string" where
  "frame b = be32 (length b) @ b"

definition fault_reply :: "string \<Rightarrow> Fault \<Rightarrow> Value" where
  "fault_reply req_id e = Obj [(''v'', num 1), (''id'', Str req_id), (''ok'', Bool False), (''error'', fault_value e)]"

definition write_reply :: "Value \<Rightarrow> string" where
  "write_reply v = (let b = jcs v in if length b > reply_max
     then frame (jcs (fault_reply ''unknown'' (new_fault BundleLimit ''reply over bound''))) else frame b)"

section \<open>The service of a connection\<close>

record Server =
  se_daemon :: Daemon
  se_protocol_errors :: nat

text \<open>What happens around one request: the clock, and the replies of the workers before and after it.\<close>

type_synonym Around = "nat \<times> Completion list \<times> Completion list"

datatype Served = Closed Server | Answered string Server

definition protocol_error :: "Server \<Rightarrow> Server" where
  "protocol_error sv = sv\<lparr>se_protocol_errors := se_protocol_errors sv + 1\<rparr>"

definition text_member :: "(string \<times> Value) list \<Rightarrow> string \<Rightarrow> string \<Rightarrow> string" where
  "text_member m k other = (case map_of m k of Some (Str t) \<Rightarrow> t | _ \<Rightarrow> other)"

text \<open>The request of a principal: the clock advances, the timers run, the method, the timers again.\<close>

definition serve_request :: "Crypto \<Rightarrow> Platform \<Rightarrow> Principal \<Rightarrow> Around \<Rightarrow> string \<Rightarrow> string \<Rightarrow> Value \<Rightarrow> Daemon \<Rightarrow>
    Value option \<times> Daemon" where
  "serve_request cr pf p around req_id mname params dm = (case around of (now, before, after) \<Rightarrow>
     let dm1 = tick cr before (dm\<lparr>dm_now := now\<rparr>) in
     case dispatch_request cr pf \<lparr>ca_principal = p, ca_request = req_id\<rparr> mname params dm1 of
       (out, dm2) \<Rightarrow> (out, tick cr after dm2))"

definition serve_frame :: "Crypto \<Rightarrow> Platform \<Rightarrow> Principal option \<Rightarrow> Around \<Rightarrow> string \<Rightarrow> Server \<Rightarrow> Served" where
  "serve_frame cr pf peer around buf sv = (case parse buf request_limits of
     Inl _ \<Rightarrow> Closed (protocol_error sv)
   | Inr (Obj m) \<Rightarrow>
      (let req_id = text_member m ''id'' ''unknown''; mname = text_member m ''method'' [];
           params = (case map_of m ''params'' of Some v \<Rightarrow> v | None \<Rightarrow> Null)
       in if map_of m ''v'' \<noteq> Some (num 1)
          then Answered (write_reply (fault_reply req_id (new_fault UnsupportedVersion ''v must be 1''))) sv
          else case peer of
            None \<Rightarrow> Answered (write_reply (fault_reply req_id (new_fault Unauthenticated ''unknown peer''))) sv
          | Some p \<Rightarrow> (case serve_request cr pf p around req_id mname params (se_daemon sv) of
              (None, dm) \<Rightarrow> Closed (sv\<lparr>se_daemon := dm\<rparr>)
            | (Some v, dm) \<Rightarrow> Answered (write_reply v) (sv\<lparr>se_daemon := dm\<rparr>)))
   | Inr _ \<Rightarrow> Closed sv)"

text \<open>Frame after frame until the peer stops, sends a bad frame, or the process dies.\<close>

function serve_stream :: "Crypto \<Rightarrow> Platform \<Rightarrow> Principal option \<Rightarrow> (nat \<Rightarrow> Around) \<Rightarrow> nat \<Rightarrow> string \<Rightarrow> Server \<Rightarrow>
    string list \<times> Server" where
  "serve_stream cr pf peer around i bs sv =
     (if length bs < 4 then ([], sv)
      else let n = of_be32 (take 4 bs); rest = drop 4 bs
        in if n = 0 \<or> n > req_max then ([], protocol_error sv)
           else if length rest < n then ([], sv)
           else case serve_frame cr pf peer (around i) (take n rest) sv of
             Closed sv' \<Rightarrow> ([], sv')
           | Answered out sv' \<Rightarrow> (case serve_stream cr pf peer around (i + 1) (drop n rest) sv' of
               (outs, sv'') \<Rightarrow> (out # outs, sv'')))"
  by pat_completeness auto
termination by (relation "measure (\<lambda>(_, _, _, _, _, bs, _). length bs)") auto

declare serve_stream.simps [simp del]

definition peer_of :: "Daemon \<Rightarrow> nat option \<Rightarrow> Principal option" where
  "peer_of dm uid = (case uid of None \<Rightarrow> None | Some u \<Rightarrow> find (\<lambda>p. pr_uid p = u) (cf_principals (dm_cfg dm)))"

section \<open>What the service does to the daemon\<close>

text \<open>A request is four inputs of the process.\<close>

lemma serve_request_inputs:
  assumes "serve_request cr pf p around req_id mname params dm = (out, dm')"
  shows "\<exists>inputs. process_from cr pf (dm_store dm, Some dm) inputs = (dm_store dm', Some dm')"
proof -
  obtain now before after where a: "around = (now, before, after)" by (cases around)
  obtain v dm2 where d: "dispatch_request cr pf \<lparr>ca_principal = p, ca_request = req_id\<rparr> mname params
      (tick cr before (dm\<lparr>dm_now := now\<rparr>)) = (v, dm2)" by fastforce
  then have "dm' = tick cr after dm2" using assms by (simp add: serve_request_def a Let_def)
  then have "process_from cr pf (dm_store dm, Some dm)
      [IClock now, ITick before, IRequest \<lparr>ca_principal = p, ca_request = req_id\<rparr> mname params, ITick after] =
    (dm_store dm', Some dm')"
    using d by (simp add: process_from_def perform_def Let_def)
  then show ?thesis by blast
qed

lemma process_from_append: "process_from cr pf p (xs @ ys) = process_from cr pf (process_from cr pf p xs) ys"
  by (simp add: process_from_def)

definition reaches :: "Crypto \<Rightarrow> Platform \<Rightarrow> Daemon \<Rightarrow> Daemon \<Rightarrow> bool" where
  "reaches cr pf dm dm' \<longleftrightarrow> (\<exists>inputs. process_from cr pf (dm_store dm, Some dm) inputs = (dm_store dm', Some dm'))"

lemma reaches_refl: "reaches cr pf dm dm"
  unfolding reaches_def by (rule exI [of _ "[]"]) (simp add: process_from_def)

lemma reaches_trans: "reaches cr pf a b \<Longrightarrow> reaches cr pf b c \<Longrightarrow> reaches cr pf a c"
  unfolding reaches_def by (metis process_from_append)

definition server_of :: "Served \<Rightarrow> Server" where
  "server_of r = (case r of Closed sv \<Rightarrow> sv | Answered _ sv \<Rightarrow> sv)"

lemma server_of_simps [simp]: "server_of (Closed sv) = sv" "server_of (Answered out sv) = sv"
  by (simp_all add: server_of_def)

lemma serve_frame_reaches: "reaches cr pf (se_daemon sv) (se_daemon (server_of (serve_frame cr pf peer around buf sv)))"
proof -
  have "reaches cr pf (se_daemon sv) dm" if "serve_request cr pf p around rid mname params (se_daemon sv) = (out, dm)"
    for p rid mname params out dm using serve_request_inputs [OF that] by (simp add: reaches_def)
  then show ?thesis
    by (auto simp: serve_frame_def Let_def protocol_error_def reaches_refl split: sum.split Value.split option.split prod.split)
qed

lemma serve_stream_reaches: "reaches cr pf (se_daemon sv) (se_daemon (snd (serve_stream cr pf peer around i bs sv)))"
proof (induction cr pf peer around i bs sv rule: serve_stream.induct)
  case (1 cr pf peer around i bs sv)
  let ?n = "of_be32 (take 4 bs)"
  let ?r = "serve_frame cr pf peer (around i) (take ?n (drop 4 bs)) sv"
  consider (none) "length bs < 4 \<or> ?n = 0 \<or> ?n > req_max \<or> length (drop 4 bs) < ?n"
    | (some) "\<not> length bs < 4" "\<not> (?n = 0 \<or> ?n > req_max)" "\<not> length (drop 4 bs) < ?n" by blast
  then show ?case
  proof cases
    case none
    then show ?thesis
      by (subst serve_stream.simps) (auto simp: Let_def protocol_error_def reaches_refl)
  next
    case some
    show ?thesis
    proof (cases ?r)
      case (Closed sv')
      then show ?thesis using some serve_frame_reaches [of cr pf sv peer "around i" "take ?n (drop 4 bs)"]
        by (subst serve_stream.simps) (simp add: Let_def)
    next
      case (Answered out sv')
      have "reaches cr pf (se_daemon sv) (se_daemon sv')"
        using Answered serve_frame_reaches [of cr pf sv peer "around i" "take ?n (drop 4 bs)"] by simp
      then show ?thesis using some Answered 1 [OF some(1) refl refl some(2,3) Answered] reaches_trans
        by (subst serve_stream.simps) (auto simp: Let_def split: prod.split)
    qed
  qed
qed

section \<open>What the peer gets\<close>

lemma of_be32_be32: "n < 4294967296 \<Longrightarrow> of_be32 (be32 n) = n"
proof -
  assume n: "n < 4294967296"
  then have a: "n div 16777216 mod 256 = n div 16777216" by (simp add: less_mult_imp_div_less)
  have b: "n div 65536 = n div 256 div 256" "n div 16777216 = n div 65536 div 256"
    by (simp_all add: div_mult2_eq [symmetric])
  have digits: "y * 16777216 + c * 65536 + b * 256 + a = m" if "m = w * 256 + a" "w = x * 256 + b" "x = y * 256 + c"
    for m w x y a b c :: nat using that by simp
  have "n div 16777216 mod 256 * 16777216 + n div 65536 mod 256 * 65536 + n div 256 mod 256 * 256 + n mod 256 = n"
    unfolding a by (rule digits [of n "n div 256" _ "n div 65536"]) (simp_all only: b div_mult_mod_eq)
  then show ?thesis by (simp add: be32_def of_char_of a)
qed

lemma length_be32 [simp]: "length (be32 n) = 4"
  by (simp add: be32_def)

definition framed :: "string \<Rightarrow> bool" where
  "framed out \<longleftrightarrow> of_be32 (take 4 out) = length (drop 4 out) \<and> length out \<ge> 4 \<and> length (drop 4 out) \<le> reply_max"

lemma write_reply_framed: "framed (write_reply v)"
proof -
  have short: "framed (frame b)" if "length b \<le> reply_max" for b
    using that by (simp add: framed_def frame_def of_be32_be32 reply_max_def)
  let ?f = "fault_reply ''unknown'' (new_fault BundleLimit ''reply over bound'')"
  have "length (dec 1) = 1" by (simp add: dec.simps)
  then have "jcs_bound ?f \<le> reply_max"
    by (simp add: fault_reply_def fault_value_def reply_max_def num_def new_fault_def opt_value_def)
  then have "length (jcs ?f) \<le> reply_max" using jcs_bounded [of ?f] by simp
  then show ?thesis using short by (simp add: write_reply_def Let_def)
qed

text \<open>A property of every reply, and of the daemon that is left.\<close>

lemma serve_stream_replies:
  assumes "\<And>buf sv out sv' k. serve_frame cr pf peer (around k) buf sv = Answered out sv' \<Longrightarrow> P out"
  shows "list_all P (fst (serve_stream cr pf peer around i bs sv))"
proof (induction bs arbitrary: i sv rule: measure_induct_rule [of length])
  case (less bs)
  let ?n = "of_be32 (take 4 bs)"
  show ?case
  proof (cases "length bs < 4 \<or> ?n = 0 \<or> ?n > req_max \<or> length (drop 4 bs) < ?n")
    case True
    then show ?thesis by (subst serve_stream.simps) (auto simp: Let_def)
  next
    case False
    show ?thesis
    proof (cases "serve_frame cr pf peer (around i) (take ?n (drop 4 bs)) sv")
      case (Closed sv')
      then show ?thesis using False by (subst serve_stream.simps) (simp add: Let_def)
    next
      case (Answered out sv')
      have "length (drop ?n (drop 4 bs)) < length bs" using False by simp arith
      from less.IH [OF this, of "i + 1" sv'] show ?thesis using False Answered assms [OF Answered]
        by (subst serve_stream.simps) (simp add: Let_def case_prod_unfold)
    qed
  qed
qed

text \<open>
  Remark. Every reply on the socket is one frame: its first four bytes are the length of what
  follows, at most the bound of replies, whatever the result of the method.
\<close>

theorem replies_framed: "list_all framed (fst (serve_stream cr pf peer around i bs sv))"
  by (rule serve_stream_replies)
    (auto simp: serve_frame_def Let_def write_reply_framed split: sum.splits Value.splits option.splits prod.splits if_split_asm)

lemma unknown_reply: "serve_frame cr pf None a buf sv = Answered out sv' \<Longrightarrow>
    \<exists>rid e. out = write_reply (fault_reply rid e) \<and> fault_code e \<in> {UnsupportedVersion, Unauthenticated}"
proof -
  assume "serve_frame cr pf None a buf sv = Answered out sv'"
  then obtain rid code msg where "out = write_reply (fault_reply rid (new_fault code msg))" "code \<in> {UnsupportedVersion, Unauthenticated}"
    by (auto simp: serve_frame_def Let_def split: sum.splits Value.splits if_split_asm)
  then show ?thesis by (intro exI [of _ rid] exI [of _ "new_fault code msg"]) simp
qed

text \<open>
  C26. A peer that is no configured principal gets nothing done: whatever it sends, the
  daemon stays as it is, and every reply is a fault of the version or of the authentication.
\<close>

theorem unknown_peer_inert:
  "se_daemon (snd (serve_stream cr pf None around i bs sv)) = se_daemon sv \<and>
   list_all (\<lambda>out. \<exists>rid e. out = write_reply (fault_reply rid e) \<and> fault_code e \<in> {UnsupportedVersion, Unauthenticated})
     (fst (serve_stream cr pf None around i bs sv))"
proof
  have frame: "se_daemon (server_of (serve_frame cr pf None a buf sv)) = se_daemon sv" for a buf sv
    by (auto simp: serve_frame_def Let_def protocol_error_def split: sum.split Value.split)
  show "se_daemon (snd (serve_stream cr pf None around i bs sv)) = se_daemon sv"
  proof (induction bs arbitrary: i sv rule: measure_induct_rule [of length])
    case (less bs)
    let ?n = "of_be32 (take 4 bs)"
    let ?r = "serve_frame cr pf None (around i) (take ?n (drop 4 bs)) sv"
    show ?case
    proof (cases "length bs < 4 \<or> ?n = 0 \<or> ?n > req_max \<or> length (drop 4 bs) < ?n")
      case True
      then show ?thesis by (subst serve_stream.simps) (auto simp: Let_def protocol_error_def)
    next
      case False
      have "length (drop ?n (drop 4 bs)) < length bs" using False by simp arith
      note ih = less.IH [OF this, of "i + 1"]
      show ?thesis using False ih frame [of "around i" "take ?n (drop 4 bs)" sv]
        by (subst serve_stream.simps) (auto simp: Let_def case_prod_unfold split: Served.split)
    qed
  qed
  show "list_all (\<lambda>out. \<exists>rid e. out = write_reply (fault_reply rid e) \<and> fault_code e \<in> {UnsupportedVersion, Unauthenticated})
     (fst (serve_stream cr pf None around i bs sv))"
    by (rule serve_stream_replies) (rule unknown_reply)
qed

end
