(* ===== verification/SampleStart.thy ===== *)
theory SampleStart
  imports SampleHost EventCanon
begin

text \<open>
  A host that starts: a lab configuration whose signer is pinned for all four tags, and the empty store. The
  digests are 32 bytes that tell the two events of the start apart. Properties of running hosts are
  witnessed from here.
\<close>

definition start_pins :: Trust where
  "start_pins = sample_trust\<lparr>tr_keys := [\<lparr>kp_id = ''a'', kp_public_key = hex_lower (replicate 32 CHR ''p''),
     kp_tags = [''audit'', ''backup'', ''bundle'', ''clearance''], kp_subjects = [''lab''], kp_from_epoch = 1,
     kp_through_epoch = None, kp_live = True, kp_compromised = False\<rparr>]\<rparr>"

definition start_host_at :: "HostState \<Rightarrow> Host" where
  "start_host_at hs = \<lparr>ho_state = hs, ho_epoch = 1, ho_boot = sample_boot, ho_reason = None\<rparr>"

definition start_ctx :: EmitCtx where
  "start_ctx = \<lparr>cx_tenant = ''lab'', cx_epoch = 1, cx_boot = sample_boot, cx_key_id = ''a'', cx_key_epoch = 1, cx_sk = ''sk''\<rparr>"

definition zero_digest :: string where "zero_digest = hex_lower (replicate 32 CHR ''0'')"

definition started_body :: EventBody where
  "started_body = event_at start_ctx 5 ''watchd'' ''watchd'' ''HostStarted'' (host_value (start_host_at HsStarting)) [] empty_head"

definition ready_body :: EventBody where
  "ready_body = event_at start_ctx 5 ''watchd'' ''watchd'' ''HostReady'' (host_value (start_host_at HsReady)) []
     \<lparr>hd_seq = 1, hd_hash = zero_digest\<rparr>"

definition start_crypto :: Crypto where
  "start_crypto = toy_crypto\<lparr>sha256 := (\<lambda>x. replicate 32
     (if x = d_input ''audit'' (event_body_value ready_body) then CHR ''1'' else CHR ''0''))\<rparr>"

lemma host_event_valid:
  assumes "kind \<in> {''HostStarted'', ''HostReady''}" and "valid_hash (hd_hash h)" "hd_seq h < u_max"
  shows "valid_event_body cr (event_at start_ctx 5 ''watchd'' ''watchd'' kind (host_value (start_host_at hs)) [] h)"
proof -
  have v: "validate_event_value cr kind (host_value (start_host_at hs)) = Inr ()"
    using assms(1) by (elim insertE emptyE; cases hs; simp add: validate_event_value_def host_value_def start_host_at_def
      fld_some closed_eval codec_enc u_max_def opt_text_def opt_of_def)
  have k: "kind \<in> set EVENT_KINDS" using assms(1) by (auto simp: EVENT_KINDS_def)
  show ?thesis
    using assms(2,3) v k by (simp add: valid_event_body_def event_at_def start_ctx_def u_max_def set_max_def
        valid_id_def id_char_def)
qed

lemma bodies_valid: "valid_event_body cr started_body" "valid_event_body cr ready_body"
proof -
  have "valid_hash zero_digest" by (simp add: zero_digest_def valid_hash_def hex_lower_chars)
  then show "valid_event_body cr started_body" "valid_event_body cr ready_body"
    unfolding started_body_def ready_body_def by (rule_tac host_event_valid; simp add: empty_head_def u_max_def)+
qed

lemma bodies_text: "text_ok (event_body_value started_body)" "text_ok (event_body_value ready_body)"
proof -
  have boot: "utf8_ok sample_boot" "utf8_ok zero_hash" "utf8_ok zero_digest"
    by (simp_all add: sample_boot_def utf8_ok_ascii zero_hash_def list_all_iff zero_digest_def utf8_hex)
  show "text_ok (event_body_value started_body)" "text_ok (event_body_value ready_body)"
    by (simp_all add: text_ok_def event_body_value_def started_body_def ready_body_def event_at_def start_ctx_def host_value_def
        start_host_at_def empty_head_def opt_value_def boot utf8_ok_ascii digits_ascii dec_digits num_def ustr_def sort_by_def)
qed

lemma start_digests: "d start_crypto ''audit'' (event_body_value started_body) = zero_digest"
  "d start_crypto ''audit'' (event_body_value ready_body) \<noteq> zero_digest"
proof -
  have "d_input ''audit'' (event_body_value started_body) \<noteq> d_input ''audit'' (event_body_value ready_body)"
  proof
    assume "d_input ''audit'' (event_body_value started_body) = d_input ''audit'' (event_body_value ready_body)"
    then have "jcs (event_body_value started_body) = jcs (event_body_value ready_body)" by (simp add: d_input_def)
    then have "canon (event_body_value started_body) = canon (event_body_value ready_body)"
      using jcs_canon bodies_text by blast
    from event_bodies_agree [OF event_body_dec_enc [OF bodies_valid(1)] event_body_dec_enc [OF bodies_valid(2)] this]
    show False by (simp add: started_body_def ready_body_def event_at_def empty_head_def)
  qed
  then show "d start_crypto ''audit'' (event_body_value started_body) = zero_digest"
    "d start_crypto ''audit'' (event_body_value ready_body) \<noteq> zero_digest"
    by (simp_all add: d_def start_crypto_def zero_digest_def)
qed

text \<open>The two events of the start are emitted.\<close>

lemma emits_body:
  assumes "body = event_at cx now actor request kind v [] (tx_head (tx_store tx))" and "valid_event_body cr body"
    and "d cr ''audit'' (event_body_value body) \<notin> au_hash ` set (st_audit (tx_store tx))"
    and "ev_seq body \<notin> audit_seqs (tx_store tx)"
  shows "\<exists>tx'. emit cr cx now actor request kind v [] tx = Inr ((ev_seq body, d cr ''audit'' (event_body_value body)), tx') \<and>
    tx_store tx' = (tx_store tx)\<lparr>st_audit := st_audit (tx_store tx) @ [audit_row cr cx body]\<rparr>"
proof -
  have "ev_causes body = []" by (simp add: assms(1) event_at_def)
  then show ?thesis
    using assms event_body_dec_enc [OF assms(2)]
    by (auto simp: emit_def Let_def set_max_def tx_append_audit_def audit_row_def)
qed

definition started_rows :: "AuditRow list" where
  "started_rows = [audit_row start_crypto start_ctx started_body]"

definition ready_rows :: "AuditRow list" where
  "ready_rows = started_rows @ [audit_row start_crypto start_ctx ready_body]"

definition start_meta :: Store where
  "start_meta = tx_meta_set ''host_epoch'' (dec 1) empty_store"

abbreviation start_dm :: "HostState \<Rightarrow> AuditRow list \<Rightarrow> Daemon" where
  "start_dm hs rows \<equiv> (boot_daemon empty_store sample_config start_pins ''sk'' None True 5 sample_boot)
     \<lparr>dm_host := start_host_at hs, dm_store := start_meta\<lparr>st_audit := rows\<rparr>\<rparr>"

lemma start_dm_host: "emit_ctx (start_dm hs rows) = start_ctx" "dm_now (start_dm hs rows) = 5"
  by (simp_all add: emit_ctx_def start_ctx_def boot_daemon_def sample_config_def start_host_at_def)

lemma start_emits:
  assumes "body = event_at start_ctx 5 ''watchd'' ''watchd'' kind (host_value (start_host_at hs)) [] (tx_head (start_meta\<lparr>st_audit := rows\<rparr>))"
    and "valid_event_body start_crypto body" and "d start_crypto ''audit'' (event_body_value body) \<notin> au_hash ` set rows"
    and "ev_seq body \<notin> au_seq ` set rows"
  shows "commit_tx (host_event start_crypto kind (start_dm hs rows)) (start_dm hs rows) =
    Inr (start_dm hs (rows @ [audit_row start_crypto start_ctx body]))"
proof -
  have "\<exists>tx'. emit start_crypto start_ctx 5 ''watchd'' ''watchd'' kind (host_value (start_host_at hs)) [] (begin_tx (start_meta\<lparr>st_audit := rows\<rparr>)) =
      Inr ((ev_seq body, d start_crypto ''audit'' (event_body_value body)), tx') \<and>
    tx_store tx' = start_meta\<lparr>st_audit := rows @ [audit_row start_crypto start_ctx body]\<rparr>"
    using emits_body [of body start_ctx 5 "''watchd''" "''watchd''" kind _ "begin_tx (start_meta\<lparr>st_audit := rows\<rparr>)" start_crypto] assms
    by (simp add: begin_tx_def audit_seqs_def)
  then show ?thesis
    by (auto simp: commit_tx_def host_event_def watchd_event_def start_dm_host tx_defs)
qed

lemma commit_after_exec: "commit_tx (thn (exec_ok f) m) dm = commit_tx m (dm\<lparr>dm_store := f (dm_store dm)\<rparr>)"
  by (cases "m (begin_tx (f (dm_store dm)))") (auto simp: commit_tx_def tx_defs begin_tx_def)

lemma host_event_store: "host_event cr kind (dm\<lparr>dm_store := st\<rparr>) = host_event cr kind dm"
  by (simp add: host_event_def watchd_event_def emit_ctx_def)

lemma start_gates: "startup_gates cr sample_config start_pins = Inr ()" "signer_pins sample_config start_pins = Inr ()"
  "verify_artifacts cr files sample_config = Inr ()"
  by (simp_all add: startup_gates_def signer_pins_def verify_artifacts_def sample_config_def start_pins_def sample_trust_def
      require_pin_def pin_matches_def)

lemma start_heads: "tx_head (start_meta\<lparr>st_audit := []\<rparr>) = empty_head"
  "tx_head (start_meta\<lparr>st_audit := started_rows\<rparr>) = \<lparr>hd_seq = 1, hd_hash = zero_digest\<rparr>"
  by (simp_all add: tx_head_def started_rows_def audit_row_def Let_def start_digests(1))
    (simp add: started_body_def event_at_def empty_head_def)

lemma host_starts: "start_daemon start_crypto (\<lambda>_. Inl []) empty_store sample_config start_pins (Some ''sk'') None True 5 sample_boot =
    (Inr (start_dm HsReady ready_rows), start_meta\<lparr>st_audit := ready_rows\<rparr>)"
proof -
  let ?dm0 = "boot_daemon empty_store sample_config start_pins ''sk'' None True 5 sample_boot"
  have epoch: "next_epoch empty_store = 1"
    by (simp add: next_epoch_def meta_get_def empty_store_def wadd64_def)
  have meta: "start_meta\<lparr>st_audit := []\<rparr> = start_meta" by (simp add: start_meta_def tx_meta_set_def empty_store_def)
  have boot: "?dm0\<lparr>dm_store := start_meta\<rparr> = start_dm HsStarting []"
    by (simp add: boot_daemon_def start_host_at_def epoch meta)
  have one: "commit_tx (thn (exec_ok (tx_meta_set ''host_epoch'' (dec (ho_epoch (dm_host ?dm0))))) (host_event start_crypto ''HostStarted'' ?dm0)) ?dm0 =
      Inr (start_dm HsStarting started_rows)"
  proof -
    have "commit_tx (thn (exec_ok (tx_meta_set ''host_epoch'' (dec (ho_epoch (dm_host ?dm0))))) (host_event start_crypto ''HostStarted'' ?dm0)) ?dm0 =
        commit_tx (host_event start_crypto ''HostStarted'' (start_dm HsStarting [])) (start_dm HsStarting [])"
    proof -
      have m: "tx_meta_set ''host_epoch'' (dec (ho_epoch (dm_host ?dm0))) (dm_store ?dm0) = start_meta"
        by (simp add: boot_daemon_def epoch start_meta_def)
      have h: "host_event start_crypto ''HostStarted'' ?dm0 = host_event start_crypto ''HostStarted'' (start_dm HsStarting [])"
        using host_event_store [where cr = start_crypto and kind = "''HostStarted''" and dm = ?dm0 and st = start_meta]
        unfolding boot by (rule sym)
      show ?thesis unfolding commit_after_exec m boot h ..
    qed
    also have "\<dots> = Inr (start_dm HsStarting started_rows)"
      using start_emits [of started_body "''HostStarted''" HsStarting "[]"] start_heads(1) bodies_valid(1)
      by (simp add: started_body_def [symmetric] started_rows_def)
    finally show ?thesis .
  qed
  have recover: "commit_tx (recovery start_crypto (start_dm HsStarting started_rows) 5) (start_dm HsStarting started_rows) =
      Inr (start_dm HsStarting started_rows)"
    by (simp add: commit_tx_def recovery_def tx_defs entity_ids_by_state_def begin_tx_def start_meta_def tx_meta_set_def
        empty_store_def select_ids_def)
  have two: "commit_tx (host_event start_crypto ''HostReady'' (start_dm HsReady started_rows)) (start_dm HsReady started_rows) =
      Inr (start_dm HsReady ready_rows)"
  proof -
    have "ev_seq ready_body \<notin> au_seq ` set started_rows"
      by (simp add: started_rows_def audit_row_def Let_def ready_body_def started_body_def event_at_def empty_head_def)
    moreover have "d start_crypto ''audit'' (event_body_value ready_body) \<notin> au_hash ` set started_rows"
      using start_digests by (simp add: started_rows_def audit_row_def Let_def)
    moreover have "ready_body = event_at start_ctx 5 ''watchd'' ''watchd'' ''HostReady'' (host_value (start_host_at HsReady)) []
        (tx_head (start_meta\<lparr>st_audit := started_rows\<rparr>))" by (simp only: start_heads(2) ready_body_def)
    ultimately show ?thesis unfolding ready_rows_def by (intro start_emits bodies_valid)
  qed
  have now: "dm_now ?dm0 = 5" and store: "dm_store (start_dm hs rows) = start_meta\<lparr>st_audit := rows\<rparr>" for hs rows
    by (simp_all add: boot_daemon_def)
  have minimum: "(hd_seq (tx_head (start_meta\<lparr>st_audit := rows\<rparr>)) < hd_seq (tr_minimum_head (dm_trust (start_dm hs rows')))) = False" for hs rows rows'
    by (simp add: boot_daemon_def start_pins_def sample_trust_def)
  have ready: "(start_dm HsStarting rows)\<lparr>dm_host := (dm_host (start_dm HsStarting rows))\<lparr>ho_state := HsReady\<rparr>\<rparr> = start_dm HsReady rows" for rows
    by (simp add: start_host_at_def)
  show ?thesis
    by (simp only: start_daemon_def start_gates sbind_simps ok_or_simps start_host_def Let_def now one sum.case minimum if_False
        recover ready two store)
qed

end
