(* ===== verification/Trailing.thy ===== *)
theory Trailing
  imports Histories EventCanon
begin

text \<open>
  Trailing windows in every history. The append of an observation links its window in the transaction that
  inserts it, and a linked window counts as attempted: when a window is due and not attempted, no observation
  of its run supplies it. So every window the timer evaluates is missing, and no alert is ever opened.
\<close>

section \<open>Observations read back\<close>

lemma snapshot_blind [blind_simps]: "blind signal_of" "blind foreign_ref_of" "blind window_of" "blind snapshot_of"
proof -
  show w: "blind window_of" by (rule blindI) (simp add: window_of_def blind_simps cong: if_cong)
  show "blind signal_of" by (rule blindI) (simp add: signal_of_def blind_simps cong: if_cong)
  show "blind foreign_ref_of" by (rule blindI) (simp add: foreign_ref_of_def blind_simps cong: if_cong)
  show "blind snapshot_of" by (rule blindI) (simp add: snapshot_of_def blind_simps w cong: if_cong)
qed

lemma observation_blind: "blind observation_body_of"
  by (rule blindI) (simp add: observation_body_of_def blind_simps cong: if_cong)

lemma observation_reads:
  assumes "shape_ok env" and "signed_of cr env = Inr osv" and "observation_body_of (sd_body osv) = Inr b"
    and "read_observation cr (jcs env) = Inr (sv, b')"
  shows "b' = b"
proof -
  obtain v where v: "parse (jcs env) reply_limits = Inr v" "signed_of cr v = Inr sv" "observation_body_of (sd_body sv) = Inr b'"
    using assms(4) by (auto simp: read_observation_def read_body_def sbind_eq_Inr split: sum.splits)
  have "v = canon env" using parse_back [OF v(1) assms(1)] .
  then have "sd_body sv = canon (sd_body osv)" using v(2) assms(2) by (auto simp: signed_canon)
  then show ?thesis using v(3) assms(3) by (simp add: blindD [OF observation_blind])
qed

section \<open>The invariant\<close>

definition linked :: "Crypto \<Rightarrow> Store \<Rightarrow> bool" where
  "linked cr st \<longleftrightarrow> (\<forall>row sv b w. row \<in> set (st_observations st) \<longrightarrow> read_observation cr (or_envelope row) = Inr (sv, b) \<longrightarrow>
     sn_window (ob_snapshot b) = Some w \<longrightarrow> window_attempted (or_run row) (wn_start_ms w) st)"

definition unheard :: "Crypto \<Rightarrow> Store \<Rightarrow> bool" where
  "unheard cr st \<longleftrightarrow> linked cr st \<and> st_alerts st = []"

abbreviation unheard_order :: "Crypto \<Rightarrow> Tx \<Rightarrow> Tx \<Rightarrow> bool" where
  "unheard_order cr \<equiv> \<lambda>tx tx'. unheard cr (tx_store tx) \<longrightarrow> unheard cr (tx_store tx')"

lemma unheard_frame:
  "unheard cr st \<Longrightarrow> st_observations st' = st_observations st \<Longrightarrow> st_alerts st' = st_alerts st \<Longrightarrow>
    (\<And>r s. window_attempted r s st \<Longrightarrow> window_attempted r s st') \<Longrightarrow> unheard cr st'"
  unfolding unheard_def linked_def by fastforce

text \<open>What stays: the tables of observations, windows and alerts.\<close>

abbreviation still :: "Tx \<Rightarrow> Tx \<Rightarrow> bool" where
  "still \<equiv> \<lambda>tx tx'. st_observations (tx_store tx') = st_observations (tx_store tx) \<and>
     st_windows (tx_store tx') = st_windows (tx_store tx) \<and> st_alerts (tx_store tx') = st_alerts (tx_store tx)"

lemma still_emit: "emit cr cx now actor request kind v causes tx = Inr (r, tx') \<Longrightarrow> still tx tx'"
  by (drule emit_frame) auto

lemma still_entity:
  assumes "table \<noteq> ''alerts''" and "emit_entity cr cx now actor request kind table eid v causes tx = Inr (r, tx')"
  shows "still tx tx'"
proof -
  obtain seq dg tx1 where e: "emit cr cx now actor request kind v causes tx = Inr ((seq, dg), tx1)"
    and put: "tx_put_entity cr table eid (jcs v) seq table (tx_store tx1) = Inr (tx_store tx')"
    using assms(2) by (auto simp: emit_entity_def tx_defs)
  from put have "still tx1 tx'" by (rule put_entity_Inr) (use assms(1) in simp_all)
  then show ?thesis using still_emit [OF e] by simp
qed

lemma still_unheard: "still tx tx' \<Longrightarrow> unheard_order cr tx tx'"
  by (auto intro: unheard_frame simp: window_attempted_def)

lemma put_window: "window_attempted r s (tx_window_put rid start c st) \<longleftrightarrow> (r = rid \<and> s = start) \<or> window_attempted r s st"
  by (auto simp: window_attempted_def tx_window_put_def fst_put_assoc)

lemma stmt_windows: "stmt st st' \<Longrightarrow> window_attempted r s st \<Longrightarrow> window_attempted r s st'"
  by (induction rule: stmt.induct)
    (auto simp: window_attempted_def fst_put_assoc tx_meta_set_def tx_insert_observation_def tx_action_put_def
      tx_effect_insert_def tx_idem_put_def tx_policy_put_def tx_evaluation_put_def tx_object_put_def tx_outbox_put_def
      tx_outbox_delete_def tx_slot_put_def tx_window_put_def split: if_split_asm option.splits)

interpretation quiet: decision_order cr "unheard_order cr" for cr
proof
  show "unheard_order cr tx (tx\<lparr>tx_store := st\<rparr>)"
    if "stmt (tx_store tx) st" "st_observations st = st_observations (tx_store tx)" for tx st
    using that stmt_frame [OF that(1)] stmt_windows [OF that(1)] by (auto intro: unheard_frame)
  show "unheard_order cr tx tx'" if "emit cr cx now actor request kind v causes tx = Inr (r, tx')"
    for cx now actor request kind v causes tx r tx'
    by (rule still_unheard [OF still_emit [OF that]])
  show "unheard_order cr tx tx'" if "emit_entity cr cx now actor request kind ''checks'' eid v causes tx = Inr (r, tx')"
    for cx now actor request kind eid v causes tx r tx'
    by (rule still_unheard [OF still_entity [OF _ that]]) simp
  show "unheard_order cr tx tx'" if "table \<notin> {''checks'', ''alerts''}"
    "emit_entity cr cx now actor request kind table eid v causes tx = Inr (r, tx')"
    for table cx now actor request kind eid v causes tx r tx'
    by (rule still_unheard [OF still_entity [OF _ that(2)]]) (use that(1) in simp)
qed blast+

section \<open>The append links its window\<close>

lemma accept_follows:
  assumes "shape_ok env" and "signed_of cr env = Inr osv" and "observation_body_of (sd_body osv) = Inr b"
  shows "mfollows (unheard_order cr) (accept_tx cr ca osv b (jcs env) run)"
  unfolding accept_tx_def
proof (intro mfollows_of_tx followsI impI)
  fix dm now tx x tx'
  let ?rid = "rn_id run" and ?w = "sn_window (ob_snapshot b)"
  let ?row = "\<lparr>or_run = ?rid, or_source = ob_source b, or_epoch = ob_epoch b, or_seq = ob_seq b, or_digest = sd_digest osv,
    or_envelope = jcs env\<rparr>"
  assume u: "unheard cr (tx_store tx)"
    and run: "thn (exec (tx_insert_observation ?rid (ob_source b) (ob_epoch b) (ob_seq b) (sd_digest osv) (jcs env)))
      (thn (link_window ?rid ?w) (thn (caller_entity cr dm now ca ''ObservationAccepted'' ''runs'' ?rid (run_value run) [sd_digest osv])
      (ret (MOk (append_reply True run))))) tx = Inr (x, tx')"
  obtain st tx2 where ins: "tx_insert_observation ?rid (ob_source b) (ob_epoch b) (ob_seq b) (sd_digest osv) (jcs env) (tx_store tx) = Inr st"
    and link: "link_window ?rid ?w (tx\<lparr>tx_store := st\<rparr>) = Inr ((), tx2)"
    and rest: "thn (caller_entity cr dm now ca ''ObservationAccepted'' ''runs'' ?rid (run_value run) [sd_digest osv])
      (ret (MOk (append_reply True run))) tx2 = Inr (x, tx')"
    using run by (auto simp: tx_defs sbind_eq_Inr split: sum.splits)
  have st: "st = (tx_store tx)\<lparr>st_observations := st_observations (tx_store tx) @ [?row]\<rparr>"
    using ins by (auto simp: tx_insert_observation_def split: if_split_asm)
  have obs: "st_observations (tx_store tx2) = st_observations st" and al: "st_alerts (tx_store tx2) = st_alerts st"
    using link by (auto simp: link_window_def tx_defs tx_window_put_def split: option.splits if_split_asm)
  have win: "window_attempted r s st \<Longrightarrow> window_attempted r s (tx_store tx2)"
    "?w = Some w \<Longrightarrow> window_attempted ?rid (wn_start_ms w) (tx_store tx2)" for r s w
    using link by (auto simp: link_window_def tx_defs put_window split: option.splits if_split_asm)
  have "linked cr (tx_store tx2)"
    unfolding linked_def
  proof (intro allI impI)
    fix row sv b' w
    assume row: "row \<in> set (st_observations (tx_store tx2))" and rd: "read_observation cr (or_envelope row) = Inr (sv, b')"
      and w: "sn_window (ob_snapshot b') = Some w"
    show "window_attempted (or_run row) (wn_start_ms w) (tx_store tx2)"
    proof (cases "row = ?row")
      case True
      then have "b' = b" using observation_reads [OF assms] rd by simp
      then show ?thesis using w win(2) True by simp
    next
      case False
      then have "row \<in> set (st_observations (tx_store tx))" using row unfolding obs st by simp
      then have "window_attempted (or_run row) (wn_start_ms w) (tx_store tx)" using u rd w by (auto simp: unheard_def linked_def)
      then show ?thesis by (intro win(1)) (simp add: st window_attempted_def)
    qed
  qed
  then have "unheard cr (tx_store tx2)" using u al by (simp add: unheard_def st)
  moreover have "still tx2 tx'"
    using rest by (auto simp: caller_entity_def tx_defs dest!: still_entity [rotated])
  ultimately show "unheard cr (tx_store tx')" using still_unheard by blast
qed

section \<open>A due window is missing\<close>

lemma scan_none:
  "(\<And>row sv b. row \<in> set rows \<Longrightarrow> read_observation cr (or_envelope row) = Inr (sv, b) \<Longrightarrow> window_at start b = None) \<Longrightarrow>
    scan_counts cr start found rows = Inr x \<Longrightarrow> x = found"
proof (induction rows)
  case (Cons row rows)
  then obtain sv b where r: "read_observation cr (or_envelope row) = Inr (sv, b)" by (auto simp: sbind_eq_Inr)
  then have "window_at start b = None" using Cons.prems(1) [OF _ r] by simp
  then have "scan_counts cr start found rows = Inr x" using Cons.prems(2) r by simp
  with Cons.prems(1) show ?case by (intro Cons.IH) auto
qed simp

lemma supplied_none:
  assumes "unheard cr st" and "\<not> window_attempted rid start st" and "supplied_counts cr rid start st = Inr x"
  shows "x = None"
proof -
  have "window_counts rid start st = None"
    using assms(2) by (simp add: window_counts_def window_attempted_def map_of_eq_None_iff)
  then have "scan_counts cr start None (sort_by obs_before (run_observations rid st)) = Inr x"
    using assms(3) by (simp add: supplied_counts_def linked_counts_def)
  moreover have "window_at start b = None"
    if "row \<in> set (sort_by obs_before (run_observations rid st))" "read_observation cr (or_envelope row) = Inr (sv, b)" for row sv b
  proof (rule ccontr)
    assume "window_at start b \<noteq> None"
    then obtain w where "sn_window (ob_snapshot b) = Some w" "wn_start_ms w = start"
      by (auto simp: window_at_def split: option.splits if_split_asm)
    moreover have "row \<in> set (st_observations st)" "or_run row = rid" using that(1) by (auto simp: run_observations_def)
    ultimately show False using assms(1,2) that(2) by (auto simp: unheard_def linked_def)
  qed
  ultimately show ?thesis using scan_none by blast
qed

text \<open>What a missing window does to the alerts and to the other windows.\<close>

lemma missing_results:
  assumes "trailing_results cr pol run start None newest st = Inr rs" and "r \<in> set rs"
  shows "rs_verdict r = VUnavailable \<and> rs_reason r = ''WINDOW_MISSING''"
proof -
  obtain rs0 where "mapR (\<lambda>m. trailing_result cr pol run start None newest m st)
      (filter (\<lambda>m. mo_mode m = ''trailing'') (pl_monitors pol)) = Inr rs0" and "r \<in> set rs0"
    using assms by (auto simp: trailing_results_def sbind_eq_Inr)
  then obtain m where "trailing_result cr pol run start None newest m st = Inr r" by (rule mapR_set)
  then show ?thesis by (auto simp: trailing_result_def)
qed

lemma no_results: "(\<And>r. r \<in> set rs \<Longrightarrow> rs_verdict r \<noteq> VFlag) \<Longrightarrow>
    forT (window_result cr dm now rid run pol ev False) rs tx = Inr (x, tx') \<Longrightarrow> tx' = tx"
proof (induction rs)
  case (Cons r rs)
  have "window_result cr dm now rid run pol ev False r = ret ()" using Cons.prems(1) by (simp add: window_result_def)
  then show ?case using Cons by (simp add: tx_defs)
qed (simp add: tx_defs)

lemma no_episode: "st_alerts (tx_store tx) = [] \<Longrightarrow> resolve_episode_if_active cr dm now rid mid bid tx = Inr (x, tx') \<Longrightarrow> tx' = tx"
  by (simp add: resolve_episode_if_active_def active_episode_def tx_defs)

lemma no_drift: "st_alerts (tx_store tx) = [] \<Longrightarrow> leave_drift cr dm now rid pol prior nxt tx = Inr (x, tx') \<Longrightarrow> tx' = tx"
  using no_episode by (auto simp: leave_drift_def tx_defs split: if_split_asm option.splits)

lemma still_events:
  "watchd_event cr dm now kind v causes tx = Inr (y, tx') \<Longrightarrow> still tx tx'"
  "update_drift cr dm now rid run drift tx = Inr (z, tx') \<Longrightarrow> still tx tx'"
  by (auto simp: watchd_event_def update_drift_def record_entity_def watchd_entity_def tx_defs Let_def
      dest: still_emit still_entity [rotated] split: if_split_asm)

definition misses :: "string \<Rightarrow> nat \<Rightarrow> Tx \<Rightarrow> Tx \<Rightarrow> bool" where
  "misses rid start tx tx' \<longleftrightarrow> st_observations (tx_store tx') = st_observations (tx_store tx) \<and>
     st_alerts (tx_store tx') = st_alerts (tx_store tx) \<and>
     (\<forall>r s. window_attempted r s (tx_store tx') \<longleftrightarrow> (r = rid \<and> s = start) \<or> window_attempted r s (tx_store tx))"

lemma attempt_misses: "attempt_window rid start None tx = Inr (x, tx') \<Longrightarrow> misses rid start tx tx'"
  by (auto simp: attempt_window_def tx_defs misses_def put_window) (simp_all add: tx_window_put_def)

lemma evaluate_misses:
  assumes "unheard cr (tx_store tx)" and "\<not> window_attempted rid start (tx_store tx)"
    and "evaluate_window cr dm now rid start run pol tx = Inr (x, tx')"
  shows "misses rid start tx tx'"
proof -
  obtain supplied where s: "supplied_counts cr rid start (tx_store tx) = Inr supplied"
    using assms(3) by (auto simp: evaluate_window_def tx_defs sbind_eq_Inr)
  have "supplied = None" using supplied_none [OF assms(1,2) s] .
  then obtain rs newest tx1 tx2 tx3 nrun y where rs: "trailing_results cr pol run start None newest (tx_store tx) = Inr rs"
    and a: "attempt_window rid start None tx = Inr ((), tx1)"
    and e: "watchd_event cr dm now ''TrailingEvaluated'' (trailing_value rid start None rs) [] tx1 = Inr (y, tx2)"
    and d: "update_drift cr dm now rid run (drift_step (rn_drift run) start WMissing pol) tx2 = Inr (nrun, tx3)"
    and l: "thn (forT (window_result cr dm now rid nrun pol newest False) rs)
      (leave_drift cr dm now rid pol (rn_drift run) (drift_step (rn_drift run) start WMissing pol)) tx3 = Inr (x, tx')"
    using assms(3) s by (auto simp: evaluate_window_def tx_defs sbind_eq_Inr window_input_def Let_def)
  obtain tx4 where f: "forT (window_result cr dm now rid nrun pol newest False) rs tx3 = Inr ((), tx4)"
    and v: "leave_drift cr dm now rid pol (rn_drift run) (drift_step (rn_drift run) start WMissing pol) tx4 = Inr (x, tx')"
    using l by (auto simp: tx_defs sbind_eq_Inr)
  have m: "misses rid start tx tx1" using attempt_misses [OF a] .
  have s3: "still tx1 tx3" using still_events(1) [OF e] still_events(2) [OF d] by simp
  have "tx4 = tx3" using no_results [OF _ f] missing_results [OF rs] by fastforce
  moreover have "st_alerts (tx_store tx3) = []" using m s3 assms(1) by (simp add: misses_def unheard_def)
  ultimately have "tx' = tx3" using no_drift v by blast
  then show ?thesis using m s3 by (auto simp: misses_def window_attempted_def)
qed

lemma process_misses:
  assumes "unheard cr (tx_store tx)" and "\<not> window_attempted rid start (tx_store tx)"
    and "process_one_window cr dm now rid start tx = Inr (x, tx')"
  shows "tx' = tx \<or> misses rid start tx tx'"
  using assms(3) evaluate_misses [OF assms(1,2)]
  by (auto simp: process_one_window_def tx_defs sbind_eq_Inr split: option.splits if_split_asm)

lemma windows_unheard:
  "distinct due \<Longrightarrow> (\<And>s. s \<in> set due \<Longrightarrow> \<not> window_attempted rid s (tx_store tx)) \<Longrightarrow> unheard cr (tx_store tx) \<Longrightarrow>
    forT (process_one_window cr dm now rid) due tx = Inr (x, tx') \<Longrightarrow> unheard cr (tx_store tx')"
proof (induction due arbitrary: tx)
  case (Cons start due)
  obtain tx1 where p: "process_one_window cr dm now rid start tx = Inr ((), tx1)"
    and rest: "forT (process_one_window cr dm now rid) due tx1 = Inr (x, tx')"
    using Cons.prems(4) by (auto simp: tx_defs sbind_eq_Inr)
  have m: "tx1 = tx \<or> misses rid start tx tx1" using process_misses [OF Cons.prems(3) _ p] Cons.prems(2) by simp
  have "unheard cr (tx_store tx1)" using m Cons.prems(3) by (auto simp: misses_def intro: unheard_frame)
  moreover have "\<not> window_attempted rid s (tx_store tx1)" if "s \<in> set due" for s
    using m that Cons.prems(1,2) by (auto simp: misses_def)
  ultimately show ?case using Cons.IH [OF _ _ _ rest] Cons.prems(1) by simp
qed (simp add: tx_defs)

lemma due_fresh:
  "distinct due \<Longrightarrow> (\<And>s. s \<in> set due \<Longrightarrow> s < start \<and> \<not> attempted s) \<Longrightarrow>
    distinct (due_windows attempted now start due) \<and> (\<forall>s \<in> set (due_windows attempted now start due). \<not> attempted s)"
proof (induction attempted now start due rule: due_windows.induct)
  case (1 attempted now start due)
  let ?due = "if attempted start then due else due @ [start]"
  have d: "distinct ?due" "\<And>s. s \<in> set ?due \<Longrightarrow> s < start + window_ms \<and> \<not> attempted s"
    using "1.prems" by (auto simp: window_ms_def split: if_split_asm) fastforce+
  show ?case
  proof (cases "start + (window_ms + window_due_ms) \<le> now \<and> \<not> length ?due > 4096")
    case True
    then have "due_windows attempted now start due = due_windows attempted now (start + window_ms) ?due"
      by (subst due_windows.simps) (simp add: Let_def)
    moreover have "distinct (due_windows attempted now (start + window_ms) ?due) \<and>
        (\<forall>s \<in> set (due_windows attempted now (start + window_ms) ?due). \<not> attempted s)"
    proof (rule "1.IH" [OF _ refl])
      show "start + (window_ms + window_due_ms) \<le> now" "\<not> 4096 < length ?due" using True by blast+
      show "distinct ?due" by (rule d(1))
      show "s < start + window_ms \<and> \<not> attempted s" if "s \<in> set ?due" for s using that by (rule d(2))
    qed
    ultimately show ?thesis by presburger
  next
    case False
    then consider (a) "due_windows attempted now start due = ?due" | (b) "due_windows attempted now start due = due"
      by (cases "start + (window_ms + window_due_ms) \<le> now") (simp_all add: due_windows.simps [of attempted now start due] Let_def)
    then show ?thesis
    proof cases
      case a
      show ?thesis unfolding a using d by blast
    next
      case b
      show ?thesis unfolding b using "1.prems" by blast
    qed
  qed
qed

section \<open>Every history\<close>

interpretation quiet: host_order cr "unheard_order cr" for cr
proof
  show "unheard_order cr (begin_tx st) tx'"
    if "forT (process_one_window cr dm now rid) (due_windows (\<lambda>s. window_attempted rid s st) now start []) (begin_tx st) = Inr (x, tx')"
    for dm now rid st start x tx'
  proof (intro impI windows_unheard [OF _ _ _ that])
    have "distinct (due_windows (\<lambda>s. window_attempted rid s st) now start []) \<and>
        (\<forall>s \<in> set (due_windows (\<lambda>s. window_attempted rid s st) now start []). \<not> window_attempted rid s st)"
      by (rule due_fresh) simp_all
    then show "distinct (due_windows (\<lambda>s. window_attempted rid s st) now start [])"
      "\<And>s. s \<in> set (due_windows (\<lambda>s. window_attempted rid s st) now start []) \<Longrightarrow>
        \<not> window_attempted rid s (tx_store (begin_tx st))" by (simp_all add: begin_tx_def)
  qed
  show "unheard_order cr (begin_tx (dm_store dm)) tx'" if "load_alert aid (dm_store dm) = Inr (Some a)"
    for aid dm a tx'
    using that by (auto simp: unheard_def begin_tx_def load_alert_def load_with_def)
qed (rule quiet.host_facts; assumption)+

lemma yields_bound: "(\<And>x. s = Inr x \<Longrightarrow> yields P (f x)) \<Longrightarrow> yields P (sbind s f)"
  by (cases s) (simp_all add: yields_def)

lemma shape_member: "shape_ok params \<Longrightarrow> arg params k Inr = Inr env \<Longrightarrow> shape_ok env"
  by (auto simp: arg_def q_def map_err_eq_Inr sbind_eq_Inr member_of_def ok_or_eq_Inr value_get_def mget_def list_all_iff
      split: Value.splits dest!: map_of_SomeD)

lemma append_unheard: "shape_ok params \<Longrightarrow> appends cr (unheard_order cr) params"
  unfolding appends_def observations_append_def sequence_admission_def window_admission_def counter_admission_def
  by (intro allI quiet.handle_commits yields_bound yields_divert yields_intro quiet.mfollows_runs accept_follows)
    (auto simp: shape_member q_def as_code_def map_err_eq_Inr)

lemma commits_unheard: "commits (unheard_order cr) st st' \<Longrightarrow> unheard cr st \<Longrightarrow> unheard cr st'"
  by (induction rule: rtranclp_induct) (auto simp: commit_step_def begin_tx_def)

lemma after_unheard:
  assumes "\<forall>ca mname params. IRequest ca mname params \<in> set xs \<longrightarrow> shape_ok params"
  shows "unheard cr (store_after cr pf xs)"
proof -
  have "commits (unheard_order cr) empty_store (store_after cr pf xs)"
    using quiet.processes_commits [of "(empty_store, None)" xs cr pf] append_unheard assms
    by (auto simp: store_after_def coherent_def)
  then show ?thesis by (rule commits_unheard) (simp add: unheard_def linked_def empty_store_def)
qed

end
