(* ===== verification/Guarantees.thy ===== *)
theory Guarantees
  imports Retry Settled Server SampleStart Trailing
begin

text \<open>
  What the host guarantees in every history of starts, requests, ticks, injected faults, crashes and
  restarts from an empty store, and what a request or timer does to the store when something fails.
\<close>

section \<open>Every history\<close>

text \<open>
  C3. In every history the audit table is one chain: numbered from one without gaps, each
  row an admissible event body with its canonical bytes, its digest and its envelope, linked to the
  digest of the row before it, no digest twice; and the current body of every run, check, review and
  alert is the last version of it in the history table.
\<close>

theorem history_sound: "audit_ok cr (store_after cr pf inputs) \<and> history_ok (store_after cr pf inputs)"
  using after_sound by (simp add: sound_history_def)

text \<open>
  C6. The past is immutable: whatever happens after a store \<open>xs\<close> reached, the later audit
  table extends the earlier one, a read of any entity at the earlier head returns its body of then, and
  a page listed at any earlier cut is the same page.
\<close>

theorem history_kept:
  "let st = store_after cr pf xs; st' = store_after cr pf (xs @ ys); head = hd_seq (tx_head st) in
    (\<exists>rows. st_audit st' = st_audit st @ rows) \<and>
    list_all (\<lambda>table. get_entity_at table eid (Some head) st' = get_entity_body table eid st) entity_tables \<and>
    list_at entity run after (min c head) limit st' = list_at entity run after (min c head) limit st"
proof -
  let ?st = "store_after cr pf xs" and ?st' = "store_after cr pf (xs @ ys)"
  have w: "commits (writes cr) ?st ?st'" by (rule writes.after_commits)
  have ok: "sound_history cr ?st" by (rule after_sound)
  show ?thesis
    using commits_extend [OF w] commits_past [OF w ok order_refl] ok
      commits_past [OF w ok, of "min c (hd_seq (tx_head ?st))"]
    by (simp add: list_all_iff sound_history_def history_ok_def Let_def)
qed


text \<open>
  C2. A check is decided at most once and for good: from any point of a history to
  any later one every check keeps its row, unless it was EVALUATING; then it may have moved, in one step of
  its revision, to a decided state, with the run, intent, observation, policy and times it was created with.
\<close>

theorem checks_decided_once: "checks_kept cr (store_after cr pf xs) (store_after cr pf (xs @ ys))"
  using commits_checks [OF checks.after_commits checks_after] by blast

text \<open>
  C1. No unsupported clearance: in every history a stored check holds a clearance exactly
  when it is CLEAR; that clearance names the check and its intent, policy and observation, and the recorded
  results are all clear, or clear and uncertain under a supplied review.
\<close>

theorem clear_checks_sound: "checks_ok cr (store_after cr pf inputs)"
  by (rule checks_after)



section \<open>Every connection\<close>

text \<open>
  C4. The control socket adds nothing: whatever bytes any peer sends to a running host, and
  whatever clocks and worker replies come between the frames, the store it leaves is the store of a
  history of inputs that continues the one before; so its chain and its versions are sound, its
  clearances are supported, its rows have their types and every decided check is what it was.
\<close>

theorem served_history:
  assumes "process_from cr pf (empty_store, None) xs = (st, Some (se_daemon sv))"
  shows "let st' = dm_store (se_daemon (snd (serve_stream cr pf peer around i bs sv))) in
    (\<exists>ys. store_after cr pf (xs @ ys) = st') \<and> audit_ok cr st' \<and> history_ok st' \<and> checks_ok cr st' \<and>
    store_typed cr st' \<and> checks_kept cr st st'"
proof -
  let ?dm' = "se_daemon (snd (serve_stream cr pf peer around i bs sv))"
  have "coherent (process_from cr pf (empty_store, None) xs)"
    using writes.process_commits [of "(empty_store, None)"] by (simp add: coherent_def)
  then have st: "st = dm_store (se_daemon sv)" "store_after cr pf xs = st" using assms by (simp_all add: coherent_def store_after_def)
  obtain ys where "process_from cr pf (st, Some (se_daemon sv)) ys = (dm_store ?dm', Some ?dm')"
    using serve_stream_reaches [where cr = cr and pf = pf and sv = sv and peer = peer and around = around and i = i and bs = bs] unfolding reaches_def st(1) by blast
  then have after: "store_after cr pf (xs @ ys) = dm_store ?dm'"
    using assms by (simp add: store_after_def process_from_append)
  then show ?thesis
    using after_sound [of cr pf "xs @ ys"] checks_after [of cr pf "xs @ ys"] typed_after [of cr pf "xs @ ys"]
      commits_checks [OF checks.after_commits [where cr = cr and pf = pf and xs = xs and ys = ys] checks_after] st(2)
    by (auto simp: Let_def sound_history_def)
qed

text \<open>A host that started, and a connection of an unknown peer.\<close>

definition start_inputs :: "Input list" where
  "start_inputs = [IStart (\<lambda>_. Inl []) sample_config start_pins (Some ''sk'') None True 5 sample_boot]"

lemma sample_process: "process_from start_crypto sample_platform (empty_store, None) start_inputs =
    (start_meta\<lparr>st_audit := ready_rows\<rparr>, Some (start_dm HsReady ready_rows))"
  by (simp only: start_inputs_def process_from_def fold_simps perform_def prod.case Input.case host_starts sum.case)

theorem served_history_witness:
  "\<exists>ys. store_after start_crypto sample_platform (start_inputs @ ys) =
    dm_store (se_daemon (snd (serve_stream start_crypto sample_platform (Some (hd (cf_principals sample_config))) (\<lambda>_. (9, [], [])) 0
      (frame (jcs (Obj [(''v'', num 1), (''id'', Str ''r1''), (''method'', Str ''system.status''), (''params'', Obj [])])))
      \<lparr>se_daemon = start_dm HsReady ready_rows, se_protocol_errors = 0\<rparr>)))"
proof -
  have "process_from start_crypto sample_platform (empty_store, None) start_inputs =
      (start_meta\<lparr>st_audit := ready_rows\<rparr>, Some (se_daemon \<lparr>se_daemon = start_dm HsReady ready_rows, se_protocol_errors = 0\<rparr>))"
    using sample_process by simp
  from served_history [OF this] show ?thesis unfolding Let_def by blast
qed

text \<open>
  C11. Trailing monitors never see a count: in every history of admissible requests the window of
  every observation a run has appended is attempted, so that a window that is due and not attempted is supplied
  by no observation. Every trailing result is then WINDOW_MISSING and unavailable, and no alert is ever opened.
\<close>

theorem trailing_blind:
  assumes "\<forall>ca mname params. IRequest ca mname params \<in> set inputs \<longrightarrow> shape_ok params"
  shows "let st = store_after cr pf inputs in st_alerts st = [] \<and>
    (\<forall>rid now start s supplied. s \<in> set (due_windows (\<lambda>s. window_attempted rid s st) now start []) \<longrightarrow>
       supplied_counts cr rid s st = Inr supplied \<longrightarrow> supplied = None \<and>
       (\<forall>pol run newest rs. trailing_results cr pol run s supplied newest st = Inr rs \<longrightarrow>
          (\<forall>r \<in> set rs. rs_verdict r = VUnavailable \<and> rs_reason r = ''WINDOW_MISSING'')))"
proof -
  let ?st = "store_after cr pf inputs"
  have u: "unheard cr ?st" using assms by (rule after_unheard)
  have fresh: "\<not> window_attempted rid s ?st" if "s \<in> set (due_windows (\<lambda>s. window_attempted rid s ?st) now start [])"
    for rid now start s using that due_fresh [of "[]" start "\<lambda>s. window_attempted rid s ?st" now] by simp
  have "supplied = None" if "s \<in> set (due_windows (\<lambda>s. window_attempted rid s ?st) now start [])"
    "supplied_counts cr rid s ?st = Inr supplied" for rid now start s supplied
    using supplied_none [OF u fresh [OF that(1)] that(2)] .
  then show ?thesis using u missing_results unfolding Let_def unheard_def by blast
qed

theorem trailing_blind_witness:
  "st_alerts (store_after start_crypto sample_platform
    (start_inputs @ [IRequest sample_caller ''system.status'' (Obj []), ITick []])) = []"
  using trailing_blind [of "start_inputs @ [IRequest sample_caller ''system.status'' (Obj []), ITick []]" start_crypto sample_platform]
  by (simp add: start_inputs_def Let_def)

section \<open>Failures\<close>


text \<open>A step that changes nothing durable while the audit table cannot be written.\<close>

definition stops :: "(Daemon \<Rightarrow> Daemon) \<Rightarrow> bool" where
  "stops h \<longleftrightarrow> (\<forall>dm. dm_audit_fail dm \<longrightarrow> dm_audit_fail (h dm) \<and> dm_store (h dm) = dm_store dm)"

lemma stopsD: "stops h \<Longrightarrow> dm_audit_fail dm \<Longrightarrow> dm_audit_fail (h dm) \<and> dm_store (h dm) = dm_store dm"
  by (simp add: stops_def)

lemma stops_comp: "stops g \<Longrightarrow> stops h \<Longrightarrow> stops (\<lambda>dm. g (h dm))"
  by (simp add: stops_def)

lemma stops_fold: "(\<And>x. stops (h x)) \<Longrightarrow> stops (fold h xs)"
  by (induction xs) (simp_all add: stops_def)

lemma mutate_stopped: "dm_audit_fail dm \<Longrightarrow> mutate now f dm = (None, set_host HsFaulted (Some ''audit write failure'') dm)"
  by (simp add: mutate_def)

lemma timer_stops: "stops (timer now f)"
  by (simp add: stops_def timer_def mutate_stopped set_host_def)

lemma runs_stop: "stops (tick_run_silence cr now)" "stops (tick_review_due cr now)" "stops (tick_lease_expiry cr now)"
    "stops (tick_wake cr now)" "stops (tick_outbox now)" "stops (process_windows cr rid now)"
  using timer_stops
  by (auto simp: stops_def tick_run_silence_def tick_review_due_def tick_lease_expiry_def tick_wake_def tick_outbox_def
      process_windows_def mutate_stopped set_host_def Let_def split: sum.splits)

lemma finalize_stops: "stops (maybe_finalize_check cr cid now)"
  using timer_stops
  by (auto simp: stops_def maybe_finalize_check_def Let_def split: sum.splits option.splits)

lemma folds_stop: "stops (tick_windows cr now)" "stops (tick_checks cr now)"
proof -
  have "stops (fold (\<lambda>rid. process_windows cr rid now) ids)" "stops (fold (\<lambda>cid. maybe_finalize_check cr cid now) ids)" for ids
    by (intro stops_fold runs_stop finalize_stops)+
  then show "stops (tick_windows cr now)" "stops (tick_checks cr now)"
    by (auto simp: stops_def tick_windows_def tick_checks_def split: sum.splits)
qed

lemma reply_stops: "stops (apply_monitor_reply cr now cm)"
  unfolding stops_def
proof (intro allI impI)
  fix dm :: Daemon
  assume a: "dm_audit_fail dm"
  have fin: "dm_audit_fail (maybe_finalize_check cr cid now (settle_slot now cid mid dl ss rs dm)) \<and>
      dm_store (maybe_finalize_check cr cid now (settle_slot now cid mid dl ss rs dm)) = dm_store dm" for cid mid dl ss rs
    using stopsD [OF finalize_stops] stopsD [OF timer_stops a] by (simp add: settle_slot_def)
  show "dm_audit_fail (apply_monitor_reply cr now cm dm) \<and> dm_store (apply_monitor_reply cr now cm dm) = dm_store dm"
    using a fin unfolding apply_monitor_reply_def
    by (simp add: mutate_stopped set_host_def split: option.split prod.split sum.split)
qed

lemma tick_stops: "stops (tick cr replies)"
proof -
  have replies: "stops (fold (apply_monitor_reply cr now) replies)" for now by (intro stops_fold reply_stops)
  note step = runs_stop folds_stop replies
  show ?thesis unfolding stops_def tick_def Let_def using step unfolding stops_def by simp
qed

lemma execute_stops: "dm_audit_fail dm \<Longrightarrow> dm_store (snd (execute cr pf ca mname params dm)) = dm_store dm"
proof -
  assume a: "dm_audit_fail dm"
  have h: "dm_store (snd (handle admit dm)) = dm_store dm" for admit
    using a by (simp add: handle_def mutate_h_def mutate_stopped set_host_def split: sum.split)
  have "dm_store (snd (checks_create cr ca params dm)) = dm_store dm"
  proof -
    obtain r dm1 where ran: "handle (create_admission cr ca params) dm = (r, dm1)"
      by (cases "handle (create_admission cr ca params) dm")
    have "r \<noteq> Inr (MOk v)" for v
      using ran a create_unanswered [of cr ca params dm]
      by (auto simp: handle_def mutate_h_def mutate_stopped unanswered_def split: sum.splits)
    then show ?thesis using ran h [of "create_admission cr ca params"]
      by (auto simp: checks_create_def split: sum.splits MOut.splits)
  qed
  then show ?thesis
    by (simp add: execute_def Let_def reading_def h system_drain_def policy_activate_def runs_open_def runs_control_def
        observations_append_def checks_cancel_def effects_record_def reviews_claim_def reviews_resolve_def alerts_resolve_def
        audit_evaluate_def bundle_export_def)
qed

lemma request_stops:
  assumes "dm_audit_fail dm"
  shows "dm_store (snd (dispatch_request cr pf ca mname params dm)) = dm_store dm"
proof -
  have run: "dm_store (snd (run_request cr pf ca mname params h dm')) = dm_store dm'" if "dm_audit_fail dm'" for h dm'
  proof -
    let ?dm = "if is_mutation mname
        then dm'\<lparr>dm_cur_idem := Some (pr_id (ca_principal ca), ca_request ca, mname, h)\<rparr> else dm'"
    obtain r dm2 where e: "execute cr pf ca mname params ?dm = (r, dm2)" by (cases "execute cr pf ca mname params ?dm")
    have "dm_audit_fail ?dm" "dm_store ?dm = dm_store dm'" using that by simp_all
    then have "dm_store dm2 = dm_store dm'" using execute_stops [of ?dm cr pf ca mname params] e by simp
    then show ?thesis using e by (simp add: run_request_def Let_def)
  qed
  have rate: "dm_audit_fail dm' \<and> dm_store dm' = dm_store dm" if "rate_ok who dm = (ok, dm')" for who ok dm'
    using that assms by (auto simp: rate_ok_def Let_def split: prod.splits)
  show ?thesis
    unfolding dispatch_request_def Let_def
    by (auto split: sum.splits option.splits prod.splits dest: rate simp: run)
qed



end
