(* ===== verification/Verify.thy ===== *)
theory Verify
  imports Gates JsonRoundtrip
begin

text \<open>
  Offline verification of proof bundles (\<open>verify.rs\<close>). \<open>verify\<close> is a pure function of a bundle and a trust
  file: it walks the events, the inventory, the policies and the disclosed envelopes, collects what is
  invalid or incomplete and the reasons, and reports a status. What acceptance establishes is stated as a
  predicate on chains of events and proved of the walk; the head of an accepted bundle binds its history.
\<close>

section \<open>Reports\<close>

definition verification :: "string \<Rightarrow> string list \<Rightarrow> Head \<Rightarrow> Value" where
  "verification status reasons through = Obj [
     (''status'', Str status), (''reasons'', Arr (map Str reasons)),
     (''through'', head_value through), (''facts_verified'', Bool False)]"

lemma verification_inject: "verification s r h = verification s' r' h' \<longleftrightarrow> s = s' \<and> r = r' \<and> h = h'"
proof -
  have "map Str r = map Str r' \<longleftrightarrow> r = r'" by (rule inj_map_eq_map) (simp add: inj_def)
  then show ?thesis by (auto simp: verification_def head_value_def intro: Head.equality)
qed

record Findings =
  fi_invalid :: bool
  fi_incomplete :: bool
  fi_reasons :: "string list"

definition no_findings :: Findings where
  "no_findings = \<lparr>fi_invalid = False, fi_incomplete = False, fi_reasons = []\<rparr>"

definition invalid :: "string \<Rightarrow> Findings \<Rightarrow> Findings" where
  "invalid reason f = f\<lparr>fi_invalid := True, fi_reasons := fi_reasons f @ [reason]\<rparr>"

definition incomplete :: "string \<Rightarrow> Findings \<Rightarrow> Findings" where
  "incomplete reason f = f\<lparr>fi_incomplete := True, fi_reasons := fi_reasons f @ [reason]\<rparr>"

section \<open>Signatures\<close>

definition env_sig_ok :: "Crypto \<Rightarrow> Signed \<Rightarrow> string \<Rightarrow> string \<Rightarrow> bool" where
  "env_sig_ok cr sv pk_b64 tag = (case b64u_decode cr pk_b64 of
     None \<Rightarrow> False
   | Some pk \<Rightarrow> length pk = 32 \<and> verify_envelope cr tag (sd_body sv) (sd_digest sv) (sd_key_id sv)
       (dec (sd_key_epoch sv)) (sd_signature sv) pk)"

definition pin_for :: "Trust \<Rightarrow> string \<Rightarrow> string \<Rightarrow> string \<Rightarrow> nat \<Rightarrow> KeyPin option" where
  "pin_for trust tag subject key_id key_epoch = find (pin_matches tag subject key_id key_epoch) (tr_keys trust)"

text \<open>The envelope under the first pin that covers it.\<close>

definition under_pin :: "Crypto \<Rightarrow> Trust \<Rightarrow> string \<Rightarrow> string \<Rightarrow> Signed \<Rightarrow> Findings \<Rightarrow> Findings" where
  "under_pin cr trust tag subject sv f = (case pin_for trust tag subject (sd_key_id sv) (sd_key_epoch sv) of
     Some k \<Rightarrow> if env_sig_ok cr sv (kp_public_key k) tag then f else invalid ''BAD_SIGNATURE'' f
   | None \<Rightarrow> incomplete ''UNTRUSTED_KEY'' f)"

section \<open>The event chain\<close>

record Walk =
  wk_prev :: string
  wk_seq :: nat
  wk_through :: Head

definition start_walk :: Walk where
  "start_walk = \<lparr>wk_prev = zero_hash, wk_seq = 1, wk_through = empty_head\<rparr>"

definition event_hash :: "Crypto \<Rightarrow> Value \<Rightarrow> string" where
  "event_hash cr v = sha256_hex cr (jcs v)"

definition check_hash :: "Crypto \<Rightarrow> string list \<Rightarrow> nat \<Rightarrow> Value \<Rightarrow> Findings \<Rightarrow> Findings" where
  "check_hash cr hashes i v f =
     (if i < length hashes \<and> hashes ! i = event_hash cr v then f else invalid ''AUDIT_HASH'' f)"

definition walk_event :: "Crypto \<Rightarrow> Trust \<Rightarrow> Signed \<Rightarrow> Walk \<times> Findings \<Rightarrow> Walk \<times> Findings" where
  "walk_event cr trust sv = (\<lambda>(w, f). case event_body_of cr (sd_body sv) of
     Inl _ \<Rightarrow> (w, invalid ''SCHEMA'' f)
   | Inr eb \<Rightarrow>
      let f = (if ev_seq eb \<noteq> wk_seq w then incomplete ''AUDIT_GAP'' f else f);
          f = (if ev_prev eb \<noteq> wk_prev w then invalid ''AUDIT_CHAIN'' f else f)
      in (\<lparr>wk_prev = sd_digest sv, wk_seq = wk_seq w + 1,
            wk_through = \<lparr>hd_seq = ev_seq eb, hd_hash = sd_digest sv\<rparr>\<rparr>,
          under_pin cr trust ''audit'' (ev_tenant eb) sv f))"

fun walk_events :: "Crypto \<Rightarrow> Trust \<Rightarrow> string list \<Rightarrow> nat \<Rightarrow> Value list \<Rightarrow> Walk \<times> Findings \<Rightarrow> Walk \<times> Findings" where
  "walk_events cr trust hashes i [] (w, f) = (w, f)"
| "walk_events cr trust hashes i (ev # evs) (w, f) = (case signed_of cr ev of
     Inl _ \<Rightarrow> (w, invalid ''SCHEMA'' f)
   | Inr sv \<Rightarrow> walk_events cr trust hashes (i + 1) evs
       (walk_event cr trust sv (w, check_hash cr hashes i ev f)))"

section \<open>Inventory, policies and envelopes\<close>

fun inventory_dups :: "(string \<times> string) list \<Rightarrow> Inventory list \<Rightarrow> Findings \<Rightarrow> Findings" where
  "inventory_dups seen [] f = f"
| "inventory_dups seen (it # its) f = inventory_dups ((iv_tag it, iv_digest it) # seen) its
     (if (iv_tag it, iv_digest it) \<in> set seen then invalid ''INVENTORY_DUP'' f else f)"

definition check_policy :: "Crypto \<Rightarrow> Trust \<Rightarrow> Value \<Rightarrow> Findings \<Rightarrow> Findings" where
  "check_policy cr trust pv f = (case signed_of cr pv of
     Inl _ \<Rightarrow> invalid ''SCHEMA'' f
   | Inr sv \<Rightarrow>
      let f = (if d cr ''policy'' (sd_body sv) \<noteq> sd_digest sv then invalid ''INVENTORY_MISMATCH'' f else f)
      in (case policy_of (sd_body sv) of
           Inr p \<Rightarrow> under_pin cr trust ''policy'' (pl_tenant p) sv f
         | Inl _ \<Rightarrow> invalid ''SCHEMA'' f))"

text \<open>\<open>unwrap_or_default\<close>: a body that does not parse has the empty subject.\<close>

definition subject_of :: "string \<Rightarrow> Value \<Rightarrow> string" where
  "subject_of tag body = (if tag = ''observation''
     then (case observation_body_of body of Inr b \<Rightarrow> ob_source b | Inl _ \<Rightarrow> [])
     else (case effect_body_of body of Inr b \<Rightarrow> ef_runtime b | Inl _ \<Rightarrow> []))"

definition check_envelope :: "Crypto \<Rightarrow> Trust \<Rightarrow> string \<Rightarrow> Value \<Rightarrow> Findings \<Rightarrow> Findings" where
  "check_envelope cr trust tag v f = (case signed_of cr v of
     Inl _ \<Rightarrow> invalid ''SCHEMA'' f
   | Inr sv \<Rightarrow> under_pin cr trust tag (subject_of tag (sd_body sv)) sv f)"

text \<open>The elements of an array member, if the member is one.\<close>

definition members :: "(string \<times> Value) list \<Rightarrow> string \<Rightarrow> Value list" where
  "members m k = (case mget m k of Some (Arr vs) \<Rightarrow> vs | _ \<Rightarrow> [])"

definition check_disclosure :: "BundleBody \<Rightarrow> nat \<Rightarrow> nat \<Rightarrow> Findings \<Rightarrow> bool \<times> Findings" where
  "check_disclosure bb obs_count eff_count f =
    (let inv_obs = filter (\<lambda>t. iv_tag t = ''observation'') (bb_inventory bb);
         inv_eff = filter (\<lambda>t. iv_tag t = ''effect'') (bb_inventory bb)
     in if bb_disclosure bb = ''FULL'' then
          let f = (if list_ex (\<lambda>i. \<not> iv_present i) inv_obs \<or> list_ex (\<lambda>i. \<not> iv_present i) inv_eff
                   then invalid ''INVENTORY_MISMATCH'' f else f);
              f = (if length inv_obs \<noteq> obs_count \<or> length inv_eff \<noteq> eff_count
                   then invalid ''INVENTORY_MISMATCH'' f else f)
          in (False, f)
        else (True, f\<lparr>fi_reasons := fi_reasons f @ [''OMITTED_BYTES'']\<rparr>))"

section \<open>The verdict\<close>

definition status_of :: "bool \<Rightarrow> Findings \<Rightarrow> string" where
  "status_of integrity_only f =
     (if fi_invalid f then ''INVALID'' else if fi_incomplete f then ''INCOMPLETE''
      else if integrity_only then ''INTEGRITY_ONLY'' else ''FULL_REPLAY'')"

text \<open>The checks after the manifest, in the order of the code, on a bundle that has events.\<close>

definition inspect :: "Crypto \<Rightarrow> Trust \<Rightarrow> (string \<times> Value) list \<Rightarrow> BundleBody \<Rightarrow> Findings \<Rightarrow> Walk \<times> bool \<times> Findings" where
  "inspect cr trust m bb f =
    (let (w, f) = walk_events cr trust (bb_event_hashes bb) 0 (members m ''events'') (start_walk, f);
         f = (if bb_through bb \<noteq> wk_through w then invalid ''THROUGH_MISMATCH'' f else f);
         f = inventory_dups [] (bb_inventory bb) f;
         f = fold (check_policy cr trust) (members m ''policies'') f;
         (only, f) = check_disclosure bb (length (members m ''observations'')) (length (members m ''effects'')) f;
         f = fold (check_envelope cr trust ''observation'') (members m ''observations'') f;
         f = fold (check_envelope cr trust ''effect'') (members m ''effects'') f;
         f = (if hd_seq (wk_through w) < hd_seq (tr_minimum_head trust) then incomplete ''MINIMUM_HEAD'' f else f)
     in (w, only, f))"

text \<open>The call of \<open>closed\<close> on the bundle has no effect: its error is discarded.\<close>

definition verify :: "Crypto \<Rightarrow> Value \<Rightarrow> Trust \<Rightarrow> Value" where
  "verify cr bundle trust = (case obj_of bundle of
     Inl _ \<Rightarrow> verification ''INVALID'' [''SCHEMA''] empty_head
   | Inr m \<Rightarrow> (case signed_of cr (case mget m ''manifest'' of Some v \<Rightarrow> v | None \<Rightarrow> Null) of
       Inl _ \<Rightarrow> verification ''INVALID'' [''SCHEMA''] empty_head
     | Inr manifest \<Rightarrow> (case bundle_body_of (sd_body manifest) of
         Inl _ \<Rightarrow> verification ''INVALID'' [''SCHEMA''] empty_head
       | Inr bb \<Rightarrow>
          if bb_tenant bb \<noteq> tr_tenant trust then verification ''INVALID'' [''TRUST_TENANT''] empty_head
          else if members m ''events'' = [] then verification ''INCOMPLETE'' [''EMPTY_HISTORY''] (bb_through bb)
          else
            let (w, only, f) = inspect cr trust m bb
                  (under_pin cr trust ''bundle'' (bb_tenant bb) manifest no_findings);
                through = (if hd_seq (wk_through w) > 0 then wk_through w else bb_through bb)
            in verification (status_of only f) (remdups_adj (sort_by str_le (fi_reasons f))) through)))"

definition load_bundle_file :: "string + string \<Rightarrow> Value R" where
  "load_bundle_file read = (case read of
     Inl e \<Rightarrow> Inl (new_fault ArtifactUnavailable e)
   | Inr b \<Rightarrow> if length b > 67108864 then Inl (new_fault BundleLimit ''bundle over 64MiB'')
      else map_err (\<lambda>_. new_fault BadJson ''bad json'') (parse b bundle_limits))"

section \<open>What acceptance establishes\<close>

text \<open>Nothing invalid and nothing incomplete.\<close>

definition clean :: "Findings \<Rightarrow> bool" where
  "clean f \<longleftrightarrow> \<not> fi_invalid f \<and> \<not> fi_incomplete f"

lemma clean_simps [simp]: "clean no_findings" "\<not> clean (invalid r f)" "\<not> clean (incomplete r f)"
  by (simp_all add: clean_def no_findings_def invalid_def incomplete_def)

text \<open>A step of the verifier that passes findings on exactly when a condition holds.\<close>

definition tests :: "bool \<Rightarrow> (Findings \<Rightarrow> Findings) \<Rightarrow> bool" where
  "tests P g \<longleftrightarrow> (\<forall>f. (P \<longrightarrow> g f = f) \<and> (clean (g f) \<longrightarrow> P \<and> clean f))"

named_theorems tests_intro \<open>steps of the verifier and the conditions they test\<close>

lemma tests_pass: "tests P g \<Longrightarrow> P \<Longrightarrow> g f = f"
  unfolding tests_def by (drule spec [of _ f]) simp

lemma tests_clean: "tests P g \<Longrightarrow> clean (g f) \<longleftrightarrow> P \<and> clean f"
  unfolding tests_def by metis

lemmas testsD = tests_clean tests_pass

lemma tests_if [tests_intro]: "tests (\<not> b) (\<lambda>f. if b then invalid r f else f)"
  "tests (\<not> b) (\<lambda>f. if b then incomplete r f else f)" "tests b (\<lambda>f. if b then f else invalid r f)"
  by (simp_all add: tests_def)

lemma tests_fail [tests_intro]: "tests False (invalid r)"
  by (simp add: tests_def)

lemma tests_comp: "tests P g \<Longrightarrow> tests Q h \<Longrightarrow> tests (P \<and> Q) (\<lambda>f. h (g f))"
  unfolding tests_def by metis

lemma tests_fold [tests_intro]: "(\<And>x. tests (P x) (g x)) \<Longrightarrow> tests (list_all P xs) (fold g xs)"
proof (induction xs)
  case Nil
  show ?case by (simp add: tests_def)
next
  case (Cons x xs)
  show ?case using tests_comp [OF Cons.prems Cons.IH [OF Cons.prems], of x] by (simp add: comp_def)
qed

definition vouched :: "Crypto \<Rightarrow> Trust \<Rightarrow> string \<Rightarrow> string \<Rightarrow> Signed \<Rightarrow> bool" where
  "vouched cr trust tag subject sv \<longleftrightarrow> (case pin_for trust tag subject (sd_key_id sv) (sd_key_epoch sv) of
     Some k \<Rightarrow> env_sig_ok cr sv (kp_public_key k) tag
   | None \<Rightarrow> False)"

lemma found: "find P xs = Some x \<Longrightarrow> x \<in> set xs \<and> P x"
  by (auto simp: find_Some_iff)

lemma vouched_signed: "vouched cr trust tag subject sv \<Longrightarrow> signed_by_pin cr trust tag subject sv"
  unfolding vouched_def signed_by_pin_def env_sig_ok_def pin_for_def
  by (auto dest: found split: option.splits)

lemma vouched_digest: "vouched cr trust tag subject sv \<Longrightarrow> sd_digest sv = d cr tag (sd_body sv)"
  by (auto dest!: vouched_signed verify_envelope_digest simp: signed_by_pin_def)

lemma under_pin_tests [tests_intro]: "tests (vouched cr trust tag subject sv) (under_pin cr trust tag subject sv)"
  by (simp add: tests_def under_pin_def vouched_def split: option.split)

definition envelope_ok :: "Crypto \<Rightarrow> Trust \<Rightarrow> string \<Rightarrow> Value \<Rightarrow> bool" where
  "envelope_ok cr trust tag v \<longleftrightarrow> (case signed_of cr v of
     Inl _ \<Rightarrow> False | Inr sv \<Rightarrow> vouched cr trust tag (subject_of tag (sd_body sv)) sv)"

lemma check_envelope_tests [tests_intro]: "tests (envelope_ok cr trust tag v) (check_envelope cr trust tag v)"
  using testsD [OF under_pin_tests]
  by (auto simp: tests_def check_envelope_def envelope_ok_def split: sum.split)

definition policy_ok :: "Crypto \<Rightarrow> Trust \<Rightarrow> Value \<Rightarrow> bool" where
  "policy_ok cr trust v \<longleftrightarrow> (case signed_of cr v of Inl _ \<Rightarrow> False | Inr sv \<Rightarrow>
     (case policy_of (sd_body sv) of Inl _ \<Rightarrow> False | Inr p \<Rightarrow> vouched cr trust ''policy'' (pl_tenant p) sv))"

lemma check_policy_tests [tests_intro]: "tests (policy_ok cr trust v) (check_policy cr trust v)"
  using testsD [OF under_pin_tests] vouched_digest
  by (fastforce simp: tests_def check_policy_def policy_ok_def Let_def split: sum.split)

abbreviation line_key :: "Inventory \<Rightarrow> string \<times> string" where
  "line_key i \<equiv> (iv_tag i, iv_digest i)"

lemma inventory_dups_tests:
  "tests (distinct (map line_key its) \<and> set (map line_key its) \<inter> set seen = {}) (inventory_dups seen its)"
proof (induction its arbitrary: seen)
  case (Cons i its)
  have h: "tests (line_key i \<notin> set seen)
      (\<lambda>f. if line_key i \<in> set seen then invalid ''INVENTORY_DUP'' f else f)" by (rule tests_if)
  have iff: "line_key i \<notin> set seen \<and> distinct (map line_key its) \<and> set (map line_key its) \<inter> set (line_key i # seen) = {} \<longleftrightarrow>
    distinct (map line_key (i # its)) \<and> set (map line_key (i # its)) \<inter> set seen = {}"
    unfolding list.map distinct.simps list.set by blast
  from tests_comp [OF h Cons.IH [of "line_key i # seen"]] show ?case unfolding iff inventory_dups.simps .
qed (simp add: tests_def)

section \<open>Chains\<close>

fun proven :: "Crypto \<Rightarrow> Trust \<Rightarrow> Head \<Rightarrow> Value list \<Rightarrow> string list \<Rightarrow> Head \<Rightarrow> bool" where
  "proven cr trust h [] hashes h' \<longleftrightarrow> h' = h"
| "proven cr trust h (ev # evs) hashes h' \<longleftrightarrow> (case signed_of cr ev of Inl _ \<Rightarrow> False | Inr sv \<Rightarrow>
     (case event_body_of cr (sd_body sv) of Inl _ \<Rightarrow> False | Inr eb \<Rightarrow>
        ev_seq eb = hd_seq h + 1 \<and> ev_prev eb = hd_hash h \<and> vouched cr trust ''audit'' (ev_tenant eb) sv \<and>
        hashes \<noteq> [] \<and> hd hashes = event_hash cr ev \<and>
        proven cr trust \<lparr>hd_seq = ev_seq eb, hd_hash = sd_digest sv\<rparr> evs (tl hashes) h'))"

definition linked :: "Walk \<Rightarrow> bool" where
  "linked w \<longleftrightarrow> wk_prev w = hd_hash (wk_through w) \<and> wk_seq w = hd_seq (wk_through w) + 1"

lemma check_hash_tests: "tests (i < length hashes \<and> hashes ! i = event_hash cr v) (check_hash cr hashes i v)"
  unfolding check_hash_def by (rule tests_if)

lemma walk_event_step:
  assumes "event_body_of cr (sd_body sv) = Inr eb"
  shows "walk_event cr trust sv (w, f) =
      (\<lparr>wk_prev = sd_digest sv, wk_seq = wk_seq w + 1, wk_through = \<lparr>hd_seq = ev_seq eb, hd_hash = sd_digest sv\<rparr>\<rparr>,
       snd (walk_event cr trust sv (w, f)))"
    and "tests (ev_seq eb = wk_seq w \<and> ev_prev eb = wk_prev w \<and> vouched cr trust ''audit'' (ev_tenant eb) sv)
      (\<lambda>f. snd (walk_event cr trust sv (w, f)))"
  using assms testsD [OF under_pin_tests [of cr trust "''audit''" "ev_tenant eb" sv]]
  by (simp_all add: walk_event_def tests_def Let_def)

lemma walk_step:
  assumes "signed_of cr ev = Inr sv" and "event_body_of cr (sd_body sv) = Inr eb"
  shows "\<exists>g. (\<forall>f. walk_events cr trust hashes i (ev # evs) (w, f) = walk_events cr trust hashes (i + 1) evs
        (\<lparr>wk_prev = sd_digest sv, wk_seq = wk_seq w + 1, wk_through = \<lparr>hd_seq = ev_seq eb, hd_hash = sd_digest sv\<rparr>\<rparr>, g f)) \<and>
    tests ((drop i hashes \<noteq> [] \<and> hd (drop i hashes) = event_hash cr ev) \<and>
      ev_seq eb = wk_seq w \<and> ev_prev eb = wk_prev w \<and> vouched cr trust ''audit'' (ev_tenant eb) sv) g"
proof (intro exI conjI allI)
  let ?g = "\<lambda>f. snd (walk_event cr trust sv (w, check_hash cr hashes i ev f))"
  show "walk_events cr trust hashes i (ev # evs) (w, f) = walk_events cr trust hashes (i + 1) evs
      (\<lparr>wk_prev = sd_digest sv, wk_seq = wk_seq w + 1, wk_through = \<lparr>hd_seq = ev_seq eb, hd_hash = sd_digest sv\<rparr>\<rparr>, ?g f)" for f
    using walk_event_step(1) [OF assms(2)] assms(1) by simp
  have "drop i hashes \<noteq> [] \<and> hd (drop i hashes) = event_hash cr ev \<longleftrightarrow> i < length hashes \<and> hashes ! i = event_hash cr ev"
    by (auto simp: hd_drop_conv_nth)
  then show "tests ((drop i hashes \<noteq> [] \<and> hd (drop i hashes) = event_hash cr ev) \<and>
      ev_seq eb = wk_seq w \<and> ev_prev eb = wk_prev w \<and> vouched cr trust ''audit'' (ev_tenant eb) sv) ?g"
    using tests_comp [OF check_hash_tests walk_event_step(2) [OF assms(2)]] by simp
qed

text \<open>The walk never takes a finding back.\<close>

lemma walk_clean: "clean (snd (walk_events cr trust hashes i evs (w, f))) \<Longrightarrow> clean f"
proof (induction evs arbitrary: i w f)
  case (Cons ev evs)
  consider (bad) e where "signed_of cr ev = Inl e"
    | (body) sv e where "signed_of cr ev = Inr sv" "event_body_of cr (sd_body sv) = Inl e"
    | (good) sv eb where "signed_of cr ev = Inr sv" "event_body_of cr (sd_body sv) = Inr eb"
    by (metis sum.exhaust)
  then show ?case
  proof cases
    case good
    from walk_step [OF this] show ?thesis using Cons testsD(1) by metis
  next
    case body
    with Cons.prems Cons.IH show ?thesis by (fastforce simp: walk_event_def)
  qed (use Cons.prems in simp)
qed simp

lemma proven_Cons:
  assumes "signed_of cr ev = Inr sv" and "event_body_of cr (sd_body sv) = Inr eb"
  shows "proven cr trust h (ev # evs) hashes h' \<longleftrightarrow>
    ((hashes \<noteq> [] \<and> hd hashes = event_hash cr ev) \<and> ev_seq eb = hd_seq h + 1 \<and> ev_prev eb = hd_hash h \<and>
      vouched cr trust ''audit'' (ev_tenant eb) sv) \<and>
    proven cr trust \<lparr>hd_seq = ev_seq eb, hd_hash = sd_digest sv\<rparr> evs (tl hashes) h'"
  using assms by (auto simp: proven.simps)

lemma walk_proven:
  assumes "linked w"
  shows "(proven cr trust (wk_through w) evs (drop i hashes) h \<longrightarrow>
      wk_through (fst (walk_events cr trust hashes i evs (w, f))) = h \<and> snd (walk_events cr trust hashes i evs (w, f)) = f) \<and>
    (clean (snd (walk_events cr trust hashes i evs (w, f))) \<longrightarrow> clean f \<and>
      proven cr trust (wk_through w) evs (drop i hashes) (wk_through (fst (walk_events cr trust hashes i evs (w, f)))))"
  using assms
proof (induction evs arbitrary: i w f)
  case (Cons ev evs)
  consider (bad) e where "signed_of cr ev = Inl e"
    | (body) sv e where "signed_of cr ev = Inr sv" "event_body_of cr (sd_body sv) = Inl e"
    | (good) sv eb where "signed_of cr ev = Inr sv" "event_body_of cr (sd_body sv) = Inr eb"
    by (metis sum.exhaust)
  then show ?case
  proof cases
    case body
    have "\<not> clean (snd (walk_events cr trust hashes i (ev # evs) (w, f)))"
      using body walk_clean [of cr trust hashes "i + 1" evs w] by (fastforce simp: walk_event_def)
    then show ?thesis using body by (simp add: proven.simps)
  next
    case good
    let ?w = "\<lparr>wk_prev = sd_digest sv, wk_seq = wk_seq w + 1,
        wk_through = \<lparr>hd_seq = ev_seq eb, hd_hash = sd_digest sv\<rparr>\<rparr>"
    obtain g where run: "walk_events cr trust hashes i (ev # evs) (w, f) = walk_events cr trust hashes (i + 1) evs (?w, g f)"
      and test: "tests ((drop i hashes \<noteq> [] \<and> hd (drop i hashes) = event_hash cr ev) \<and>
        ev_seq eb = wk_seq w \<and> ev_prev eb = wk_prev w \<and> vouched cr trust ''audit'' (ev_tenant eb) sv) g"
      using walk_step [OF good] by blast
    note w = Cons.prems [unfolded linked_def]
    note test' = testsD(1) [OF test, of f] testsD(2) [OF test, of f]
    show ?thesis
    proof (cases "(drop i hashes \<noteq> [] \<and> hd (drop i hashes) = event_hash cr ev) \<and> ev_seq eb = wk_seq w \<and>
        ev_prev eb = wk_prev w \<and> vouched cr trust ''audit'' (ev_tenant eb) sv")
      case True
      then have l: "linked ?w" by (simp add: linked_def)
      have gf: "g f = f" and tl: "tl (drop i hashes) = drop (i + 1) hashes"
        using test'(2) True by (auto simp: drop_Suc tl_drop)
      have through: "wk_through ?w = \<lparr>hd_seq = ev_seq eb, hd_hash = sd_digest sv\<rparr>" by simp
      show ?thesis
        unfolding run gf tl proven_Cons [OF good]
        using Cons.IH [OF l, of "i + 1" f, unfolded through] True w by metis
    next
      case False
      then have "\<not> clean (snd (walk_events cr trust hashes i (ev # evs) (w, f)))"
        unfolding run using walk_clean test'(1) by blast
      then show ?thesis using False w unfolding proven_Cons [OF good] by auto
    qed
  qed (simp add: proven.simps)
qed (simp add: proven.simps)

section \<open>The verdict, characterised\<close>

definition lines :: "string \<Rightarrow> BundleBody \<Rightarrow> Inventory list" where
  "lines tag bb = filter (\<lambda>t. iv_tag t = tag) (bb_inventory bb)"

definition disclosed :: "(string \<times> Value) list \<Rightarrow> BundleBody \<Rightarrow> bool" where
  "disclosed m bb \<longleftrightarrow> list_all iv_present (lines ''observation'' bb) \<and> list_all iv_present (lines ''effect'' bb) \<and>
     length (lines ''observation'' bb) = length (members m ''observations'') \<and>
     length (lines ''effect'' bb) = length (members m ''effects'')"

text \<open>What an accepted bundle shows: a manifest of the tenant under a bundle pin, and a chain of events up to \<open>h\<close>.\<close>

definition genuine :: "Crypto \<Rightarrow> Trust \<Rightarrow> (string \<times> Value) list \<Rightarrow> Signed \<Rightarrow> BundleBody \<Rightarrow> Head \<Rightarrow> bool" where
  "genuine cr trust m manifest bb h \<longleftrightarrow>
     bb_tenant bb = tr_tenant trust \<and> vouched cr trust ''bundle'' (bb_tenant bb) manifest \<and>
     members m ''events'' \<noteq> [] \<and> proven cr trust empty_head (members m ''events'') (bb_event_hashes bb) h \<and>
     bb_through bb = h \<and> hd_seq (tr_minimum_head trust) \<le> hd_seq h \<and>
     distinct (map line_key (bb_inventory bb)) \<and> list_all (policy_ok cr trust) (members m ''policies'') \<and>
     list_all (envelope_ok cr trust ''observation'') (members m ''observations'') \<and>
     list_all (envelope_ok cr trust ''effect'') (members m ''effects'')"

lemma disclosure_full:
  assumes "bb_disclosure bb = ''FULL''"
  shows "\<exists>g. check_disclosure bb (length (members m ''observations'')) (length (members m ''effects'')) = (\<lambda>f. (False, g f)) \<and>
    tests (disclosed m bb) g"
proof (intro exI conjI)
  let ?g = "\<lambda>f. if length (lines ''observation'' bb) \<noteq> length (members m ''observations'') \<or>
        length (lines ''effect'' bb) \<noteq> length (members m ''effects'') then invalid ''INVENTORY_MISMATCH'' f else f"
  let ?h = "\<lambda>f. if list_ex (\<lambda>i. \<not> iv_present i) (lines ''observation'' bb) \<or> list_ex (\<lambda>i. \<not> iv_present i) (lines ''effect'' bb)
        then invalid ''INVENTORY_MISMATCH'' f else f"
  show "check_disclosure bb (length (members m ''observations'')) (length (members m ''effects'')) = (\<lambda>f. (False, ?g (?h f)))"
    using assms by (intro ext) (simp add: check_disclosure_def lines_def Let_def)
  have "disclosed m bb \<longleftrightarrow> \<not> (list_ex (\<lambda>i. \<not> iv_present i) (lines ''observation'' bb) \<or> list_ex (\<lambda>i. \<not> iv_present i) (lines ''effect'' bb)) \<and>
      \<not> (length (lines ''observation'' bb) \<noteq> length (members m ''observations'') \<or>
        length (lines ''effect'' bb) \<noteq> length (members m ''effects''))"
    by (auto simp: disclosed_def list_all_iff list_ex_iff)
  from this [symmetric] show "tests (disclosed m bb) (\<lambda>f. ?g (?h f))"
    by (rule subst) (rule tests_comp [OF tests_if(1) tests_if(1)])
qed

text \<open>The steps after the walk, before and after the disclosure.\<close>

lemma before_tests: "tests ((bb_through bb = h) \<and> distinct (map line_key (bb_inventory bb)) \<and> list_all (policy_ok cr trust) ps)
    (\<lambda>f. fold (check_policy cr trust) ps (inventory_dups [] (bb_inventory bb)
      (if bb_through bb \<noteq> h then invalid ''THROUGH_MISMATCH'' f else f)))"
proof -
  have d: "tests (distinct (map line_key (bb_inventory bb))) (inventory_dups [] (bb_inventory bb))"
    using inventory_dups_tests [of _ "[]"] by simp
  have p: "tests (list_all (policy_ok cr trust) ps) (fold (check_policy cr trust) ps)" by (intro tests_intro)
  show ?thesis using tests_comp [OF tests_if(1) tests_comp [OF d p], of "bb_through bb \<noteq> h"] by simp
qed

lemma behind_tests: fixes n k :: nat shows "tests (list_all (envelope_ok cr trust ''observation'') os \<and> list_all (envelope_ok cr trust ''effect'') es \<and> n \<le> k)
    (\<lambda>f. (if k < n then incomplete ''MINIMUM_HEAD'' else (\<lambda>f. f)) (fold (check_envelope cr trust ''effect'') es
      (fold (check_envelope cr trust ''observation'') os f)))"
proof -
  have e: "tests (list_all (envelope_ok cr trust tag) xs) (fold (check_envelope cr trust tag) xs)" for tag xs
    by (intro tests_intro)
  have "tests (n \<le> k) (if k < n then incomplete ''MINIMUM_HEAD'' else (\<lambda>f. f))" by (auto simp: tests_def)
  from tests_comp [OF e tests_comp [OF e this]] show ?thesis .
qed

lemma inspect_verdict:
  fixes bb :: BundleBody
  assumes i: "inspect cr trust m bb f = (w, only, f')"
  defines "h \<equiv> wk_through w"
  defines "P \<equiv> proven cr trust empty_head (members m ''events'') (bb_event_hashes bb) h \<and> bb_through bb = h \<and>
      hd_seq (tr_minimum_head trust) \<le> hd_seq h \<and> distinct (map line_key (bb_inventory bb)) \<and>
      list_all (policy_ok cr trust) (members m ''policies'') \<and>
      list_all (envelope_ok cr trust ''observation'') (members m ''observations'') \<and>
      list_all (envelope_ok cr trust ''effect'') (members m ''effects'')"
  shows "only \<longleftrightarrow> bb_disclosure bb \<noteq> ''FULL''"
    and "clean f' \<longleftrightarrow> clean f \<and> P \<and> (only \<or> disclosed m bb)"
    and "proven cr trust empty_head (members m ''events'') (bb_event_hashes bb) k \<Longrightarrow> k = h"
    and "clean f' \<Longrightarrow> fi_reasons f' = fi_reasons f @ (if only then [''OMITTED_BYTES''] else [])"
proof -
  obtain f1 where walk: "walk_events cr trust (bb_event_hashes bb) 0 (members m ''events'') (start_walk, f) = (w, f1)"
    using i by (auto simp: inspect_def Let_def split: prod.splits)
  let ?pre = "\<lambda>f. fold (check_policy cr trust) (members m ''policies'') (inventory_dups [] (bb_inventory bb)
      (if bb_through bb \<noteq> h then invalid ''THROUGH_MISMATCH'' f else f))"
  let ?mid = "check_disclosure bb (length (members m ''observations'')) (length (members m ''effects''))"
  let ?post = "\<lambda>f. (if hd_seq h < hd_seq (tr_minimum_head trust) then incomplete ''MINIMUM_HEAD'' else (\<lambda>f. f))
      (fold (check_envelope cr trust ''effect'') (members m ''effects'')
        (fold (check_envelope cr trust ''observation'') (members m ''observations'') f))"
  obtain f2 where mid: "?mid (?pre f1) = (only, f2)" and out: "f' = ?post f2"
    using i walk by (auto simp: inspect_def Let_def h_def split: prod.splits)
  note pre = testsD [OF before_tests [of bb h cr trust "members m ''policies''"], of f1]
  note post = testsD [OF behind_tests [of cr trust "members m ''observations''" "members m ''effects''"
      "hd_seq (tr_minimum_head trust)" "hd_seq h"], of f2]
  have "linked start_walk" by (simp add: linked_def start_walk_def empty_head_def)
  note walked = walk_proven [OF this, of cr trust "members m ''events''" 0 "bb_event_hashes bb" _ f]
  have chain: "clean f1 \<longleftrightarrow> clean f \<and> proven cr trust empty_head (members m ''events'') (bb_event_hashes bb) h" "clean f1 \<Longrightarrow> f1 = f"
    using walked [of h] walk by (auto simp: start_walk_def h_def)
  show "proven cr trust empty_head (members m ''events'') (bb_event_hashes bb) k \<Longrightarrow> k = h"
    using walked [of k] walk by (auto simp: start_walk_def h_def)
  show "only \<longleftrightarrow> bb_disclosure bb \<noteq> ''FULL''"
    using mid by (auto simp: check_disclosure_def Let_def split: if_split_asm)
  have disc: "clean f2 \<longleftrightarrow> clean (?pre f1) \<and> (only \<or> disclosed m bb)"
    "clean f2 \<Longrightarrow> fi_reasons f2 = fi_reasons (?pre f1) @ (if only then [''OMITTED_BYTES''] else [])"
  proof (atomize (full), cases "bb_disclosure bb = ''FULL''")
    case True
    from disclosure_full [OF this, of m] obtain g where g: "?mid = (\<lambda>f. (False, g f))" "tests (disclosed m bb) g" by blast
    with mid have "\<not> only" "f2 = g (?pre f1)" by simp_all
    then show "(clean f2 \<longleftrightarrow> clean (?pre f1) \<and> (only \<or> disclosed m bb)) \<and>
        (clean f2 \<longrightarrow> fi_reasons f2 = fi_reasons (?pre f1) @ (if only then [''OMITTED_BYTES''] else []))"
      using testsD [OF g(2), of "?pre f1"] by auto
  next
    case False
    with mid have "only" "f2 = (?pre f1)\<lparr>fi_reasons := fi_reasons (?pre f1) @ [''OMITTED_BYTES'']\<rparr>"
      by (auto simp: check_disclosure_def Let_def)
    then show "(clean f2 \<longleftrightarrow> clean (?pre f1) \<and> (only \<or> disclosed m bb)) \<and>
        (clean f2 \<longrightarrow> fi_reasons f2 = fi_reasons (?pre f1) @ (if only then [''OMITTED_BYTES''] else []))"
      by (simp add: clean_def)
  qed
  show "clean f' \<longleftrightarrow> clean f \<and> P \<and> (only \<or> disclosed m bb)"
    unfolding out post(1) disc(1) pre(1) chain(1) P_def by blast
  show "fi_reasons f' = fi_reasons f @ (if only then [''OMITTED_BYTES''] else [])" if c: "clean f'"
  proof -
    have cc: "clean (?post f2)" using c unfolding out .
    have c2: "clean f2" using cc unfolding post(1) by (elim conjE)
    then have p: "clean (?pre f1)" unfolding disc(1) by (elim conjE)
    have "f' = f2" unfolding out by (rule post(2)) (use cc [unfolded post(1)] in \<open>elim conjE, intro conjI\<close>)
    moreover have "?pre f1 = f1" by (rule pre(2)) (use p [unfolded pre(1)] in \<open>elim conjE, intro conjI\<close>)
    moreover have "f1 = f" using p [unfolded pre(1)] by (elim conjE) (rule chain(2))
    ultimately show ?thesis using disc(2) [OF c2] by simp
  qed
qed

text \<open>The early returns, and the report after them.\<close>

lemma signed_Null: "signed_of cr Null = Inl (schem ''expected object'')"
  by (simp add: signed_of_def obj_of_def ok_or_def as_obj_def)

lemma verify_passes:
  assumes "s \<in> {''FULL_REPLAY'', ''INTEGRITY_ONLY''}"
  shows "verify cr bundle trust = verification s reasons h \<longleftrightarrow>
    (\<exists>m mv manifest bb w only f. obj_of bundle = Inr m \<and> mget m ''manifest'' = Some mv \<and> signed_of cr mv = Inr manifest \<and>
      bundle_body_of (sd_body manifest) = Inr bb \<and> bb_tenant bb = tr_tenant trust \<and> members m ''events'' \<noteq> [] \<and>
      inspect cr trust m bb (under_pin cr trust ''bundle'' (bb_tenant bb) manifest no_findings) = (w, only, f) \<and>
      s = status_of only f \<and> reasons = remdups_adj (sort_by str_le (fi_reasons f)) \<and>
      h = (if hd_seq (wk_through w) > 0 then wk_through w else bb_through bb))"
proof -
  have other: "verification ''INVALID'' rs k \<noteq> verification s reasons h" "verification ''INCOMPLETE'' rs k \<noteq> verification s reasons h"
    for rs k using assms by (auto simp: verification_inject)
  show ?thesis
  proof (cases "obj_of bundle")
    case (Inr m)
    then have m: "bundle = Obj m" "obj_of (Obj m) = Inr m" by (simp_all add: obj_of_def ok_or_eq_Inr accessor_Some)
    show ?thesis
    proof (cases "mget m ''manifest''")
      case None
      then show ?thesis by (simp add: m verify_def other signed_Null)
    next
      case mv: (Some mv)
      show ?thesis
      proof (cases "signed_of cr mv")
        case man: (Inr manifest)
        show ?thesis
        proof (cases "bundle_body_of (sd_body manifest)")
          case bb: (Inr bb)
          obtain w only f where i: "inspect cr trust m bb
              (under_pin cr trust ''bundle'' (bb_tenant bb) manifest no_findings) = (w, only, f)" by (metis prod.exhaust)
          have "verify cr bundle trust = (if bb_tenant bb \<noteq> tr_tenant trust then verification ''INVALID'' [''TRUST_TENANT''] empty_head
            else if members m ''events'' = [] then verification ''INCOMPLETE'' [''EMPTY_HISTORY''] (bb_through bb)
            else verification (status_of only f) (remdups_adj (sort_by str_le (fi_reasons f)))
              (if hd_seq (wk_through w) > 0 then wk_through w else bb_through bb))"
            by (simp only: verify_def m mv man bb sum.case option.case i prod.case Let_def)
          then show ?thesis by (simp add: m mv man bb i other) (auto simp: verification_inject)
        qed (simp add: m mv man verify_def other)
      qed (simp add: m mv verify_def other)
    qed
  qed (simp add: verify_def other)
qed

lemma status_passes:
  "status_of only f = ''FULL_REPLAY'' \<longleftrightarrow> clean f \<and> \<not> only" "status_of only f = ''INTEGRITY_ONLY'' \<longleftrightarrow> clean f \<and> only"
  by (simp_all add: status_of_def clean_def)

lemma proven_seq: "proven cr trust h evs hs h' \<Longrightarrow> hd_seq h' = hd_seq h + length evs"
  by (induction cr trust h evs hs h' rule: proven.induct) (auto split: sum.splits)

lemma sorted_reasons: "remdups_adj (sort_by str_le []) = []" "remdups_adj (sort_by str_le [x]) = [x]"
  by (simp_all add: sort_by_def)

text \<open>The report on a bundle whose manifest is read and names the tenant.\<close>

definition reported :: "Crypto \<Rightarrow> Trust \<Rightarrow> (string \<times> Value) list \<Rightarrow> Signed \<Rightarrow> BundleBody \<Rightarrow> string \<Rightarrow> string list \<Rightarrow> Head \<Rightarrow> bool" where
  "reported cr trust m manifest bb s reasons h \<longleftrightarrow> bb_tenant bb = tr_tenant trust \<and> members m ''events'' \<noteq> [] \<and>
     (\<exists>w only f. inspect cr trust m bb (under_pin cr trust ''bundle'' (bb_tenant bb) manifest no_findings) = (w, only, f) \<and>
      s = status_of only f \<and> s \<in> {''FULL_REPLAY'', ''INTEGRITY_ONLY''} \<and>
      reasons = remdups_adj (sort_by str_le (fi_reasons f)) \<and>
      h = (if hd_seq (wk_through w) > 0 then wk_through w else bb_through bb))"

lemma report_iff:
  assumes bb: "bundle_body_of (sd_body manifest) = Inr bb"
  shows "reported cr trust m manifest bb s reasons h \<longleftrightarrow>
    genuine cr trust m manifest bb h \<and> reasons = (if s = ''FULL_REPLAY'' then [] else [''OMITTED_BYTES'']) \<and>
    (bb_disclosure bb = ''FULL'' \<and> disclosed m bb \<and> s = ''FULL_REPLAY'' \<or>
     bb_disclosure bb = ''COMMITMENTS'' \<and> s = ''INTEGRITY_ONLY'')"
proof (cases "bb_tenant bb = tr_tenant trust \<and> members m ''events'' \<noteq> []")
  case m: True
  let ?f0 = "under_pin cr trust ''bundle'' (bb_tenant bb) manifest no_findings"
  obtain w only f where i: "inspect cr trust m bb ?f0 = (w, only, f)" by (metis prod.exhaust)
  note v = inspect_verdict [OF i]
  have f0: "clean ?f0 \<longleftrightarrow> vouched cr trust ''bundle'' (bb_tenant bb) manifest" "clean ?f0 \<Longrightarrow> ?f0 = no_findings"
    using tests_clean [OF under_pin_tests, where f = no_findings] tests_pass [OF under_pin_tests, where f = no_findings] by auto
  have kinds: "bb_disclosure bb \<in> {''FULL'', ''COMMITMENTS''}" using bundle_body_dec_valid [OF bb] by (simp add: valid_bundle_body_def)
  have g: "genuine cr trust m manifest bb h \<and> (only \<or> disclosed m bb) \<longleftrightarrow> clean f \<and> h = wk_through w"
  proof (cases "h = wk_through w")
    case True
    show ?thesis unfolding v(2) f0(1) genuine_def True using m by auto
  next
    case False
    then show ?thesis unfolding genuine_def using v(3) [of h] by blast
  qed
  have pos: "hd_seq (wk_through w) > 0" if "clean f"
    using that m proven_seq [of cr trust empty_head "members m ''events''"] unfolding v(2) by (auto simp: empty_head_def)
  have r: "remdups_adj (sort_by str_le (fi_reasons f)) = (if only then [''OMITTED_BYTES''] else [])" if "clean f"
    using v(4) [OF that] f0(2) that v(2) by (auto simp: no_findings_def sorted_reasons)
  have "(s = status_of only f \<and> s \<in> {''FULL_REPLAY'', ''INTEGRITY_ONLY''} \<and>
      reasons = remdups_adj (sort_by str_le (fi_reasons f)) \<and>
      h = (if hd_seq (wk_through w) > 0 then wk_through w else bb_through bb)) \<longleftrightarrow>
    clean f \<and> h = wk_through w \<and> reasons = (if only then [''OMITTED_BYTES''] else []) \<and>
      s = (if only then ''INTEGRITY_ONLY'' else ''FULL_REPLAY'')"
    using pos r status_passes [of only f] by (cases only; cases "clean f") auto
  then show ?thesis unfolding reported_def using m i g v(1) kinds by auto
qed (auto simp: reported_def genuine_def)

definition passes :: "Crypto \<Rightarrow> Value \<Rightarrow> Trust \<Rightarrow> string \<Rightarrow> Head \<Rightarrow> bool" where
  "passes cr bundle trust s h \<longleftrightarrow> (\<exists>m mv manifest bb. obj_of bundle = Inr m \<and> mget m ''manifest'' = Some mv \<and>
     signed_of cr mv = Inr manifest \<and> bundle_body_of (sd_body manifest) = Inr bb \<and> genuine cr trust m manifest bb h \<and>
     (bb_disclosure bb = ''FULL'' \<and> disclosed m bb \<and> s = ''FULL_REPLAY'' \<or>
      bb_disclosure bb = ''COMMITMENTS'' \<and> s = ''INTEGRITY_ONLY''))"

lemma verify_iff:
  assumes s: "s \<in> {''FULL_REPLAY'', ''INTEGRITY_ONLY''}"
  shows "verify cr bundle trust = verification s reasons h \<longleftrightarrow>
    reasons = (if s = ''FULL_REPLAY'' then [] else [''OMITTED_BYTES'']) \<and> passes cr bundle trust s h"
proof -
  have "verify cr bundle trust = verification s reasons h \<longleftrightarrow> (\<exists>m mv manifest bb. obj_of bundle = Inr m \<and>
    mget m ''manifest'' = Some mv \<and> signed_of cr mv = Inr manifest \<and> bundle_body_of (sd_body manifest) = Inr bb \<and>
    reported cr trust m manifest bb s reasons h)"
    unfolding verify_passes [OF s] reported_def using s by simp
  also have "\<dots> \<longleftrightarrow> reasons = (if s = ''FULL_REPLAY'' then [] else [''OMITTED_BYTES'']) \<and> passes cr bundle trust s h"
    unfolding passes_def by (simp add: report_iff cong: conj_cong) blast
  finally show ?thesis .
qed

text \<open>
  C8. The offline verifier accepts exactly what the bundle proves: it reports FULL_REPLAY up
  to \<open>h\<close>, without reasons, exactly when the manifest is of the tenant and signed under a live bundle pin,
  the events are one chain from the first to \<open>h\<close>, each hashed in the manifest and signed under a live audit
  pin, the inventory has no duplicate, every policy, observation and effect is signed under a pin of its
  kind, everything is disclosed and \<open>h\<close> is not before the trusted head; INTEGRITY_ONLY exactly when the
  same holds of a bundle of commitments.
\<close>

theorem verify_accepts:
  "(verify cr bundle trust = verification ''FULL_REPLAY'' reasons h \<longleftrightarrow> reasons = [] \<and>
      (\<exists>m mv manifest bb. obj_of bundle = Inr m \<and> mget m ''manifest'' = Some mv \<and> signed_of cr mv = Inr manifest \<and>
        bundle_body_of (sd_body manifest) = Inr bb \<and> genuine cr trust m manifest bb h \<and>
        bb_disclosure bb = ''FULL'' \<and> disclosed m bb)) \<and>
   (verify cr bundle trust = verification ''INTEGRITY_ONLY'' reasons h \<longleftrightarrow> reasons = [''OMITTED_BYTES''] \<and>
      (\<exists>m mv manifest bb. obj_of bundle = Inr m \<and> mget m ''manifest'' = Some mv \<and> signed_of cr mv = Inr manifest \<and>
        bundle_body_of (sd_body manifest) = Inr bb \<and> genuine cr trust m manifest bb h \<and>
        bb_disclosure bb = ''COMMITMENTS''))"
  using verify_iff [of "''FULL_REPLAY''" cr "bundle" trust reasons h] verify_iff [of "''INTEGRITY_ONLY''" cr "bundle" trust reasons h]
  unfolding passes_def by simp

end
