(* ===== verification/Bundles.thy ===== *)
theory Bundles
  imports Verify EventCanon Histories MethodsAudit SampleHost
begin

text \<open>
  What the head of an accepted bundle binds, and that the bundles the daemon exports are accepted
  (\<open>verify.rs\<close> with \<open>bundle.rs\<close>).
\<close>

lemma text_members: "text_ok (Obj m) \<Longrightarrow> x \<in> set (members m k) \<Longrightarrow> text_ok x"
proof -
  assume ok: "text_ok (Obj m)" and x: "x \<in> set (members m k)"
  from x obtain vs where "map_of m k = Some (Arr vs)" "x \<in> set vs"
    by (cases "map_of m k") (auto simp: members_def mget_def split: Value.splits)
  then show "text_ok x" using text_parts(2) [OF text_parts(1) [OF ok]] by blast
qed

section \<open>The head of an accepted bundle binds its history\<close>

definition event_bodies :: "Crypto \<Rightarrow> Value list \<Rightarrow> Value list" where
  "event_bodies cr evs = map (\<lambda>v. case signed_of cr v of Inr sv \<Rightarrow> sd_body sv | Inl _ \<Rightarrow> Null) evs"

lemma signed_text: "signed_of cr v = Inr sv \<Longrightarrow> text_ok v \<Longrightarrow> text_ok (sd_body sv)"
  by (auto simp: signed_of_def fld_iff obj_of_def ok_or_eq_Inr accessor_Some intro: text_parts(1))

lemma proven_snoc:
  assumes "proven cr trust h (evs @ [ev]) hashes h'"
  shows "\<exists>k sv eb. proven cr trust h evs hashes k \<and> signed_of cr ev = Inr sv \<and> event_body_of cr (sd_body sv) = Inr eb \<and>
    ev_seq eb = hd_seq k + 1 \<and> ev_prev eb = hd_hash k \<and> sd_digest sv = d cr ''audit'' (sd_body sv) \<and>
    h' = \<lparr>hd_seq = ev_seq eb, hd_hash = sd_digest sv\<rparr>"
  using assms
proof (induction evs arbitrary: h hashes)
  case Nil
  then show ?case by (auto dest: vouched_digest split: sum.splits)
next
  case (Cons e evs)
  obtain s b where e: "signed_of cr e = Inr s" "event_body_of cr (sd_body s) = Inr b"
    using Cons.prems by (auto split: sum.splits)
  from Cons.prems obtain rest: "proven cr trust \<lparr>hd_seq = ev_seq b, hd_hash = sd_digest s\<rparr> (evs @ [ev]) (tl hashes) h'"
    and step: "ev_seq b = hd_seq h + 1 \<and> ev_prev b = hd_hash h \<and> vouched cr trust ''audit'' (ev_tenant b) s \<and>
      hashes \<noteq> [] \<and> hd hashes = event_hash cr e"
    using e by auto
  show ?case using Cons.IH [OF rest] e step by simp
qed

lemma history_bound:
  assumes "proven cr trust empty_head evs hashes h" and "proven cr trust' empty_head evs' hashes' h"
    and "\<forall>v \<in> set evs \<union> set evs'. text_ok v"
  shows "map jcs (event_bodies cr evs) = map jcs (event_bodies cr evs') \<or>
    (\<exists>x \<in> set (event_bodies cr evs). \<exists>y \<in> set (event_bodies cr evs'). jcs x \<noteq> jcs y \<and> d cr ''audit'' x = d cr ''audit'' y)"
  using assms
proof (induction evs arbitrary: evs' h rule: rev_induct)
  case Nil
  then show ?case using proven_seq [of cr trust' empty_head evs' hashes' h] by (simp add: event_bodies_def)
next
  case (snoc e evs)
  have "length evs' = Suc (length evs)"
    using proven_seq [OF snoc.prems(1)] proven_seq [OF snoc.prems(2)] by simp
  then obtain es e' where evs': "evs' = es @ [e']" by (metis length_Suc_conv_rev)
  obtain k sv eb where k: "proven cr trust empty_head evs hashes k" "signed_of cr e = Inr sv"
    "event_body_of cr (sd_body sv) = Inr eb" "ev_seq eb = hd_seq k + 1" "ev_prev eb = hd_hash k"
    "sd_digest sv = d cr ''audit'' (sd_body sv)" "h = \<lparr>hd_seq = ev_seq eb, hd_hash = sd_digest sv\<rparr>"
    using proven_snoc [OF snoc.prems(1)] by blast
  obtain k' sv' eb' where k': "proven cr trust' empty_head es hashes' k'" "signed_of cr e' = Inr sv'"
    "event_body_of cr (sd_body sv') = Inr eb'" "ev_seq eb' = hd_seq k' + 1" "ev_prev eb' = hd_hash k'"
    "sd_digest sv' = d cr ''audit'' (sd_body sv')" "h = \<lparr>hd_seq = ev_seq eb', hd_hash = sd_digest sv'\<rparr>"
    using proven_snoc [OF snoc.prems(2) [unfolded evs']] by blast
  have bodies: "event_bodies cr (evs @ [e]) = event_bodies cr evs @ [sd_body sv]"
    "event_bodies cr evs' = event_bodies cr es @ [sd_body sv']"
    using k(2) k'(2) by (simp_all add: event_bodies_def evs')
  show ?case
  proof (cases "jcs (sd_body sv) = jcs (sd_body sv')")
    case True
    have "text_ok (sd_body sv)" "text_ok (sd_body sv')"
      using snoc.prems(3) signed_text [OF k(2)] signed_text [OF k'(2)] by (auto simp: evs')
    then have "ev_prev eb = ev_prev eb' \<and> ev_seq eb = ev_seq eb'"
      using event_bodies_agree [OF k(3) k'(3)] jcs_canon [OF _ _ True] by blast
    then have "k' = k" using k(4,5) k'(4,5) by (intro Head.equality) auto
    then have "map jcs (event_bodies cr evs) = map jcs (event_bodies cr es) \<or>
        (\<exists>x \<in> set (event_bodies cr evs). \<exists>y \<in> set (event_bodies cr es). jcs x \<noteq> jcs y \<and> d cr ''audit'' x = d cr ''audit'' y)"
      using snoc.IH [OF k(1), of es] k'(1) snoc.prems(3) by (simp add: evs')
    then show ?thesis using True unfolding bodies by auto
  next
    case False
    then show ?thesis using k(6,7) k'(6,7) unfolding bodies by auto
  qed
qed

section \<open>What the daemon exports\<close>

text \<open>A row of the audit table, read back: its canonical bytes, its body, and its signature under a pin.\<close>

definition reads_as :: "Crypto \<Rightarrow> Trust \<Rightarrow> AuditRow \<Rightarrow> Value \<Rightarrow> bool" where
  "reads_as cr trust r v \<longleftrightarrow> parse (au_envelope r) reply_limits = Inr v \<and> jcs v = au_envelope r \<and>
     (\<exists>sv eb. signed_of cr v = Inr sv \<and> event_body_of cr (sd_body sv) = Inr eb \<and> ev_seq eb = au_seq r \<and>
       ev_prev eb = au_prev r \<and> sd_digest sv = au_hash r \<and> vouched cr trust ''audit'' (ev_tenant eb) sv)"

lemma rows_proven:
  "chained cr h rows \<Longrightarrow> list_all2 (reads_as cr trust) rows vs \<Longrightarrow>
    proven cr trust h vs (map (sha256_hex cr \<circ> au_envelope) rows) (last_head h rows)"
proof (induction rows arbitrary: h vs)
  case (Cons r rows)
  then obtain v vs' where vs: "vs = v # vs'" "reads_as cr trust r v" "list_all2 (reads_as cr trust) rows vs'"
    by (auto simp: list_all2_Cons1)
  have c: "chained cr \<lparr>hd_seq = au_seq r, hd_hash = au_hash r\<rparr> rows" "au_seq r = hd_seq h + 1" "au_prev r = hd_hash h"
    using Cons.prems(1) unfolding chained.simps by blast+
  obtain sv eb where sv: "signed_of cr v = Inr sv" "event_body_of cr (sd_body sv) = Inr eb" "ev_seq eb = au_seq r"
    "ev_prev eb = au_prev r" "sd_digest sv = au_hash r" "vouched cr trust ''audit'' (ev_tenant eb) sv" "jcs v = au_envelope r"
    using vs(2) by (auto simp: reads_as_def)
  show ?case using proven_Cons [OF sv(1,2)] Cons.IH [OF c(1) vs(3)] sv c vs(1) by (simp add: event_hash_def)
qed simp

text \<open>The rows up to a head of a chain, in their order.\<close>

interpretation audit_order: total_preorder audit_before
  by unfold_locales (auto simp: audit_before_def)

lemma chained_nth:
  assumes "chained cr empty_head rows" and "i < length rows"
  shows "au_seq (rows ! i) = i + 1"
proof -
  have "map au_seq rows ! i = [Suc 0..<Suc (length rows)] ! i"
    using chained_seqs [OF assms(1)] by (simp add: empty_head_def del: upt_Suc)
  then show ?thesis using assms(2) by (simp del: upt_Suc)
qed

lemma rows_to:
  assumes "chained cr empty_head rows"
  shows "sort_by audit_before (filter (\<lambda>r. au_seq r \<le> n) rows) = take n rows"
proof -
  note nth = chained_nth [OF assms]
  have "filter (\<lambda>r. au_seq r \<le> n) rows = filter (\<lambda>r. au_seq r \<le> n) (take n rows) @ filter (\<lambda>r. au_seq r \<le> n) (drop n rows)"
    by (metis append_take_drop_id filter_append)
  moreover have "filter (\<lambda>r. au_seq r \<le> n) (take n rows) = take n rows"
    by (auto simp: filter_id_conv in_set_conv_nth nth)
  moreover have "filter (\<lambda>r. au_seq r \<le> n) (drop n rows) = []"
    by (auto simp: filter_empty_conv in_set_conv_nth nth)
  ultimately have f: "filter (\<lambda>r. au_seq r \<le> n) rows = take n rows" by simp
  have "sorted_wrt audit_before (take n rows)"
    unfolding sorted_wrt_iff_nth_less by (auto simp: audit_before_def nth)
  then show ?thesis unfolding f by (rule audit_order.sort_by_sorted)
qed


lemma last_head_take:
  assumes "chained cr empty_head (st_audit st)" and "head_exists h st" and "hd_seq h \<noteq> 0"
  shows "last_head empty_head (take (hd_seq h) (st_audit st)) = h \<and> take (hd_seq h) (st_audit st) \<noteq> [] \<and>
    length (take (hd_seq h) (st_audit st)) = hd_seq h"
proof -
  let ?rows = "st_audit st"
  note nth = chained_nth [OF assms(1)]
  obtain r where "find (\<lambda>r. au_seq r = hd_seq h) ?rows = Some r" and hash: "au_hash r = hd_hash h"
    using assms(2,3) by (auto simp: head_exists_def split: option.splits)
  then obtain i where i: "i < length ?rows" "r = ?rows ! i" "au_seq r = hd_seq h" by (auto simp: find_Some_iff)
  then have n: "hd_seq h = i + 1" using nth by simp
  then have "take (hd_seq h) ?rows = take i ?rows @ [r]" using i by (simp add: take_Suc_conv_app_nth)
  then show ?thesis using i hash n by (simp add: Head.equality)
qed

section \<open>The manifest\<close>

definition line_of :: "Item \<Rightarrow> Inventory" where
  "line_of i = (case i of (tag, digest, n, present) \<Rightarrow>
     \<lparr>iv_tag = tag, iv_digest = digest, iv_bytes = n, iv_present = present\<rparr>)"

lemma item_line: "item_value i = inventory_value (line_of i)"
  by (simp add: item_value_def inventory_value_def line_of_def split: prod.split)

definition manifest_body :: "string \<Rightarrow> Head \<Rightarrow> string \<Rightarrow> Item list \<Rightarrow> string list \<Rightarrow> string list \<Rightarrow> BundleBody" where
  "manifest_body tenant through disclosure items hashes limits =
     \<lparr>bb_tenant = tenant, bb_from = empty_head, bb_through = through, bb_disclosure = disclosure,
      bb_inventory = map line_of items, bb_event_hashes = hashes, bb_limitations = limits\<rparr>"

lemma manifest_reads:
  assumes "valid_bundle_body (manifest_body (cf_tenant (dm_cfg dm)) through disclosure items hashes limits)"
  shows "bundle_body_of (manifest_value dm through disclosure items hashes limits) =
    Inr (manifest_body (cf_tenant (dm_cfg dm)) through disclosure items hashes limits)"
proof -
  have inv: "map item_value items = map inventory_value (map line_of items)" by (simp add: item_line)
  have "mapR inventory_of (map inventory_value (map line_of items)) = Inr (map line_of items)"
    using assms by (intro inventory_lists) (simp add: valid_bundle_body_def manifest_body_def)
  moreover have "mapR text_of (map Str limits) = Inr limits"
    using assms by (simp add: mapR_text_of valid_bundle_body_def manifest_body_def)
  moreover have "one_of [''FULL'', ''COMMITMENTS''] ''bad disclosure'' (Str disclosure) = Inr disclosure"
    using assms by (auto simp: valid_bundle_body_def manifest_body_def one_of_def s_of_def)
  ultimately show ?thesis
    using assms unfolding manifest_value_def manifest_body_def valid_bundle_body_def inv
    by (simp add: bundle_body_of_def fld_some closed_eval codec_enc)
qed

text \<open>A signer whose public key is pinned.\<close>

definition pinned :: "Crypto \<Rightarrow> Trust \<Rightarrow> string \<Rightarrow> string \<Rightarrow> string \<Rightarrow> nat \<Rightarrow> string \<Rightarrow> bool" where
  "pinned cr trust tag subject kid ep sk \<longleftrightarrow> valid_id kid \<and> ep \<le> u_max \<and>
     (case pin_for trust tag subject kid ep of None \<Rightarrow> False | Some k \<Rightarrow>
       (case b64u_decode cr (kp_public_key k) of None \<Rightarrow> False | Some pk \<Rightarrow> length pk = 32 \<and> crypto_ok cr sk pk))"

lemma pinned_signs:
  assumes "pinned cr trust tag subject kid ep sk"
  shows "\<exists>sv. signed_of cr (sign_envelope cr tag body kid (dec ep) sk) = Inr sv \<and> sd_body sv = body \<and>
    vouched cr trust tag subject sv"
proof -
  obtain k pk where k: "pin_for trust tag subject kid ep = Some k" "b64u_decode cr (kp_public_key k) = Some pk"
    "length pk = 32" "crypto_ok cr sk pk" "valid_id kid" "ep \<le> u_max"
    using assms by (auto simp: pinned_def split: option.splits)
  let ?sv = "\<lparr>sd_body = body, sd_digest = d cr tag body, sd_key_id = kid, sd_key_epoch = ep,
    sd_signature = b64_encode cr (ed_sign cr sk (sign_message tag (d cr tag body) kid (dec ep)))\<rparr>"
  have "valid_hash (d cr tag body)" using k(4) by (intro d_valid_hash) (simp add: crypto_ok_def)
  moreover have "is_sig cr (sd_signature ?sv)"
    using k(4) by (simp add: is_sig_def is_b64_len_def b64u_decode_def crypto_ok_def)
  ultimately have "valid_signed cr ?sv" using k(5,6) by (simp add: valid_signed_def)
  then have "signed_of cr (signed_value ?sv) = Inr ?sv" by (rule signed_dec_enc)
  moreover have "signed_value ?sv = sign_envelope cr tag body kid (dec ep) sk"
    by (simp add: signed_value_def sign_envelope_def Let_def ustr_def)
  moreover have "vouched cr trust tag subject ?sv"
    using k by (simp add: vouched_def env_sig_ok_def verify_envelope_def b64u_decode_def crypto_ok_def)
  ultimately show ?thesis by (metis Signed.select_convs(1))
qed

section \<open>The bundle\<close>

text \<open>The four lists of an export that is not empty.\<close>

type_synonym Parts = "(Value \<times> Item) list \<times> (Value \<times> Item) list \<times> (Value \<times> Item) list \<times> (Value option \<times> Item) list"

definition export_parts :: "Crypto \<Rightarrow> Daemon \<Rightarrow> bool \<Rightarrow> Parts R" where
  "export_parts cr dm full = (let st = dm_store dm in
     sbind (mapR (\<lambda>(_, r). export_item cr ''policy'' ''policy parse'' True (pw_body r)) (sort_by policy_before (st_policies st))) (\<lambda>pols.
     sbind (mapR (\<lambda>r. export_item cr ''observation'' ''obs parse'' full (or_envelope r)) (sort_by obs_in_order (st_observations st))) (\<lambda>obs.
     sbind (mapR (\<lambda>r. export_item cr ''effect'' ''effect parse'' full (fw_envelope r)) (sort_by effect_in_order (st_effects st))) (\<lambda>effs.
     sbind (mapR (export_evaluation cr dm full) (sort_by evaluation_in_order (st_evaluations st))) (\<lambda>evals.
     Inr (pols, obs, effs, evals))))))"

text \<open>
  Everything that is exported is signed under a live pin, and no two lines of the inventory name the same
  digest.
\<close>

definition attested :: "Crypto \<Rightarrow> Trust \<Rightarrow> Daemon \<Rightarrow> bool \<Rightarrow> bool" where
  "attested cr trust dm full \<longleftrightarrow> list_all (\<lambda>r. valid_hash (xr_input_digest r)) (st_evaluations (dm_store dm)) \<and>
     (case export_parts cr dm full of Inl _ \<Rightarrow> False | Inr (pols, obs, effs, evals) \<Rightarrow>
       list_all (policy_ok cr trust) (map fst pols) \<and> list_all (envelope_ok cr trust ''observation'') (map fst obs) \<and>
       list_all (envelope_ok cr trust ''effect'') (map fst effs) \<and>
       distinct (map (line_key \<circ> line_of) (map snd pols @ map snd obs @ map snd effs @ map snd evals)))"

definition line_ok :: "string \<Rightarrow> bool \<Rightarrow> Item \<Rightarrow> bool" where
  "line_ok tag full i \<longleftrightarrow> iv_tag (line_of i) = tag \<and> (iv_present (line_of i) \<longleftrightarrow> full) \<and> valid_inventory (line_of i)"

lemma read_length: "read_body msg p body = Inr x \<Longrightarrow> length body \<le> u_max"
  by (auto simp: read_body_def parse_def reply_limits_def u_max_def split: sum.splits if_split_asm)

lemma export_item_line:
  assumes "export_item cr tag msg present env = Inr x" and "tag \<in> {''policy'', ''observation'', ''effect''}"
  shows "line_ok tag present (snd x)"
  using assms read_length [of msg Inr env] signed_dec_valid
  by (fastforce simp: export_item_def sbind_eq_Inr line_ok_def line_of_def valid_inventory_def valid_signed_def)

lemma export_items_lines:
  assumes "mapR (\<lambda>r. export_item cr tag msg present (f r)) rows = Inr xs" and "tag \<in> {''policy'', ''observation'', ''effect''}"
  shows "list_all (line_ok tag present) (map snd xs)"
  using assms by (auto simp: list_all_iff elim!: mapR_set dest!: export_item_line)

lemma export_evaluations_lines:
  assumes "mapR (export_evaluation cr dm full) rows = Inr xs" and "list_all (\<lambda>r. valid_hash (xr_input_digest r)) rows"
    and "\<forall>x. length (sha256 cr x) = 32"
  shows "list_all (\<lambda>i. iv_tag (line_of i) = ''evaluation'' \<and> valid_inventory (line_of i)) (map snd xs)"
proof -
  have line: "iv_tag (line_of i) = ''evaluation'' \<and> valid_inventory (line_of i)"
    if "export_evaluation cr dm full r = Inr (v, i)" "valid_hash (xr_input_digest r)" for r v i
    using that assms(3) read_length [of "''eval parse''" Inr "xr_output r"]
    by (auto simp: export_evaluation_def sbind_eq_Inr Let_def line_of_def valid_inventory_def d_valid_hash)
  show ?thesis unfolding list_all_iff
  proof
    fix i assume "i \<in> set (map snd xs)"
    then obtain x where "x \<in> set xs" "i = snd x" by auto
    then obtain r where "r \<in> set rows" "export_evaluation cr dm full r = Inr (fst x, i)"
      by (metis assms(1) mapR_set prod.collapse)
    then show "iv_tag (line_of i) = ''evaluation'' \<and> valid_inventory (line_of i)"
      using line assms(2) by (auto simp: list_all_iff)
  qed
qed

definition exported :: "Crypto \<Rightarrow> Daemon \<Rightarrow> Head \<Rightarrow> string \<Rightarrow> Value list \<Rightarrow> Parts \<Rightarrow> Value" where
  "exported cr dm through disclosure vals parts = (case parts of (pols, obs, effs, evals) \<Rightarrow>
     let full = (disclosure = ''FULL'');
         body = manifest_value dm through disclosure (sort_by item_le (map snd pols @ map snd obs @ map snd effs @ map snd evals))
           (map (sha256_hex cr) (events_to (hd_seq through) (dm_store dm))) (limitations False full)
     in bundle_value (sign_envelope cr ''bundle'' body (cf_signer_key_id (dm_cfg dm)) (dec (cf_signer_key_epoch (dm_cfg dm))) (dm_sk dm))
          vals (map fst pols) (if full then map fst obs else []) (if full then map fst effs else []) (somes (map fst evals)))"

lemma export_Inr:
  assumes "hd_seq through \<noteq> 0" and "mapR (read_body ''event parse'' Inr) (events_to (hd_seq through) (dm_store dm)) = Inr vals"
    and "export_parts cr dm (disclosure = ''FULL'') = Inr parts"
  shows "export cr dm through disclosure = Inr (exported cr dm through disclosure vals parts)"
  using assms
  by (cases "disclosure = ''FULL''"; auto simp: export_def export_parts_def exported_def Let_def sbind_eq_Inr)

lemma members_of [simp]:
  "members [(''manifest'', mv), (''events'', Arr a), (''policies'', Arr b), (''observations'', Arr c), (''effects'', Arr e), (''evaluations'', Arr f)] ''events'' = a"
  "members [(''manifest'', mv), (''events'', Arr a), (''policies'', Arr b), (''observations'', Arr c), (''effects'', Arr e), (''evaluations'', Arr f)] ''policies'' = b"
  "members [(''manifest'', mv), (''events'', Arr a), (''policies'', Arr b), (''observations'', Arr c), (''effects'', Arr e), (''evaluations'', Arr f)] ''observations'' = c"
  "members [(''manifest'', mv), (''events'', Arr a), (''policies'', Arr b), (''observations'', Arr c), (''effects'', Arr e), (''evaluations'', Arr f)] ''effects'' = e"
  by (simp_all add: members_def mget_def)

lemma tag_filter: "list_all (line_ok t b) zs \<Longrightarrow> filter (\<lambda>i. iv_tag (line_of i) = tag) zs = (if t = tag then zs else [])"
  by (induction zs) (auto simp: line_ok_def)

lemma evaluation_filter: "list_all (\<lambda>i. iv_tag (line_of i) = ''evaluation'' \<and> valid_inventory (line_of i)) zs \<Longrightarrow>
    filter (\<lambda>i. iv_tag (line_of i) = tag) zs = (if tag = ''evaluation'' then zs else [])"
  by (induction zs) auto

lemma lines_count:
  assumes "list_all (line_ok ''policy'' True) ps" "list_all (line_ok ''observation'' full) os" "list_all (line_ok ''effect'' full) es"
    "list_all (\<lambda>i. iv_tag (line_of i) = ''evaluation'' \<and> valid_inventory (line_of i)) xs"
    and "bb_inventory bb = map line_of (sort_by item_le (ps @ os @ es @ xs))"
  shows "length (lines ''observation'' bb) = length os" "length (lines ''effect'' bb) = length es"
    "list_all (\<lambda>l. iv_present l \<longleftrightarrow> full) (lines ''observation'' bb)" "list_all (\<lambda>l. iv_present l \<longleftrightarrow> full) (lines ''effect'' bb)"
    "list_all valid_inventory (bb_inventory bb)"
proof -
  have count: "length (lines tag bb) = length (filter (\<lambda>i. iv_tag (line_of i) = tag) (ps @ os @ es @ xs))" for tag
  proof -
    have "length (filter (\<lambda>i. iv_tag (line_of i) = tag) (sort_by item_le (ps @ os @ es @ xs))) =
        length (filter (\<lambda>i. iv_tag (line_of i) = tag) (ps @ os @ es @ xs))"
      by (rule mset_eq_length) (unfold mset_filter mset_sort_by, rule refl)
    then show ?thesis by (simp only: lines_def assms(5) filter_map length_map comp_def)
  qed
  note l = assms(1-4) [unfolded line_ok_def list_all_iff]
  show "length (lines ''observation'' bb) = length os" "length (lines ''effect'' bb) = length es"
    unfolding count filter_append using tag_filter [OF assms(1)] tag_filter [OF assms(2)] tag_filter [OF assms(3)]
      evaluation_filter [OF assms(4)] by simp_all
  show "list_all (\<lambda>l. iv_present l \<longleftrightarrow> full) (lines ''observation'' bb)" "list_all (\<lambda>l. iv_present l \<longleftrightarrow> full) (lines ''effect'' bb)"
    "list_all valid_inventory (bb_inventory bb)"
    unfolding lines_def assms(5) using l by (auto simp: list_all_iff)
qed

lemma limitations_valid: "list_all valid_text (limitations False full)"
  by (simp add: limitations_def valid_text_def text_max_def)

lemma export_accepted:
  assumes audit: "audit_ok cr (dm_store dm)" and through: "head_exists through (dm_store dm)" "hd_seq through \<noteq> 0"
    and bound: "hd_seq through \<le> array_max" and disclosure: "disclosure \<in> {''FULL'', ''COMMITMENTS''}"
    and tenant: "tr_tenant trust = cf_tenant (dm_cfg dm)" "valid_id (cf_tenant (dm_cfg dm))"
    and signer: "pinned cr trust ''bundle'' (cf_tenant (dm_cfg dm)) (cf_signer_key_id (dm_cfg dm)) (cf_signer_key_epoch (dm_cfg dm)) (dm_sk dm)"
    and rows: "\<forall>r \<in> set (take (hd_seq through) (st_audit (dm_store dm))). \<exists>v. reads_as cr trust r v"
    and parts: "attested cr trust dm (disclosure = ''FULL'')"
    and minimum: "hd_seq (tr_minimum_head trust) \<le> hd_seq through"
  shows "\<exists>b. export cr dm through disclosure = Inr b \<and>
    passes cr b trust (if disclosure = ''FULL'' then ''FULL_REPLAY'' else ''INTEGRITY_ONLY'') through"
proof -
  let ?full = "disclosure = ''FULL''" and ?n = "hd_seq through" and ?audit = "st_audit (dm_store dm)"
  have chain: "chained cr empty_head ?audit" using audit by (simp add: audit_ok_def)
  note prefix = last_head_take [OF chain through]
  define rs where "rs = take ?n ?audit"
  have events: "events_to ?n (dm_store dm) = map au_envelope rs" by (simp add: events_to_def rows_to [OF chain] rs_def)
  obtain vals where vals: "list_all2 (reads_as cr trust) rs vals"
    using rows bchoice [of "set rs" "reads_as cr trust"] unfolding rs_def list_all2_conv_all_nth
    by (metis length_map nth_map nth_mem)
  have read: "mapR (read_body ''event parse'' Inr) (events_to ?n (dm_store dm)) = Inr vals"
    unfolding events mapR_eq_Inr list_all2_map1 using vals
    by (rule list_all2_mono) (simp add: reads_as_def read_body_def)
  obtain pols obs effs evals where p: "export_parts cr dm ?full = Inr (pols, obs, effs, evals)"
    using parts by (auto simp: attested_def split: sum.splits)
  let ?items = "sort_by item_le (map snd pols @ map snd obs @ map snd effs @ map snd evals)"
  let ?hashes = "map (sha256_hex cr) (events_to ?n (dm_store dm))"
  let ?bb = "manifest_body (cf_tenant (dm_cfg dm)) through disclosure ?items ?hashes (limitations False ?full)"
  have crypto: "\<forall>x. length (sha256 cr x) = 32" using signer by (auto simp: pinned_def crypto_ok_def split: option.splits)
  have inv: "list_all (line_ok ''policy'' True) (map snd pols)" "list_all (line_ok ''observation'' ?full) (map snd obs)"
    "list_all (line_ok ''effect'' ?full) (map snd effs)"
    "list_all (\<lambda>i. iv_tag (line_of i) = ''evaluation'' \<and> valid_inventory (line_of i)) (map snd evals)"
  proof -
    note q = p [unfolded export_parts_def Let_def sbind_eq_Inr]
    show "list_all (line_ok ''policy'' True) (map snd pols)"
      by (rule export_items_lines [where rows = "map snd (sort_by policy_before (st_policies (dm_store dm)))" and f = pw_body
        and cr = cr and msg = "''policy parse''"]) (use q in \<open>auto simp: mapR_eq_Inr list_all2_map1 case_prod_unfold\<close>)
    show "list_all (line_ok ''observation'' ?full) (map snd obs)"
      by (rule export_items_lines [where rows = "sort_by obs_in_order (st_observations (dm_store dm))" and f = or_envelope
        and cr = cr and msg = "''obs parse''"]) (use q in auto)
    show "list_all (line_ok ''effect'' ?full) (map snd effs)"
      by (rule export_items_lines [where rows = "sort_by effect_in_order (st_effects (dm_store dm))" and f = fw_envelope
        and cr = cr and msg = "''effect parse''"]) (use q in auto)
    show "list_all (\<lambda>i. iv_tag (line_of i) = ''evaluation'' \<and> valid_inventory (line_of i)) (map snd evals)"
      by (rule export_evaluations_lines [where rows = "sort_by evaluation_in_order (st_evaluations (dm_store dm))" and dm = dm and full = ?full, OF _ _ crypto])
        (use q parts in \<open>auto simp: attested_def list_all_iff\<close>)
  qed
  have bb: "bb_inventory ?bb = map line_of ?items" by (simp add: manifest_body_def)
  note lines = lines_count [OF inv bb]
  obtain r where r: "rs = butlast rs @ [r]" using prefix unfolding rs_def by (metis append_butlast_last_id)
  have last: "hd_seq through = au_seq r" "hd_hash through = au_hash r" using prefix r unfolding rs_def
    by (metis last_head_append Head.select_convs)+
  have "r \<in> set rs" using r by (metis in_set_conv_decomp)
  then obtain v where "reads_as cr trust r v" using rows unfolding rs_def by blast
  then have "valid_hash (hd_hash through)" unfolding last using signed_dec_valid
    by (fastforce simp: reads_as_def valid_signed_def)
  then have heads: "valid_head through" "valid_head empty_head"
    using bound by (simp_all add: valid_head_def empty_head_def array_max_def u_max_def)
  have hashes: "list_all valid_hash ?hashes" "length ?hashes \<le> array_max"
  proof -
    have "valid_hash (sha256_hex cr x)" for x using crypto by (simp add: sha256_hex_def valid_hash_def hex_lower_chars)
    then show "list_all valid_hash ?hashes" "length ?hashes \<le> array_max"
      using prefix bound unfolding events by (simp_all add: rs_def list_all_iff)
  qed
  have valid: "valid_bundle_body ?bb"
    using lines(5) heads hashes tenant(2) disclosure limitations_valid unfolding valid_bundle_body_def manifest_body_def by simp
  obtain sv where sv: "signed_of cr (sign_envelope cr ''bundle'' (manifest_value dm through disclosure ?items ?hashes (limitations False ?full))
      (cf_signer_key_id (dm_cfg dm)) (dec (cf_signer_key_epoch (dm_cfg dm))) (dm_sk dm)) = Inr sv"
    "sd_body sv = manifest_value dm through disclosure ?items ?hashes (limitations False ?full)"
    "vouched cr trust ''bundle'' (cf_tenant (dm_cfg dm)) sv" using pinned_signs [OF signer] by blast
  note manifest = manifest_reads [OF valid] sv
  let ?b = "exported cr dm through disclosure vals (pols, obs, effs, evals)"
  let ?mv = "sign_envelope cr ''bundle'' (manifest_value dm through disclosure ?items ?hashes (limitations False ?full))
      (cf_signer_key_id (dm_cfg dm)) (dec (cf_signer_key_epoch (dm_cfg dm))) (dm_sk dm)"
  let ?m = "[(''manifest'', ?mv), (''events'', Arr vals), (''policies'', Arr (map fst pols)),
     (''observations'', Arr (if ?full then map fst obs else [])), (''effects'', Arr (if ?full then map fst effs else [])),
     (''evaluations'', Arr (somes (map fst evals)))]"
  have b: "obj_of ?b = Inr ?m" by (simp add: exported_def bundle_value_def Let_def obj_of_def)
  have attest: "list_all (policy_ok cr trust) (map fst pols)" "list_all (envelope_ok cr trust ''observation'') (map fst obs)"
    "list_all (envelope_ok cr trust ''effect'') (map fst effs)"
    "distinct (map (line_key \<circ> line_of) (map snd pols @ map snd obs @ map snd effs @ map snd evals))"
    using parts p by (simp_all add: attested_def)
  have keys: "distinct (map line_key (bb_inventory ?bb))"
    using attest(4) unfolding bb map_map distinct_map by simp
  have chained: "proven cr trust empty_head vals ?hashes through"
  proof -
    have "chained cr empty_head rs" using chain unfolding rs_def by (metis append_take_drop_id chained_append)
    from rows_proven [OF this vals] show ?thesis using prefix unfolding events map_map rs_def [symmetric] by simp
  qed
  have ne: "vals \<noteq> []" using vals r by (auto simp: list_all2_conv_all_nth)
  have "genuine cr trust ?m sv ?bb through"
    using chained ne keys attest(1-3) minimum tenant manifest(4) by (simp add: genuine_def manifest_body_def)
  moreover have "disclosed ?m ?bb" if ?full
    using lines(1-4) that by (simp add: disclosed_def)
  ultimately have "passes cr ?b trust (if ?full then ''FULL_REPLAY'' else ''INTEGRITY_ONLY'') through"
    unfolding passes_def using b manifest(1-3) disclosure by (auto simp: mget_def manifest_body_def)
  then show ?thesis using export_Inr [OF through(2) read p] by blast
qed

section \<open>Rows of a pinned signer\<close>

definition row_trusted :: "Crypto \<Rightarrow> Trust \<Rightarrow> AuditRow \<Rightarrow> bool" where
  "row_trusted cr trust r \<longleftrightarrow> (\<exists>cx body. r = audit_row cr cx body \<and> valid_event_body cr body \<and> shape_ok (ev_value body) \<and>
     pinned cr trust ''audit'' (ev_tenant body) (cx_key_id cx) (cx_key_epoch cx) (cx_sk cx) \<and>
     (\<exists>v. parse (au_envelope r) reply_limits = Inr v))"

lemma vouched_canon: "vouched cr trust tag subject (canon_signed sv) \<longleftrightarrow> vouched cr trust tag subject sv"
  by (simp add: vouched_def env_sig_ok_def verify_envelope_def d_def d_input_def jcs_of_canon cong: option.case_cong)

lemma row_trusted_reads: "row_trusted cr trust r \<Longrightarrow> \<exists>v. reads_as cr trust r v"
proof -
  assume "row_trusted cr trust r"
  then obtain cx body v where r: "r = audit_row cr cx body" "valid_event_body cr body" "shape_ok (ev_value body)"
      "parse (au_envelope r) reply_limits = Inr v"
    and pin: "pinned cr trust ''audit'' (ev_tenant body) (cx_key_id cx) (cx_key_epoch cx) (cx_sk cx)"
    unfolding row_trusted_def by blast
  let ?env = "sign_envelope cr ''audit'' (event_body_value body) (cx_key_id cx) (dec (cx_key_epoch cx)) (cx_sk cx)"
  obtain sv where sv: "signed_of cr ?env = Inr sv" "sd_body sv = event_body_value body"
    "vouched cr trust ''audit'' (ev_tenant body) sv" using pinned_signs [OF pin] by blast
  note v = row_reads [OF r(2,3) r(4) [unfolded r(1)]]
  have "signed_of cr v = Inr (canon_signed sv)" using v sv(1) by (simp add: signed_canon)
  moreover have "event_body_of cr (sd_body (canon_signed sv)) = Inr (ev_value_update canon body)"
    using sv(2) event_body_dec_enc [OF r(2)] by (simp add: event_body_canon)
  moreover have "sd_digest sv = au_hash r" using vouched_digest [OF sv(3)] sv(2) by (simp add: r(1) audit_row_def Let_def)
  ultimately have "reads_as cr trust r v"
    using v r(4) sv(3) vouched_canon unfolding reads_as_def by (fastforce simp: r(1) audit_row_def Let_def)
  then show ?thesis by blast
qed

section \<open>Guarantees\<close>


text \<open>
  C9. The head binds the history: two bundles without duplicate members, as every parsed
  bundle is, accepted under any two trust files up to the same head hold event for event the same canonical
  bodies, unless they exhibit two different bodies with one digest.
\<close>

definition bundle_events :: "Value \<Rightarrow> Value list" where
  "bundle_events b = (case b of Obj m \<Rightarrow> members m ''events'' | _ \<Rightarrow> [])"

theorem head_binds_history:
  assumes "text_ok b" "text_ok b'"
    and "verify cr b trust = verification v r h" "verify cr b' trust' = verification v' r' h"
    and "{v, v'} \<subseteq> {''FULL_REPLAY'', ''INTEGRITY_ONLY''}"
  shows "map jcs (event_bodies cr (bundle_events b)) = map jcs (event_bodies cr (bundle_events b')) \<or>
    (\<exists>x \<in> set (event_bodies cr (bundle_events b)). \<exists>y \<in> set (event_bodies cr (bundle_events b')).
       jcs x \<noteq> jcs y \<and> d cr ''audit'' x = d cr ''audit'' y)"
proof -
  have chain: "\<exists>hashes. proven cr t empty_head (bundle_events b) hashes h \<and> (\<forall>v \<in> set (bundle_events b). text_ok v)"
    if "text_ok b" "verify cr b t = verification v r h" "v \<in> {''FULL_REPLAY'', ''INTEGRITY_ONLY''}"
    for b t v r
  proof -
    note accepted = that
    obtain m mv manifest bb where m: "obj_of b = Inr m" and g: "genuine cr t m manifest bb h"
      using iffD1 [OF verify_iff [OF accepted(3)] accepted(2), THEN conjunct2] unfolding passes_def by (elim exE conjE)
    have b: "b = Obj m" using m by (simp add: obj_of_def ok_or_eq_Inr accessor_Some)
    have "text_ok x" if "x \<in> set (members m ''events'')" for x
      using text_members accepted(1) that unfolding b by blast
    then show ?thesis using g b by (auto simp: genuine_def bundle_events_def)
  qed
  obtain hashes hashes' where "proven cr trust empty_head (bundle_events b) hashes h" "proven cr trust' empty_head (bundle_events b') hashes' h"
    "\<forall>v \<in> set (bundle_events b) \<union> set (bundle_events b'). text_ok v"
    using chain [OF assms(1,3)] chain [OF assms(2,4)] assms(5) by auto
  then show ?thesis by (rule history_bound)
qed

section \<open>A bundle of one event\<close>

definition first_row :: AuditRow where
  "first_row = audit_row toy_crypto (emit_ctx sample_daemon) drain_event"

definition sample_head :: Head where
  "sample_head = \<lparr>hd_seq = 1, hd_hash = au_hash first_row\<rparr>"

definition sample_witness :: Daemon where
  "sample_witness = sample_daemon\<lparr>dm_store := empty_store\<lparr>st_audit := [first_row]\<rparr>\<rparr>"

definition sample_pins :: Trust where
  "sample_pins = sample_trust\<lparr>tr_keys := [\<lparr>kp_id = ''a'', kp_public_key = hex_lower (replicate 32 CHR ''p''),
     kp_tags = [''audit'', ''bundle''], kp_subjects = [''lab''], kp_from_epoch = 1, kp_through_epoch = None,
     kp_live = True, kp_compromised = False\<rparr>]\<rparr>"

lemma toy_simps: "b64_encode toy_crypto x = hex_lower x" "b64u_decode toy_crypto (hex_lower x) = Some x"
  "length (ed_sign toy_crypto k m) = 64" "utf8_ok (d cr tag v)" "length (d toy_crypto tag v) = 64"
  by (simp_all add: toy_crypto_def b64u_decode_def hex_decode_lower hex_lower_no_eq d_def utf8_hex)

lemma sample_pinned: "tag \<in> {''audit'', ''bundle''} \<Longrightarrow> pinned toy_crypto sample_pins tag ''lab'' ''a'' 1 sk"
  by (auto simp: pinned_def pin_for_def pin_matches_def sample_pins_def toy_crypto_ok valid_id_def id_char_def u_max_def toy_simps)

lemma sample_fields: "ev_tenant drain_event = ''lab''" "cx_key_id (emit_ctx sample_daemon) = ''a''"
  "cx_key_epoch (emit_ctx sample_daemon) = 1" "shape_ok (ev_value drain_event)"
  by (simp_all add: drain_event_def event_at_def emit_ctx_def sample_daemon_def boot_daemon_def sample_config_def host_value_def ustr_def)

lemma sample_parses: "\<exists>v. parse (au_envelope first_row) reply_limits = Inr v"
proof -
  let ?env = "sign_envelope toy_crypto ''audit'' (event_body_value drain_event) ''a'' (dec 1) (cx_sk (emit_ctx sample_daemon))"
  have env: "au_envelope first_row = jcs ?env"
    by (simp add: first_row_def audit_row_def Let_def sample_fields)
  have boot: "utf8_ok sample_boot" "length sample_boot = 36" "utf8_ok zero_hash" "length zero_hash = 64"
    by (simp_all add: sample_boot_def utf8_ok_ascii zero_hash_def list_all_iff)
  note simps = sign_envelope_def event_body_value_def drain_event_def event_at_def emit_ctx_def sample_daemon_def
    boot_daemon_def sample_config_def host_value_def empty_head_def Let_def opt_value_def
  have "val_ok reply_limits 0 ?env"
    by (simp add: simps toy_simps boot utf8_hex digits_ascii dec_digits utf8_ok_ascii reply_limits_def num_def ustr_def sort_by_def)
  moreover have "length (dec 1) = 1" "length (dec 5) = 1" by (simp_all add: dec.simps)
  then have "jcs_bound ?env \<le> max_bytes reply_limits"
    by (simp add: simps toy_simps boot reply_limits_def num_def ustr_def sort_by_def)
  ultimately show ?thesis using parse_canonical jcs_bounded [of ?env] unfolding env by fastforce
qed

lemma sample_sound: "audit_ok toy_crypto (dm_store sample_witness)" "head_exists sample_head (dm_store sample_witness)"
  "list_all (row_trusted toy_crypto sample_pins) (st_audit (dm_store sample_witness))"
proof -
  have "row_ok toy_crypto first_row" using drain_event_valid unfolding row_ok_def first_row_def by blast
  moreover have "au_seq first_row = 1" "au_prev first_row = zero_hash"
    by (simp_all add: first_row_def audit_row_def drain_event_def event_at_def empty_head_def Let_def)
  ultimately show "audit_ok toy_crypto (dm_store sample_witness)" "head_exists sample_head (dm_store sample_witness)"
    by (simp_all add: audit_ok_def sample_witness_def empty_head_def head_exists_def sample_head_def)
  have "row_trusted toy_crypto sample_pins first_row"
    unfolding row_trusted_def
  proof (intro exI [of _ "emit_ctx sample_daemon"] exI [of _ drain_event] conjI)
    show "first_row = audit_row toy_crypto (emit_ctx sample_daemon) drain_event" by (rule first_row_def)
  qed (use sample_fields drain_event_valid sample_parses sample_pinned [of "''audit''"] in auto)
  then show "list_all (row_trusted toy_crypto sample_pins) (st_audit (dm_store sample_witness))"
    by (simp add: sample_witness_def)
qed

lemma sample_attested: "attested toy_crypto sample_pins sample_witness full"
  "export_parts toy_crypto sample_witness full = Inr ([], [], [], [])"
  by (simp_all add: attested_def export_parts_def sample_witness_def empty_store_def Let_def)

lemma sample_host: "dm_cfg sample_witness = sample_config" "tr_tenant sample_pins = ''lab''" "hd_seq sample_head = 1"
  "hd_seq (tr_minimum_head sample_pins) = 0" "st_audit (dm_store sample_witness) = [first_row]"
  by (simp_all add: sample_witness_def sample_daemon_def boot_daemon_def sample_pins_def sample_trust_def sample_head_def)

text \<open>Both disclosures of it are accepted, and neither has a duplicate member.\<close>

lemma sample_accepted:
  assumes "disclosure \<in> {''FULL'', ''COMMITMENTS''}"
  shows "\<exists>b. text_ok b \<and> export toy_crypto sample_witness sample_head disclosure = Inr b \<and>
    passes toy_crypto b sample_pins (if disclosure = ''FULL'' then ''FULL_REPLAY'' else ''INTEGRITY_ONLY'') sample_head"
proof -
  have rows: "\<forall>r \<in> set (take (hd_seq sample_head) (st_audit (dm_store sample_witness))). \<exists>v. reads_as toy_crypto sample_pins r v"
    using sample_sound(3) row_trusted_reads by (auto simp: sample_host)
  have "valid_id ''lab''" by (simp add: valid_id_def id_char_def)
  then have "\<exists>b. export toy_crypto sample_witness sample_head disclosure = Inr b \<and>
      passes toy_crypto b sample_pins (if disclosure = ''FULL'' then ''FULL_REPLAY'' else ''INTEGRITY_ONLY'') sample_head"
    using sample_pinned [of "''bundle''"]
    by (intro export_accepted [OF sample_sound(1,2) _ _ assms _ _ _ rows sample_attested(1)])
      (simp_all add: sample_host sample_config_def array_max_def)
  then obtain b where b: "export toy_crypto sample_witness sample_head disclosure = Inr b"
    "passes toy_crypto b sample_pins (if disclosure = ''FULL'' then ''FULL_REPLAY'' else ''INTEGRITY_ONLY'') sample_head" by blast
  obtain v where v: "parse (au_envelope first_row) reply_limits = Inr v" using sample_parses by blast
  have events: "events_to (hd_seq sample_head) (dm_store sample_witness) = [au_envelope first_row]"
    using rows_to [of toy_crypto "[first_row]" 1] sample_sound(1) by (simp add: events_to_def sample_host audit_ok_def)
  then have "b = exported toy_crypto sample_witness sample_head disclosure [v] ([], [], [], [])"
    using export_Inr [OF _ _ sample_attested(2), of sample_head "[v]" disclosure] b(1) v by (simp add: read_body_def sample_host)
  moreover have "text_ok v" using v by (rule parsed_text)
  moreover have "utf8_ok (hd_hash sample_head)" by (simp add: sample_head_def first_row_def audit_row_def Let_def toy_simps)
  moreover have "utf8_ok (replicate 64 CHR ''0'')" "somes [] = ([] :: Value list)"
    by (simp_all add: utf8_ok_ascii list_all_iff somes_def)
  moreover have "utf8_ok disclosure" using assms by (auto simp: utf8_ok_ascii)
  ultimately have "text_ok b"
    by (simp add: text_ok_def exported_def bundle_value_def manifest_value_def sign_envelope_def Let_def head_value_def
        events [unfolded sample_host One_nat_def] sample_host sample_config_def num_def ustr_def toy_simps utf8_hex utf8_ok_ascii digits_ascii dec_digits
        limitations_def sha256_hex_def empty_head_def zero_hash_def item_value_def del: jcs.simps)
  then show ?thesis using b by blast
qed


theorem head_binds_history_witness:
  "\<exists>b b'. export toy_crypto sample_witness sample_head ''FULL'' = Inr b \<and>
    export toy_crypto sample_witness sample_head ''COMMITMENTS'' = Inr b' \<and>
    (map jcs (event_bodies toy_crypto (bundle_events b)) = map jcs (event_bodies toy_crypto (bundle_events b')) \<or>
     (\<exists>x \<in> set (event_bodies toy_crypto (bundle_events b)). \<exists>y \<in> set (event_bodies toy_crypto (bundle_events b')).
       jcs x \<noteq> jcs y \<and> d toy_crypto ''audit'' x = d toy_crypto ''audit'' y))"
proof -
  obtain b where b: "text_ok b" "export toy_crypto sample_witness sample_head ''FULL'' = Inr b"
    "verify toy_crypto b sample_pins = verification ''FULL_REPLAY'' [] sample_head"
    using sample_accepted [of "''FULL''"] verify_iff [of "''FULL_REPLAY''"] by auto
  obtain b' where b': "text_ok b'" "export toy_crypto sample_witness sample_head ''COMMITMENTS'' = Inr b'"
    "verify toy_crypto b' sample_pins = verification ''INTEGRITY_ONLY'' [''OMITTED_BYTES''] sample_head"
    using sample_accepted [of "''COMMITMENTS''"] verify_iff [of "''INTEGRITY_ONLY''"] by auto
  show ?thesis using head_binds_history [OF b(1) b'(1) b(3) b'(3)] b(2) b'(2) by blast
qed

end
