(* ===== verification/Fixture.thy ===== *)
theory Fixture
  imports EventCanon "HOL-Library.AList"
begin

text \<open>
  The inert fixture adapter (\<open>fixture.rs\<close>, \<open>adapters.rs\<close>): reads and writes of a private table of records,
  the intent that a request is checked under, and the profiles this build serves.
\<close>

datatype ToolReq = TrRead string | TrWrite string string nat

fun tool_request_value :: "ToolReq \<Rightarrow> Value" where
  "tool_request_value (TrRead rec) = Obj [(''op'', Str ''read''), (''record'', Str rec)]"
| "tool_request_value (TrWrite rec v cost) = Obj [(''op'', Str ''write''), (''record'', Str rec), (''value'', Str v),
     (''cost_minor'', ustr cost)]"

fun req_record :: "ToolReq \<Rightarrow> string" where
  "req_record (TrRead rec) = rec"
| "req_record (TrWrite rec v cost) = rec"

text \<open>The cost of a read is zero; that of a write is the caller's, not the member of the request.\<close>

definition intent_for :: "Crypto \<Rightarrow> ToolReq \<Rightarrow> string \<Rightarrow> nat \<Rightarrow> nat \<Rightarrow> Intent" where
  "intent_for cr t runtime target_revision cost_minor =
    (let req_v = tool_request_value t;
         (tool, scopes, cost) = (case t of TrRead _ \<Rightarrow> (''record.read'', [''read''], 0)
            | TrWrite _ _ _ \<Rightarrow> (''record.write'', [''write''], cost_minor));
         authority = d cr ''authority'' (Obj [(''principal'', Str runtime), (''record'', Str (req_record t))])
     in \<lparr>it_action = ''act_'' @ take 16 (d cr ''raw-request'' req_v), it_request_hash = d cr ''raw-request'' req_v,
         it_tool = tool, it_target_revision = target_revision, it_authority_hash = authority, it_scopes = scopes,
         it_cost_minor = cost\<rparr>)"

text \<open>The table: a record has a value and a revision. The fault is that of a value over the bound.\<close>

type_synonym Records = "(string \<times> string \<times> nat) list"

definition put_record :: "string \<Rightarrow> string \<Rightarrow> nat \<Rightarrow> Records \<Rightarrow> Records" where
  "put_record rec v revision rs = AList.update rec (v, revision) rs"

fun execute_on :: "ToolReq \<Rightarrow> Records \<Rightarrow> (string option \<times> nat) R \<times> Records" where
  "execute_on (TrRead rec) rs = (case map_of rs rec of
     Some (v, r) \<Rightarrow> (Inr (Some v, r), rs) | None \<Rightarrow> (Inr (None, 0), rs))"
| "execute_on (TrWrite rec v cost) rs =
     (if length v > text_max then (Inl (schem ''value too large''), rs)
      else let revision = (case map_of rs rec of Some (_, r) \<Rightarrow> r | None \<Rightarrow> 0) + 1
        in (Inr (None, revision), put_record rec v revision rs))"

definition request_bytes :: "ToolReq \<Rightarrow> string" where
  "request_bytes t = jcs (tool_request_value t)"

definition profile_available :: "string \<Rightarrow> string list \<Rightarrow> bool" where
  "profile_available profile certified \<longleftrightarrow> profile \<in> set certified \<and> profile = ''fixture/1''"

definition runtime_guard_unavailable :: Fault where
  "runtime_guard_unavailable = new_fault AdapterUnavailable
     ''runtime-guard/1 requires a separately certified adapter (not implemented in OSS core)''"

section \<open>The table after a sequence of requests\<close>

definition execute_all :: "ToolReq list \<Rightarrow> Records \<Rightarrow> Records" where
  "execute_all ts rs = fold (\<lambda>t rs. snd (execute_on t rs)) ts rs"

text \<open>The writes to a record that are within the bound.\<close>

definition writes_to :: "string \<Rightarrow> ToolReq list \<Rightarrow> string list" where
  "writes_to rec ts = concat (map (\<lambda>t. case t of TrWrite r v _ \<Rightarrow> if r = rec \<and> length v \<le> text_max then [v] else []
     | TrRead _ \<Rightarrow> []) ts)"

lemma writes_to_snoc: "writes_to rec (ts @ [t]) = writes_to rec ts @
    (case t of TrWrite r v _ \<Rightarrow> if r = rec \<and> length v \<le> text_max then [v] else [] | TrRead _ \<Rightarrow> [])"
  by (simp add: writes_to_def split: ToolReq.split)

lemma execute_record: "map_of (snd (execute_on t rs)) rec =
    (case t of TrWrite r v _ \<Rightarrow> if r = rec \<and> length v \<le> text_max
        then Some (v, (case map_of rs rec of Some (_, k) \<Rightarrow> k | None \<Rightarrow> 0) + 1) else map_of rs rec
     | TrRead _ \<Rightarrow> map_of rs rec)"
  by (cases t) (auto simp: put_record_def update_conv' Let_def split: option.split)

text \<open>
  Remark. After any sequence of requests on an empty table a record holds the last value written to
  it within the bound, its revision is the number of those writes, and a read returns both and changes nothing.
\<close>

theorem record_history:
  "map_of (execute_all ts []) rec = (case writes_to rec ts of [] \<Rightarrow> None
     | vs \<Rightarrow> Some (last vs, length vs)) \<and>
   execute_on (TrRead rec) (execute_all ts []) =
     (Inr (case writes_to rec ts of [] \<Rightarrow> (None, 0) | vs \<Rightarrow> (Some (last vs), length vs)), execute_all ts [])"
proof -
  have state: "map_of (execute_all ts []) rec = (case writes_to rec ts of [] \<Rightarrow> None | vs \<Rightarrow> Some (last vs, length vs))"
  proof (induction ts rule: rev_induct)
    case (snoc t ts)
    have now: "map_of (execute_all (ts @ [t]) []) rec = map_of (snd (execute_on t (execute_all ts []))) rec"
      by (simp add: execute_all_def)
    show ?case unfolding now execute_record writes_to_snoc using snoc.IH
      by (cases "writes_to rec ts"; cases t) auto
  qed (simp add: execute_all_def writes_to_def)
  then show ?thesis by (auto split: list.splits)
qed

text \<open>What the adapter builds, the schema of tool requests admits and returns as it is.\<close>

lemma tool_request_admitted:
  "valid_id (req_record t) \<Longrightarrow> (case t of TrRead _ \<Rightarrow> True | TrWrite _ v cost \<Rightarrow> valid_text v \<and> cost \<le> u_max) \<Longrightarrow>
    tool_request (tool_request_value t) = Inr (tool_request_value t)"
  by (cases t) (simp_all add: tool_request_def field_def s_of_def fld_some closed_eval codec_enc)

end
