(* ===== verification/Keys.thy ===== *)
theory Keys
  imports Gates
begin

text \<open>
  Key files (\<open>crypto.rs\<close>: \<open>signing_key_from_bytes\<close>; \<open>config.rs\<close>: \<open>read_bounded\<close>, \<open>load_signer\<close>). A key is a
  raw seed, a PKCS8 document or PEM armour around either; the armour is removed by a recursive call on what
  the base64 decoder returns. The decoder (\<open>base64\<close>, the standard alphabet) is a parameter; the call that
  never returns is the value \<open>None\<close>.
\<close>

section \<open>White space and lines of text\<close>

text \<open>The number of bytes of the white space character at the head of a text, 0 if there is none.\<close>

definition ws_len :: "nat list \<Rightarrow> nat" where
  "ws_len bs = (case bs of [] \<Rightarrow> 0 | b # r \<Rightarrow>
     if 9 \<le> b \<and> b \<le> 13 \<or> b = 32 then 1
     else if b = 0xC2 \<and> (take 1 r = [0x85] \<or> take 1 r = [0xA0]) then 2
     else if b = 0xE1 \<and> take 2 r = [0x9A, 0x80] then 3
     else if b = 0xE2 \<and> length r \<ge> 2 \<and> (r ! 0 = 0x80 \<and> (0x80 \<le> r ! 1 \<and> r ! 1 \<le> 0x8A \<or> r ! 1 \<in> {0xA8, 0xA9, 0xAF})
         \<or> r ! 0 = 0x81 \<and> r ! 1 = 0x9F) then 3
     else if b = 0xE3 \<and> take 2 r = [0x80, 0x80] then 3 else 0)"

function trim_start :: "string \<Rightarrow> string" where
  "trim_start t = (if t = [] \<or> ws_len (bytes t) = 0 then t else trim_start (drop (ws_len (bytes t)) t))"
  by pat_completeness auto
termination by (relation "measure length") auto

text \<open>The number of bytes of the white space character at the end.\<close>

definition ws_end :: "string \<Rightarrow> nat" where
  "ws_end t = (if t = [] then 0
     else case find (\<lambda>k. k \<le> length t \<and> ws_len (bytes (drop (length t - k) t)) = k) [1, 2, 3] of
       Some k \<Rightarrow> k | None \<Rightarrow> 0)"

function trim_end :: "string \<Rightarrow> string" where
  "trim_end t = (if t = [] \<or> ws_end t = 0 then t else trim_end (take (length t - ws_end t) t))"
  by pat_completeness auto
termination by (relation "measure length") auto

declare trim_start.simps [simp del] trim_end.simps [simp del]

definition trim :: "string \<Rightarrow> string" where
  "trim t = trim_end (trim_start t)"

lemma trim_start_length: "length (trim_start t) \<le> length t"
proof (induction t rule: trim_start.induct)
  case (1 t)
  then show ?case by (subst trim_start.simps) fastforce
qed

lemma trim_end_length: "length (trim_end t) \<le> length t"
proof (induction t rule: trim_end.induct)
  case (1 t)
  then show ?case by (subst trim_end.simps) fastforce
qed

lemma trim_length: "length (trim t) \<le> length t"
  using trim_start_length [of t] trim_end_length [of "trim_start t"] by (simp add: trim_def)

lemma trim_Nil [simp]: "trim [] = []"
  by (simp add: trim_def trim_start.simps trim_end.simps)

definition strip_cr :: "string \<Rightarrow> string" where
  "strip_cr l = (if l \<noteq> [] \<and> last l = CHR 0x0D then butlast l else l)"

definition text_lines :: "string \<Rightarrow> string list" where
  "text_lines t = (let ws = split_on (CHR 0x0A) t
     in map strip_cr (butlast ws) @ (if last ws = [] then [] else [last ws]))"

lemma split_on_length: "length (concat (split_on c t)) \<le> length t"
  by (induction t) (auto split: list.splits)

lemma split_on_Cons [simp]: "split_on c t \<noteq> []"
  by (cases t) (auto split: list.split)

lemma text_lines_length: "length (concat (text_lines t)) \<le> length t"
proof -
  have "length (concat (map strip_cr ls)) \<le> length (concat ls)" for ls
    by (induction ls) (auto simp: strip_cr_def)
  moreover have "length (concat ls) = length (concat (butlast ls)) + length (last ls)" if "ls \<noteq> []" for ls :: "string list"
    using that by (metis append_butlast_last_id concat_append concat.simps length_append append_Nil2)
  ultimately have "length (concat (text_lines t)) \<le> length (concat (split_on (CHR 0x0A) t))"
    using split_on_Cons [of "CHR 0x0A" t] by (simp add: text_lines_def Let_def)
  then show ?thesis using split_on_length [of "CHR 0x0A" t] by simp
qed

section \<open>Signing keys\<close>

text \<open>The lines of PEM armour that are neither markers nor blank, put together.\<close>

definition armor_body :: "string \<Rightarrow> string" where
  "armor_body t = concat (filter (\<lambda>l. \<not> starts_with l ''-----'' \<and> trim l \<noteq> []) (text_lines t))"

definition pkcs8_prefix :: string where
  "pkcs8_prefix = map char_of [0x30::nat, 0x2e, 0x02, 0x01, 0x00, 0x30, 0x05, 0x06, 0x03, 0x2b, 0x65, 0x70, 0x04, 0x22, 0x04, 0x20]"

partial_function (option) signing_key :: "(string \<Rightarrow> string option) \<Rightarrow> string \<Rightarrow> string option option" where
  "signing_key std b =
    (if length b = 32 then Some (Some b)
     else if length b = 48 \<and> take 16 b = pkcs8_prefix then Some (Some (drop 16 b))
     else if \<not> utf8_ok b then Some None
     else case std (trim (armor_body b)) of None \<Rightarrow> Some None | Some der \<Rightarrow> signing_key std der)"

definition read_bounded :: "string + string \<Rightarrow> nat \<Rightarrow> string R" where
  "read_bounded read bound = (case read of
     Inl e \<Rightarrow> Inl (new_fault ArtifactUnavailable e)
   | Inr b \<Rightarrow> if length b > bound then Inl (schem ''file over bound'') else Inr b)"

definition load_signer :: "(string \<Rightarrow> string option) \<Rightarrow> string + string \<Rightarrow> string R option" where
  "load_signer std read = (case read_bounded read 8192 of
     Inl e \<Rightarrow> Some (Inl e)
   | Inr b \<Rightarrow> map_option (\<lambda>k. ok_or k (new_fault ArtifactUnavailable ''signer key unreadable'')) (signing_key std b))"

section \<open>When the loader returns\<close>

text \<open>One call deeper, and any number of calls.\<close>

definition key_bytes :: "string \<Rightarrow> bool" where
  "key_bytes b \<longleftrightarrow> length b = 32 \<or> length b = 48 \<and> take 16 b = pkcs8_prefix"

inductive unwraps :: "(string \<Rightarrow> string option) \<Rightarrow> string \<Rightarrow> string \<Rightarrow> bool" for std where
  here: "unwraps std b b"
| deeper: "\<not> key_bytes b \<Longrightarrow> utf8_ok b \<Longrightarrow> std (trim (armor_body b)) = Some der \<Longrightarrow> unwraps std der c \<Longrightarrow> unwraps std b c"

lemma armor_length: "length (armor_body b) \<le> length b"
proof -
  have "length (concat (filter P ls)) \<le> length (concat ls)" for P and ls :: "string list"
    by (induction ls) auto
  then show ?thesis using text_lines_length [of b] unfolding armor_body_def by (meson le_trans)
qed

lemma key_steps:
  "key_bytes b \<Longrightarrow> \<exists>k. signing_key std b = Some (Some k)"
  "\<not> key_bytes b \<Longrightarrow> \<not> utf8_ok b \<Longrightarrow> signing_key std b = Some None"
  "\<not> key_bytes b \<Longrightarrow> utf8_ok b \<Longrightarrow> std (trim (armor_body b)) = None \<Longrightarrow> signing_key std b = Some None"
  "\<not> key_bytes b \<Longrightarrow> utf8_ok b \<Longrightarrow> std (trim (armor_body b)) = Some der \<Longrightarrow> signing_key std b = signing_key std der"
  by (subst signing_key.simps; auto simp: key_bytes_def)+

lemma empty_armor: "armor_body [] = []"
  by (simp add: armor_body_def text_lines_def)

text \<open>A result has not passed through the empty file, whose armour unwraps to itself.\<close>

inductive_cases unwraps_cases: "unwraps std b c"

lemma unwraps_key: "key_bytes b \<or> \<not> utf8_ok b \<or> std (trim (armor_body b)) = None \<Longrightarrow> unwraps std b [] \<Longrightarrow> b = []"
  by (erule unwraps_cases) auto

lemma unwraps_deeper: "std (trim (armor_body b)) = Some der \<Longrightarrow> unwraps std b [] \<Longrightarrow> b = [] \<or> unwraps std der []"
  by (erule unwraps_cases) auto

lemma returned_not_empty:
  assumes "signing_key std b = Some r"
  shows "std [] = Some [] \<longrightarrow> \<not> unwraps std b []"
proof (rule signing_key.raw_induct [OF _ assms, where P = "\<lambda>std b r. std [] = Some [] \<longrightarrow> \<not> unwraps std b []"], rule impI)
  fix f :: "(string \<Rightarrow> string option) \<Rightarrow> string \<Rightarrow> string option option" and std b r
  assume ih: "\<And>std b r. f std b = Some r \<Longrightarrow> std [] = Some [] \<longrightarrow> \<not> unwraps std b []" and empty: "std [] = Some []"
    and body: "(if length b = 32 then Some (Some b)
      else if length b = 48 \<and> take 16 b = pkcs8_prefix then Some (Some (drop 16 b))
      else if \<not> utf8_ok b then Some None
      else case std (trim (armor_body b)) of None \<Rightarrow> Some None | Some der \<Rightarrow> f std der) = Some r"
  have short: "\<not> key_bytes []" and valid: "utf8_ok []" by (simp_all add: key_bytes_def)
  show "\<not> unwraps std b []"
  proof
    assume u: "unwraps std b []"
    show False
    proof (cases "key_bytes b \<or> \<not> utf8_ok b \<or> std (trim (armor_body b)) = None")
      case True
      then have "b = []" using u by (rule unwraps_key)
      then show False using True short valid empty by (simp add: empty_armor)
    next
      case False
      then obtain der where der: "std (trim (armor_body b)) = Some der" by blast
      then have "f std der = Some r" using body False by (simp add: key_bytes_def split: if_split_asm)
      then have "\<not> unwraps std der []" using ih empty by blast
      moreover have "unwraps std der []"
        using unwraps_deeper [OF der u] der empty by (auto simp: empty_armor intro: unwraps.here)
      ultimately show False by blast
    qed
  qed
qed

text \<open>
  C31. The loader of a signing key returns exactly on the files whose armour never unwraps
  to the empty file: on that one, and so on an empty key file or one of blank lines, it calls itself for ever.
\<close>

theorem signing_key_returns:
  assumes "std [] = Some []" and "\<forall>t b. std t = Some b \<longrightarrow> t \<noteq> [] \<longrightarrow> length b < length t"
  shows "(\<exists>r. signing_key std b = Some r) \<longleftrightarrow> \<not> unwraps std b []"
proof
  assume "\<not> unwraps std b []"
  then show "\<exists>r. signing_key std b = Some r"
  proof (induction b rule: measure_induct_rule [of length])
    case (less b)
    show ?case
    proof (cases "key_bytes b \<or> \<not> utf8_ok b \<or> std (trim (armor_body b)) = None")
      case True
      then show ?thesis using key_steps(1-3) by blast
    next
      case False
      then obtain der where der: "std (trim (armor_body b)) = Some der" by blast
      have deep: "\<not> unwraps std der []" using less.prems False der unwraps.deeper by blast
      have "trim (armor_body b) \<noteq> []" using deep der assms(1) by (auto intro: unwraps.here)
      then have "length der < length b"
        using assms(2) der trim_length [of "armor_body b"] armor_length [of b] by fastforce
      from less.IH [OF this deep] show ?thesis using key_steps(4) False der by metis
    qed
  qed
next
  assume "\<exists>r. signing_key std b = Some r"
  then show "\<not> unwraps std b []" using returned_not_empty assms(1) by blast
qed

definition empty_only :: "string \<Rightarrow> string option" where
  "empty_only t = (if t = [] then Some [] else None)"

theorem signing_key_returns_witness: "signing_key empty_only [] = None"
proof -
  have "empty_only [] = Some []" "\<forall>t b. empty_only t = Some b \<longrightarrow> t \<noteq> [] \<longrightarrow> length b < length t"
    by (simp_all add: empty_only_def)
  from signing_key_returns [OF this, of "[]"] show ?thesis using unwraps.here by auto
qed

end
