(* ===== verification/Doctor.thy ===== *)
theory Doctor
  imports Keys Lifecycle Faults
begin

text \<open>
  The offline \<open>doctor\<close> (\<open>doctor.rs\<close>): six checks in their listed order over the configuration, the trust file
  and the mode of the key file. The files are a function from paths to bytes or the error of the reader; the
  panic of the configuration parser is \<open>None\<close>.
\<close>

section \<open>The code\<close>

definition read_config :: "Crypto \<Rightarrow> (string \<Rightarrow> string + string) \<Rightarrow> string \<Rightarrow> Config R option" where
  "read_config cr files path = (case read_bounded (files path) req_max of
     Inl e \<Rightarrow> Some (Inl e) | Inr b \<Rightarrow> load_config cr b)"

definition read_trust :: "Crypto \<Rightarrow> (string \<Rightarrow> string + string) \<Rightarrow> string \<Rightarrow> Trust R" where
  "read_trust cr files path = sbind (read_bounded (files path) req_max) (load_trust cr)"

type_synonym Finding = "string \<times> bool \<times> string option"

definition is_ok :: "'e + 'a \<Rightarrow> bool" where
  "is_ok r = (case r of Inl _ \<Rightarrow> False | Inr _ \<Rightarrow> True)"

lemma is_ok_simps [simp]: "is_ok (Inr x)" "\<not> is_ok (Inl e)"
  by (simp_all add: is_ok_def)

lemma is_ok_iff: "is_ok r \<longleftrightarrow> (\<exists>x. r = Inr x)"
  by (cases r) simp_all

text \<open>No permission bit of group and others, which are the low six.\<close>

definition owner_only :: "nat \<Rightarrow> bool" where
  "owner_only bits \<longleftrightarrow> bits mod 64 = 0"

definition permissions_check :: "Config R \<Rightarrow> Trust R \<Rightarrow> (string \<Rightarrow> nat option) \<Rightarrow> Finding" where
  "permissions_check cfg trust key_mode = (case cfg of
     Inl _ \<Rightarrow> (''permissions'', False, Some ''ARTIFACT_UNAVAILABLE'')
   | Inr c \<Rightarrow> (case key_mode (cf_signer_key_file c) of
       None \<Rightarrow> (''permissions'', False, Some ''ARTIFACT_UNAVAILABLE'')
     | Some bits \<Rightarrow> if \<not> owner_only bits then (''permissions'', False, Some ''SCHEMA_INVALID'')
         else (''permissions'', is_ok trust, None)))"

definition pins_check :: "Config R \<Rightarrow> Trust R \<Rightarrow> Finding" where
  "pins_check cfg trust = (let good = (case (cfg, trust) of
       (Inr c, Inr t) \<Rightarrow> list_all (\<lambda>tag. is_ok (require_pin t tag (cf_tenant c) (cf_signer_key_id c) (cf_signer_key_epoch c)))
         [''audit'', ''clearance'', ''bundle'', ''backup'']
     | _ \<Rightarrow> False) in (''pins'', good, if good then None else Some ''SIGNATURE_INVALID''))"

definition schema_check :: "Config R \<Rightarrow> Trust R \<Rightarrow> Finding" where
  "schema_check cfg trust = (let good = is_ok cfg \<and> is_ok trust
     in (''schema'', good, if good then None else Some ''SCHEMA_INVALID''))"

definition sandbox_check :: "Crypto \<Rightarrow> (string \<Rightarrow> string + string) \<Rightarrow> Config R \<Rightarrow> Finding" where
  "sandbox_check cr files cfg = (let good = (case cfg of Inr c \<Rightarrow> is_ok (verify_artifacts cr files c) | Inl _ \<Rightarrow> False)
     in (''sandbox'', good, if good then None else Some ''ARTIFACT_UNAVAILABLE''))"

definition release_check :: "Crypto \<Rightarrow> Config R \<Rightarrow> Trust R \<Rightarrow> Finding" where
  "release_check cr cfg trust = (let good = (case (cfg, trust) of
       (Inr c, Inr t) \<Rightarrow> is_ok (startup_gates cr c t) | _ \<Rightarrow> False)
     in (''release'', good, if good then None else Some ''GATED''))"

definition adapter_check :: "Config R \<Rightarrow> Finding" where
  "adapter_check cfg = (let good = (case cfg of
       Inr c \<Rightarrow> list_all (\<lambda>p. p = ''fixture/1'') (cf_certified_profiles c) | Inl _ \<Rightarrow> False)
     in (''adapter'', good, if good then None else Some ''ADAPTER_UNAVAILABLE''))"

definition findings_of :: "Crypto \<Rightarrow> (string \<Rightarrow> string + string) \<Rightarrow> (string \<Rightarrow> nat option) \<Rightarrow> Config R \<Rightarrow> Trust R \<Rightarrow>
    Finding list" where
  "findings_of cr files key_mode cfg trust = [permissions_check cfg trust key_mode, pins_check cfg trust,
     schema_check cfg trust, sandbox_check cr files cfg, release_check cr cfg trust, adapter_check cfg]"

definition finding_value :: "Finding \<Rightarrow> Value" where
  "finding_value f = (case f of (name, good, code) \<Rightarrow> Obj [(''name'', Str name), (''ok'', Bool good),
     (''code'', case code of Some c \<Rightarrow> Str c | None \<Rightarrow> Null)])"

definition doctor_value :: "Finding list \<Rightarrow> Value" where
  "doctor_value fs = Obj [(''ready'', Bool (list_all (\<lambda>(_, good, _). good) fs)), (''profile'', Str ''lab/1''),
     (''checks'', Arr (map finding_value fs))]"

definition doctor_run :: "Crypto \<Rightarrow> (string \<Rightarrow> string + string) \<Rightarrow> (string \<Rightarrow> nat option) \<Rightarrow> string \<Rightarrow> string \<Rightarrow>
    Value option" where
  "doctor_run cr files key_mode config_path trust_path = map_option (\<lambda>cfg.
     doctor_value (findings_of cr files key_mode cfg (read_trust cr files trust_path))) (read_config cr files config_path)"

section \<open>What readiness means\<close>

definition gates_pass :: "Crypto \<Rightarrow> (string \<Rightarrow> string + string) \<Rightarrow> Config \<Rightarrow> Trust \<Rightarrow> bool" where
  "gates_pass cr files cfg trust \<longleftrightarrow> startup_gates cr cfg trust = Inr () \<and> signer_pins cfg trust = Inr () \<and>
     verify_artifacts cr files cfg = Inr ()"

lemma gates_start: "gates_pass cr files cfg trust \<Longrightarrow>
    start_daemon cr files st cfg trust (Some sk) objects pool now boot = start_host cr (boot_daemon st cfg trust sk objects pool now boot)"
  by (simp add: gates_pass_def start_daemon_def)

lemma unit_result: "is_ok (r :: unit R) \<longleftrightarrow> r = Inr ()"
  by (cases r) simp_all

lemma pins_ok: "fst (snd (pins_check (Inr c) (Inr t))) \<longleftrightarrow> signer_pins c t = Inr ()"
  unfolding signer_pins_def forR_eq_Inr by (simp add: pins_check_def is_ok_iff Let_def)

lemma ready_value: "value_get (doctor_value fs) ''ready'' = Some (Bool (list_all (\<lambda>(_, good, _). good) fs))"
  by (simp add: doctor_value_def value_get_def mget_def)

lemma checks_ok:
  "fst (snd (permissions_check (Inr c) (Inr t) key_mode)) \<longleftrightarrow>
     (\<exists>bits. key_mode (cf_signer_key_file c) = Some bits \<and> owner_only bits)"
  "fst (snd (schema_check (Inr c) (Inr t)))"
  "fst (snd (sandbox_check cr files (Inr c))) \<longleftrightarrow> verify_artifacts cr files c = Inr ()"
  "fst (snd (release_check cr (Inr c) (Inr t))) \<longleftrightarrow> startup_gates cr c t = Inr ()"
  "fst (snd (adapter_check (Inr c))) \<longleftrightarrow> set (cf_certified_profiles c) \<subseteq> {''fixture/1''}"
  by (auto simp: permissions_check_def schema_check_def sandbox_check_def release_check_def adapter_check_def Let_def
      unit_result list_all_iff split: option.splits)

lemma findings_ready: "list_all (\<lambda>(_, good, _). good) (findings_of cr files key_mode cfg trust) \<longleftrightarrow>
    (\<exists>c t bits. cfg = Inr c \<and> trust = Inr t \<and> key_mode (cf_signer_key_file c) = Some bits \<and> owner_only bits \<and>
       set (cf_certified_profiles c) \<subseteq> {''fixture/1''} \<and> gates_pass cr files c t)"
proof (cases cfg)
  case (Inr c)
  show ?thesis
  proof (cases trust)
    case t: (Inr t)
    show ?thesis unfolding findings_of_def gates_pass_def Inr t
      by (auto simp only: case_prod_unfold checks_ok pins_ok list.pred_inject sum.inject)
  qed (simp add: findings_of_def schema_check_def Let_def)
qed (simp add: findings_of_def permissions_check_def)


end
