(* ===== verification/Watchd.thy ===== *)
theory Watchd
  imports Doctor Life Objects
begin

text \<open>
  The start of the daemon's process (\<open>watchd.rs\<close>, \<open>clock.rs\<close>): arguments, files, the store, the object key and
  the start sequence, with the exit code of every failure; and what a signal does. What the operating system
  answers is an argument. The result that serves is the state that the input \<open>IStart\<close> leaves in a history.
\<close>

section \<open>The clock\<close>

definition ascii_lower :: "char \<Rightarrow> char" where
  "ascii_lower c = (let n = of_char c :: nat in if 65 \<le> n \<and> n \<le> 90 then char_of (n + 32) else c)"

definition boot_id :: "string + string \<Rightarrow> string option" where
  "boot_id read = (case read of Inl _ \<Rightarrow> None | Inr raw \<Rightarrow> Some (map ascii_lower (trim raw)))"

text \<open>The uptime is in whole seconds, or missing when the system call fails.\<close>

definition boottime_ms :: "nat option \<Rightarrow> nat" where
  "boottime_ms uptime = (case uptime of Some s \<Rightarrow> wmul64 s 1000 | None \<Rightarrow> 0)"

record BootClock =
  bc_anchor_ms :: nat
  bc_boot :: string

definition boot_clock :: "string + string \<Rightarrow> nat option \<Rightarrow> BootClock option" where
  "boot_clock read uptime = map_option (\<lambda>b. \<lparr>bc_anchor_ms = boottime_ms uptime, bc_boot = b\<rparr>) (boot_id read)"

definition clock_now_ms :: "nat \<Rightarrow> BootClock \<Rightarrow> nat" where
  "clock_now_ms elapsed c = wadd64 (bc_anchor_ms c) elapsed"

section \<open>The process\<close>

text \<open>What the system answers: files, the store, the objects kept on disk, the boot identity, uptime, workers.\<close>

record System =
  sy_files :: "string \<Rightarrow> string + string"
  sy_store :: "string \<Rightarrow> Store R"
  sy_objects :: "string \<Rightarrow> (string \<times> string \<times> string \<times> string) list"
  sy_boot :: "string + string"
  sy_uptime :: "nat option"
  sy_workers :: bool

datatype Boot = Usage | Panics | Diverges | Ends int string "Store option" | Serves "ObjectStore option" Daemon Store

fun watchd_args :: "string list \<Rightarrow> string option \<times> bool \<Rightarrow> (string option \<times> bool) option" where
  "watchd_args [] (config, lab) = Some (config, lab)"
| "watchd_args (a # r) (config, lab) =
     (if a = ''--config'' then (case r of [] \<Rightarrow> Some (None, lab) | path # r' \<Rightarrow> watchd_args r' (Some path, lab))
      else if a = ''--lab'' then watchd_args r (config, True) else None)"

definition join_path :: "string \<Rightarrow> string \<Rightarrow> string" where
  "join_path dir name = (if dir = [] then name else if last dir = CHR ''/'' then dir @ name else dir @ ''/'' @ name)"

definition object_key :: "string + string \<Rightarrow> string" where
  "object_key read = (case read of Inr b \<Rightarrow> b | Inl _ \<Rightarrow> replicate 32 (CHR 0x00))"

definition object_store :: "Config \<Rightarrow> string \<Rightarrow> ObjectStore option" where
  "object_store cfg key = (if length key = 32
     then Some \<lparr>os_dir = join_path (cf_data_dir cfg) ''objects'', os_key_id = cf_object_key_id cfg, os_key = key\<rparr> else None)"

text \<open>From the admitted configuration on.\<close>

definition watchd_start :: "Crypto \<Rightarrow> (string \<Rightarrow> string option) \<Rightarrow> System \<Rightarrow> Config \<Rightarrow> Trust \<Rightarrow> string \<Rightarrow> Boot" where
  "watchd_start cr std sys cfg trust sk_bytes = (case load_signer std (sy_files sys (cf_signer_key_file cfg)) of
     None \<Rightarrow> Diverges
   | Some _ \<Rightarrow> (case sy_store sys (join_path (cf_data_dir cfg) ''watch.db'') of
       Inl e \<Rightarrow> Ends 7 (''store: '' @ fault_message e) None
     | Inr st \<Rightarrow>
        (let objects = object_store cfg (object_key (sy_files sys (cf_object_key_file cfg)));
             boot = (case boot_id (sy_boot sys) of Some b \<Rightarrow> b | None \<Rightarrow> ''00000000-0000-4000-8000-000000000000'')
         in case signing_key std sk_bytes of
           None \<Rightarrow> Diverges
         | Some signer \<Rightarrow> (case start_daemon cr (sy_files sys) st cfg trust signer
               (map_option (\<lambda>os. sy_objects sys (os_key os)) objects) (sy_workers sys) (boottime_ms (sy_uptime sys)) boot of
             (Inl e, st') \<Rightarrow> Ends 5 (''startup: '' @ fault_message e) (Some st')
           | (Inr dm, st') \<Rightarrow> Serves objects dm st'))))"

definition watchd :: "Crypto \<Rightarrow> (string \<Rightarrow> string option) \<Rightarrow> System \<Rightarrow> string list \<Rightarrow> Boot" where
  "watchd cr std sys argv = (case watchd_args argv (None, False) of None \<Rightarrow> Usage
   | Some (config, lab) \<Rightarrow>
      (case read_config cr (sy_files sys) (case config of Some p \<Rightarrow> p | None \<Rightarrow> ''/etc/lattice-watch/config.json'') of
         None \<Rightarrow> Panics
       | Some (Inl e) \<Rightarrow> Ends 2 (''config: '' @ fault_message e) None
       | Some (Inr cfg) \<Rightarrow>
          if lab \<and> cf_deployment cfg \<noteq> ''lab'' then Ends 2 ''--lab requires deployment=lab'' None
          else (case read_trust cr (sy_files sys) (cf_trust_file cfg) of
            Inl e \<Rightarrow> Ends 2 (''trust: '' @ fault_message e) None
          | Inr trust \<Rightarrow> (case sy_files sys (cf_signer_key_file cfg) of
              Inl e \<Rightarrow> Ends 5 (''signer key: '' @ e) None
            | Inr sk_bytes \<Rightarrow> watchd_start cr std sys cfg trust sk_bytes))))"

text \<open>The first signal drains a host that is ready, with one tick; the accept loop then stops.\<close>

definition drain_signal :: "Crypto \<Rightarrow> Completion list \<Rightarrow> Daemon \<Rightarrow> Daemon" where
  "drain_signal cr replies dm = (if ho_state (dm_host dm) = HsReady
     then tick cr replies (dm\<lparr>dm_host := (dm_host dm)\<lparr>ho_state := HsDraining\<rparr>\<rparr>) else dm)"

section \<open>What serves\<close>

lemma start_host_ready: "start_host cr dm = (Inr dm', st') \<Longrightarrow> dm_store dm' = st' \<and> ho_state (dm_host dm') = HsReady"
  by (auto simp: start_host_def commit_tx_def Let_def split: sum.splits if_split_asm)

lemma start_daemon_serves:
  assumes "start_daemon cr files st cfg trust signer objects pool now boot = (Inr dm, st')"
  shows "gates_pass cr files cfg trust \<and> signer \<noteq> None \<and> dm_store dm = st' \<and> ho_state (dm_host dm) = HsReady"
  using assms start_host_ready unfolding start_daemon_def gates_pass_def
  by (auto split: sum.splits)

lemma watchd_start_serves:
  assumes "watchd_start cr std sys cfg trust sk_bytes = Serves objects dm st'"
  shows "\<exists>st signer kept now boot. start_daemon cr (sy_files sys) st cfg trust signer kept (sy_workers sys) now boot = (Inr dm, st') \<and>
     sy_store sys (join_path (cf_data_dir cfg) ''watch.db'') = Inr st \<and> signing_key std sk_bytes = Some signer \<and>
     objects = object_store cfg (object_key (sy_files sys (cf_object_key_file cfg)))"
  using assms by (auto simp: watchd_start_def Let_def split: option.splits sum.splits prod.splits)

lemma watchd_start_left:
  assumes "watchd_start cr std sys cfg trust sk_bytes = Ends code msg left"
  shows "code \<in> {5, 7} \<and> (case left of None \<Rightarrow> True | Some st' \<Rightarrow> code = 5 \<and>
     (\<exists>st signer kept now boot e. start_daemon cr (sy_files sys) st cfg trust signer kept (sy_workers sys) now boot = (Inl e, st')))"
  using assms by (auto simp: watchd_start_def Let_def split: option.splits sum.splits prod.splits) blast+

lemma watchd_start_others: "watchd_start cr std sys cfg trust sk_bytes \<noteq> Usage" "watchd_start cr std sys cfg trust sk_bytes \<noteq> Panics"
  by (auto simp: watchd_start_def Let_def split: option.splits sum.splits prod.splits)

lemma watchd_start_diverges: "watchd_start cr std sys cfg trust sk_bytes = Diverges \<Longrightarrow> \<exists>b. signing_key std b = None"
  by (auto simp: watchd_start_def load_signer_def Let_def split: option.splits sum.splits prod.splits)

lemma start_input: "start_daemon cr files st cfg trust signer kept pool now boot = (r, st') \<Longrightarrow>
    process_from cr pf (st, None) [IStart files cfg trust signer kept pool now boot] =
      (st', case r of Inl _ \<Rightarrow> None | Inr dm \<Rightarrow> Some dm)"
  by (simp add: process_from_def perform_def split: sum.splits)

text \<open>The start follows the admission of the files, or does not happen.\<close>

definition admitted :: "Crypto \<Rightarrow> System \<Rightarrow> string list \<Rightarrow> Config \<Rightarrow> Trust \<Rightarrow> bool" where
  "admitted cr sys argv cfg trust \<longleftrightarrow> (\<exists>config lab path. watchd_args argv (None, False) = Some (config, lab) \<and>
     \<not> (lab \<and> cf_deployment cfg \<noteq> ''lab'') \<and> read_config cr (sy_files sys) path = Some (Inr cfg) \<and>
     read_trust cr (sy_files sys) (cf_trust_file cfg) = Inr trust)"

lemma watchd_cases:
  obtains (usage) "watchd_args argv (None, False) = None" "watchd cr std sys argv = Usage"
  | (panics) path where "read_config cr (sy_files sys) path = None" "watchd cr std sys argv = Panics"
  | (refused) code msg where "code \<in> {2, 5}" "watchd cr std sys argv = Ends code msg None"
  | (starts) cfg trust sk_bytes where "admitted cr sys argv cfg trust" "watchd cr std sys argv = watchd_start cr std sys cfg trust sk_bytes"
proof (cases "watchd_args argv (None, False)")
  case None
  then show ?thesis by (rule usage) (simp add: watchd_def None)
next
  case (Some a)
  obtain config lab where a: "a = (config, lab)" by fastforce
  define path where "path = (case config of Some p \<Rightarrow> p | None \<Rightarrow> ''/etc/lattice-watch/config.json'')"
  have w: "watchd cr std sys argv = (case read_config cr (sy_files sys) path of
      None \<Rightarrow> Panics
    | Some (Inl e) \<Rightarrow> Ends 2 (''config: '' @ fault_message e) None
    | Some (Inr cfg) \<Rightarrow>
       if lab \<and> cf_deployment cfg \<noteq> ''lab'' then Ends 2 ''--lab requires deployment=lab'' None
       else (case read_trust cr (sy_files sys) (cf_trust_file cfg) of
         Inl e \<Rightarrow> Ends 2 (''trust: '' @ fault_message e) None
       | Inr trust \<Rightarrow> (case sy_files sys (cf_signer_key_file cfg) of
           Inl e \<Rightarrow> Ends 5 (''signer key: '' @ e) None
         | Inr sk_bytes \<Rightarrow> watchd_start cr std sys cfg trust sk_bytes)))"
    by (simp add: watchd_def Some a path_def)
  show ?thesis
  proof (cases "read_config cr (sy_files sys) path")
    case None
    then show ?thesis using w by (intro panics) simp_all
  next
    case c: (Some c)
    show ?thesis
    proof (cases c)
      case (Inl e)
      then show ?thesis using w c by (intro refused) simp_all
    next
      case (Inr cfg)
      show ?thesis
      proof (cases "lab \<and> cf_deployment cfg \<noteq> ''lab''")
        case True
        then show ?thesis using w c Inr by (intro refused) simp_all
      next
        case False
        then have adm: "admitted cr sys argv cfg trust" if "read_trust cr (sy_files sys) (cf_trust_file cfg) = Inr trust" for trust
          unfolding admitted_def using that c Inr Some a by blast
        show ?thesis using w c Inr False adm
          by (cases "read_trust cr (sy_files sys) (cf_trust_file cfg)"; cases "sy_files sys (cf_signer_key_file cfg)")
            (auto intro: refused starts)
      qed
    qed
  qed
qed


text \<open>
  Remark. An object key file that cannot be read does not stop the start: the objects of a
  host that serves are then encrypted under the key of 32 zero bytes.
\<close>

theorem unreadable_object_key:
  assumes "watchd_start cr std sys cfg trust sk_bytes = Serves objects dm st'"
    and "sy_files sys (cf_object_key_file cfg) = Inl e"
  shows "\<exists>os. objects = Some os \<and> os_key os = replicate 32 (CHR 0x00)"
  using watchd_start_serves [OF assms(1)] assms(2) by (auto simp: object_store_def object_key_def)

end
