(* ===== verification/Backup.thy ===== *)
theory Backup
  imports Store Crypto
begin

text \<open>
  Backup, restore check and migration (\<open>backup.rs\<close>). The output directory is a map from relative paths to bytes,
  the object directory a tree in the order in which the system lists it. The bytes that SQLite writes for a
  copy of the database are a parameter; errors of the file system are not modelled.
\<close>

section \<open>The walk over the object files\<close>

datatype Node = File string | Dir "(string \<times> Node) list"

fun nodes :: "Node \<Rightarrow> nat" where
  "nodes (File b) = 1"
| "nodes (Dir es) = Suc (sum_list (map (\<lambda>e. nodes (snd e)) es))"

record Copying =
  wk_stack :: "(string \<times> (string \<times> Node) list) list"
  wk_out :: "string \<Rightarrow> string option"
  wk_files :: "(string \<times> nat \<times> string) list"

definition rel_path :: "string \<Rightarrow> string \<Rightarrow> string" where
  "rel_path dir name = (if dir = [] then name else dir @ ''/'' @ name)"

fun contains_dots :: "string \<Rightarrow> bool" where
  "contains_dots (a # b # r) \<longleftrightarrow> a = CHR ''.'' \<and> b = CHR ''.'' \<or> contains_dots (b # r)"
| "contains_dots _ \<longleftrightarrow> False"

definition unsafe :: "string \<Rightarrow> bool" where
  "unsafe rel \<longleftrightarrow> contains_dots rel \<or> starts_with rel ''/''"

definition copied :: "Crypto \<Rightarrow> string \<Rightarrow> string \<Rightarrow> Copying \<Rightarrow> Copying" where
  "copied cr rel b w = w\<lparr>wk_out := (wk_out w)(''objects/'' @ rel \<mapsto> b),
     wk_files := wk_files w @ [(rel, length b, sha256_hex cr b)]\<rparr>"

text \<open>One directory. The left result is the state in which an unsafe path is met.\<close>

fun visit :: "Crypto \<Rightarrow> string \<Rightarrow> (string \<times> Node) list \<Rightarrow> Copying \<Rightarrow> Copying + Copying" where
  "visit cr dir [] w = Inr w"
| "visit cr dir ((name, node) # es) w = (let rel = rel_path dir name in
     if unsafe rel then Inl w
     else case node of
       Dir sub \<Rightarrow> visit cr dir es (w\<lparr>wk_stack := (rel, sub) # wk_stack w\<rparr>)
     | File b \<Rightarrow> visit cr dir es (copied cr rel b w))"

definition weight :: "(string \<times> (string \<times> Node) list) list \<Rightarrow> nat" where
  "weight stack = sum_list (map (\<lambda>(_, es). nodes (Dir es)) stack)"

lemma weight_simps [simp]: "weight [] = 0" "weight ((dir, es) # stack) = nodes (Dir es) + weight stack"
  by (simp_all add: weight_def)

lemma copied_simps [simp]: "wk_stack (copied cr rel b w) = wk_stack w"
  by (simp add: copied_def)

lemma visit_weight: "visit cr dir es w = Inr w' \<Longrightarrow> weight (wk_stack w') < nodes (Dir es) + weight (wk_stack w)"
proof (induction cr dir es w rule: visit.induct)
  case (2 cr dir name node es w)
  show ?case
  proof (cases node)
    case (File b)
    then show ?thesis using 2(1) [OF refl _ File] 2(3) by (auto simp: Let_def split: if_split_asm)
  next
    case (Dir sub)
    then show ?thesis using 2(2) [OF refl _ Dir] 2(3) by (auto simp: Let_def add.assoc add.left_commute split: if_split_asm)
  qed
qed simp

function walk :: "Crypto \<Rightarrow> Copying \<Rightarrow> Copying + Copying" where
  "walk cr w = (case wk_stack w of [] \<Rightarrow> Inr w
   | (dir, es) # rest \<Rightarrow> (case visit cr dir es (w\<lparr>wk_stack := rest\<rparr>) of Inl w' \<Rightarrow> Inl w' | Inr w' \<Rightarrow> walk cr w'))"
  by pat_completeness auto
termination
  by (relation "measure (\<lambda>(_, w). weight (wk_stack w))") (use visit_weight in fastforce)+

declare walk.simps [simp del]

section \<open>The backup\<close>

definition file_le :: "string \<times> nat \<times> string \<Rightarrow> string \<times> nat \<times> string \<Rightarrow> bool" where
  "file_le a b = (case (a, b) of ((p, n, h), (p', n', h')) \<Rightarrow>
     str_less p p' \<or> p = p' \<and> (n < n' \<or> n = n' \<and> str_le h h'))"

definition file_value :: "string \<times> nat \<times> string \<Rightarrow> Value" where
  "file_value f = (case f of (p, n, h) \<Rightarrow> Obj [(''path'', Str p), (''bytes'', ustr n), (''sha256'', Str h)])"

definition backup_body :: "Crypto \<Rightarrow> Head \<Rightarrow> string \<Rightarrow> (string \<times> nat \<times> string) list \<Rightarrow> string \<Rightarrow> string \<Rightarrow> Value" where
  "backup_body cr head db files tenant created_utc = Obj [(''v'', num 1), (''format'', Str ''watch-backup/1''),
     (''tenant'', Str tenant), (''schema'', num 1), (''head'', head_value head), (''db_bytes'', ustr (length db)),
     (''db_sha256'', Str (sha256_hex cr db)), (''files'', Arr (map file_value files)), (''created_utc'', Str created_utc)]"

text \<open>The copy of the database and of the objects comes first, the manifest last and only if there is none.\<close>

definition backup :: "Crypto \<Rightarrow> (Store \<Rightarrow> string) \<Rightarrow> Store R \<Rightarrow> (string \<times> Node) list \<Rightarrow> (string \<Rightarrow> string option) \<Rightarrow> string \<Rightarrow>
    string \<Rightarrow> nat \<Rightarrow> string \<Rightarrow> string \<Rightarrow> Value R \<times> (string \<Rightarrow> string option)" where
  "backup cr dump opened tree out tenant key_id key_epoch sk created_utc = (case opened of
     Inl e \<Rightarrow> (Inl e, out)
   | Inr st \<Rightarrow> (let head = tx_head st; db = dump st in
      case walk cr \<lparr>wk_stack = [([], tree)], wk_out = out(''watch.db'' \<mapsto> db), wk_files = []\<rparr> of
        Inl w \<Rightarrow> (Inl (schem ''unsafe object path''), wk_out w)
      | Inr w \<Rightarrow> (let body = backup_body cr head db (sort_by file_le (wk_files w)) tenant created_utc;
             manifest = sign_envelope cr ''backup'' body key_id (dec key_epoch) sk
          in if wk_out w ''manifest.json'' \<noteq> None then (Inl (new_fault StateConflict ''manifest exists''), wk_out w)
             else (Inr (Obj [(''manifest'', Str (d cr ''backup'' body)), (''head'', head_value head)]),
                   (wk_out w)(''manifest.json'' \<mapsto> jcs manifest)))))"

definition restore_head_check :: "Head \<Rightarrow> Head \<Rightarrow> unit R" where
  "restore_head_check own minimum = (if hd_seq own < hd_seq minimum
     then Inl (new_fault MigrationRequired ''restored behind independent minimum head'') else Inr ())"

text \<open>\<open>Store::open\<close> on a file with the given user version, and the version it leaves.\<close>

definition open_store :: "int \<Rightarrow> Store \<Rightarrow> (int \<times> Store) R" where
  "open_store user_version st = (if user_version \<noteq> 1 \<and> user_version \<noteq> 0
     then Inl (new_fault MigrationRequired ''store user_version ahead'')
     else Inr (if user_version = 0 then 1 else user_version, st))"

definition migrate :: "(int \<times> Store) R \<Rightarrow> Value R" where
  "migrate opened = sbind opened (\<lambda>(version, st).
     if version \<noteq> 1 then Inl (new_fault MigrationRequired ''unsupported schema version'')
     else Inr (Obj [(''from'', num 1), (''to'', num 1), (''state'', Str ''VERIFIED_NO_CHANGE''), (''head'', head_value (tx_head st))]))"

section \<open>What the walk finds\<close>

text \<open>The files of a tree in the order of the tree, with their paths.\<close>

fun node_files :: "string \<Rightarrow> Node \<Rightarrow> (string \<times> string) list" where
  "node_files rel (File b) = [(rel, b)]"
| "node_files rel (Dir es) = concat (map (\<lambda>e. node_files (rel_path rel (fst e)) (snd e)) es)"

definition tree_files :: "string \<Rightarrow> (string \<times> Node) list \<Rightarrow> (string \<times> string) list" where
  "tree_files dir es = concat (map (\<lambda>e. node_files (rel_path dir (fst e)) (snd e)) es)"

definition waiting :: "(string \<times> (string \<times> Node) list) list \<Rightarrow> (string \<times> string) multiset" where
  "waiting stack = sum_list (map (\<lambda>(dir, es). mset (tree_files dir es)) stack)"

lemma waiting_simps [simp]: "waiting [] = {#}" "waiting ((dir, es) # stack) = mset (tree_files dir es) + waiting stack"
  by (simp_all add: waiting_def)

lemma tree_files_simps [simp]: "tree_files dir [] = []"
  "tree_files dir ((name, node) # es) = node_files (rel_path dir name) node @ tree_files dir es"
  by (simp_all add: tree_files_def)

lemma node_files_Dir [simp]: "node_files rel (Dir es) = tree_files rel es"
  by (simp add: tree_files_def)

declare node_files.simps(2) [simp del]

text \<open>What has been written, as a list of files in the order of writing.\<close>

definition entry :: "Crypto \<Rightarrow> string \<times> string \<Rightarrow> string \<times> nat \<times> string" where
  "entry cr f = (fst f, length (snd f), sha256_hex cr (snd f))"

definition wrote :: "Crypto \<Rightarrow> Copying \<Rightarrow> (string \<times> string) list \<Rightarrow> Copying \<Rightarrow> bool" where
  "wrote cr w fs w' \<longleftrightarrow> wk_files w' = wk_files w @ map (entry cr) fs \<and>
     wk_out w' = fold (\<lambda>(p, b) out. out(''objects/'' @ p \<mapsto> b)) fs (wk_out w)"

lemma wrote_simps: "wrote cr w [] w" "wrote cr w fs w' \<Longrightarrow> wrote cr w' gs w'' \<Longrightarrow> wrote cr w (fs @ gs) w''"
  by (auto simp: wrote_def)

lemma visit_writes: "visit cr dir es w = Inr w' \<Longrightarrow> \<exists>fs. wrote cr w fs w' \<and>
    mset fs + waiting (wk_stack w') = mset (tree_files dir es) + waiting (wk_stack w)"
proof (induction cr dir es w rule: visit.induct)
  case (1 cr dir w)
  then show ?case using wrote_simps(1) by (intro exI [of _ "[]"]) simp
next
  case (2 cr dir name node es w)
  let ?rel = "rel_path dir name"
  have safe: "\<not> unsafe ?rel" using 2(3) by (auto simp: Let_def)
  show ?case
  proof (cases node)
    case (Dir sub)
    let ?w = "w\<lparr>wk_stack := (?rel, sub) # wk_stack w\<rparr>"
    have "wrote cr ?w fs v \<longleftrightarrow> wrote cr w fs v" for fs v by (simp add: wrote_def)
    then show ?thesis using 2(2) [OF refl safe Dir] 2(3) safe Dir by (simp add: Let_def add.assoc add.left_commute)
  next
    case (File b)
    then obtain fs where fs: "wrote cr (copied cr ?rel b w) fs w'"
        "mset fs + waiting (wk_stack w') = mset (tree_files dir es) + waiting (wk_stack w)"
      using 2(1) [OF refl safe File] 2(3) safe by (auto simp: Let_def)
    have "wrote cr w [(?rel, b)] (copied cr ?rel b w)" by (simp add: wrote_def copied_def entry_def)
    from wrote_simps(2) [OF this fs(1)] show ?thesis using File fs(2) by (intro exI [of _ "(?rel, b) # fs"]) simp
  qed
qed

lemma walk_writes: "walk cr w = Inr w' \<Longrightarrow> \<exists>fs. wrote cr w fs w' \<and> mset fs = waiting (wk_stack w)"
proof (induction cr w rule: walk.induct)
  case (1 cr w)
  show ?case
  proof (cases "wk_stack w")
    case Nil
    then show ?thesis using 1(2) wrote_simps(1) by (subst (asm) walk.simps) fastforce
  next
    case (Cons top rest)
    obtain dir es where top: "top = (dir, es)" by fastforce
    let ?w = "w\<lparr>wk_stack := rest\<rparr>"
    obtain v where v: "visit cr dir es ?w = Inr v" "walk cr v = Inr w'"
      using 1(2) Cons top by (subst (asm) walk.simps) (auto split: sum.splits)
    obtain fs where fs: "wrote cr ?w fs v" "mset fs + waiting (wk_stack v) = mset (tree_files dir es) + waiting rest"
      using visit_writes [OF v(1)] by auto
    obtain gs where gs: "wrote cr v gs w'" "mset gs = waiting (wk_stack v)"
      using 1(1) [OF Cons top [symmetric] v] by blast
    have "wrote cr ?w (fs @ gs) w'" by (rule wrote_simps(2) [OF fs(1) gs(1)])
    then show ?thesis using fs gs Cons top by (intro exI [of _ "fs @ gs"]) (simp add: wrote_def)
  qed
qed

section \<open>A completed backup\<close>

lemma file_le_iff: "file_le (p, n, h) (p', n', h') \<longleftrightarrow> str_less p p' \<or> p = p' \<and> (n < n' \<or> n = n' \<and> str_le h h')"
  by (simp add: file_le_def)

lemma file_le_total: "file_le a b \<or> file_le b a"
  by (cases a; cases b) (simp add: file_le_iff, metis str_less_linear str_le_linear nat_neq_iff)

lemma file_le_trans: "file_le a b \<Longrightarrow> file_le b c \<Longrightarrow> file_le a c"
  by (cases a; cases b; cases c) (auto simp: file_le_iff intro: str_less_trans str_le_trans)

lemma file_le_antisym: "file_le a b \<Longrightarrow> file_le b a \<Longrightarrow> a = b"
  by (cases a; cases b) (auto simp: file_le_iff dest: str_less_asym str_le_antisym)

interpretation file_order: total_preorder file_le
  by unfold_locales (use file_le_total file_le_trans in blast)+

lemma sort_files: "mset xs = mset ys \<Longrightarrow> sort_by file_le xs = sort_by file_le ys"
  by (rule file_order.sorted_unique_keys; (rule file_order.sorted_sort_by file_le_antisym)?) simp_all

definition write_objects :: "(string \<times> string) list \<Rightarrow> (string \<Rightarrow> string option) \<Rightarrow> string \<Rightarrow> string option" where
  "write_objects fs out = fold (\<lambda>(p, b) out. out(''objects/'' @ p \<mapsto> b)) fs out"

lemma written: "distinct (map fst fs) \<Longrightarrow> (p, b) \<in> set fs \<Longrightarrow> write_objects fs out (''objects/'' @ p) = Some b"
  and not_written: "q \<notin> (\<lambda>p. ''objects/'' @ p) ` fst ` set fs \<Longrightarrow> write_objects fs out q = out q"
  by (induction fs rule: rev_induct) (auto simp: write_objects_def rev_image_eqI)

lemma objects_paths: "''watch.db'' \<noteq> ''objects/'' @ p" "''manifest.json'' \<noteq> ''objects/'' @ p"
  by simp_all

text \<open>
  C18. A backup that succeeds is complete and describes itself: the directory holds the copy of
  the database and of every object file under its path, and nothing else is written; the manifest, signed
  under the signer's key, names the head of the store, the size and hash of the copy, and exactly the files
  of the tree in the order of their paths with their sizes and hashes; and there was no manifest before.
\<close>

theorem backup_complete:
  assumes "backup cr dump (Inr st) tree out tenant key_id key_epoch sk created_utc = (Inr v, out')"
    and "distinct (map fst (tree_files [] tree))"
  shows "let files = tree_files [] tree;
      body = backup_body cr (tx_head st) (dump st) (sort_by file_le (map (entry cr) files)) tenant created_utc in
    v = Obj [(''manifest'', Str (d cr ''backup'' body)), (''head'', head_value (tx_head st))] \<and>
    out ''manifest.json'' = None \<and>
    out' ''manifest.json'' = Some (jcs (sign_envelope cr ''backup'' body key_id (dec key_epoch) sk)) \<and>
    out' ''watch.db'' = Some (dump st) \<and> (\<forall>(p, b) \<in> set files. out' (''objects/'' @ p) = Some b) \<and>
    (\<forall>q. q \<notin> {''manifest.json'', ''watch.db''} \<union> (\<lambda>p. ''objects/'' @ p) ` fst ` set files \<longrightarrow> out' q = out q)"
proof -
  let ?w = "\<lparr>wk_stack = [([], tree)], wk_out = out(''watch.db'' \<mapsto> dump st), wk_files = []\<rparr>"
  obtain w where w: "walk cr ?w = Inr w" using assms(1) by (auto simp: backup_def Let_def split: sum.splits)
  then obtain fs where "wrote cr ?w fs w" and files: "mset fs = mset (tree_files [] tree)" using walk_writes by fastforce
  then have parts: "wk_files w = map (entry cr) fs" "wk_out w = write_objects fs (out(''watch.db'' \<mapsto> dump st))"
    by (simp_all add: wrote_def write_objects_def)
  have same: "set fs = set (tree_files [] tree)" using files by (metis set_mset_mset)
  have "mset (map fst fs) = mset (map fst (tree_files [] tree))" using files by (metis mset_map)
  then have distinct: "distinct (map fst fs)" using assms(2) by (metis mset_eq_imp_distinct_iff)
  have sorted: "sort_by file_le (map (entry cr) fs) = sort_by file_le (map (entry cr) (tree_files [] tree))"
    using files by (intro sort_files) (simp add: mset_map)
  have db: "wk_out w ''watch.db'' = Some (dump st)" "wk_out w ''manifest.json'' = out ''manifest.json''"
    unfolding parts by (subst not_written, auto)+
  have objects: "\<forall>(p, b) \<in> set (tree_files [] tree). wk_out w (''objects/'' @ p) = Some b"
    unfolding parts same [symmetric] using written [OF distinct] by auto
  have others: "q \<notin> {''watch.db''} \<union> (\<lambda>p. ''objects/'' @ p) ` fst ` set (tree_files [] tree) \<Longrightarrow> wk_out w q = out q" for q
    unfolding parts same [symmetric] by (subst not_written) auto
  define body where "body = backup_body cr (tx_head st) (dump st)
    (sort_by file_le (map (entry cr) (tree_files [] tree))) tenant created_utc"
  have none: "wk_out w ''manifest.json'' = None"
    using assms(1) by (auto simp: backup_def w Let_def split: if_split_asm)
  then have "backup cr dump (Inr st) tree out tenant key_id key_epoch sk created_utc =
      (Inr (Obj [(''manifest'', Str (d cr ''backup'' body)), (''head'', head_value (tx_head st))]),
       (wk_out w)(''manifest.json'' \<mapsto> jcs (sign_envelope cr ''backup'' body key_id (dec key_epoch) sk)))"
    by (simp add: backup_def w Let_def parts(1) sorted body_def)
  then have v: "v = Obj [(''manifest'', Str (d cr ''backup'' body)), (''head'', head_value (tx_head st))]"
    and out': "out' = (wk_out w)(''manifest.json'' \<mapsto> jcs (sign_envelope cr ''backup'' body key_id (dec key_epoch) sk))"
    using assms(1) by simp_all
  have "\<forall>(p, b) \<in> set (tree_files [] tree). out' (''objects/'' @ p) = Some b"
    "\<forall>q. q \<notin> {''manifest.json'', ''watch.db''} \<union> (\<lambda>p. ''objects/'' @ p) ` fst ` set (tree_files [] tree) \<longrightarrow> out' q = out q"
    using objects others unfolding out' by auto
  then show ?thesis unfolding Let_def body_def [symmetric] using v none db by (simp add: out')
qed

text \<open>
  Remark. A directory that already holds a manifest is refused only at the end: the copy
  of the database in it has by then been replaced, so the manifest no longer describes it.
\<close>

theorem refused_backup_overwrites:
  assumes "out ''manifest.json'' = Some m"
  shows "\<exists>e. fst (backup cr dump (Inr st) tree out tenant key_id key_epoch sk created_utc) = Inl e \<and>
    (fault_code e = StateConflict \<longrightarrow>
      snd (backup cr dump (Inr st) tree out tenant key_id key_epoch sk created_utc) ''watch.db'' = Some (dump st) \<and>
      snd (backup cr dump (Inr st) tree out tenant key_id key_epoch sk created_utc) ''manifest.json'' = Some m)"
proof -
  let ?w = "\<lparr>wk_stack = [([], tree)], wk_out = out(''watch.db'' \<mapsto> dump st), wk_files = []\<rparr>"
  show ?thesis
  proof (cases "walk cr ?w")
    case (Inl w)
    then show ?thesis by (simp add: backup_def Let_def)
  next
    case (Inr w)
    then obtain fs where fs: "wk_out w = write_objects fs (out(''watch.db'' \<mapsto> dump st))"
      using walk_writes by (fastforce simp: wrote_def write_objects_def)
    have "wk_out w ''watch.db'' = Some (dump st)" "wk_out w ''manifest.json'' = Some m"
      unfolding fs using assms by (subst not_written; auto)+
    then show ?thesis using Inr by (simp add: backup_def Let_def)
  qed
qed

section \<open>An example\<close>

definition sample_tree :: "(string \<times> Node) list" where
  "sample_tree = [(''ab'', Dir [(''abc'', File ''x'')]), (''a1'', Dir [(''a1f'', File ''yz'')])]"

definition plain_crypto :: Crypto where
  "plain_crypto = \<lparr>sha256 = \<lambda>b. b, ed_sign = \<lambda>k m. m, ed_verify = \<lambda>k m s. True, b64_encode = \<lambda>b. b, b64_decode = Some\<rparr>"

lemma sample_backup: "\<exists>v out'. backup plain_crypto (\<lambda>_. ''db'') (Inr empty_store) sample_tree (\<lambda>_. None) ''t'' ''k'' 1 ''s'' ''now'' =
    (Inr v, out')"
  by (simp add: backup_def Let_def walk.simps sample_tree_def rel_path_def unsafe_def copied_def starts_with_def)

theorem backup_complete_witness:
  "\<exists>out'. snd (backup plain_crypto (\<lambda>_. ''db'') (Inr empty_store) sample_tree (\<lambda>_. None) ''t'' ''k'' 1 ''s'' ''now'') = out' \<and>
     out' ''watch.db'' = Some ''db'' \<and> out' ''objects/ab/abc'' = Some ''x'' \<and> out' ''objects/a1/a1f'' = Some ''yz''"
proof -
  obtain v out' where b: "backup plain_crypto (\<lambda>_. ''db'') (Inr empty_store) sample_tree (\<lambda>_. None) ''t'' ''k'' 1 ''s'' ''now'' =
      (Inr v, out')" using sample_backup by blast
  have files: "tree_files [] sample_tree = [(''ab/abc'', ''x''), (''a1/a1f'', ''yz'')]"
    by (simp add: sample_tree_def rel_path_def)
  then have "distinct (map fst (tree_files [] sample_tree))" by simp
  from backup_complete [OF b this] show ?thesis unfolding b by (simp add: files Let_def)
qed

theorem refused_backup_overwrites_witness:
  "\<exists>e. fst (backup plain_crypto (\<lambda>_. ''db'') (Inr empty_store) sample_tree [''manifest.json'' \<mapsto> ''m''] ''t'' ''k'' 1 ''s'' ''now'') = Inl e"
proof -
  have "[''manifest.json'' \<mapsto> ''m''] ''manifest.json'' = Some ''m''" by simp
  from refused_backup_overwrites [where out = "[''manifest.json'' \<mapsto> ''m'']", OF this] show ?thesis by blast
qed

end
