(* ===== verification/Civil.thy ===== *)
theory Civil
  imports Json
begin

text \<open>
  The time stamp of a backup manifest (\<open>watchctl.rs\<close>: \<open>chrono_now_utc\<close>): the civil date of a number of days by
  closed arithmetic on eras of 400 years. Its specification is the calendar that counts one day after the
  other from the first of January 1970.
\<close>

section \<open>The code\<close>

definition era_of :: "int \<Rightarrow> int" where
  "era_of z = (if z \<ge> 0 then z div 146097 else - ((146096 - z) div 146097))"

definition year_of_era :: "int \<Rightarrow> int" where
  "year_of_era doe = (doe - doe div 1460 + doe div 36524 - doe div 146096) div 365"

definition year_start :: "int \<Rightarrow> int" where
  "year_start yoe = 365 * yoe + yoe div 4 - yoe div 100"

definition month_day :: "int \<Rightarrow> int \<times> int" where
  "month_day doy = (let mp = (5 * doy + 2) div 153
     in (if mp < 10 then mp + 3 else mp - 9, doy - (153 * mp + 2) div 5 + 1))"

definition civil_date :: "int \<Rightarrow> int \<times> int \<times> int" where
  "civil_date days =
    (let z = days + 719468; era = era_of z; doe = z - era * 146097; yoe = year_of_era doe;
         y = yoe + era * 400; doy = doe - year_start yoe
     in case month_day doy of (mon, day) \<Rightarrow> (if mon \<le> 2 then y + 1 else y, mon, day))"

definition pad :: "nat \<Rightarrow> nat \<Rightarrow> string" where
  "pad k n = replicate (k - length (dec n)) CHR ''0'' @ dec n"

definition utc_stamp :: "nat \<Rightarrow> string" where
  "utc_stamp s = (let t = s mod 86400 in case civil_date (int (s div 86400)) of (yr, mon, day) \<Rightarrow>
     pad 4 (nat yr) @ ''-'' @ pad 2 (nat mon) @ ''-'' @ pad 2 (nat day) @ ''T'' @
     pad 2 (t div 3600) @ '':'' @ pad 2 (t mod 3600 div 60) @ '':'' @ pad 2 (t mod 60) @ ''Z'')"

section \<open>The calendar\<close>

definition leap :: "int \<Rightarrow> bool" where
  "leap y \<longleftrightarrow> y mod 4 = 0 \<and> (y mod 100 \<noteq> 0 \<or> y mod 400 = 0)"

definition month_length :: "int \<Rightarrow> int \<Rightarrow> int" where
  "month_length y m = (if m = 2 then if leap y then 29 else 28 else if m \<in> {4, 6, 9, 11} then 30 else 31)"

fun next_day :: "int \<times> int \<times> int \<Rightarrow> int \<times> int \<times> int" where
  "next_day (y, m, d) = (if d < month_length y m then (y, m, d + 1) else if m < 12 then (y, m + 1, 1) else (y + 1, 1, 1))"

section \<open>The tables\<close>

text \<open>The last day of a year of the era, and the days and years of the era by evaluation.\<close>

definition year_end :: "int \<Rightarrow> int" where
  "year_end y = (if y = 399 then 146096 else year_start (y + 1) - 1)"

lemma years: "list_all (\<lambda>y. year_of_era (year_start y) = y \<and> year_of_era (year_end y) = y \<and> year_end y \<le> 146096 \<and>
    year_end y - year_start y = (if leap (y + 1) then 365 else 364)) [0..399]"
  by code_simp

definition ordinary :: "int \<Rightarrow> int" where
  "ordinary m = (if m = 2 then 28 else if m \<in> {4, 6, 9, 11} then 30 else 31)"

lemma months: "list_all (\<lambda>doy. case (month_day doy, month_day (doy + 1)) of ((m, d), (m', d')) \<Rightarrow>
    m \<le> 12 \<and> (d < ordinary m \<and> m' = m \<and> d' = d + 1 \<or> d = ordinary m \<and> m \<noteq> 2 \<and> d' = 1 \<and> m' = (if m = 12 then 1 else m + 1))) [0..363]"
  by code_simp

lemma month_ends: "month_day 0 = (3, 1)" "month_day 364 = (2, 28)" "month_day 365 = (2, 29)"
  by code_simp+

lemma year_facts: "0 \<le> y \<Longrightarrow> y < 400 \<Longrightarrow> year_of_era (year_start y) = y \<and> year_of_era (year_end y) = y \<and> year_end y \<le> 146096 \<and>
    year_end y - year_start y = (if leap (y + 1) then 365 else 364)"
  using years by (auto simp: list_all_iff)

lemma month_facts: "0 \<le> doy \<Longrightarrow> doy < 364 \<Longrightarrow> month_day doy = (m, d) \<Longrightarrow> month_day (doy + 1) = (m', d') \<Longrightarrow>
    m \<le> 12 \<and> (d < ordinary m \<and> m' = m \<and> d' = d + 1 \<or> d = ordinary m \<and> m \<noteq> 2 \<and> d' = 1 \<and> m' = (if m = 12 then 1 else m + 1))"
  using months unfolding list_all_iff by (drule_tac x = doy in bspec) auto

text \<open>The year of a day of the era is the year whose days enclose it.\<close>

lemma div_grows: "0 < k \<Longrightarrow> a \<le> b \<Longrightarrow> a - a div k \<le> b - b div (k::int)"
proof -
  assume k: "0 < k" and le: "a \<le> b"
  have "0 \<le> (b - a) * (k - 1)" using k le by simp
  then have "b div k \<le> (a + (b - a) * k) div k" using k by (intro zdiv_mono1) (auto simp: algebra_simps)
  also have "\<dots> = a div k + (b - a)" using k by simp
  finally show ?thesis by simp
qed

lemma year_mono: "a \<le> b \<Longrightarrow> year_of_era a \<le> year_of_era b"
proof -
  assume "a \<le> b"
  moreover have "x div 146096 = x div 36524 div 4" for x :: int by (simp add: zdiv_zmult2_eq [symmetric])
  ultimately have "a - a div 1460 + (a div 36524 - a div 146096) \<le> b - b div 1460 + (b div 36524 - b div 146096)"
    using div_grows [of 1460 a b] div_grows [of 4 "a div 36524" "b div 36524"] zdiv_mono1 [of a b 36524] by simp
  then show ?thesis unfolding year_of_era_def by (intro zdiv_mono1) simp_all
qed

lemma year_bounds:
  assumes "0 \<le> doe" and "doe \<le> 146096"
  defines "y \<equiv> year_of_era doe"
  shows "0 \<le> y" "y < 400" "year_start y \<le> doe" "doe \<le> year_end y"
proof -
  have ends: "year_of_era 0 = 0" "year_of_era 146096 = 399" by (simp_all add: year_of_era_def)
  then show y: "0 \<le> y" "y < 400" using year_mono [OF assms(1)] year_mono [OF assms(2)] by (simp_all add: y_def)
  show "year_start y \<le> doe"
  proof (rule ccontr)
    assume less: "\<not> year_start y \<le> doe"
    have "y \<noteq> 0" using less assms(1) by (auto simp: year_start_def)
    then have "doe \<le> year_end (y - 1)" "0 \<le> y - 1" "y - 1 < 400" using less y by (auto simp: year_end_def)
    then have "y \<le> y - 1" using year_mono [of doe "year_end (y - 1)"] year_facts [of "y - 1"] by (simp add: y_def)
    then show False by simp
  qed
  show "doe \<le> year_end y"
  proof (rule ccontr)
    assume more: "\<not> doe \<le> year_end y"
    then have "y \<noteq> 399" using assms(2) by (auto simp: year_end_def)
    then have "year_start (y + 1) \<le> doe" "0 \<le> y + 1" "y + 1 < 400" using more y by (auto simp: year_end_def)
    then have "y + 1 \<le> y" using year_mono [of "year_start (y + 1)" doe] year_facts [of "y + 1"] by (simp add: y_def)
    then show False by simp
  qed
qed

lemma year_unique: "0 \<le> y \<Longrightarrow> y < 400 \<Longrightarrow> year_start y \<le> doe \<Longrightarrow> doe \<le> year_end y \<Longrightarrow> year_of_era doe = y"
  using year_facts [of y] year_mono [of "year_start y" doe] year_mono [of doe "year_end y"] by simp

section \<open>One day later\<close>

text \<open>A day within its era, as the year counted from March, the day of that year and the date.\<close>

definition date_of :: "int \<Rightarrow> int \<Rightarrow> int \<times> int \<times> int" where
  "date_of y doy = (case month_day doy of (mon, day) \<Rightarrow> (if mon \<le> 2 then y + 1 else y, mon, day))"

lemma civil_era: "0 \<le> days \<Longrightarrow> civil_date days =
    (let z = days + 719468; doe = z mod 146097 in date_of (year_of_era doe + z div 146097 * 400) (doe - year_start (year_of_era doe)))"
  using minus_div_mult_eq_mod [of "days + 719468" 146097] by (simp add: civil_date_def era_of_def date_of_def Let_def case_prod_unfold)

lemma leap_era: "leap (y + e * 400) = leap y"
  by (simp add: leap_def mod_add_right_eq [of y "e * 400", symmetric] mod_mult_right_eq [symmetric])

lemma date_next:
  assumes "0 \<le> doy" and "doy < (if leap (y + 1) then 365 else 364)"
  shows "date_of y (doy + 1) = next_day (date_of y doy)"
proof (cases "doy = 364")
  case True
  then show ?thesis using assms by (simp add: date_of_def month_ends month_length_def split: if_split_asm)
next
  case False
  obtain m d m' d' where md: "month_day doy = (m, d)" "month_day (doy + 1) = (m', d')" by fastforce
  have "doy < 364" using False assms(2) by (auto split: if_split_asm)
  from month_facts [OF assms(1) this md] show ?thesis
    by (auto simp: date_of_def md month_length_def ordinary_def split: if_split_asm)
qed

lemma date_wrap:
  assumes "doy = (if leap (y + 1) then 365 else 364)"
  shows "date_of (y + 1) 0 = next_day (date_of y doy)"
  using assms by (simp add: date_of_def month_ends month_length_def)

lemma mod_step:
  fixes z k :: int
  assumes "0 < k"
  shows "z mod k + 1 < k \<Longrightarrow> (z + 1) mod k = z mod k + 1 \<and> (z + 1) div k = z div k"
    "z mod k + 1 = k \<Longrightarrow> (z + 1) mod k = 0 \<and> (z + 1) div k = z div k + 1"
proof -
  have parts: "z + 1 = k * (z div k) + (z mod k + 1)" and "0 \<le> z mod k" using assms by simp_all
  then show "z mod k + 1 < k \<Longrightarrow> (z + 1) mod k = z mod k + 1 \<and> (z + 1) div k = z div k"
    using int_mod_pos_eq [OF parts] int_div_pos_eq [OF parts] by simp
  assume "z mod k + 1 = k"
  then have "z + 1 = k * (z div k + 1) + 0" using parts by (simp add: algebra_simps)
  then show "(z + 1) mod k = 0 \<and> (z + 1) div k = z div k + 1"
    using int_mod_pos_eq [of "z + 1" k "z div k + 1" 0] int_div_pos_eq [of "z + 1" k "z div k + 1" 0] assms by simp
qed

lemma civil_next:
  assumes "0 \<le> days"
  shows "civil_date (days + 1) = next_day (civil_date days)"
proof -
  let ?z = "days + 719468"
  let ?e = "?z div 146097" and ?doe = "?z mod 146097"
  let ?y = "year_of_era ?doe"
  have doe: "0 \<le> ?doe" "?doe \<le> 146096" using pos_mod_bound [of 146097 ?z] by simp_all
  note y = year_bounds [OF doe]
  have len: "year_end ?y - year_start ?y = (if leap (?y + ?e * 400 + 1) then 365 else 364)"
    using year_facts [OF y(1,2)] leap_era [of "?y + 1" ?e] by (simp only: ac_simps)
  have now: "civil_date days = date_of (?y + ?e * 400) (?doe - year_start ?y)"
    using civil_era [OF assms] by (simp add: Let_def)
  consider (inside) "?doe < year_end ?y" | (new_year) "?doe = year_end ?y" "?y < 399" | (new_era) "?doe = year_end ?y" "?y = 399"
    using y by fastforce
  then show ?thesis
  proof cases
    case inside
    have less: "?doe < 146096" using inside year_facts [OF y(1,2)] by simp
    then have "(?z + 1) mod 146097 = ?doe + 1" "(?z + 1) div 146097 = ?e"
      using mod_step(1) [of 146097 ?z] by simp_all
    moreover have "year_of_era (?doe + 1) = ?y" using inside y by (intro year_unique) simp_all
    ultimately have "civil_date (days + 1) = date_of (?y + ?e * 400) (?doe - year_start ?y + 1)"
      using civil_era [of "days + 1"] assms by (simp add: Let_def algebra_simps)
    then show ?thesis unfolding now using inside y len by (subst date_next [symmetric]) auto
  next
    case new_year
    have next_start: "year_start (?y + 1) = ?doe + 1" using new_year by (simp add: year_end_def)
    have "?doe + 1 \<le> year_end (?y + 1)" using year_facts [of "?y + 1"] y new_year next_start by (auto split: if_split_asm)
    then have "?doe + 1 \<le> 146096" using y new_year year_facts [of "?y + 1"] by simp
    then have "(?z + 1) mod 146097 = ?doe + 1" "(?z + 1) div 146097 = ?e"
      using mod_step(1) [of 146097 ?z] by simp_all
    moreover have "year_of_era (?doe + 1) = ?y + 1"
      using year_facts [of "?y + 1"] y new_year next_start by simp
    ultimately have "civil_date (days + 1) = date_of (?y + ?e * 400 + 1) 0"
      using civil_era [of "days + 1"] assms next_start by (simp add: Let_def algebra_simps)
    then show ?thesis unfolding now using new_year len by (subst date_wrap [symmetric]) auto
  next
    case new_era
    then have "?doe = 146096" by (simp add: year_end_def)
    then have "(?z + 1) mod 146097 = 0" "(?z + 1) div 146097 = ?e + 1" using mod_step(2) [of 146097 ?z] by simp_all
    then have "civil_date (days + 1) = date_of (?y + ?e * 400 + 1) 0"
      using civil_era [of "days + 1"] assms new_era(2)
      by (simp add: Let_def algebra_simps) (simp add: year_of_era_def year_start_def)
    then show ?thesis unfolding now using new_era len by (subst date_wrap [symmetric]) auto
  qed
qed

text \<open>
  C38. The date of a day number is the one the calendar reaches from the first of January
  1970 in that many days, over every month and every leap year.
\<close>

theorem civil_date_calendar: "civil_date (int n) = (next_day ^^ n) (1970, 1, 1)"
proof (induction n)
  case 0
  show ?case by code_simp
next
  case (Suc n)
  then show ?case using civil_next [of "int n"] by (simp add: add.commute)
qed

end
