(* ===== verification/Ctl.thy ===== *)
theory Ctl
  imports Server Watchd Backup Civil Verify
begin

text \<open>
  The command line client (\<open>watchctl.rs\<close>). A command is a function of what it reads and of the connections it
  gets: every call to the daemon takes one connection, with the bytes the peer sends on it, and the run of a
  command that has used them all waits. What a command does is its record: the frames it sent, the lines it
  printed, the files it left, and its exit code.
\<close>

section \<open>The run of a command\<close>

datatype Link = LinkDown string | LinkBroken | LinkUp string

record Io =
  io_fs :: "string \<Rightarrow> string option"
  io_links :: "Link list"
  io_ids :: nat
  io_sent :: "string list"
  io_out :: "string list"
  io_err :: "string list"

text \<open>
  A result, the end with an exit code, a call without a connection yet, a loop that never returns, or the
  process replaced by another program.
\<close>

datatype 'a Run = Done 'a Io | Exits int Io | Waits Io | Hangs Io | Becomes "string list" Io

type_synonym 'a Ctl = "Io \<Rightarrow> 'a Run"

definition cret :: "'a \<Rightarrow> 'a Ctl" where
  "cret x io = Done x io"

definition cbind :: "'a Ctl \<Rightarrow> ('a \<Rightarrow> 'b Ctl) \<Rightarrow> 'b Ctl" where
  "cbind m f io = (case m io of Done x io' \<Rightarrow> f x io' | Exits c io' \<Rightarrow> Exits c io' | Waits io' \<Rightarrow> Waits io'
     | Hangs io' \<Rightarrow> Hangs io' | Becomes p io' \<Rightarrow> Becomes p io')"

definition println :: "string \<Rightarrow> unit Ctl" where
  "println line io = Done () (io\<lparr>io_out := io_out io @ [line]\<rparr>)"

definition eprintln :: "string \<Rightarrow> unit Ctl" where
  "eprintln line io = Done () (io\<lparr>io_err := io_err io @ [line]\<rparr>)"

definition die :: "string \<Rightarrow> int \<Rightarrow> 'a Ctl" where
  "die msg code io = Exits code (io\<lparr>io_err := io_err io @ [msg]\<rparr>)"

definition panics :: "'a Ctl" where
  "panics io = Exits 101 io"

definition hangs :: "'a Ctl" where
  "hangs io = Hangs io"

definition needs :: "'a option \<Rightarrow> string \<Rightarrow> 'a Ctl" where
  "needs x msg = (case x of Some v \<Rightarrow> cret v | None \<Rightarrow> die msg 2)"

text \<open>What the process is given, apart from its files and connections.\<close>

record Shell =
  sh_argv :: "string list"
  sh_pid :: nat
  sh_nanos :: "nat \<Rightarrow> nat"
  sh_secs :: nat
  sh_missing :: string
  sh_modes :: "string \<Rightarrow> nat option"
  sh_fd :: "int \<Rightarrow> string + string"
  sh_open :: "string \<Rightarrow> (int \<times> Store) R"
  sh_dump :: "Store \<Rightarrow> string"
  sh_tree :: "string \<Rightarrow> (string \<times> Node) list"
  sh_exec :: "string option"

section \<open>Arguments\<close>

record Args =
  ar_socket :: string
  ar_json :: bool
  ar_timeout_ms :: nat
  ar_wait :: bool
  ar_request :: "string option"
  ar_rest :: "string list"

datatype Parsed = Version | BadUsage | Parsed Args

definition default_args :: Args where
  "default_args = \<lparr>ar_socket = ''/run/lattice-watch/control.sock'', ar_json = False, ar_timeout_ms = 15000, ar_wait = False,
     ar_request = None, ar_rest = []\<rparr>"

text \<open>\<open>str::parse\<close> for the integers: a sign is accepted.\<close>

definition rust_u64 :: "string \<Rightarrow> nat option" where
  "rust_u64 t = parse_u64 (if take 1 t = ''+'' then drop 1 t else t)"

definition rust_i32 :: "string \<Rightarrow> int option" where
  "rust_i32 t = (if take 1 t = ''-''
     then (case parse_u64 (drop 1 t) of Some n \<Rightarrow> if n \<le> 2147483648 then Some (- int n) else None | None \<Rightarrow> None)
     else (case rust_u64 t of Some n \<Rightarrow> if n \<le> 2147483647 then Some (int n) else None | None \<Rightarrow> None))"

fun parse_args :: "string list \<Rightarrow> Args \<Rightarrow> Parsed" where
  "parse_args [] a = Parsed a"
| "parse_args (x # xs) a =
    (if x = ''--socket'' then (case xs of [] \<Rightarrow> BadUsage | p # ys \<Rightarrow> parse_args ys (a\<lparr>ar_socket := p\<rparr>))
     else if x = ''--json'' then parse_args xs (a\<lparr>ar_json := True\<rparr>)
     else if x = ''--timeout-ms'' then (case xs of [] \<Rightarrow> BadUsage
       | t # ys \<Rightarrow> parse_args ys (a\<lparr>ar_timeout_ms := (case rust_u64 t of Some n \<Rightarrow> n | None \<Rightarrow> 15000)\<rparr>))
     else if x = ''--wait'' then parse_args xs (a\<lparr>ar_wait := True\<rparr>)
     else if x = ''--request'' then (case xs of [] \<Rightarrow> parse_args [] (a\<lparr>ar_request := None\<rparr>)
       | w # ys \<Rightarrow> parse_args ys (a\<lparr>ar_request := Some w\<rparr>))
     else if x = ''--follow'' then parse_args xs a
     else if x = ''--version'' then Version
     else parse_args xs (a\<lparr>ar_rest := ar_rest a @ [x]\<rparr>))"

fun flag :: "string list \<Rightarrow> string \<Rightarrow> string option" where
  "flag [] name = None"
| "flag (x # xs) name =
    (if x = name then (case xs of [] \<Rightarrow> None | y # _ \<Rightarrow> Some y)
     else if starts_with x (name @ ''='') then Some (drop (length name + 1) x)
     else flag xs name)"

definition or_else :: "'a option \<Rightarrow> 'a \<Rightarrow> 'a" where
  "or_else x y = (case x of Some v \<Rightarrow> v | None \<Rightarrow> y)"

section \<open>Files\<close>

definition read_file :: "Shell \<Rightarrow> Io \<Rightarrow> string \<Rightarrow> string + string" where
  "read_file sh io path = (case io_fs io path of Some b \<Rightarrow> Inr b | None \<Rightarrow> Inl (sh_missing sh))"

definition read_text :: "Shell \<Rightarrow> Io \<Rightarrow> string \<Rightarrow> string + string" where
  "read_text sh io path = (case read_file sh io path of Inl e \<Rightarrow> Inl e
     | Inr b \<Rightarrow> if utf8_ok b then Inr b else Inl ''stream did not contain valid UTF-8'')"

definition json_file :: "Shell \<Rightarrow> string \<Rightarrow> Value Ctl" where
  "json_file sh path io = (case read_text sh io path of
     Inl e \<Rightarrow> die (''read '' @ path @ '': '' @ e) 2 io
   | Inr b \<Rightarrow> (case parse b reply_limits of
       Inl e \<Rightarrow> die (path @ '': '' @ code_as_str (perr_code e)) 2 io
     | Inr v \<Rightarrow> cret v io))"

definition head_file :: "Shell \<Rightarrow> string \<Rightarrow> Value Ctl" where
  "head_file sh path = cbind (json_file sh path) (\<lambda>v. case head_of v of
     Inr _ \<Rightarrow> cret v | Inl e \<Rightarrow> die (path @ '': bad head: '' @ fault_message e) 2)"

text \<open>Write beside the output, refuse an output that exists, rename.\<close>

definition output_exists :: string where
  "output_exists = ''output exists '' @ [CHR 0xE2, CHR 0x80, CHR 0x94] @ '' refusing overwrite''"

definition write_out :: "string \<Rightarrow> string \<Rightarrow> unit Ctl" where
  "write_out out content io = (let tmp = out @ ''.tmp''; fs = (io_fs io)(tmp \<mapsto> content) in
     if fs out \<noteq> None then die output_exists 2 (io\<lparr>io_fs := fs\<rparr>)
     else println out (io\<lparr>io_fs := fs(tmp := None, out \<mapsto> content)\<rparr>))"

section \<open>A call\<close>

fun hex_nat :: "nat \<Rightarrow> string" where
  "hex_nat n = (if n < 16 then [hex_digit n] else hex_nat (n div 16) @ [hex_digit (n mod 16)])"

declare hex_nat.simps [simp del]

definition idem :: "Shell \<Rightarrow> string Ctl" where
  "idem sh io = Done (''cli-'' @ hex_nat (sh_pid sh) @ ''-'' @ hex_nat (sh_nanos sh (io_ids io))) (io\<lparr>io_ids := io_ids io + 1\<rparr>)"

definition request_value :: "string \<Rightarrow> string \<Rightarrow> Value \<Rightarrow> Value" where
  "request_value rid mname params = Obj [(''v'', num 1), (''id'', Str rid), (''method'', Str mname), (''params'', params)]"

definition exchange :: "Args \<Rightarrow> string \<Rightarrow> Value Ctl" where
  "exchange a body io =
    (if length body > req_max then die ''request over 1 MiB'' 2 io
     else case io_links io of [] \<Rightarrow> Waits io
     | link # links \<Rightarrow> (let io1 = io\<lparr>io_links := links\<rparr> in case link of
         LinkDown e \<Rightarrow> die (''socket '' @ ar_socket a @ '': '' @ e) 2 io1
       | LinkBroken \<Rightarrow> die ''write'' 2 io1
       | LinkUp bs \<Rightarrow> (let io2 = io1\<lparr>io_sent := io_sent io @ [frame body]\<rparr>; n = of_be32 (take 4 bs) in
           if length bs < 4 then die ''reply frame'' 2 io2
           else if n > reply_max then die ''reply over 8 MiB'' 2 io2
           else if length (drop 4 bs) < n then die ''reply body'' 2 io2
           else case parse (take n (drop 4 bs)) reply_limits of
             Inl _ \<Rightarrow> die ''bad reply'' 2 io2 | Inr v \<Rightarrow> Done v io2)))"

definition text_at :: "Value \<Rightarrow> string \<Rightarrow> string option" where
  "text_at v k = Option.bind (value_get v k) as_str"

definition reply_code :: "Value \<Rightarrow> string" where
  "reply_code rep = or_else (Option.bind (value_get rep ''error'') (\<lambda>e. text_at e ''code'')) []"

primrec call_attempts :: "nat \<Rightarrow> Shell \<Rightarrow> Args \<Rightarrow> string \<Rightarrow> Value \<Rightarrow> string \<Rightarrow> Value Ctl" where
  "call_attempts 0 sh a mname params rid = die ''retry exhausted'' 2"
| "call_attempts (Suc k) sh a mname params rid =
     cbind (exchange a (jcs (request_value rid mname params))) (\<lambda>rep.
       if reply_code rep = ''RATE_LIMITED'' \<and> ar_request a = None
       then cbind (idem sh) (call_attempts k sh a mname params) else cret rep)"

definition ctl_call :: "Shell \<Rightarrow> Args \<Rightarrow> string \<Rightarrow> Value \<Rightarrow> Value Ctl" where
  "ctl_call sh a mname params = cbind (case ar_request a of Some r \<Rightarrow> cret r | None \<Rightarrow> idem sh)
     (call_attempts 2 sh a mname params)"

definition ctl_emit :: "Args \<Rightarrow> Value \<Rightarrow> int Ctl" where
  "ctl_emit a rep = (case value_get rep ''error'' of
     Some e \<Rightarrow> (let code = or_else (text_at e ''code'') ''?'' in
       cbind (if ar_json a then println (jcs rep)
              else eprintln (''error '' @ code @ '': '' @ or_else (text_at e ''message'') []))
         (\<lambda>_. cret (exit_for_code code)))
   | None \<Rightarrow> if ar_json a then (case value_get rep ''result'' of None \<Rightarrow> panics
       | Some r \<Rightarrow> cbind (println (jcs r)) (\<lambda>_. cret 0)) else cret 0)"

definition call_emit :: "Shell \<Rightarrow> Args \<Rightarrow> string \<Rightarrow> Value \<Rightarrow> int Ctl" where
  "call_emit sh a mname params = cbind (ctl_call sh a mname params) (ctl_emit a)"

lemma call_emit_eq: "call_emit sh a mname params = cbind (ctl_call sh a mname params) (ctl_emit a)"
  by (simp add: call_emit_def)

section \<open>The loops\<close>

text \<open>A result uses connections in order, and a call uses one.\<close>

lemma exchange_uses: "exchange a body io = Done v io' \<Longrightarrow> length (io_links io') < length (io_links io)"
  by (auto simp: exchange_def Let_def die_def split: if_split_asm list.splits Link.splits sum.splits)

lemma cbind_Done: "cbind m f io = Done y io'' \<longleftrightarrow> (\<exists>x io'. m io = Done x io' \<and> f x io' = Done y io'')"
  by (auto simp: cbind_def split: Run.split)

lemma call_attempts_uses: "call_attempts k sh a mname params rid io = Done v io' \<Longrightarrow> length (io_links io') < length (io_links io)"
proof (induction k arbitrary: rid io)
  case 0
  then show ?case by (simp add: die_def)
next
  case (Suc k)
  then obtain rep io1 where e: "exchange a (jcs (request_value rid mname params)) io = Done rep io1"
    and rest: "(if reply_code rep = ''RATE_LIMITED'' \<and> ar_request a = None
       then cbind (idem sh) (call_attempts k sh a mname params) else cret rep) io1 = Done v io'" by (auto simp: cbind_Done)
  note used = exchange_uses [OF e]
  show ?case
  proof (cases "reply_code rep = ''RATE_LIMITED'' \<and> ar_request a = None")
    case True
    then obtain rid' where "call_attempts k sh a mname params rid' (io1\<lparr>io_ids := io_ids io1 + 1\<rparr>) = Done v io'"
      using rest by (auto simp: cbind_Done idem_def)
    from Suc.IH [OF this] show ?thesis using used by simp
  next
    case False
    then show ?thesis using rest used by (auto simp: cret_def)
  qed
qed

lemma call_uses: "ctl_call sh a mname params io = Done v io' \<Longrightarrow> length (io_links io') < length (io_links io)"
  by (auto simp: ctl_call_def cbind_Done cret_def idem_def split: option.splits dest!: call_attempts_uses)

definition terminal_state :: "string \<Rightarrow> bool" where
  "terminal_state st \<longleftrightarrow> st \<in> set [''CLEAR'', ''DENY'', ''EXPIRED'', ''HELD'', ''CANCELLED'', ''STALE'']"

definition reply_result :: "Value \<Rightarrow> Value" where
  "reply_result rep = or_else (value_get rep ''result'') Null"

definition state_of :: "Value \<Rightarrow> string" where
  "state_of got = or_else (text_at got ''state'') ''?''"

text \<open>\<open>check --wait\<close>: the check is read again until its state is terminal.\<close>

function wait_check :: "Shell \<Rightarrow> Args \<Rightarrow> string \<Rightarrow> int Ctl" where
  "wait_check sh a cid io = (case ctl_call sh a ''checks.get'' (Obj [(''id'', Str cid)]) io of
     Done rep io1 \<Rightarrow> (let got = reply_result rep;
         io2 = (if ar_json a then io1\<lparr>io_out := io_out io1 @ [jcs got]\<rparr> else io1)
       in if terminal_state (state_of got) then Done (exit_for_terminal ''check'' (state_of got)) io2
          else wait_check sh a cid io2)
   | Exits c io1 \<Rightarrow> Exits c io1 | Waits io1 \<Rightarrow> Waits io1 | Hangs io1 \<Rightarrow> Hangs io1 | Becomes p io1 \<Rightarrow> Becomes p io1)"
  by pat_completeness auto
termination by (relation "measure (\<lambda>(_, _, _, io). length (io_links io))") (auto dest: call_uses)

declare wait_check.simps [simp del]

definition opt_head :: "Shell \<Rightarrow> string list \<Rightarrow> Value Ctl" where
  "opt_head sh args = (case flag args ''--through-file'' of Some f \<Rightarrow> head_file sh f | None \<Rightarrow> cret Null)"

definition limit_of :: "string list \<Rightarrow> nat \<Rightarrow> nat" where
  "limit_of args other = or_else (Option.bind (flag args ''--limit'') rust_u64) other"

text \<open>The cursor of the next poll: the one the daemon gives, or the member of the last item.\<close>

definition next_cursor :: "string \<Rightarrow> Value \<Rightarrow> string" where
  "next_cursor after got = (case text_at got ''next_after'' of Some c \<Rightarrow> c
   | None \<Rightarrow> (case Option.bind (value_get got ''items'') as_arr of
       Some items \<Rightarrow> if items = [] then after else or_else (text_at (last items) ''seq'') after
     | None \<Rightarrow> after))"

definition print_items :: "Value \<Rightarrow> Io \<Rightarrow> Io" where
  "print_items got io = (case Option.bind (value_get got ''items'') as_arr of
     Some items \<Rightarrow> io\<lparr>io_out := io_out io @ map jcs items\<rparr> | None \<Rightarrow> io)"

definition events_call :: "Shell \<Rightarrow> Args \<Rightarrow> string list \<Rightarrow> string \<Rightarrow> Value Ctl" where
  "events_call sh a args after = cbind (opt_head sh args) (\<lambda>through.
     ctl_call sh a ''events.read'' (Obj [(''after'', Str after), (''through'', through), (''limit'', num (limit_of args 100))]))"

lemma opt_head_links: "opt_head sh args io = Done v io' \<Longrightarrow> io' = io"
  by (auto simp: opt_head_def head_file_def json_file_def cret_def cbind_Done die_def split: option.splits sum.splits)

lemma events_uses: "events_call sh a args after io = Done v io' \<Longrightarrow> length (io_links io') < length (io_links io)"
  by (auto simp: events_call_def cbind_Done dest!: call_uses opt_head_links)

lemma print_items_links [simp]: "io_links (print_items got io) = io_links io"
  by (simp add: print_items_def split: option.split)

function read_events :: "Shell \<Rightarrow> Args \<Rightarrow> string list \<Rightarrow> bool \<Rightarrow> string \<Rightarrow> int Ctl" where
  "read_events sh a args follow after io = (case events_call sh a args after io of
     Done rep io1 \<Rightarrow> (case value_get rep ''error'' of
         Some e \<Rightarrow> (let code = or_else (text_at e ''code'') ''?'' in
           Exits (exit_for_code code) (io1\<lparr>io_err := io_err io1 @ [''error '' @ code]\<rparr>))
       | None \<Rightarrow> (let got = reply_result rep; io2 = print_items got io1 in
           if \<not> follow then Done 0 io2 else read_events sh a args follow (next_cursor after got) io2))
   | Exits c io1 \<Rightarrow> Exits c io1 | Waits io1 \<Rightarrow> Waits io1 | Hangs io1 \<Rightarrow> Hangs io1 | Becomes p io1 \<Rightarrow> Becomes p io1)"
  by pat_completeness auto
termination by (relation "measure (\<lambda>(_, _, _, _, _, io). length (io_links io))") (auto dest: events_uses)

declare read_events.simps [simp del]

section \<open>The commands that call the daemon\<close>

definition required :: "string list \<Rightarrow> string \<Rightarrow> string Ctl" where
  "required args name = needs (flag args name) name"

definition file_arg :: "string list \<Rightarrow> string Ctl" where
  "file_arg args = needs (flag args ''--file'') ''--file required''"

definition cmd_get :: "Shell \<Rightarrow> Args \<Rightarrow> string list \<Rightarrow> string \<Rightarrow> int Ctl" where
  "cmd_get sh a args mname = cbind (required args ''--id'') (\<lambda>i. call_emit sh a mname (Obj [(''id'', Str i)]))"

definition cmd_check_show :: "Shell \<Rightarrow> Args \<Rightarrow> string list \<Rightarrow> int Ctl" where
  "cmd_check_show sh a args = cmd_get sh a args ''checks.get''"

definition cmd_run_show :: "Shell \<Rightarrow> Args \<Rightarrow> string list \<Rightarrow> int Ctl" where
  "cmd_run_show sh a args = cmd_get sh a args ''runs.get''"

definition cmd_review_show :: "Shell \<Rightarrow> Args \<Rightarrow> string list \<Rightarrow> int Ctl" where
  "cmd_review_show sh a args = cmd_get sh a args ''reviews.get''"

definition cmd_revision :: "Shell \<Rightarrow> Args \<Rightarrow> string list \<Rightarrow> string \<Rightarrow> int Ctl" where
  "cmd_revision sh a args mname = cbind (required args ''--id'') (\<lambda>i. cbind (required args ''--revision'') (\<lambda>rev.
     call_emit sh a mname (Obj [(''id'', Str i), (''expected_revision'', Str rev)])))"

definition cmd_check_cancel :: "Shell \<Rightarrow> Args \<Rightarrow> string list \<Rightarrow> int Ctl" where
  "cmd_check_cancel sh a args = cmd_revision sh a args ''checks.cancel''"

definition cmd_review_claim :: "Shell \<Rightarrow> Args \<Rightarrow> string list \<Rightarrow> int Ctl" where
  "cmd_review_claim sh a args = cmd_revision sh a args ''reviews.claim''"

definition cmd_check :: "Shell \<Rightarrow> Args \<Rightarrow> string list \<Rightarrow> int Ctl" where
  "cmd_check sh a args = cbind (file_arg args) (\<lambda>f. cbind (json_file sh f) (\<lambda>params.
     let cid = or_else (text_at params ''id'') [] in
     cbind (call_emit sh a ''checks.create'' params) (\<lambda>exit.
       if ar_wait a \<and> exit = 0 then wait_check sh a cid
       else if exit = 0 \<and> \<not> ar_json a then cbind (println (''check '' @ cid @ '' admitted (EVALUATING)'')) (\<lambda>_. cret exit)
       else cret exit)))"

definition cmd_file_under :: "Shell \<Rightarrow> Args \<Rightarrow> string list \<Rightarrow> string \<Rightarrow> string \<Rightarrow> int Ctl" where
  "cmd_file_under sh a args mname member = cbind (file_arg args) (\<lambda>f. cbind (json_file sh f) (\<lambda>v.
     call_emit sh a mname (Obj [(member, v)])))"

definition cmd_observe :: "Shell \<Rightarrow> Args \<Rightarrow> string list \<Rightarrow> int Ctl" where
  "cmd_observe sh a args = cmd_file_under sh a args ''observations.append'' ''observation''"

definition cmd_effect_record :: "Shell \<Rightarrow> Args \<Rightarrow> string list \<Rightarrow> int Ctl" where
  "cmd_effect_record sh a args = cmd_file_under sh a args ''effects.record'' ''effect''"

definition cmd_audit_evaluate :: "Shell \<Rightarrow> Args \<Rightarrow> string list \<Rightarrow> int Ctl" where
  "cmd_audit_evaluate sh a args = cmd_file_under sh a args ''audit.evaluate'' ''input''"

definition cmd_file :: "Shell \<Rightarrow> Args \<Rightarrow> string list \<Rightarrow> string \<Rightarrow> int Ctl" where
  "cmd_file sh a args mname = cbind (file_arg args) (\<lambda>f. cbind (json_file sh f) (call_emit sh a mname))"

definition cmd_run_open :: "Shell \<Rightarrow> Args \<Rightarrow> string list \<Rightarrow> int Ctl" where
  "cmd_run_open sh a args = cmd_file sh a args ''runs.open''"

definition cmd_audit_sample :: "Shell \<Rightarrow> Args \<Rightarrow> string list \<Rightarrow> int Ctl" where
  "cmd_audit_sample sh a args = cmd_file sh a args ''audit.sample''"

definition cmd_policy_activate :: "Shell \<Rightarrow> Args \<Rightarrow> string list \<Rightarrow> int Ctl" where
  "cmd_policy_activate sh a args = cbind (file_arg args) (\<lambda>f. cbind (json_file sh f) (\<lambda>v.
     call_emit sh a ''policy.activate'' (Obj [(''policy'', v),
       (''expected_generation'', Str (or_else (flag args ''--expected-generation'') ''0''))])))"

definition cmd_run_control :: "Shell \<Rightarrow> Args \<Rightarrow> string list \<Rightarrow> string \<Rightarrow> int Ctl" where
  "cmd_run_control sh a args action = cbind (required args ''--id'') (\<lambda>i. cbind (required args ''--revision'') (\<lambda>rev.
     call_emit sh a ''runs.control'' (Obj [(''id'', Str i), (''expected_revision'', Str rev), (''action'', Str action),
       (''reason'', Str (or_else (flag args ''--reason'') ''operator''))])))"

definition ctl_list_params :: "Shell \<Rightarrow> string list \<Rightarrow> nat \<Rightarrow> Value Ctl" where
  "ctl_list_params sh args other = cbind (opt_head sh args) (\<lambda>through. cret (Obj [
     (''run'', case flag args ''--run'' of Some x \<Rightarrow> Str x | None \<Rightarrow> Null),
     (''after'', Str (or_else (flag args ''--after'') ''0'')),
     (''through'', through), (''limit'', num (limit_of args other))]))"

definition cmd_list :: "Shell \<Rightarrow> Args \<Rightarrow> string list \<Rightarrow> string \<Rightarrow> int Ctl" where
  "cmd_list sh a args mname = cbind (ctl_list_params sh args 20) (call_emit sh a mname)"

definition cmd_review_list :: "Shell \<Rightarrow> Args \<Rightarrow> string list \<Rightarrow> int Ctl" where
  "cmd_review_list sh a args = cmd_list sh a args ''reviews.list''"

definition cmd_alert_list :: "Shell \<Rightarrow> Args \<Rightarrow> string list \<Rightarrow> int Ctl" where
  "cmd_alert_list sh a args = cmd_list sh a args ''alerts.list''"

definition cmd_review_next :: "Shell \<Rightarrow> Args \<Rightarrow> int Ctl" where
  "cmd_review_next sh a = call_emit sh a ''reviews.claim'' (Obj [(''id'', Null), (''expected_revision'', Null)])"

definition resolution :: "string list \<Rightarrow> (string \<times> Value) list Ctl" where
  "resolution args = cbind (required args ''--id'') (\<lambda>i. cbind (required args ''--revision'') (\<lambda>rev.
     cbind (required args ''--action'') (\<lambda>action. cbind (required args ''--reason'') (\<lambda>reason.
     cret [(''id'', Str i), (''expected_revision'', Str rev), (''action'', Str action), (''reason'', Str reason)]))))"

definition cmd_review_resolve :: "Shell \<Rightarrow> Args \<Rightarrow> string list \<Rightarrow> int Ctl" where
  "cmd_review_resolve sh a args = cbind (resolution args) (\<lambda>m. call_emit sh a ''reviews.resolve''
     (Obj (m @ [(''wake_ms'', case flag args ''--wake-ms'' of Some x \<Rightarrow> Str x | None \<Rightarrow> Null)])))"

definition cmd_alert_resolve :: "Shell \<Rightarrow> Args \<Rightarrow> string list \<Rightarrow> int Ctl" where
  "cmd_alert_resolve sh a args = cbind (resolution args) (\<lambda>m. call_emit sh a ''alerts.resolve'' (Obj m))"

definition cmd_events :: "Shell \<Rightarrow> Args \<Rightarrow> string list \<Rightarrow> int Ctl" where
  "cmd_events sh a args = read_events sh a args (''--follow'' \<in> set (ar_rest a) \<or> ''--follow'' \<in> set (sh_argv sh))
     (or_else (flag args ''--after'') ''0'')"

definition cmd_export :: "Shell \<Rightarrow> Args \<Rightarrow> string list \<Rightarrow> int Ctl" where
  "cmd_export sh a args = (let disclosure = or_else (flag args ''--disclosure'') ''COMMITMENTS'' in
     if disclosure \<noteq> ''FULL'' \<and> disclosure \<noteq> ''COMMITMENTS'' then die ''--disclosure FULL|COMMITMENTS'' 2
     else cbind (opt_head sh args) (\<lambda>through. cbind (required args ''--recipient'') (\<lambda>recipient.
       cbind (ctl_call sh a ''bundle.export'' (Obj [(''through'', through), (''disclosure'', Str disclosure),
         (''recipient'', Str recipient)])) (\<lambda>rep.
       case flag args ''--out'' of
         None \<Rightarrow> ctl_emit a rep
       | Some out \<Rightarrow> if value_get rep ''ok'' = Some (Bool True)
           then (case value_get rep ''result'' of None \<Rightarrow> panics
             | Some v \<Rightarrow> cbind (write_out out (jcs v)) (\<lambda>_. cret 0))
           else ctl_emit a rep))))"

section \<open>The offline commands\<close>

definition key_file_bytes :: "Shell \<Rightarrow> string list \<Rightarrow> string Ctl" where
  "key_file_bytes sh args = (case flag args ''--key-fd'' of
     Some fd \<Rightarrow> cbind (needs (rust_i32 fd) ''bad --key-fd'') (\<lambda>n. case sh_fd sh n of
       Inl e \<Rightarrow> die (''key fd: '' @ e) 2 | Inr b \<Rightarrow> cret b)
   | None \<Rightarrow> cbind (needs (flag args ''--key'') ''--key or --key-fd'') (\<lambda>f io. case read_file sh io f of
       Inl e \<Rightarrow> die (''key: '' @ e) 2 io | Inr b \<Rightarrow> cret b io))"

text \<open>
  The raw seed, or its hexadecimal text; bytes that are not UTF-8 are replaced by a character that is no
  digit. The loader may not return.
\<close>

definition signing_key_of :: "(string \<Rightarrow> string option) \<Rightarrow> string \<Rightarrow> string Ctl" where
  "signing_key_of std raw = (let load = (\<lambda>b. case signing_key std b of None \<Rightarrow> hangs | Some k \<Rightarrow> needs k ''bad key'') in
     if length raw = 32 then load raw
     else cbind (needs (if utf8_ok raw then hex_decode (trim raw) else None) ''bad key'') load)"

definition cmd_policy_sign :: "Crypto \<Rightarrow> (string \<Rightarrow> string option) \<Rightarrow> Shell \<Rightarrow> string list \<Rightarrow> int Ctl" where
  "cmd_policy_sign cr std sh args =
     cbind (needs (case flag args ''--body'' of Some f \<Rightarrow> Some f | None \<Rightarrow> flag args ''--file'') ''--body required'') (\<lambda>f.
     cbind (json_file sh f) (\<lambda>body. cbind (key_file_bytes sh args) (\<lambda>raw. cbind (signing_key_of std raw) (\<lambda>sk.
       let env = sign_envelope cr ''policy'' body (or_else (flag args ''--key-id'') ''local_key'')
         (or_else (flag args ''--key-epoch'') ''1'') sk in
       cbind (case flag args ''--out'' of Some out \<Rightarrow> write_out out (jcs env) | None \<Rightarrow> println (jcs env)) (\<lambda>_. cret 0)))))"

definition cmd_policy_validate :: "Crypto \<Rightarrow> Shell \<Rightarrow> Args \<Rightarrow> string list \<Rightarrow> int Ctl" where
  "cmd_policy_validate cr sh a args = cbind (file_arg args) (\<lambda>f. cbind (json_file sh f) (\<lambda>v.
     case sbind (signed_of cr v) (\<lambda>sv. sbind (policy_of (sd_body sv)) (\<lambda>_. Inr sv)) of
       Inl e \<Rightarrow> die (''invalid: '' @ fault_message e) 2
     | Inr sv \<Rightarrow> cbind (println (if ar_json a then jcs (Obj [(''valid'', Bool True), (''digest'', Str (sd_digest sv))])
           else ''valid:true digest:'' @ sd_digest sv)) (\<lambda>_. cret 0)))"

definition cmd_verify :: "Crypto \<Rightarrow> Shell \<Rightarrow> Args \<Rightarrow> string list \<Rightarrow> int Ctl" where
  "cmd_verify cr sh a args = cbind (required args ''--bundle'') (\<lambda>bf. cbind (required args ''--trust'') (\<lambda>tf.
     cbind (json_file sh bf) (\<lambda>bundle. cbind (json_file sh tf) (\<lambda>trust_v.
     case trust_of cr trust_v of
       Inl e \<Rightarrow> die (''trust: '' @ fault_message e) 2
     | Inr trust \<Rightarrow> (let v = verify cr bundle trust; status = or_else (text_at v ''status'') ''INVALID'' in
         cbind (println (if ar_json a then jcs v else status)) (\<lambda>_.
           cret (if status = ''FULL_REPLAY'' then 0 else if status \<in> {''INCOMPLETE'', ''INTEGRITY_ONLY''} then 4 else 6)))))))"

definition doctor_line :: "Value \<Rightarrow> string" where
  "doctor_line c = or_else (text_at c ''name'') ''?'' @ '':'' @
     (if value_get c ''ok'' = Some (Bool True) then ''ok'' else ''fail'')"

definition doctor_exit :: "Value \<Rightarrow> int" where
  "doctor_exit v = (if value_get v ''ready'' = Some (Bool True) then 0
     else case Option.bind (Option.bind (value_get v ''checks'') as_arr) (find (\<lambda>c. value_get c ''ok'' = Some (Bool False))) of
       None \<Rightarrow> 2
     | Some c \<Rightarrow> (case text_at c ''code'' of Some code \<Rightarrow> exit_for_code code | None \<Rightarrow> 2))"

definition cmd_doctor :: "Crypto \<Rightarrow> Shell \<Rightarrow> Args \<Rightarrow> string list \<Rightarrow> int Ctl" where
  "cmd_doctor cr sh a args = cbind (required args ''--config'') (\<lambda>cf. cbind (required args ''--trust'') (\<lambda>tf io.
     case doctor_run cr (read_file sh io) (sh_modes sh) cf tf of
       None \<Rightarrow> panics io
     | Some v \<Rightarrow> (let lines = (if ar_json a then [jcs v]
           else case Option.bind (value_get v ''checks'') as_arr of Some cs \<Rightarrow> map doctor_line cs | None \<Rightarrow> [])
         in Done (doctor_exit v) (io\<lparr>io_out := io_out io @ lines\<rparr>))))"

definition ctl_config :: "Crypto \<Rightarrow> Shell \<Rightarrow> string \<Rightarrow> Config Ctl" where
  "ctl_config cr sh path io = (case read_config cr (read_file sh io) path of
     None \<Rightarrow> panics io | Some (Inl e) \<Rightarrow> die (''config: '' @ fault_message e) 2 io | Some (Inr c) \<Rightarrow> cret c io)"

text \<open>The output directory of a backup, as part of the file system.\<close>

definition sub_dir :: "string \<Rightarrow> (string \<Rightarrow> string option) \<Rightarrow> string \<Rightarrow> string option" where
  "sub_dir dir fs rel = fs (join_path dir rel)"

definition put_dir :: "string \<Rightarrow> (string \<Rightarrow> string option) \<Rightarrow> (string \<Rightarrow> string option) \<Rightarrow> string \<Rightarrow> string option" where
  "put_dir dir m fs path = (if starts_with path (join_path dir []) then m (drop (length (join_path dir [])) path) else fs path)"

definition cmd_store_backup :: "Crypto \<Rightarrow> (string \<Rightarrow> string option) \<Rightarrow> Shell \<Rightarrow> string list \<Rightarrow> int Ctl" where
  "cmd_store_backup cr std sh args = cbind (required args ''--config'') (\<lambda>cf. cbind (required args ''--out'') (\<lambda>out.
     cbind (ctl_config cr sh cf) (\<lambda>cfg io.
     case load_signer std (read_file sh io (cf_signer_key_file cfg)) of
       None \<Rightarrow> hangs io
     | Some (Inl e) \<Rightarrow> die (''signer: '' @ fault_message e) 2 io
     | Some (Inr sk) \<Rightarrow> (case backup cr (sh_dump sh) (map_sum id snd (sh_open sh (join_path (cf_data_dir cfg) ''watch.db'')))
           (sh_tree sh (join_path (cf_data_dir cfg) ''objects'')) (sub_dir out (io_fs io)) (cf_tenant cfg) (cf_signer_key_id cfg)
           (cf_signer_key_epoch cfg) sk (utc_stamp (sh_secs sh)) of
         (got, m) \<Rightarrow> (let io1 = io\<lparr>io_fs := put_dir out m (io_fs io)\<rparr> in case got of
           Inl e \<Rightarrow> die (''backup: '' @ fault_message e) 7 io1
         | Inr v \<Rightarrow> cbind (println (jcs v)) (\<lambda>_. cret 0) io1)))))"

definition cmd_store_migrate :: "Crypto \<Rightarrow> Shell \<Rightarrow> string list \<Rightarrow> int Ctl" where
  "cmd_store_migrate cr sh args = cbind (required args ''--config'') (\<lambda>cf. cbind (ctl_config cr sh cf) (\<lambda>cfg.
     case migrate (sh_open sh (join_path (cf_data_dir cfg) ''watch.db'')) of
       Inr v \<Rightarrow> cbind (println (jcs v)) (\<lambda>_. cret 0)
     | Inl e \<Rightarrow> cbind (println (jcs (Obj [(''code'', Str (code_as_str (fault_code e)))]))) (\<lambda>_. cret 7)))"

definition cmd_serve :: "Shell \<Rightarrow> string list \<Rightarrow> int Ctl" where
  "cmd_serve sh args = cbind (required args ''--config'') (\<lambda>cf io. case sh_exec sh of
     Some e \<Rightarrow> die (''serve: '' @ e) 7 io
   | None \<Rightarrow> Becomes ([''watchd'', ''--config'', cf] @ (if ''--lab'' \<in> set (sh_argv sh) then [''--lab''] else [])) io)"

section \<open>The program\<close>

definition usage_text :: string where
  "usage_text = ''usage: watchctl [--socket P] [--json] [--timeout-ms N] [--wait] [--request ID] <command>'' @ [CHR 0x0A] @
     ''commands: status | drain | policy sign|validate|activate |'' @ [CHR 0x0A] @
     ''run open|show|pause|resume|close | observe | check | check show|cancel |'' @ [CHR 0x0A] @
     ''effect record | review list|show|claim|next|resolve | alert list|resolve |'' @ [CHR 0x0A] @
     ''audit evaluate|sample | events [--follow] | export | verify | metrics |'' @ [CHR 0x0A] @
     ''doctor | store backup | store migrate''"

definition usage :: "'a Ctl" where
  "usage = die usage_text 2"

definition offline :: "string \<Rightarrow> string option \<Rightarrow> bool" where
  "offline cmd sub \<longleftrightarrow> (cmd = ''policy'' \<and> sub \<in> {Some ''sign'', Some ''validate''}) \<or> cmd = ''verify'' \<or> cmd = ''doctor'' \<or>
     (cmd = ''store'' \<and> sub \<in> {Some ''backup'', Some ''migrate''}) \<or> cmd = ''serve''"

definition offline_command :: "Crypto \<Rightarrow> (string \<Rightarrow> string option) \<Rightarrow> Shell \<Rightarrow> Args \<Rightarrow> string list \<Rightarrow> string \<Rightarrow> string option \<Rightarrow> int Ctl" where
  "offline_command cr std sh a args cmd sub =
    (if cmd = ''policy'' \<and> sub = Some ''sign'' then cmd_policy_sign cr std sh args
     else if cmd = ''policy'' then cmd_policy_validate cr sh a args
     else if cmd = ''verify'' then cmd_verify cr sh a args
     else if cmd = ''doctor'' then cmd_doctor cr sh a args
     else if cmd = ''store'' \<and> sub = Some ''backup'' then cmd_store_backup cr std sh args
     else if cmd = ''store'' then cmd_store_migrate cr sh args
     else cmd_serve sh args)"

definition run_command :: "Shell \<Rightarrow> Args \<Rightarrow> string list \<Rightarrow> string option \<Rightarrow> int Ctl" where
  "run_command sh a args sub =
    (if sub = Some ''open'' then cmd_run_open sh a args
     else if sub = Some ''show'' then cmd_run_show sh a args
     else case sub of Some action \<Rightarrow> if action \<in> {''pause'', ''resume'', ''close''} then cmd_run_control sh a args action else usage
       | None \<Rightarrow> usage)"

definition review_command :: "Shell \<Rightarrow> Args \<Rightarrow> string list \<Rightarrow> string option \<Rightarrow> int Ctl" where
  "review_command sh a args sub =
    (if sub = Some ''list'' then cmd_review_list sh a args
     else if sub = Some ''show'' then cmd_review_show sh a args
     else if sub = Some ''claim'' then cmd_review_claim sh a args
     else if sub = Some ''next'' then cmd_review_next sh a
     else if sub = Some ''resolve'' then cmd_review_resolve sh a args else usage)"

definition online_command :: "Shell \<Rightarrow> Args \<Rightarrow> string list \<Rightarrow> string \<Rightarrow> string option \<Rightarrow> int Ctl" where
  "online_command sh a args cmd sub =
    (if cmd = ''status'' then call_emit sh a ''system.status'' (Obj [])
     else if cmd = ''drain'' then call_emit sh a ''system.drain'' (Obj [])
     else if cmd = ''check'' then (if sub = Some ''show'' then cmd_check_show sh a args
       else if sub = Some ''cancel'' then cmd_check_cancel sh a args else cmd_check sh a args)
     else if cmd = ''observe'' then cmd_observe sh a args
     else if cmd = ''effect'' \<and> sub = Some ''record'' then cmd_effect_record sh a args
     else if cmd = ''policy'' \<and> sub = Some ''activate'' then cmd_policy_activate sh a args
     else if cmd = ''run'' then run_command sh a args sub
     else if cmd = ''review'' then review_command sh a args sub
     else if cmd = ''alert'' \<and> sub = Some ''list'' then cmd_alert_list sh a args
     else if cmd = ''alert'' \<and> sub = Some ''resolve'' then cmd_alert_resolve sh a args
     else if cmd = ''audit'' \<and> sub = Some ''evaluate'' then cmd_audit_evaluate sh a args
     else if cmd = ''audit'' \<and> sub = Some ''sample'' then cmd_audit_sample sh a args
     else if cmd = ''events'' then cmd_events sh a args
     else if cmd = ''export'' then cmd_export sh a args
     else if cmd = ''metrics'' then call_emit sh a ''metrics.get'' (Obj [])
     else usage)"

definition command :: "Crypto \<Rightarrow> (string \<Rightarrow> string option) \<Rightarrow> Shell \<Rightarrow> Args \<Rightarrow> int Ctl" where
  "command cr std sh a = (case ar_rest a of [] \<Rightarrow> usage
   | cmd # more_args \<Rightarrow> (let sub = (case more_args of [] \<Rightarrow> None | x # _ \<Rightarrow> Some x) in
       if offline cmd sub \<and> ''--socket'' \<in> set (sh_argv sh) then die ''--socket not permitted on offline commands'' 2
       else if offline cmd sub then offline_command cr std sh a (ar_rest a) cmd sub
       else online_command sh a (ar_rest a) cmd sub))"

definition exit_with :: "int \<Rightarrow> unit Ctl" where
  "exit_with code io = Exits (code mod 256) io"

definition ctl_main :: "Crypto \<Rightarrow> (string \<Rightarrow> string option) \<Rightarrow> Shell \<Rightarrow> unit Ctl" where
  "ctl_main cr std sh = (case parse_args (sh_argv sh) default_args of
     BadUsage \<Rightarrow> usage
   | Version \<Rightarrow> cbind (println ''watchctl 0.1.0 v:1'') (\<lambda>_. exit_with 0)
   | Parsed a \<Rightarrow> cbind (command cr std sh a) exit_with)"

end
