(* ===== verification/Client.thy ===== *)
theory Client
  imports Ctl SampleHost
begin

text \<open>
  What the client and the daemon do together: the request that is sent is the request that is served, the
  reply is read as it was given, and a fault becomes the exit code of its class. And two loops of the client
  that do not make progress.
\<close>

section \<open>A call over the socket\<close>

lemma canon_obj: "canon (Obj m) = Obj (canon_members m)"
  by (simp add: canon_members_def)

lemma text_at_canon: "text_at (canon v) k = text_at v k"
proof -
  have "as_str (canon w) = as_str w" for w by (cases w) (simp_all add: as_str_def)
  then show ?thesis by (cases "value_get v k") (simp_all add: text_at_def value_get_canon)
qed

lemma frame_parts: "length b < 4294967296 \<Longrightarrow> of_be32 (take 4 (frame b)) = length b \<and> drop 4 (frame b) = b \<and> 4 \<le> length (frame b)"
  by (simp add: frame_def of_be32_be32)

lemma request_members: "canon (request_value rid mname params) = Obj (canon_members
    [(''v'', num 1), (''id'', Str rid), (''method'', Str mname), (''params'', params)])"
  by (simp add: request_value_def canon_obj del: canon.simps)

lemma frame_served:
  assumes "val_ok request_limits 0 (request_value rid mname params)"
    and "length (jcs (request_value rid mname params)) \<le> req_max"
  shows "serve_frame cr pf (Some p) a (jcs (request_value rid mname params)) sv =
    (case serve_request cr pf p a rid mname (canon params) (se_daemon sv) of
      (None, dm) \<Rightarrow> Closed (sv\<lparr>se_daemon := dm\<rparr>) | (Some v, dm) \<Rightarrow> Answered (write_reply v) (sv\<lparr>se_daemon := dm\<rparr>))"
proof -
  have "parse (jcs (request_value rid mname params)) request_limits = Inr (canon (request_value rid mname params))"
    using assms by (intro parse_canonical) (simp_all add: request_limits_def req_max_def)
  then show ?thesis unfolding serve_frame_def request_members
    by (simp add: map_of_canon text_member_def num_def del: canon.simps(2))
qed

lemma nonempty_jcs: "jcs (Obj m) \<noteq> []"
  by simp

lemma stream_served:
  assumes "val_ok request_limits 0 (request_value rid mname params)"
    and "length (jcs (request_value rid mname params)) \<le> req_max"
  shows "serve_stream cr pf (Some p) around i (frame (jcs (request_value rid mname params))) sv =
    (case serve_request cr pf p (around i) rid mname (canon params) (se_daemon sv) of
      (None, dm) \<Rightarrow> ([], sv\<lparr>se_daemon := dm\<rparr>) | (Some v, dm) \<Rightarrow> ([write_reply v], sv\<lparr>se_daemon := dm\<rparr>))"
proof -
  let ?b = "jcs (request_value rid mname params)"
  have "length ?b < 4294967296" using assms(2) by (simp add: req_max_def)
  note parts = frame_parts [OF this]
  have "?b \<noteq> []" by (simp add: request_value_def)
  moreover have "serve_stream cr pf peer around k [] s = ([], s)" for peer k s by (subst serve_stream.simps) simp
  ultimately show ?thesis using assms(2) parts frame_served [OF assms]
    by (subst serve_stream.simps) (auto simp: Let_def not_less split: prod.split option.split)
qed

lemma reply_read:
  assumes "val_ok reply_limits 0 v" and "length (jcs v) \<le> reply_max" and "length body \<le> req_max"
    and "io_links io = LinkUp (write_reply v) # links"
  shows "exchange a body io = Done (canon v) (io\<lparr>io_links := links, io_sent := io_sent io @ [frame body]\<rparr>)"
proof -
  have "length (jcs v) < 4294967296" using assms(2) by (simp add: reply_max_def)
  note parts = frame_parts [OF this]
  have "parse (jcs v) reply_limits = Inr (canon v)"
    using assms(1,2) by (intro parse_canonical) (simp_all add: reply_limits_def reply_max_def)
  then show ?thesis using assms parts by (simp add: exchange_def Let_def write_reply_def)
qed

text \<open>
  C16. A call over the socket is a call of the daemon: the request the client builds is
  served under its own id, method and parameters, up to the order of members; the daemon is left as that
  request leaves it, and the client reads the reply that was given.
\<close>

theorem call_reaches_daemon:
  assumes "val_ok request_limits 0 (request_value rid mname params)"
    and "length (jcs (request_value rid mname params)) \<le> req_max"
    and "serve_request cr pf p (around i) rid mname (canon params) (se_daemon sv) = (Some v, dm)"
    and "val_ok reply_limits 0 v" and "length (jcs v) \<le> reply_max"
  shows "let body = jcs (request_value rid mname params); served = serve_stream cr pf (Some p) around i (frame body) sv in
    snd served = sv\<lparr>se_daemon := dm\<rparr> \<and>
    exchange a body (io\<lparr>io_links := LinkUp (concat (fst served)) # links\<rparr>) =
      Done (canon v) (io\<lparr>io_links := links, io_sent := io_sent io @ [frame body]\<rparr>)"
proof -
  have s: "serve_stream cr pf (Some p) around i (frame (jcs (request_value rid mname params))) sv = ([write_reply v], sv\<lparr>se_daemon := dm\<rparr>)"
    using stream_served [OF assms(1,2), of cr pf p around i sv] assms(3) by simp
  show ?thesis unfolding Let_def s
    using reply_read [OF assms(4,5,2), of "io\<lparr>io_links := LinkUp (write_reply v) # links\<rparr>" links a] by simp
qed

text \<open>A host that refuses an unknown method.\<close>

definition faulted_server :: Server where
  "faulted_server = \<lparr>se_daemon = sample_daemon\<lparr>dm_host := (dm_host sample_daemon)\<lparr>ho_state := HsFaulted\<rparr>\<rparr>, se_protocol_errors = 0\<rparr>"

definition unknown_reply_value :: Value where
  "unknown_reply_value = reply_envelope ''r'' (Inl (new_fault MethodUnknown ''unknown method''))"

lemma faulted_serves: "serve_request cr pf p (5, [], []) ''r'' ''nope'' v (se_daemon faulted_server) = (Some unknown_reply_value, se_daemon faulted_server)"
  by (simp add: serve_request_def faulted_server_def tick_def dispatch_request_def PUBLIC_METHODS_def Let_def
      unknown_reply_value_def sample_daemon_def boot_daemon_def)

definition no_io :: Io where
  "no_io = \<lparr>io_fs = (\<lambda>_. None), io_links = [], io_ids = 0, io_sent = [], io_out = [], io_err = []\<rparr>"

theorem call_reaches_daemon_witness:
  "exchange default_args (jcs (request_value ''r'' ''nope'' (Obj []))) (no_io\<lparr>io_links := [LinkUp (concat (fst
     (serve_stream plain_crypto sample_platform (Some (ca_principal sample_caller)) (\<lambda>_. (5, [], [])) 0
       (frame (jcs (request_value ''r'' ''nope'' (Obj [])))) faulted_server)))]\<rparr>) =
   Done (canon unknown_reply_value) (no_io\<lparr>io_links := [], io_sent := [frame (jcs (request_value ''r'' ''nope'' (Obj [])))]\<rparr>)"
proof -
  let ?req = "request_value ''r'' ''nope'' (Obj [])"
  have len: "length (dec 1) = 1" by (simp add: dec.simps)
  have req: "val_ok request_limits 0 ?req" "val_ok reply_limits 0 unknown_reply_value"
    by (simp_all add: request_value_def unknown_reply_value_def reply_envelope_def fault_value_def request_limits_def reply_limits_def
        utf8_ok_ascii num_def dec_digits digits_ascii)
  have "jcs_bound ?req \<le> req_max" "jcs_bound unknown_reply_value \<le> reply_max"
    using len by (simp_all add: request_value_def unknown_reply_value_def reply_envelope_def fault_value_def req_max_def reply_max_def num_def)
  then have "length (jcs ?req) \<le> req_max" "length (jcs unknown_reply_value) \<le> reply_max"
    using jcs_bounded [of ?req] jcs_bounded [of unknown_reply_value] by simp_all
  moreover have "serve_request plain_crypto sample_platform (ca_principal sample_caller) (5, [], []) ''r'' ''nope'' (canon (Obj []))
      (se_daemon faulted_server) = (Some unknown_reply_value, se_daemon faulted_server)" by (rule faulted_serves)
  ultimately have "let body = jcs ?req; served = serve_stream plain_crypto sample_platform (Some (ca_principal sample_caller))
        (\<lambda>_. (5, [], [])) 0 (frame body) faulted_server in
      snd served = faulted_server\<lparr>se_daemon := se_daemon faulted_server\<rparr> \<and>
      exchange default_args body (no_io\<lparr>io_links := LinkUp (concat (fst served)) # []\<rparr>) =
        Done (canon unknown_reply_value) (no_io\<lparr>io_links := [], io_sent := io_sent no_io @ [frame body]\<rparr>)"
    using req by (intro call_reaches_daemon)
  then show ?thesis by (simp add: Let_def no_io_def del: jcs.simps canon.simps)
qed

section \<open>Exit codes\<close>

lemma get_simps [simp]: "value_get (Obj m) k = map_of m k"
  by (simp add: value_get_def mget_def)

lemma fault_texts: "text_at (fault_value e) ''code'' = Some (code_as_str (fault_code e))"
  by (simp add: text_at_def fault_value_def)

text \<open>
  Remark. The exit code of a command tells what the daemon answered: 0 on a result and on nothing
  else, and on a fault the exit code of its class; printing the reply uses no connection and writes no file.
\<close>

theorem reply_exit_code:
  "\<exists>io'. ctl_emit a (canon (reply_envelope rid r)) io =
      Done (case r of Inl e \<Rightarrow> code_exit_code (fault_code e) | Inr v \<Rightarrow> 0) io' \<and>
    io_fs io' = io_fs io \<and> io_links io' = io_links io \<and> io_sent io' = io_sent io \<and>
    ((case r of Inl e \<Rightarrow> code_exit_code (fault_code e) | Inr v \<Rightarrow> 0) = 0 \<longleftrightarrow> (\<exists>v. r = Inr v))"
proof (cases r)
  case (Inl e)
  have "value_get (canon (reply_envelope rid r)) ''error'' = Some (canon (fault_value e))"
    unfolding value_get_canon Inl by (simp add: reply_envelope_def del: canon.simps)
  moreover have "text_at (canon (fault_value e)) ''code'' = Some (code_as_str (fault_code e))"
    by (simp add: text_at_canon fault_texts del: canon.simps)
  moreover have "code_exit_code (fault_code e) \<noteq> 0" using code_exit_code_range [of "fault_code e"] by auto
  ultimately show ?thesis unfolding Inl
    by (auto simp: ctl_emit_def Let_def or_else_def exit_for_code_as_str cbind_def println_def eprintln_def cret_def
        simp del: canon.simps)
next
  case (Inr v)
  have "value_get (canon (reply_envelope rid r)) ''error'' = None" "value_get (canon (reply_envelope rid r)) ''result'' = Some (canon v)"
    unfolding value_get_canon Inr by (simp_all add: reply_envelope_def del: canon.simps)
  then show ?thesis unfolding Inr
    by (auto simp: ctl_emit_def cbind_def println_def cret_def simp del: canon.simps)
qed

section \<open>Commands that stay offline\<close>

fun run_io :: "'a Run \<Rightarrow> Io" where
  "run_io (Done x io) = io" | "run_io (Exits c io) = io" | "run_io (Waits io) = io" | "run_io (Hangs io) = io"
| "run_io (Becomes p io) = io"

definition quiet :: "'a Ctl \<Rightarrow> bool" where
  "quiet m \<longleftrightarrow> (\<forall>io. io_sent (run_io (m io)) = io_sent io \<and> io_links (run_io (m io)) = io_links io \<and> (\<forall>io'. m io \<noteq> Waits io'))"

lemma quiet_cbind: "quiet m \<Longrightarrow> (\<And>x. quiet (f x)) \<Longrightarrow> quiet (cbind m f)"
  unfolding quiet_def cbind_def
proof (intro allI)
  fix io
  assume m: "\<forall>io. io_sent (run_io (m io)) = io_sent io \<and> io_links (run_io (m io)) = io_links io \<and> (\<forall>io'. m io \<noteq> Waits io')"
    and f: "\<And>x. \<forall>io. io_sent (run_io (f x io)) = io_sent io \<and> io_links (run_io (f x io)) = io_links io \<and> (\<forall>io'. f x io \<noteq> Waits io')"
  show "io_sent (run_io (case m io of Done x io' \<Rightarrow> f x io' | Exits c io' \<Rightarrow> Exits c io' | Waits io' \<Rightarrow> Waits io'
      | Hangs io' \<Rightarrow> Hangs io' | Becomes p io' \<Rightarrow> Becomes p io')) = io_sent io \<and>
    io_links (run_io (case m io of Done x io' \<Rightarrow> f x io' | Exits c io' \<Rightarrow> Exits c io' | Waits io' \<Rightarrow> Waits io'
      | Hangs io' \<Rightarrow> Hangs io' | Becomes p io' \<Rightarrow> Becomes p io')) = io_links io \<and>
    (\<forall>io'. (case m io of Done x io' \<Rightarrow> f x io' | Exits c io' \<Rightarrow> Exits c io' | Waits io' \<Rightarrow> Waits io'
      | Hangs io' \<Rightarrow> Hangs io' | Becomes p io' \<Rightarrow> Becomes p io') \<noteq> Waits io')"
    using m [rule_format, of io] f by (cases "m io") auto
qed

lemma quiet_basic: "quiet (cret x)" "quiet (die msg c)" "quiet panics" "quiet hangs" "quiet (println l)" "quiet (eprintln l)"
  "quiet (write_out out content)"
  by (auto simp: quiet_def cret_def die_def panics_def hangs_def println_def eprintln_def write_out_def Let_def)

lemma quiet_needs: "quiet (needs x msg)"
  by (simp add: needs_def quiet_basic split: option.split)

lemma quiet_files: "quiet (json_file sh path)" "quiet (ctl_config cr sh path)" "quiet (key_file_bytes sh args)" "quiet (signing_key_of std raw)"
proof -
  show "quiet (json_file sh path)" "quiet (ctl_config cr sh path)"
    by (auto simp: quiet_def json_file_def ctl_config_def die_def cret_def panics_def split: sum.splits option.splits)
  have "quiet (\<lambda>io. case read_file sh io f of Inl e \<Rightarrow> die (''key: '' @ e) 2 io | Inr b \<Rightarrow> cret b io)" for f
    by (auto simp: quiet_def die_def cret_def split: sum.split)
  then show "quiet (key_file_bytes sh args)" unfolding key_file_bytes_def
    by (auto intro!: quiet_cbind quiet_needs simp: quiet_basic split: option.split sum.split)
  show "quiet (signing_key_of std raw)" unfolding signing_key_of_def Let_def
    by (auto intro!: quiet_cbind quiet_needs simp: quiet_basic split: option.split)
qed

lemma quiet_commands: "quiet (cmd_policy_sign cr std sh args)" "quiet (cmd_policy_validate cr sh a args)"
  "quiet (cmd_verify cr sh a args)" "quiet (cmd_store_migrate cr sh args)" "quiet (cmd_doctor cr sh a args)"
  "quiet (cmd_store_backup cr std sh args)" "quiet (cmd_serve sh args)"
proof -
  note intros = quiet_cbind quiet_needs quiet_files
  note defs = cmd_policy_sign_def cmd_policy_validate_def cmd_verify_def cmd_store_migrate_def required_def file_arg_def Let_def
  show "quiet (cmd_policy_sign cr std sh args)" "quiet (cmd_policy_validate cr sh a args)"
    "quiet (cmd_verify cr sh a args)" "quiet (cmd_store_migrate cr sh args)"
    unfolding defs by (auto intro!: intros simp: quiet_basic split: option.split sum.split)
  have "quiet (\<lambda>io. case doctor_run cr (read_file sh io) (sh_modes sh) cf tf of
      None \<Rightarrow> panics io | Some v \<Rightarrow> (let lines = ls v in Done (doctor_exit v) (io\<lparr>io_out := io_out io @ lines\<rparr>)))" for cf tf ls
    by (auto simp: quiet_def panics_def Let_def split: option.split)
  then show "quiet (cmd_doctor cr sh a args)" unfolding cmd_doctor_def required_def by (auto intro!: intros)
  have "quiet (\<lambda>io. case load_signer std (read_file sh io (cf_signer_key_file cfg)) of None \<Rightarrow> hangs io
      | Some (Inl e) \<Rightarrow> die (''signer: '' @ fault_message e) 2 io
      | Some (Inr sk) \<Rightarrow> (case bk io sk of (got, m) \<Rightarrow> (let io1 = io\<lparr>io_fs := put_dir out m (io_fs io)\<rparr> in case got of
           Inl e \<Rightarrow> die (''backup: '' @ fault_message e) 7 io1 | Inr v \<Rightarrow> cbind (println (jcs v)) (\<lambda>_. cret 0) io1)))"
    for cfg out and bk :: "Io \<Rightarrow> string \<Rightarrow> Value R \<times> (string \<Rightarrow> string option)"
    by (auto simp: quiet_def hangs_def die_def Let_def cbind_def println_def cret_def split: option.split sum.split prod.split)
  then show "quiet (cmd_store_backup cr std sh args)" unfolding cmd_store_backup_def required_def by (auto intro!: intros)
  have "quiet (\<lambda>io. case sh_exec sh of Some e \<Rightarrow> die (''serve: '' @ e) 7 io | None \<Rightarrow> Becomes (p cf) io)" for p cf
    by (auto simp: quiet_def die_def split: option.split)
  then show "quiet (cmd_serve sh args)" unfolding cmd_serve_def required_def by (auto intro!: intros)
qed

text \<open>
  Remark. The offline commands never talk to the daemon: whatever their arguments and files,
  they send nothing, use no connection and wait for none.
\<close>

theorem offline_stays_offline: "quiet (offline_command cr std sh a args cmd sub)"
  by (simp add: offline_command_def quiet_commands)

section \<open>Loops without progress\<close>

text \<open>
  Remark. \<open>check --wait\<close> polls for ever on a daemon that answers with a fault: a reply without a
  result is the state \<open>?\<close>, which is not terminal. After every number of such replies it waits for the next.
\<close>

theorem wait_never_ends:
  assumes "ar_request a = Some rid" and "length (jcs (request_value rid ''checks.get'' (Obj [(''id'', Str cid)]))) \<le> req_max"
    and "val_ok reply_limits 0 v" and "length (jcs v) \<le> reply_max" and "value_get v ''result'' = None"
  shows "\<exists>io'. wait_check sh a cid (io\<lparr>io_links := replicate n (LinkUp (write_reply v))\<rparr>) = Waits io'"
proof (induction n arbitrary: io)
  case 0
  have "ctl_call sh a ''checks.get'' (Obj [(''id'', Str cid)]) (io\<lparr>io_links := []\<rparr>) = Waits (io\<lparr>io_links := []\<rparr>)"
    using assms(1,2) by (simp add: ctl_call_def cbind_def cret_def exchange_def numeral_2_eq_2 del: jcs.simps)
  then show ?case by (subst wait_check.simps) (simp del: jcs.simps)
next
  case (Suc n)
  let ?io = "io\<lparr>io_links := LinkUp (write_reply v) # replicate n (LinkUp (write_reply v))\<rparr>"
  have "\<exists>io'. ctl_call sh a ''checks.get'' (Obj [(''id'', Str cid)]) ?io = Done (canon v) (io'\<lparr>io_links := replicate n (LinkUp (write_reply v))\<rparr>)"
    using reply_read [OF assms(3,4,2), of ?io "replicate n (LinkUp (write_reply v))" a] assms(1,5)
    by (intro exI [of _ "io\<lparr>io_sent := io_sent io @ [frame (jcs (request_value rid ''checks.get'' (Obj [(''id'', Str cid)])))]\<rparr>"])
      (simp add: ctl_call_def cbind_def cret_def numeral_2_eq_2 del: jcs.simps)
  then obtain io' where got: "ctl_call sh a ''checks.get'' (Obj [(''id'', Str cid)]) ?io =
      Done (canon v) (io'\<lparr>io_links := replicate n (LinkUp (write_reply v))\<rparr>)" by blast
  have "state_of (reply_result (canon v)) = ''?''"
  proof -
    have "reply_result (canon v) = Null" using assms(5) by (simp add: reply_result_def value_get_canon or_else_def)
    moreover have "text_at Null ''state'' = None" by (simp add: text_at_def value_get_def)
    ultimately show ?thesis by (simp add: or_else_def state_of_def)
  qed
  then have "\<not> terminal_state (state_of (reply_result (canon v)))" by (simp add: terminal_state_def)
  moreover have "\<exists>w. wait_check sh a cid (io'\<lparr>io_links := replicate n (LinkUp (write_reply v)), io_out := x\<rparr>) = Waits w" for x
  proof -
    have "io'\<lparr>io_links := replicate n (LinkUp (write_reply v)), io_out := x\<rparr> =
        (io'\<lparr>io_out := x\<rparr>)\<lparr>io_links := replicate n (LinkUp (write_reply v))\<rparr>" by simp
    then show ?thesis using Suc.IH [of "io'\<lparr>io_out := x\<rparr>"] by (simp only:)
  qed
  ultimately show ?case using got Suc.IH [of io']
    by (subst wait_check.simps) (auto simp: Let_def simp del: jcs.simps)
qed

text \<open>
  Remark. \<open>events --follow\<close> asks again from the same cursor once it has seen the last page: the
  items are signed envelopes, whose member \<open>seq\<close> is inside the body.
\<close>

theorem follow_repeats:
  "next_cursor after (canon (Obj [(''items'', Arr (items @ [sign_envelope cr tag body key_id key_epoch sk])),
     (''through'', through), (''next_after'', Null)])) = after"
proof -
  let ?e = "sign_envelope cr tag body key_id key_epoch sk"
  let ?r = "Obj [(''items'', Arr (items @ [?e])), (''through'', through), (''next_after'', Null)]"
  have "text_at (canon ?r) ''next_after'' = None" unfolding text_at_canon by (simp add: text_at_def as_str_def)
  moreover have "Option.bind (value_get (canon ?r) ''items'') as_arr = Some (map canon items @ [canon ?e])"
    unfolding value_get_canon by (simp add: as_arr_def del: canon.simps(2))
  moreover have "text_at (canon ?e) ''seq'' = None" unfolding text_at_canon by (simp add: text_at_def sign_envelope_def Let_def)
  ultimately show ?thesis by (simp add: next_cursor_def or_else_def del: canon.simps)
qed

end
