(* ===== verification/Lab.thy ===== *)
theory Lab
  imports Gates Aggregation
begin

text \<open>
  The values of the conformance suite (\<open>conform.rs\<close>): the test key, the policy \<open>P\<close>, the intent \<open>I\<close>, the observation
  \<open>O\<close>, the configuration and trust of the lab, the named fixtures, the expansion of \<open>$\<close> in vectors and the
  comparison of results. A failing \<open>unwrap\<close> is the panic \<open>None\<close>; the public key of a seed is a parameter.
\<close>

section \<open>Panics\<close>

text \<open>\<open>unwrap\<close>: what is not there is the panic.\<close>

definition needed :: "'a option \<Rightarrow> ('a \<Rightarrow> 'b option) \<Rightarrow> 'b option" where
  "needed x f = (case x of None \<Rightarrow> None | Some y \<Rightarrow> f y)"

lemma needed_simps [simp]: "needed None f = None" "needed (Some x) f = f x"
  by (simp_all add: needed_def)

definition of_ok :: "'a R \<Rightarrow> 'a option" where
  "of_ok r = (case r of Inl _ \<Rightarrow> None | Inr x \<Rightarrow> Some x)"

lemma of_ok_simps [simp]: "of_ok (Inl e) = None" "of_ok (Inr x) = Some x"
  by (simp_all add: of_ok_def)

section \<open>The lab\<close>

definition seed_hex :: string where
  "seed_hex = ''9d61b19deffd5a60ba844af492ec2cc44449c5697b326919703bac031cae7f60''"

definition boot1 :: string where "boot1 = ''00000000-0000-4000-8000-000000000001''"

definition test_key :: string where
  "test_key = (case hex_decode seed_hex of Some seed \<Rightarrow> seed | None \<Rightarrow> [])"

definition test_pub :: "Crypto \<Rightarrow> (string \<Rightarrow> string) \<Rightarrow> string" where
  "test_pub cr pk = b64_encode cr (pk test_key)"

definition s_env :: "Crypto \<Rightarrow> string \<Rightarrow> Value \<Rightarrow> Value" where
  "s_env cr tag body = sign_envelope cr tag body ''test_key'' ''1'' test_key"

definition monitors :: "Crypto \<Rightarrow> Monitor list" where
  "monitors cr = map (\<lambda>(i, dt, mode, required, dl). \<lparr>mo_id = i, mo_detector = dt, mo_mode = mode, mo_required = required,
       mo_artifact = d cr ''artifact'' (Str (detector_as_str dt)), mo_deadline_ms = dl\<rparr>)
     [(''m1'', Scope, ''blocking'', True, 75), (''m2'', Spend, ''blocking'', True, 75), (''m3'', Replicas, ''blocking'', True, 75),
      (''m4'', Rate, ''trailing'', False, 500), (''m5'', Distribution, ''trailing'', False, 500)]"

definition policy_p :: "Crypto \<Rightarrow> Policy" where
  "policy_p cr = \<lparr>pl_id = ''wtp_1'', pl_generation = 1, pl_predecessor = None, pl_tenant = ''tenant1'',
     pl_allowed_scopes = [''read'', ''write''], pl_cap_minor = 10000, pl_review_at_minor = 500, pl_max_replicas = 1,
     pl_rate_per_window = 1000,
     pl_baseline = \<lparr>bl_id = ''baseline1'', bl_counts = (70, 20, 5, 5),
       bl_evidence = d cr ''baseline'' (Arr [num 70, num 20, num 5, num 5]), bl_approved_by = ''reviewer1'',
       bl_approved_at_utc = ''2026-09-12T00:00:00.000Z''\<rparr>,
     pl_drift_high_bp = 2000, pl_drift_low_bp = 1000, pl_min_window_samples = 100, pl_high_windows = 2, pl_low_windows = 3,
     pl_freshness_ms = 2000, pl_evaluation_ms = 100, pl_clearance_ms = 250, pl_review_ttl_ms = 300000,
     pl_review_accept_ms = 60000, pl_claim_lease_ms = 30000, pl_queue_capacity = 1000, pl_per_run_open_reviews = 10,
     pl_monitors = monitors cr\<rparr>"

definition intent_i :: "Crypto \<Rightarrow> Intent" where
  "intent_i cr = \<lparr>it_action = ''action1'',
     it_request_hash = d cr ''raw-request'' (Obj [(''op'', Str ''read''), (''record'', Str ''a'')]),
     it_tool = ''record.read'', it_target_revision = 1,
     it_authority_hash = d cr ''authority'' (Obj [(''principal'', Str ''runtime1''), (''record'', Str ''a'')]),
     it_scopes = [''read''], it_cost_minor = 0\<rparr>"

definition observation_body_o :: ObservationBody where
  "observation_body_o = \<lparr>ob_tenant = ''tenant1'', ob_source = ''source1'', ob_epoch = 1, ob_boot = boot1, ob_seq = 1,
     ob_prev = zero_hash, ob_run = ''wtr_1'', ob_cut_ms = 10000,
     ob_snapshot = \<lparr>sn_committed_minor = 0, sn_reserved_minor = 0, sn_scopes = [''read'', ''write''], sn_replicas = Some 1,
       sn_target_revision = 1, sn_window = None\<rparr>,
     ob_signal = None, ob_lineage = []\<rparr>"

definition observation_o :: "Crypto \<Rightarrow> Value" where
  "observation_o cr = s_env cr ''observation'' (observation_body_value observation_body_o)"

definition lab_source :: Source where
  "lab_source = \<lparr>src_id = ''source1'', src_runtime = ''runtime1'', src_key_id = ''test_key'', src_key_epoch = 1, src_epoch = 1,
     src_profile = ''fixture/1''\<rparr>"

definition make_config :: "Crypto \<Rightarrow> string \<Rightarrow> Config" where
  "make_config cr dir = \<lparr>cf_tenant = ''tenant1'', cf_deployment = ''lab'', cf_socket = dir @ ''/control.sock'', cf_data_dir = dir,
     cf_signer_key_id = ''test_key'', cf_signer_key_epoch = 1, cf_signer_key_file = dir @ ''/test-key.pem'',
     cf_trust_file = dir @ ''/trust.json'',
     cf_principals = [\<lparr>pr_id = ''runtime1'', pr_uid = 2101, pr_roles = [''runtime'']\<rparr>,
       \<lparr>pr_id = ''reviewer1'', pr_uid = 2102, pr_roles = [''reviewer'']\<rparr>,
       \<lparr>pr_id = ''operator1'', pr_uid = 2103, pr_roles = [''operator'']\<rparr>,
       \<lparr>pr_id = ''auditor1'', pr_uid = 2104, pr_roles = [''auditor'']\<rparr>],
     cf_sources = [lab_source],
     cf_installed_artifacts = map (\<lambda>m. (mo_detector m, mo_artifact m,
       dir @ ''/'' @ detector_as_str (mo_detector m) @ ''.artifact'')) (monitors cr),
     cf_certified_profiles = [''fixture/1''], cf_release = None, cf_storage_max_bytes = 10737418240,
     cf_storage_warn_bp = 8000, cf_storage_stop_bp = 9500, cf_storage_raw_days = 7, cf_storage_audit_days = 365,
     cf_object_key_id = ''object_key1'', cf_object_key_file = dir @ ''/object-key.bin''\<rparr>"

definition make_trust :: "Crypto \<Rightarrow> (string \<Rightarrow> string) \<Rightarrow> Trust" where
  "make_trust cr pk = \<lparr>tr_tenant = ''tenant1'',
     tr_keys = [\<lparr>kp_id = ''test_key'', kp_public_key = test_pub cr pk,
       kp_tags = [''audit'', ''backup'', ''bundle'', ''clearance'', ''effect'', ''observation'', ''policy''],
       kp_subjects = [''runtime1'', ''source1'', ''tenant1''], kp_from_epoch = 1, kp_through_epoch = None, kp_live = True,
       kp_compromised = False\<rparr>],
     tr_sources = [lab_source], tr_minimum_head = empty_head\<rparr>"

section \<open>Named fixtures\<close>

definition digest_of :: "Value \<Rightarrow> string option" where
  "digest_of env = Option.bind (value_get env ''digest'') as_str"

definition fx_ref :: "string \<Rightarrow> Value" where
  "fx_ref od = Obj [(''source'', Str ''source1''), (''epoch'', Str ''1''), (''seq'', Str ''1''), (''hash'', Str od)]"

definition fx_run :: "string \<Rightarrow> Value" where
  "fx_run ph = Obj [(''id'', Str ''wtr_1''), (''revision'', Str ''1''), (''tenant'', Str ''tenant1''), (''source'', Str ''source1''),
     (''source_epoch'', Str ''1''), (''runtime'', Str ''runtime1''), (''guard_epoch'', Str ''1''), (''boot'', Str boot1),
     (''mode'', Str ''GUARDED''), (''profile'', Str ''fixture/1''), (''state'', Str ''OPEN''), (''policy'', Str ph),
     (''cursor'', head_value empty_head), (''last_cut_ms'', Null), (''last_received_ms'', Null),
     (''drift'', Obj [(''state'', Str ''WARMUP''), (''high_streak'', num 0), (''low_streak'', num 0),
        (''last_window_ms'', Null), (''score_bp'', Null), (''data'', Str ''insufficient'')]),
     (''pause_reason'', Null)]"

definition fx_basis :: "Crypto \<Rightarrow> string \<Rightarrow> Value" where
  "fx_basis cr ph = Obj [(''run'', Str ''wtr_1''), (''intent'', Str (d cr ''intent'' (intent_value (intent_i cr)))),
     (''policy'', Str ph), (''guard_epoch'', Str ''1''), (''target_revision'', Str ''1''), (''max_total_minor'', Str ''0''),
     (''findings'', Str (d cr ''findings'' (Arr [])))]"

definition fx_clearance_body :: "Crypto \<Rightarrow> string \<Rightarrow> string \<Rightarrow> Value" where
  "fx_clearance_body cr ph od = Obj [(''v'', num 1), (''tenant'', Str ''tenant1''), (''run'', Str ''wtr_1''),
     (''runtime'', Str ''runtime1''), (''guard_epoch'', Str ''1''), (''boot'', Str boot1), (''check'', Str ''wtc_1''),
     (''intent'', Str (d cr ''intent'' (intent_value (intent_i cr)))), (''policy'', Str ph), (''observation'', fx_ref od),
     (''basis'', Str (d cr ''basis'' (fx_basis cr ph))), (''issued_ms'', Str ''10010''), (''expires_ms'', Str ''10260''),
     (''mode'', Str ''GUARDED''), (''semantics'', Str ''NO_WATCH_VETO_NOT_AUTHORIZATION'')]"

definition fx_rows :: Value where
  "fx_rows = Arr [
     Obj [(''unit'', Str ''u1''), (''cluster'', Str ''c1''), (''truth'', Str ''dangerous''), (''watcher'', Str ''flag''),
       (''human'', Str ''clear''), (''prevention'', Str ''blocked''), (''late'', Bool False), (''review'', Bool False)],
     Obj [(''unit'', Str ''u2''), (''cluster'', Str ''c2''), (''truth'', Str ''benign''), (''watcher'', Str ''clear''),
       (''human'', Str ''clear''), (''prevention'', Str ''dispatched''), (''late'', Bool False), (''review'', Bool False)]]"

definition fx_eval_input :: "Crypto \<Rightarrow> string \<Rightarrow> Value" where
  "fx_eval_input cr ph = Obj [(''id'', Str ''wte_1''), (''dataset'', Str (d cr ''dataset'' fx_rows)), (''policy'', Str ph),
     (''split'', Str ''heldout''), (''sampling'', Str ''census''), (''independent_units'', Bool True),
     (''population_count'', Str ''2''), (''rows'', fx_rows)]"

definition fx_fraction :: "string \<Rightarrow> string \<Rightarrow> Value \<Rightarrow> Value" where
  "fx_fraction n k v = Obj [(''num'', Str n), (''den'', Str k), (''value'', v)]"

definition fx_confusion :: "string \<Rightarrow> string \<Rightarrow> string \<Rightarrow> string \<Rightarrow> string \<Rightarrow> string \<Rightarrow> string \<Rightarrow> Value" where
  "fx_confusion tp fp tn fn ad ab ul = Obj [(''tp'', Str tp), (''fp'', Str fp), (''tn'', Str tn), (''fn'', Str fn),
     (''abstain_dangerous'', Str ad), (''abstain_benign'', Str ab), (''unlabeled'', Str ul)]"

definition fx_watcher :: Value where
  "fx_watcher = (let one = Str ''1.000000''; zero = Str ''0.000000'' in Obj [
     (''confusion'', fx_confusion ''1'' ''0'' ''1'' ''0'' ''0'' ''0'' ''0''),
     (''precision'', fx_fraction ''1'' ''1'' one), (''recall_lower'', fx_fraction ''1'' ''1'' one),
     (''recall_decided'', fx_fraction ''1'' ''1'' one), (''fpr_lower'', fx_fraction ''0'' ''1'' zero),
     (''fpr_upper'', fx_fraction ''0'' ''1'' zero), (''coverage'', fx_fraction ''2'' ''2'' one),
     (''review_rate'', fx_fraction ''0'' ''2'' zero), (''prevention'', fx_fraction ''1'' ''1'' one),
     (''recall_ci95'', Obj [(''low'', Str ''0.206543''), (''high'', Str ''1.000000'')]), (''ci_status'', Str ''WILSON'')])"

definition fx_human :: Value where
  "fx_human = (let one = Str ''1.000000''; zero = Str ''0.000000'' in Obj [
     (''confusion'', fx_confusion ''0'' ''0'' ''1'' ''1'' ''0'' ''0'' ''0''),
     (''precision'', fx_fraction ''0'' ''0'' Null), (''recall_lower'', fx_fraction ''0'' ''1'' zero),
     (''recall_decided'', fx_fraction ''0'' ''1'' zero), (''fpr_lower'', fx_fraction ''0'' ''1'' zero),
     (''fpr_upper'', fx_fraction ''0'' ''1'' zero), (''coverage'', fx_fraction ''2'' ''2'' one),
     (''review_rate'', fx_fraction ''0'' ''2'' zero), (''prevention'', fx_fraction ''1'' ''1'' one),
     (''recall_ci95'', Obj [(''low'', Str ''0.000000''), (''high'', Str ''0.793457'')]), (''ci_status'', Str ''WILSON'')])"

definition fx_evaluation :: "Crypto \<Rightarrow> string \<Rightarrow> Value" where
  "fx_evaluation cr ph = Obj [(''id'', Str ''wte_1''), (''input'', Str (d cr ''eval-input'' (fx_eval_input cr ph))),
     (''watcher'', fx_watcher), (''human'', fx_human),
     (''paired'', Obj [(''watcher_only'', Str ''1''), (''human_only'', Str ''0''), (''both'', Str ''0''), (''neither'', Str ''0'')]),
     (''late'', Str ''0''), (''claim'', Str ''DESCRIPTIVE_NOT_CERTIFICATION'')]"

definition fx_bundle :: "Crypto \<Rightarrow> Value" where
  "fx_bundle cr = Obj [
     (''manifest'', s_env cr ''bundle'' (Obj [(''v'', num 1), (''format'', Str ''watch-proof/1''), (''tenant'', Str ''tenant1''),
        (''from'', head_value empty_head), (''through'', head_value empty_head), (''disclosure'', Str ''FULL''),
        (''inventory'', Arr []), (''event_hashes'', Arr []), (''limitations'', Arr [Str ''EMPTY_HISTORY'']),
        (''semantics'', Str ''OBSERVATIONS_NOT_ACTION_AUTHORIZATION'')])),
     (''events'', Arr []), (''policies'', Arr []), (''observations'', Arr []), (''effects'', Arr []), (''evaluations'', Arr [])]"

definition fixture :: "Crypto \<Rightarrow> (string \<Rightarrow> string) \<Rightarrow> string \<Rightarrow> Value option" where
  "fixture cr pk name =
    (let pv = policy_value (policy_p cr); sp = s_env cr ''policy'' pv; ov = observation_o cr in
     needed (digest_of sp) (\<lambda>ph. needed (value_get ov ''body'') (\<lambda>ob. needed (digest_of ov) (\<lambda>od.
       let cl_body = fx_clearance_body cr ph od; cl = s_env cr ''clearance'' cl_body in
       needed (digest_of cl) (\<lambda>cld.
       if name = ''P'' then Some pv
       else if name = ''SP'' then Some sp
       else if name = ''PH'' then Some (Str ph)
       else if name = ''O'' then Some ov
       else if name = ''O.body'' then Some ob
       else if name = ''O.digest'' then Some (Str od)
       else if name = ''OR'' then Some (fx_ref od)
       else if name = ''I'' then Some (intent_value (intent_i cr))
       else if name = ''R'' then Some (fx_run ph)
       else if name = ''CL'' then Some cl
       else if name = ''CL.body'' then Some cl_body
       else if name = ''CL.digest'' then Some (Str cld)
       else if name = ''BI'' then Some (fx_basis cr ph)
       else if name = ''EI'' then Some (fx_eval_input cr ph)
       else if name = ''E1'' then Some (fx_evaluation cr ph)
       else if name = ''EB'' then Some (fx_bundle cr)
       else if name \<in> set [''EMPTY'', ''empty_head()''] then Some (head_value empty_head)
       else if name = ''B'' then Some (Str boot1)
       else if name \<in> set [''Z'', ''ZERO''] then Some (Str zero_hash)
       else if name = ''pub'' then Some (Str (test_pub cr pk))
       else None)))))"

section \<open>Vectors\<close>

text \<open>One part of \<open>$merge\<close> over the members so far.\<close>

definition merge_members :: "(string \<times> Value) list \<Rightarrow> (string \<times> Value) list \<Rightarrow> (string \<times> Value) list" where
  "merge_members out m = foldl (\<lambda>out (k, v). put_assoc k v out) out m"

lemma mget_size: "mget m k = Some v \<Longrightarrow> size v < size (Obj m)"
  by (induction m) (auto simp: mget_def split: if_split_asm)

lemma member_size: "p \<in> set m \<Longrightarrow> size (snd p) < size (Obj m)"
  by (induction m) auto

lemma item_size: "x \<in> set vs \<Longrightarrow> size x < Suc (size_list size vs)"
  by (induction vs) auto

function resolve :: "Crypto \<Rightarrow> (string \<Rightarrow> Value option) \<Rightarrow> Value \<Rightarrow> Value option" where
  "resolve cr fx (Obj m) = (case m of
       [(k, x)] \<Rightarrow>
         (if k = ''$'' then needed (as_str x) fx
          else if k = ''$sign'' then (case x of
              Obj inner \<Rightarrow> (case Option.bind (mget inner ''tag'') as_str of
                  None \<Rightarrow> None
                | Some tag \<Rightarrow> (case mget inner ''body'' of
                    None \<Rightarrow> None
                  | Some b \<Rightarrow> map_option (s_env cr tag) (resolve cr fx b)))
            | _ \<Rightarrow> None)
          else if k = ''$merge'' then (case x of
              Arr parts \<Rightarrow> needed (those (map (\<lambda>p. Option.bind (resolve cr fx p) as_obj) parts))
                (\<lambda>ms. Some (Obj (foldl merge_members [] ms)))
            | _ \<Rightarrow> None)
          else map_option (\<lambda>x'. Obj [(k, x')]) (resolve cr fx x))
     | _ \<Rightarrow> map_option Obj (those (map (\<lambda>p. map_option (Pair (fst p)) (resolve cr fx (snd p))) m)))"
| "resolve cr fx (Arr vs) = map_option Arr (those (map (resolve cr fx) vs))"
| "resolve cr fx Null = Some Null"
| "resolve cr fx (Bool b) = Some (Bool b)"
| "resolve cr fx (Num n) = Some (Num n)"
| "resolve cr fx (Str t) = Some (Str t)"
  by pat_completeness auto

termination
  by (relation "measure (\<lambda>(cr, fx, v). size v)") (auto dest: mget_size member_size item_size split: option.splits)

text \<open>The members and items that are expected, in what there is.\<close>

function (sequential) matches :: "Value \<Rightarrow> Value \<Rightarrow> bool" where
  "matches (Obj e) a = (case a of
      Obj am \<Rightarrow> list_all (\<lambda>(k, ev). case mget am k of None \<Rightarrow> False | Some av \<Rightarrow> matches ev av) e
    | _ \<Rightarrow> False)"
| "matches (Arr e) a = (case a of
      Arr av \<Rightarrow> length e = length av \<and> list_all (\<lambda>(x, y). matches x y) (zip e av)
    | _ \<Rightarrow> False)"
| "matches e a \<longleftrightarrow> e = a"
  by pat_completeness auto
termination
  by (relation "measure (\<lambda>(e, a). size e)") (fastforce dest: set_zip_leftD item_size member_size)+

end
