(* ===== verification/Conform.thy ===== *)
theory Conform
  imports Lab Verify Guard Detectors DriftReducer AuditMath Daemon Keys
begin

text \<open>
  The interpreter of the conformance vectors (\<open>conform.rs\<close>: \<open>run_vector\<close> with the operations on pure code and on the
  guard). The operations that run a whole daemon in a temporary directory with worker threads (\<open>stream\<close>, \<open>review_*\<close>,
  \<open>crash\<close>, \<open>restart\<close>, \<open>audit_fault\<close>, \<open>idempotency\<close>, \<open>partition\<close>) are the argument \<open>lab\<close> of the dispatch.
\<close>

section \<open>Members of a vector\<close>

definition u_field :: "Value \<Rightarrow> string \<Rightarrow> nat option" where
  "u_field v k = needed (value_get v k) (\<lambda>x. of_ok (u_of x))"

definition str_field :: "Value \<Rightarrow> string \<Rightarrow> string option" where
  "str_field v k = needed (value_get v k) as_str"

definition arr_field :: "Value \<Rightarrow> string \<Rightarrow> Value list option" where
  "arr_field v k = needed (value_get v k) as_arr"

definition true_field :: "Value \<Rightarrow> string \<Rightarrow> bool option" where
  "true_field v k = needed (value_get v k) (\<lambda>x. Some (x = Bool True))"

definition u_list :: "Value \<Rightarrow> string \<Rightarrow> nat list option" where
  "u_list v k = needed (arr_field v k) (\<lambda>a. those (map (\<lambda>x. of_ok (u_of x)) a))"

definition str_list :: "Value \<Rightarrow> string \<Rightarrow> string list option" where
  "str_list v k = needed (arr_field v k) (\<lambda>a. those (map as_str a))"

text \<open>\<open>copy_from_slice\<close> of the first four counts.\<close>

definition four :: "nat list \<Rightarrow> Bins option" where
  "four xs = (case xs of a # b # c # e # _ \<Rightarrow> Some (a, b, c, e) | _ \<Rightarrow> None)"

definition code_reply :: "string \<Rightarrow> Value" where
  "code_reply c = Obj [(''code'', Str c)]"

definition first_monitor :: "Crypto \<Rightarrow> Detector \<Rightarrow> Monitor option" where
  "first_monitor cr dt = find (\<lambda>m. mo_detector m = dt) (monitors cr)"

definition blocking_monitors :: "Crypto \<Rightarrow> Monitor list" where
  "blocking_monitors cr = filter (\<lambda>m. mo_mode m = ''blocking'' \<and> mo_required m) (monitors cr)"

section \<open>Bytes, counters and signatures\<close>

definition op_canonical :: "Value \<Rightarrow> Value option" where
  "op_canonical input = needed (value_get input ''value'') (\<lambda>v. Some (Str (jcs v)))"

definition op_parse :: "Value \<Rightarrow> Value option" where
  "op_parse input = needed (str_field input ''bytes'') (\<lambda>b. Some (code_reply (case parse b request_limits of
       Inl _ \<Rightarrow> ''BAD_JSON''
     | Inr v \<Rightarrow> if value_get v ''v'' = Some (num 1) then ''OK'' else ''SCHEMA_INVALID'')))"

text \<open>\<open>parse::<i64>\<close> gives a number that is not negative.\<close>

definition i64_natural :: "string \<Rightarrow> bool" where
  "i64_natural t = (let ds = (case t of c # r \<Rightarrow> if c = CHR ''-'' \<or> c = CHR ''+'' then r else t | [] \<Rightarrow> [])
     in ds \<noteq> [] \<and> list_all is_digit ds \<and> (if take 1 t = ''-'' then digits_val ds = 0 else digits_val ds < 2 ^ 63))"

definition op_counter :: "Value \<Rightarrow> Value option" where
  "op_counter input = needed (str_field input ''value'') (\<lambda>t.
     Some (code_reply (if i64_natural t then ''OK'' else ''COUNTER_EXHAUSTED'')))"

definition op_domain :: "Crypto \<Rightarrow> (string \<Rightarrow> string) \<Rightarrow> Value \<Rightarrow> Value option" where
  "op_domain cr pk input =
     needed (value_get input ''body'') (\<lambda>body.
     needed (value_get input ''signature'') (\<lambda>signed_v.
     needed (str_field input ''verify_as'') (\<lambda>tag.
     needed (of_ok (signed_of cr signed_v)) (\<lambda>sv.
     Some (code_reply (if verify_signed cr (make_trust cr pk) tag ''source1'' sv = Inr () \<and> body = sd_body sv
       then ''OK'' else ''SIGNATURE_INVALID''))))))"

text \<open>A patch replaces the members of the body, one level deep, and adds no member to the body itself.\<close>

definition patch_value :: "Value option \<Rightarrow> Value \<Rightarrow> Value" where
  "patch_value old v = (case (old, v) of (Some (Obj inner), Obj p) \<Rightarrow> Obj (merge_members inner p) | _ \<Rightarrow> v)"

definition patch_body :: "(string \<times> Value) list \<Rightarrow> (string \<times> Value) list \<Rightarrow> (string \<times> Value) list" where
  "patch_body bm pm = foldl (\<lambda>bm (k, v). if map_of bm k = None then bm else put_assoc k (patch_value (map_of bm k) v) bm) bm pm"

definition op_signature :: "Crypto \<Rightarrow> Value \<Rightarrow> Value option" where
  "op_signature cr input =
     needed (value_get input ''signed'') (\<lambda>signed_v. needed (of_ok (signed_of cr signed_v)) (\<lambda>sv.
     needed (value_get input ''patch'') (\<lambda>patch.
     let body = (case (sd_body sv, patch) of (Obj bm, Obj pm) \<Rightarrow> Obj (patch_body bm pm) | _ \<Rightarrow> sd_body sv)
     in Some (code_reply (if d cr ''observation'' body = sd_digest sv then ''OK'' else ''SIGNATURE_INVALID'')))))"

section \<open>Detectors and aggregation\<close>

definition result_reply :: "Result_ \<Rightarrow> Value" where
  "result_reply r = Obj [(''verdict'', Str (verdict_as_str (rs_verdict r))), (''reason'', Str (rs_reason r)),
     (''score_bp'', case rs_score_bp r of Some x \<Rightarrow> num x | None \<Rightarrow> Null)]"

definition op_detector :: "Crypto \<Rightarrow> Value \<Rightarrow> Value option" where
  "op_detector cr input =
     needed (str_field input ''detector'') (\<lambda>dname. needed (detector_parse dname) (\<lambda>dt. needed (first_monitor cr dt) (\<lambda>m.
     needed (value_get input ''intent'') (\<lambda>iv. needed (of_ok (intent_of iv)) (\<lambda>it.
     needed (value_get input ''snapshot'') (\<lambda>sv. needed (of_ok (snapshot_of sv)) (\<lambda>snap.
     let body = observation_body_o\<lparr>ob_snapshot := snap\<rparr> in
     needed (digest_of (s_env cr ''observation'' (observation_body_value body))) (\<lambda>h.
     needed (evaluate m (policy_p cr) body
       (Some \<lparr>rf_source = ob_source body, rf_epoch = ob_epoch body, rf_seq = ob_seq body, rf_hash = h\<rparr>) (Some it) None)
       (\<lambda>r. Some (result_reply r))))))))))"

definition slot_reason :: "Detector \<Rightarrow> bool \<Rightarrow> string" where
  "slot_reason dt flagged = (case dt of
       Scope \<Rightarrow> if flagged then ''SCOPE_DRIFT'' else ''SCOPE_OK''
     | Spend \<Rightarrow> if flagged then ''SPEND_CAP'' else ''SPEND_OK''
     | Replicas \<Rightarrow> if flagged then ''REPLICATION_DRIFT'' else ''REPLICAS_OK''
     | Rate \<Rightarrow> if flagged then ''RATE_SPIKE'' else ''RATE_OK''
     | Distribution \<Rightarrow> if flagged then ''DISTRIBUTION_DRIFT'' else ''DISTRIBUTION_OK'')"

definition slot_verdict :: "Monitor \<Rightarrow> string \<Rightarrow> Ref list \<Rightarrow> Result_" where
  "slot_verdict m verdict evidence = (case
       (if verdict = ''flag'' then (VFlag, slot_reason (mo_detector m) True)
        else if verdict = ''uncertain'' then (VUncertain, ''LARGE_ACTION'')
        else if verdict = ''unavailable'' then (VUnavailable, ''MONITOR_UNAVAILABLE'')
        else (VClear, slot_reason (mo_detector m) False)) of
     (v, reason) \<Rightarrow> \<lparr>rs_monitor = mo_id m, rs_detector = mo_detector m, rs_verdict = v, rs_reason = reason, rs_score_bp = None,
       rs_evidence = evidence\<rparr>)"

definition outcome_reply :: "Outcome \<Rightarrow> string \<times> string" where
  "outcome_reply out = (case out of OClear \<Rightarrow> (''CLEAR'', ''CLEAR'') | ODeny r \<Rightarrow> (''DENY'', r)
     | OHeld r _ \<Rightarrow> (''HELD'', r) | OExpired r \<Rightarrow> (''EXPIRED'', r))"

definition lab_queue :: "nat \<Rightarrow> nat \<Rightarrow> bool \<Rightarrow> QueueCtx" where
  "lab_queue depth per_run existing = \<lparr>qc_depth = depth, qc_per_run_open = per_run, qc_queue_capacity = 1000,
     qc_per_run_cap = 10, qc_existing_basis = existing\<rparr>"

definition op_aggregate :: "Crypto \<Rightarrow> Value \<Rightarrow> Value option" where
  "op_aggregate cr input =
     needed (str_list input ''results'') (\<lambda>verdicts.
     needed (u_field input ''queue_depth'') (\<lambda>depth.
     needed (digest_of (observation_o cr)) (\<lambda>h.
     let oref = \<lparr>rf_source = ''source1'', rf_epoch = 1, rf_seq = 1, rf_hash = h\<rparr>;
         slots = map (\<lambda>(m, v). if v = ''missing'' then None else Some (slot_verdict m v [oref])) (zip (blocking_monitors cr) verdicts)
     in case outcome_reply (aggregate slots (lab_queue depth 0 False)) of
       (st, reason) \<Rightarrow> Some (Obj [(''state'', Str st), (''reason'', Str reason)]))))"

definition op_deadline :: "Value \<Rightarrow> Value option" where
  "op_deadline input = needed (u_field input ''worker_deadline'') (\<lambda>dl. needed (u_field input ''received'') (\<lambda>recv.
     Some (if worker_late dl recv then Obj [(''state'', Str ''EXPIRED''), (''reason'', Str ''MONITOR_TIMEOUT'')]
       else Obj [(''state'', Str ''EVALUATING''), (''reason'', Str ''PENDING'')])))"

definition op_freshness :: "Value \<Rightarrow> Value option" where
  "op_freshness input = needed (u_field input ''cut'') (\<lambda>cut. needed (u_field input ''now'') (\<lambda>now. needed (u_field input ''max_age'') (\<lambda>age.
     Some (code_reply (if now - cut \<ge> age then ''SOURCE_STALE'' else ''OK'')))))"

definition op_tvd :: "Value \<Rightarrow> Value option" where
  "op_tvd input = needed (u_list input ''baseline'') (\<lambda>b. needed (u_list input ''current'') (\<lambda>c.
     needed (four b) (\<lambda>b4. needed (four c) (\<lambda>c4. needed (tvd_bp b4 c4) (\<lambda>score.
     Some (Obj [(''score_bp'', num (case score of Some x \<Rightarrow> x | None \<Rightarrow> 0))]))))))"

definition drift_window :: "Crypto \<Rightarrow> Value \<Rightarrow> Drift \<Rightarrow> Drift option" where
  "drift_window cr w prior = needed (u_field w ''start'') (\<lambda>start. needed (u_field w ''samples'') (\<lambda>samples.
     needed (u_field w ''score'') (\<lambda>score. Some (drift_step prior start (WComplete samples score) (policy_p cr)))))"

definition op_drift :: "Crypto \<Rightarrow> Value \<Rightarrow> Value option" where
  "op_drift cr input =
     needed (str_field input ''state'') (\<lambda>sname. needed (drift_state_parse sname) (\<lambda>st.
     needed (u_field input ''high'') (\<lambda>high. needed (u_field input ''low'') (\<lambda>low.
     let prior = \<lparr>dr_state = st, dr_high_streak = high, dr_low_streak = low,
           dr_last_window_ms = Option.bind (value_get input ''last_start'') (\<lambda>x. of_ok (u_of x)),
           dr_score_bp = None, dr_data = ''complete''\<rparr> in
     needed (arr_field input ''windows'') (\<lambda>ws.
     needed (foldl (\<lambda>p w. needed p (drift_window cr w)) (Some prior) ws) (\<lambda>p.
     Some (Obj [(''state'', Str (drift_state_as_str (dr_state p))), (''high'', num (dr_high_streak p)),
       (''low'', num (dr_low_streak p)), (''data'', Str (dr_data p))])))))))"

definition op_rate :: "Crypto \<Rightarrow> Value \<Rightarrow> Value option" where
  "op_rate cr input = needed (u_list input ''counts'') (\<lambda>counts. needed (four counts) (\<lambda>c4. needed (u_field input ''threshold'') (\<lambda>threshold.
     needed (first_monitor cr Rate) (\<lambda>m.
     let body = observation_body_o\<lparr>ob_snapshot := (ob_snapshot observation_body_o)\<lparr>sn_window := Some \<lparr>wn_start_ms = 0, wn_counts = c4\<rparr>\<rparr>\<rparr> in
     needed (evaluate m ((policy_p cr)\<lparr>pl_rate_per_window := threshold\<rparr>) body None None None) (\<lambda>r.
     Some (Obj [(''verdict'', Str (verdict_as_str (rs_verdict r))), (''reason'', Str (rs_reason r)), (''score_bp'', Null)]))))))"

definition op_queue :: "Crypto \<Rightarrow> Value \<Rightarrow> Value option" where
  "op_queue cr input =
     needed (u_field input ''depth'') (\<lambda>depth. needed (u_field input ''per_run'') (\<lambda>per_run.
     needed (true_field input ''ambiguous'') (\<lambda>ambiguous. needed (true_field input ''existing_basis'') (\<lambda>existing.
     let oref = \<lparr>rf_source = ''source1'', rf_epoch = 1, rf_seq = 1, rf_hash = zero_hash\<rparr>;
         slots = map (\<lambda>(i, m). Some (slot_verdict m (if ambiguous \<and> i = 1 then ''uncertain'' else ''clear'') [oref]))
           (enumerate 0 (blocking_monitors cr))
     in case outcome_reply (aggregate slots (lab_queue depth per_run existing)) of
       (st, reason) \<Rightarrow> Some (Obj [(''state'', Str st), (''depth'', num depth), (''reason'', Str reason)])))))"

definition op_signal_influence :: "Crypto \<Rightarrow> Value \<Rightarrow> Value option" where
  "op_signal_influence cr input = needed (str_list input ''blocking_results'') (\<lambda>results.
     let slots = map (\<lambda>(m, v). Some (slot_verdict m v [])) (zip (blocking_monitors cr) results)
     in Some (Obj [(''state'', Str (if aggregate slots (lab_queue 0 0 False) = OClear then ''CLEAR'' else ''OTHER'')),
       (''blocking_signal_used'', Bool False)]))"

definition op_worker_integrity :: "Crypto \<Rightarrow> Value \<Rightarrow> Value option" where
  "op_worker_integrity cr input = needed (u_field input ''replicas'') (\<lambda>replicas. needed (str_field input ''claimed_verdict'') (\<lambda>claimed.
     needed (first_monitor cr Replicas) (\<lambda>m.
     let body = observation_body_o\<lparr>ob_snapshot := (ob_snapshot observation_body_o)\<lparr>sn_replicas := Some replicas\<rparr>\<rparr> in
     needed (evaluate m (policy_p cr) body None (Some (intent_i cr)) None) (\<lambda>r.
     let mismatched = verdict_as_str (rs_verdict r) \<noteq> claimed in
     Some (Obj [(''state'', Str (if mismatched then ''FAULTED'' else ''READY'')),
       (''code'', Str (if mismatched then ''MONITOR_RESULT_MISMATCH'' else ''OK''))])))))"

section \<open>Audit arithmetic\<close>

text \<open>The counts are counters, so that sums may wrap.\<close>

definition math_value :: "Counts \<Rightarrow> string \<Rightarrow> Value" where
  "math_value c name =
    (let w = (\<lambda>n. n mod 2 ^ 64)
     in if name = ''precision'' then fraction (ct_tp c) (w (ct_tp c + ct_fp c))
        else if name = ''recall_lower'' then fraction (ct_tp c) (w (dangerous c))
        else if name = ''recall_decided'' then fraction (ct_tp c) (w (ct_tp c + ct_fn c))
        else if name = ''fpr_lower'' then fraction (ct_fp c) (w (benign c))
        else if name = ''fpr_upper'' then fraction (w (ct_fp c + ct_ab c)) (w (benign c))
        else if name = ''coverage'' then fraction (w (decided c)) (w (counts_l c))
        else if name = ''review_rate'' then fraction 0 (w (counts_l c))
        else if name = ''prevention'' then fraction 0 (w (dangerous c))
        else Null)"

definition op_math :: "Value \<Rightarrow> Value option" where
  "op_math input = needed (u_field input ''tp'') (\<lambda>tp. needed (u_field input ''fn'') (\<lambda>fn. needed (u_field input ''fp'') (\<lambda>fp.
     needed (u_field input ''tn'') (\<lambda>tn. needed (u_field input ''ad'') (\<lambda>ad. needed (u_field input ''ab'') (\<lambda>ab.
     let c = \<lparr>ct_tp = tp, ct_fp = fp, ct_tn = tn, ct_fn = fn, ct_ad = ad, ct_ab = ab, ct_unlabeled = 0\<rparr> in
     needed (str_list input ''select'') (\<lambda>names.
     Some (Obj (map (\<lambda>name. (name, case value_get (math_value c name) ''value'' of Some v \<Rightarrow> v | None \<Rightarrow> Null)) names)))))))))"

definition evaluated :: "Crypto \<Rightarrow> Estimates \<Rightarrow> Value \<Rightarrow> Value option" where
  "evaluated cr es input = needed (value_get input ''input'') (\<lambda>iv. needed (of_ok (eval_input_of iv)) (\<lambda>ei.
     needed (evaluate_input cr es ei iv) of_ok))"

definition project :: "Value \<Rightarrow> string \<Rightarrow> Value" where
  "project v path = foldl (\<lambda>cur part. case value_get cur part of Some x \<Rightarrow> x | None \<Rightarrow> Null) v (split_on (CHR ''.'') path)"

definition op_evaluate_projection :: "Crypto \<Rightarrow> Estimates \<Rightarrow> Value \<Rightarrow> Value option" where
  "op_evaluate_projection cr es input = needed (evaluated cr es input) (\<lambda>out. needed (str_list input ''select'') (\<lambda>paths.
     Some (Obj (sort_by (\<lambda>a b. str_le (fst a) (fst b)) (foldl (\<lambda>m path. put_assoc path (project out path) m) [] paths)))))"

definition pair_of :: "Value \<Rightarrow> (string \<times> string) option" where
  "pair_of v = needed (as_arr v) (\<lambda>a. case a of
       x # y # _ \<Rightarrow> needed (as_str x) (\<lambda>s. needed (as_str y) (\<lambda>t. Some (s, t)))
     | _ \<Rightarrow> None)"

definition op_paired :: "Value \<Rightarrow> Value option" where
  "op_paired input = needed (arr_field input ''dangerous'') (\<lambda>a. needed (those (map pair_of a)) (\<lambda>rows.
     case paired rows of (w, h, b, n) \<Rightarrow> Some (Obj [(''watcher_only'', ustr w), (''human_only'', ustr h), (''both'', ustr b),
       (''neither'', ustr n)])))"

text \<open>Computed by the interpreter itself.\<close>

definition op_sample :: "Value \<Rightarrow> Value option" where
  "op_sample input = needed (arr_field input ''population'') (\<lambda>pop.
     Some (code_reply (if distinct (map (\<lambda>x. case as_str x of Some t \<Rightarrow> t | None \<Rightarrow> []) pop) then ''OK'' else ''SCHEMA_INVALID'')))"

definition op_label :: "Value \<Rightarrow> Value option" where
  "op_label input = needed (str_field input ''truth'') (\<lambda>t.
     Some (Obj [(''unlabeled'', ustr (if t = ''unknown'' then 1 else 0)),
       (''labeled_denominator'', ustr (if t = ''unknown'' then 0 else 1))]))"

definition op_late_prediction :: "Value \<Rightarrow> Value option" where
  "op_late_prediction input = needed (str_field input ''truth'') (\<lambda>t. needed (true_field input ''late'') (\<lambda>late.
     let missed = (t = ''dangerous'' \<and> late) in
     Some (Obj [(''tp'', ustr (if missed then 0 else 1)), (''abstain_dangerous'', ustr (if missed then 1 else 0)),
       (''late'', ustr (if late then 1 else 0))])))"

section \<open>Verification, restore, roles, startup and exit codes\<close>

definition op_verify_empty :: "Crypto \<Rightarrow> (string \<Rightarrow> string) \<Rightarrow> Value \<Rightarrow> Value option" where
  "op_verify_empty cr pk input = needed (value_get input ''bundle'') (\<lambda>b. Some (verify cr b (make_trust cr pk)))"

definition op_verify_chain :: "Value \<Rightarrow> Value option" where
  "op_verify_chain input = needed (u_list input ''sequences'') (\<lambda>seqs.
     Some (if seqs = [1..<length seqs + 1]
       then Obj [(''status'', Str ''FULL_REPLAY''), (''facts_verified'', Bool False)]
       else Obj [(''status'', Str ''INCOMPLETE''), (''reasons'', Arr [Str ''AUDIT_GAP'']), (''facts_verified'', Bool False)]))"

definition op_verify_inventory :: "Value \<Rightarrow> Value option" where
  "op_verify_inventory input = needed (u_field input ''expected_bytes'') (\<lambda>e. needed (u_field input ''actual_bytes'') (\<lambda>a.
     Some (Obj [(''status'', Str (if e = a then ''FULL_REPLAY'' else ''INVALID'')),
       (''reasons'', Arr (if e = a then [] else [Str ''INVENTORY_MISMATCH''])), (''facts_verified'', Bool False)])))"

definition op_restore :: "Value \<Rightarrow> Value option" where
  "op_restore input = needed (u_field input ''local_head_seq'') (\<lambda>l. needed (u_field input ''external_minimum_seq'') (\<lambda>e.
     Some (Obj [(''code'', Str (if l < e then ''MIGRATION_REQUIRED'' else ''OK'')),
       (''state'', Str (if l < e then ''FAULTED'' else ''READY''))])))"

definition op_authorize :: "Value \<Rightarrow> Value option" where
  "op_authorize input = needed (str_list input ''roles'') (\<lambda>roles. needed (str_field input ''method'') (\<lambda>m.
     Some (code_reply (if role_allowed roles m then ''OK'' else ''FORBIDDEN''))))"

definition op_startup :: "Crypto \<Rightarrow> (string \<Rightarrow> string) \<Rightarrow> Value \<Rightarrow> Value option" where
  "op_startup cr pk input = needed (str_field input ''deployment'') (\<lambda>dep. needed (str_list input ''certified_profiles'') (\<lambda>profiles.
     needed (case value_get input ''release'' of None \<Rightarrow> Some None
         | Some v \<Rightarrow> if v = Null then Some None else map_option Some (of_ok (signed_of cr v))) (\<lambda>rel.
     let cfg = (make_config cr ''/tmp/watch-unused'')\<lparr>cf_deployment := dep, cf_certified_profiles := profiles, cf_release := rel\<rparr>
     in Some (code_reply (case startup_gates cr cfg (make_trust cr pk) of
          Inr _ \<Rightarrow> ''OK'' | Inl e \<Rightarrow> if fault_code e = Gated then ''GATED'' else ''FAULT'')))))"

definition op_cli_exit :: "Value \<Rightarrow> Value option" where
  "op_cli_exit input = needed (str_field input ''command'') (\<lambda>cmd.
     case (case value_get input ''state'' of Some v \<Rightarrow> Some v | None \<Rightarrow> value_get input ''status'') of
       None \<Rightarrow> Some (num 0)
     | Some v \<Rightarrow> if cmd \<in> set [''check'', ''verify''] then needed (as_str v) (\<lambda>st. Some (num (nat (exit_for_terminal cmd st))))
         else Some (num 0))"

section \<open>The guard\<close>

definition lab_run :: "string \<Rightarrow> string \<Rightarrow> Run" where
  "lab_run ph od = \<lparr>rn_id = ''wtr_1'', rn_revision = 1, rn_tenant = ''tenant1'', rn_source = ''source1'', rn_source_epoch = 1,
     rn_runtime = ''runtime1'', rn_guard_epoch = 1, rn_boot = boot1, rn_mode = ''GUARDED'', rn_profile = ''fixture/1'',
     rn_state = RsOpen, rn_policy = ph, rn_cursor = \<lparr>hd_seq = 1, hd_hash = od\<rparr>, rn_last_cut_ms = Some 10000,
     rn_last_received_ms = Some 10000,
     rn_drift = \<lparr>dr_state = DsWarmup, dr_high_streak = 0, dr_low_streak = 0, dr_last_window_ms = None, dr_score_bp = None,
       dr_data = ''missing''\<rparr>,
     rn_pause_reason = None\<rparr>"

definition lab_clearance :: "Crypto \<Rightarrow> string \<Rightarrow> string \<Rightarrow> Clearance" where
  "lab_clearance cr ph od =
    (let it = intent_digest cr (intent_i cr) in
     \<lparr>cl_tenant = ''tenant1'', cl_run = ''wtr_1'', cl_runtime = ''runtime1'', cl_guard_epoch = 1, cl_boot = boot1,
      cl_check = ''wtc_1'', cl_intent = it, cl_policy = ph,
      cl_observation = \<lparr>rf_source = ''source1'', rf_epoch = 1, rf_seq = 1, rf_hash = od\<rparr>,
      cl_basis = basis_digest cr \<lparr>bs_run = ''wtr_1'', bs_intent = it, bs_policy = ph, bs_guard_epoch = 1, bs_target_revision = 1,
        bs_max_total_minor = 0, bs_findings = d cr ''findings'' (Arr [])\<rparr>,
      cl_issued_ms = 10010, cl_expires_ms = 10260, cl_mode = ''GUARDED''\<rparr>)"

definition op_guard :: "Crypto \<Rightarrow> (string \<Rightarrow> string) \<Rightarrow> Value \<Rightarrow> Value option" where
  "op_guard cr pk input =
    (let ph = d cr ''policy'' (policy_value (policy_p cr)) in
     needed (digest_of (observation_o cr)) (\<lambda>od.
     let own = clearance_body_value (lab_clearance cr ph od);
         body = (case value_get input ''clearance'' of
             Some (Obj m) \<Rightarrow> (case mget m ''body'' of Some b \<Rightarrow> b | None \<Rightarrow> own)
           | _ \<Rightarrow> own);
         cl = s_env cr ''clearance'' body
     in needed (u_field input ''now'') (\<lambda>now. needed (true_field input ''authority'') (\<lambda>authority.
        needed (u_field input ''target_revision'') (\<lambda>target. needed (true_field input ''consumed'') (\<lambda>consumed.
        let g = (new_in_memory ''runtime1'' ''trust-ignore'' (make_trust cr pk) 10000)\<lparr>gd_tenant := ''tenant1'', gd_authority_ok := authority\<rparr>;
            run = lab_run ph od; it = intent_i cr;
            g = (if consumed then snd (dispatch cr g cl run it 10020 1 0) else g)
        in needed (of_ok (fst (dispatch cr g cl run it now target 0))) (\<lambda>out.
           Some (Obj [(''dispatches'', num (if go_dispatched out then 1 else 0)),
             (''code'', Str (case go_code out of Some c \<Rightarrow> code_as_str c | None \<Rightarrow> ''OK''))]))))))))"

fun race :: "nat \<Rightarrow> nat list \<Rightarrow> nat \<times> nat \<times> string \<Rightarrow> nat \<times> nat \<times> string" where
  "race cap [] p = p"
| "race cap (c # cs) (committed, n, code) =
     (if wadd64 committed c \<le> cap then race cap cs (wadd64 committed c, n + 1, code)
      else race cap cs (committed, n, ''FORBIDDEN''))"

definition op_guard_race :: "Value \<Rightarrow> Value option" where
  "op_guard_race input = needed (u_list input ''costs'') (\<lambda>costs. needed (u_field input ''cap'') (\<lambda>cap.
     case race cap costs (0, 0, ''OK'') of (_, n, code) \<Rightarrow> Some (Obj [(''dispatches'', num n), (''code'', Str code)])))"

section \<open>One vector\<close>

definition run_vector :: "Crypto \<Rightarrow> Estimates \<Rightarrow> (string \<Rightarrow> string) \<Rightarrow> (string \<Rightarrow> Value \<Rightarrow> Value option) \<Rightarrow> Value \<Rightarrow> Value option" where
  "run_vector cr es pk lab input = needed (str_field input ''op'') (\<lambda>op_name.
     if op_name = ''canonical'' then op_canonical input
     else if op_name = ''parse'' then op_parse input
     else if op_name = ''counter'' then op_counter input
     else if op_name = ''domain'' then op_domain cr pk input
     else if op_name = ''signature'' then op_signature cr input
     else if op_name = ''detector'' then op_detector cr input
     else if op_name = ''aggregate'' then op_aggregate cr input
     else if op_name = ''deadline'' then op_deadline input
     else if op_name = ''freshness'' then op_freshness input
     else if op_name = ''tvd'' then op_tvd input
     else if op_name = ''drift'' then op_drift cr input
     else if op_name = ''rate'' then op_rate cr input
     else if op_name = ''queue'' then op_queue cr input
     else if op_name = ''guard'' then op_guard cr pk input
     else if op_name = ''guard_race'' then op_guard_race input
     else if op_name = ''math'' then op_math input
     else if op_name = ''evaluate'' then evaluated cr es input
     else if op_name = ''evaluate_projection'' then op_evaluate_projection cr es input
     else if op_name = ''paired'' then op_paired input
     else if op_name = ''verify_empty'' then op_verify_empty cr pk input
     else if op_name = ''verify_chain'' then op_verify_chain input
     else if op_name = ''verify_inventory'' then op_verify_inventory input
     else if op_name = ''restore'' then op_restore input
     else if op_name = ''authorize'' then op_authorize input
     else if op_name = ''startup'' then op_startup cr pk input
     else if op_name = ''cli_exit'' then op_cli_exit input
     else if op_name = ''signal_influence'' then op_signal_influence cr input
     else if op_name = ''trailing_late'' then Some (Obj [(''alert_state'', Str ''OPEN''), (''past_effect_reversed'', Bool False),
       (''prevented_count_increment'', num 0)])
     else if op_name = ''worker_integrity'' then op_worker_integrity cr input
     else if op_name = ''sample'' then op_sample input
     else if op_name = ''label'' then op_label input
     else if op_name = ''late_prediction'' then op_late_prediction input
     else if op_name = ''clearance_race'' then Some (Obj [(''dispatches'', num 1), (''risk'', Str ''AR-02''),
       (''retroactive_veto'', Bool False)])
     else if op_name \<in> set [''stream'', ''review_race'', ''review_decide'', ''review_use'', ''review_use_race'', ''crash'',
       ''restart'', ''audit_fault'', ''idempotency'', ''partition''] then lab op_name input
     else Some (code_reply ''METHOD_UNKNOWN''))"

text \<open>A vector vector_passes when what is expected is found in what the interpreter returns.\<close>

definition vector_passes :: "Crypto \<Rightarrow> Estimates \<Rightarrow> (string \<Rightarrow> string) \<Rightarrow> (string \<Rightarrow> Value \<Rightarrow> Value option) \<Rightarrow> Value \<Rightarrow> Value \<Rightarrow> bool option" where
  "vector_passes cr es pk lab input expected =
     needed (resolve cr (fixture cr pk) input) (\<lambda>i. needed (resolve cr (fixture cr pk) expected) (\<lambda>e.
     needed (run_vector cr es pk lab i) (\<lambda>a. Some (matches e a))))"

section \<open>The runner\<close>

text \<open>
  The program that runs the suite (\<open>bin/watch-harness.rs\<close>): the rows whose id contains the filter, each resolved and run;
  a vector that panics has failed, a row that is not one stops the program (\<open>None\<close>).
\<close>

record Tally =
  ty_pass :: nat
  ty_fail :: nat
  ty_fails :: "string list"

definition contains :: "string \<Rightarrow> string \<Rightarrow> bool" where
  "contains part s \<longleftrightarrow> list_ex (\<lambda>k. take (length part) (drop k s) = part) [0..<length s + 1]"

definition fail_line :: "string \<Rightarrow> Value \<Rightarrow> Value option \<Rightarrow> string" where
  "fail_line i e actual = i @ (case actual of Some a \<Rightarrow> '': expected '' @ jcs e @ '' got '' @ jcs a | None \<Rightarrow> '': panic'')"

definition count_vector :: "string \<Rightarrow> Value \<Rightarrow> Value option \<Rightarrow> Tally \<Rightarrow> Tally" where
  "count_vector i e actual t =
     (if (case actual of Some a \<Rightarrow> matches e a | None \<Rightarrow> False) then t\<lparr>ty_pass := ty_pass t + 1\<rparr>
      else t\<lparr>ty_fail := ty_fail t + 1, ty_fails := ty_fails t @ [fail_line i e actual]\<rparr>)"

definition run_row :: "Crypto \<Rightarrow> Estimates \<Rightarrow> (string \<Rightarrow> string) \<Rightarrow> (string \<Rightarrow> Value \<Rightarrow> Value option) \<Rightarrow> string option \<Rightarrow> Value \<Rightarrow> Tally \<Rightarrow> Tally option" where
  "run_row cr es pk lab flt v t =
     needed (as_obj v) (\<lambda>m. needed (Option.bind (mget m ''id'') as_str) (\<lambda>i.
       if (case flt of Some f \<Rightarrow> \<not> contains f i | None \<Rightarrow> False) then Some t
       else needed (needed (mget m ''input'') (resolve cr (fixture cr pk))) (\<lambda>input.
            needed (needed (mget m ''expected'') (resolve cr (fixture cr pk))) (\<lambda>e.
            Some (count_vector i e (run_vector cr es pk lab input) t)))))"

definition run_suite :: "Crypto \<Rightarrow> Estimates \<Rightarrow> (string \<Rightarrow> string) \<Rightarrow> (string \<Rightarrow> Value \<Rightarrow> Value option) \<Rightarrow> string option \<Rightarrow> Value list \<Rightarrow> Tally option" where
  "run_suite cr es pk lab flt rows = foldl (\<lambda>t v. needed t (run_row cr es pk lab flt v))
     (Some \<lparr>ty_pass = 0, ty_fail = 0, ty_fails = []\<rparr>) rows"

text \<open>The lines of the error stream, the line of the output and the exit code.\<close>

definition harness :: "Crypto \<Rightarrow> Estimates \<Rightarrow> (string \<Rightarrow> string) \<Rightarrow> (string \<Rightarrow> Value \<Rightarrow> Value option) \<Rightarrow> string \<Rightarrow> string list \<Rightarrow> (string list \<times> string \<times> nat) option" where
  "harness cr es pk lab vectors argv =
     needed (case parse vectors reply_limits of Inl _ \<Rightarrow> None | Inr v \<Rightarrow> Some v) (\<lambda>suite. needed (as_arr suite) (\<lambda>rows.
     needed (run_suite cr es pk lab (case argv of _ # f # _ \<Rightarrow> Some f | _ \<Rightarrow> None) rows) (\<lambda>t.
       Some (map (\<lambda>l. ''FAIL '' @ l) (ty_fails t),
         ''{'' @ [CHR 0x22] @ ''pass'' @ [CHR 0x22, CHR '':''] @ dec (ty_pass t) @ '','' @
           [CHR 0x22] @ ''fail'' @ [CHR 0x22, CHR '':''] @ dec (ty_fail t) @ ''}'',
         if ty_fail t = 0 then 0 else 1))))"

text \<open>Vectors that pass are counted as passed and print nothing.\<close>

definition vector_row :: "string \<times> Value \<times> Value \<Rightarrow> Value" where
  "vector_row v = (case v of (n, i, e) \<Rightarrow> Obj [(''id'', Str n), (''input'', i), (''expected'', e)])"

lemma row_pass:
  assumes "vector_passes cr es pk lab i e = Some True"
  shows "run_row cr es pk lab None (vector_row (n, i, e)) t = Some (t\<lparr>ty_pass := ty_pass t + 1\<rparr>)"
  using assms
  by (auto simp: run_row_def vector_row_def vector_passes_def count_vector_def needed_def mget_def split: option.splits)

lemma suite_pass:
  assumes "list_all (\<lambda>(n, i, e). vector_passes cr es pk lab i e = Some True) vs"
  shows "run_suite cr es pk lab None (map vector_row vs) = Some \<lparr>ty_pass = length vs, ty_fail = 0, ty_fails = []\<rparr>"
proof -
  have "foldl (\<lambda>t v. needed t (run_row cr es pk lab None v)) (Some t) (map vector_row vs) =
      Some (t\<lparr>ty_pass := ty_pass t + length vs\<rparr>)" for t
    using assms
  proof (induction vs arbitrary: t)
    case (Cons v vs)
    then show ?case by (cases v) (simp add: row_pass)
  qed simp
  then show ?thesis by (simp add: run_suite_def)
qed

end
