(* ===== verification/SignedVectors.thy ===== *)
theory SignedVectors
  imports Conform
begin

text \<open>
  The clearance of the conformance suite at the dispatch guard: what the checks of the guard give on it, for any
  primitives under which the test key verifies what it signs, and the verifier on the empty bundle of the suite, and the
  vectors 40 to 44 and 57 as data.
\<close>

section \<open>The test key\<close>

definition lab_keys :: "Crypto \<Rightarrow> (string \<Rightarrow> string) \<Rightarrow> bool" where
  "lab_keys cr pk \<longleftrightarrow> crypto_ok cr test_key (pk test_key) \<and> length (pk test_key) = 32"

definition lab_signed :: "Crypto \<Rightarrow> string \<Rightarrow> Value \<Rightarrow> Signed" where
  "lab_signed cr tag body = \<lparr>sd_body = body, sd_digest = d cr tag body, sd_key_id = ''test_key'', sd_key_epoch = 1,
     sd_signature = b64_encode cr (ed_sign cr test_key (sign_message tag (d cr tag body) ''test_key'' ''1''))\<rparr>"

lemma digit_chars:
  "digit_char 0 = CHR ''0''" "digit_char (Suc 0) = CHR ''1''" "digit_char 2 = CHR ''2''"
  "digit_char 3 = CHR ''3''" "digit_char 4 = CHR ''4''" "digit_char 5 = CHR ''5''"
  "digit_char 6 = CHR ''6''" "digit_char 7 = CHR ''7''" "digit_char 8 = CHR ''8''"
  "digit_char 9 = CHR ''9''"
  by (simp_all add: digit_char_def) code_simp+

lemma dec_one: "dec (Suc 0) = ''1''"
  by (simp add: dec.simps digit_chars)

lemma lab_hash: "lab_keys cr pk \<Longrightarrow> valid_hash (d cr tag v)"
  by (simp add: lab_keys_def crypto_ok_def d_valid_hash)

lemma digest_s_env: "digest_of (s_env cr tag body) = Some (d cr tag body)"
  by (simp add: digest_of_def s_env_def sign_envelope_def Let_def value_get_def mget_def as_str_def)

lemma s_env_signed:
  assumes "lab_keys cr pk"
  shows "signed_of cr (s_env cr tag body) = Inr (lab_signed cr tag body)"
proof -
  have "s_env cr tag body = signed_value (lab_signed cr tag body)"
    by (simp add: s_env_def sign_envelope_def signed_value_def lab_signed_def Let_def ustr_def dec_one)
  moreover have "valid_id ''test_key''" by code_simp
  then have "valid_signed cr (lab_signed cr tag body)"
    using assms lab_hash [OF assms]
    by (simp add: valid_signed_def lab_signed_def u_max_def is_sig_def is_b64_len_def b64u_decode_def lab_keys_def crypto_ok_def)
  ultimately show ?thesis by (simp add: signed_dec_enc)
qed

lemma lab_verifies:
  assumes "lab_keys cr pk"
  shows "b64u_decode cr (test_pub cr pk) = Some (pk test_key)"
    "verify_envelope cr tag body (d cr tag body) ''test_key'' (dec 1) (sd_signature (lab_signed cr tag body)) (pk test_key) = True"
  using assms
  by (auto simp: lab_keys_def crypto_ok_def b64u_decode_def test_pub_def verify_envelope_def lab_signed_def dec_one)

section \<open>The clearance at the guard\<close>

definition lab_guard :: "Crypto \<Rightarrow> (string \<Rightarrow> string) \<Rightarrow> bool \<Rightarrow> Guard" where
  "lab_guard cr pk authority =
     (new_in_memory ''runtime1'' ''trust-ignore'' (make_trust cr pk) 10000)\<lparr>gd_tenant := ''tenant1'', gd_authority_ok := authority\<rparr>"

lemma lab_clearance_of:
  assumes "lab_keys cr pk" "valid_hash ph" "valid_hash od" "m \<in> {''GUARDED'', ''SHADOW''}"
  shows "clearance_body_of (clearance_body_value ((lab_clearance cr ph od)\<lparr>cl_mode := m\<rparr>)) =
    Inr ((lab_clearance cr ph od)\<lparr>cl_mode := m\<rparr>)"
proof -
  have ids: "valid_id ''tenant1''" "valid_id ''wtr_1''" "valid_id ''runtime1''" "valid_id ''wtc_1''" "valid_id ''source1''"
    "valid_boot boot1" by code_simp+
  show ?thesis
    by (rule clearance_body_dec_enc)
      (use assms(2-4) lab_hash [OF assms(1)] ids in \<open>auto simp: valid_clearance_body_def lab_clearance_def Let_def u_max_def
        valid_ref_def intent_digest_def basis_digest_def\<close>)
qed

lemma lab_checks:
  assumes "lab_keys cr pk" "valid_hash ph" "valid_hash od" "m \<in> {''GUARDED'', ''SHADOW''}"
  shows "dispatch_checks cr (lab_guard cr pk authority)
      (s_env cr ''clearance'' (clearance_body_value ((lab_clearance cr ph od)\<lparr>cl_mode := m\<rparr>)))
      (lab_run ph od) (intent_i cr) now target =
    (if m \<noteq> ''GUARDED'' then Inl Forbidden
     else if now \<ge> 10260 \<or> now < 10010 then Inl LeaseExpired
     else if \<not> authority then Inl Forbidden
     else if target \<noteq> 1 then Inl TargetStale
     else Inr (lab_clearance cr ph od))"
proof -
  let ?cl = "(lab_clearance cr ph od)\<lparr>cl_mode := m\<rparr>"
  let ?sv = "lab_signed cr ''clearance'' (clearance_body_value ?cl)"
  have sv: "sd_body ?sv = clearance_body_value ?cl" "sd_digest ?sv = d cr ''clearance'' (clearance_body_value ?cl)"
    "sd_key_id ?sv = ''test_key''" "sd_key_epoch ?sv = 1"
    by (simp_all add: lab_signed_def)
  have pin: "find (clearance_pin (lab_guard cr pk authority) ?sv) (tr_keys (gd_trust (lab_guard cr pk authority))) =
      Some (hd (tr_keys (make_trust cr pk)))"
    by (simp add: lab_guard_def new_in_memory_def make_trust_def clearance_pin_def sv)
  have key: "kp_public_key (hd (tr_keys (make_trust cr pk))) = test_pub cr pk" by (simp add: make_trust_def)
  have len: "length (pk test_key) = 32" using assms(1) by (simp add: lab_keys_def)
  show ?thesis
    unfolding dispatch_checks_def s_env_signed [OF assms(1)] sum.case sv lab_clearance_of [OF assms] pin option.case key
      lab_verifies [OF assms(1)]
    using assms(4)
    by (auto simp: lab_guard_def new_in_memory_def lab_clearance_def lab_run_def intent_i_def len Let_def)
qed

text \<open>The rows of the guard are not read before the transaction.\<close>

lemma lab_checks_db:
  assumes "lab_keys cr pk" "valid_hash ph" "valid_hash od" "m \<in> {''GUARDED'', ''SHADOW''}"
  shows "dispatch_checks cr ((lab_guard cr pk authority)\<lparr>gd_db := db\<rparr>)
      (s_env cr ''clearance'' (clearance_body_value ((lab_clearance cr ph od)\<lparr>cl_mode := m\<rparr>)))
      (lab_run ph od) (intent_i cr) now target =
    (if m \<noteq> ''GUARDED'' then Inl Forbidden
     else if now \<ge> 10260 \<or> now < 10010 then Inl LeaseExpired
     else if \<not> authority then Inl Forbidden
     else if target \<noteq> 1 then Inl TargetStale
     else Inr (lab_clearance cr ph od))"
proof -
  have pin: "clearance_pin ((lab_guard cr pk authority)\<lparr>gd_db := db\<rparr>) = clearance_pin (lab_guard cr pk authority)"
    by (intro ext) (simp add: clearance_pin_def)
  have "dispatch_checks cr ((lab_guard cr pk authority)\<lparr>gd_db := db\<rparr>) e r it now target =
    dispatch_checks cr (lab_guard cr pk authority) e r it now target" for e r it
    by (simp add: dispatch_checks_def pin cong: sum.case_cong option.case_cong if_cong)
  then show ?thesis using lab_checks [OF assms] by simp
qed

section \<open>The vectors\<close>

definition vectors_signed :: "(string \<times> Value \<times> Value) list" where
  \<open>vectors_signed = [
    (''TV-W-40'', Obj [(''op'', Str ''guard''), (''clearance'', Obj [(''$'', Str ''CL'')]), (''now'', Str ''10260''), (''authority'', Bool True), (''target_revision'', Str ''1''), (''consumed'', Bool False)],
      Obj [(''dispatches'', Num ''0''), (''code'', Str ''LEASE_EXPIRED'')]),
    (''TV-W-41'', Obj [(''op'', Str ''guard''), (''clearance'', Obj [(''$'', Str ''CL'')]), (''now'', Str ''10020''), (''authority'', Bool False), (''target_revision'', Str ''1''), (''consumed'', Bool False)],
      Obj [(''dispatches'', Num ''0''), (''code'', Str ''FORBIDDEN'')]),
    (''TV-W-42'', Obj [(''op'', Str ''guard''), (''clearance'', Obj [(''$sign'', Obj [(''tag'', Str ''clearance''), (''body'', Obj [(''$merge'', Arr [Obj [(''$'', Str ''CL.body'')], Obj [(''mode'', Str ''SHADOW'')]])])])]), (''now'', Str ''10020''), (''authority'', Bool True), (''target_revision'', Str ''1''), (''consumed'', Bool False)],
      Obj [(''dispatches'', Num ''0''), (''code'', Str ''FORBIDDEN'')]),
    (''TV-W-43'', Obj [(''op'', Str ''guard''), (''clearance'', Obj [(''$'', Str ''CL'')]), (''now'', Str ''10020''), (''authority'', Bool True), (''target_revision'', Str ''2''), (''consumed'', Bool False)],
      Obj [(''dispatches'', Num ''0''), (''code'', Str ''TARGET_STALE'')]),
    (''TV-W-44'', Obj [(''op'', Str ''guard''), (''clearance'', Obj [(''$'', Str ''CL'')]), (''now'', Str ''10020''), (''authority'', Bool True), (''target_revision'', Str ''1''), (''consumed'', Bool True)],
      Obj [(''dispatches'', Num ''0''), (''code'', Str ''STATE_CONFLICT'')]),
    (''TV-W-57'', Obj [(''op'', Str ''verify_empty''), (''bundle'', Obj [(''$'', Str ''EB'')]), (''minimum_head'', Obj [(''$'', Str ''EMPTY'')])],
      Obj [(''status'', Str ''INCOMPLETE''), (''reasons'', Arr [Str ''EMPTY_HISTORY'']), (''through'', Obj [(''$'', Str ''EMPTY'')]), (''facts_verified'', Bool False)])]\<close>

text \<open>The clearance of the fixtures is the one that the interpreter builds from its record.\<close>

abbreviation lab_policy_hash :: "Crypto \<Rightarrow> string" where
  "lab_policy_hash cr \<equiv> d cr ''policy'' (policy_value (policy_p cr))"

abbreviation lab_observation_hash :: "Crypto \<Rightarrow> string" where
  "lab_observation_hash cr \<equiv> d cr ''observation'' (observation_body_value observation_body_o)"

lemma guard_dec: "dec 0 = ''0''" "dec 10010 = ''10010''" "dec 10260 = ''10260''"
  by (simp_all add: dec.simps digit_chars)

lemma fx_clearance: "fx_clearance_body cr ph od = clearance_body_value (lab_clearance cr ph od)"
  by (simp add: fx_clearance_body_def clearance_body_value_def lab_clearance_def Let_def ustr_def guard_dec dec_one
      fx_ref_def ref_value_def fx_basis_def basis_digest_def basis_value_def intent_digest_def)

lemma fixture_CL: "fixture cr pk ''CL'' = Some (s_env cr ''clearance''
    (clearance_body_value (lab_clearance cr (lab_policy_hash cr) (lab_observation_hash cr))))"
  and fixture_CL_body: "fixture cr pk ''CL.body'' = Some (clearance_body_value
    (lab_clearance cr (lab_policy_hash cr) (lab_observation_hash cr)))"
  by (simp_all add: fixture_def Let_def digest_s_env observation_o_def fx_clearance)
    (simp_all add: s_env_def sign_envelope_def Let_def value_get_def mget_def)

text \<open>What the interpreter of a guard vector returns on that clearance, in either mode.\<close>

lemma lab_outcome:
  assumes "lab_keys cr pk" "m \<in> {''GUARDED'', ''SHADOW''}"
  shows "op_guard cr pk (Obj [(''op'', Str ''guard''),
      (''clearance'', s_env cr ''clearance'' (clearance_body_value
         ((lab_clearance cr (lab_policy_hash cr) (lab_observation_hash cr))\<lparr>cl_mode := m\<rparr>))),
      (''now'', Str n), (''authority'', Bool a), (''target_revision'', Str t), (''consumed'', Bool c)]) =
    needed (of_ok (u_of (Str n))) (\<lambda>now. needed (of_ok (u_of (Str t))) (\<lambda>target.
      Some (if m \<noteq> ''GUARDED'' then Obj [(''dispatches'', num 0), (''code'', Str ''FORBIDDEN'')]
        else if now \<ge> 10260 \<or> now < 10010 then Obj [(''dispatches'', num 0), (''code'', Str ''LEASE_EXPIRED'')]
        else if \<not> a then Obj [(''dispatches'', num 0), (''code'', Str ''FORBIDDEN'')]
        else if target \<noteq> 1 then Obj [(''dispatches'', num 0), (''code'', Str ''TARGET_STALE'')]
        else if c then Obj [(''dispatches'', num 0), (''code'', Str ''STATE_CONFLICT'')]
        else Obj [(''dispatches'', num 1), (''code'', Str ''OK'')])))"
proof -
  let ?ph = "lab_policy_hash cr" and ?od = "lab_observation_hash cr"
  let ?cl = "(lab_clearance cr ?ph ?od)\<lparr>cl_mode := m\<rparr>"
  let ?env = "s_env cr ''clearance'' (clearance_body_value ?cl)"
  have body: "\<exists>x. ?env = Obj x \<and> mget x ''body'' = Some (clearance_body_value ?cl)"
    by (simp add: s_env_def sign_envelope_def Let_def mget_def)
  let ?send = "\<lambda>g now target. dispatch cr g ?env (lab_run ?ph ?od) (intent_i cr) now target 0"
  let ?none = "\<lparr>gb_consumed = [], gb_dispatched = [], gb_reservations = []\<rparr>"
  let ?one = "\<lparr>gb_consumed = [(''tenant1'', ''wtr_1'', 1, ''wtc_1'')], gb_dispatched = [(''tenant1'', ''wtr_1'', ''action1'')],
    gb_reservations = [((''wtr_1'', ''action1''), 0)]\<rparr>"
  have send: "?send ((lab_guard cr pk a)\<lparr>gd_db := db\<rparr>) now target =
    (if m \<noteq> ''GUARDED'' then (Inr (no Forbidden), (lab_guard cr pk a)\<lparr>gd_db := db\<rparr>)
     else if now \<ge> 10260 \<or> now < 10010 then (Inr (no LeaseExpired), (lab_guard cr pk a)\<lparr>gd_db := db\<rparr>)
     else if \<not> a then (Inr (no Forbidden), (lab_guard cr pk a)\<lparr>gd_db := db\<rparr>)
     else if target \<noteq> 1 then (Inr (no TargetStale), (lab_guard cr pk a)\<lparr>gd_db := db\<rparr>)
     else if db = ?none then (Inr \<lparr>go_dispatched = True, go_code = None\<rparr>, (lab_guard cr pk a)\<lparr>gd_db := ?one\<rparr>)
     else (Inr (no StateConflict), (lab_guard cr pk a)\<lparr>gd_db := db\<rparr>))"
    if "db = ?none \<or> db = ?one" for a db now target
  proof -
    have tx: "dispatch_tx ((lab_guard cr pk a)\<lparr>gd_db := db\<rparr>) (lab_clearance cr ?ph ?od) (intent_i cr) 0 =
        (if db = ?none then (Inr \<lparr>go_dispatched = True, go_code = None\<rparr>, ?one) else (Inr (no StateConflict), db))"
      if "db = ?none \<or> db = ?one" for a db
      using that by (auto simp: dispatch_tx_def Let_def lab_guard_def new_in_memory_def lab_clearance_def intent_i_def reserved_def
          is_i64_def as_u64_def as_i64_def wadd64_def)
    show ?thesis
      unfolding dispatch_def lab_checks_db [OF assms(1) lab_hash [OF assms(1)] lab_hash [OF assms(1)] assms(2)]
      using that by (auto simp: tx)
  qed
  let ?in = "Obj [(''op'', Str ''guard''), (''clearance'', ?env), (''now'', Str n), (''authority'', Bool a),
    (''target_revision'', Str t), (''consumed'', Bool c)]"
  have fields: "value_get ?in ''clearance'' = Some ?env" "u_field ?in ''now'' = of_ok (u_of (Str n))"
    "u_field ?in ''target_revision'' = of_ok (u_of (Str t))" "true_field ?in ''authority'' = Some a"
    "true_field ?in ''consumed'' = Some c"
    by (simp_all add: value_get_def mget_def u_field_def true_field_def)
  obtain x where x: "?env = Obj x" "mget x ''body'' = Some (clearance_body_value ?cl)" using body by blast
  have own: "(case Some ?env of Some (Obj m) \<Rightarrow> (case mget m ''body'' of Some b \<Rightarrow> b | None \<Rightarrow> own) | _ \<Rightarrow> own) =
      clearance_body_value ?cl" for own
    by (simp add: x)
  have guard: "(new_in_memory ''runtime1'' ''trust-ignore'' (make_trust cr pk) 10000)\<lparr>gd_tenant := ''tenant1'', gd_authority_ok := a\<rparr> =
      lab_guard cr pk a" by (simp add: lab_guard_def)
  have g0: "lab_guard cr pk a = (lab_guard cr pk a)\<lparr>gd_db := ?none\<rparr>" for a
    by (simp add: lab_guard_def new_in_memory_def)
  define env where "env = ?env"
  note first = send [OF disjI1 [OF refl], folded g0 env_def] and second = send [OF disjI2 [OF refl], folded env_def, unfolded One_nat_def]
  show ?thesis
    unfolding op_guard_def Let_def observation_o_def digest_s_env needed_simps fields own guard
    unfolding env_def [symmetric]
    by (cases "of_ok (u_of (Str n))"; cases "of_ok (u_of (Str t))")
      (auto simp: first second no_def)
qed

lemma guard_texts:
  "u_of (Str ''1'') = Inr 1" "u_of (Str ''2'') = Inr 2" "u_of (Str ''10020'') = Inr 10020" "u_of (Str ''10260'') = Inr 10260"
  by (simp_all add: ustr_def u_max_def dec.simps digit_chars)

lemma guarded_mode: "(lab_clearance cr ph od)\<lparr>cl_mode := ''GUARDED''\<rparr> = lab_clearance cr ph od"
  by (simp add: lab_clearance_def Let_def)

lemma merge_mode:
  "needed (case Option.bind (fixture cr pk ''CL.body'') as_obj of None \<Rightarrow> None
     | Some y \<Rightarrow> map_option ((#) y) (those [Some [(''mode'', Str m)]])) (\<lambda>ms. Some (Obj (foldl merge_members [] ms))) =
   Some (clearance_body_value ((lab_clearance cr (lab_policy_hash cr) (lab_observation_hash cr))\<lparr>cl_mode := m\<rparr>))"
  by (simp add: fixture_CL_body) (simp add: clearance_body_value_def merge_members_def)

text \<open>The empty bundle: its manifest verifies as an envelope and there is no event to replay.\<close>

lemma fixture_EB: "fixture cr pk ''EB'' = Some (fx_bundle cr)" "fixture cr pk ''EMPTY'' = Some (head_value empty_head)"
  by (simp_all add: fixture_def Let_def digest_s_env observation_o_def)
    (simp_all add: s_env_def sign_envelope_def Let_def value_get_def mget_def)

definition empty_bundle :: BundleBody where
  "empty_bundle = \<lparr>bb_tenant = ''tenant1'', bb_from = empty_head, bb_through = empty_head, bb_disclosure = ''FULL'',
     bb_inventory = [], bb_event_hashes = [], bb_limitations = [''EMPTY_HISTORY'']\<rparr>"

abbreviation empty_manifest :: Value where
  "empty_manifest \<equiv> Obj [(''v'', num 1), (''format'', Str ''watch-proof/1''), (''tenant'', Str ''tenant1''),
     (''from'', head_value empty_head), (''through'', head_value empty_head), (''disclosure'', Str ''FULL''),
     (''inventory'', Arr []), (''event_hashes'', Arr []), (''limitations'', Arr [Str ''EMPTY_HISTORY'']),
     (''semantics'', Str ''OBSERVATIONS_NOT_ACTION_AUTHORIZATION'')]"

lemma empty_bundle_of: "bundle_body_of empty_manifest = Inr empty_bundle"
proof -
  have "valid_head empty_head" by (simp add: valid_head_def empty_head_def u_max_def)
  moreover have "valid_text ''EMPTY_HISTORY''" by (simp add: valid_text_def text_max_def)
  moreover have "valid_id ''tenant1''" by code_simp
  moreover have "mapR text_of [Str ''EMPTY_HISTORY''] = Inr [''EMPTY_HISTORY'']" if "valid_text ''EMPTY_HISTORY''"
    using that by (simp add: codec_enc)
  ultimately show ?thesis
    by (simp add: bundle_body_of_def empty_bundle_def fld_some closed_eval codec_enc hash_array_def)
qed

lemma verify_fx: "lab_keys cr pk \<Longrightarrow>
    verify cr (fx_bundle cr) (make_trust cr pk) = verification ''INCOMPLETE'' [''EMPTY_HISTORY''] empty_head"
proof -
  assume keys: "lab_keys cr pk"
  have "fx_bundle cr = Obj [(''manifest'', s_env cr ''bundle'' empty_manifest), (''events'', Arr []),
      (''policies'', Arr []), (''observations'', Arr []), (''effects'', Arr []), (''evaluations'', Arr [])]"
    by (simp add: fx_bundle_def)
  then have m: "obj_of (fx_bundle cr) = Inr [(''manifest'', s_env cr ''bundle'' empty_manifest), (''events'', Arr []),
      (''policies'', Arr []), (''observations'', Arr []), (''effects'', Arr []), (''evaluations'', Arr [])]"
    by (simp add: obj_of_def)
  have body: "sd_body (lab_signed cr ''bundle'' empty_manifest) = empty_manifest" by (simp add: lab_signed_def)
  have env: "(case mget [(''manifest'', v), e1, e2, e3, e4, e5] ''manifest'' of Some v \<Rightarrow> v | None \<Rightarrow> Null) = v" for v e1 e2 e3 e4 e5
    by (simp add: mget_def)
  show ?thesis
    unfolding verify_def m sum.case env s_env_signed [OF keys] body empty_bundle_of
    by (simp add: empty_bundle_def make_trust_def members_def mget_def)
qed

lemma signed_pass: "lab_keys cr pk \<Longrightarrow> list_all (\<lambda>(n, i, e). vector_passes cr es pk lab i e = Some True) vectors_signed"
  using lab_outcome [of cr pk "''GUARDED''"] lab_outcome [of cr pk "''SHADOW''"]
  by (simp add: vectors_signed_def vector_passes_def run_vector_def str_field_def value_get_def mget_def fixture_CL merge_mode
      op_verify_empty_def fixture_EB verify_fx verification_def head_value_def empty_head_def ustr_def
      guard_texts list.pred_inject guarded_mode num_def dec.simps digit_chars)

end
