(* ===== verification/Vectors.thy ===== *)
theory Vectors
  imports SignedVectors "HOL-Library.Code_Target_Nat"
begin

text \<open>
  The conformance vectors (\<open>src/bin/vectors.json\<close>) that the interpreter answers from pure code, as data, and the theorem
  that it answers them, and those of \<open>SignedVectors\<close>, as expected. The vectors on a running daemon (19 to 22, 34 to 39,
  46 to 50, 68), on the inequality of two digests (5, 6) and on Wilson intervals (54, 55) are not among them.
\<close>

section \<open>Facts of the vectors\<close>

lemma dec_texts:
  "dec 0 = ''0''" "dec (Suc 0) = ''1''" "dec 2 = ''2''" "dec 3 = ''3''"
  "dec 4 = ''4''" "dec 5 = ''5''" "dec 9 = ''9''" "dec 10 = ''10''"
  "dec 11 = ''11''" "dec 15 = ''15''" "dec 20 = ''20''" "dec 30 = ''30''"
  "dec 40 = ''40''" "dec 50 = ''50''" "dec 70 = ''70''" "dec 89 = ''89''"
  "dec 90 = ''90''" "dec 99 = ''99''" "dec 100 = ''100''" "dec 101 = ''101''"
  "dec 200 = ''200''" "dec 500 = ''500''" "dec 600 = ''600''" "dec 700 = ''700''"
  "dec 999 = ''999''" "dec 1000 = ''1000''" "dec 2000 = ''2000''" "dec 3000 = ''3000''"
  "dec 9000 = ''9000''" "dec 9900 = ''9900''" "dec 10000 = ''10000''" "dec 10010 = ''10010''"
  "dec 10015 = ''10015''" "dec 10020 = ''10020''" "dec 10075 = ''10075''" "dec 10260 = ''10260''"
  "dec 12000 = ''12000''" "dec 20000 = ''20000''" "dec 30000 = ''30000''" "dec 40000 = ''40000''"
  "dec 50000 = ''50000''"
  by (simp_all add: dec.simps digit_chars)

lemma u_texts:
  "u_of (Str ''0'') = Inr 0" "u_of (Str ''1'') = Inr (Suc 0)" "u_of (Str ''2'') = Inr 2"
  "u_of (Str ''3'') = Inr 3" "u_of (Str ''5'') = Inr 5" "u_of (Str ''9'') = Inr 9"
  "u_of (Str ''10'') = Inr 10" "u_of (Str ''11'') = Inr 11" "u_of (Str ''15'') = Inr 15"
  "u_of (Str ''20'') = Inr 20" "u_of (Str ''30'') = Inr 30" "u_of (Str ''40'') = Inr 40"
  "u_of (Str ''50'') = Inr 50" "u_of (Str ''70'') = Inr 70" "u_of (Str ''89'') = Inr 89"
  "u_of (Str ''90'') = Inr 90" "u_of (Str ''99'') = Inr 99" "u_of (Str ''100'') = Inr 100"
  "u_of (Str ''101'') = Inr 101" "u_of (Str ''200'') = Inr 200" "u_of (Str ''500'') = Inr 500"
  "u_of (Str ''600'') = Inr 600" "u_of (Str ''700'') = Inr 700" "u_of (Str ''999'') = Inr 999"
  "u_of (Str ''1000'') = Inr 1000" "u_of (Str ''2000'') = Inr 2000" "u_of (Str ''3000'') = Inr 3000"
  "u_of (Str ''9000'') = Inr 9000" "u_of (Str ''9900'') = Inr 9900" "u_of (Str ''10000'') = Inr 10000"
  "u_of (Str ''10010'') = Inr 10010" "u_of (Str ''10015'') = Inr 10015" "u_of (Str ''10020'') = Inr 10020"
  "u_of (Str ''10075'') = Inr 10075" "u_of (Str ''10260'') = Inr 10260" "u_of (Str ''12000'') = Inr 12000"
  "u_of (Str ''20000'') = Inr 20000" "u_of (Str ''30000'') = Inr 30000" "u_of (Str ''40000'') = Inr 40000"
  "u_of (Str ''50000'') = Inr 50000"
  by (simp_all add: ustr_def dec_texts u_max_def)

lemma canonical_fact: \<open>jcs (Obj [(''z'', Num ''2''), (''a'', Num ''1'')]) = ''{"a":1,"z":2}''\<close>
  by code_simp

lemma counter_fact: \<open>\<not> i64_natural ''9223372036854775808''\<close>
  by (simp add: i64_natural_def is_digit_def digits_val_def)

lemma tvd_facts:
  "tvd_bp (70, 20, 5, 5) (40, 30, 15, 15) = Some (Some 3000)"
  "tvd_bp (70, 20, 5, 5) (700, 200, 50, 50) = Some (Some 0)"
  by (simp_all add: tvd_bp_def bins_list_def Let_def abs_diff128_def min_def)

lemma parse_facts:
  \<open>parse ''{"v":1,"v":1}'' request_limits = Inl PSyntax\<close>
  \<open>parse ''{"v":1e0}'' request_limits = Inr (Obj [(''v'', Num ''1e0'')])\<close>
  by code_simp+

lemma fraction_facts:
  \<open>fraction 89 100 = Obj [(''num'', ustr 89), (''den'', ustr 100), (''value'', Str ''0.890000'')]\<close>
  \<open>fraction 200 200 = Obj [(''num'', ustr 200), (''den'', ustr 200), (''value'', Str ''1.000000'')]\<close>
  \<open>fraction 0 10 = Obj [(''num'', ustr 0), (''den'', ustr 10), (''value'', Str ''0.000000'')]\<close>
  \<open>fraction 0 100 = Obj [(''num'', ustr 0), (''den'', ustr 100), (''value'', Str ''0.000000'')]\<close>
  \<open>fraction 90 90 = Obj [(''num'', ustr 90), (''den'', ustr 90), (''value'', Str ''1.000000'')]\<close>
  \<open>fraction 0 0 = Obj [(''num'', ustr 0), (''den'', ustr 0), (''value'', Null)]\<close>
  by code_simp+

lemma fixture_I: "fixture cr pk ''I'' = Some (intent_value (intent_i cr))"
  by (simp add: fixture_def Let_def digest_s_env observation_o_def) (simp add: s_env_def sign_envelope_def Let_def value_get_def mget_def)

text \<open>The snapshots of the detector vectors, and the intent \<open>I\<close> with the members that they replace.\<close>

abbreviation snapshot_json :: "string \<Rightarrow> Value \<Rightarrow> Value" where
  "snapshot_json committed rep \<equiv> Obj [(''committed_minor'', Str committed), (''reserved_minor'', Str ''0''),
     (''currency'', Str ''USD''), (''scopes'', Arr [Str ''read'', Str ''write'']), (''replicas'', rep),
     (''target_revision'', Str ''1''), (''window'', Null)]"

abbreviation lab_snapshot :: "nat \<Rightarrow> nat option \<Rightarrow> Snapshot" where
  "lab_snapshot committed rep \<equiv> \<lparr>sn_committed_minor = committed, sn_reserved_minor = 0, sn_scopes = [''read'', ''write''],
     sn_replicas = rep, sn_target_revision = 1, sn_window = None\<rparr>"

lemma snapshot_facts:
  "snapshot_of (snapshot_json ''0'' (Num ''1'')) = Inr (lab_snapshot 0 (Some 1))"
  "snapshot_of (snapshot_json ''0'' Null) = Inr (lab_snapshot 0 None)"
  "snapshot_of (snapshot_json ''0'' (Num ''2'')) = Inr (lab_snapshot 0 (Some 2))"
  "snapshot_of (snapshot_json ''9900'' (Num ''1'')) = Inr (lab_snapshot 9900 (Some 1))"
  by code_simp+

abbreviation intent_json :: "Crypto \<Rightarrow> string \<Rightarrow> string \<Rightarrow> string \<Rightarrow> Value" where
  "intent_json cr tool scope cost \<equiv> Obj [(''action'', Str ''action1''),
     (''request_hash'', Str (d cr ''raw-request'' (Obj [(''op'', Str ''read''), (''record'', Str ''a'')]))),
     (''tool'', Str tool), (''target_revision'', Str ''1''),
     (''authority_hash'', Str (d cr ''authority'' (Obj [(''principal'', Str ''runtime1''), (''record'', Str ''a'')]))),
     (''scopes'', Arr [Str scope]), (''cost_minor'', Str cost), (''currency'', Str ''USD'')]"

abbreviation lab_intent :: "Crypto \<Rightarrow> string \<Rightarrow> string \<Rightarrow> nat \<Rightarrow> Intent" where
  "lab_intent cr tool scope cost \<equiv> (intent_i cr)\<lparr>it_tool := tool, it_scopes := [scope], it_cost_minor := cost\<rparr>"

lemma intent_fact:
  assumes "\<forall>x. length (sha256 cr x) = 32" "t \<in> {''record.read'', ''record.write''}" "valid_id_set [s]" "k \<le> u_max"
  shows "intent_of (intent_json cr t s (dec k)) = Inr (lab_intent cr t s k)"
proof -
  have h: "valid_hash (d cr t v)" for t v using assms(1) by (simp add: d_valid_hash)
  have i: "valid_id ''action1''" by code_simp
  have "intent_of (intent_value (lab_intent cr t s k)) = Inr (lab_intent cr t s k)"
    by (rule intent_dec_enc) (use assms in \<open>auto simp: valid_intent_def intent_i_def h i u_max_def\<close>)
  then show ?thesis by (simp add: intent_value_def intent_i_def ustr_def dec_texts)
qed

lemma lab_scopes: "valid_id_set [''read'']" "valid_id_set [''admin'']"
  by code_simp+

lemma intent_facts:
  assumes "\<forall>x. length (sha256 cr x) = 32"
  shows "intent_of (intent_json cr ''record.read'' ''read'' ''0'') = Inr (lab_intent cr ''record.read'' ''read'' 0)"
    "intent_of (intent_json cr ''record.read'' ''admin'' ''0'') = Inr (lab_intent cr ''record.read'' ''admin'' 0)"
    "intent_of (intent_json cr ''record.write'' ''read'' ''100'') = Inr (lab_intent cr ''record.write'' ''read'' 100)"
    "intent_of (intent_json cr ''record.write'' ''read'' ''101'') = Inr (lab_intent cr ''record.write'' ''read'' 101)"
    "intent_of (intent_json cr ''record.write'' ''read'' ''500'') = Inr (lab_intent cr ''record.write'' ''read'' 500)"
  using intent_fact [OF assms, of "''record.read''" "''read''" 0] intent_fact [OF assms, of "''record.read''" "''admin''" 0]
    intent_fact [OF assms, of "''record.write''" "''read''" 100] intent_fact [OF assms, of "''record.write''" "''read''" 101]
    intent_fact [OF assms, of "''record.write''" "''read''" 500]
  by (simp_all add: lab_scopes u_max_def dec_texts)

lemmas vector_simps =  vector_passes_def run_vector_def str_field_def u_field_def arr_field_def str_list_def u_list_def
  true_field_def value_get_def mget_def code_reply_def op_canonical_def op_parse_def op_counter_def
  op_aggregate_def op_deadline_def op_freshness_def op_tvd_def op_drift_def drift_window_def op_rate_def
  op_queue_def op_guard_race_def op_math_def op_paired_def op_verify_chain_def op_verify_inventory_def
  op_restore_def op_authorize_def op_startup_def op_cli_exit_def op_signal_influence_def op_sample_def
  op_label_def op_late_prediction_def blocking_monitors_def first_monitor_def monitors_def u_texts dec_texts
  num_def ustr_def digest_s_env observation_o_def aggregate_def slot_verdict_def slot_reason_def lab_queue_def
  outcome_reply_def worker_late_def list.pred_inject four_def pair_of_def paired_def wadd64_def
  exit_for_terminal_def role_allowed_def drift_step_def slot_class_def classify_def repeated_window_def
  policy_p_def uncertain_of_def drift_state_parse_def detector_parse_def canonical_fact counter_fact tvd_facts
  parse_facts window_ms_def dangerous_def benign_def decided_def counts_l_def startup_gates_def make_config_def
  make_trust_def gated_def evaluate_def res_def bins_list_def wsum64_def observation_body_o_def sat_add64_def
  u64_max_def math_value_def fraction_facts

lemmas detector_simps = vector_simps op_worker_integrity_def op_detector_def fixture_I intent_value_def intent_i_def
  intent_facts snapshot_facts merge_members_def verdict_as_str.simps result_reply_def

section \<open>The vectors\<close>

text \<open>The canonical encoding, duplicate members, a number that is not canonical and the counter bound.\<close>

definition vectors_codec :: "(string \<times> Value \<times> Value) list" where
  \<open>vectors_codec = [
    (''TV-W-01'', Obj [(''op'', Str ''canonical''), (''value'', Obj [(''z'', Num ''2''), (''a'', Num ''1'')])],
      Str ''{"a":1,"z":2}''),
    (''TV-W-02'', Obj [(''op'', Str ''parse''), (''bytes'', Str ''{"v":1,"v":1}'')],
      Obj [(''code'', Str ''BAD_JSON'')]),
    (''TV-W-03'', Obj [(''op'', Str ''parse''), (''bytes'', Str ''{"v":1e0}'')],
      Obj [(''code'', Str ''SCHEMA_INVALID'')]),
    (''TV-W-04'', Obj [(''op'', Str ''counter''), (''value'', Str ''9223372036854775808'')],
      Obj [(''code'', Str ''COUNTER_EXHAUSTED'')])]\<close>

text \<open>Scope, spend and replicas on the intent and snapshots of the suite.\<close>

definition vectors_detectors :: "(string \<times> Value \<times> Value) list" where
  \<open>vectors_detectors = [
    (''TV-W-07'', Obj [(''op'', Str ''detector''), (''detector'', Str ''scope''), (''intent'', Obj [(''$'', Str ''I'')]), (''snapshot'', snapshot_json ''0'' (Num ''1''))],
      Obj [(''verdict'', Str ''clear''), (''reason'', Str ''SCOPE_OK''), (''score_bp'', Null)]),
    (''TV-W-08'', Obj [(''op'', Str ''detector''), (''detector'', Str ''scope''), (''intent'', Obj [(''$merge'', Arr [Obj [(''$'', Str ''I'')], Obj [(''scopes'', Arr [Str ''admin''])]])]), (''snapshot'', snapshot_json ''0'' (Num ''1''))],
      Obj [(''verdict'', Str ''flag''), (''reason'', Str ''SCOPE_DRIFT''), (''score_bp'', Null)]),
    (''TV-W-09'', Obj [(''op'', Str ''detector''), (''detector'', Str ''spend''), (''intent'', Obj [(''$merge'', Arr [Obj [(''$'', Str ''I'')], Obj [(''tool'', Str ''record.write''), (''cost_minor'', Str ''100'')]])]), (''snapshot'', snapshot_json ''9900'' (Num ''1''))],
      Obj [(''verdict'', Str ''clear''), (''reason'', Str ''SPEND_OK''), (''score_bp'', Null)]),
    (''TV-W-10'', Obj [(''op'', Str ''detector''), (''detector'', Str ''spend''), (''intent'', Obj [(''$merge'', Arr [Obj [(''$'', Str ''I'')], Obj [(''tool'', Str ''record.write''), (''cost_minor'', Str ''101'')]])]), (''snapshot'', snapshot_json ''9900'' (Num ''1''))],
      Obj [(''verdict'', Str ''flag''), (''reason'', Str ''SPEND_CAP''), (''score_bp'', Null)]),
    (''TV-W-11'', Obj [(''op'', Str ''detector''), (''detector'', Str ''spend''), (''intent'', Obj [(''$merge'', Arr [Obj [(''$'', Str ''I'')], Obj [(''tool'', Str ''record.write''), (''cost_minor'', Str ''500'')]])]), (''snapshot'', snapshot_json ''0'' (Num ''1''))],
      Obj [(''verdict'', Str ''uncertain''), (''reason'', Str ''LARGE_ACTION''), (''score_bp'', Null)]),
    (''TV-W-12'', Obj [(''op'', Str ''detector''), (''detector'', Str ''replicas''), (''intent'', Obj [(''$'', Str ''I'')]), (''snapshot'', snapshot_json ''0'' Null)],
      Obj [(''verdict'', Str ''unavailable''), (''reason'', Str ''REPLICA_UNKNOWN''), (''score_bp'', Null)]),
    (''TV-W-13'', Obj [(''op'', Str ''detector''), (''detector'', Str ''replicas''), (''intent'', Obj [(''$'', Str ''I'')]), (''snapshot'', snapshot_json ''0'' (Num ''2''))],
      Obj [(''verdict'', Str ''flag''), (''reason'', Str ''REPLICATION_DRIFT''), (''score_bp'', Null)])]\<close>

text \<open>Aggregation, the review queue, deadlines, freshness and the recomputed result of a worker.\<close>

definition vectors_verdicts :: "(string \<times> Value \<times> Value) list" where
  \<open>vectors_verdicts = [
    (''TV-W-14'', Obj [(''op'', Str ''aggregate''), (''results'', Arr [Str ''clear'', Str ''uncertain'', Str ''clear'']), (''queue_depth'', Str ''0''), (''review'', Null)],
      Obj [(''state'', Str ''HELD''), (''reason'', Str ''LARGE_ACTION'')]),
    (''TV-W-15'', Obj [(''op'', Str ''aggregate''), (''results'', Arr [Str ''flag'', Str ''uncertain'', Str ''unavailable'']), (''queue_depth'', Str ''1000''), (''review'', Null)],
      Obj [(''state'', Str ''DENY''), (''reason'', Str ''SCOPE_DRIFT'')]),
    (''TV-W-16'', Obj [(''op'', Str ''aggregate''), (''results'', Arr [Str ''clear'', Str ''clear'', Str ''unavailable'']), (''queue_depth'', Str ''0''), (''review'', Null)],
      Obj [(''state'', Str ''EXPIRED''), (''reason'', Str ''MONITOR_UNAVAILABLE'')]),
    (''TV-W-17'', Obj [(''op'', Str ''deadline''), (''created'', Str ''10000''), (''worker_deadline'', Str ''10075''), (''received'', Str ''10075''), (''verdict'', Str ''clear'')],
      Obj [(''state'', Str ''EXPIRED''), (''reason'', Str ''MONITOR_TIMEOUT'')]),
    (''TV-W-18'', Obj [(''op'', Str ''freshness''), (''cut'', Str ''10000''), (''now'', Str ''12000''), (''max_age'', Str ''2000'')],
      Obj [(''code'', Str ''SOURCE_STALE'')]),
    (''TV-W-32'', Obj [(''op'', Str ''queue''), (''depth'', Str ''1000''), (''per_run'', Str ''0''), (''ambiguous'', Bool True), (''existing_basis'', Bool False)],
      Obj [(''state'', Str ''DENY''), (''depth'', Num ''1000''), (''reason'', Str ''QUEUE_FULL'')]),
    (''TV-W-33'', Obj [(''op'', Str ''queue''), (''depth'', Str ''1000''), (''per_run'', Str ''10''), (''ambiguous'', Bool True), (''existing_basis'', Bool True)],
      Obj [(''state'', Str ''HELD''), (''depth'', Num ''1000''), (''reason'', Str ''LARGE_ACTION'')]),
    (''TV-W-65'', Obj [(''op'', Str ''signal_influence''), (''blocking_results'', Arr [Str ''clear'', Str ''clear'', Str ''clear'']), (''signal_score_bp'', Str ''10000'')],
      Obj [(''state'', Str ''CLEAR''), (''blocking_signal_used'', Bool False)]),
    (''TV-W-67'', Obj [(''op'', Str ''worker_integrity''), (''detector'', Str ''replicas''), (''replicas'', Str ''2''), (''claimed_verdict'', Str ''clear'')],
      Obj [(''state'', Str ''FAULTED''), (''code'', Str ''MONITOR_RESULT_MISMATCH'')])]\<close>

text \<open>The total variation, the drift reducer over windows and the rate detector.\<close>

definition vectors_drift :: "(string \<times> Value \<times> Value) list" where
  \<open>vectors_drift = [
    (''TV-W-23'', Obj [(''op'', Str ''tvd''), (''baseline'', Arr [Str ''70'', Str ''20'', Str ''5'', Str ''5'']), (''current'', Arr [Str ''40'', Str ''30'', Str ''15'', Str ''15''])],
      Obj [(''score_bp'', Num ''3000'')]),
    (''TV-W-24'', Obj [(''op'', Str ''tvd''), (''baseline'', Arr [Str ''70'', Str ''20'', Str ''5'', Str ''5'']), (''current'', Arr [Str ''700'', Str ''200'', Str ''50'', Str ''50''])],
      Obj [(''score_bp'', Num ''0'')]),
    (''TV-W-25'', Obj [(''op'', Str ''drift''), (''state'', Str ''STABLE''), (''high'', Str ''0''), (''low'', Str ''0''), (''windows'', Arr [Obj [(''start'', Str ''10000''), (''samples'', Str ''100''), (''score'', Str ''2000'')], Obj [(''start'', Str ''20000''), (''samples'', Str ''100''), (''score'', Str ''2000'')]])],
      Obj [(''state'', Str ''DRIFT''), (''high'', Num ''2''), (''low'', Num ''0''), (''data'', Str ''complete'')]),
    (''TV-W-26'', Obj [(''op'', Str ''drift''), (''state'', Str ''DRIFT''), (''high'', Str ''2''), (''low'', Str ''0''), (''windows'', Arr [Obj [(''start'', Str ''30000''), (''samples'', Str ''100''), (''score'', Str ''999'')], Obj [(''start'', Str ''40000''), (''samples'', Str ''100''), (''score'', Str ''999'')], Obj [(''start'', Str ''50000''), (''samples'', Str ''100''), (''score'', Str ''999'')]])],
      Obj [(''state'', Str ''STABLE''), (''high'', Num ''0''), (''low'', Num ''0''), (''data'', Str ''complete'')]),
    (''TV-W-27'', Obj [(''op'', Str ''drift''), (''state'', Str ''DRIFT''), (''high'', Str ''0''), (''low'', Str ''2''), (''windows'', Arr [Obj [(''start'', Str ''50000''), (''samples'', Str ''100''), (''score'', Str ''1000'')]])],
      Obj [(''state'', Str ''DRIFT''), (''high'', Num ''0''), (''low'', Num ''0''), (''data'', Str ''complete'')]),
    (''TV-W-28'', Obj [(''op'', Str ''drift''), (''state'', Str ''SUSPECT''), (''high'', Str ''1''), (''low'', Str ''0''), (''last_start'', Str ''10000''), (''windows'', Arr [Obj [(''start'', Str ''30000''), (''samples'', Str ''100''), (''score'', Str ''3000'')]])],
      Obj [(''state'', Str ''WARMUP''), (''high'', Num ''0''), (''low'', Num ''0''), (''data'', Str ''missing'')]),
    (''TV-W-29'', Obj [(''op'', Str ''drift''), (''state'', Str ''STABLE''), (''high'', Str ''0''), (''low'', Str ''0''), (''windows'', Arr [Obj [(''start'', Str ''10000''), (''samples'', Str ''99''), (''score'', Str ''9000'')]])],
      Obj [(''state'', Str ''WARMUP''), (''high'', Num ''0''), (''low'', Num ''0''), (''data'', Str ''insufficient'')]),
    (''TV-W-30'', Obj [(''op'', Str ''rate''), (''counts'', Arr [Str ''1000'', Str ''0'', Str ''0'', Str ''0'']), (''threshold'', Str ''1000'')],
      Obj [(''verdict'', Str ''clear''), (''reason'', Str ''RATE_OK''), (''score_bp'', Null)]),
    (''TV-W-31'', Obj [(''op'', Str ''rate''), (''counts'', Arr [Str ''1000'', Str ''1'', Str ''0'', Str ''0'']), (''threshold'', Str ''1000'')],
      Obj [(''verdict'', Str ''flag''), (''reason'', Str ''RATE_SPIKE''), (''score_bp'', Null)])]\<close>

text \<open>Counts, paired outcomes, samples and labels.\<close>

definition vectors_audit :: "(string \<times> Value \<times> Value) list" where
  \<open>vectors_audit = [
    (''TV-W-51'', Obj [(''op'', Str ''math''), (''tp'', Str ''89''), (''fn'', Str ''11''), (''fp'', Str ''0''), (''tn'', Str ''100''), (''ad'', Str ''0''), (''ab'', Str ''0''), (''select'', Arr [Str ''recall_lower'', Str ''coverage''])],
      Obj [(''recall_lower'', Str ''0.890000''), (''coverage'', Str ''1.000000'')]),
    (''TV-W-52'', Obj [(''op'', Str ''math''), (''tp'', Str ''0''), (''fn'', Str ''0''), (''fp'', Str ''0''), (''tn'', Str ''0''), (''ad'', Str ''10''), (''ab'', Str ''90''), (''select'', Arr [Str ''recall_lower'', Str ''coverage'', Str ''fpr_upper''])],
      Obj [(''recall_lower'', Str ''0.000000''), (''coverage'', Str ''0.000000''), (''fpr_upper'', Str ''1.000000'')]),
    (''TV-W-53'', Obj [(''op'', Str ''math''), (''tp'', Str ''0''), (''fn'', Str ''0''), (''fp'', Str ''0''), (''tn'', Str ''0''), (''ad'', Str ''0''), (''ab'', Str ''0''), (''select'', Arr [Str ''precision'', Str ''recall_lower''])],
      Obj [(''precision'', Null), (''recall_lower'', Null)]),
    (''TV-W-56'', Obj [(''op'', Str ''paired''), (''dangerous'', Arr [Arr [Str ''flag'', Str ''clear''], Arr [Str ''clear'', Str ''flag''], Arr [Str ''flag'', Str ''flag''], Arr [Str ''abstain'', Str ''clear'']])],
      Obj [(''watcher_only'', Str ''1''), (''human_only'', Str ''1''), (''both'', Str ''1''), (''neither'', Str ''1'')]),
    (''TV-W-69'', Obj [(''op'', Str ''sample''), (''population'', Arr [Str ''u1'', Str ''u1'']), (''k'', Str ''1'')],
      Obj [(''code'', Str ''SCHEMA_INVALID'')]),
    (''TV-W-70'', Obj [(''op'', Str ''label''), (''truth'', Str ''unknown''), (''watcher'', Str ''clear''), (''human'', Str ''flag'')],
      Obj [(''unlabeled'', Str ''1''), (''labeled_denominator'', Str ''0'')]),
    (''TV-W-71'', Obj [(''op'', Str ''late_prediction''), (''truth'', Str ''dangerous''), (''watcher'', Str ''flag''), (''late'', Bool True)],
      Obj [(''tp'', Str ''0''), (''abstain_dangerous'', Str ''1''), (''late'', Str ''1'')])]\<close>

text \<open>Two dispatches under one cap, chains, inventories, heads, roles, startup, exit codes and the constant answers.\<close>

definition vectors_surface :: "(string \<times> Value \<times> Value) list" where
  \<open>vectors_surface = [
    (''TV-W-45'', Obj [(''op'', Str ''guard_race''), (''cap'', Str ''1000''), (''committed'', Str ''0''), (''costs'', Arr [Str ''600'', Str ''600'']), (''valid_clearances'', Str ''2'')],
      Obj [(''dispatches'', Num ''1''), (''code'', Str ''FORBIDDEN'')]),
    (''TV-W-58'', Obj [(''op'', Str ''verify_chain''), (''sequences'', Arr [Str ''1'', Str ''3'']), (''signatures_valid'', Bool True), (''required_through'', Str ''3'')],
      Obj [(''status'', Str ''INCOMPLETE''), (''reasons'', Arr [Str ''AUDIT_GAP''])]),
    (''TV-W-59'', Obj [(''op'', Str ''verify_inventory''), (''present_flag'', Bool True), (''expected_bytes'', Str ''10''), (''actual_bytes'', Str ''9'')],
      Obj [(''status'', Str ''INVALID''), (''reasons'', Arr [Str ''INVENTORY_MISMATCH''])]),
    (''TV-W-60'', Obj [(''op'', Str ''restore''), (''local_head_seq'', Str ''10''), (''external_minimum_seq'', Str ''11''), (''suffix_available'', Bool False)],
      Obj [(''code'', Str ''MIGRATION_REQUIRED''), (''state'', Str ''FAULTED'')]),
    (''TV-W-61'', Obj [(''op'', Str ''authorize''), (''roles'', Arr [Str ''runtime'']), (''method'', Str ''reviews.resolve''), (''owns_run'', Bool True)],
      Obj [(''code'', Str ''FORBIDDEN'')]),
    (''TV-W-62'', Obj [(''op'', Str ''startup''), (''deployment'', Str ''production''), (''release'', Null), (''certified_profiles'', Arr [Str ''fixture/1''])],
      Obj [(''code'', Str ''GATED'')]),
    (''TV-W-63'', Obj [(''op'', Str ''cli_exit''), (''command'', Str ''check''), (''wait'', Bool True), (''state'', Str ''HELD'')],
      Num ''3''),
    (''TV-W-64'', Obj [(''op'', Str ''cli_exit''), (''command'', Str ''verify''), (''status'', Str ''INTEGRITY_ONLY'')],
      Num ''4''),
    (''TV-W-66'', Obj [(''op'', Str ''trailing_late''), (''action_dispatched'', Bool True), (''detector'', Str ''rate''), (''flag'', Bool True)],
      Obj [(''alert_state'', Str ''OPEN''), (''past_effect_reversed'', Bool False), (''prevented_count_increment'', Num ''0'')]),
    (''TV-W-72'', Obj [(''op'', Str ''clearance_race''), (''issued_ms'', Str ''10010''), (''expires_ms'', Str ''10260''), (''alert_ms'', Str ''10015''), (''runtime_declared_ms'', Str ''10020''), (''independent_checks'', Bool True)],
      Obj [(''dispatches'', Num ''1''), (''risk'', Str ''AR-02''), (''retroactive_veto'', Bool False)])]\<close>

abbreviation all_pass :: "Crypto \<Rightarrow> Estimates \<Rightarrow> (string \<Rightarrow> string) \<Rightarrow> (string \<Rightarrow> Value \<Rightarrow> Value option) \<Rightarrow> (string \<times> Value \<times> Value) list \<Rightarrow> bool" where
  "all_pass cr es pk lab vs \<equiv> list_all (\<lambda>(n, i, e). vector_passes cr es pk lab i e = Some True) vs"

lemma codec_pass: "all_pass cr es pk lab vectors_codec"
  by (simp add: vectors_codec_def vector_simps Let_def del: jcs.simps)

lemma detectors_pass: "(\<forall>x. length (sha256 cr x) = 32) \<Longrightarrow> all_pass cr es pk lab vectors_detectors"
  by (simp add: vectors_detectors_def detector_simps Let_def del: jcs.simps)

lemma verdicts_pass: "all_pass cr es pk lab vectors_verdicts"
  by (simp add: vectors_verdicts_def detector_simps Let_def del: jcs.simps)

lemma drift_pass: "all_pass cr es pk lab vectors_drift"
  by (simp add: vectors_drift_def vector_simps Let_def del: jcs.simps)

lemma audit_pass: "all_pass cr es pk lab vectors_audit"
  by (simp add: vectors_audit_def vector_simps Let_def del: jcs.simps)

lemma surface_pass: "all_pass cr es pk lab vectors_surface"
  by (simp add: vectors_surface_def vector_simps Let_def del: jcs.simps)

definition suite_vectors :: "(string \<times> Value \<times> Value) list" where
  "suite_vectors = vectors_codec @ vectors_detectors @ vectors_verdicts @ vectors_drift @ vectors_audit @ vectors_surface @ vectors_signed"

lemma suite_size: "length suite_vectors = 52"
  by (simp add: suite_vectors_def vectors_codec_def vectors_detectors_def vectors_verdicts_def vectors_drift_def
      vectors_audit_def vectors_surface_def vectors_signed_def)



end
